(* ===== verification/Prelude.thy ===== *)
theory Prelude
  imports Main "HOL-Library.Word"
begin

text \<open>
  Shared vocabulary of the go-xbridge development: bytes and byte slices, Go strings, Go
  results (a returned error or a run-time panic against a value), little-endian integers of
  \<^verbatim>\<open>encoding/binary\<close>, and the list lemmas that the components share.

  Conventions used in every theory:
  \<^item> a Go \<^verbatim>\<open>byte\<close> is an \<open>8 word\<close>, \<^verbatim>\<open>uint16/32/64\<close> are words of that width, and a
    slice length is a natural number (a slice never reaches \<open>2 ^ 63\<close> elements);
  \<^item> a fixed array \<^verbatim>\<open>[n]byte\<close> is a byte list, and the well-formedness predicate of the
    surrounding record says that its length is \<open>n\<close>;
  \<^item> a Go \<^verbatim>\<open>string\<close> is a byte sequence, written as an Isabelle \<open>string\<close>;
  \<^item> a function that can return an error or panic has a result of type \<open>'a go\<close>.
\<close>

section \<open>Types\<close>

type_synonym byte = "8 word"
type_synonym bytes = "byte list"
type_synonym u16 = "16 word"
type_synonym u32 = "32 word"
type_synonym u64 = "64 word"

text \<open>A failed Go call: an \<^verbatim>\<open>error\<close> value that is returned, or a run-time panic.\<close>

datatype go_fail = GoErr string | GoPanic string

type_synonym 'a go = "go_fail + 'a"

text \<open>
  \<open>go_bind\<close> is the idiom \<^verbatim>\<open>v, err := f(); if err != nil { return err }\<close>: it stops at the
  first failure and otherwise goes on with the value.
\<close>

definition go_bind :: "'a go \<Rightarrow> ('a \<Rightarrow> 'b go) \<Rightarrow> 'b go" where
  "go_bind m k = (case m of Inl e \<Rightarrow> Inl e | Inr v \<Rightarrow> k v)"

definition panics :: "'a go \<Rightarrow> bool" where
  "panics m = (case m of Inl (GoPanic _) \<Rightarrow> True | _ \<Rightarrow> False)"

definition succeeds :: "'a go \<Rightarrow> bool" where
  "succeeds m = (case m of Inl _ \<Rightarrow> False | Inr _ \<Rightarrow> True)"

section \<open>Strings as bytes\<close>

definition byte_of_char :: "char \<Rightarrow> byte" where
  "byte_of_char c = of_nat (of_char c)"

definition char_of_byte :: "byte \<Rightarrow> char" where
  "char_of_byte b = char_of (unat b)"

definition str_bytes :: "string \<Rightarrow> bytes" where
  "str_bytes s = map byte_of_char s"

definition bytes_str :: "bytes \<Rightarrow> string" where
  "bytes_str b = map char_of_byte b"

section \<open>Little-endian integers\<close>

fun le_bytes :: "nat \<Rightarrow> nat \<Rightarrow> bytes" where
  "le_bytes 0 n = []"
| "le_bytes (Suc k) n = of_nat (n mod 256) # le_bytes k (n div 256)"

fun le_nat :: "bytes \<Rightarrow> nat" where
  "le_nat [] = 0"
| "le_nat (b # bs) = unat b + 256 * le_nat bs"

definition PutUint16 :: "u16 \<Rightarrow> bytes" where
  "PutUint16 v = le_bytes 2 (unat v)"

definition PutUint32 :: "u32 \<Rightarrow> bytes" where
  "PutUint32 v = le_bytes 4 (unat v)"

definition PutUint64 :: "u64 \<Rightarrow> bytes" where
  "PutUint64 v = le_bytes 8 (unat v)"

text \<open>The decoders read a prefix; the callers below check that it is there.\<close>

definition Uint16 :: "bytes \<Rightarrow> u16" where
  "Uint16 b = of_nat (le_nat (take 2 b))"

definition Uint32 :: "bytes \<Rightarrow> u32" where
  "Uint32 b = of_nat (le_nat (take 4 b))"

definition Uint64 :: "bytes \<Rightarrow> u64" where
  "Uint64 b = of_nat (le_nat (take 8 b))"

section \<open>Lemmas\<close>

lemma go_bind_simps [simp]:
  "go_bind (Inl e) k = Inl e"
  "go_bind (Inr v) k = k v"
  by (simp_all add: go_bind_def)

lemma go_bind_eq_Inr:
  "go_bind m k = Inr y \<longleftrightarrow> (\<exists>x. m = Inr x \<and> k x = Inr y)"
  by (cases m) auto

lemma go_bind_InrE [elim!]:
  assumes "go_bind m k = Inr y"
  obtains x where "m = Inr x" and "k x = Inr y"
  using assms by (auto simp: go_bind_eq_Inr)

text \<open>A guard that returns an error: inverting a call that succeeded.\<close>

lemma if_Inl_eq_Inr: "(if c then Inl e else k) = Inr v \<longleftrightarrow> \<not> c \<and> k = Inr v"
  by simp

lemma panics_simps [simp]:
  "panics (Inl (GoPanic s))" "\<not> panics (Inl (GoErr s))" "\<not> panics (Inr v)"
  by (simp_all add: panics_def)

lemma panics_go_bind:
  "panics (go_bind m k) \<longleftrightarrow> panics m \<or> (\<exists>v. m = Inr v \<and> panics (k v))"
  by (cases m) (auto simp: panics_def split: go_fail.splits)

lemma unat_less_2p: "unat (w :: 'a::len word) < 2 ^ LENGTH('a)"
  by (rule unsigned_less)

lemma byte_of_char_of_byte [simp]: "byte_of_char (char_of_byte b) = b"
proof -
  have "unat b < 256" using unat_less_2p [of b] by simp
  then show ?thesis by (simp add: byte_of_char_def char_of_byte_def)
qed

lemma char_of_byte_of_char [simp]: "char_of_byte (byte_of_char c) = c"
proof -
  have "(of_char c :: nat) < 256" by (rule nat_of_char_less_256)
  then show ?thesis by (simp add: byte_of_char_def char_of_byte_def unat_of_nat)
qed

lemma byte_of_char_inj [simp]: "byte_of_char c = byte_of_char d \<longleftrightarrow> c = d"
  by (metis char_of_byte_of_char)

lemma str_bytes_of_str [simp]: "str_bytes (bytes_str b) = b"
  by (simp add: str_bytes_def bytes_str_def comp_def)

lemma bytes_str_of_bytes [simp]: "bytes_str (str_bytes s) = s"
  by (simp add: str_bytes_def bytes_str_def comp_def)

lemma str_bytes_append [simp]: "str_bytes (s @ t) = str_bytes s @ str_bytes t"
  by (simp add: str_bytes_def)

lemma length_str_bytes [simp]: "length (str_bytes s) = length s"
  by (simp add: str_bytes_def)

lemma length_bytes_str [simp]: "length (bytes_str b) = length b"
  by (simp add: bytes_str_def)

lemma length_le_bytes [simp]: "length (le_bytes k n) = k"
  by (induction k arbitrary: n) auto

lemma le_nat_le_bytes: "le_nat (le_bytes k n) = n mod 256 ^ k"
proof (induction k arbitrary: n)
  case 0
  then show ?case by simp
next
  case (Suc k)
  have "unat (of_nat (n mod 256) :: byte) = n mod 256"
    by (simp add: unat_of_nat)
  with Suc show ?case by (simp add: mod_mult2_eq mult.commute)
qed

lemma le_nat_bound: "le_nat bs < 256 ^ length bs"
proof (induction bs)
  case (Cons b bs)
  have "unat b < 256" using unat_less_2p [of b] by simp
  moreover have "le_nat bs + 1 \<le> 256 ^ length bs" using Cons by simp
  ultimately show ?case
    using mult_le_mono2 [of "le_nat bs + 1" "256 ^ length bs" 256] by simp
qed simp

lemma le_bytes_le_nat: "length bs = k \<Longrightarrow> le_bytes k (le_nat bs) = bs"
proof (induction bs arbitrary: k)
  case (Cons b bs)
  have b: "unat b < 256" using unat_less_2p [of b] by simp
  then have "(unat b + 256 * le_nat bs) mod 256 = unat b"
    and "(unat b + 256 * le_nat bs) div 256 = le_nat bs"
    by simp_all
  with Cons show ?case by auto
qed simp

lemma length_PutUint [simp]:
  "length (PutUint16 v) = 2" "length (PutUint32 w) = 4" "length (PutUint64 x) = 8"
  by (simp_all add: PutUint16_def PutUint32_def PutUint64_def)

lemma Uint16_PutUint16 [simp]: "Uint16 (PutUint16 v @ r) = v"
  using unat_less_2p [of v] by (simp add: Uint16_def PutUint16_def le_nat_le_bytes)

lemma Uint32_PutUint32 [simp]: "Uint32 (PutUint32 v @ r) = v"
  using unat_less_2p [of v] by (simp add: Uint32_def PutUint32_def le_nat_le_bytes)

lemma Uint64_PutUint64 [simp]: "Uint64 (PutUint64 v @ r) = v"
  using unat_less_2p [of v] by (simp add: Uint64_def PutUint64_def le_nat_le_bytes)

lemma Uint_PutUint [simp]:
  "Uint16 (PutUint16 v) = v" "Uint32 (PutUint32 w) = w" "Uint64 (PutUint64 x) = x"
  using Uint16_PutUint16 [of v "[]"] Uint32_PutUint32 [of w "[]"] Uint64_PutUint64 [of x "[]"]
  by simp_all

lemma PutUint16_Uint16: "2 \<le> length b \<Longrightarrow> PutUint16 (Uint16 b) = take 2 b"
  using le_nat_bound [of "take 2 b"]
  by (simp add: Uint16_def PutUint16_def unat_of_nat le_bytes_le_nat)

lemma PutUint32_Uint32: "4 \<le> length b \<Longrightarrow> PutUint32 (Uint32 b) = take 4 b"
  using le_nat_bound [of "take 4 b"]
  by (simp add: Uint32_def PutUint32_def unat_of_nat le_bytes_le_nat)

lemma PutUint64_Uint64: "8 \<le> length b \<Longrightarrow> PutUint64 (Uint64 b) = take 8 b"
  using le_nat_bound [of "take 8 b"]
  by (simp add: Uint64_def PutUint64_def unat_of_nat le_bytes_le_nat)

lemma take_append_exact [simp]: "length xs = n \<Longrightarrow> take n (xs @ ys) = xs"
  by simp

lemma drop_append_exact [simp]: "length xs = n \<Longrightarrow> drop n (xs @ ys) = ys"
  by simp

lemma Uint_take [simp]:
  "2 \<le> n \<Longrightarrow> Uint16 (take n b) = Uint16 b"
  "4 \<le> n \<Longrightarrow> Uint32 (take n b) = Uint32 b"
  "8 \<le> n \<Longrightarrow> Uint64 (take n b) = Uint64 b"
  by (simp_all add: Uint16_def Uint32_def Uint64_def min_def)

end
