(* ===== verification/ProtoBody.thy ===== *)
theory ProtoBody
  imports Prelude
begin

text \<open>
  The body reader and writer of \<^verbatim>\<open>proto/body.go\<close>. A \<open>BodyWriter\<close> is its buffer; a
  \<open>BodyReader\<close> is the record of the data and the position, as in the source. The locale
  \<open>wire_codec\<close> states what a body field promises: reading back what was written yields the
  value and leaves the rest, and a successful read determines the bytes it consumed. Every
  field kind of the source is an instance of it, and the body types use its bind rules.
\<close>

section \<open>Writer\<close>

type_synonym body_writer = bytes

definition NewBodyWriter :: body_writer where
  "NewBodyWriter = []"

definition BW_Uint32 :: "body_writer \<Rightarrow> u32 \<Rightarrow> body_writer" where
  "BW_Uint32 w v = w @ PutUint32 v"

definition BW_Uint64 :: "body_writer \<Rightarrow> u64 \<Rightarrow> body_writer" where
  "BW_Uint64 w v = w @ PutUint64 v"

definition BW_Uint16 :: "body_writer \<Rightarrow> u16 \<Rightarrow> body_writer" where
  "BW_Uint16 w v = w @ PutUint16 v"

definition BW_PubKey :: "body_writer \<Rightarrow> bytes \<Rightarrow> body_writer" where
  "BW_PubKey w p = w @ p"

definition BW_Bytes :: "body_writer \<Rightarrow> bytes \<Rightarrow> body_writer" where
  "BW_Bytes w b = w @ b"

definition BW_String :: "body_writer \<Rightarrow> string \<Rightarrow> body_writer" where
  "BW_String w s = (w @ str_bytes s) @ [0]"

definition BW_Hash :: "body_writer \<Rightarrow> bytes \<Rightarrow> body_writer" where
  "BW_Hash w h = w @ h"

definition BW_Addr :: "body_writer \<Rightarrow> bytes \<Rightarrow> body_writer" where
  "BW_Addr w a = w @ a"

text \<open>\<^verbatim>\<open>var b [8]byte; copy(b[:], []byte(s))\<close>: at most 8 bytes, null-padded.\<close>

definition pad8 :: "string \<Rightarrow> bytes" where
  "pad8 s = (let c = take 8 (str_bytes s) in c @ replicate (8 - length c) 0)"

definition BW_Currency :: "body_writer \<Rightarrow> string \<Rightarrow> body_writer" where
  "BW_Currency w s = w @ pad8 s"

definition BW_Payload :: "body_writer \<Rightarrow> bytes" where
  "BW_Payload w = w"

section \<open>Reader\<close>

record body_reader =
  rd_data :: bytes
  rd_pos :: nat

definition NewBodyReader :: "bytes \<Rightarrow> body_reader" where
  "NewBodyReader b = \<lparr>rd_data = b, rd_pos = 0\<rparr>"

definition remaining :: "body_reader \<Rightarrow> int" where
  "remaining r = int (length (rd_data r)) - int (rd_pos r)"

definition rd_rest :: "body_reader \<Rightarrow> bytes" where
  "rd_rest r = drop (rd_pos r) (rd_data r)"

definition rd_skip :: "nat \<Rightarrow> body_reader \<Rightarrow> body_reader" where
  "rd_skip n r = r\<lparr>rd_pos := rd_pos r + n\<rparr>"

definition BR_Uint32 :: "body_reader \<Rightarrow> (u32 \<times> body_reader) go" where
  "BR_Uint32 r = (if remaining r < 4 then Inl (GoErr ''xbridge: body underflow (uint32)'')
     else Inr (Uint32 (rd_rest r), rd_skip 4 r))"

definition BR_Uint64 :: "body_reader \<Rightarrow> (u64 \<times> body_reader) go" where
  "BR_Uint64 r = (if remaining r < 8 then Inl (GoErr ''xbridge: body underflow (uint64)'')
     else Inr (Uint64 (rd_rest r), rd_skip 8 r))"

definition BR_Uint16 :: "body_reader \<Rightarrow> (u16 \<times> body_reader) go" where
  "BR_Uint16 r = (if remaining r < 2 then Inl (GoErr ''xbridge: body underflow (uint16)'')
     else Inr (Uint16 (rd_rest r), rd_skip 2 r))"

definition BR_Bytes :: "nat \<Rightarrow> body_reader \<Rightarrow> (bytes \<times> body_reader) go" where
  "BR_Bytes n r = (if remaining r < int n then Inl (GoErr ''xbridge: body underflow (bytes)'')
     else Inr (take n (rd_rest r), rd_skip n r))"

definition BR_PubKey :: "body_reader \<Rightarrow> (bytes \<times> body_reader) go" where
  "BR_PubKey r = BR_Bytes 33 r"

definition BR_Hash :: "body_reader \<Rightarrow> (bytes \<times> body_reader) go" where
  "BR_Hash r = BR_Bytes 32 r"

definition BR_Addr :: "body_reader \<Rightarrow> (bytes \<times> body_reader) go" where
  "BR_Addr r = BR_Bytes 20 r"

text \<open>The scan of \<^verbatim>\<open>String\<close>: the first index from \<open>i\<close> on that holds a zero byte.\<close>

function find_zero :: "bytes \<Rightarrow> nat \<Rightarrow> nat option" where
  "find_zero d i = (if i < length d then (if d ! i = 0 then Some i else find_zero d (Suc i))
     else None)"
  by pat_completeness auto
termination
  by (relation "measure (\<lambda>(d, i). length d - i)") auto

declare find_zero.simps [simp del]

definition BR_String :: "body_reader \<Rightarrow> (string \<times> body_reader) go" where
  "BR_String r = (case find_zero (rd_data r) (rd_pos r) of
       Some i \<Rightarrow> Inr (bytes_str (take (i - rd_pos r) (rd_rest r)), r\<lparr>rd_pos := i + 1\<rparr>)
     | None \<Rightarrow> Inl (GoErr ''xbridge: unterminated string in body''))"

text \<open>The loop of \<^verbatim>\<open>Currency\<close> that walks \<^verbatim>\<open>end\<close> down over trailing zero bytes.\<close>

fun trim_end :: "bytes \<Rightarrow> nat \<Rightarrow> nat" where
  "trim_end b 0 = 0"
| "trim_end b (Suc e) = (if b ! e = 0 then trim_end b e else Suc e)"

definition BR_Currency :: "body_reader \<Rightarrow> (string \<times> body_reader) go" where
  "BR_Currency r = go_bind (BR_Bytes 8 r)
     (\<lambda>(b, r'). Inr (bytes_str (take (trim_end b (length b)) b), r'))"

section \<open>The codec interface\<close>

text \<open>A reader whose position is inside its data; every reader the code makes is one.\<close>

definition rd_ok :: "body_reader \<Rightarrow> bool" where
  "rd_ok r \<longleftrightarrow> rd_pos r \<le> length (rd_data r)"

named_theorems reader_simps \<open>symbolic execution of the body reader\<close>

lemma rd_ok_new [simp]: "rd_ok (NewBodyReader d)"
  by (simp add: rd_ok_def NewBodyReader_def)

lemma rd_rest_new [simp]: "rd_rest (NewBodyReader d) = d"
  by (simp add: rd_rest_def NewBodyReader_def)

lemma rd_data_new [simp]: "rd_data (NewBodyReader d) = d"
  by (simp add: NewBodyReader_def)

lemma rd_rest_skip [simp]: "rd_rest (rd_skip n r) = drop n (rd_rest r)"
  by (simp add: rd_rest_def rd_skip_def add.commute)

lemma rd_skip_skip: "rd_skip m (rd_skip n r) = rd_skip (n + m) r"
  by (simp add: rd_skip_def add.commute add.left_commute)

lemma rd_ok_skip [simp]: "rd_ok r \<Longrightarrow> rd_ok (rd_skip n r) \<longleftrightarrow> n \<le> length (rd_rest r)"
  by (auto simp: rd_ok_def rd_skip_def rd_rest_def)

lemma rd_data_skip [simp]: "rd_data (rd_skip n r) = rd_data r"
  by (simp add: rd_skip_def)

lemma remaining_eq: "rd_ok r \<Longrightarrow> remaining r = int (length (rd_rest r))"
  by (auto simp: rd_ok_def remaining_def rd_rest_def)

lemma remaining_less: "0 < n \<Longrightarrow> remaining r < int n \<longleftrightarrow> length (rd_rest r) < n"
  by (auto simp: remaining_def rd_rest_def)

locale wire_codec =
  fixes put :: "'a \<Rightarrow> bytes"
    and get :: "body_reader \<Rightarrow> ('a \<times> body_reader) go"
    and ok :: "'a \<Rightarrow> bool"
  assumes get_put: "rd_ok r \<Longrightarrow> rd_rest r = put x @ ys \<Longrightarrow> ok x \<Longrightarrow>
      get r = Inr (x, rd_skip (length (put x)) r)"
    and get_inv: "rd_ok r \<Longrightarrow> get r = Inr (x, r') \<Longrightarrow>
      ok x \<and> rd_ok r' \<and> rd_data r' = rd_data r \<and> rd_rest r = put x @ rd_rest r'"
    and get_no_panic: "\<not> panics (get r)"
begin

text \<open>Inverting a successful read under a continuation, in the shape the elimination needs.\<close>

lemma bind_get_InrE:
  assumes "go_bind (get r) k = Inr res"
  obtains x r' where "k (x, r') = Inr res"
    and "rd_ok r \<Longrightarrow> ok x \<and> rd_ok r' \<and> rd_data r' = rd_data r \<and> rd_rest r = put x @ rd_rest r'"
proof -
  from assms obtain x r' where g: "get r = Inr (x, r')" and "k (x, r') = Inr res"
    by (auto simp: go_bind_eq_Inr)
  have "ok x \<and> rd_ok r' \<and> rd_data r' = rd_data r \<and> rd_rest r = put x @ rd_rest r'"
    if "rd_ok r"
    by (rule get_inv [OF that g])
  with \<open>k (x, r') = Inr res\<close> show thesis by (rule that)
qed

text \<open>Encodings are prefix-free: two encodings that agree up to some tail are the same.\<close>

lemma put_prefix_free:
  assumes "ok x" and "ok y" and "put x @ xs = put y @ ys"
  shows "x = y \<and> xs = ys"
proof -
  let ?r = "NewBodyReader (put x @ xs)"
  have "get ?r = Inr (x, rd_skip (length (put x)) ?r)"
    by (rule get_put) (simp_all add: \<open>ok x\<close>)
  moreover have "get ?r = Inr (y, rd_skip (length (put y)) ?r)"
    by (rule get_put) (simp_all add: \<open>ok y\<close> assms(3))
  ultimately have "x = y" by simp
  with assms(3) show ?thesis by simp
qed

end

section \<open>The field kinds implement it\<close>

lemma BR_Uint_at [reader_simps]:
  "BR_Uint16 r = (if length (rd_rest r) < 2 then Inl (GoErr ''xbridge: body underflow (uint16)'')
     else Inr (Uint16 (rd_rest r), rd_skip 2 r))"
  "BR_Uint32 r = (if length (rd_rest r) < 4 then Inl (GoErr ''xbridge: body underflow (uint32)'')
     else Inr (Uint32 (rd_rest r), rd_skip 4 r))"
  "BR_Uint64 r = (if length (rd_rest r) < 8 then Inl (GoErr ''xbridge: body underflow (uint64)'')
     else Inr (Uint64 (rd_rest r), rd_skip 8 r))"
  using remaining_less [of 2 r] remaining_less [of 4 r] remaining_less [of 8 r]
  by (simp_all add: BR_Uint16_def BR_Uint32_def BR_Uint64_def)

lemma BR_Bytes_at [reader_simps]:
  "rd_ok r \<or> 0 < n \<Longrightarrow> BR_Bytes n r =
     (if length (rd_rest r) < n then Inl (GoErr ''xbridge: body underflow (bytes)'')
      else Inr (take n (rd_rest r), rd_skip n r))"
  by (cases "0 < n") (auto simp: BR_Bytes_def remaining_less remaining_eq)

lemma BR_fixed_at [reader_simps]:
  "BR_Hash r = (if length (rd_rest r) < 32 then Inl (GoErr ''xbridge: body underflow (bytes)'')
      else Inr (take 32 (rd_rest r), rd_skip 32 r))"
  "BR_Addr r = (if length (rd_rest r) < 20 then Inl (GoErr ''xbridge: body underflow (bytes)'')
      else Inr (take 20 (rd_rest r), rd_skip 20 r))"
  "BR_PubKey r = (if length (rd_rest r) < 33 then Inl (GoErr ''xbridge: body underflow (bytes)'')
      else Inr (take 33 (rd_rest r), rd_skip 33 r))"
  by (simp_all add: BR_Hash_def BR_Addr_def BR_PubKey_def BR_Bytes_at)

interpretation c16: wire_codec PutUint16 BR_Uint16 "\<lambda>_. True"
proof
  show "\<And>r x r'. rd_ok r \<Longrightarrow> BR_Uint16 r = Inr (x, r') \<Longrightarrow>
      True \<and> rd_ok r' \<and> rd_data r' = rd_data r \<and>
      rd_rest r = PutUint16 x @ rd_rest r'"
    by (auto simp: BR_Uint_at PutUint16_Uint16 split: if_splits)
qed (simp_all add: BR_Uint_at)

interpretation c32: wire_codec PutUint32 BR_Uint32 "\<lambda>_. True"
proof
  show "\<And>r x r'. rd_ok r \<Longrightarrow> BR_Uint32 r = Inr (x, r') \<Longrightarrow>
      True \<and> rd_ok r' \<and> rd_data r' = rd_data r \<and>
      rd_rest r = PutUint32 x @ rd_rest r'"
    by (auto simp: BR_Uint_at PutUint32_Uint32 split: if_splits)
qed (simp_all add: BR_Uint_at)

interpretation c64: wire_codec PutUint64 BR_Uint64 "\<lambda>_. True"
proof
  show "\<And>r x r'. rd_ok r \<Longrightarrow> BR_Uint64 r = Inr (x, r') \<Longrightarrow>
      True \<and> rd_ok r' \<and> rd_data r' = rd_data r \<and>
      rd_rest r = PutUint64 x @ rd_rest r'"
    by (auto simp: BR_Uint_at PutUint64_Uint64 split: if_splits)
qed (simp_all add: BR_Uint_at)

text \<open>The raw arrays: one law for every length, used at 65, 33, 32, 20 and 8.\<close>

lemma bytes_codec: "wire_codec (\<lambda>b. b) (BR_Bytes n) (\<lambda>b. length b = n)"
proof
  show "\<And>r x r'. rd_ok r \<Longrightarrow> BR_Bytes n r = Inr (x, r') \<Longrightarrow>
      length x = n \<and> rd_ok r' \<and> rd_data r' = rd_data r \<and> rd_rest r = x @ rd_rest r'"
    by (auto simp: BR_Bytes_at split: if_splits)
  show "\<And>r. \<not> panics (BR_Bytes n r)" by (simp add: BR_Bytes_def)
qed (auto simp: BR_Bytes_at)

interpretation craw: wire_codec "\<lambda>b. b" "BR_Bytes n" "\<lambda>b. length b = n" for n
  by (rule bytes_codec)

interpretation cpub: wire_codec "\<lambda>b. b" BR_PubKey "\<lambda>b. length b = 33"
  using bytes_codec [of 33] by (simp add: BR_PubKey_def [abs_def])

interpretation chash: wire_codec "\<lambda>b. b" BR_Hash "\<lambda>b. length b = 32"
  using bytes_codec [of 32] by (simp add: BR_Hash_def [abs_def])

interpretation caddr: wire_codec "\<lambda>b. b" BR_Addr "\<lambda>b. length b = 20"
  using bytes_codec [of 20] by (simp add: BR_Addr_def [abs_def])

section \<open>Null-terminated strings\<close>

definition put_string :: "string \<Rightarrow> bytes" where
  "put_string s = str_bytes s @ [0]"

definition nul_free :: "string \<Rightarrow> bool" where
  "nul_free s \<longleftrightarrow> 0 \<notin> set (str_bytes s)"

lemma find_zero_eq:
  "find_zero d i = (if 0 \<in> set (drop i d)
     then Some (i + length (takeWhile (\<lambda>b. b \<noteq> 0) (drop i d))) else None)"
proof (induction d i rule: find_zero.induct)
  case (1 d i)
  show ?case
  proof (cases "i < length d")
    case True
    then have "drop i d = d ! i # drop (Suc i) d" by (simp add: Cons_nth_drop_Suc)
    with 1 True show ?thesis by (auto simp: find_zero.simps [of d i])
  next
    case False
    then show ?thesis by (simp add: find_zero.simps)
  qed
qed

lemma BR_String_at [reader_simps]:
  "BR_String r = (if 0 \<in> set (rd_rest r)
     then Inr (bytes_str (takeWhile (\<lambda>b. b \<noteq> 0) (rd_rest r)),
       rd_skip (Suc (length (takeWhile (\<lambda>b. b \<noteq> 0) (rd_rest r)))) r)
     else Inl (GoErr ''xbridge: unterminated string in body''))"
  by (simp add: BR_String_def find_zero_eq rd_rest_def rd_skip_def flip: takeWhile_eq_take)

lemma takeWhile_nul_free [simp]:
  "0 \<notin> set bs \<Longrightarrow> takeWhile (\<lambda>b. b \<noteq> 0) (bs @ 0 # ys) = bs"
  by (induction bs) auto

lemma split_at_zero:
  assumes "(0 :: byte) \<in> set bs"
  shows "Suc (length (takeWhile (\<lambda>b. b \<noteq> 0) bs)) \<le> length bs"
    and "bs = takeWhile (\<lambda>b. b \<noteq> 0) bs @ 0 # drop (Suc (length (takeWhile (\<lambda>b. b \<noteq> 0) bs))) bs"
  using assms by (induction bs) auto

lemma nul_free_takeWhile: "nul_free (bytes_str (takeWhile (\<lambda>b. b \<noteq> 0) bs))"
  by (auto simp: nul_free_def dest: set_takeWhileD)

interpretation cstr: wire_codec put_string BR_String nul_free
proof
  show "\<And>r x r'. rd_ok r \<Longrightarrow> BR_String r = Inr (x, r') \<Longrightarrow>
      nul_free x \<and> rd_ok r' \<and> rd_data r' = rd_data r \<and>
      rd_rest r = put_string x @ rd_rest r'"
    by (auto simp: BR_String_at put_string_def nul_free_takeWhile split: if_splits
        intro: split_at_zero)
qed (simp_all add: BR_String_at put_string_def nul_free_def)

section \<open>Currency codes\<close>

definition currency_ok :: "string \<Rightarrow> bool" where
  "currency_ok s \<longleftrightarrow> length s \<le> 8 \<and> (s \<noteq> [] \<longrightarrow> byte_of_char (last s) \<noteq> 0)"

definition strip_zeros :: "bytes \<Rightarrow> bytes" where
  "strip_zeros b = rev (dropWhile ((=) 0) (rev b))"

lemma take_trim_end: "n \<le> length b \<Longrightarrow> take (trim_end b n) b = strip_zeros (take n b)"
  by (induction n) (auto simp: strip_zeros_def take_Suc_conv_app_nth)

lemma strip_zeros_app_zeros [simp]: "strip_zeros (b @ replicate k 0) = strip_zeros b"
  by (induction k) (auto simp: strip_zeros_def replicate_app_Cons_same simp flip: append_assoc)

lemma strip_zeros_id: "b = [] \<or> last b \<noteq> 0 \<Longrightarrow> strip_zeros b = b"
  by (cases b rule: rev_cases) (auto simp: strip_zeros_def)

lemma strip_zeros_last: "strip_zeros b = [] \<or> last (strip_zeros b) \<noteq> 0"
  by (induction b rule: rev_induct) (auto simp: strip_zeros_def)

lemma length_strip_zeros: "length (strip_zeros b) \<le> length b"
  by (simp add: strip_zeros_def length_dropWhile_le [of _ "rev b", simplified])

lemma strip_zeros_pad: "strip_zeros b @ replicate (length b - length (strip_zeros b)) 0 = b"
proof (induction b rule: rev_induct)
  case (snoc x b)
  show ?case
  proof (cases "x = 0")
    case True
    then have s: "strip_zeros (b @ [x]) = strip_zeros b"
      using strip_zeros_app_zeros [of b 1] by simp
    have "replicate (Suc (length b) - length (strip_zeros b)) (0 :: byte)
        = replicate (length b - length (strip_zeros b)) 0 @ [0]"
      using length_strip_zeros [of b] by (simp add: Suc_diff_le replicate_append_same)
    with s True snoc show ?thesis by (simp flip: append_assoc)
  next
    case False
    then show ?thesis by (simp add: strip_zeros_def)
  qed
qed (simp add: strip_zeros_def)

lemma BR_Currency_at [reader_simps]:
  "BR_Currency r = (if length (rd_rest r) < 8
     then Inl (GoErr ''xbridge: body underflow (bytes)'')
     else Inr (bytes_str (strip_zeros (take 8 (rd_rest r))), rd_skip 8 r))"
  by (simp add: BR_Currency_def BR_Bytes_at take_trim_end)

lemma length_pad8 [simp]: "length (pad8 s) = 8"
  by (simp add: pad8_def Let_def)

lemma strip_pad8: "currency_ok s \<Longrightarrow> strip_zeros (pad8 s) = str_bytes s"
  by (auto simp: pad8_def currency_ok_def Let_def str_bytes_def last_map intro!: strip_zeros_id)

lemma pad8_strip: "length b = 8 \<Longrightarrow> pad8 (bytes_str (strip_zeros b)) = b"
  using strip_zeros_pad [of b] length_strip_zeros [of b] by (simp add: pad8_def Let_def)

lemma currency_ok_strip: "length b = 8 \<Longrightarrow> currency_ok (bytes_str (strip_zeros b))"
  using strip_zeros_last [of b] length_strip_zeros [of b]
  by (auto simp: currency_ok_def bytes_str_def last_map)

interpretation ccur: wire_codec pad8 BR_Currency currency_ok
proof
  show "\<And>r x ys. rd_ok r \<Longrightarrow> rd_rest r = pad8 x @ ys \<Longrightarrow> currency_ok x \<Longrightarrow>
      BR_Currency r = Inr (x, rd_skip (length (pad8 x)) r)"
    by (simp add: BR_Currency_at strip_pad8)
  show "\<And>r x r'. rd_ok r \<Longrightarrow> BR_Currency r = Inr (x, r') \<Longrightarrow>
      currency_ok x \<and> rd_ok r' \<and> rd_data r' = rd_data r \<and>
      rd_rest r = pad8 x @ rd_rest r'"
    by (auto simp: BR_Currency_at currency_ok_strip pad8_strip split: if_splits
       )
qed (simp add: BR_Currency_at)

section \<open>Bundles for the body types\<close>

lemmas writer_defs =
  NewBodyWriter_def BW_Uint16_def BW_Uint32_def BW_Uint64_def BW_PubKey_def BW_Bytes_def
  BW_String_def BW_Hash_def BW_Addr_def BW_Currency_def BW_Payload_def put_string_def

lemmas codec_inv =
  c16.bind_get_InrE c32.bind_get_InrE c64.bind_get_InrE chash.bind_get_InrE caddr.bind_get_InrE
  cpub.bind_get_InrE cstr.bind_get_InrE ccur.bind_get_InrE craw.bind_get_InrE

lemmas codec_no_panic =
  c16.get_no_panic c32.get_no_panic c64.get_no_panic chash.get_no_panic caddr.get_no_panic
  cpub.get_no_panic cstr.get_no_panic ccur.get_no_panic craw.get_no_panic panics_go_bind

end
