(* ===== verification/ProtoHandshake.thy ===== *)
theory ProtoHandshake
  imports ProtoBody
begin

text \<open>
  The handshake body types of \<^verbatim>\<open>proto/body_types.go\<close> (Hold, HoldApply, Init, Initialized,
  CreateA/CreatedA, CreateB/CreatedB, ConfirmA/ConfirmedA, ConfirmB/ConfirmedB, Cancel, Reject,
  Finished). Each type is the record of the struct, its \<^verbatim>\<open>Marshal\<close>, its \<^verbatim>\<open>Unmarshal\<close> with the
  same field order, errors and length checks, and the predicate of the values it can carry.
  The locales \<open>body_codec\<close>, \<open>prefix_body_codec\<close> and \<open>strict_body_codec\<close> are the contracts
  of such a type; every type below is an instance of the strongest one that holds for it.
\<close>

section \<open>Contracts of a body type\<close>

locale body_codec =
  fixes marshal :: "'b \<Rightarrow> bytes"
    and unmarshal :: "bytes \<Rightarrow> 'b go"
    and ok :: "'b \<Rightarrow> bool"
  assumes unmarshal_marshal: "ok b \<Longrightarrow> unmarshal (marshal b) = Inr b"
    and unmarshal_ok: "unmarshal d = Inr b \<Longrightarrow> ok b"
    and unmarshal_no_panic: "\<not> panics (unmarshal d)"
begin

lemma marshal_inj:
  assumes "ok b" and "ok c" and "marshal b = marshal c"
  shows "b = c"
  using assms by (metis sum.inject(2) unmarshal_marshal)

text \<open>Decoding, re-encoding and decoding again changes nothing.\<close>

lemma reencode: "unmarshal d = Inr b \<Longrightarrow> unmarshal (marshal b) = Inr b"
  by (rule unmarshal_marshal) (rule unmarshal_ok)

end

text \<open>A decoder that tolerates trailing bytes, but only behind a canonical encoding.\<close>

locale prefix_body_codec = body_codec +
  assumes unmarshal_prefix: "unmarshal d = Inr b \<Longrightarrow> \<exists>ys. d = marshal b @ ys"
begin

lemma marshal_length_le: "unmarshal d = Inr b \<Longrightarrow> length (marshal b) \<le> length d"
  using unmarshal_prefix by fastforce

end

text \<open>A decoder that accepts exactly the canonical encodings.\<close>

locale strict_body_codec = body_codec +
  assumes unmarshal_canonical: "unmarshal d = Inr b \<Longrightarrow> d = marshal b"
begin

lemma unmarshal_inj: "unmarshal d = Inr b \<Longrightarrow> unmarshal e = Inr b \<Longrightarrow> d = e"
  by (metis unmarshal_canonical)

lemma unmarshal_iff: "unmarshal d = Inr b \<longleftrightarrow> ok b \<and> d = marshal b"
  using unmarshal_canonical unmarshal_marshal unmarshal_ok by blast

end

sublocale strict_body_codec \<subseteq> prefix_body_codec
  by unfold_locales (metis append_Nil2 unmarshal_canonical)


section \<open>Body types\<close>

record HoldBody =
  hb_HubAddress :: bytes
  hb_ID :: bytes
  hb_FromAmount :: u64
  hb_ToAmount :: u64

definition HoldBody_Marshal :: "HoldBody \<Rightarrow> bytes" where
  "HoldBody_Marshal b = (let
     w = NewBodyWriter;
     w = BW_Addr w (hb_HubAddress b);
     w = BW_Hash w (hb_ID b);
     w = BW_Uint64 w (hb_FromAmount b);
     w = BW_Uint64 w (hb_ToAmount b)
   in BW_Payload w)"

definition HoldBody_Unmarshal :: "bytes \<Rightarrow> HoldBody go" where
  "HoldBody_Unmarshal data =
     go_bind (BR_Addr (NewBodyReader data)) (\<lambda>(vHubAddress, r).
     go_bind (BR_Hash r) (\<lambda>(vID, r).
     go_bind (BR_Uint64 r) (\<lambda>(vFromAmount, r).
     go_bind (BR_Uint64 r) (\<lambda>(vToAmount, r).
     if remaining r \<noteq> 0 then Inl (GoErr ''xbridge: trailing bytes in xbcTransactionHold body'')
     else Inr \<lparr>hb_HubAddress = vHubAddress, hb_ID = vID, hb_FromAmount = vFromAmount,
         hb_ToAmount = vToAmount\<rparr>))))"

definition HoldBody_ok :: "HoldBody \<Rightarrow> bool" where
  "HoldBody_ok b \<longleftrightarrow> length (hb_HubAddress b) = 20 \<and>
     length (hb_ID b) = 32"

record HoldApplyBody =
  hab_HubAddress :: bytes
  hab_ClientAddress :: bytes
  hab_ID :: bytes

definition HoldApplyBody_Marshal :: "HoldApplyBody \<Rightarrow> bytes" where
  "HoldApplyBody_Marshal b = (let
     w = NewBodyWriter;
     w = BW_Addr w (hab_HubAddress b);
     w = BW_Addr w (hab_ClientAddress b);
     w = BW_Hash w (hab_ID b)
   in BW_Payload w)"

definition HoldApplyBody_Unmarshal :: "bytes \<Rightarrow> HoldApplyBody go" where
  "HoldApplyBody_Unmarshal data =
     go_bind (BR_Addr (NewBodyReader data)) (\<lambda>(vHubAddress, r).
     go_bind (BR_Addr r) (\<lambda>(vClientAddress, r).
     go_bind (BR_Hash r) (\<lambda>(vID, r).
     if remaining r \<noteq> 0 then Inl (GoErr ''xbridge: trailing bytes in xbcTransactionHoldApply body'')
     else Inr \<lparr>hab_HubAddress = vHubAddress, hab_ClientAddress = vClientAddress,
         hab_ID = vID\<rparr>)))"

definition HoldApplyBody_ok :: "HoldApplyBody \<Rightarrow> bool" where
  "HoldApplyBody_ok b \<longleftrightarrow> length (hab_HubAddress b) = 20 \<and>
     length (hab_ClientAddress b) = 20 \<and>
     length (hab_ID b) = 32"

record InitBody =
  ib_ClientAddress :: bytes
  ib_HubAddress :: bytes
  ib_ID :: bytes
  ib_FromAddress :: bytes
  ib_FromCurrency :: string
  ib_FromAmount :: u64
  ib_ToAddress :: bytes
  ib_ToCurrency :: string
  ib_ToAmount :: u64

definition InitBody_Marshal :: "InitBody \<Rightarrow> bytes" where
  "InitBody_Marshal b = (let
     w = NewBodyWriter;
     w = BW_Addr w (ib_ClientAddress b);
     w = BW_Addr w (ib_HubAddress b);
     w = BW_Hash w (ib_ID b);
     w = BW_Addr w (ib_FromAddress b);
     w = BW_Currency w (ib_FromCurrency b);
     w = BW_Uint64 w (ib_FromAmount b);
     w = BW_Addr w (ib_ToAddress b);
     w = BW_Currency w (ib_ToCurrency b);
     w = BW_Uint64 w (ib_ToAmount b)
   in BW_Payload w)"

definition InitBody_Unmarshal :: "bytes \<Rightarrow> InitBody go" where
  "InitBody_Unmarshal data =
     go_bind (BR_Addr (NewBodyReader data)) (\<lambda>(vClientAddress, r).
     go_bind (BR_Addr r) (\<lambda>(vHubAddress, r).
     go_bind (BR_Hash r) (\<lambda>(vID, r).
     go_bind (BR_Addr r) (\<lambda>(vFromAddress, r).
     go_bind (BR_Currency r) (\<lambda>(vFromCurrency, r).
     go_bind (BR_Uint64 r) (\<lambda>(vFromAmount, r).
     go_bind (BR_Addr r) (\<lambda>(vToAddress, r).
     go_bind (BR_Currency r) (\<lambda>(vToCurrency, r).
     go_bind (BR_Uint64 r) (\<lambda>(vToAmount, r).
     if remaining r \<noteq> 0 then Inl (GoErr ''xbridge: trailing bytes in xbcTransactionInit body'')
     else Inr \<lparr>ib_ClientAddress = vClientAddress, ib_HubAddress = vHubAddress,
         ib_ID = vID, ib_FromAddress = vFromAddress,
         ib_FromCurrency = vFromCurrency, ib_FromAmount = vFromAmount,
         ib_ToAddress = vToAddress, ib_ToCurrency = vToCurrency,
         ib_ToAmount = vToAmount\<rparr>)))))))))"

definition InitBody_ok :: "InitBody \<Rightarrow> bool" where
  "InitBody_ok b \<longleftrightarrow> length (ib_ClientAddress b) = 20 \<and>
     length (ib_HubAddress b) = 20 \<and>
     length (ib_ID b) = 32 \<and>
     length (ib_FromAddress b) = 20 \<and>
     currency_ok (ib_FromCurrency b) \<and>
     length (ib_ToAddress b) = 20 \<and>
     currency_ok (ib_ToCurrency b)"

record InitializedBody =
  inb_HubAddress :: bytes
  inb_ClientAddress :: bytes
  inb_ID :: bytes

definition InitializedBody_Marshal :: "InitializedBody \<Rightarrow> bytes" where
  "InitializedBody_Marshal b = (let
     w = NewBodyWriter;
     w = BW_Addr w (inb_HubAddress b);
     w = BW_Addr w (inb_ClientAddress b);
     w = BW_Hash w (inb_ID b)
   in BW_Payload w)"

definition InitializedBody_Unmarshal :: "bytes \<Rightarrow> InitializedBody go" where
  "InitializedBody_Unmarshal data =
     go_bind (BR_Addr (NewBodyReader data)) (\<lambda>(vHubAddress, r).
     go_bind (BR_Addr r) (\<lambda>(vClientAddress, r).
     go_bind (BR_Hash r) (\<lambda>(vID, r).
     if remaining r \<noteq> 0 then Inl (GoErr ''xbridge: trailing bytes in xbcTransactionInitialized body'')
     else Inr \<lparr>inb_HubAddress = vHubAddress, inb_ClientAddress = vClientAddress,
         inb_ID = vID\<rparr>)))"

definition InitializedBody_ok :: "InitializedBody \<Rightarrow> bool" where
  "InitializedBody_ok b \<longleftrightarrow> length (inb_HubAddress b) = 20 \<and>
     length (inb_ClientAddress b) = 20 \<and>
     length (inb_ID b) = 32"

record CreateABody =
  cab_HubAddress :: bytes
  cab_ID :: bytes
  cab_BPubKey :: bytes

definition CreateABody_Marshal :: "CreateABody \<Rightarrow> bytes" where
  "CreateABody_Marshal b = (let
     w = NewBodyWriter;
     w = BW_Addr w (cab_HubAddress b);
     w = BW_Hash w (cab_ID b);
     w = BW_PubKey w (cab_BPubKey b)
   in BW_Payload w)"

definition CreateABody_Unmarshal :: "bytes \<Rightarrow> CreateABody go" where
  "CreateABody_Unmarshal data =
     go_bind (BR_Addr (NewBodyReader data)) (\<lambda>(vHubAddress, r).
     go_bind (BR_Hash r) (\<lambda>(vID, r).
     go_bind (BR_PubKey r) (\<lambda>(vBPubKey, r).
     if remaining r \<noteq> 0 then Inl (GoErr ''xbridge: trailing bytes in xbcTransactionCreateA body'')
     else Inr \<lparr>cab_HubAddress = vHubAddress, cab_ID = vID, cab_BPubKey = vBPubKey\<rparr>)))"

definition CreateABody_ok :: "CreateABody \<Rightarrow> bool" where
  "CreateABody_ok b \<longleftrightarrow> length (cab_HubAddress b) = 20 \<and>
     length (cab_ID b) = 32 \<and>
     length (cab_BPubKey b) = 33"

record CreatedABody =
  cdab_HubAddress :: bytes
  cdab_ID :: bytes
  cdab_ADepositTxID :: string
  cdab_HashedSecret :: bytes
  cdab_ALockTime :: u32
  cdab_RefTxID :: string
  cdab_RefTx :: string

definition CreatedABody_Marshal :: "CreatedABody \<Rightarrow> bytes" where
  "CreatedABody_Marshal b = (let
     w = NewBodyWriter;
     w = BW_Addr w (cdab_HubAddress b);
     w = BW_Hash w (cdab_ID b);
     w = BW_String w (cdab_ADepositTxID b);
     w = BW_Addr w (cdab_HashedSecret b);
     w = BW_Uint32 w (cdab_ALockTime b);
     w = BW_String w (cdab_RefTxID b);
     w = BW_String w (cdab_RefTx b)
   in BW_Payload w)"

definition CreatedABody_Unmarshal :: "bytes \<Rightarrow> CreatedABody go" where
  "CreatedABody_Unmarshal data =
     go_bind (BR_Addr (NewBodyReader data)) (\<lambda>(vHubAddress, r).
     go_bind (BR_Hash r) (\<lambda>(vID, r).
     go_bind (BR_String r) (\<lambda>(vADepositTxID, r).
     go_bind (BR_Addr r) (\<lambda>(vHashedSecret, r).
     go_bind (BR_Uint32 r) (\<lambda>(vALockTime, r).
     go_bind (BR_String r) (\<lambda>(vRefTxID, r).
     go_bind (BR_String r) (\<lambda>(vRefTx, r).
     Inr \<lparr>cdab_HubAddress = vHubAddress, cdab_ID = vID,
         cdab_ADepositTxID = vADepositTxID, cdab_HashedSecret = vHashedSecret,
         cdab_ALockTime = vALockTime, cdab_RefTxID = vRefTxID,
         cdab_RefTx = vRefTx\<rparr>)))))))"

definition CreatedABody_ok :: "CreatedABody \<Rightarrow> bool" where
  "CreatedABody_ok b \<longleftrightarrow> length (cdab_HubAddress b) = 20 \<and>
     length (cdab_ID b) = 32 \<and>
     nul_free (cdab_ADepositTxID b) \<and>
     length (cdab_HashedSecret b) = 20 \<and>
     nul_free (cdab_RefTxID b) \<and>
     nul_free (cdab_RefTx b)"

record CreateBBody =
  cbb_HubAddress :: bytes
  cbb_ID :: bytes
  cbb_APubKey :: bytes
  cbb_ADepositTxID :: string
  cbb_HashedSecret :: bytes
  cbb_ALockTime :: u32

definition CreateBBody_Marshal :: "CreateBBody \<Rightarrow> bytes" where
  "CreateBBody_Marshal b = (let
     w = NewBodyWriter;
     w = BW_Addr w (cbb_HubAddress b);
     w = BW_Hash w (cbb_ID b);
     w = BW_PubKey w (cbb_APubKey b);
     w = BW_String w (cbb_ADepositTxID b);
     w = BW_Addr w (cbb_HashedSecret b);
     w = BW_Uint32 w (cbb_ALockTime b)
   in BW_Payload w)"

definition CreateBBody_Unmarshal :: "bytes \<Rightarrow> CreateBBody go" where
  "CreateBBody_Unmarshal data =
     go_bind (BR_Addr (NewBodyReader data)) (\<lambda>(vHubAddress, r).
     go_bind (BR_Hash r) (\<lambda>(vID, r).
     go_bind (BR_PubKey r) (\<lambda>(vAPubKey, r).
     go_bind (BR_String r) (\<lambda>(vADepositTxID, r).
     go_bind (BR_Addr r) (\<lambda>(vHashedSecret, r).
     go_bind (BR_Uint32 r) (\<lambda>(vALockTime, r).
     Inr \<lparr>cbb_HubAddress = vHubAddress, cbb_ID = vID, cbb_APubKey = vAPubKey,
         cbb_ADepositTxID = vADepositTxID, cbb_HashedSecret = vHashedSecret,
         cbb_ALockTime = vALockTime\<rparr>))))))"

definition CreateBBody_ok :: "CreateBBody \<Rightarrow> bool" where
  "CreateBBody_ok b \<longleftrightarrow> length (cbb_HubAddress b) = 20 \<and>
     length (cbb_ID b) = 32 \<and>
     length (cbb_APubKey b) = 33 \<and>
     nul_free (cbb_ADepositTxID b) \<and>
     length (cbb_HashedSecret b) = 20"

record CreatedBBody =
  cdbb_HubAddress :: bytes
  cdbb_ID :: bytes
  cdbb_BDepositTxID :: string
  cdbb_BLockTime :: u32
  cdbb_RefTxID :: string
  cdbb_RefTx :: string

definition CreatedBBody_Marshal :: "CreatedBBody \<Rightarrow> bytes" where
  "CreatedBBody_Marshal b = (let
     w = NewBodyWriter;
     w = BW_Addr w (cdbb_HubAddress b);
     w = BW_Hash w (cdbb_ID b);
     w = BW_String w (cdbb_BDepositTxID b);
     w = BW_Uint32 w (cdbb_BLockTime b);
     w = BW_String w (cdbb_RefTxID b);
     w = BW_String w (cdbb_RefTx b)
   in BW_Payload w)"

definition CreatedBBody_Unmarshal :: "bytes \<Rightarrow> CreatedBBody go" where
  "CreatedBBody_Unmarshal data =
     go_bind (BR_Addr (NewBodyReader data)) (\<lambda>(vHubAddress, r).
     go_bind (BR_Hash r) (\<lambda>(vID, r).
     go_bind (BR_String r) (\<lambda>(vBDepositTxID, r).
     go_bind (BR_Uint32 r) (\<lambda>(vBLockTime, r).
     go_bind (BR_String r) (\<lambda>(vRefTxID, r).
     go_bind (BR_String r) (\<lambda>(vRefTx, r).
     Inr \<lparr>cdbb_HubAddress = vHubAddress, cdbb_ID = vID,
         cdbb_BDepositTxID = vBDepositTxID, cdbb_BLockTime = vBLockTime,
         cdbb_RefTxID = vRefTxID, cdbb_RefTx = vRefTx\<rparr>))))))"

definition CreatedBBody_ok :: "CreatedBBody \<Rightarrow> bool" where
  "CreatedBBody_ok b \<longleftrightarrow> length (cdbb_HubAddress b) = 20 \<and>
     length (cdbb_ID b) = 32 \<and>
     nul_free (cdbb_BDepositTxID b) \<and>
     nul_free (cdbb_RefTxID b) \<and>
     nul_free (cdbb_RefTx b)"

record ConfirmABody =
  cfab_HubAddress :: bytes
  cfab_ID :: bytes
  cfab_BDepositTxID :: string
  cfab_BLockTime :: u32

definition ConfirmABody_Marshal :: "ConfirmABody \<Rightarrow> bytes" where
  "ConfirmABody_Marshal b = (let
     w = NewBodyWriter;
     w = BW_Addr w (cfab_HubAddress b);
     w = BW_Hash w (cfab_ID b);
     w = BW_String w (cfab_BDepositTxID b);
     w = BW_Uint32 w (cfab_BLockTime b)
   in BW_Payload w)"

definition ConfirmABody_Unmarshal :: "bytes \<Rightarrow> ConfirmABody go" where
  "ConfirmABody_Unmarshal data =
     go_bind (BR_Addr (NewBodyReader data)) (\<lambda>(vHubAddress, r).
     go_bind (BR_Hash r) (\<lambda>(vID, r).
     go_bind (BR_String r) (\<lambda>(vBDepositTxID, r).
     go_bind (BR_Uint32 r) (\<lambda>(vBLockTime, r).
     if length data \<le> 56 \<or> 1000 < length data then Inl (GoErr ''xbridge: bad length in xbcTransactionConfirmA body'')
     else Inr \<lparr>cfab_HubAddress = vHubAddress, cfab_ID = vID,
         cfab_BDepositTxID = vBDepositTxID, cfab_BLockTime = vBLockTime\<rparr>))))"

definition ConfirmABody_ok :: "ConfirmABody \<Rightarrow> bool" where
  "ConfirmABody_ok b \<longleftrightarrow> length (cfab_HubAddress b) = 20 \<and>
     length (cfab_ID b) = 32 \<and>
     nul_free (cfab_BDepositTxID b) \<and>
     length (ConfirmABody_Marshal b) \<le> 1000"

record ConfirmedABody =
  cfdab_HubAddress :: bytes
  cfdab_ID :: bytes
  cfdab_APayTxID :: string

definition ConfirmedABody_Marshal :: "ConfirmedABody \<Rightarrow> bytes" where
  "ConfirmedABody_Marshal b = (let
     w = NewBodyWriter;
     w = BW_Addr w (cfdab_HubAddress b);
     w = BW_Hash w (cfdab_ID b);
     w = BW_String w (cfdab_APayTxID b)
   in BW_Payload w)"

definition ConfirmedABody_Unmarshal :: "bytes \<Rightarrow> ConfirmedABody go" where
  "ConfirmedABody_Unmarshal data =
     go_bind (BR_Addr (NewBodyReader data)) (\<lambda>(vHubAddress, r).
     go_bind (BR_Hash r) (\<lambda>(vID, r).
     go_bind (BR_String r) (\<lambda>(vAPayTxID, r).
     if length data \<le> 52 \<or> 1000 < length data then Inl (GoErr ''xbridge: bad length in xbcTransactionConfirmedA body'')
     else Inr \<lparr>cfdab_HubAddress = vHubAddress, cfdab_ID = vID,
         cfdab_APayTxID = vAPayTxID\<rparr>)))"

definition ConfirmedABody_ok :: "ConfirmedABody \<Rightarrow> bool" where
  "ConfirmedABody_ok b \<longleftrightarrow> length (cfdab_HubAddress b) = 20 \<and>
     length (cfdab_ID b) = 32 \<and>
     nul_free (cfdab_APayTxID b) \<and>
     length (ConfirmedABody_Marshal b) \<le> 1000"

record ConfirmBBody =
  cfbb_HubAddress :: bytes
  cfbb_ID :: bytes
  cfbb_APayTxID :: string

definition ConfirmBBody_Marshal :: "ConfirmBBody \<Rightarrow> bytes" where
  "ConfirmBBody_Marshal b = (let
     w = NewBodyWriter;
     w = BW_Addr w (cfbb_HubAddress b);
     w = BW_Hash w (cfbb_ID b);
     w = BW_String w (cfbb_APayTxID b)
   in BW_Payload w)"

definition ConfirmBBody_Unmarshal :: "bytes \<Rightarrow> ConfirmBBody go" where
  "ConfirmBBody_Unmarshal data =
     go_bind (BR_Addr (NewBodyReader data)) (\<lambda>(vHubAddress, r).
     go_bind (BR_Hash r) (\<lambda>(vID, r).
     go_bind (BR_String r) (\<lambda>(vAPayTxID, r).
     if length data \<le> 52 \<or> 1000 < length data then Inl (GoErr ''xbridge: bad length in xbcTransactionConfirmB body'')
     else Inr \<lparr>cfbb_HubAddress = vHubAddress, cfbb_ID = vID,
         cfbb_APayTxID = vAPayTxID\<rparr>)))"

definition ConfirmBBody_ok :: "ConfirmBBody \<Rightarrow> bool" where
  "ConfirmBBody_ok b \<longleftrightarrow> length (cfbb_HubAddress b) = 20 \<and>
     length (cfbb_ID b) = 32 \<and>
     nul_free (cfbb_APayTxID b) \<and>
     length (ConfirmBBody_Marshal b) \<le> 1000"

record ConfirmedBBody =
  cfdbb_HubAddress :: bytes
  cfdbb_ID :: bytes
  cfdbb_BPayTxID :: string

definition ConfirmedBBody_Marshal :: "ConfirmedBBody \<Rightarrow> bytes" where
  "ConfirmedBBody_Marshal b = (let
     w = NewBodyWriter;
     w = BW_Addr w (cfdbb_HubAddress b);
     w = BW_Hash w (cfdbb_ID b);
     w = BW_String w (cfdbb_BPayTxID b)
   in BW_Payload w)"

definition ConfirmedBBody_Unmarshal :: "bytes \<Rightarrow> ConfirmedBBody go" where
  "ConfirmedBBody_Unmarshal data =
     go_bind (BR_Addr (NewBodyReader data)) (\<lambda>(vHubAddress, r).
     go_bind (BR_Hash r) (\<lambda>(vID, r).
     go_bind (BR_String r) (\<lambda>(vBPayTxID, r).
     if length data \<le> 52 \<or> 1000 < length data then Inl (GoErr ''xbridge: bad length in xbcTransactionConfirmedB body'')
     else Inr \<lparr>cfdbb_HubAddress = vHubAddress, cfdbb_ID = vID,
         cfdbb_BPayTxID = vBPayTxID\<rparr>)))"

definition ConfirmedBBody_ok :: "ConfirmedBBody \<Rightarrow> bool" where
  "ConfirmedBBody_ok b \<longleftrightarrow> length (cfdbb_HubAddress b) = 20 \<and>
     length (cfdbb_ID b) = 32 \<and>
     nul_free (cfdbb_BPayTxID b) \<and>
     length (ConfirmedBBody_Marshal b) \<le> 1000"

record CancelBody =
  clb_ID :: bytes
  clb_Reason :: u32

definition CancelBody_Marshal :: "CancelBody \<Rightarrow> bytes" where
  "CancelBody_Marshal b = (let
     w = NewBodyWriter;
     w = BW_Hash w (clb_ID b);
     w = BW_Uint32 w (clb_Reason b)
   in BW_Payload w)"

definition CancelBody_Unmarshal :: "bytes \<Rightarrow> CancelBody go" where
  "CancelBody_Unmarshal data =
     go_bind (BR_Hash (NewBodyReader data)) (\<lambda>(vID, r).
     go_bind (BR_Uint32 r) (\<lambda>(vReason, r).
     if remaining r \<noteq> 0 then Inl (GoErr ''xbridge: trailing bytes in xbcTransactionCancel body'')
     else Inr \<lparr>clb_ID = vID, clb_Reason = vReason\<rparr>))"

definition CancelBody_ok :: "CancelBody \<Rightarrow> bool" where
  "CancelBody_ok b \<longleftrightarrow> length (clb_ID b) = 32"

record RejectBody =
  rjb_ID :: bytes
  rjb_Reason :: u32

definition RejectBody_Marshal :: "RejectBody \<Rightarrow> bytes" where
  "RejectBody_Marshal b = (let
     w = NewBodyWriter;
     w = BW_Hash w (rjb_ID b);
     w = BW_Uint32 w (rjb_Reason b)
   in BW_Payload w)"

definition RejectBody_Unmarshal :: "bytes \<Rightarrow> RejectBody go" where
  "RejectBody_Unmarshal data =
     go_bind (BR_Hash (NewBodyReader data)) (\<lambda>(vID, r).
     go_bind (BR_Uint32 r) (\<lambda>(vReason, r).
     if remaining r \<noteq> 0 then Inl (GoErr ''xbridge: trailing bytes in xbcTransactionReject body'')
     else Inr \<lparr>rjb_ID = vID, rjb_Reason = vReason\<rparr>))"

definition RejectBody_ok :: "RejectBody \<Rightarrow> bool" where
  "RejectBody_ok b \<longleftrightarrow> length (rjb_ID b) = 32"

record FinishedBody =
  fb_ID :: bytes

definition FinishedBody_Marshal :: "FinishedBody \<Rightarrow> bytes" where
  "FinishedBody_Marshal b = (let
     w = NewBodyWriter;
     w = BW_Hash w (fb_ID b)
   in BW_Payload w)"

definition FinishedBody_Unmarshal :: "bytes \<Rightarrow> FinishedBody go" where
  "FinishedBody_Unmarshal data =
     go_bind (BR_Hash (NewBodyReader data)) (\<lambda>(vID, r).
     if remaining r \<noteq> 0 then Inl (GoErr ''xbridge: trailing bytes in xbcTransactionFinished body'')
     else Inr \<lparr>fb_ID = vID\<rparr>)"

definition FinishedBody_ok :: "FinishedBody \<Rightarrow> bool" where
  "FinishedBody_ok b \<longleftrightarrow> length (fb_ID b) = 32"

section \<open>The contracts hold\<close>


lemmas HoldBody_defs = HoldBody_Marshal_def HoldBody_Unmarshal_def HoldBody_ok_def

lemma HoldBody_decode:
  "HoldBody_Unmarshal d = Inr b \<Longrightarrow> HoldBody_ok b \<and> (d = HoldBody_Marshal b)"
  by (auto simp: HoldBody_defs Let_def writer_defs remaining_eq split: if_splits elim!: codec_inv)

interpretation hb: strict_body_codec HoldBody_Marshal HoldBody_Unmarshal HoldBody_ok
proof
  show "HoldBody_ok b \<Longrightarrow> HoldBody_Unmarshal (HoldBody_Marshal b) = Inr b" for b
    by (simp add: HoldBody_defs Let_def writer_defs reader_simps remaining_eq nul_free_def strip_pad8)
  show "\<not> panics (HoldBody_Unmarshal d)" for d
    by (auto simp: HoldBody_Unmarshal_def codec_no_panic split: if_splits)
qed (use HoldBody_decode in blast)+

lemmas HoldApplyBody_defs = HoldApplyBody_Marshal_def HoldApplyBody_Unmarshal_def HoldApplyBody_ok_def

lemma HoldApplyBody_decode:
  "HoldApplyBody_Unmarshal d = Inr b \<Longrightarrow> HoldApplyBody_ok b \<and> (d = HoldApplyBody_Marshal b)"
  by (auto simp: HoldApplyBody_defs Let_def writer_defs remaining_eq split: if_splits elim!: codec_inv)

interpretation hab: strict_body_codec HoldApplyBody_Marshal HoldApplyBody_Unmarshal HoldApplyBody_ok
proof
  show "HoldApplyBody_ok b \<Longrightarrow> HoldApplyBody_Unmarshal (HoldApplyBody_Marshal b) = Inr b" for b
    by (simp add: HoldApplyBody_defs Let_def writer_defs reader_simps remaining_eq nul_free_def strip_pad8)
  show "\<not> panics (HoldApplyBody_Unmarshal d)" for d
    by (auto simp: HoldApplyBody_Unmarshal_def codec_no_panic split: if_splits)
qed (use HoldApplyBody_decode in blast)+

lemmas InitBody_defs = InitBody_Marshal_def InitBody_Unmarshal_def InitBody_ok_def

lemma InitBody_decode:
  "InitBody_Unmarshal d = Inr b \<Longrightarrow> InitBody_ok b \<and> (d = InitBody_Marshal b)"
  by (auto simp: InitBody_defs Let_def writer_defs remaining_eq split: if_splits elim!: codec_inv)

interpretation ib: strict_body_codec InitBody_Marshal InitBody_Unmarshal InitBody_ok
proof
  show "InitBody_ok b \<Longrightarrow> InitBody_Unmarshal (InitBody_Marshal b) = Inr b" for b
    by (simp add: InitBody_defs Let_def writer_defs reader_simps remaining_eq nul_free_def strip_pad8)
  show "\<not> panics (InitBody_Unmarshal d)" for d
    by (auto simp: InitBody_Unmarshal_def codec_no_panic split: if_splits)
qed (use InitBody_decode in blast)+

lemmas InitializedBody_defs = InitializedBody_Marshal_def InitializedBody_Unmarshal_def InitializedBody_ok_def

lemma InitializedBody_decode:
  "InitializedBody_Unmarshal d = Inr b \<Longrightarrow> InitializedBody_ok b \<and> (d = InitializedBody_Marshal b)"
  by (auto simp: InitializedBody_defs Let_def writer_defs remaining_eq split: if_splits elim!: codec_inv)

interpretation inb: strict_body_codec InitializedBody_Marshal InitializedBody_Unmarshal InitializedBody_ok
proof
  show "InitializedBody_ok b \<Longrightarrow> InitializedBody_Unmarshal (InitializedBody_Marshal b) = Inr b" for b
    by (simp add: InitializedBody_defs Let_def writer_defs reader_simps remaining_eq nul_free_def strip_pad8)
  show "\<not> panics (InitializedBody_Unmarshal d)" for d
    by (auto simp: InitializedBody_Unmarshal_def codec_no_panic split: if_splits)
qed (use InitializedBody_decode in blast)+

lemmas CreateABody_defs = CreateABody_Marshal_def CreateABody_Unmarshal_def CreateABody_ok_def

lemma CreateABody_decode:
  "CreateABody_Unmarshal d = Inr b \<Longrightarrow> CreateABody_ok b \<and> (d = CreateABody_Marshal b)"
  by (auto simp: CreateABody_defs Let_def writer_defs remaining_eq split: if_splits elim!: codec_inv)

interpretation cab: strict_body_codec CreateABody_Marshal CreateABody_Unmarshal CreateABody_ok
proof
  show "CreateABody_ok b \<Longrightarrow> CreateABody_Unmarshal (CreateABody_Marshal b) = Inr b" for b
    by (simp add: CreateABody_defs Let_def writer_defs reader_simps remaining_eq nul_free_def strip_pad8)
  show "\<not> panics (CreateABody_Unmarshal d)" for d
    by (auto simp: CreateABody_Unmarshal_def codec_no_panic split: if_splits)
qed (use CreateABody_decode in blast)+

lemmas CreatedABody_defs = CreatedABody_Marshal_def CreatedABody_Unmarshal_def CreatedABody_ok_def

lemma CreatedABody_decode:
  "CreatedABody_Unmarshal d = Inr b \<Longrightarrow> CreatedABody_ok b \<and> (\<exists>ys. d = CreatedABody_Marshal b @ ys)"
  by (auto simp: CreatedABody_defs Let_def writer_defs remaining_eq split: if_splits elim!: codec_inv)

interpretation cdab: prefix_body_codec CreatedABody_Marshal CreatedABody_Unmarshal CreatedABody_ok
proof
  show "CreatedABody_ok b \<Longrightarrow> CreatedABody_Unmarshal (CreatedABody_Marshal b) = Inr b" for b
    by (simp add: CreatedABody_defs Let_def writer_defs reader_simps remaining_eq nul_free_def strip_pad8)
  show "\<not> panics (CreatedABody_Unmarshal d)" for d
    by (auto simp: CreatedABody_Unmarshal_def codec_no_panic split: if_splits)
qed (use CreatedABody_decode in blast)+

lemmas CreateBBody_defs = CreateBBody_Marshal_def CreateBBody_Unmarshal_def CreateBBody_ok_def

lemma CreateBBody_decode:
  "CreateBBody_Unmarshal d = Inr b \<Longrightarrow> CreateBBody_ok b \<and> (\<exists>ys. d = CreateBBody_Marshal b @ ys)"
  by (auto simp: CreateBBody_defs Let_def writer_defs remaining_eq split: if_splits elim!: codec_inv)

interpretation cbb: prefix_body_codec CreateBBody_Marshal CreateBBody_Unmarshal CreateBBody_ok
proof
  show "CreateBBody_ok b \<Longrightarrow> CreateBBody_Unmarshal (CreateBBody_Marshal b) = Inr b" for b
    by (simp add: CreateBBody_defs Let_def writer_defs reader_simps remaining_eq nul_free_def strip_pad8)
  show "\<not> panics (CreateBBody_Unmarshal d)" for d
    by (auto simp: CreateBBody_Unmarshal_def codec_no_panic split: if_splits)
qed (use CreateBBody_decode in blast)+

lemmas CreatedBBody_defs = CreatedBBody_Marshal_def CreatedBBody_Unmarshal_def CreatedBBody_ok_def

lemma CreatedBBody_decode:
  "CreatedBBody_Unmarshal d = Inr b \<Longrightarrow> CreatedBBody_ok b \<and> (\<exists>ys. d = CreatedBBody_Marshal b @ ys)"
  by (auto simp: CreatedBBody_defs Let_def writer_defs remaining_eq split: if_splits elim!: codec_inv)

interpretation cdbb: prefix_body_codec CreatedBBody_Marshal CreatedBBody_Unmarshal CreatedBBody_ok
proof
  show "CreatedBBody_ok b \<Longrightarrow> CreatedBBody_Unmarshal (CreatedBBody_Marshal b) = Inr b" for b
    by (simp add: CreatedBBody_defs Let_def writer_defs reader_simps remaining_eq nul_free_def strip_pad8)
  show "\<not> panics (CreatedBBody_Unmarshal d)" for d
    by (auto simp: CreatedBBody_Unmarshal_def codec_no_panic split: if_splits)
qed (use CreatedBBody_decode in blast)+

lemmas ConfirmABody_defs = ConfirmABody_Marshal_def ConfirmABody_Unmarshal_def ConfirmABody_ok_def

lemma ConfirmABody_decode:
  "ConfirmABody_Unmarshal d = Inr b \<Longrightarrow> ConfirmABody_ok b \<and> (\<exists>ys. d = ConfirmABody_Marshal b @ ys)"
  by (auto simp: ConfirmABody_defs Let_def writer_defs remaining_eq split: if_splits elim!: codec_inv)

interpretation cfab: prefix_body_codec ConfirmABody_Marshal ConfirmABody_Unmarshal ConfirmABody_ok
proof
  show "ConfirmABody_ok b \<Longrightarrow> ConfirmABody_Unmarshal (ConfirmABody_Marshal b) = Inr b" for b
    by (simp add: ConfirmABody_defs Let_def writer_defs reader_simps remaining_eq nul_free_def strip_pad8)
  show "\<not> panics (ConfirmABody_Unmarshal d)" for d
    by (auto simp: ConfirmABody_Unmarshal_def codec_no_panic split: if_splits)
qed (use ConfirmABody_decode in blast)+

lemmas ConfirmedABody_defs = ConfirmedABody_Marshal_def ConfirmedABody_Unmarshal_def ConfirmedABody_ok_def

lemma ConfirmedABody_decode:
  "ConfirmedABody_Unmarshal d = Inr b \<Longrightarrow> ConfirmedABody_ok b \<and> (\<exists>ys. d = ConfirmedABody_Marshal b @ ys)"
  by (auto simp: ConfirmedABody_defs Let_def writer_defs remaining_eq split: if_splits elim!: codec_inv)

interpretation cfdab: prefix_body_codec ConfirmedABody_Marshal ConfirmedABody_Unmarshal ConfirmedABody_ok
proof
  show "ConfirmedABody_ok b \<Longrightarrow> ConfirmedABody_Unmarshal (ConfirmedABody_Marshal b) = Inr b" for b
    by (simp add: ConfirmedABody_defs Let_def writer_defs reader_simps remaining_eq nul_free_def strip_pad8)
  show "\<not> panics (ConfirmedABody_Unmarshal d)" for d
    by (auto simp: ConfirmedABody_Unmarshal_def codec_no_panic split: if_splits)
qed (use ConfirmedABody_decode in blast)+

lemmas ConfirmBBody_defs = ConfirmBBody_Marshal_def ConfirmBBody_Unmarshal_def ConfirmBBody_ok_def

lemma ConfirmBBody_decode:
  "ConfirmBBody_Unmarshal d = Inr b \<Longrightarrow> ConfirmBBody_ok b \<and> (\<exists>ys. d = ConfirmBBody_Marshal b @ ys)"
  by (auto simp: ConfirmBBody_defs Let_def writer_defs remaining_eq split: if_splits elim!: codec_inv)

interpretation cfbb: prefix_body_codec ConfirmBBody_Marshal ConfirmBBody_Unmarshal ConfirmBBody_ok
proof
  show "ConfirmBBody_ok b \<Longrightarrow> ConfirmBBody_Unmarshal (ConfirmBBody_Marshal b) = Inr b" for b
    by (simp add: ConfirmBBody_defs Let_def writer_defs reader_simps remaining_eq nul_free_def strip_pad8)
  show "\<not> panics (ConfirmBBody_Unmarshal d)" for d
    by (auto simp: ConfirmBBody_Unmarshal_def codec_no_panic split: if_splits)
qed (use ConfirmBBody_decode in blast)+

lemmas ConfirmedBBody_defs = ConfirmedBBody_Marshal_def ConfirmedBBody_Unmarshal_def ConfirmedBBody_ok_def

lemma ConfirmedBBody_decode:
  "ConfirmedBBody_Unmarshal d = Inr b \<Longrightarrow> ConfirmedBBody_ok b \<and> (\<exists>ys. d = ConfirmedBBody_Marshal b @ ys)"
  by (auto simp: ConfirmedBBody_defs Let_def writer_defs remaining_eq split: if_splits elim!: codec_inv)

interpretation cfdbb: prefix_body_codec ConfirmedBBody_Marshal ConfirmedBBody_Unmarshal ConfirmedBBody_ok
proof
  show "ConfirmedBBody_ok b \<Longrightarrow> ConfirmedBBody_Unmarshal (ConfirmedBBody_Marshal b) = Inr b" for b
    by (simp add: ConfirmedBBody_defs Let_def writer_defs reader_simps remaining_eq nul_free_def strip_pad8)
  show "\<not> panics (ConfirmedBBody_Unmarshal d)" for d
    by (auto simp: ConfirmedBBody_Unmarshal_def codec_no_panic split: if_splits)
qed (use ConfirmedBBody_decode in blast)+

lemmas CancelBody_defs = CancelBody_Marshal_def CancelBody_Unmarshal_def CancelBody_ok_def

lemma CancelBody_decode:
  "CancelBody_Unmarshal d = Inr b \<Longrightarrow> CancelBody_ok b \<and> (d = CancelBody_Marshal b)"
  by (auto simp: CancelBody_defs Let_def writer_defs remaining_eq split: if_splits elim!: codec_inv)

interpretation clb: strict_body_codec CancelBody_Marshal CancelBody_Unmarshal CancelBody_ok
proof
  show "CancelBody_ok b \<Longrightarrow> CancelBody_Unmarshal (CancelBody_Marshal b) = Inr b" for b
    by (simp add: CancelBody_defs Let_def writer_defs reader_simps remaining_eq nul_free_def strip_pad8)
  show "\<not> panics (CancelBody_Unmarshal d)" for d
    by (auto simp: CancelBody_Unmarshal_def codec_no_panic split: if_splits)
qed (use CancelBody_decode in blast)+

lemmas RejectBody_defs = RejectBody_Marshal_def RejectBody_Unmarshal_def RejectBody_ok_def

lemma RejectBody_decode:
  "RejectBody_Unmarshal d = Inr b \<Longrightarrow> RejectBody_ok b \<and> (d = RejectBody_Marshal b)"
  by (auto simp: RejectBody_defs Let_def writer_defs remaining_eq split: if_splits elim!: codec_inv)

interpretation rjb: strict_body_codec RejectBody_Marshal RejectBody_Unmarshal RejectBody_ok
proof
  show "RejectBody_ok b \<Longrightarrow> RejectBody_Unmarshal (RejectBody_Marshal b) = Inr b" for b
    by (simp add: RejectBody_defs Let_def writer_defs reader_simps remaining_eq nul_free_def strip_pad8)
  show "\<not> panics (RejectBody_Unmarshal d)" for d
    by (auto simp: RejectBody_Unmarshal_def codec_no_panic split: if_splits)
qed (use RejectBody_decode in blast)+

lemmas FinishedBody_defs = FinishedBody_Marshal_def FinishedBody_Unmarshal_def FinishedBody_ok_def

lemma FinishedBody_decode:
  "FinishedBody_Unmarshal d = Inr b \<Longrightarrow> FinishedBody_ok b \<and> (d = FinishedBody_Marshal b)"
  by (auto simp: FinishedBody_defs Let_def writer_defs remaining_eq split: if_splits elim!: codec_inv)

interpretation fb: strict_body_codec FinishedBody_Marshal FinishedBody_Unmarshal FinishedBody_ok
proof
  show "FinishedBody_ok b \<Longrightarrow> FinishedBody_Unmarshal (FinishedBody_Marshal b) = Inr b" for b
    by (simp add: FinishedBody_defs Let_def writer_defs reader_simps remaining_eq nul_free_def strip_pad8)
  show "\<not> panics (FinishedBody_Unmarshal d)" for d
    by (auto simp: FinishedBody_Unmarshal_def codec_no_panic split: if_splits)
qed (use FinishedBody_decode in blast)+

end
