(* ===== verification/ProtoOrder.thy ===== *)
theory ProtoOrder
  imports ProtoHandshake
begin

text \<open>
  The order bodies of \<^verbatim>\<open>proto/body_types.go\<close> (xbcTransaction, xbcPendingTransaction and
  xbcTransactionAccepting with their utxo arrays), the command numbers of
  \<^verbatim>\<open>proto/command.go\<close>, and the dispatcher \<^verbatim>\<open>DecodeBody\<close>.
\<close>

section \<open>Commands\<close>

type_synonym XBridgeCommand = u32

definition XbcInvalid :: XBridgeCommand where "XbcInvalid = 0"
definition XbcXChatMessage :: XBridgeCommand where "XbcXChatMessage = 2"
definition XbcTransaction :: XBridgeCommand where "XbcTransaction = 3"
definition XbcPendingTransaction :: XBridgeCommand where "XbcPendingTransaction = 4"
definition XbcTransactionAccepting :: XBridgeCommand where "XbcTransactionAccepting = 5"
definition XbcTransactionHold :: XBridgeCommand where "XbcTransactionHold = 6"
definition XbcTransactionHoldApply :: XBridgeCommand where "XbcTransactionHoldApply = 7"
definition XbcTransactionInit :: XBridgeCommand where "XbcTransactionInit = 8"
definition XbcTransactionInitialized :: XBridgeCommand where "XbcTransactionInitialized = 9"
definition XbcTransactionCreateA :: XBridgeCommand where "XbcTransactionCreateA = 10"
definition XbcTransactionCreatedA :: XBridgeCommand where "XbcTransactionCreatedA = 11"
definition XbcTransactionCreateB :: XBridgeCommand where "XbcTransactionCreateB = 12"
definition XbcTransactionCreatedB :: XBridgeCommand where "XbcTransactionCreatedB = 13"
definition XbcTransactionConfirmA :: XBridgeCommand where "XbcTransactionConfirmA = 18"
definition XbcTransactionConfirmedA :: XBridgeCommand where "XbcTransactionConfirmedA = 19"
definition XbcTransactionConfirmB :: XBridgeCommand where "XbcTransactionConfirmB = 20"
definition XbcTransactionConfirmedB :: XBridgeCommand where "XbcTransactionConfirmedB = 21"
definition XbcTransactionCancel :: XBridgeCommand where "XbcTransactionCancel = 22"
definition XbcTransactionFinished :: XBridgeCommand where "XbcTransactionFinished = 24"
definition XbcTransactionReject :: XBridgeCommand where "XbcTransactionReject = 26"
definition XbcServicesPing :: XBridgeCommand where "XbcServicesPing = 50"

lemmas command_defs =
  XbcInvalid_def XbcXChatMessage_def XbcTransaction_def XbcPendingTransaction_def
  XbcTransactionAccepting_def XbcTransactionHold_def XbcTransactionHoldApply_def
  XbcTransactionInit_def XbcTransactionInitialized_def XbcTransactionCreateA_def
  XbcTransactionCreatedA_def XbcTransactionCreateB_def XbcTransactionCreatedB_def
  XbcTransactionConfirmA_def XbcTransactionConfirmedA_def XbcTransactionConfirmB_def
  XbcTransactionConfirmedB_def XbcTransactionCancel_def XbcTransactionFinished_def
  XbcTransactionReject_def XbcServicesPing_def

definition commandNames :: "(XBridgeCommand \<times> string) list" where
  "commandNames =
    [(XbcInvalid, ''xbcInvalid''),
     (XbcXChatMessage, ''xbcXChatMessage''),
     (XbcTransaction, ''xbcTransaction''),
     (XbcPendingTransaction, ''xbcPendingTransaction''),
     (XbcTransactionAccepting, ''xbcTransactionAccepting''),
     (XbcTransactionHold, ''xbcTransactionHold''),
     (XbcTransactionHoldApply, ''xbcTransactionHoldApply''),
     (XbcTransactionInit, ''xbcTransactionInit''),
     (XbcTransactionInitialized, ''xbcTransactionInitialized''),
     (XbcTransactionCreateA, ''xbcTransactionCreateA''),
     (XbcTransactionCreatedA, ''xbcTransactionCreatedA''),
     (XbcTransactionCreateB, ''xbcTransactionCreateB''),
     (XbcTransactionCreatedB, ''xbcTransactionCreatedB''),
     (XbcTransactionConfirmA, ''xbcTransactionConfirmA''),
     (XbcTransactionConfirmedA, ''xbcTransactionConfirmedA''),
     (XbcTransactionConfirmB, ''xbcTransactionConfirmB''),
     (XbcTransactionConfirmedB, ''xbcTransactionConfirmedB''),
     (XbcTransactionCancel, ''xbcTransactionCancel''),
     (XbcTransactionFinished, ''xbcTransactionFinished''),
     (XbcTransactionReject, ''xbcTransactionReject''),
     (XbcServicesPing, ''xbcServicesPing'')]"

definition XBridgeCommand_String :: "XBridgeCommand \<Rightarrow> string" where
  "XBridgeCommand_String c = (case map_of commandNames c of Some s \<Rightarrow> s | None \<Rightarrow> ''xbcUnknown'')"

section \<open>Utxo entries\<close>

definition maxUtxoEntries :: u32 where "maxUtxoEntries = 65536"

definition minUtxoEntryBytes :: u64 where "minUtxoEntryBytes = 121"

record UtxoEntry =
  ue_TxID :: bytes
  ue_Vout :: u32
  ue_RawAddress :: bytes
  ue_Signature :: bytes

definition UtxoEntry_marshal :: "body_writer \<Rightarrow> UtxoEntry \<Rightarrow> body_writer" where
  "UtxoEntry_marshal w u = (let
     w = BW_Hash w (ue_TxID u);
     w = BW_Uint32 w (ue_Vout u);
     w = BW_Addr w (ue_RawAddress u);
     w = BW_Bytes w (ue_Signature u)
   in w)"

definition UtxoEntry_unmarshal :: "body_reader \<Rightarrow> (UtxoEntry \<times> body_reader) go" where
  "UtxoEntry_unmarshal r =
     go_bind (BR_Hash r) (\<lambda>(vTxID, r).
     go_bind (BR_Uint32 r) (\<lambda>(vVout, r).
     go_bind (BR_Addr r) (\<lambda>(vRawAddress, r).
     go_bind (BR_Bytes 65 r) (\<lambda>(vSignature, r).
     Inr (\<lparr>ue_TxID = vTxID, ue_Vout = vVout, ue_RawAddress = vRawAddress,
       ue_Signature = vSignature\<rparr>, r)))))"

definition marshalUtxoArray :: "body_writer \<Rightarrow> UtxoEntry list \<Rightarrow> body_writer" where
  "marshalUtxoArray w utxos =
     fold (\<lambda>u w. UtxoEntry_marshal w u) utxos (BW_Uint32 w (of_nat (length utxos)))"

text \<open>The loop \<^verbatim>\<open>for i := range utxos\<close> over the freshly made slice of \<open>n\<close> entries.\<close>

fun unmarshalUtxos :: "nat \<Rightarrow> body_reader \<Rightarrow> (UtxoEntry list \<times> body_reader) go" where
  "unmarshalUtxos 0 r = Inr ([], r)"
| "unmarshalUtxos (Suc n) r =
     go_bind (UtxoEntry_unmarshal r) (\<lambda>(u, r).
     go_bind (unmarshalUtxos n r) (\<lambda>(us, r). Inr (u # us, r)))"

definition unmarshalUtxoArray :: "body_reader \<Rightarrow> (UtxoEntry list \<times> body_reader) go" where
  "unmarshalUtxoArray r =
     go_bind (BR_Uint32 r) (\<lambda>(n, r).
     if n > maxUtxoEntries then Inl (GoErr ''xbridge: too many utxos in body'')
     else if (ucast n :: u64) * minUtxoEntryBytes > (of_int (remaining r) :: u64)
       then Inl (GoErr ''xbridge: utxo count exceeds body length'')
     else unmarshalUtxos (unat n) r)"

section \<open>Order bodies\<close>

record OrderBody =
  ob_ID :: bytes
  ob_From :: bytes
  ob_FromCurrency :: string
  ob_FromAmount :: u64
  ob_To :: bytes
  ob_ToCurrency :: string
  ob_ToAmount :: u64
  ob_Created :: u64
  ob_BlockHash :: bytes
  ob_PartialAllowed :: bool
  ob_MinFromAmount :: u64
  ob_Utxos :: "UtxoEntry list"

definition OrderBody_Marshal :: "OrderBody \<Rightarrow> bytes" where
  "OrderBody_Marshal b = (let
     w = NewBodyWriter;
     w = BW_Hash w (ob_ID b);
     w = BW_Addr w (ob_From b);
     w = BW_Currency w (ob_FromCurrency b);
     w = BW_Uint64 w (ob_FromAmount b);
     w = BW_Addr w (ob_To b);
     w = BW_Currency w (ob_ToCurrency b);
     w = BW_Uint64 w (ob_ToAmount b);
     w = BW_Uint64 w (ob_Created b);
     w = BW_Hash w (ob_BlockHash b);
     w = (if ob_PartialAllowed b then BW_Uint16 w 1 else BW_Uint16 w 0);
     w = BW_Uint64 w (ob_MinFromAmount b);
     w = marshalUtxoArray w (ob_Utxos b)
   in BW_Payload w)"

definition OrderBody_Unmarshal :: "bytes \<Rightarrow> OrderBody go" where
  "OrderBody_Unmarshal data =
     go_bind (BR_Hash (NewBodyReader data)) (\<lambda>(vID, r).
     go_bind (BR_Addr r) (\<lambda>(vFrom, r).
     go_bind (BR_Currency r) (\<lambda>(vFromCurrency, r).
     go_bind (BR_Uint64 r) (\<lambda>(vFromAmount, r).
     go_bind (BR_Addr r) (\<lambda>(vTo, r).
     go_bind (BR_Currency r) (\<lambda>(vToCurrency, r).
     go_bind (BR_Uint64 r) (\<lambda>(vToAmount, r).
     go_bind (BR_Uint64 r) (\<lambda>(vCreated, r).
     go_bind (BR_Hash r) (\<lambda>(vBlockHash, r).
     go_bind (BR_Uint16 r) (\<lambda>(pf, r).
     go_bind (BR_Uint64 r) (\<lambda>(vMinFromAmount, r).
     go_bind (unmarshalUtxoArray r) (\<lambda>(vUtxos, r).
     Inr \<lparr>ob_ID = vID, ob_From = vFrom, ob_FromCurrency = vFromCurrency,
         ob_FromAmount = vFromAmount, ob_To = vTo, ob_ToCurrency = vToCurrency,
         ob_ToAmount = vToAmount, ob_Created = vCreated, ob_BlockHash = vBlockHash,
         ob_PartialAllowed = (pf \<noteq> 0), ob_MinFromAmount = vMinFromAmount,
         ob_Utxos = vUtxos\<rparr>))))))))))))"

record PendingTransactionBody =
  pb_ID :: bytes
  pb_FromCurrency :: string
  pb_FromAmount :: u64
  pb_ToCurrency :: string
  pb_ToAmount :: u64
  pb_HubAddress :: bytes
  pb_Created :: u64
  pb_BlockHash :: bytes
  pb_PartialAllowed :: bool
  pb_MinFromAmount :: u64

definition PendingTransactionBody_Marshal :: "PendingTransactionBody \<Rightarrow> bytes" where
  "PendingTransactionBody_Marshal b = (let
     w = NewBodyWriter;
     w = BW_Hash w (pb_ID b);
     w = BW_Currency w (pb_FromCurrency b);
     w = BW_Uint64 w (pb_FromAmount b);
     w = BW_Currency w (pb_ToCurrency b);
     w = BW_Uint64 w (pb_ToAmount b);
     w = BW_Addr w (pb_HubAddress b);
     w = BW_Uint64 w (pb_Created b);
     w = BW_Hash w (pb_BlockHash b);
     w = (if pb_PartialAllowed b then BW_Uint16 w 1 else BW_Uint16 w 0);
     w = BW_Uint64 w (pb_MinFromAmount b)
   in BW_Payload w)"

text \<open>
  The trailing minimum is optional: nothing left means the 126-byte form (the field keeps the
  zero of the fresh struct), eight bytes left are read, anything else is malformed.
\<close>

definition PendingTransactionBody_Unmarshal :: "bytes \<Rightarrow> PendingTransactionBody go" where
  "PendingTransactionBody_Unmarshal data =
     go_bind (BR_Hash (NewBodyReader data)) (\<lambda>(vID, r).
     go_bind (BR_Currency r) (\<lambda>(vFromCurrency, r).
     go_bind (BR_Uint64 r) (\<lambda>(vFromAmount, r).
     go_bind (BR_Currency r) (\<lambda>(vToCurrency, r).
     go_bind (BR_Uint64 r) (\<lambda>(vToAmount, r).
     go_bind (BR_Addr r) (\<lambda>(vHubAddress, r).
     go_bind (BR_Uint64 r) (\<lambda>(vCreated, r).
     go_bind (BR_Hash r) (\<lambda>(vBlockHash, r).
     go_bind (BR_Uint16 r) (\<lambda>(pf, r).
     let b = \<lparr>pb_ID = vID, pb_FromCurrency = vFromCurrency, pb_FromAmount = vFromAmount,
         pb_ToCurrency = vToCurrency, pb_ToAmount = vToAmount, pb_HubAddress = vHubAddress,
         pb_Created = vCreated, pb_BlockHash = vBlockHash,
         pb_PartialAllowed = (pf \<noteq> 0), pb_MinFromAmount = 0\<rparr>
     in if remaining r = 0 then Inr b
        else if remaining r = 8 then
          go_bind (BR_Uint64 r) (\<lambda>(m, r). Inr (b\<lparr>pb_MinFromAmount := m\<rparr>))
        else Inl (GoErr ''xbridge: malformed xbcPendingTransaction body length''))))))))))"

record AcceptingBody =
  ab_HubAddress :: bytes
  ab_ID :: bytes
  ab_ServiceNodeFeeTx :: bytes
  ab_From :: bytes
  ab_FromCurrency :: string
  ab_FromAmount :: u64
  ab_FromBlockHeight :: u32
  ab_FromBlockHash :: bytes
  ab_To :: bytes
  ab_ToCurrency :: string
  ab_ToAmount :: u64
  ab_ToBlockHeight :: u32
  ab_ToBlockHash :: bytes
  ab_Utxos :: "UtxoEntry list"

definition AcceptingBody_Marshal :: "AcceptingBody \<Rightarrow> bytes" where
  "AcceptingBody_Marshal b = (let
     w = NewBodyWriter;
     w = BW_Addr w (ab_HubAddress b);
     w = BW_Hash w (ab_ID b);
     w = BW_Uint32 w (of_nat (length (ab_ServiceNodeFeeTx b)));
     w = BW_Bytes w (ab_ServiceNodeFeeTx b);
     w = BW_Addr w (ab_From b);
     w = BW_Currency w (ab_FromCurrency b);
     w = BW_Uint64 w (ab_FromAmount b);
     w = BW_Uint32 w (ab_FromBlockHeight b);
     w = BW_Bytes w (ab_FromBlockHash b);
     w = BW_Addr w (ab_To b);
     w = BW_Currency w (ab_ToCurrency b);
     w = BW_Uint64 w (ab_ToAmount b);
     w = BW_Uint32 w (ab_ToBlockHeight b);
     w = BW_Bytes w (ab_ToBlockHash b);
     w = marshalUtxoArray w (ab_Utxos b)
   in BW_Payload w)"

definition AcceptingBody_Unmarshal :: "bytes \<Rightarrow> AcceptingBody go" where
  "AcceptingBody_Unmarshal data =
     go_bind (BR_Addr (NewBodyReader data)) (\<lambda>(vHubAddress, r).
     go_bind (BR_Hash r) (\<lambda>(vID, r).
     go_bind (BR_Uint32 r) (\<lambda>(n, r).
     go_bind (BR_Bytes (unat n) r) (\<lambda>(vFeeTx, r).
     go_bind (BR_Addr r) (\<lambda>(vFrom, r).
     go_bind (BR_Currency r) (\<lambda>(vFromCurrency, r).
     go_bind (BR_Uint64 r) (\<lambda>(vFromAmount, r).
     go_bind (BR_Uint32 r) (\<lambda>(vFromBlockHeight, r).
     go_bind (BR_Bytes 8 r) (\<lambda>(fbh, r).
     go_bind (BR_Addr r) (\<lambda>(vTo, r).
     go_bind (BR_Currency r) (\<lambda>(vToCurrency, r).
     go_bind (BR_Uint64 r) (\<lambda>(vToAmount, r).
     go_bind (BR_Uint32 r) (\<lambda>(vToBlockHeight, r).
     go_bind (BR_Bytes 8 r) (\<lambda>(tbh, r).
     go_bind (unmarshalUtxoArray r) (\<lambda>(vUtxos, r).
     Inr \<lparr>ab_HubAddress = vHubAddress, ab_ID = vID, ab_ServiceNodeFeeTx = vFeeTx,
         ab_From = vFrom, ab_FromCurrency = vFromCurrency, ab_FromAmount = vFromAmount,
         ab_FromBlockHeight = vFromBlockHeight, ab_FromBlockHash = fbh, ab_To = vTo,
         ab_ToCurrency = vToCurrency, ab_ToAmount = vToAmount,
         ab_ToBlockHeight = vToBlockHeight, ab_ToBlockHash = tbh,
         ab_Utxos = vUtxos\<rparr>)))))))))))))))"

section \<open>Dispatch\<close>

datatype xbody =
    XOrder OrderBody | XPending PendingTransactionBody | XAccepting AcceptingBody
  | XHold HoldBody | XHoldApply HoldApplyBody | XInit InitBody | XInitialized InitializedBody
  | XCreateA CreateABody | XCreatedA CreatedABody | XCreateB CreateBBody | XCreatedB CreatedBBody
  | XConfirmA ConfirmABody | XConfirmedA ConfirmedABody | XConfirmB ConfirmBBody
  | XConfirmedB ConfirmedBBody | XCancel CancelBody | XFinished FinishedBody | XReject RejectBody

definition DecodeBody :: "XBridgeCommand \<Rightarrow> bytes \<Rightarrow> xbody go" where
  "DecodeBody cmd body =
    (if cmd = XbcTransaction then map_sum id XOrder (OrderBody_Unmarshal body)
     else if cmd = XbcPendingTransaction then map_sum id XPending (PendingTransactionBody_Unmarshal body)
     else if cmd = XbcTransactionAccepting then map_sum id XAccepting (AcceptingBody_Unmarshal body)
     else if cmd = XbcTransactionHold then map_sum id XHold (HoldBody_Unmarshal body)
     else if cmd = XbcTransactionHoldApply then map_sum id XHoldApply (HoldApplyBody_Unmarshal body)
     else if cmd = XbcTransactionInit then map_sum id XInit (InitBody_Unmarshal body)
     else if cmd = XbcTransactionInitialized then map_sum id XInitialized (InitializedBody_Unmarshal body)
     else if cmd = XbcTransactionCreateA then map_sum id XCreateA (CreateABody_Unmarshal body)
     else if cmd = XbcTransactionCreatedA then map_sum id XCreatedA (CreatedABody_Unmarshal body)
     else if cmd = XbcTransactionCreateB then map_sum id XCreateB (CreateBBody_Unmarshal body)
     else if cmd = XbcTransactionCreatedB then map_sum id XCreatedB (CreatedBBody_Unmarshal body)
     else if cmd = XbcTransactionConfirmA then map_sum id XConfirmA (ConfirmABody_Unmarshal body)
     else if cmd = XbcTransactionConfirmedA then map_sum id XConfirmedA (ConfirmedABody_Unmarshal body)
     else if cmd = XbcTransactionConfirmB then map_sum id XConfirmB (ConfirmBBody_Unmarshal body)
     else if cmd = XbcTransactionConfirmedB then map_sum id XConfirmedB (ConfirmedBBody_Unmarshal body)
     else if cmd = XbcTransactionCancel then map_sum id XCancel (CancelBody_Unmarshal body)
     else if cmd = XbcTransactionFinished then map_sum id XFinished (FinishedBody_Unmarshal body)
     else if cmd = XbcTransactionReject then map_sum id XReject (RejectBody_Unmarshal body)
     else Inl (GoErr (''xbridge: no typed body for command '' @ XBridgeCommand_String cmd)))"

text \<open>The command a typed body travels under, its wire form, and the values it can carry.\<close>

fun xbody_command :: "xbody \<Rightarrow> XBridgeCommand" where
  "xbody_command (XOrder b) = XbcTransaction"
| "xbody_command (XPending b) = XbcPendingTransaction"
| "xbody_command (XAccepting b) = XbcTransactionAccepting"
| "xbody_command (XHold b) = XbcTransactionHold"
| "xbody_command (XHoldApply b) = XbcTransactionHoldApply"
| "xbody_command (XInit b) = XbcTransactionInit"
| "xbody_command (XInitialized b) = XbcTransactionInitialized"
| "xbody_command (XCreateA b) = XbcTransactionCreateA"
| "xbody_command (XCreatedA b) = XbcTransactionCreatedA"
| "xbody_command (XCreateB b) = XbcTransactionCreateB"
| "xbody_command (XCreatedB b) = XbcTransactionCreatedB"
| "xbody_command (XConfirmA b) = XbcTransactionConfirmA"
| "xbody_command (XConfirmedA b) = XbcTransactionConfirmedA"
| "xbody_command (XConfirmB b) = XbcTransactionConfirmB"
| "xbody_command (XConfirmedB b) = XbcTransactionConfirmedB"
| "xbody_command (XCancel b) = XbcTransactionCancel"
| "xbody_command (XFinished b) = XbcTransactionFinished"
| "xbody_command (XReject b) = XbcTransactionReject"

fun xbody_Marshal :: "xbody \<Rightarrow> bytes" where
  "xbody_Marshal (XOrder b) = OrderBody_Marshal b"
| "xbody_Marshal (XPending b) = PendingTransactionBody_Marshal b"
| "xbody_Marshal (XAccepting b) = AcceptingBody_Marshal b"
| "xbody_Marshal (XHold b) = HoldBody_Marshal b"
| "xbody_Marshal (XHoldApply b) = HoldApplyBody_Marshal b"
| "xbody_Marshal (XInit b) = InitBody_Marshal b"
| "xbody_Marshal (XInitialized b) = InitializedBody_Marshal b"
| "xbody_Marshal (XCreateA b) = CreateABody_Marshal b"
| "xbody_Marshal (XCreatedA b) = CreatedABody_Marshal b"
| "xbody_Marshal (XCreateB b) = CreateBBody_Marshal b"
| "xbody_Marshal (XCreatedB b) = CreatedBBody_Marshal b"
| "xbody_Marshal (XConfirmA b) = ConfirmABody_Marshal b"
| "xbody_Marshal (XConfirmedA b) = ConfirmedABody_Marshal b"
| "xbody_Marshal (XConfirmB b) = ConfirmBBody_Marshal b"
| "xbody_Marshal (XConfirmedB b) = ConfirmedBBody_Marshal b"
| "xbody_Marshal (XCancel b) = CancelBody_Marshal b"
| "xbody_Marshal (XFinished b) = FinishedBody_Marshal b"
| "xbody_Marshal (XReject b) = RejectBody_Marshal b"

definition UtxoEntry_ok :: "UtxoEntry \<Rightarrow> bool" where
  "UtxoEntry_ok u \<longleftrightarrow> length (ue_TxID u) = 32 \<and> length (ue_RawAddress u) = 20 \<and>
     length (ue_Signature u) = 65"

definition utxos_ok :: "UtxoEntry list \<Rightarrow> bool" where
  "utxos_ok us \<longleftrightarrow> length us \<le> 65536 \<and> list_all UtxoEntry_ok us"

definition OrderBody_ok :: "OrderBody \<Rightarrow> bool" where
  "OrderBody_ok b \<longleftrightarrow> length (ob_ID b) = 32 \<and> length (ob_From b) = 20 \<and>
     currency_ok (ob_FromCurrency b) \<and> length (ob_To b) = 20 \<and> currency_ok (ob_ToCurrency b) \<and>
     length (ob_BlockHash b) = 32 \<and> utxos_ok (ob_Utxos b)"

definition PendingTransactionBody_ok :: "PendingTransactionBody \<Rightarrow> bool" where
  "PendingTransactionBody_ok b \<longleftrightarrow> length (pb_ID b) = 32 \<and> currency_ok (pb_FromCurrency b) \<and>
     currency_ok (pb_ToCurrency b) \<and> length (pb_HubAddress b) = 20 \<and>
     length (pb_BlockHash b) = 32"

definition AcceptingBody_ok :: "AcceptingBody \<Rightarrow> bool" where
  "AcceptingBody_ok b \<longleftrightarrow> length (ab_HubAddress b) = 20 \<and> length (ab_ID b) = 32 \<and>
     length (ab_ServiceNodeFeeTx b) < 2 ^ 32 \<and> length (ab_From b) = 20 \<and>
     currency_ok (ab_FromCurrency b) \<and> length (ab_FromBlockHash b) = 8 \<and>
     length (ab_To b) = 20 \<and> currency_ok (ab_ToCurrency b) \<and>
     length (ab_ToBlockHash b) = 8 \<and> utxos_ok (ab_Utxos b)"

fun xbody_ok :: "xbody \<Rightarrow> bool" where
  "xbody_ok (XOrder b) = OrderBody_ok b"
| "xbody_ok (XPending b) = PendingTransactionBody_ok b"
| "xbody_ok (XAccepting b) = AcceptingBody_ok b"
| "xbody_ok (XHold b) = HoldBody_ok b"
| "xbody_ok (XHoldApply b) = HoldApplyBody_ok b"
| "xbody_ok (XInit b) = InitBody_ok b"
| "xbody_ok (XInitialized b) = InitializedBody_ok b"
| "xbody_ok (XCreateA b) = CreateABody_ok b"
| "xbody_ok (XCreatedA b) = CreatedABody_ok b"
| "xbody_ok (XCreateB b) = CreateBBody_ok b"
| "xbody_ok (XCreatedB b) = CreatedBBody_ok b"
| "xbody_ok (XConfirmA b) = ConfirmABody_ok b"
| "xbody_ok (XConfirmedA b) = ConfirmedABody_ok b"
| "xbody_ok (XConfirmB b) = ConfirmBBody_ok b"
| "xbody_ok (XConfirmedB b) = ConfirmedBBody_ok b"
| "xbody_ok (XCancel b) = CancelBody_ok b"
| "xbody_ok (XFinished b) = FinishedBody_ok b"
| "xbody_ok (XReject b) = RejectBody_ok b"

section \<open>Utxo arrays implement the codec interface\<close>

definition put_utxo :: "UtxoEntry \<Rightarrow> bytes" where
  "put_utxo u = UtxoEntry_marshal NewBodyWriter u"

definition put_utxos :: "UtxoEntry list \<Rightarrow> bytes" where
  "put_utxos us = PutUint32 (of_nat (length us)) @ concat (map put_utxo us)"

lemma UtxoEntry_marshal_app: "UtxoEntry_marshal w u = w @ put_utxo u"
  by (simp add: put_utxo_def UtxoEntry_marshal_def writer_defs)

lemma marshalUtxoArray_app: "marshalUtxoArray w us = w @ put_utxos us"
proof -
  have "fold (\<lambda>u w. UtxoEntry_marshal w u) us v = v @ concat (map put_utxo us)" for v
    by (induction us arbitrary: v) (auto simp: UtxoEntry_marshal_app)
  then show ?thesis by (simp add: marshalUtxoArray_def put_utxos_def writer_defs)
qed

lemma length_put_utxo: "UtxoEntry_ok u \<Longrightarrow> length (put_utxo u) = 121"
  by (simp add: put_utxo_def UtxoEntry_marshal_def UtxoEntry_ok_def writer_defs)

lemma length_concat_utxos:
  "list_all UtxoEntry_ok us \<Longrightarrow> length (concat (map put_utxo us)) = 121 * length us"
  by (induction us) (auto simp: length_put_utxo)

interpretation cutxo: wire_codec put_utxo UtxoEntry_unmarshal UtxoEntry_ok
proof
  show "rd_ok r \<Longrightarrow> rd_rest r = put_utxo x @ ys \<Longrightarrow> UtxoEntry_ok x \<Longrightarrow>
      UtxoEntry_unmarshal r = Inr (x, rd_skip (length (put_utxo x)) r)" for r x ys
    by (simp add: put_utxo_def UtxoEntry_marshal_def UtxoEntry_unmarshal_def UtxoEntry_ok_def
        writer_defs reader_simps rd_skip_skip)
  show "rd_ok r \<Longrightarrow> UtxoEntry_unmarshal r = Inr (x, r') \<Longrightarrow>
      UtxoEntry_ok x \<and> rd_ok r' \<and> rd_data r' = rd_data r \<and> rd_rest r = put_utxo x @ rd_rest r'"
    for r x r'
    by (auto simp: put_utxo_def UtxoEntry_marshal_def UtxoEntry_unmarshal_def UtxoEntry_ok_def
        writer_defs elim!: codec_inv)
  show "\<not> panics (UtxoEntry_unmarshal r)" for r
    by (auto simp: UtxoEntry_unmarshal_def codec_no_panic)
qed

lemma unmarshalUtxos_put:
  "rd_ok r \<Longrightarrow> rd_rest r = concat (map put_utxo us) @ ys \<Longrightarrow> list_all UtxoEntry_ok us \<Longrightarrow>
    unmarshalUtxos (length us) r = Inr (us, rd_skip (length (concat (map put_utxo us))) r)"
proof (induction us arbitrary: r)
  case Nil
  then show ?case by (simp add: rd_skip_def)
next
  case (Cons u us)
  have "UtxoEntry_unmarshal r = Inr (u, rd_skip (length (put_utxo u)) r)"
    by (rule cutxo.get_put [OF Cons.prems(1)]) (use Cons.prems in simp_all)
  moreover have "unmarshalUtxos (length us) (rd_skip (length (put_utxo u)) r)
      = Inr (us, rd_skip (length (concat (map put_utxo us))) (rd_skip (length (put_utxo u)) r))"
    by (rule Cons.IH) (use Cons.prems in simp_all)
  ultimately show ?case by (simp add: rd_skip_skip)
qed

lemma unmarshalUtxos_inv:
  "rd_ok r \<Longrightarrow> unmarshalUtxos n r = Inr (us, r') \<Longrightarrow>
    length us = n \<and> list_all UtxoEntry_ok us \<and> rd_ok r' \<and> rd_data r' = rd_data r \<and>
    rd_rest r = concat (map put_utxo us) @ rd_rest r'"
proof (induction n arbitrary: r us)
  case (Suc n)
  from Suc.prems(2) obtain u r1 vs where u: "UtxoEntry_unmarshal r = Inr (u, r1)"
    and vs: "unmarshalUtxos n r1 = Inr (vs, r')" and "us = u # vs"
    by (auto simp: go_bind_eq_Inr)
  with cutxo.get_inv [OF Suc.prems(1) u] Suc.IH [OF _ vs] show ?case by auto
qed auto

lemma unmarshalUtxos_no_panic: "\<not> panics (unmarshalUtxos n r)"
  by (induction n arbitrary: r) (auto simp: panics_go_bind cutxo.get_no_panic)

text \<open>The two count checks never reject an array the writer made.\<close>

lemma utxo_count_checks:
  assumes "n \<le> 65536" and "121 * n \<le> left" and "left < 2 ^ 63"
  shows "\<not> (of_nat n :: u32) > maxUtxoEntries"
    and "\<not> (ucast (of_nat n :: u32) :: u64) * minUtxoEntryBytes > of_int (int left)"
proof -
  show "\<not> (of_nat n :: u32) > maxUtxoEntries"
    using assms(1) by (simp add: maxUtxoEntries_def word_less_nat_alt unat_of_nat)
  have "unat ((ucast (of_nat n :: u32) :: u64) * minUtxoEntryBytes) = 121 * n"
    using assms(1) by (simp add: minUtxoEntryBytes_def unat_word_ariths unat_of_nat
        unsigned_ucast_eq take_bit_eq_mod)
  then show "\<not> (ucast (of_nat n :: u32) :: u64) * minUtxoEntryBytes > of_int (int left)"
    using assms(2,3) by (simp add: word_less_nat_alt unat_of_nat not_less)
qed

lemma unmarshalUtxoArray_put:
  assumes "rd_ok r" and "rd_rest r = put_utxos us @ ys" and "utxos_ok us"
    and "length (rd_rest r) < 2 ^ 63"
  shows "unmarshalUtxoArray r = Inr (us, rd_skip (length (put_utxos us)) r)"
proof -
  let ?r = "rd_skip 4 r"
  have r: "rd_ok ?r" "rd_rest ?r = concat (map put_utxo us) @ ys"
    using assms(1,2) by (simp_all add: put_utxos_def)
  have "BR_Uint32 r = Inr (of_nat (length us), ?r)"
    using c32.get_put [OF assms(1), of "of_nat (length us)"] assms(2) by (simp add: put_utxos_def)
  moreover have "unmarshalUtxos (length us) ?r = Inr (us, rd_skip (length (concat (map put_utxo us))) ?r)"
    by (rule unmarshalUtxos_put [OF r]) (use assms(3) in \<open>simp add: utxos_ok_def\<close>)
  moreover have "length (concat (map put_utxo us) @ ys) < 2 ^ 63"
    using assms(2,4) by (simp add: put_utxos_def)
  moreover have "unat (of_nat (length us) :: u32) = length us"
    using assms(3) by (simp add: utxos_ok_def unat_of_nat)
  moreover have "remaining ?r = int (length (concat (map put_utxo us) @ ys))"
    by (simp only: remaining_eq r)
  moreover have "121 * length us \<le> length (concat (map put_utxo us) @ ys)"
    using assms(3) length_concat_utxos [of us] by (simp add: utxos_ok_def)
  ultimately show ?thesis
    using assms(3) utxo_count_checks [of "length us" "length (concat (map put_utxo us) @ ys)"]
    by (simp add: unmarshalUtxoArray_def utxos_ok_def rd_skip_skip put_utxos_def)
qed

lemma unmarshalUtxoArray_inv:
  assumes "rd_ok r" and "unmarshalUtxoArray r = Inr (us, r')"
  shows "utxos_ok us \<and> rd_ok r' \<and> rd_data r' = rd_data r \<and> rd_rest r = put_utxos us @ rd_rest r'"
proof -
  from assms(2) obtain n r1 where n: "BR_Uint32 r = Inr (n, r1)" and "n \<le> maxUtxoEntries"
    and us: "unmarshalUtxos (unat n) r1 = Inr (us, r')"
    by (auto simp: unmarshalUtxoArray_def go_bind_eq_Inr not_less split: if_splits)
  moreover have "unat n \<le> 65536"
    using \<open>n \<le> maxUtxoEntries\<close> by (simp add: maxUtxoEntries_def word_le_nat_alt)
  ultimately show ?thesis
    using c32.get_inv [OF assms(1) n] unmarshalUtxos_inv [OF _ us]
    by (auto simp: utxos_ok_def put_utxos_def)
qed

lemma unmarshalUtxoArray_no_panic: "\<not> panics (unmarshalUtxoArray r)"
  by (auto simp: unmarshalUtxoArray_def unmarshalUtxos_no_panic codec_no_panic split: if_splits)

section \<open>The order bodies implement the body contract\<close>

lemmas OrderBody_defs = OrderBody_Marshal_def OrderBody_Unmarshal_def OrderBody_ok_def

lemmas PendingTransactionBody_defs = PendingTransactionBody_Marshal_def
  PendingTransactionBody_Unmarshal_def PendingTransactionBody_ok_def

lemmas AcceptingBody_defs = AcceptingBody_Marshal_def AcceptingBody_Unmarshal_def AcceptingBody_ok_def

lemma length_put_utxos: "utxos_ok us \<Longrightarrow> length (put_utxos us) \<le> 7929860"
  by (auto simp: put_utxos_def utxos_ok_def length_concat_utxos simp del: length_concat)

lemma BR_unmarshalUtxoArray_InrE:
  assumes "go_bind (unmarshalUtxoArray r) k = Inr res"
  obtains us r' where "k (us, r') = Inr res"
    and "rd_ok r \<Longrightarrow> utxos_ok us \<and> rd_ok r' \<and> rd_data r' = rd_data r \<and> rd_rest r = put_utxos us @ rd_rest r'"
  using assms unmarshalUtxoArray_inv [of r] by (auto simp: go_bind_eq_Inr)

interpretation ob: body_codec OrderBody_Marshal OrderBody_Unmarshal OrderBody_ok
proof
  show "OrderBody_Unmarshal (OrderBody_Marshal b) = Inr b" if ok: "OrderBody_ok b" for b
  proof -
    have "utxos_ok (ob_Utxos b)" using ok by (simp add: OrderBody_ok_def)
    then show ?thesis
      using ok length_put_utxos [of "ob_Utxos b"]
      by (simp add: OrderBody_defs Let_def writer_defs reader_simps strip_pad8 marshalUtxoArray_app
          unmarshalUtxoArray_put [where us = "ob_Utxos b" and ys = "[]"])
  qed
  show "OrderBody_Unmarshal d = Inr b \<Longrightarrow> OrderBody_ok b" for d b
    by (auto simp: OrderBody_defs elim!: codec_inv BR_unmarshalUtxoArray_InrE)
  show "\<not> panics (OrderBody_Unmarshal d)" for d
    by (auto simp: OrderBody_Unmarshal_def unmarshalUtxoArray_no_panic codec_no_panic)
qed

interpretation pb: body_codec PendingTransactionBody_Marshal PendingTransactionBody_Unmarshal
    PendingTransactionBody_ok
proof
  show "PendingTransactionBody_ok b \<Longrightarrow>
      PendingTransactionBody_Unmarshal (PendingTransactionBody_Marshal b) = Inr b" for b
    by (simp add: PendingTransactionBody_defs Let_def writer_defs reader_simps remaining_eq strip_pad8)
  show "PendingTransactionBody_Unmarshal d = Inr b \<Longrightarrow> PendingTransactionBody_ok b" for d b
    by (auto simp: PendingTransactionBody_defs Let_def split: if_splits elim!: codec_inv)
  show "\<not> panics (PendingTransactionBody_Unmarshal d)" for d
    by (auto simp: PendingTransactionBody_Unmarshal_def Let_def codec_no_panic split: if_splits)
qed

interpretation ab: prefix_body_codec AcceptingBody_Marshal AcceptingBody_Unmarshal AcceptingBody_ok
proof
  show "AcceptingBody_Unmarshal (AcceptingBody_Marshal b) = Inr b" if ok: "AcceptingBody_ok b" for b
  proof -
    have "utxos_ok (ab_Utxos b)" using ok by (simp add: AcceptingBody_ok_def)
    moreover have "unat (of_nat (length (ab_ServiceNodeFeeTx b)) :: u32) = length (ab_ServiceNodeFeeTx b)"
      using ok by (simp add: AcceptingBody_ok_def unat_of_nat)
    ultimately show ?thesis
      using ok length_put_utxos [of "ab_Utxos b"]
      by (simp add: AcceptingBody_defs Let_def writer_defs reader_simps strip_pad8 marshalUtxoArray_app
          unmarshalUtxoArray_put [where us = "ab_Utxos b" and ys = "[]"])
  qed
  show "AcceptingBody_Unmarshal d = Inr b \<Longrightarrow> AcceptingBody_ok b" for d b
    by (auto simp: AcceptingBody_defs unsigned_less [where ?'b = 32, simplified]
        elim!: codec_inv BR_unmarshalUtxoArray_InrE)
  show "AcceptingBody_Unmarshal d = Inr b \<Longrightarrow> \<exists>ys. d = AcceptingBody_Marshal b @ ys" for d b
    by (auto simp: AcceptingBody_defs Let_def writer_defs marshalUtxoArray_app
        elim!: codec_inv BR_unmarshalUtxoArray_InrE)
  show "\<not> panics (AcceptingBody_Unmarshal d)" for d
    by (auto simp: AcceptingBody_Unmarshal_def unmarshalUtxoArray_no_panic codec_no_panic)
qed

section \<open>The dispatcher\<close>

lemmas body_roundtrips =
  ob.unmarshal_marshal pb.unmarshal_marshal ab.unmarshal_marshal hb.unmarshal_marshal
  hab.unmarshal_marshal ib.unmarshal_marshal inb.unmarshal_marshal cab.unmarshal_marshal
  cdab.unmarshal_marshal cbb.unmarshal_marshal cdbb.unmarshal_marshal cfab.unmarshal_marshal
  cfdab.unmarshal_marshal cfbb.unmarshal_marshal cfdbb.unmarshal_marshal clb.unmarshal_marshal
  rjb.unmarshal_marshal fb.unmarshal_marshal

lemmas body_oks =
  ob.unmarshal_ok pb.unmarshal_ok ab.unmarshal_ok hb.unmarshal_ok hab.unmarshal_ok ib.unmarshal_ok
  inb.unmarshal_ok cab.unmarshal_ok cdab.unmarshal_ok cbb.unmarshal_ok cdbb.unmarshal_ok
  cfab.unmarshal_ok cfdab.unmarshal_ok cfbb.unmarshal_ok cfdbb.unmarshal_ok clb.unmarshal_ok
  rjb.unmarshal_ok fb.unmarshal_ok

lemmas body_no_panics =
  ob.unmarshal_no_panic pb.unmarshal_no_panic ab.unmarshal_no_panic hb.unmarshal_no_panic
  hab.unmarshal_no_panic ib.unmarshal_no_panic inb.unmarshal_no_panic cab.unmarshal_no_panic
  cdab.unmarshal_no_panic cbb.unmarshal_no_panic cdbb.unmarshal_no_panic cfab.unmarshal_no_panic
  cfdab.unmarshal_no_panic cfbb.unmarshal_no_panic cfdbb.unmarshal_no_panic clb.unmarshal_no_panic
  rjb.unmarshal_no_panic fb.unmarshal_no_panic

text \<open>The bodies whose decoder insists on the exact layout.\<close>

fun fixed_layout :: "xbody \<Rightarrow> bool" where
  "fixed_layout (XHold _) = True" | "fixed_layout (XHoldApply _) = True"
| "fixed_layout (XInit _) = True" | "fixed_layout (XInitialized _) = True"
| "fixed_layout (XCreateA _) = True" | "fixed_layout (XCancel _) = True"
| "fixed_layout (XReject _) = True" | "fixed_layout (XFinished _) = True"
| "fixed_layout _ = False"

lemmas body_canonical =
  hb.unmarshal_canonical hab.unmarshal_canonical ib.unmarshal_canonical inb.unmarshal_canonical
  cab.unmarshal_canonical clb.unmarshal_canonical rjb.unmarshal_canonical fb.unmarshal_canonical

lemma map_sum_eq_Inr: "map_sum id f m = Inr y \<longleftrightarrow> (\<exists>x. m = Inr x \<and> y = f x)"
  by (cases m) auto

lemma panics_map_sum [simp]: "panics (map_sum id f m) = panics m"
  by (cases m) (auto simp: panics_def)

text \<open>
  C25: every typed body, under its own command, survives encoding and \<^verbatim>\<open>DecodeBody\<close> unchanged.
\<close>

theorem DecodeBody_roundtrip:
  "xbody_ok b \<Longrightarrow> DecodeBody (xbody_command b) (xbody_Marshal b) = Inr b"
  by (cases b) (simp_all add: DecodeBody_def command_defs body_roundtrips)

theorem DecodeBody_roundtrip_witness:
  "DecodeBody XbcTransactionCancel (xbody_Marshal (XCancel \<lparr>clb_ID = replicate 32 7, clb_Reason = 5\<rparr>))
    = Inr (XCancel \<lparr>clb_ID = replicate 32 7, clb_Reason = 5\<rparr>)"
  using DecodeBody_roundtrip [of "XCancel \<lparr>clb_ID = replicate 32 7, clb_Reason = 5\<rparr>"]
  by (simp add: CancelBody_ok_def)

text \<open>
  C26: decoding is sound on every input: a decoded body belongs to the packet's command and is
  well-formed, and for the fixed-layout commands the accepted bytes are exactly its encoding,
  so no two packets decode to the same body.
\<close>

theorem DecodeBody_sound:
  assumes "DecodeBody cmd d = Inr b"
  shows "cmd = xbody_command b \<and> xbody_ok b \<and> (fixed_layout b \<longrightarrow> d = xbody_Marshal b)"
  using assms unfolding DecodeBody_def
  by (auto simp: map_sum_eq_Inr split: if_splits dest: body_oks body_canonical)

theorem DecodeBody_sound_witness:
  "XbcTransactionFinished = xbody_command (XFinished \<lparr>fb_ID = replicate 32 9\<rparr>)
    \<and> replicate 32 9 = xbody_Marshal (XFinished \<lparr>fb_ID = replicate 32 9\<rparr>)"
proof -
  have "DecodeBody XbcTransactionFinished (replicate 32 9) = Inr (XFinished \<lparr>fb_ID = replicate 32 9\<rparr>)"
    by (simp add: DecodeBody_def command_defs FinishedBody_Unmarshal_def reader_simps remaining_eq)
  from DecodeBody_sound [OF this] show ?thesis by simp
qed

text \<open>No byte string makes a body decoder panic, for any command number.\<close>

theorem DecodeBody_no_panic: "\<not> panics (DecodeBody cmd d)"
  by (simp add: DecodeBody_def body_no_panics)

end
