(* ===== verification/Sha256.thy ===== *)
theory Sha256
  imports Prelude
begin

text \<open>
  The hash the sources call as \<^verbatim>\<open>sha256.Sum256\<close> (Go's \<^verbatim>\<open>crypto/sha256\<close>), as FIPS 180-4 defines
  it: padding, message schedule, 64 compression rounds. It is executable. The components use only that a
  digest has 32 bytes.
\<close>

unbundle bit_operations_syntax

section \<open>Definition\<close>

text \<open>
  The round constants are the first 32 fractional bits of the cube roots of the 64 primes up
  to 311, the initial state those of the square roots of the first eight. \<open>root_bits\<close> finds an
  integer root bit by bit from the top.
\<close>

fun root_bits :: "nat \<Rightarrow> int \<Rightarrow> nat \<Rightarrow> int \<Rightarrow> int" where
  "root_bits e n 0 r = r"
| "root_bits e n (Suc k) r = (let r' = r + 2 ^ k in root_bits e n k (if r' ^ e \<le> n then r' else r))"

definition frac_root :: "nat \<Rightarrow> nat \<Rightarrow> u32" where
  "frac_root e p = word_of_int (root_bits e (int p * 2 ^ (32 * e)) 40 0)"

definition sha_K :: "u32 list" where
  "sha_K = map (frac_root 3) (filter (\<lambda>p. \<forall>q \<in> set [2..<p]. p mod q \<noteq> 0) [2..<312])"

definition sha_H0 :: "u32 list" where
  "sha_H0 = map (frac_root 2) [2, 3, 5, 7, 11, 13, 17, 19]"

definition rotr :: "nat \<Rightarrow> u32 \<Rightarrow> u32" where
  "rotr n x = (drop_bit n x) OR (push_bit (32 - n) x)"

definition sha_s0 :: "u32 \<Rightarrow> u32" where
  "sha_s0 x = rotr 7 x XOR rotr 18 x XOR drop_bit 3 x"

definition sha_s1 :: "u32 \<Rightarrow> u32" where
  "sha_s1 x = rotr 17 x XOR rotr 19 x XOR drop_bit 10 x"

definition sha_S0 :: "u32 \<Rightarrow> u32" where
  "sha_S0 x = rotr 2 x XOR rotr 13 x XOR rotr 22 x"

definition sha_S1 :: "u32 \<Rightarrow> u32" where
  "sha_S1 x = rotr 6 x XOR rotr 11 x XOR rotr 25 x"

definition be_u32 :: "bytes \<Rightarrow> u32" where
  "be_u32 b = of_nat (le_nat (rev b))"

definition be_bytes :: "nat \<Rightarrow> nat \<Rightarrow> bytes" where
  "be_bytes k n = rev (le_bytes k n)"

fun chunks :: "nat \<Rightarrow> nat \<Rightarrow> 'a list \<Rightarrow> 'a list list" where
  "chunks k 0 xs = []"
| "chunks k (Suc n) xs = take k xs # chunks k n (drop k xs)"

definition sha_pad :: "bytes \<Rightarrow> bytes" where
  "sha_pad m = m @ [0x80] @ replicate ((119 - length m mod 64) mod 64) 0
     @ be_bytes 8 (8 * length m)"

text \<open>
  One block. The schedule is a window of the sixteen latest words: the head is the word of
  this round, and the word sixteen rounds ahead goes to the end.
\<close>

definition sha_next :: "u32 list \<Rightarrow> u32 list" where
  "sha_next w = (case w of w0 # ws \<Rightarrow> ws @ [sha_s1 (w ! 14) + w ! 9 + sha_s0 (w ! 1) + w0]
     | [] \<Rightarrow> [])"

fun sha_round :: "u32 \<Rightarrow> u32 \<Rightarrow> u32 list \<Rightarrow> u32 list" where
  "sha_round k w [a, b, c, d, e, f, g, h] =
    (let t1 = h + sha_S1 e + ((e AND f) XOR (NOT e AND g)) + k + w;
         t2 = sha_S0 a + ((a AND b) XOR (a AND c) XOR (b AND c))
     in [t1 + t2, a, b, c, d + t1, e, f, g])"
| "sha_round k w s = s"

fun sha_rounds :: "u32 list \<Rightarrow> u32 list \<Rightarrow> u32 list \<Rightarrow> u32 list" where
  "sha_rounds [] w s = s"
| "sha_rounds (k # ks) w s = sha_rounds ks (sha_next w) (sha_round k (hd w) s)"

definition sha_block :: "bytes \<Rightarrow> u32 list \<Rightarrow> u32 list" where
  "sha_block b s = map2 (+) s (sha_rounds sha_K (map be_u32 (chunks 4 16 b)) s)"

definition sha256 :: "bytes \<Rightarrow> bytes" where
  "sha256 m = (let p = sha_pad m in
     concat (map (\<lambda>w. be_bytes 4 (unat w)) (fold sha_block (chunks 64 (length p div 64) p) sha_H0)))"

definition sha256d :: "bytes \<Rightarrow> bytes" where
  "sha256d m = sha256 (sha256 m)"

section \<open>The digest length\<close>

lemma length_sha_round: "length s = 8 \<Longrightarrow> length (sha_round k w s) = 8"
  by (cases "(k, w, s)" rule: sha_round.cases) (auto simp: Let_def)

lemma length_sha_rounds: "length s = 8 \<Longrightarrow> length (sha_rounds ks w s) = 8"
  by (induction ks arbitrary: w s) (auto simp: length_sha_round)

lemma length_sha_fold: "length s = 8 \<Longrightarrow> length (fold sha_block bs s) = 8"
  by (induction bs arbitrary: s) (auto simp: sha_block_def length_sha_rounds)

lemma length_sha256 [simp]: "length (sha256 m) = 32"
proof -
  have "length (concat (map (\<lambda>w. be_bytes 4 (unat (w :: u32))) ws)) = 4 * length ws" for ws
    by (induction ws) (auto simp: be_bytes_def)
  then show ?thesis
    by (simp add: sha256_def Let_def length_sha_fold sha_H0_def)
qed

lemma length_sha256d [simp]: "length (sha256d m) = 32"
  by (simp add: sha256d_def)

end
