(* ===== verification/ProtoPacket.thy ===== *)
theory ProtoPacket
  imports ProtoOrder Sha256
begin

text \<open>
  The packet frame of \<^verbatim>\<open>proto/packet.go\<close>: a 129-byte header (five little-endian words, the
  33-byte key at offset 20, the 64-byte signature at 53, and 12 bytes that stay zero) before
  the body. \<^verbatim>\<open>Marshal\<close> writes into one zeroed buffer as the source does. The effective
  protocol version, a package variable that a daemon flag sets, is the argument \<open>ver\<close>, and the
  wall clock of \<^verbatim>\<open>NewPacket\<close> is the argument \<open>now\<close>.

  The second half is the packet signer of \<^verbatim>\<open>crypto/signer.go\<close> over the external secp256k1
  library, which is the record of functions \<open>secp\<close>.
\<close>

section \<open>Layout constants and the packet\<close>

definition PubkeySize :: nat where "PubkeySize = 33"
definition SigSize :: nat where "SigSize = 64"
definition HeaderSize :: nat where "HeaderSize = 8 * 4 + PubkeySize + SigSize"
definition PubkeyOffset :: nat where "PubkeyOffset = 20"
definition SigOffset :: nat where "SigOffset = 53"
definition BodyOffset :: nat where "BodyOffset = HeaderSize"
definition MaxBodySize :: u32 where "MaxBodySize = 2 ^ 20"
definition offVersion :: nat where "offVersion = 0"
definition offCommand :: nat where "offCommand = 4"
definition offTimestamp :: nat where "offTimestamp = 8"
definition offOldSize :: nat where "offOldSize = 12"
definition offSize :: nat where "offSize = 16"
definition headerDifference :: u32 where "headerDifference = of_nat (HeaderSize - 8 * 4)"

lemmas layout_defs =
  PubkeySize_def SigSize_def HeaderSize_def PubkeyOffset_def SigOffset_def BodyOffset_def
  offVersion_def offCommand_def offTimestamp_def offOldSize_def offSize_def

record Packet =
  p_Version :: u32
  p_Command :: XBridgeCommand
  p_Timestamp :: u32
  p_OldSize :: u32
  p_Size :: u32
  p_Pubkey :: bytes
  p_Signature :: bytes
  p_Body :: bytes

definition NewPacket :: "u32 \<Rightarrow> int \<Rightarrow> XBridgeCommand \<Rightarrow> bytes \<Rightarrow> Packet" where
  "NewPacket ver now cmd body = \<lparr>p_Version = ver, p_Command = cmd, p_Timestamp = word_of_int now,
     p_OldSize = of_nat (length body) + headerDifference, p_Size = of_nat (length body),
     p_Pubkey = replicate PubkeySize 0, p_Signature = replicate SigSize 0, p_Body = body\<rparr>"

text \<open>\<^verbatim>\<open>copy(buf[a:b], src)\<close>; a fixed-width put at offset \<open>a\<close> is the same with \<open>b = a + width\<close>.\<close>

definition copy_slice :: "nat \<Rightarrow> nat \<Rightarrow> bytes \<Rightarrow> bytes \<Rightarrow> bytes" where
  "copy_slice a b src buf = (let s = take (b - a) src in take a buf @ s @ drop (a + length s) buf)"

definition Packet_Marshal :: "Packet \<Rightarrow> bytes" where
  "Packet_Marshal p = (
     let buf = replicate (HeaderSize + length (p_Body p)) 0;
         buf = copy_slice offVersion (offVersion + 4) (PutUint32 (p_Version p)) buf;
         buf = copy_slice offCommand (offCommand + 4) (PutUint32 (p_Command p)) buf;
         buf = copy_slice offTimestamp (offTimestamp + 4) (PutUint32 (p_Timestamp p)) buf;
         buf = copy_slice offOldSize (offOldSize + 4) (PutUint32 (p_OldSize p)) buf;
         buf = copy_slice offSize (offSize + 4) (PutUint32 (of_nat (length (p_Body p)))) buf;
         buf = copy_slice PubkeyOffset (PubkeyOffset + PubkeySize) (p_Pubkey p) buf;
         buf = copy_slice SigOffset (SigOffset + SigSize) (p_Signature p) buf
     in copy_slice BodyOffset (length buf) (p_Body p) buf)"

definition Digest :: "Packet \<Rightarrow> bytes" where
  "Digest p = (let b = Packet_Marshal p; zero = replicate SigSize 0
     in sha256 (copy_slice SigOffset (SigOffset + SigSize) zero b))"

definition Packet_Unmarshal :: "u32 \<Rightarrow> bytes \<Rightarrow> Packet go" where
  "Packet_Unmarshal ver data = (
     if length data < HeaderSize then Inl (GoErr ''xbridge: data shorter than packet header'')
     else let version = Uint32 (drop offVersion data); size = Uint32 (drop offSize data) in
       if version \<noteq> ver then Inl (GoErr ''xbridge: unsupported protocol version'')
       else if size > MaxBodySize then Inl (GoErr ''xbridge: declared body size too large'')
       else if length data < HeaderSize + unat size
         then Inl (GoErr ''xbridge: declared body size exceeds data'')
       else if length data \<noteq> HeaderSize + unat size
         then Inl (GoErr ''xbridge: trailing bytes after packet body'')
       else Inr \<lparr>p_Version = version, p_Command = Uint32 (drop offCommand data),
         p_Timestamp = Uint32 (drop offTimestamp data), p_OldSize = Uint32 (drop offOldSize data),
         p_Size = size, p_Pubkey = take PubkeySize (drop PubkeyOffset data),
         p_Signature = take SigSize (drop SigOffset data),
         p_Body = take (unat size) (drop BodyOffset data)\<rparr>)"

section \<open>The packet signer\<close>

text \<open>
  The functions of btcec and dcrd's secp256k1 that the signer calls: the compressed key of a
  private scalar, signing (the two scalars, 32 bytes each), parsing a key, the overflow report
  of \<^verbatim>\<open>ModNScalar.SetByteSlice\<close>, and verification.
\<close>

record 'k secp =
  sl_pubkey :: "bytes \<Rightarrow> bytes"
  sl_sign :: "bytes \<Rightarrow> bytes \<Rightarrow> bytes \<times> bytes"
  sl_parse :: "bytes \<Rightarrow> 'k option"
  sl_overflow :: "bytes \<Rightarrow> bool"
  sl_verify :: "bytes \<times> bytes \<Rightarrow> bytes \<Rightarrow> 'k \<Rightarrow> bool"

definition compactSerialize :: "bytes \<times> bytes \<Rightarrow> bytes" where
  "compactSerialize sig = (case sig of (r, s) \<Rightarrow>
     let out = replicate 64 0; out = copy_slice 0 32 r out in copy_slice 32 64 s out)"

definition compactParse :: "'k secp \<Rightarrow> bytes \<Rightarrow> (bytes \<times> bytes) go" where
  "compactParse L b = (if length b \<noteq> 64 then Inl (GoErr ''crypto: compact signature must be 64 bytes'')
     else if sl_overflow L (take 32 b) then Inl (GoErr ''crypto: invalid R scalar'')
     else if sl_overflow L (drop 32 b) then Inl (GoErr ''crypto: invalid S scalar'')
     else Inr (take 32 b, drop 32 b))"

definition Signer_Sign :: "'k secp \<Rightarrow> Packet \<Rightarrow> bytes \<Rightarrow> Packet go" where
  "Signer_Sign L p priv = (if length priv \<noteq> 32 then Inl (GoErr ''crypto: private key must be 32 bytes'')
     else let p = p\<lparr>p_Pubkey := copy_slice 0 PubkeySize (sl_pubkey L priv) (p_Pubkey p)\<rparr>;
              compact = compactSerialize (sl_sign L priv (Digest p))
       in Inr (p\<lparr>p_Signature := copy_slice 0 SigSize compact (p_Signature p)\<rparr>))"

definition Signer_Verify :: "'k secp \<Rightarrow> Packet \<Rightarrow> bool go" where
  "Signer_Verify L p = (case sl_parse L (p_Pubkey p) of
       None \<Rightarrow> Inl (GoErr ''crypto: verify failed parsing pubkey'')
     | Some pub \<Rightarrow> go_bind (compactParse L (p_Signature p)) (\<lambda>sig. Inr (sl_verify L sig (Digest p) pub)))"

text \<open>\<^verbatim>\<open>encoding/hex\<close>: two digits of either case per byte.\<close>

definition fromHexChar :: "char \<Rightarrow> nat option" where
  "fromHexChar c = (let n = of_char c :: nat in
     if 48 \<le> n \<and> n \<le> 57 then Some (n - 48)
     else if 97 \<le> n \<and> n \<le> 102 then Some (n - 97 + 10)
     else if 65 \<le> n \<and> n \<le> 70 then Some (n - 65 + 10) else None)"

fun hex_DecodeString :: "string \<Rightarrow> bytes option" where
  "hex_DecodeString [] = Some []"
| "hex_DecodeString [_] = None"
| "hex_DecodeString (a # b # s) = (case (fromHexChar a, fromHexChar b) of
     (Some x, Some y) \<Rightarrow> map_option ((#) (of_nat (16 * x + y))) (hex_DecodeString s) | _ \<Rightarrow> None)"

definition hexChar :: "nat \<Rightarrow> char" where
  "hexChar n = char_of (if n < 10 then 48 + n else 87 + n)"

definition hex_EncodeToString :: "bytes \<Rightarrow> string" where
  "hex_EncodeToString b = concat (map (\<lambda>x. [hexChar (unat x div 16), hexChar (unat x mod 16)]) b)"

definition VerifyAgainst :: "'k secp \<Rightarrow> Packet \<Rightarrow> string \<Rightarrow> bool go" where
  "VerifyAgainst L p pubkeyHex = (case hex_DecodeString pubkeyHex of
       None \<Rightarrow> Inl (GoErr ''crypto: bad pubkey hex'')
     | Some raw \<Rightarrow>
         if length raw \<noteq> 33 then Inl (GoErr ''crypto: bad pubkey hex'')
         else if p_Pubkey p \<noteq> raw then Inr False
         else (case sl_parse L raw of
             None \<Rightarrow> Inl (GoErr ''crypto: verify failed parsing pubkey'')
           | Some pub \<Rightarrow> go_bind (compactParse L (p_Signature p))
               (\<lambda>sig. Inr (sl_verify L sig (Digest p) pub))))"

definition DoubleSHA256 :: "bytes \<Rightarrow> bytes" where
  "DoubleSHA256 b = (let h = sha256 b in sha256 h)"

section \<open>Lemmas\<close>

lemma layout_vals:
  "HeaderSize = 129" "PubkeySize = 33" "SigSize = 64" "PubkeyOffset = 20" "SigOffset = 53"
  "BodyOffset = 129" "offVersion = 0" "offCommand = 4" "offTimestamp = 8" "offOldSize = 12"
  "offSize = 16"
  by (simp_all add: layout_defs)

text \<open>The shape of an in-memory packet, and what \<^verbatim>\<open>Unmarshal\<close> promises beyond it.\<close>

definition packet_shape :: "Packet \<Rightarrow> bool" where
  "packet_shape p \<longleftrightarrow> length (p_Pubkey p) = 33 \<and> length (p_Signature p) = 64"

definition packet_ok :: "u32 \<Rightarrow> Packet \<Rightarrow> bool" where
  "packet_ok ver p \<longleftrightarrow> packet_shape p \<and> p_Version p = ver
     \<and> length (p_Body p) \<le> 2 ^ 20 \<and> p_Size p = of_nat (length (p_Body p))"

lemma copy_slice_next:
  assumes "a = length xs" and "b = a + length src" and "length src \<le> m"
  shows "copy_slice a b src (xs @ replicate m 0) = (xs @ src) @ replicate (m - length src) 0"
  using assms by (simp add: copy_slice_def Let_def)

lemma copy_slice_all: "length src = n \<Longrightarrow> length buf = n \<Longrightarrow> copy_slice 0 n src buf = src"
  by (simp add: copy_slice_def Let_def)

lemma replicate_split: "n \<le> m \<Longrightarrow> replicate m x = replicate n x @ replicate (m - n) x"
  by (simp flip: replicate_add)

text \<open>The buffer writes of \<^verbatim>\<open>Marshal\<close> lay the fields out one after the other.\<close>

definition packet_head :: "Packet \<Rightarrow> bytes" where
  "packet_head p = PutUint32 (p_Version p) @ PutUint32 (p_Command p) @ PutUint32 (p_Timestamp p)
     @ PutUint32 (p_OldSize p) @ PutUint32 (of_nat (length (p_Body p))) @ p_Pubkey p"

lemma Marshal_layout:
  assumes "packet_shape p"
  shows "Packet_Marshal p = packet_head p @ p_Signature p @ replicate 12 0 @ p_Body p"
proof -
  let ?n = "length (p_Body p)"
  note shape = assms [unfolded packet_shape_def]
  have z: "copy_slice 0 4 s (replicate (129 + ?n) 0) = s @ replicate (125 + ?n) 0"
    if "length s = 4" for s
    using that by (simp add: copy_slice_def Let_def)
  have body: "copy_slice 129 b s (xs @ replicate (12 + ?n) 0) = xs @ replicate 12 0 @ s"
    if "length xs = 117" "length s = ?n" "b = 129 + ?n" for xs s b
    using that by (simp add: copy_slice_def Let_def)
  show ?thesis
    using shape
    by (simp add: Packet_Marshal_def packet_head_def layout_defs z copy_slice_next body
        Let_def flip: append_assoc del: append.assoc)
qed

lemma length_packet_head: "packet_shape p \<Longrightarrow> length (packet_head p) = 53"
  by (simp add: packet_head_def packet_shape_def)

text \<open>The bytes the digest covers: everything but the signature region.\<close>

lemma Digest_eq:
  assumes "packet_shape p"
  shows "Digest p = sha256 (packet_head p @ replicate 76 0 @ p_Body p)"
proof -
  have "copy_slice 53 117 (replicate 64 0) (packet_head p @ p_Signature p @ replicate 12 0 @ p_Body p)
      = packet_head p @ replicate 64 0 @ replicate 12 0 @ p_Body p"
    using assms by (simp add: copy_slice_def Let_def length_packet_head packet_shape_def)
  also have "\<dots> = packet_head p @ replicate 76 0 @ p_Body p"
    by (simp add: replicate_add [of 64 12, simplified])
  finally show ?thesis
    by (simp add: Digest_def Marshal_layout [OF assms] layout_defs Let_def)
qed

lemma unat_len_32: "n \<le> 2 ^ 20 \<Longrightarrow> unat (of_nat n :: u32) = n"
  by (simp add: unat_of_nat)

lemma len_le_MaxBodySize: "n \<le> 2 ^ 20 \<Longrightarrow> \<not> MaxBodySize < (of_nat n :: u32)"
  by (simp add: MaxBodySize_def word_less_nat_alt unat_of_nat)

lemma hexChar_from: "n < 16 \<Longrightarrow> fromHexChar (hexChar n) = Some n"
  by (simp add: fromHexChar_def hexChar_def Let_def)

lemma hex_roundtrip [simp]: "hex_DecodeString (hex_EncodeToString b) = Some b"
proof (induction b)
  case Nil
  then show ?case by (simp add: hex_EncodeToString_def)
next
  case (Cons x b)
  have "unat x < 256" using unat_less_2p [of x] by simp
  then have "fromHexChar (hexChar (unat x div 16)) = Some (unat x div 16)"
    and "fromHexChar (hexChar (unat x mod 16)) = Some (unat x mod 16)"
    and "of_nat (16 * (unat x div 16) + unat x mod 16) = x"
    by (auto intro!: hexChar_from)
  with Cons show ?case by (simp add: hex_EncodeToString_def)
qed

text \<open>What the signer relies on from the curve library, for one private key.\<close>

definition secp_key_ok :: "'k secp \<Rightarrow> bytes \<Rightarrow> bool" where
  "secp_key_ok L priv \<longleftrightarrow> length (sl_pubkey L priv) = 33
     \<and> (\<exists>k. sl_parse L (sl_pubkey L priv) = Some k
          \<and> (\<forall>d. case sl_sign L priv d of (r, s) \<Rightarrow> length r = 32 \<and> length s = 32
               \<and> \<not> sl_overflow L r \<and> \<not> sl_overflow L s \<and> sl_verify L (r, s) d k))"

lemma compact_roundtrip:
  assumes "length r = 32" and "length s = 32" and "\<not> sl_overflow L r" and "\<not> sl_overflow L s"
  shows "compactParse L (compactSerialize (r, s)) = Inr (r, s)"
  using assms by (simp add: compactSerialize_def compactParse_def copy_slice_def Let_def)

lemma length_compactSerialize:
  "length r = 32 \<Longrightarrow> length s = 32 \<Longrightarrow> length (compactSerialize (r, s)) = 64"
  by (simp add: compactSerialize_def copy_slice_def Let_def)

lemma Sign_shape:
  assumes "secp_key_ok L priv" and "packet_shape p" and "Signer_Sign L p priv = Inr q"
  shows "packet_shape q \<and> p_Pubkey q = sl_pubkey L priv
    \<and> p_Signature q = compactSerialize (sl_sign L priv (Digest q)) \<and> Digest q = Digest (p\<lparr>p_Pubkey := sl_pubkey L priv\<rparr>)
    \<and> p_Body q = p_Body p \<and> p_Command q = p_Command p"
proof -
  let ?p = "p\<lparr>p_Pubkey := sl_pubkey L priv\<rparr>"
  obtain r s where rs: "sl_sign L priv (Digest ?p) = (r, s)" by fastforce
  with assms(1) have len: "length (compactSerialize (r, s)) = 64"
    by (auto simp: secp_key_ok_def length_compactSerialize dest: spec [of _ "Digest ?p"])
  have pk: "length (sl_pubkey L priv) = 33" using assms(1) by (simp add: secp_key_ok_def)
  have q: "q = ?p\<lparr>p_Signature := compactSerialize (r, s)\<rparr>"
    using assms pk len rs
    by (auto simp: Signer_Sign_def Let_def copy_slice_all packet_shape_def layout_defs
        split: if_splits)
  have "packet_shape ?p" "packet_shape q"
    using assms(2) pk len by (simp_all add: packet_shape_def q)
  then have "Digest q = Digest ?p" by (simp add: Digest_eq packet_head_def q)
  with q rs \<open>packet_shape q\<close> show ?thesis by simp
qed

lemma packet_ok_shape: "packet_ok ver p \<Longrightarrow> packet_shape p"
  by (simp add: packet_ok_def)

text \<open>Decoding the layout, whatever the 12 unused header bytes hold, and the converse.\<close>

lemma Unmarshal_layout:
  assumes "packet_ok ver p" and "length g = 12"
  shows "Packet_Unmarshal ver (packet_head p @ p_Signature p @ g @ p_Body p) = Inr p"
proof -
  have len: "length (p_Body p) \<le> 2 ^ 20"
    using assms by (simp add: packet_ok_def)
  show ?thesis
    using assms unat_len_32 [OF len] len_le_MaxBodySize [OF len]
    by (simp add: Packet_Unmarshal_def packet_head_def layout_defs Let_def packet_ok_def
        packet_shape_def)
qed

lemma take_117_split:
  "take 117 d = take 4 d @ take 4 (drop 4 d) @ take 4 (drop 8 d)
     @ take 4 (drop 12 d) @ take 4 (drop 16 d) @ take 33 (drop 20 d) @ take 64 (drop 53 d)"
proof -
  have "take 117 d = take (4 + (4 + (4 + (4 + (4 + (33 + 64)))))) d" by simp
  then show ?thesis by (simp only: take_add drop_drop) simp
qed

lemma Unmarshal_inv:
  assumes "Packet_Unmarshal ver d = Inr p"
  shows "packet_ok ver p \<and> d = packet_head p @ p_Signature p @ take 12 (drop 117 d) @ p_Body p
    \<and> 129 \<le> length d"
proof -
  define size where "size = Uint32 (drop 16 d)"
  note u = assms [unfolded Packet_Unmarshal_def layout_vals Let_def if_Inl_eq_Inr drop_0 not_not not_less, folded size_def]
  from u have g: "129 \<le> length d" "Uint32 d = ver" "size \<le> MaxBodySize" "length d = 129 + unat size"
    by simp_all
  have body: "take (unat size) (drop 129 d) = drop 129 d" by (simp add: g(4))
  from u have p: "p = \<lparr>p_Version = ver, p_Command = Uint32 (drop 4 d), p_Timestamp = Uint32 (drop 8 d),
      p_OldSize = Uint32 (drop 12 d), p_Size = size, p_Pubkey = take 33 (drop 20 d),
      p_Signature = take 64 (drop 53 d), p_Body = drop 129 d\<rparr>"
    unfolding body by (elim conjE) (simp only: sum.inject)
  have "unat size \<le> unat MaxBodySize" using g(3) by (simp add: word_le_nat_alt)
  then have ok: "packet_ok ver p"
    using g by (simp add: p packet_ok_def packet_shape_def MaxBodySize_def)
  have put: "PutUint32 (Uint32 (drop k d)) = take 4 (drop k d)" if "k \<le> 16" for k
    using that g(1) by (intro PutUint32_Uint32) simp
  have blen: "of_nat (length (drop 129 d)) = Uint32 (drop 16 d)" by (simp add: g(4) flip: size_def)
  have ver: "ver = Uint32 (drop 0 d)" by (simp add: g(2))
  have "packet_head p @ p_Signature p @ take 12 (drop 117 d) @ p_Body p
      = take 117 d @ take 12 (drop 117 d) @ drop 129 d"
    unfolding p packet_head_def Packet.simps blen ver
    by (simp add: put take_117_split put [of 0, simplified])
  also have "\<dots> = d"
    using append_take_drop_id [of 12 "drop 117 d"] by simp
  finally show ?thesis using ok g(1) by simp
qed

section \<open>Properties\<close>

text \<open>
  A well-formed packet survives the wire: what \<^verbatim>\<open>Marshal\<close> writes, \<^verbatim>\<open>Unmarshal\<close> of a node
  that speaks the same protocol version reads back field by field.
\<close>

theorem Packet_roundtrip:
  "packet_ok ver p \<Longrightarrow> Packet_Unmarshal ver (Packet_Marshal p) = Inr p"
  by (simp add: Marshal_layout packet_ok_shape Unmarshal_layout)

theorem Packet_roundtrip_witness:
  "Packet_Unmarshal 55 (Packet_Marshal (NewPacket 55 1700000000 XbcTransactionCancel [1, 2, 3]))
    = Inr (NewPacket 55 1700000000 XbcTransactionCancel [1, 2, 3])"
  by (rule Packet_roundtrip)
    (simp add: packet_ok_def packet_shape_def NewPacket_def layout_defs)

text \<open>
  C21: \<^verbatim>\<open>Unmarshal\<close> accepts exactly the byte strings of the right version whose declared size
  is at most 1 MiB and accounts for every byte: the accepted strings are the encoding of the
  packet it returns, up to the 12 header bytes 117 to 128, which it never looks at.
\<close>

theorem Packet_Unmarshal_iff:
  "Packet_Unmarshal ver d = Inr p
     \<longleftrightarrow> packet_ok ver p \<and> (\<exists>g. length g = 12 \<and> d = take 117 (Packet_Marshal p) @ g @ p_Body p)"
  (is "?L \<longleftrightarrow> ?R")
proof
  have head: "take 117 (Packet_Marshal q) = packet_head q @ p_Signature q" if "packet_ok ver q" for q
    using packet_ok_shape [OF that]
    by (simp add: Marshal_layout length_packet_head packet_shape_def)
  show ?R if ?L
    using Unmarshal_inv [OF that] head by (intro conjI exI [of _ "take 12 (drop 117 d)"]) auto
  show ?L if ?R
    using that head Unmarshal_layout by auto
qed

text \<open>
  The digest covers every header field before the signature and the whole body, and not
  the signature: it is the hash of the encoding with the signature region zeroed, so it can be
  recomputed by the receiver of a signed packet.
\<close>

theorem Digest_ignores_signature:
  assumes "packet_shape p" and "length sig = 64"
  shows "Digest (p\<lparr>p_Signature := sig\<rparr>) = Digest p
    \<and> Digest p = sha256 (take 53 (Packet_Marshal p) @ replicate 64 0 @ drop 117 (Packet_Marshal p))"
proof
  show "Digest (p\<lparr>p_Signature := sig\<rparr>) = Digest p"
    using assms by (simp add: Digest_eq packet_head_def packet_shape_def)
  have "replicate 76 (0 :: byte) = replicate 64 0 @ replicate 12 0"
    by (simp add: replicate_add [of 64 12, simplified])
  then show "Digest p = sha256 (take 53 (Packet_Marshal p) @ replicate 64 0 @ drop 117 (Packet_Marshal p))"
    using assms(1) by (simp add: Digest_eq Marshal_layout length_packet_head packet_shape_def)
qed

theorem Digest_ignores_signature_witness:
  "Digest (NewPacket 55 0 XbcTransactionFinished [9]\<lparr>p_Signature := replicate 64 1\<rparr>)
    = Digest (NewPacket 55 0 XbcTransactionFinished [9])"
  using Digest_ignores_signature [of "NewPacket 55 0 XbcTransactionFinished [9]" "replicate 64 1"]
  by (simp add: packet_shape_def NewPacket_def layout_defs)

text \<open>
  The 12 header bytes 117 to 128 are not authenticated. A packet that was received with
  any values there is accepted and has the digest of the packet received with zeros, although
  the two byte strings differ.
\<close>

theorem Digest_misses_gap:
  assumes "packet_ok ver p" and "length g = 12"
  shows "\<exists>q. Packet_Unmarshal ver (take 117 (Packet_Marshal p) @ g @ p_Body p) = Inr q
    \<and> Digest q = Digest p \<and> p_Signature q = p_Signature p"
proof -
  have "take 117 (Packet_Marshal p) = packet_head p @ p_Signature p"
    using packet_ok_shape [OF assms(1)]
    by (simp add: Marshal_layout length_packet_head packet_shape_def)
  with Unmarshal_layout [OF assms] show ?thesis by simp
qed

theorem Digest_misses_gap_witness:
  "\<exists>q. Packet_Unmarshal 55 (take 117 (Packet_Marshal (NewPacket 55 0 XbcTransactionFinished []))
      @ replicate 12 255) = Inr q
    \<and> Digest q = Digest (NewPacket 55 0 XbcTransactionFinished [])"
  using Digest_misses_gap [of 55 "NewPacket 55 0 XbcTransactionFinished []" "replicate 12 255"]
  by (auto simp: packet_ok_def packet_shape_def NewPacket_def layout_defs)

text \<open>
  A packet that the signer signed verifies, both against its own key field and against
  the hex form of the signer's key that an order remembers, provided the curve library signs
  and verifies consistently for that key.
\<close>

theorem Sign_Verify:
  assumes "secp_key_ok L priv" and "packet_shape p" and "length priv = 32"
  shows "\<exists>q. Signer_Sign L p priv = Inr q \<and> Signer_Verify L q = Inr True
    \<and> VerifyAgainst L q (hex_EncodeToString (sl_pubkey L priv)) = Inr True"
proof -
  obtain q where q: "Signer_Sign L p priv = Inr q"
    using assms(3) by (simp add: Signer_Sign_def Let_def)
  note s = Sign_shape [OF assms(1,2) q]
  obtain k where k: "sl_parse L (sl_pubkey L priv) = Some k"
    and sign: "\<And>d. case sl_sign L priv d of (r, s) \<Rightarrow> length r = 32 \<and> length s = 32
               \<and> \<not> sl_overflow L r \<and> \<not> sl_overflow L s \<and> sl_verify L (r, s) d k"
    using assms(1) unfolding secp_key_ok_def by blast
  obtain r t where rt: "sl_sign L priv (Digest q) = (r, t)" by fastforce
  note sig = sign [of "Digest q", unfolded rt, simplified]
  have parse: "compactParse L (p_Signature q) = Inr (r, t)"
    using s rt sig by (simp add: compact_roundtrip)
  then show ?thesis
    using q s k sig assms(1)
    by (simp add: Signer_Verify_def VerifyAgainst_def secp_key_ok_def)
qed

text \<open>The hypotheses hold for a (cryptographically worthless) library that checks the hash only.\<close>

definition echo_secp :: "bytes secp" where
  "echo_secp = \<lparr>sl_pubkey = (\<lambda>priv. 2 # take 32 (priv @ replicate 32 0)),
     sl_sign = (\<lambda>priv d. (take 32 (d @ replicate 32 0), take 32 (priv @ replicate 32 0))),
     sl_parse = (\<lambda>k. if length k = 33 then Some (drop 1 k) else None), sl_overflow = (\<lambda>_. False),
     sl_verify = (\<lambda>(r, s) d k. r = take 32 (d @ replicate 32 0) \<and> s = k)\<rparr>"

theorem Sign_Verify_witness:
  "\<exists>q. Signer_Sign echo_secp (NewPacket 55 0 XbcTransactionFinished [1]) (replicate 32 7) = Inr q
    \<and> Signer_Verify echo_secp q = Inr True"
proof -
  have "secp_key_ok echo_secp (replicate 32 7)"
    by (simp add: secp_key_ok_def echo_secp_def min_def)
  moreover have "packet_shape (NewPacket 55 0 XbcTransactionFinished [1])"
    by (simp add: packet_shape_def NewPacket_def layout_defs)
  ultimately show ?thesis
    using Sign_Verify [of echo_secp "replicate 32 7" "NewPacket 55 0 XbcTransactionFinished [1]"]
    by auto
qed

end
