(* ===== verification/Script.thy ===== *)
theory Script
  imports Sha256
begin

text \<open>
  Script building of \<^verbatim>\<open>coins/script.go\<close> and the hashed time-lock contract of \<^verbatim>\<open>coins/htlc.go\<close>.
  RIPEMD-160 is an external package and is the argument \<open>rip\<close>. The second half gives the
  meaning of the scripts: a parser and an interpreter for the opcodes the code emits, as the
  chain's nodes run them, so that the deposit contract can be proved to pay exactly the two
  parties it is meant to pay.
\<close>

section \<open>Opcodes and pushes\<close>

definition Op0 :: byte where "Op0 = 0x00"
definition Op1 :: byte where "Op1 = 0x51"
definition OpIf :: byte where "OpIf = 0x63"
definition OpElse :: byte where "OpElse = 0x67"
definition OpEndIf :: byte where "OpEndIf = 0x68"
definition OpDrop :: byte where "OpDrop = 0x75"
definition OpDup :: byte where "OpDup = 0x76"
definition OpSize :: byte where "OpSize = 0x82"
definition OpEqual :: byte where "OpEqual = 0x87"
definition OpEqualVerify :: byte where "OpEqualVerify = 0x88"
definition OpHash160 :: byte where "OpHash160 = 0xa9"
definition OpCheckSig :: byte where "OpCheckSig = 0xac"
definition OpCheckSigVerify :: byte where "OpCheckSigVerify = 0xad"
definition OpCheckLockTimeVerify :: byte where "OpCheckLockTimeVerify = 0xb1"
definition OpReturn :: byte where "OpReturn = 0x6a"
definition OpPushData1 :: byte where "OpPushData1 = 0x4c"
definition OpPushData2 :: byte where "OpPushData2 = 0x4d"
definition OpPushData4 :: byte where "OpPushData4 = 0x4e"

lemmas op_defs = Op0_def Op1_def OpIf_def OpElse_def OpEndIf_def OpDrop_def OpDup_def OpSize_def
  OpEqual_def OpEqualVerify_def OpHash160_def OpCheckSig_def OpCheckSigVerify_def
  OpCheckLockTimeVerify_def OpReturn_def OpPushData1_def OpPushData2_def OpPushData4_def

definition pushData :: "bytes \<Rightarrow> bytes" where
  "pushData b = (let n = length b in
     if n = 0 then [Op0]
     else if n \<le> 75 then of_nat n # b
     else if n \<le> 0xff then [OpPushData1, of_nat n] @ b
     else if n \<le> 0xffff then ([OpPushData2] @ PutUint16 (of_nat n)) @ b
     else ([OpPushData4] @ PutUint32 (of_nat n)) @ b)"

text \<open>The loop of \<^verbatim>\<open>pushNum\<close> that emits the bytes of a positive number, low byte first.\<close>

function num_loop :: "int \<Rightarrow> bytes" where
  "num_loop v = (if v > 0 then word_of_int (v mod 256) # num_loop (v div 256) else [])"
  by pat_completeness auto
termination
  by (relation "measure nat") auto

declare num_loop.simps [simp del]

text \<open>
  \<open>n\<close> is an \<^verbatim>\<open>int64\<close>. Negating the smallest one wraps to itself, the loop is then skipped and the
  index of the last byte is out of range.
\<close>

definition pushNum :: "int \<Rightarrow> bytes go" where
  "pushNum n = (
     if n = - 1 then Inr [0x4f]
     else if n = 0 then Inr [Op0]
     else if 1 \<le> n \<and> n \<le> 16 then Inr [word_of_int (0x51 + (n - 1))]
     else let neg = n < 0;
              v = (if neg then (if n = - (2 ^ 63) then n else - n) else n);
              buf = num_loop v
       in if buf = [] then Inl (GoPanic ''index out of range'')
          else let l = last buf in
            if l AND 0x80 \<noteq> 0 then Inr (pushData (buf @ [if neg then 0x80 else 0x00]))
            else if neg then Inr (pushData (butlast buf @ [l OR 0x80]))
            else Inr (pushData buf))"

definition BuildP2PKHScript :: "bytes \<Rightarrow> bytes" where
  "BuildP2PKHScript h = [OpDup, OpHash160] @ pushData h @ [OpEqualVerify, OpCheckSig]"

definition BuildP2SHScript :: "bytes \<Rightarrow> bytes" where
  "BuildP2SHScript h = [OpHash160] @ pushData h @ [OpEqual]"

definition BuildOpReturnScript :: "bytes \<Rightarrow> bytes" where
  "BuildOpReturnScript d = [OpReturn] @ pushData d"

section \<open>The deposit contract\<close>

definition KeyID :: "(bytes \<Rightarrow> bytes) \<Rightarrow> bytes \<Rightarrow> bytes" where
  "KeyID rip pubKey = take 20 (rip (sha256 pubKey) @ replicate 20 0)"

definition BuildDepositUnlockScript ::
    "(bytes \<Rightarrow> bytes) \<Rightarrow> bytes \<Rightarrow> bytes \<Rightarrow> bytes \<Rightarrow> u32 \<Rightarrow> bytes go" where
  "BuildDepositUnlockScript rip myPubKey otherPubKey secretHash lockTime =
    (let myID = KeyID rip myPubKey; otherID = KeyID rip otherPubKey; s = [OpIf] in
     go_bind (pushNum (uint lockTime)) (\<lambda>lt.
       let s = s @ lt;
           s = s @ [OpCheckLockTimeVerify, OpDrop];
           s = s @ [OpDup, OpHash160];
           s = s @ pushData myID;
           s = s @ [OpEqualVerify, OpCheckSig];
           s = s @ [OpElse];
           s = s @ [OpDup, OpHash160];
           s = s @ pushData otherID;
           s = s @ [OpEqualVerify, OpCheckSigVerify];
           s = s @ [OpSize]
       in go_bind (pushNum 33) (\<lambda>n33.
         let s = s @ n33;
             s = s @ [OpEqualVerify, OpHash160];
             s = s @ pushData secretHash;
             s = s @ [OpEqual]
         in Inr (s @ [OpEndIf]))))"

definition BuildRefundScriptSig :: "bytes \<Rightarrow> bytes \<Rightarrow> bytes \<Rightarrow> bytes" where
  "BuildRefundScriptSig sig myPubKey innerScript =
     ((pushData sig @ pushData myPubKey) @ [Op1]) @ pushData innerScript"

definition BuildPaymentScriptSig :: "bytes \<Rightarrow> bytes \<Rightarrow> bytes \<Rightarrow> bytes \<Rightarrow> bytes" where
  "BuildPaymentScriptSig xPubKey sig myPubKey innerScript =
     (((pushData xPubKey @ pushData sig) @ pushData myPubKey) @ [Op0]) @ pushData innerScript"

section \<open>The meaning of scripts\<close>

datatype sop = Push bytes | Code byte

text \<open>
  Parsing: a byte up to 75 pushes that many bytes, the three PUSHDATA opcodes carry a length,
  \<^verbatim>\<open>OP_1NEGATE\<close> and \<^verbatim>\<open>OP_1\<close> to \<^verbatim>\<open>OP_16\<close> push the number, every other byte is an operation.
\<close>

definition take_push :: "nat \<Rightarrow> bytes \<Rightarrow> (bytes \<times> bytes) option" where
  "take_push n bs = (if n \<le> length bs then Some (take n bs, drop n bs) else None)"

definition parse_one :: "byte \<Rightarrow> bytes \<Rightarrow> (sop \<times> bytes) option" where
  "parse_one b bs = (let n = unat b; push = (\<lambda>k bs. map_option (\<lambda>(d, r). (Push d, r)) (take_push k bs)) in
     if n \<le> 75 then push n bs
     else if n = 76 then (if length bs < 1 then None else push (le_nat (take 1 bs)) (drop 1 bs))
     else if n = 77 then (if length bs < 2 then None else push (le_nat (take 2 bs)) (drop 2 bs))
     else if n = 78 then (if length bs < 4 then None else push (le_nat (take 4 bs)) (drop 4 bs))
     else if n = 79 then Some (Push [0x81], bs)
     else if 81 \<le> n \<and> n \<le> 96 then Some (Push [of_nat (n - 80)], bs)
     else Some (Code b, bs))"

lemma parse_one_shorter: "parse_one b bs = Some (op, rest) \<Longrightarrow> length rest \<le> length bs"
  by (auto simp: parse_one_def take_push_def Let_def split: if_splits)

function parse_script :: "bytes \<Rightarrow> sop list option" where
  "parse_script [] = Some []"
| "parse_script (b # bs) = (case parse_one b bs of None \<Rightarrow> None
     | Some (op, rest) \<Rightarrow> map_option ((#) op) (parse_script rest))"
  by pat_completeness auto
termination
  by (relation "measure length") (auto dest: parse_one_shorter)

text \<open>Script numbers: little-endian magnitude with the sign in the top bit of the last byte.\<close>

definition num_of :: "bytes \<Rightarrow> int" where
  "num_of b = (if b = [] then 0
     else if 128 \<le> unat (last b) then - int (le_nat (butlast b @ [last b - 0x80])) else int (le_nat b))"

definition truthy :: "bytes \<Rightarrow> bool" where
  "truthy b \<longleftrightarrow> (\<exists>x \<in> set (butlast b). x \<noteq> 0) \<or> (b \<noteq> [] \<and> last b \<noteq> 0 \<and> last b \<noteq> 0x80)"


text \<open>
  What a spend is checked in: the lock time of the spending transaction, whether the input's
  sequence number is final (which disables the time lock), and the signature check.
\<close>

record spend_env =
  se_rip :: "bytes \<Rightarrow> bytes"
  se_lockTime :: int
  se_final :: bool
  se_checksig :: "bytes \<Rightarrow> bytes \<Rightarrow> bool"

definition hash160 :: "spend_env \<Rightarrow> bytes \<Rightarrow> bytes" where
  "hash160 env b = KeyID (se_rip env) b"

definition bool_bytes :: "bool \<Rightarrow> bytes" where
  "bool_bytes c = (if c then [1] else [])"

text \<open>The encoding of a non-negative number that \<^verbatim>\<open>OP_SIZE\<close> leaves.\<close>

definition num_bytes :: "int \<Rightarrow> bytes" where
  "num_bytes n = (let b = num_loop n in if b \<noteq> [] \<and> 128 \<le> unat (last b) then b @ [0] else b)"

definition cltv_ok :: "spend_env \<Rightarrow> bytes \<Rightarrow> bool" where
  "cltv_ok env b \<longleftrightarrow> length b \<le> 5 \<and> 0 \<le> num_of b
     \<and> (num_of b < 500000000 \<longleftrightarrow> se_lockTime env < 500000000)
     \<and> num_of b \<le> se_lockTime env \<and> \<not> se_final env"

text \<open>
  One operation on the stack and the nesting of conditions (the innermost first); an operation
  under a false condition is skipped. Failure of the script is \<open>None\<close>.
\<close>

definition step_code :: "spend_env \<Rightarrow> byte \<Rightarrow> bytes list \<Rightarrow> bytes list option" where
  "step_code env c st = (
     if c = OpDrop then (case st of _ # s \<Rightarrow> Some s | _ \<Rightarrow> None)
     else if c = OpDup then (case st of x # s \<Rightarrow> Some (x # x # s) | _ \<Rightarrow> None)
     else if c = OpSize then (case st of x # s \<Rightarrow> Some (num_bytes (int (length x)) # x # s) | _ \<Rightarrow> None)
     else if c = OpEqual then (case st of x # y # s \<Rightarrow> Some (bool_bytes (x = y) # s) | _ \<Rightarrow> None)
     else if c = OpEqualVerify then (case st of x # y # s \<Rightarrow> if x = y then Some s else None | _ \<Rightarrow> None)
     else if c = OpHash160 then (case st of x # s \<Rightarrow> Some (hash160 env x # s) | _ \<Rightarrow> None)
     else if c = OpCheckSig then
       (case st of k # g # s \<Rightarrow> Some (bool_bytes (se_checksig env g k) # s) | _ \<Rightarrow> None)
     else if c = OpCheckSigVerify then
       (case st of k # g # s \<Rightarrow> if se_checksig env g k then Some s else None | _ \<Rightarrow> None)
     else if c = OpCheckLockTimeVerify then
       (case st of x # s \<Rightarrow> if cltv_ok env x then Some st else None | _ \<Rightarrow> None)
     else None)"

definition step_op :: "spend_env \<Rightarrow> sop \<Rightarrow> bytes list \<times> bool list \<Rightarrow> (bytes list \<times> bool list) option" where
  "step_op env op s = (case s of (st, cs) \<Rightarrow> (case op of
       Push d \<Rightarrow> Some (if list_all id cs then d # st else st, cs)
     | Code c \<Rightarrow>
         if c = OpIf then
           (if list_all id cs then (case st of x # st' \<Rightarrow> Some (st', truthy x # cs) | _ \<Rightarrow> None)
            else Some (st, False # cs))
         else if c = OpElse then (case cs of b # cs' \<Rightarrow> Some (st, (\<not> b) # cs') | _ \<Rightarrow> None)
         else if c = OpEndIf then (case cs of _ # cs' \<Rightarrow> Some (st, cs') | _ \<Rightarrow> None)
         else if list_all id cs then map_option (\<lambda>st. (st, cs)) (step_code env c st)
         else Some (st, cs)))"

fun run_ops :: "spend_env \<Rightarrow> sop list \<Rightarrow> bytes list \<times> bool list \<Rightarrow> (bytes list \<times> bool list) option" where
  "run_ops env [] s = Some s"
| "run_ops env (op # ops) s = (case step_op env op s of None \<Rightarrow> None | Some s' \<Rightarrow> run_ops env ops s')"

definition run_script :: "spend_env \<Rightarrow> bytes \<Rightarrow> bytes list \<Rightarrow> bytes list option" where
  "run_script env s st = (case parse_script s of None \<Rightarrow> None
     | Some ops \<Rightarrow> (case run_ops env ops (st, []) of Some (st', []) \<Rightarrow> Some st' | _ \<Rightarrow> None))"

text \<open>
  Spending a pay-to-script-hash output: the input script leaves a stack whose top is the
  contract; its hash must be the output's, and the contract on the rest must end in truth.
\<close>

definition spend_p2sh :: "spend_env \<Rightarrow> bytes \<Rightarrow> bytes \<Rightarrow> bool" where
  "spend_p2sh env scriptSig scriptHash = (case run_script env scriptSig [] of
       Some (inner # st) \<Rightarrow> hash160 env inner = scriptHash
         \<and> (case run_script env inner st of Some (x # _) \<Rightarrow> truthy x | _ \<Rightarrow> False)
     | _ \<Rightarrow> False)"

section \<open>Parsing what the builders emit\<close>

lemma parse_pushData:
  assumes "length b < 2 ^ 32"
  shows "parse_script (pushData b @ r) = map_option ((#) (Push b)) (parse_script r)"
proof -
  have "unat (of_nat (length b) :: byte) = length b" if "length b \<le> 255"
    using that by (simp add: unat_of_nat)
  moreover have "le_nat (PutUint16 (of_nat (length b))) = length b" if "length b \<le> 0xffff"
    using that by (simp add: PutUint16_def le_nat_le_bytes unat_of_nat)
  moreover have "le_nat (PutUint32 (of_nat (length b))) = length b"
    using assms by (simp add: PutUint32_def le_nat_le_bytes unat_of_nat)
  ultimately show ?thesis
    by (auto simp: pushData_def Let_def parse_one_def op_defs take_push_def)
qed

lemma num_loop_pos: "0 < n \<Longrightarrow> num_loop n = word_of_int (n mod 256) # num_loop (n div 256)"
  by (simp add: num_loop.simps [of n])

lemma num_loop_0 [simp]: "n \<le> 0 \<Longrightarrow> num_loop n = []"
  by (simp add: num_loop.simps [of n])

lemma unat_byte_of_int: "unat (word_of_int (n mod 256) :: byte) = nat (n mod 256)"
  by (simp add: unsigned_of_int take_bit_eq_mod nat_mod_distrib)

lemma num_loop_value: "0 \<le> n \<Longrightarrow> int (le_nat (num_loop n)) = n"
proof (induction n rule: num_loop.induct)
  case (1 n)
  show ?case
  proof (cases "0 < n")
    case True
    then have "int (le_nat (num_loop (n div 256))) = n div 256" using 1 by simp
    then show ?thesis using True by (simp add: num_loop_pos unat_byte_of_int)
  qed (use 1 in simp)
qed

lemma num_loop_last: "0 < n \<Longrightarrow> num_loop n \<noteq> [] \<and> last (num_loop n) \<noteq> 0"
proof (induction n rule: num_loop.induct)
  case (1 n)
  show ?case
  proof (cases "0 < n div 256")
    case True
    then show ?thesis using 1 by (simp add: num_loop_pos [of n])
  next
    case False
    with 1 have "n < 256" by auto
    with 1 have "unat (word_of_int (n mod 256) :: byte) \<noteq> 0"
      unfolding unat_byte_of_int by simp
    then have "(word_of_int (n mod 256) :: byte) \<noteq> 0" by (metis unat_0)
    with 1 False show ?thesis by (simp add: num_loop_pos [of n])
  qed
qed

lemma high_bit: "(l :: byte) AND 0x80 \<noteq> 0 \<longleftrightarrow> 128 \<le> unat l"
proof -
  have "l AND 2 ^ 7 \<noteq> 0 \<longleftrightarrow> bit l 7" by (simp only: and_exp_eq_0_iff_not_bit not_not)
  also have "\<dots> \<longleftrightarrow> odd (unat l div 128)"
    using bit_unsigned_iff [where ?'a = nat and ?w = l and ?n = 7] by (simp add: bit_iff_odd)
  also have "\<dots> \<longleftrightarrow> 128 \<le> unat l"
  proof -
    have "unat l < 256" using unat_less_2p [of l] by simp
    then have "unat l div 128 = 0 \<or> unat l div 128 = 1" by auto
    then show ?thesis by (auto simp: div_eq_0_iff)
  qed
  finally show ?thesis by simp
qed

lemma le_nat_append: "le_nat (xs @ ys) = le_nat xs + 256 ^ length xs * le_nat ys"
  by (induction xs) (auto simp: algebra_simps)

lemma num_of_num_bytes [simp]: "0 \<le> n \<Longrightarrow> num_of (num_bytes n) = n"
  using num_loop_value [of n] by (auto simp: num_of_def num_bytes_def Let_def le_nat_append)

lemma num_bytes_inj: "0 \<le> m \<Longrightarrow> 0 \<le> n \<Longrightarrow> num_bytes m = num_bytes n \<longleftrightarrow> m = n"
  by (metis num_of_num_bytes)

lemma length_num_loop: "0 < n \<Longrightarrow> 256 ^ (length (num_loop n) - 1) \<le> n"
proof (induction n rule: num_loop.induct)
  case (1 n)
  show ?case
  proof (cases "0 < n div 256")
    case True
    then have ne: "num_loop (n div 256) \<noteq> []" using num_loop_last by simp
    have "256 ^ (length (num_loop (n div 256)) - 1) \<le> n div 256" using 1 True by simp
    then have "256 * 256 ^ (length (num_loop (n div 256)) - 1) \<le> n" by linarith
    then have "256 ^ length (num_loop (n div 256)) \<le> n"
      using ne by (metis Suc_pred' length_greater_0_conv power_Suc)
    then show ?thesis using 1 by (simp add: num_loop_pos [of n])
  next
    case False
    with 1 show ?thesis by (simp add: num_loop_pos [of n])
  qed
qed

lemma length_num_bytes: "0 \<le> n \<Longrightarrow> n < 2 ^ 32 \<Longrightarrow> length (num_bytes n) \<le> 5"
proof -
  assume n: "0 \<le> n" "n < 2 ^ 32"
  have "length (num_loop n) \<le> 4"
  proof (rule ccontr)
    assume "\<not> length (num_loop n) \<le> 4"
    then have l: "4 \<le> length (num_loop n) - 1" and "n \<noteq> 0" by auto
    then have "256 ^ (length (num_loop n) - 1) \<le> n" using length_num_loop [of n] n by simp
    moreover have "(256 :: int) ^ 4 \<le> 256 ^ (length (num_loop n) - 1)"
      using l by (intro power_increasing) auto
    ultimately show False using n by simp
  qed
  then show ?thesis by (auto simp: num_bytes_def Let_def)
qed

lemma num_bytes_small: "1 \<le> n \<Longrightarrow> n \<le> 16 \<Longrightarrow> num_bytes n = [word_of_int n]"
proof -
  assume n: "1 \<le> n" "n \<le> 16"
  then have "num_loop n = [word_of_int n]" by (simp add: num_loop_pos)
  moreover have "unat (word_of_int n :: byte) = nat n"
    using n unat_byte_of_int [of n] by simp
  ultimately show ?thesis using n by (simp add: num_bytes_def Let_def)
qed

lemma parse_small_num:
  assumes "1 \<le> n" and "n \<le> 16"
  shows "parse_script (word_of_int (0x51 + (n - 1)) # r) = map_option ((#) (Push [word_of_int n])) (parse_script r)"
proof -
  define b :: byte where "b = word_of_int (80 + n)"
  have "unat b = nat (80 + n)" using assms unat_byte_of_int [of "80 + n"] by (simp add: b_def)
  then have u: "81 \<le> unat b" "unat b \<le> 96" "unat b - 80 = nat n" using assms by auto
  have "of_nat (nat n) = (word_of_int n :: byte)" using assms by (simp add: of_nat_nat)
  with u have "parse_one b r = Some (Push [word_of_int n], r)" by (simp add: parse_one_def Let_def)
  moreover have "word_of_int (0x51 + (n - 1)) = b" by (simp add: b_def)
  ultimately show ?thesis by (simp only: parse_script.simps option.case prod.case)
qed

text \<open>Every number of the contract is pushed as its minimal encoding.\<close>

lemma pushNum_parse:
  assumes "0 \<le> n" and "n < 2 ^ 32"
  shows "\<exists>p. pushNum n = Inr p
    \<and> (\<forall>r. parse_script (p @ r) = map_option ((#) (Push (num_bytes n))) (parse_script r))"
proof -
  consider "n = 0" | "1 \<le> n \<and> n \<le> 16" | "17 \<le> n" using assms by fastforce
  then show ?thesis
  proof cases
    case 1
    then show ?thesis
      by (simp add: pushNum_def op_defs parse_one_def take_push_def num_bytes_def)
  next
    case 2
    then show ?thesis
      using parse_small_num num_bytes_small by (simp add: pushNum_def)
  next
    case 3
    have l: "length (num_bytes n) < 2 ^ 32" using length_num_bytes [OF assms] by simp
    from 3 have "pushNum n = Inr (pushData (num_bytes n))"
      using num_loop_last [of n] by (simp add: pushNum_def num_bytes_def high_bit Let_def)
    with parse_pushData [OF l] show ?thesis by simp
  qed
qed

text \<open>The contract as a list of operations.\<close>

definition htlc_ops :: "bytes \<Rightarrow> bytes \<Rightarrow> bytes \<Rightarrow> int \<Rightarrow> sop list" where
  "htlc_ops myID otherID secretHash lock =
    [Code OpIf, Push (num_bytes lock), Code OpCheckLockTimeVerify, Code OpDrop,
       Code OpDup, Code OpHash160, Push myID, Code OpEqualVerify, Code OpCheckSig,
     Code OpElse, Code OpDup, Code OpHash160, Push otherID, Code OpEqualVerify, Code OpCheckSigVerify,
       Code OpSize, Push (num_bytes 33), Code OpEqualVerify, Code OpHash160, Push secretHash, Code OpEqual,
     Code OpEndIf]"

lemma parse_code:
  "c \<in> {OpIf, OpElse, OpEndIf, OpDrop, OpDup, OpSize, OpEqual, OpEqualVerify, OpHash160,
     OpCheckSig, OpCheckSigVerify, OpCheckLockTimeVerify} \<Longrightarrow>
   parse_script (c # r) = map_option ((#) (Code c)) (parse_script r)"
  by (auto simp: op_defs parse_one_def Let_def)

lemma length_KeyID [simp]: "length (KeyID rip b) = 20"
  by (simp add: KeyID_def)

lemma deposit_parse:
  assumes "length secretHash < 2 ^ 32"
  shows "\<exists>s. BuildDepositUnlockScript rip my other secretHash lock = Inr s
    \<and> parse_script s = Some (htlc_ops (KeyID rip my) (KeyID rip other) secretHash (uint lock))"
proof -
  have "uint lock < 2 ^ 32" using uint_bounded [of lock] by simp
  with pushNum_parse [of "uint lock"] obtain p where
    p: "pushNum (uint lock) = Inr p"
      "\<And>r. parse_script (p @ r) = map_option ((#) (Push (num_bytes (uint lock)))) (parse_script r)"
    by auto
  obtain q where
    q: "pushNum 33 = Inr q" "\<And>r. parse_script (q @ r) = map_option ((#) (Push (num_bytes 33))) (parse_script r)"
    using pushNum_parse [of 33] by auto
  show ?thesis
    using assms
    by (simp add: BuildDepositUnlockScript_def p q Let_def parse_code parse_pushData htlc_ops_def
        del: parse_script.simps(2))
qed

section \<open>What the contract pays\<close>

lemma truthy_bool_bytes [simp]: "truthy (bool_bytes c) = c"
  by (simp add: truthy_def bool_bytes_def)

text \<open>One rule per operation, outside and inside a false branch.\<close>

lemma step_code_simps:
  "step_code env OpDrop st = (case st of _ # s \<Rightarrow> Some s | _ \<Rightarrow> None)"
  "step_code env OpDup st = (case st of x # s \<Rightarrow> Some (x # x # s) | _ \<Rightarrow> None)"
  "step_code env OpSize st = (case st of x # s \<Rightarrow> Some (num_bytes (int (length x)) # x # s) | _ \<Rightarrow> None)"
  "step_code env OpEqual st = (case st of x # y # s \<Rightarrow> Some (bool_bytes (x = y) # s) | _ \<Rightarrow> None)"
  "step_code env OpEqualVerify st = (case st of x # y # s \<Rightarrow> if x = y then Some s else None | _ \<Rightarrow> None)"
  "step_code env OpHash160 st = (case st of x # s \<Rightarrow> Some (hash160 env x # s) | _ \<Rightarrow> None)"
  "step_code env OpCheckSig st = (case st of k # g # s \<Rightarrow> Some (bool_bytes (se_checksig env g k) # s) | _ \<Rightarrow> None)"
  "step_code env OpCheckSigVerify st = (case st of k # g # s \<Rightarrow> if se_checksig env g k then Some s else None | _ \<Rightarrow> None)"
  "step_code env OpCheckLockTimeVerify st = (case st of x # s \<Rightarrow> if cltv_ok env x then Some st else None | _ \<Rightarrow> None)"
  by (simp_all add: step_code_def op_defs)

lemma step_op_flow:
  "step_op env (Code OpIf) (st, cs) = (if list_all id cs
     then (case st of x # st' \<Rightarrow> Some (st', truthy x # cs) | _ \<Rightarrow> None) else Some (st, False # cs))"
  "step_op env (Code OpElse) (st, b # cs) = Some (st, (\<not> b) # cs)"
  "step_op env (Code OpEndIf) (st, b # cs) = Some (st, cs)"
  "step_op env (Push d) (st, cs) = Some (if list_all id cs then d # st else st, cs)"
  by (simp_all add: step_op_def op_defs)

lemma step_op_plain:
  assumes "c \<in> {OpDrop, OpDup, OpSize, OpEqual, OpEqualVerify, OpHash160, OpCheckSig,
    OpCheckSigVerify, OpCheckLockTimeVerify}"
  shows "step_op env (Code c) (st, cs)
    = (if list_all id cs then map_option (\<lambda>st. (st, cs)) (step_code env c st) else Some (st, cs))"
  using assms by (auto simp: step_op_def op_defs)

lemmas exec_simps = step_code_simps step_op_flow step_op_plain

lemma htlc_refund_branch:
  assumes "truthy c"
  shows "run_ops env (htlc_ops myID otherID sh lock) (c # st, []) = (case st of
      k # g # s \<Rightarrow> if cltv_ok env (num_bytes lock) \<and> hash160 env k = myID
        then Some (bool_bytes (se_checksig env g k) # s, []) else None
    | _ \<Rightarrow> None)"
  using assms by (cases st) (auto simp: htlc_ops_def exec_simps split: list.splits)

lemma htlc_payment_branch:
  assumes "\<not> truthy c"
  shows "run_ops env (htlc_ops myID otherID sh lock) (c # st, []) = (case st of
      k # g # x # s \<Rightarrow> if hash160 env k = otherID \<and> se_checksig env g k \<and> length x = 33
        then Some (bool_bytes (sh = hash160 env x) # s, []) else None
    | _ \<Rightarrow> None)"
proof -
  have n: "num_bytes 33 = num_bytes (int (length x)) \<longleftrightarrow> length x = 33" for x :: bytes
    by (auto simp: num_bytes_inj)
  show ?thesis
    using assms n by (cases st) (auto simp: htlc_ops_def exec_simps split: list.splits)
qed

lemma run_deposit:
  assumes "BuildDepositUnlockScript rip my other sh lock = Inr s" and "length sh < 2 ^ 32"
  shows "run_script env s st = (case run_ops env
      (htlc_ops (KeyID rip my) (KeyID rip other) sh (uint lock)) (st, []) of
    Some (st', []) \<Rightarrow> Some st' | _ \<Rightarrow> None)"
  using assms(1) deposit_parse [OF assms(2), of rip my other lock] by (auto simp: run_script_def)

text \<open>The two ways to spend, as the parties understand them.\<close>

definition can_refund :: "spend_env \<Rightarrow> bytes \<Rightarrow> u32 \<Rightarrow> bytes \<Rightarrow> bytes \<Rightarrow> bool" where
  "can_refund env my lock g k \<longleftrightarrow> hash160 env k = KeyID (se_rip env) my \<and> se_checksig env g k
     \<and> uint lock \<le> se_lockTime env \<and> \<not> se_final env
     \<and> (uint lock < 500000000 \<longleftrightarrow> se_lockTime env < 500000000)"

definition can_claim :: "spend_env \<Rightarrow> bytes \<Rightarrow> bytes \<Rightarrow> bytes \<Rightarrow> bytes \<Rightarrow> bytes \<Rightarrow> bool" where
  "can_claim env other sh g k x \<longleftrightarrow> hash160 env k = KeyID (se_rip env) other \<and> se_checksig env g k
     \<and> length x = 33 \<and> hash160 env x = sh"

lemma cltv_lock: "cltv_ok env (num_bytes (uint (lock :: u32))) \<longleftrightarrow> uint lock \<le> se_lockTime env
    \<and> \<not> se_final env \<and> (uint lock < 500000000 \<longleftrightarrow> se_lockTime env < 500000000)"
  using uint_bounded [of lock] length_num_bytes [of "uint lock"] by (auto simp: cltv_ok_def)

text \<open>
  C6: the deposit contract pays nobody else. Whatever input script is used, a spend of the
  deposit output either carries a signature of the depositor's key after the lock time, or a
  signature of the counterparty's key together with a 33-byte preimage of the secret hash.
\<close>

theorem deposit_only_two_ways:
  assumes "BuildDepositUnlockScript (se_rip env) my other sh lock = Inr s" and "length sh < 2 ^ 32"
    and "run_script env s st = Some (t # rest)" and "truthy t"
  shows "(\<exists>g k. can_refund env my lock g k \<and> {g, k} \<subseteq> set st)
    \<or> (\<exists>g k x. can_claim env other sh g k x \<and> {g, k, x} \<subseteq> set st)"
proof -
  note run = run_deposit [OF assms(1,2), of env st, unfolded assms(3)]
  have "st \<noteq> []" using run by (auto simp: htlc_ops_def step_op_def op_defs)
  then obtain c st' where st: "st = c # st'" by (cases st) auto
  show ?thesis
  proof (cases "truthy c")
    case True
    from run assms(4) obtain k g s where "st' = k # g # s" "can_refund env my lock g k"
      unfolding st htlc_refund_branch [OF True]
      by (auto simp: can_refund_def cltv_lock split: list.splits if_splits)
    then show ?thesis by (auto simp: st)
  next
    case False
    from run assms(4) obtain k g x s where "st' = k # g # x # s" "can_claim env other sh g k x"
      unfolding st htlc_payment_branch [OF False]
      by (auto simp: can_claim_def split: list.splits if_splits)
    then show ?thesis by (intro disjI2 exI [of _ g] exI [of _ k] exI [of _ x]) (auto simp: st)
  qed
qed

text \<open>A small instance for the witnesses: a constant digest, and a signature check that always holds.\<close>

definition demo_env :: spend_env where
  "demo_env = \<lparr>se_rip = \<lambda>_. replicate 20 7, se_lockTime = 600, se_final = False, se_checksig = \<lambda>_ _. True\<rparr>"

definition demo_script :: bytes where
  "demo_script = [0x63, 2, 244, 1, 0xb1, 0x75, 0x76, 0xa9, 20] @ replicate 20 7 @ [0x88, 0xac, 0x67, 0x76, 0xa9, 20]
     @ replicate 20 7 @ [0x88, 0xad, 0x82, 1, 33, 0x88, 0xa9, 20] @ replicate 20 7 @ [0x87, 0x68]"

lemma demo_build:
  "BuildDepositUnlockScript (se_rip demo_env) [1] [2] (replicate 20 7) 500 = Inr demo_script"
proof -
  have "num_loop 500 = [244, 1]" "num_loop 33 = [33]" by (simp_all add: num_loop_pos)
  then have "pushNum 500 = Inr [2, 244, 1]" "pushNum 33 = Inr [1, 33]"
    by (simp_all add: pushNum_def pushData_def Let_def)
  then show ?thesis
    by (simp add: BuildDepositUnlockScript_def KeyID_def demo_env_def pushData_def op_defs Let_def demo_script_def)
qed

theorem deposit_only_two_ways_witness:
  "(\<exists>g k. can_refund demo_env [1] 500 g k \<and> {g, k} \<subseteq> set [[1], [1], [5]])
    \<or> (\<exists>g k x. can_claim demo_env [2] (replicate 20 7) g k x \<and> {g, k, x} \<subseteq> set [[1], [1], [5]])"
proof (rule deposit_only_two_ways [OF demo_build])
  have "cltv_ok demo_env (num_bytes (uint (500 :: u32)))" unfolding cltv_lock by (simp add: demo_env_def)
  then show "run_script demo_env demo_script [[1], [1], [5]] = Some ([1] # [])"
    unfolding run_deposit [OF demo_build, simplified]
    by (subst htlc_refund_branch) (simp_all add: truthy_def hash160_def KeyID_def demo_env_def bool_bytes_def)
qed (simp_all add: truthy_def)

lemma built_sigs_spend:
  assumes "BuildDepositUnlockScript (se_rip env) my other sh lock = Inr s"
    and "length sh = 20" and "length s < 2 ^ 32" and "length g < 2 ^ 32" and "length k < 2 ^ 32"
    and "length x < 2 ^ 32"
  shows "(spend_p2sh env (BuildRefundScriptSig g k s) (hash160 env s) \<longleftrightarrow> can_refund env my lock g k)
    \<and> (spend_p2sh env (BuildPaymentScriptSig x g k s) (hash160 env s) \<longleftrightarrow> can_claim env other sh g k x)"
proof -
  have sh: "length sh < 2 ^ 32" using assms(2) by simp
  have "run_script env (BuildRefundScriptSig g k s) [] = Some [s, [1], k, g]"
    using assms(3-5) parse_small_num [of 1]
    by (simp add: run_script_def BuildRefundScriptSig_def parse_pushData Op1_def exec_simps
        parse_pushData [where r = "[]", simplified] del: parse_script.simps(2))
  moreover have "run_script env (BuildPaymentScriptSig x g k s) [] = Some [s, [], k, g, x]"
    using assms(3-6) parse_pushData [of "[]"]
    by (simp add: run_script_def BuildPaymentScriptSig_def parse_pushData exec_simps pushData_def [of "[]"]
        parse_pushData [where r = "[]", simplified] del: parse_script.simps(2))
  moreover have "run_script env s [[1], k, g] = (if cltv_ok env (num_bytes (uint lock))
      \<and> hash160 env k = KeyID (se_rip env) my then Some [bool_bytes (se_checksig env g k)] else None)"
    unfolding run_deposit [OF assms(1) sh] by (subst htlc_refund_branch) (simp_all add: truthy_def)
  moreover have "run_script env s [[], k, g, x] = (if hash160 env k = KeyID (se_rip env) other
      \<and> se_checksig env g k \<and> length x = 33 then Some [bool_bytes (sh = hash160 env x)] else None)"
    unfolding run_deposit [OF assms(1) sh] by (subst htlc_payment_branch) (simp_all add: truthy_def)
  ultimately show ?thesis
    by (auto simp: spend_p2sh_def can_refund_def can_claim_def cltv_lock split: if_splits)
qed

text \<open>
  The input script that the code builds for the refund spends the deposit exactly when the
  refund conditions hold, and the one it builds for the claim exactly when the claim conditions
  hold, for the contract the code itself built.
\<close>

theorem deposit_spend_iff:
  assumes "BuildDepositUnlockScript (se_rip env) my other sh lock = Inr s"
    and "length sh = 20" and "length s < 2 ^ 32" and "length g < 2 ^ 32" and "length k < 2 ^ 32"
    and "length x < 2 ^ 32"
  shows "(spend_p2sh env (BuildRefundScriptSig g k s) (hash160 env s) \<longleftrightarrow> can_refund env my lock g k)
    \<and> (spend_p2sh env (BuildPaymentScriptSig x g k s) (hash160 env s) \<longleftrightarrow> can_claim env other sh g k x)"
  using assms by (rule built_sigs_spend)

theorem deposit_spend_iff_witness:
  "spend_p2sh demo_env (BuildRefundScriptSig [5] [1] demo_script) (hash160 demo_env demo_script)
    \<and> spend_p2sh demo_env (BuildPaymentScriptSig (replicate 33 3) [5] [2] demo_script) (hash160 demo_env demo_script)
    \<and> \<not> spend_p2sh demo_env (BuildPaymentScriptSig (replicate 32 3) [5] [2] demo_script) (hash160 demo_env demo_script)"
  using deposit_spend_iff [OF demo_build, of "[5]" "[1]" "replicate 33 3"]
    deposit_spend_iff [OF demo_build, of "[5]" "[2]" "replicate 33 3"]
    deposit_spend_iff [OF demo_build, of "[5]" "[2]" "replicate 32 3"]
  by (simp add: can_refund_def can_claim_def hash160_def KeyID_def demo_script_def) (simp add: demo_env_def)

end
