(* ===== verification/Config.thy ===== *)
theory Config
  imports GoStrings "HOL-Library.AList" "HOL-Library.Multiset" "HOL-Library.Char_ord" "HOL-Library.List_Lexorder"
begin

text \<open>
  Reading \<^verbatim>\<open>xbridge.conf\<close> (\<^verbatim>\<open>config/conf.go\<close>) and the admission gates of \<^verbatim>\<open>config/admit.go\<close>.
  Opening the file is left out: the parser takes the lines that the scanner yields and the
  scanner's error. A Go map is an association list with distinct keys, in the order in which
  the map is ranged over; that order is arbitrary in Go, and \<open>Load_order_irrelevant\<close> shows
  that nothing depends on it. Machine \<^verbatim>\<open>int\<close> arithmetic is \<open>int\<close> with the 64-bit wrap written out.
\<close>

section \<open>Configuration data\<close>

record Main =
  m_ExchangeWallets :: "string list"
  m_ShowAllOrders :: bool
  m_FullLog :: bool

record CoinConf =
  cc_Ticker :: string
  cc_Title :: string
  cc_Address :: string
  cc_Ip :: string
  cc_Port :: int
  cc_Username :: string
  cc_Password :: string
  cc_CreateTxMethod :: string
  cc_AddressPrefix :: int
  cc_ScriptPrefix :: int
  cc_SecretPrefix :: int
  cc_Coin :: u64
  cc_MinimumAmount :: u64
  cc_TxVersion :: int
  cc_DustAmount :: u64
  cc_MinTxFee :: u64
  cc_BlockTime :: int
  cc_FeePerByte :: u64
  cc_Confirmations :: int
  cc_TxWithTimeField :: bool
  cc_LockCoinsSupported :: bool
  cc_GetNewKeySupported :: bool
  cc_ImportWithNoScanSupported :: bool
  cc_CashAddrPrefix :: string
  cc_JSONVersion :: string
  cc_ContentType :: string
  cc_OmitJSONVersion :: bool

record Disable =
  d_Coin :: string
  d_Reason :: string

record Conf =
  cf_Main :: Main
  cf_Coins :: "string \<rightharpoonup> CoinConf"
  cf_Disabled :: "Disable list"

definition Wallets :: "Conf \<Rightarrow> string list" where
  "Wallets c = filter (\<lambda>ticker. \<not> (\<exists>d \<in> set (cf_Disabled c). d_Coin d = ticker)) (m_ExchangeWallets (cf_Main c))"

section \<open>INI parsing\<close>

type_synonym section_kv = "(string \<times> string) list"

definition ini_line :: "string \<Rightarrow> (string \<times> section_kv) list \<times> string \<Rightarrow> ((string \<times> section_kv) list \<times> string) go" where
  "ini_line line st = (case st of (out, cur) \<Rightarrow>
     let raw = TrimSpace line in
     if raw = [] \<or> HasPrefix raw ''#'' \<or> HasPrefix raw '';'' then Inr (out, cur)
     else if HasPrefix raw ''['' \<and> HasSuffix raw '']'' then
       (let cur = TrimSpace (butlast (tl raw))
        in Inr (if map_of out cur = None then out @ [(cur, [])] else out, cur))
     else if cur = [] then Inl (GoErr ''config: key/value outside any [section]'')
     else (case IndexByte raw (CHR ''='') of
         None \<Rightarrow> Inl (GoErr ''config: expected key=value'')
       | Some eq \<Rightarrow> (let key = TrimSpace (take eq raw); val = TrimSpace (drop (eq + 1) raw)
           in Inr (AList.map_entry cur (AList.update key val) out, cur))))"

fun parseINI_loop :: "string list \<Rightarrow> (string \<times> section_kv) list \<times> string \<Rightarrow> ((string \<times> section_kv) list \<times> string) go" where
  "parseINI_loop [] st = Inr st"
| "parseINI_loop (l # ls) st = go_bind (ini_line l st) (parseINI_loop ls)"

definition parseINI :: "string list \<Rightarrow> string option \<Rightarrow> (string \<times> section_kv) list go" where
  "parseINI ls scErr = go_bind (parseINI_loop ls ([], []))
     (\<lambda>(out, _). case scErr of Some e \<Rightarrow> Inl (GoErr (''config: read: '' @ e)) | None \<Rightarrow> Inr out)"

definition sec_get :: "section_kv \<Rightarrow> string \<Rightarrow> string option" where
  "sec_get s key = map_of s key"

definition sec_str :: "section_kv \<Rightarrow> string \<Rightarrow> string \<Rightarrow> string" where
  "sec_str s key def = (case sec_get s key of Some v \<Rightarrow> if v \<noteq> [] then v else def | None \<Rightarrow> def)"

definition sec_intp :: "section_kv \<Rightarrow> string \<Rightarrow> int \<Rightarrow> int" where
  "sec_intp s key def = (case sec_get s key of None \<Rightarrow> def
     | Some v \<Rightarrow> if v = [] then def else (case Atoi (TrimSpace v) of None \<Rightarrow> def | Some n \<Rightarrow> n))"

definition sec_uintp :: "section_kv \<Rightarrow> string \<Rightarrow> u64 \<Rightarrow> u64" where
  "sec_uintp s key def = (case sec_get s key of None \<Rightarrow> def
     | Some v \<Rightarrow> if v = [] then def else (case ParseUint64 (TrimSpace v) of None \<Rightarrow> def | Some n \<Rightarrow> n))"

definition sec_boolp :: "section_kv \<Rightarrow> string \<Rightarrow> bool" where
  "sec_boolp s key = (case sec_get s key of None \<Rightarrow> False
     | Some v \<Rightarrow> ToLower (TrimSpace v) \<in> set [''1'', ''true'', ''yes'', ''on''])"

definition isWalletSeparator :: "char \<Rightarrow> bool" where
  "isWalletSeparator r \<longleftrightarrow> r = CHR '','' \<or> r = CHR '';'' \<or> r = CHR '':''"

text \<open>\<^verbatim>\<open>strings.FieldsFunc\<close>: the maximal runs of non-separators; \<open>acc\<close> is the open run.\<close>

fun fields_func :: "(char \<Rightarrow> bool) \<Rightarrow> string \<Rightarrow> string \<Rightarrow> string list" where
  "fields_func f [] acc = (if acc = [] then [] else [acc])"
| "fields_func f (c # s) acc = (if f c then (if acc = [] then fields_func f s [] else acc # fields_func f s [])
     else fields_func f s (acc @ [c]))"

definition validateSymbol :: "string \<Rightarrow> string" where
  "validateSymbol raw = (if length raw < 1 \<or> length raw > 8 then [] else map upper_char raw)"

definition parseMain :: "section_kv \<Rightarrow> Main" where
  "parseMain s = (let ew = sec_str s ''ExchangeWallets'' [] in
     \<lparr>m_ExchangeWallets = (if ew = [] then []
        else filter (\<lambda>sym. sym \<noteq> []) (map validateSymbol (fields_func isWalletSeparator ew []))),
      m_ShowAllOrders = sec_boolp s ''ShowAllOrders'', m_FullLog = sec_boolp s ''FullLog''\<rparr>)"

text \<open>The value, or the reason why it was rejected.\<close>

definition parseDustAmount :: "section_kv \<Rightarrow> string + u64" where
  "parseDustAmount s = (case sec_get s ''DustAmount'' of
       None \<Rightarrow> Inl ''has no DustAmount in the config''
     | Some raw \<Rightarrow>
         if TrimSpace raw = [] then Inl ''has an invalid DustAmount in the config <>''
         else (case ParseUint64 (TrimSpace raw) of
             None \<Rightarrow> Inl (''has an invalid DustAmount in the config <'' @ raw @ ''>'')
           | Some n \<Rightarrow> Inr n))"

definition parseCoinConf :: "string \<Rightarrow> section_kv \<Rightarrow> string + CoinConf" where
  "parseCoinConf name s = (case parseDustAmount s of Inl e \<Rightarrow> Inl e | Inr dust \<Rightarrow> Inr
     \<lparr>cc_Ticker = name, cc_Title = sec_str s ''Title'' [], cc_Address = sec_str s ''Address'' [],
      cc_Ip = sec_str s ''Ip'' [], cc_Port = sec_intp s ''Port'' 0, cc_Username = sec_str s ''Username'' [],
      cc_Password = sec_str s ''Password'' [], cc_CreateTxMethod = sec_str s ''CreateTxMethod'' [],
      cc_AddressPrefix = sec_intp s ''AddressPrefix'' 0, cc_ScriptPrefix = sec_intp s ''ScriptPrefix'' 0,
      cc_SecretPrefix = sec_intp s ''SecretPrefix'' 0, cc_Coin = sec_uintp s ''COIN'' 0,
      cc_MinimumAmount = sec_uintp s ''MinimumAmount'' 0, cc_TxVersion = sec_intp s ''TxVersion'' 1,
      cc_DustAmount = dust, cc_MinTxFee = sec_uintp s ''MinTxFee'' 0,
      cc_BlockTime = sec_intp s ''BlockTime'' 0, cc_FeePerByte = sec_uintp s ''FeePerByte'' 0,
      cc_Confirmations = sec_intp s ''Confirmations'' 0, cc_TxWithTimeField = sec_boolp s ''TxWithTimeField'',
      cc_LockCoinsSupported = sec_boolp s ''LockCoinsSupported'',
      cc_GetNewKeySupported = sec_boolp s ''GetNewKeySupported'',
      cc_ImportWithNoScanSupported = sec_boolp s ''ImportWithNoScanSupported'',
      cc_CashAddrPrefix = sec_str s ''CashAddrPrefix'' [], cc_JSONVersion = sec_str s ''JSONVersion'' [],
      cc_ContentType = sec_str s ''ContentType'' [], cc_OmitJSONVersion = sec_boolp s ''OmitJSONVersion''\<rparr>)"

text \<open>The loop of \<^verbatim>\<open>Load\<close> over the sections, in the order the map is ranged over.\<close>

definition emptyMain :: Main where
  "emptyMain = \<lparr>m_ExchangeWallets = [], m_ShowAllOrders = False, m_FullLog = False\<rparr>"

definition load_section :: "string \<times> section_kv \<Rightarrow> Conf \<Rightarrow> Conf" where
  "load_section sec conf = (case sec of (name, kv) \<Rightarrow>
     if name = ''Main'' then conf\<lparr>cf_Main := parseMain kv\<rparr>
     else if name = ''Rpc'' then conf
     else (case parseCoinConf name kv of
         Inl dustProblem \<Rightarrow> conf\<lparr>cf_Disabled := cf_Disabled conf @ [\<lparr>d_Coin = name, d_Reason = dustProblem\<rparr>]\<rparr>
       | Inr cc \<Rightarrow> conf\<lparr>cf_Coins := (cf_Coins conf)(name \<mapsto> cc)\<rparr>))"

text \<open>The disabled coins are sorted by ticker; Go compares strings byte-wise.\<close>

definition Load :: "(string \<times> section_kv) list \<Rightarrow> Conf" where
  "Load parsed = (let conf = fold load_section parsed \<lparr>cf_Main = emptyMain, cf_Coins = Map.empty, cf_Disabled = []\<rparr>
     in conf\<lparr>cf_Disabled := sort_key d_Coin (cf_Disabled conf)\<rparr>)"

section \<open>Admission\<close>

definition int64 :: "int \<Rightarrow> int" where
  "int64 x = (x + 2 ^ 63) mod 2 ^ 64 - 2 ^ 63"

definition XMinLockTimeBlocks :: int where "XMinLockTimeBlocks = 6"
definition XMaxLockTimeDriftBlocks :: int where "XMaxLockTimeDriftBlocks = 4"
definition XMakerLocktimeTargetSeconds :: int where "XMakerLocktimeTargetSeconds = 2 * 60 * 60"
definition XTakerLocktimeTargetSeconds :: int where "XTakerLocktimeTargetSeconds = 30 * 60"
definition XSlowTakerLocktimeTargetSeconds :: int where "XSlowTakerLocktimeTargetSeconds = 60 * 60"
definition XSlowBlockTimeSeconds :: int where "XSlowBlockTimeSeconds = 600"
definition XLocktimeDriftSeconds :: int where "XLocktimeDriftSeconds = XTakerLocktimeTargetSeconds div 2"

lemmas lock_consts = XMinLockTimeBlocks_def XMaxLockTimeDriftBlocks_def XMakerLocktimeTargetSeconds_def
  XTakerLocktimeTargetSeconds_def XSlowTakerLocktimeTargetSeconds_def XSlowBlockTimeSeconds_def
  XLocktimeDriftSeconds_def

definition supportedCreateTxMethods :: "string list" where
  "supportedCreateTxMethods = [''BTC'', ''SYS'', ''LTC'', ''DGB'', ''BCH'', ''BTG'', ''DEVAULT'']"

text \<open>\<open>None\<close> is the nil pointer.\<close>

definition Admit :: "CoinConf option \<Rightarrow> unit go" where
  "Admit cp = (case cp of None \<Rightarrow> Inl (GoErr ''wallet admission: nil coin config'') | Some c \<Rightarrow>
     if cc_BlockTime c < 0 \<or> cc_Confirmations c < 0 then Inl (GoErr ''negative BlockTime/Confirmations'')
     else if cc_Ip c = [] \<or> cc_Port c = 0 \<or> cc_Coin c = 0 \<or> cc_BlockTime c = 0
       then Inl (GoErr ''Failed to connect, check the config'')
     else if int64 (cc_BlockTime c * XMinLockTimeBlocks) > XMakerLocktimeTargetSeconds
       then Inl (GoErr ''Failed maker locktime requirements'')
     else if cc_BlockTime c < XSlowBlockTimeSeconds
         \<and> int64 (cc_BlockTime c * XMinLockTimeBlocks) > XTakerLocktimeTargetSeconds
       then Inl (GoErr ''Failed taker locktime requirements'')
     else if cc_BlockTime c \<ge> XSlowBlockTimeSeconds
         \<and> int64 (cc_BlockTime c * XMinLockTimeBlocks) > XSlowTakerLocktimeTargetSeconds
       then Inl (GoErr ''Failed taker locktime requirements'')
     else let maxConfirmations = XLocktimeDriftSeconds div cc_BlockTime c;
              maxConfirmations = (if XMaxLockTimeDriftBlocks > maxConfirmations
                then XMaxLockTimeDriftBlocks else maxConfirmations) in
       if cc_Confirmations c > maxConfirmations then Inl (GoErr ''Failed confirmation check'')
       else if cc_CreateTxMethod c \<in> set [''ETH'', ''ETHER'', ''ETHEREUM'']
         then Inl (GoErr ''ETH connector is not supported on XBridge at this time'')
       else if cc_CreateTxMethod c \<in> set [''BCD'', ''PART'', ''STEALTH'', ''XST'']
         then Inl (GoErr ''connector is not supported by go-xbridge (deferred)'')
       else if cc_CreateTxMethod c \<notin> set supportedCreateTxMethods then Inl (GoErr ''unknown session type'')
       else Inr ())"

definition Admitted :: "(string \<times> CoinConf option) list \<Rightarrow> (string \<times> CoinConf option) list" where
  "Admitted confs = filter (\<lambda>(_, c). Admit c = Inr ()) confs"

section \<open>Lemmas\<close>

text \<open>What one section contributes.\<close>

definition coin_of :: "string \<times> section_kv \<Rightarrow> CoinConf option" where
  "coin_of sec = (if fst sec \<in> {''Main'', ''Rpc''} then None
     else case parseCoinConf (fst sec) (snd sec) of Inr c \<Rightarrow> Some c | Inl _ \<Rightarrow> None)"

definition disable_of :: "string \<times> section_kv \<Rightarrow> Disable option" where
  "disable_of sec = (if fst sec \<in> {''Main'', ''Rpc''} then None
     else case parseCoinConf (fst sec) (snd sec) of Inl e \<Rightarrow> Some \<lparr>d_Coin = fst sec, d_Reason = e\<rparr> | Inr _ \<Rightarrow> None)"

lemma load_section_fields:
  "cf_Coins (load_section sec conf) = (case coin_of sec of None \<Rightarrow> cf_Coins conf | Some c \<Rightarrow> (cf_Coins conf)(fst sec \<mapsto> c))"
  "cf_Disabled (load_section sec conf) = cf_Disabled conf @ (case disable_of sec of None \<Rightarrow> [] | Some d \<Rightarrow> [d])"
  "cf_Main (load_section sec conf) = (if fst sec = ''Main'' then parseMain (snd sec) else cf_Main conf)"
  by (auto simp: load_section_def coin_of_def disable_of_def split: prod.splits sum.splits)

lemma fold_disabled:
  "cf_Disabled (fold load_section p conf) = cf_Disabled conf @ List.map_filter disable_of p"
  by (induction p arbitrary: conf)
    (auto simp: load_section_fields List.map_filter_simps split: option.splits)

lemma fold_coins:
  "distinct (map fst p) \<Longrightarrow> cf_Coins (fold load_section p conf) name =
     (case map_of p name of Some kv \<Rightarrow> (case coin_of (name, kv) of Some c \<Rightarrow> Some c | None \<Rightarrow> cf_Coins conf name)
      | None \<Rightarrow> cf_Coins conf name)"
proof (induction p arbitrary: conf)
  case (Cons sec p)
  show ?case
  proof (cases "name = fst sec")
    case True
    with Cons.prems have "map_of p name = None" by (auto simp: map_of_eq_None_iff)
    with Cons True show ?thesis by (cases sec) (auto simp: load_section_fields split: option.splits)
  next
    case False
    with Cons show ?thesis by (cases sec) (auto simp: load_section_fields split: option.splits)
  qed
qed simp

lemma fold_main:
  "distinct (map fst p) \<Longrightarrow> cf_Main (fold load_section p conf) =
     (case map_of p ''Main'' of Some kv \<Rightarrow> parseMain kv | None \<Rightarrow> cf_Main conf)"
proof (induction p arbitrary: conf)
  case (Cons sec p)
  show ?case
  proof (cases "fst sec = ''Main''")
    case True
    with Cons.prems have "map_of p ''Main'' = None" by (auto simp: map_of_eq_None_iff)
    with Cons True show ?thesis by (cases sec) (auto simp: load_section_fields)
  next
    case False
    with Cons show ?thesis by (cases sec) (auto simp: load_section_fields split: option.splits)
  qed
qed simp

lemma Load_fields:
  assumes "distinct (map fst p)"
  shows "cf_Coins (Load p) name = (case map_of p name of Some kv \<Rightarrow> coin_of (name, kv) | None \<Rightarrow> None)"
    and "cf_Disabled (Load p) = sort_key d_Coin (List.map_filter disable_of p)"
    and "cf_Main (Load p) = (case map_of p ''Main'' of Some kv \<Rightarrow> parseMain kv | None \<Rightarrow> emptyMain)"
  using assms by (auto simp: Load_def Let_def fold_coins fold_disabled fold_main split: option.splits)

lemma disable_of_coin: "disable_of sec = Some d \<Longrightarrow> d_Coin d = fst sec"
  by (auto simp: disable_of_def split: if_splits sum.splits)

lemma set_disabled:
  "distinct (map fst p) \<Longrightarrow> set (cf_Disabled (Load p)) = {d. \<exists>sec \<in> set p. disable_of sec = Some d}"
  by (auto simp: Load_fields List.map_filter_def image_def) force

lemma distinct_disabled: "distinct (map fst p) \<Longrightarrow> inj_on d_Coin (set (List.map_filter disable_of p))"
proof (rule inj_onI)
  fix x y
  assume d: "distinct (map fst p)" and xy: "d_Coin x = d_Coin y"
    and "x \<in> set (List.map_filter disable_of p)" "y \<in> set (List.map_filter disable_of p)"
  then obtain s t where st: "s \<in> set p" "t \<in> set p" "disable_of s = Some x" "disable_of t = Some y"
    by (auto simp: List.map_filter_def)
  then have "fst s = fst t" using xy disable_of_coin by metis
  with d st(1,2) have "s = t" by (metis eq_key_imp_eq_value prod.collapse)
  with st show "x = y" by simp
qed

lemma int64_id: "- (2 ^ 63) \<le> x \<Longrightarrow> x < 2 ^ 63 \<Longrightarrow> int64 x = x"
  by (simp add: int64_def)

section \<open>Properties\<close>

text \<open>
  A coin is never loaded with a made-up dust threshold. Every section other than
  \<^verbatim>\<open>Main\<close> and \<^verbatim>\<open>Rpc\<close> becomes either one loaded coin, whose dust threshold is the parsed
  \<^verbatim>\<open>DustAmount\<close> value of that section, or one disabled entry that carries the reason, and
  never both.
\<close>

theorem Load_dust:
  assumes "distinct (map fst p)" and "(name, kv) \<in> set p" and "name \<notin> {''Main'', ''Rpc''}"
  shows "case parseDustAmount kv of
      Inr dust \<Rightarrow> (\<exists>c. cf_Coins (Load p) name = Some c \<and> cc_Ticker c = name \<and> cc_DustAmount c = dust)
        \<and> name \<notin> d_Coin ` set (cf_Disabled (Load p))
    | Inl e \<Rightarrow> cf_Coins (Load p) name = None \<and> \<lparr>d_Coin = name, d_Reason = e\<rparr> \<in> set (cf_Disabled (Load p))"
proof -
  have m: "map_of p name = Some kv" using assms(1,2) by simp
  have only: "sec = (name, kv)" if "sec \<in> set p" "fst sec = name" for sec
    using that m assms(1) by (metis map_of_is_SomeI option.inject prod.collapse)
  have no: "name \<notin> d_Coin ` set (cf_Disabled (Load p))" if "disable_of (name, kv) = None"
  proof
    assume "name \<in> d_Coin ` set (cf_Disabled (Load p))"
    then obtain sec d where "sec \<in> set p" "disable_of sec = Some d" "d_Coin d = name"
      by (auto simp: set_disabled [OF assms(1)])
    with only [of sec] disable_of_coin [of sec d] that show False by simp
  qed
  have yes: "d \<in> set (cf_Disabled (Load p))" if "disable_of (name, kv) = Some d" for d
    using that assms(2) by (auto simp: set_disabled [OF assms(1)])
  show ?thesis
  proof (cases "parseDustAmount kv")
    case (Inl e)
    with assms(3) m show ?thesis
      using yes [of "\<lparr>d_Coin = name, d_Reason = e\<rparr>"]
      by (simp add: Load_fields(1) [OF assms(1)] coin_of_def parseCoinConf_def disable_of_def)
  next
    case (Inr dust)
    with assms(3) m show ?thesis
      using no by (simp add: Load_fields(1) [OF assms(1)] coin_of_def parseCoinConf_def disable_of_def)
  qed
qed

theorem Load_dust_witness:
  "(\<exists>c. cf_Coins (Load [(''BTC'', [(''DustAmount'', ''546'')]), (''LTC'', [])]) ''BTC'' = Some c \<and> cc_DustAmount c = 546)
    \<and> cf_Coins (Load [(''BTC'', [(''DustAmount'', ''546'')]), (''LTC'', [])]) ''LTC'' = None"
proof -
  let ?p = "[(''BTC'', [(''DustAmount'', ''546'')]), (''LTC'', [])] :: (string \<times> section_kv) list"
  have "parseDustAmount [(''DustAmount'', ''546'')] = Inr 546"
    by (simp add: parseDustAmount_def sec_get_def TrimSpace_def is_space_def ParseUint64_def
        parse_digits_def is_digit_def digits_val_def digit_val_def)
  moreover have "parseDustAmount [] = Inl ''has no DustAmount in the config''"
    by (simp add: parseDustAmount_def sec_get_def)
  ultimately show ?thesis
    using Load_dust [of ?p "''BTC''" "[(''DustAmount'', ''546'')]"] Load_dust [of ?p "''LTC''" "[]"] by auto
qed

text \<open>
  C35: the loaded configuration does not depend on the order in which Go happens to range over
  the section map.
\<close>

theorem Load_order_irrelevant:
  assumes "mset p = mset q" and "distinct (map fst p)"
  shows "Load p = Load q"
proof -
  have "mset (map fst p) = mset (map fst q)" by (simp add: assms(1))
  then have dq: "distinct (map fst q)" using assms(2) mset_eq_imp_distinct_iff by blast
  have "set p = set q" using assms(1) by (rule mset_eq_setD)
  then have same: "map_of p = map_of q" using assms(2) dq by (simp add: map_of_inject_set)
  have "mset (List.map_filter disable_of p) = mset (List.map_filter disable_of q)"
    by (simp add: List.map_filter_def assms(1))
  then have "sort_key d_Coin (List.map_filter disable_of p) = sort_key d_Coin (List.map_filter disable_of q)"
    using distinct_disabled [OF assms(2)] by (intro sort_key_inj_key_eq) auto
  then show ?thesis
    using Load_fields [OF assms(2)] Load_fields [OF dq] same by (intro Conf.equality) auto
qed

theorem Load_order_irrelevant_witness:
  "Load [(''BTC'', [(''DustAmount'', ''1'')]), (''LTC'', [])] = Load [(''LTC'', []), (''BTC'', [(''DustAmount'', ''1'')])]"
  by (rule Load_order_irrelevant) simp_all

text \<open>
  An admitted coin has a usable chain: its block time is at most 300 seconds or exactly
  600, its required confirmations fit into the lock-time drift, and its transaction method is
  one the code implements. The premise excludes only the block times for which the gate's
  own multiplication overflows.
\<close>

theorem Admit_ok:
  assumes "Admit (Some c) = Inr ()" and "cc_BlockTime c < 2 ^ 60"
  shows "0 < cc_BlockTime c \<and> (cc_BlockTime c \<le> 300 \<or> cc_BlockTime c = 600)
    \<and> 0 \<le> cc_Confirmations c \<and> cc_Confirmations c * cc_BlockTime c \<le> max 900 (4 * cc_BlockTime c)
    \<and> cc_CreateTxMethod c \<in> set supportedCreateTxMethods \<and> cc_Coin c \<noteq> 0 \<and> cc_Port c \<noteq> 0 \<and> cc_Ip c \<noteq> []"
proof -
  note a = assms(1) [unfolded Admit_def option.case if_Inl_eq_Inr Let_def lock_consts]
  have b: "0 < cc_BlockTime c" "0 \<le> cc_Confirmations c" using a by auto
  then have w: "int64 (cc_BlockTime c * 6) = cc_BlockTime c * 6"
    using assms(2) by (intro int64_id) auto
  have bt: "cc_BlockTime c \<le> 300 \<or> cc_BlockTime c = 600" using a unfolding w by auto
  have conf: "cc_Confirmations c \<le> max 4 (900 div cc_BlockTime c)"
    using a by (auto simp: max_def split: if_splits)
  have "900 div cc_BlockTime c * cc_BlockTime c \<le> 900"
    using b by (metis div_mult_mod_eq le_add_same_cancel1 pos_mod_sign)
  moreover have "cc_Confirmations c * cc_BlockTime c \<le> max 4 (900 div cc_BlockTime c) * cc_BlockTime c"
    using conf b by (intro mult_right_mono) auto
  ultimately have "cc_Confirmations c * cc_BlockTime c \<le> max 900 (4 * cc_BlockTime c)"
    using b max_mult_distrib_right [of 4 "900 div cc_BlockTime c" "cc_BlockTime c"] by simp
  with a b bt show ?thesis by simp
qed

definition sample_coin :: CoinConf where
  "sample_coin = \<lparr>cc_Ticker = ''BTC'', cc_Title = ''Bitcoin'', cc_Address = [], cc_Ip = ''127.0.0.1'',
     cc_Port = 8332, cc_Username = ''u'', cc_Password = ''p'', cc_CreateTxMethod = ''BTC'',
     cc_AddressPrefix = 0, cc_ScriptPrefix = 5, cc_SecretPrefix = 128, cc_Coin = 100000000,
     cc_MinimumAmount = 0, cc_TxVersion = 2, cc_DustAmount = 546, cc_MinTxFee = 1000, cc_BlockTime = 600,
     cc_FeePerByte = 20, cc_Confirmations = 2, cc_TxWithTimeField = False, cc_LockCoinsSupported = False,
     cc_GetNewKeySupported = True, cc_ImportWithNoScanSupported = True, cc_CashAddrPrefix = [],
     cc_JSONVersion = [], cc_ContentType = [], cc_OmitJSONVersion = False\<rparr>"

theorem Admit_ok_witness:
  "Admit (Some sample_coin) = Inr () \<and> cc_Confirmations sample_coin * cc_BlockTime sample_coin
    \<le> max 900 (4 * cc_BlockTime sample_coin)"
proof -
  have "Admit (Some sample_coin) = Inr ()"
    by (simp add: Admit_def sample_coin_def lock_consts int64_def supportedCreateTxMethods_def Let_def)
  with Admit_ok [OF this] show ?thesis by (simp add: sample_coin_def)
qed

text \<open>
  The multiplication in the gates is not guarded: a block time of \<open>2 ^ 62\<close> seconds times six
  wraps to the smallest integer and passes both lock-time gates.
\<close>

lemma Admit_overflow: "Admit (Some (sample_coin\<lparr>cc_BlockTime := 2 ^ 62\<rparr>)) = Inr ()"
  by (simp add: Admit_def sample_coin_def lock_consts int64_def supportedCreateTxMethods_def Let_def)

end
