(* ===== verification/Coin.thy ===== *)
theory Coin
  imports Config
begin

text \<open>
  The coin registry of \<^verbatim>\<open>coins/coin.go\<close> and the decimal amounts of \<^verbatim>\<open>coins/amount.go\<close>. The
  registry is the explicit state of the operations that read or replace it; \<^verbatim>\<open>InitFromConf\<close>
  ranges over a Go map, so its argument is the association list in the order of that range.
\<close>

section \<open>Coins\<close>

datatype FamilyKind = FamilyUTXOBTC | FamilyUTXOBCH

datatype SignatureKind = SigLegacy | SigForkID

record Coin =
  c_Ticker :: string
  c_Name :: string
  c_Decimals :: nat
  c_P2PKH :: byte
  c_P2SH :: byte
  c_Bech32HRP :: string
  c_SegWit :: bool
  c_family :: FamilyKind
  c_CashAddrPrefix :: string
  c_signature :: SignatureKind
  c_forkValue :: u32
  c_TxWithTimeField :: bool

definition normalizeTicker :: "string \<Rightarrow> string" where
  "normalizeTicker t = map upper_char t"

definition familyFromMethod :: "string \<Rightarrow> FamilyKind" where
  "familyFromMethod m = (if normalizeTicker m \<in> set [''BCH'', ''DEVAULT''] then FamilyUTXOBCH else FamilyUTXOBTC)"

definition cashAddrPrefixFromMethod :: "string \<Rightarrow> string" where
  "cashAddrPrefixFromMethod m = (let n = normalizeTicker m in
     if n = ''BCH'' then ''bitcoincash'' else if n = ''DEVAULT'' then ''devault'' else [])"

definition signatureKindFromMethod :: "string \<Rightarrow> SignatureKind" where
  "signatureKindFromMethod m = (if normalizeTicker m \<in> set [''BCH'', ''DEVAULT'', ''BTG''] then SigForkID else SigLegacy)"

definition forkValueFromMethod :: "string \<Rightarrow> u32" where
  "forkValueFromMethod m = (let n = normalizeTicker m in
     if n = ''BCH'' then 0xffdead else if n = ''BTG'' then 79 else 0)"

function decimals_loop :: "nat \<Rightarrow> nat \<Rightarrow> nat" where
  "decimals_loop coin d = (if coin > 0 \<and> coin mod 10 = 0 then decimals_loop (coin div 10) (d + 1) else d)"
  by pat_completeness auto
termination
  by (relation "measure fst") auto

declare decimals_loop.simps [simp del]

definition decimalsFromCoin :: "u64 \<Rightarrow> nat" where
  "decimalsFromCoin coin = (let d = decimals_loop (unat coin) 0 in if d = 0 then 8 else d)"

definition segWitFromMethod :: "string \<Rightarrow> bool" where
  "segWitFromMethod m \<longleftrightarrow> normalizeTicker m \<in> set [''BTC'', ''LTC'', ''DGB'', ''BTG'']"

definition bech32HRPFromMethod :: "string \<Rightarrow> string" where
  "bech32HRPFromMethod m = (let n = normalizeTicker m in
     if n = ''BTC'' then ''bc'' else if n = ''LTC'' then ''ltc'' else if n = ''DGB'' then ''dgb''
     else if n = ''BTG'' then ''btg'' else [])"

definition FromConf :: "CoinConf \<Rightarrow> Coin go" where
  "FromConf c = (if cc_Coin c = 0 then Inl (GoErr (''coins: '' @ cc_Ticker c @ '': COIN not set in xbridge.conf''))
     else let cashAddr = cc_CashAddrPrefix c;
              cashAddr = (if cashAddr = [] then cashAddrPrefixFromMethod (cc_CreateTxMethod c)
                else if cc_CreateTxMethod c = ''DEVAULT'' \<and> cashAddr = ''bitcoincash'' then ''devault''
                else cashAddr)
       in Inr \<lparr>c_Ticker = cc_Ticker c, c_Name = cc_Title c, c_Decimals = decimalsFromCoin (cc_Coin c),
         c_P2PKH = word_of_int (cc_AddressPrefix c), c_P2SH = word_of_int (cc_ScriptPrefix c),
         c_Bech32HRP = bech32HRPFromMethod (cc_CreateTxMethod c),
         c_SegWit = segWitFromMethod (cc_CreateTxMethod c), c_family = familyFromMethod (cc_CreateTxMethod c),
         c_CashAddrPrefix = cashAddr, c_signature = signatureKindFromMethod (cc_CreateTxMethod c),
         c_forkValue = forkValueFromMethod (cc_CreateTxMethod c), c_TxWithTimeField = cc_TxWithTimeField c\<rparr>)"

type_synonym registry = "string \<rightharpoonup> Coin"

fun init_loop :: "(string \<times> CoinConf) list \<Rightarrow> registry \<Rightarrow> registry go" where
  "init_loop [] next = Inr next"
| "init_loop ((ticker, c) # cs) next = go_bind (FromConf c) (\<lambda>coin. init_loop cs (next(ticker \<mapsto> coin)))"

text \<open>The outcome and the registry after the call.\<close>

definition InitFromConf :: "(string \<times> CoinConf) list \<Rightarrow> registry \<Rightarrow> unit go \<times> registry" where
  "InitFromConf confs reg = (case init_loop confs Map.empty of
     Inl e \<Rightarrow> (Inl e, reg) | Inr next \<Rightarrow> (Inr (), next))"

definition Coin_Get :: "registry \<Rightarrow> string \<Rightarrow> Coin option" where
  "Coin_Get reg ticker = reg (normalizeTicker ticker)"

definition MustGet :: "registry \<Rightarrow> string \<Rightarrow> Coin go" where
  "MustGet reg ticker = (case Coin_Get reg ticker of
     None \<Rightarrow> Inl (GoPanic (''coins: unknown coin '' @ ticker)) | Some c \<Rightarrow> Inr c)"

definition Coin_Has :: "registry \<Rightarrow> string \<Rightarrow> bool" where
  "Coin_Has reg ticker \<longleftrightarrow> reg (normalizeTicker ticker) \<noteq> None"

section \<open>Amounts\<close>

definition ParseAmount :: "Coin \<Rightarrow> string \<Rightarrow> u64 go" where
  "ParseAmount c s0 = (let s = TrimSpace s0 in
     if s = [] then Inl (GoErr ''coins: empty amount'')
     else let neg = HasPrefix s ''-'';
              s = (if neg then tl s else s);
              (intPart, fracPart) = (case IndexByte s (CHR ''.'') of
                Some dot \<Rightarrow> (take dot s, drop (dot + 1) s) | None \<Rightarrow> (s, []))
       in if fracPart \<noteq> [] \<and> IndexByte fracPart (CHR ''.'') \<noteq> None then Inl (GoErr ''coins: multiple decimal points'')
       else if length fracPart > c_Decimals c then Inl (GoErr ''coins: too many decimal places'')
       else let scale = 10 ^ c_Decimals c :: int in
         if SetString10 intPart = None \<and> intPart \<noteq> [] then Inl (GoErr ''coins: invalid integer part'')
         else let intVal = (if intPart = [] then 0 else the (SetString10 intPart));
                  total = intVal * scale
           in go_bind
             (if fracPart \<noteq> [] then (case SetString10 fracPart of
                  None \<Rightarrow> Inl (GoErr ''coins: invalid fractional part'')
                | Some fracVal \<Rightarrow> Inr (total + fracVal * 10 ^ (c_Decimals c - length fracPart)))
              else Inr total)
             (\<lambda>total. let total = (if neg then - total else total) in
               if \<not> (0 \<le> total \<and> total < 2 ^ 64) then Inl (GoErr ''coins: amount overflows uint64'')
               else Inr (word_of_int total)))"

text \<open>The loop that pads the fraction with zeros on the left up to the number of decimals.\<close>

definition pad_left :: "nat \<Rightarrow> string \<Rightarrow> string" where
  "pad_left k s = replicate (k - length s) (CHR ''0'') @ s"

definition FormatAmount :: "Coin \<Rightarrow> u64 \<Rightarrow> string" where
  "FormatAmount c v = (let scale = 10 ^ c_Decimals c; q = unat v div scale; r = unat v mod scale; intStr = nat_str q in
     if r = 0 then intStr
     else intStr @ ''.'' @ TrimRight (pad_left (c_Decimals c) (nat_str r)) (CHR ''0''))"

definition FormatAmountFixed :: "Coin \<Rightarrow> u64 \<Rightarrow> string" where
  "FormatAmountFixed c v = (let scale = 10 ^ c_Decimals c; q = unat v div scale; r = unat v mod scale
     in nat_str q @ ''.'' @ pad_left (c_Decimals c) (nat_str r))"

section \<open>Lemmas\<close>

lemma decimals_loop_pow: "decimals_loop (10 ^ k) d = d + k"
  by (induction k arbitrary: d) (simp_all add: decimals_loop.simps)

lemma digit_not_space: "is_digit c \<Longrightarrow> \<not> is_space c"
  by (auto simp: is_digit_def is_space_def)

lemma trim_amount:
  assumes "list_all is_digit i" and "list_all is_digit f"
  shows "TrimSpace (i @ CHR ''.'' # f) = i @ CHR ''.'' # f" and "TrimSpace i = i"
proof -
  have "\<not> is_space CHR ''.''" by (simp add: is_space_def)
  with assms show "TrimSpace (i @ CHR ''.'' # f) = i @ CHR ''.'' # f" "TrimSpace i = i"
    by (auto intro!: digits_trim simp: list_all_iff digit_not_space)
qed

lemma digits_no_minus: "list_all is_digit i \<Longrightarrow> i \<noteq> [] \<Longrightarrow> \<not> HasPrefix (i @ r) ''-''"
  by (cases i) (auto simp: HasPrefix_def is_digit_def)

text \<open>A plain decimal is read as its digits.\<close>

lemma ParseAmount_decimal:
  assumes i: "list_all is_digit i" "i \<noteq> []" and f: "list_all is_digit f" "f \<noteq> []" "length f \<le> c_Decimals c"
    and bound: "digits_val i * 10 ^ c_Decimals c + digits_val f * 10 ^ (c_Decimals c - length f) = unat v"
  shows "ParseAmount c (i @ ''.'' @ f) = Inr v"
proof -
  have "int (digits_val i) * 10 ^ c_Decimals c + int (digits_val f) * 10 ^ (c_Decimals c - length f) = uint v"
    using bound by (metis (mono_tags) of_nat_add of_nat_mult of_nat_numeral of_nat_power uint_nat)
  moreover have "IndexByte (i @ ''.'' @ f) CHR ''.'' = Some (length i)"
    using IndexByte_append digit_not_dot i by simp
  moreover have "IndexByte f CHR ''.'' = None"
    using digit_not_dot [OF f(1)] by (simp add: IndexByte_None)
  moreover have "uint v < 2 ^ 64" using uint_bounded [of v] by simp
  ultimately show ?thesis
    using i f digits_no_minus [OF i, of "''.'' @ f"]
    by (simp add: ParseAmount_def Let_def trim_amount SetString10_def digits_not_sign)
qed

lemma ParseAmount_integer:
  assumes i: "list_all is_digit i" "i \<noteq> []" and bound: "digits_val i * 10 ^ c_Decimals c = unat v"
  shows "ParseAmount c i = Inr v"
proof -
  have "int (digits_val i) * 10 ^ c_Decimals c = uint v"
    using bound by (metis (mono_tags) of_nat_mult of_nat_numeral of_nat_power uint_nat)
  moreover have "IndexByte i CHR ''.'' = None"
    using digit_not_dot [OF i(1)] by (simp add: IndexByte_None)
  moreover have "uint v < 2 ^ 64" using uint_bounded [of v] by simp
  ultimately show ?thesis
    using i digits_no_minus [OF i, of "[]"] trim_amount(2) [OF i(1), of "[]"]
    by (simp add: ParseAmount_def Let_def SetString10_def digits_not_sign)
qed

lemma TrimRight_zeros: "\<exists>k. s = TrimRight s CHR ''0'' @ replicate k CHR ''0''"
proof -
  have "takeWhile ((=) CHR ''0'') (rev s) = replicate (length (takeWhile ((=) CHR ''0'') (rev s))) CHR ''0''"
    by (rule replicate_length_same [symmetric]) (auto dest: set_takeWhileD)
  then obtain k where "takeWhile ((=) CHR ''0'') (rev s) = replicate k CHR ''0''" by blast
  then have "rev s = replicate k CHR ''0'' @ dropWhile ((=) CHR ''0'') (rev s)"
    by (metis takeWhile_dropWhile_id)
  then have "s = rev (dropWhile ((=) CHR ''0'') (rev s)) @ replicate k CHR ''0''"
    by (metis rev_append rev_replicate rev_rev_ident)
  then show ?thesis unfolding TrimRight_def by blast
qed

lemma pad_digits:
  assumes "r < 10 ^ k" and "0 < k"
  shows "list_all is_digit (pad_left k (nat_str r))" and "digits_val (pad_left k (nat_str r)) = r"
    and "length (pad_left k (nat_str r)) = k"
proof -
  obtain j where "k = Suc j" using assms(2) by (cases k) auto
  then have "length (nat_str r) \<le> k" using length_nat_str assms(1) by simp
  then show "length (pad_left k (nat_str r)) = k" by (simp add: pad_left_def)
  show "digits_val (pad_left k (nat_str r)) = r" by (simp add: pad_left_def digits_val_zeros)
  show "list_all is_digit (pad_left k (nat_str r))"
    by (auto simp: pad_left_def is_digit_def list_all_iff nat_str_digits [unfolded list_all_iff] dest: nat_str_digits [unfolded list_all_iff, THEN conjunct1, THEN bspec])
qed

section \<open>Properties\<close>

text \<open>
  Formatting and parsing an amount are inverse: the trimmed form of any 64-bit amount, for
  a coin with at least one decimal, is read back as exactly that amount, and so is the form
  with all decimals.
\<close>

theorem Amount_roundtrip:
  assumes "0 < c_Decimals c"
  shows "ParseAmount c (FormatAmount c v) = Inr v \<and> ParseAmount c (FormatAmountFixed c v) = Inr v"
proof
  let ?k = "c_Decimals c" and ?q = "unat v div 10 ^ c_Decimals c" and ?r = "unat v mod 10 ^ c_Decimals c"
  let ?f = "pad_left ?k (nat_str ?r)"
  have f: "list_all is_digit ?f" "digits_val ?f = ?r" "length ?f = ?k"
    using assms by (intro pad_digits; simp)+
  show "ParseAmount c (FormatAmountFixed c v) = Inr v"
    unfolding FormatAmountFixed_def Let_def
  proof (rule ParseAmount_decimal)
    show "digits_val (nat_str ?q) * 10 ^ ?k + digits_val ?f * 10 ^ (?k - length ?f) = unat v"
      unfolding f using div_mult_mod_eq [of "unat v" "10 ^ ?k"] by (simp del: unat_div unat_mod)
  qed (use assms f in auto)
  obtain z where z: "?f = TrimRight ?f CHR ''0'' @ replicate z CHR ''0''" using TrimRight_zeros by blast
  let ?t = "TrimRight ?f CHR ''0''"
  have len: "length ?t + z = ?k" using z f(3) by (metis length_append length_replicate)
  have zeros: "digits_val (replicate z CHR ''0'') = 0" using digits_val_zeros [of z "[]"] by simp
  have val: "digits_val ?t * 10 ^ z = ?r"
    using z f(2) zeros by (metis add.right_neutral digits_val_append length_replicate)
  have dig: "list_all is_digit ?t" using z f(1) by (metis list_all_append)
  show "ParseAmount c (FormatAmount c v) = Inr v"
  proof (cases "?r = 0")
    case True
    then show ?thesis
      unfolding FormatAmount_def Let_def using div_mult_mod_eq [of "unat v" "10 ^ ?k"]
      by (auto intro!: ParseAmount_integer)
  next
    case False
    then have "?t \<noteq> []" using val by auto
    have "?k - length ?t = z" using len by simp
    then have "digits_val (nat_str ?q) * 10 ^ ?k + digits_val ?t * 10 ^ (?k - length ?t) = unat v"
      using val div_mult_mod_eq [of "unat v" "10 ^ ?k"] by simp
    then have "ParseAmount c (nat_str ?q @ ''.'' @ ?t) = Inr v"
      using dig len \<open>?t \<noteq> []\<close> by (intro ParseAmount_decimal) auto
    then show ?thesis unfolding FormatAmount_def Let_def using False by simp
  qed
qed

definition sample :: Coin where
  "sample = \<lparr>c_Ticker = ''BTC'', c_Name = ''Bitcoin'', c_Decimals = 8, c_P2PKH = 0, c_P2SH = 5,
     c_Bech32HRP = ''bc'', c_SegWit = True, c_family = FamilyUTXOBTC, c_CashAddrPrefix = [],
     c_signature = SigLegacy, c_forkValue = 0, c_TxWithTimeField = False\<rparr>"

theorem Amount_roundtrip_witness:
  "ParseAmount sample (FormatAmount sample 123450000) = Inr 123450000"
  using Amount_roundtrip [of sample 123450000] by (simp add: sample_def)

text \<open>
  A failed reload leaves the registry exactly as it was, and a successful one publishes the
  coins of the configuration and nothing else: a lookup finds the coin built from the section
  of that (upper-case) ticker.
\<close>

theorem InitFromConf_atomic:
  assumes "distinct (map fst confs)"
  shows "case InitFromConf confs reg of
      (Inl e, reg') \<Rightarrow> reg' = reg
    | (Inr _, reg') \<Rightarrow> (\<forall>t. Coin_Get reg' t = (case map_of confs (normalizeTicker t) of
          None \<Rightarrow> None | Some cc \<Rightarrow> (case FromConf cc of Inr c \<Rightarrow> Some c | Inl _ \<Rightarrow> None)))"
proof -
  have loop: "init_loop cs m = Inr m' \<Longrightarrow> distinct (map fst cs) \<Longrightarrow>
      m' k = (case map_of cs k of None \<Rightarrow> m k | Some cc \<Rightarrow> (case FromConf cc of Inr c \<Rightarrow> Some c | Inl _ \<Rightarrow> m k))"
    for cs m m' k
  proof (induction cs arbitrary: m)
    case (Cons a cs)
    obtain t cc where a: "a = (t, cc)" by fastforce
    from Cons.prems a obtain c where c: "FromConf cc = Inr c" "init_loop cs (m(t \<mapsto> c)) = Inr m'" by auto
    have "t \<notin> fst ` set cs" using Cons.prems a by simp
    then have "map_of cs t = None" by (simp add: map_of_eq_None_iff)
    with Cons.IH [OF c(2)] Cons.prems a c(1) show ?case by (auto split: option.splits sum.splits)
  qed simp
  show ?thesis
  proof (cases "init_loop confs Map.empty")
    case (Inr m)
    then show ?thesis
      by (simp add: InitFromConf_def Coin_Get_def loop [OF Inr assms])
  qed (simp add: InitFromConf_def)
qed

theorem InitFromConf_atomic_witness:
  "InitFromConf [(''BTC'', sample_coin\<lparr>cc_Coin := 0\<rparr>)] [''LTC'' \<mapsto> sample]
    = (Inl (GoErr ''coins: BTC: COIN not set in xbridge.conf''), [''LTC'' \<mapsto> sample])"
  using InitFromConf_atomic [of "[(''BTC'', sample_coin\<lparr>cc_Coin := 0\<rparr>)]" "[''LTC'' \<mapsto> sample]"]
  by (simp add: InitFromConf_def FromConf_def sample_coin_def)

text \<open>A power of ten from 10 on up is recognised as its number of decimals.\<close>

lemma decimalsFromCoin_pow:
  assumes "1 \<le> k" and "k \<le> 19"
  shows "decimalsFromCoin (of_nat (10 ^ k)) = k"
proof -
  have "(10 :: nat) ^ k \<le> 10 ^ 19" using assms by (intro power_increasing) auto
  then have "unat (of_nat (10 ^ k) :: u64) = 10 ^ k"
    using unat_of_nat [where ?'a = 64, of "10 ^ k"] by simp
  with assms show ?thesis by (simp add: decimalsFromCoin_def decimals_loop_pow Let_def)
qed

text \<open>
  The parts of an amount are read with their own sign, so text that is no decimal number is
  accepted: \<^verbatim>\<open>1.-5\<close> is taken for 0.95 and \<^verbatim>\<open>--5\<close> for 5.
\<close>

lemma ParseAmount_inner_sign:
  "ParseAmount sample ''1.-5'' = Inr 95000000" "ParseAmount sample ''--5'' = Inr 500000000"
  by (simp_all add: ParseAmount_def sample_def TrimSpace_def is_space_def HasPrefix_def SetString10_def
      parse_signed_def parse_digits_def is_digit_def digits_val_def digit_val_def Let_def)

end
