(* ===== verification/Tx.thy ===== *)
theory Tx
  imports Script Coin
begin

text \<open>
  Transactions of \<^verbatim>\<open>coins/tx.go\<close>: the wire encoding with the optional time field and segwit
  marker, its decoder, the signature digests, and the signing dispatch. The decoder's position
  and counts are Go \<^verbatim>\<open>int\<close> values with their 64-bit wrap, because a peer controls the counts.
  DER signatures and keys belong to the external curve library, the record \<open>der_lib\<close>.
\<close>

section \<open>Data\<close>

definition SigHashAll :: u32 where "SigHashAll = 0x01"
definition SigHashForkID :: u32 where "SigHashForkID = 0x40"
definition maxTxIns :: int where "maxTxIns = 2 ^ 20"
definition maxTxOuts :: int where "maxTxOuts = 2 ^ 20"
definition minTxInBytes :: int where "minTxInBytes = 41"
definition minTxOutBytes :: int where "minTxOutBytes = 9"

record OutPoint =
  op_Hash :: bytes
  op_Index :: u32

record TxIn =
  ti_PrevOut :: OutPoint
  ti_ScriptSig :: bytes
  ti_Sequence :: u32
  ti_Witness :: "bytes list"
  ti_Amount :: u64

record TxOut =
  to_Value :: u64
  to_ScriptPubKey :: bytes

record Tx =
  tx_Version :: u32
  tx_LockTime :: u32
  tx_Inputs :: "TxIn list"
  tx_Outputs :: "TxOut list"
  tx_SegWit :: bool
  tx_WithTime :: bool
  tx_TxTime :: u32

section \<open>Encoding\<close>

definition varInt :: "nat \<Rightarrow> bytes" where
  "varInt n = (if n < 0xfd then [of_nat n]
     else if n \<le> 0xffff then 0xfd # PutUint16 (of_nat n)
     else if n \<le> 0xffffffff then 0xfe # PutUint32 (of_nat n)
     else 0xff # PutUint64 (of_nat n))"

definition ser_in :: "TxIn \<Rightarrow> bytes" where
  "ser_in i = op_Hash (ti_PrevOut i) @ PutUint32 (op_Index (ti_PrevOut i)) @ varInt (length (ti_ScriptSig i))
     @ ti_ScriptSig i @ PutUint32 (ti_Sequence i)"

definition ser_out :: "TxOut \<Rightarrow> bytes" where
  "ser_out t = PutUint64 (to_Value t) @ varInt (length (to_ScriptPubKey t)) @ to_ScriptPubKey t"

definition ser_witness :: "TxIn \<Rightarrow> bytes" where
  "ser_witness i = varInt (length (ti_Witness i)) @ concat (map (\<lambda>w. varInt (length w) @ w) (ti_Witness i))"

definition Tx_Serialize :: "Tx \<Rightarrow> bytes" where
  "Tx_Serialize t = (
     let buf = PutUint32 (tx_Version t);
         buf = (if tx_WithTime t then buf @ PutUint32 (tx_TxTime t) else buf);
         buf = (if tx_SegWit t then buf @ [0x00, 0x01] else buf);
         buf = buf @ varInt (length (tx_Inputs t));
         buf = buf @ concat (map ser_in (tx_Inputs t));
         buf = buf @ varInt (length (tx_Outputs t));
         buf = buf @ concat (map ser_out (tx_Outputs t));
         buf = buf @ PutUint32 (tx_LockTime t)
     in if tx_SegWit t then buf @ concat (map ser_witness (tx_Inputs t)) else buf)"

section \<open>Decoding\<close>

definition need :: "bytes \<Rightarrow> int \<Rightarrow> int \<Rightarrow> (bytes \<times> int) go" where
  "need b pos n = (let e = int64 (pos + n) in
     if e > int (length b) then Inl (GoErr ''coins: tx truncated'')
     else if e < pos then Inl (GoPanic ''slice bounds out of range'')
     else Inr (take (nat (e - pos)) (drop (nat pos) b), e))"

definition readVarInt :: "bytes \<Rightarrow> int \<Rightarrow> (int \<times> int) go" where
  "readVarInt b pos = (if pos \<ge> int (length b) then Inl (GoErr ''coins: tx truncated'')
     else let first = unat (b ! nat pos); pos = pos + 1; rest = drop (nat pos) b in
       if first < 0xfd then Inr (int first, pos)
       else if first = 0xfd then
         (if pos + 2 > int (length b) then Inl (GoErr ''coins: tx truncated'')
          else Inr (uint (Uint16 rest), pos + 2))
       else if first = 0xfe then
         (if pos + 4 > int (length b) then Inl (GoErr ''coins: tx truncated'')
          else Inr (uint (Uint32 rest), pos + 4))
       else
         (if pos + 8 > int (length b) then Inl (GoErr ''coins: tx truncated'')
          else Inr (int64 (uint (Uint64 rest)), pos + 8)))"

text \<open>
  \<^verbatim>\<open>make([]T, n)\<close> panics on a negative length or when the elements of \<open>w\<close> bytes exceed the
  address space of the allocator (\<open>2 ^ 48\<close> bytes).
\<close>

definition make_ok :: "nat \<Rightarrow> int \<Rightarrow> unit go" where
  "make_ok w n = (if n < 0 \<or> n * int w > 2 ^ 48 then Inl (GoPanic ''makeslice: len out of range'') else Inr ())"

fun read_ins :: "nat \<Rightarrow> bytes \<Rightarrow> int \<Rightarrow> (TxIn list \<times> int) go" where
  "read_ins 0 b pos = Inr ([], pos)"
| "read_ins (Suc k) b pos =
     go_bind (need b pos 32) (\<lambda>(h, pos).
     go_bind (need b pos 4) (\<lambda>(ix, pos).
     go_bind (readVarInt b pos) (\<lambda>(slen, pos).
     go_bind (need b pos slen) (\<lambda>(ss, pos).
     go_bind (need b pos 4) (\<lambda>(sq, pos).
     go_bind (read_ins k b pos) (\<lambda>(ins, pos).
       Inr (\<lparr>ti_PrevOut = \<lparr>op_Hash = h, op_Index = Uint32 ix\<rparr>, ti_ScriptSig = ss, ti_Sequence = Uint32 sq,
             ti_Witness = [], ti_Amount = 0\<rparr> # ins, pos)))))))"

fun read_outs :: "nat \<Rightarrow> bytes \<Rightarrow> int \<Rightarrow> (TxOut list \<times> int) go" where
  "read_outs 0 b pos = Inr ([], pos)"
| "read_outs (Suc k) b pos =
     go_bind (need b pos 8) (\<lambda>(val, pos).
     go_bind (readVarInt b pos) (\<lambda>(slen, pos).
     go_bind (need b pos slen) (\<lambda>(spk, pos).
     go_bind (read_outs k b pos) (\<lambda>(outs, pos).
       Inr (\<lparr>to_Value = Uint64 val, to_ScriptPubKey = spk\<rparr> # outs, pos)))))"

fun read_stack :: "nat \<Rightarrow> bytes \<Rightarrow> int \<Rightarrow> (bytes list \<times> int) go" where
  "read_stack 0 b pos = Inr ([], pos)"
| "read_stack (Suc k) b pos =
     go_bind (readVarInt b pos) (\<lambda>(wl, pos).
     go_bind (need b pos wl) (\<lambda>(ws, pos).
     go_bind (read_stack k b pos) (\<lambda>(rest, pos). Inr (ws # rest, pos))))"

fun read_witnesses :: "TxIn list \<Rightarrow> bytes \<Rightarrow> int \<Rightarrow> (TxIn list \<times> int) go" where
  "read_witnesses [] b pos = Inr ([], pos)"
| "read_witnesses (i # is) b pos =
     go_bind (readVarInt b pos) (\<lambda>(wc, pos).
     go_bind (make_ok 24 wc) (\<lambda>_.
     go_bind (read_stack (nat wc) b pos) (\<lambda>(ws, pos).
     go_bind (read_witnesses is b pos) (\<lambda>(rest, pos). Inr (i\<lparr>ti_Witness := ws\<rparr> # rest, pos)))))"

text \<open>
  A count that is out of the limit or cannot fit into the remaining bytes; the product is
  taken in \<^verbatim>\<open>uint64\<close>, where a count up to \<open>2 ^ 20\<close> cannot wrap.
\<close>

definition too_many :: "int \<Rightarrow> int \<Rightarrow> int \<Rightarrow> int \<Rightarrow> bool" where
  "too_many n limit width rem \<longleftrightarrow> n > limit \<or> (n > 0 \<and> n * width > rem)"

text \<open>The decoder from the input count on, after the version, the time and the marker were read.\<close>

definition deserializeBody :: "bytes \<Rightarrow> bool \<Rightarrow> u32 \<Rightarrow> bool \<Rightarrow> u32 \<Rightarrow> int \<Rightarrow> Tx go" where
  "deserializeBody b segwit ver hasTime tm pos =
     go_bind (readVarInt b pos) (\<lambda>(nIn, pos).
       let rem = max 0 (int (length b) - pos) in
       if too_many nIn maxTxIns minTxInBytes rem then Inl (GoErr ''coins: too many inputs'')
       else go_bind (make_ok 104 nIn) (\<lambda>_.
     go_bind (read_ins (nat nIn) b pos) (\<lambda>(ins, pos).
     go_bind (readVarInt b pos) (\<lambda>(nOut, pos).
       let rem = max 0 (int (length b) - pos) in
       if too_many nOut maxTxOuts minTxOutBytes rem then Inl (GoErr ''coins: too many outputs'')
       else go_bind (make_ok 32 nOut) (\<lambda>_.
     go_bind (read_outs (nat nOut) b pos) (\<lambda>(outs, pos).
     go_bind (need b pos 4) (\<lambda>(lt, pos).
     go_bind (if segwit then read_witnesses ins b pos else Inr (ins, pos)) (\<lambda>(ins, pos).
       if pos \<noteq> int (length b) then Inl (GoErr ''coins: trailing bytes in tx'')
       else Inr \<lparr>tx_Version = ver, tx_LockTime = Uint32 lt, tx_Inputs = ins, tx_Outputs = outs,
              tx_SegWit = segwit, tx_WithTime = hasTime, tx_TxTime = tm\<rparr>))))))))"

definition deserializeTx :: "bytes \<Rightarrow> bool \<Rightarrow> Tx go" where
  "deserializeTx b hasTime =
     go_bind (need b 0 4) (\<lambda>(ver, pos).
     go_bind (if hasTime then need b pos 4 else Inr ([], pos)) (\<lambda>(tm, pos).
       let segwit = (int (length b) \<ge> pos + 2 \<and> b ! nat pos = 0x00 \<and> b ! nat (pos + 1) = 0x01);
           pos = (if segwit then pos + 2 else pos)
       in deserializeBody b segwit (Uint32 ver) hasTime (if hasTime then Uint32 tm else 0) pos))"

definition Deserialize :: "bytes \<Rightarrow> Tx go" where
  "Deserialize b = deserializeTx b False"

definition DeserializeWithTime :: "bytes \<Rightarrow> bool \<Rightarrow> Tx go" where
  "DeserializeWithTime b hasTime = deserializeTx b hasTime"

section \<open>Signature digests\<close>

definition HashForSigning :: "Tx \<Rightarrow> int \<Rightarrow> bytes \<Rightarrow> bytes" where
  "HashForSigning t idx prevScript = (
     let buf = PutUint32 (tx_Version t);
         buf = (if tx_WithTime t then buf @ PutUint32 (tx_TxTime t) else buf);
         buf = buf @ varInt (length (tx_Inputs t));
         buf = buf @ concat (map (\<lambda>(i, inp).
           let script = (if int i = idx then prevScript else []) in
             op_Hash (ti_PrevOut inp) @ PutUint32 (op_Index (ti_PrevOut inp)) @ varInt (length script) @ script
             @ PutUint32 (ti_Sequence inp)) (List.enumerate 0 (tx_Inputs t)));
         buf = buf @ varInt (length (tx_Outputs t));
         buf = buf @ concat (map ser_out (tx_Outputs t));
         buf = buf @ PutUint32 (tx_LockTime t);
         buf = buf @ PutUint32 SigHashAll
     in sha256 (sha256 buf))"

definition HashForSigningBIP143 :: "Tx \<Rightarrow> int \<Rightarrow> bytes \<Rightarrow> u64 \<Rightarrow> u32 \<Rightarrow> bytes go" where
  "HashForSigningBIP143 t idx scriptCode amount hashType = (
     if idx < 0 \<or> idx \<ge> int (length (tx_Inputs t)) then Inl (GoErr ''coins: input index out of range'')
     else let dsha = (\<lambda>b. sha256 (sha256 b));
              prevouts = concat (map (\<lambda>i. op_Hash (ti_PrevOut i) @ PutUint32 (op_Index (ti_PrevOut i))) (tx_Inputs t));
              sequences = concat (map (\<lambda>i. PutUint32 (ti_Sequence i)) (tx_Inputs t));
              outputs = concat (map ser_out (tx_Outputs t));
              inp = tx_Inputs t ! nat idx
       in Inr (dsha (PutUint32 (tx_Version t) @ dsha prevouts @ dsha sequences
            @ op_Hash (ti_PrevOut inp) @ PutUint32 (op_Index (ti_PrevOut inp))
            @ varInt (length scriptCode) @ scriptCode @ PutUint64 amount @ PutUint32 (ti_Sequence inp)
            @ dsha outputs @ PutUint32 (tx_LockTime t) @ PutUint32 hashType)))"

definition HashForSigningForkID :: "Tx \<Rightarrow> int \<Rightarrow> bytes \<Rightarrow> u64 \<Rightarrow> u32 \<Rightarrow> bytes go" where
  "HashForSigningForkID t idx scriptCode amount forkValue =
     (let hashType = push_bit 8 forkValue OR SigHashForkID OR SigHashAll
      in HashForSigningBIP143 t idx scriptCode amount hashType)"

definition HashForSigningSegwit :: "Tx \<Rightarrow> int \<Rightarrow> bytes \<Rightarrow> u64 \<Rightarrow> bytes go" where
  "HashForSigningSegwit t idx scriptCode amount = HashForSigningBIP143 t idx scriptCode amount SigHashAll"

definition P2WPKHScriptCode :: "bytes \<Rightarrow> bytes" where
  "P2WPKHScriptCode keyHash = [0x76, 0xa9, 0x14] @ keyHash @ [0x88, 0xac]"

section \<open>Signing and verifying inputs\<close>

text \<open>DER signing, and parsing and checking of signatures and keys, of the external library.\<close>

record ('s, 'k) der_lib =
  dl_sign :: "bytes \<Rightarrow> bytes \<Rightarrow> bytes"
  dl_parse_sig :: "bytes \<Rightarrow> 's option"
  dl_parse_pub :: "bytes \<Rightarrow> 'k option"
  dl_verify :: "'s \<Rightarrow> bytes \<Rightarrow> 'k \<Rightarrow> bool"

definition signDigestWithSighash :: "('s, 'k) der_lib \<Rightarrow> bytes \<Rightarrow> bytes \<Rightarrow> byte \<Rightarrow> bytes go" where
  "signDigestWithSighash L h priv sighash = (let der = dl_sign L priv h in Inr (der @ [sighash]))"

definition signDigest :: "('s, 'k) der_lib \<Rightarrow> bytes \<Rightarrow> bytes \<Rightarrow> bytes go" where
  "signDigest L h priv = signDigestWithSighash L h priv (ucast SigHashAll)"

definition SignTxInput :: "('s, 'k) der_lib \<Rightarrow> Tx \<Rightarrow> int \<Rightarrow> bytes \<Rightarrow> bytes \<Rightarrow> bytes go" where
  "SignTxInput L tx idx prevScript priv = (
     if length priv \<noteq> 32 then Inl (GoErr ''coins: private key must be 32 bytes'')
     else let h = HashForSigning tx idx prevScript in signDigest L h priv)"

definition SignTxInputSegwit :: "('s, 'k) der_lib \<Rightarrow> Tx \<Rightarrow> int \<Rightarrow> bytes \<Rightarrow> u64 \<Rightarrow> bytes \<Rightarrow> bytes go" where
  "SignTxInputSegwit L tx idx scriptCode amount priv = (
     if length priv \<noteq> 32 then Inl (GoErr ''coins: private key must be 32 bytes'')
     else go_bind (HashForSigningSegwit tx idx scriptCode amount) (\<lambda>h. signDigest L h priv))"

definition SignTxInputForkID :: "('s, 'k) der_lib \<Rightarrow> Tx \<Rightarrow> int \<Rightarrow> bytes \<Rightarrow> u64 \<Rightarrow> u32 \<Rightarrow> bytes \<Rightarrow> bytes go" where
  "SignTxInputForkID L tx idx scriptCode amount forkValue priv = (
     if length priv \<noteq> 32 then Inl (GoErr ''coins: private key must be 32 bytes'')
     else go_bind (HashForSigningForkID tx idx scriptCode amount forkValue)
       (\<lambda>h. signDigestWithSighash L h priv (ucast (SigHashForkID OR SigHashAll))))"

definition SignTxInputForCoin :: "('s, 'k) der_lib \<Rightarrow> Tx \<Rightarrow> int \<Rightarrow> bytes \<Rightarrow> u64 \<Rightarrow> bytes \<Rightarrow> Coin \<Rightarrow> bytes go" where
  "SignTxInputForCoin L tx idx script amount priv c = (
     if c_signature c = SigForkID then SignTxInputForkID L tx idx script amount (c_forkValue c) priv
     else SignTxInput L tx idx script priv)"

definition verifyDigest :: "('s, 'k) der_lib \<Rightarrow> bytes \<Rightarrow> bytes \<Rightarrow> bytes \<Rightarrow> bool go" where
  "verifyDigest L h pub sigWithSighash = (let der = butlast sigWithSighash in
     case dl_parse_sig L der of None \<Rightarrow> Inl (GoErr ''malformed signature'')
     | Some sig \<Rightarrow> (case dl_parse_pub L pub of None \<Rightarrow> Inl (GoErr ''malformed public key'')
         | Some p \<Rightarrow> Inr (dl_verify L sig h p)))"

definition VerifyTxInput :: "('s, 'k) der_lib \<Rightarrow> Tx \<Rightarrow> int \<Rightarrow> bytes \<Rightarrow> bytes \<Rightarrow> bytes \<Rightarrow> bool go" where
  "VerifyTxInput L tx idx prevScript pub sig = (
     if length sig < 1 then Inl (GoErr ''coins: empty signature'')
     else if last sig \<noteq> ucast SigHashAll then Inl (GoErr ''coins: unexpected sighash type'')
     else let h = HashForSigning tx idx prevScript in verifyDigest L h pub sig)"

definition VerifyTxInputSegwit :: "('s, 'k) der_lib \<Rightarrow> Tx \<Rightarrow> int \<Rightarrow> bytes \<Rightarrow> bytes \<Rightarrow> u64 \<Rightarrow> bytes \<Rightarrow> bool go" where
  "VerifyTxInputSegwit L tx idx scriptCode pub amount sig = (
     if length sig < 1 then Inl (GoErr ''coins: empty signature'')
     else if last sig \<noteq> ucast SigHashAll then Inl (GoErr ''coins: unexpected sighash type'')
     else go_bind (HashForSigningSegwit tx idx scriptCode amount) (\<lambda>h. verifyDigest L h pub sig))"

definition VerifyTxInputForkID :: "('s, 'k) der_lib \<Rightarrow> Tx \<Rightarrow> int \<Rightarrow> bytes \<Rightarrow> bytes \<Rightarrow> u64 \<Rightarrow> u32 \<Rightarrow> bytes \<Rightarrow> bool go" where
  "VerifyTxInputForkID L tx idx scriptCode pub amount forkValue sig = (
     if length sig < 1 then Inl (GoErr ''coins: empty signature'')
     else if last sig \<noteq> ucast (SigHashForkID OR SigHashAll) then Inl (GoErr ''coins: unexpected sighash type'')
     else go_bind (HashForSigningForkID tx idx scriptCode amount forkValue) (\<lambda>h. verifyDigest L h pub sig))"

section \<open>Decoding what was encoded\<close>

text \<open>
  The decoder is at the position before the tail \<open>r\<close> of its input. Inputs are shorter than
  \<open>2 ^ 62\<close> bytes, so no position can wrap.
\<close>

definition tail_of :: "bytes \<Rightarrow> bytes \<Rightarrow> bool" where
  "tail_of b r \<longleftrightarrow> (\<exists>p. b = p @ r) \<and> length b < 2 ^ 62"

definition pos_at :: "bytes \<Rightarrow> bytes \<Rightarrow> int" where
  "pos_at b r = int (length b) - int (length r)"

lemma tail_appendD: "tail_of b (xs @ r) \<Longrightarrow> tail_of b r"
  unfolding tail_of_def by (metis append_assoc)

lemma tail_drop: "tail_of b r \<Longrightarrow> drop (nat (pos_at b r)) b = r"
  by (auto simp: tail_of_def pos_at_def)

lemma pos_at_bounds: "tail_of b r \<Longrightarrow> 0 \<le> pos_at b r \<and> pos_at b r \<le> int (length b) \<and> int (length b) < 2 ^ 62"
  by (auto simp: tail_of_def pos_at_def)

lemma pos_at_append: "pos_at b r = pos_at b (xs @ r) + int (length xs)"
  by (simp add: pos_at_def)

lemma int64_small: "0 \<le> x \<Longrightarrow> x < 2 ^ 63 \<Longrightarrow> int64 x = x"
  by (rule int64_id) auto

lemma need_at:
  assumes "tail_of b (xs @ r)" and "n = int (length xs)"
  shows "need b (pos_at b (xs @ r)) n = Inr (xs, pos_at b r)"
proof -
  have p: "pos_at b (xs @ r) + n = pos_at b r" using assms(2) by (simp add: pos_at_append [of b r xs])
  have bd: "0 \<le> pos_at b r" "pos_at b r \<le> int (length b)" "int (length b) < 2 ^ 62"
    using pos_at_bounds [OF tail_appendD [OF assms(1)]] by simp_all
  then have "int64 (pos_at b r) = pos_at b r" by (intro int64_small) auto
  moreover note bd(2)
  moreover have "nat (pos_at b r - pos_at b (xs @ r)) = length xs" using p assms(2) by linarith
  moreover have "\<not> pos_at b r < pos_at b (xs @ r)" using p assms(2) by linarith
  ultimately show ?thesis
    using tail_drop [OF assms(1)] by (simp add: need_def p Let_def)
qed

lemma uint_PutGet:
  "n < 256 \<Longrightarrow> uint (of_nat n :: byte) = int n"
  "n < 2 ^ 16 \<Longrightarrow> uint (of_nat n :: u16) = int n"
  "n < 2 ^ 32 \<Longrightarrow> uint (of_nat n :: u32) = int n"
  "n < 2 ^ 64 \<Longrightarrow> uint (of_nat n :: u64) = int n"
  by (simp_all add: uint_nat unat_of_nat)

lemma varInt_at:
  assumes "tail_of b (varInt n @ r)" and "n < 2 ^ 63"
  shows "readVarInt b (pos_at b (varInt n @ r)) = Inr (int n, pos_at b r)"
proof -
  let ?p = "pos_at b (varInt n @ r)"
  obtain x xs where v: "varInt n = x # xs" by (cases "varInt n") (simp_all add: varInt_def split: if_splits)
  have d: "drop (nat ?p) b = x # xs @ r" using tail_drop [OF assms(1)] v by simp
  have p0: "0 \<le> ?p" using pos_at_bounds [OF assms(1)] by simp
  have lt: "nat ?p < length b" using d by (metis drop_eq_Nil linorder_not_less list.discI)
  have "b ! nat ?p = x" using d lt by (metis Cons_nth_drop_Suc list.inject)
  moreover have rest: "drop (nat (?p + 1)) b = xs @ r"
    using d p0 by (metis drop_Suc_Cons drop_drop drop0 nat_add_distrib nat_1 plus_1_eq_Suc zero_le_one One_nat_def add.commute)
  moreover have "int (length b) = ?p + 1 + int (length xs) + int (length r)" by (simp add: pos_at_def v)
  moreover have "pos_at b r = ?p + 1 + int (length xs)" by (simp add: pos_at_def v)
  ultimately show ?thesis
    using lt p0 v assms(2)
    by (auto simp: readVarInt_def varInt_def Let_def unat_of_nat uint_PutGet int64_small split: if_splits)
qed

text \<open>What of an input is on the wire before the witnesses.\<close>

definition bare_in :: "TxIn \<Rightarrow> TxIn" where
  "bare_in i = i\<lparr>ti_Witness := [], ti_Amount := 0\<rparr>"

lemma length_varInt: "1 \<le> length (varInt n)"
  by (simp add: varInt_def)

lemma read_ins_at:
  assumes "tail_of b (concat (map ser_in is) @ r)" and "\<forall>i \<in> set is. length (op_Hash (ti_PrevOut i)) = 32"
  shows "read_ins (length is) b (pos_at b (concat (map ser_in is) @ r)) = Inr (map bare_in is, pos_at b r)"
  using assms
proof (induction "is")
  case (Cons i "is")
  let ?R = "concat (map ser_in is) @ r"
  have t0: "tail_of b (op_Hash (ti_PrevOut i) @ PutUint32 (op_Index (ti_PrevOut i)) @ varInt (length (ti_ScriptSig i))
      @ ti_ScriptSig i @ PutUint32 (ti_Sequence i) @ ?R)"
    using Cons.prems(1) by (simp add: ser_in_def [of i])
  note t1 = tail_appendD [OF t0] note t2 = tail_appendD [OF t1] note t3 = tail_appendD [OF t2]
  note t4 = tail_appendD [OF t3] note t5 = tail_appendD [OF t4]
  have len: "length (ti_ScriptSig i) < 2 ^ 63" using t3 by (auto simp: tail_of_def)
  have h: "length (op_Hash (ti_PrevOut i)) = 32" using Cons.prems(2) by simp
  have IH: "read_ins (length is) b (pos_at b ?R) = Inr (map bare_in is, pos_at b r)"
    using Cons.IH t5 Cons.prems(2) by simp
  show ?case
    by (simp add: ser_in_def [of i] need_at [OF t0] need_at [OF t1] varInt_at [OF t2 len] need_at [OF t3] need_at [OF t4]
        h IH bare_in_def)
qed simp

lemma read_outs_at:
  assumes "tail_of b (concat (map ser_out os) @ r)"
  shows "read_outs (length os) b (pos_at b (concat (map ser_out os) @ r)) = Inr (os, pos_at b r)"
  using assms
proof (induction os)
  case (Cons out os)
  let ?R = "concat (map ser_out os) @ r"
  have t0: "tail_of b (PutUint64 (to_Value out) @ varInt (length (to_ScriptPubKey out)) @ to_ScriptPubKey out @ ?R)"
    using Cons.prems(1) by (simp add: ser_out_def [of out])
  note t1 = tail_appendD [OF t0] note t2 = tail_appendD [OF t1] note t3 = tail_appendD [OF t2]
  have len: "length (to_ScriptPubKey out) < 2 ^ 63" using t2 by (auto simp: tail_of_def)
  show ?case
    using Cons.IH [OF t3] by (simp add: ser_out_def [of out] need_at [OF t0] varInt_at [OF t1 len] need_at [OF t2])
qed simp

lemma read_stack_at:
  assumes "tail_of b (concat (map (\<lambda>w. varInt (length w) @ w) ws) @ r)"
  shows "read_stack (length ws) b (pos_at b (concat (map (\<lambda>w. varInt (length w) @ w) ws) @ r)) = Inr (ws, pos_at b r)"
  using assms
proof (induction ws)
  case (Cons w ws)
  let ?R = "concat (map (\<lambda>w. varInt (length w) @ w) ws) @ r"
  have t0: "tail_of b (varInt (length w) @ w @ ?R)" using Cons.prems by simp
  note t1 = tail_appendD [OF t0] note t2 = tail_appendD [OF t1]
  have len: "length w < 2 ^ 63" using t1 by (auto simp: tail_of_def)
  show ?case using Cons.IH [OF t2] by (simp add: varInt_at [OF t0 len] need_at [OF t1])
qed simp

lemma read_witnesses_at:
  assumes "tail_of b (concat (map ser_witness is) @ r)"
    and "\<forall>i \<in> set is. int (length (ti_Witness i)) * 24 \<le> 2 ^ 48"
  shows "read_witnesses (map bare_in is) b (pos_at b (concat (map ser_witness is) @ r))
    = Inr (map (\<lambda>i. i\<lparr>ti_Amount := 0\<rparr>) is, pos_at b r)"
  using assms
proof (induction "is")
  case (Cons i "is")
  let ?W = "concat (map (\<lambda>w. varInt (length w) @ w) (ti_Witness i))" and ?R = "concat (map ser_witness is) @ r"
  have t0: "tail_of b (varInt (length (ti_Witness i)) @ ?W @ ?R)" using Cons.prems by (simp add: ser_witness_def [of i])
  note t1 = tail_appendD [OF t0] note t2 = tail_appendD [OF t1]
  have w: "int (length (ti_Witness i)) * 24 \<le> 2 ^ 48" using Cons.prems(2) by simp
  then have len: "length (ti_Witness i) < 2 ^ 63" by simp
  have "make_ok 24 (int (length (ti_Witness i))) = Inr ()" using w by (simp add: make_ok_def)
  then show ?case
    using Cons.IH [OF t2] Cons.prems(2) read_stack_at [OF t1]
    by (simp add: ser_witness_def [of i] varInt_at [OF t0 len] bare_in_def)
qed simp

text \<open>
  The transactions the encoding can represent: hashes of 32 bytes, counts within the decoder's
  limits, and, without the segwit marker, at least one input (an empty input list would be
  read as the marker). Spent amounts are not on the wire, nor are witnesses without segwit,
  nor the time without its flag.
\<close>

definition tx_ok :: "Tx \<Rightarrow> bool" where
  "tx_ok t \<longleftrightarrow> (\<forall>i \<in> set (tx_Inputs t). length (op_Hash (ti_PrevOut i)) = 32 \<and> ti_Amount i = 0
        \<and> (\<not> tx_SegWit t \<longrightarrow> ti_Witness i = []) \<and> int (length (ti_Witness i)) * 24 \<le> 2 ^ 48)
     \<and> length (tx_Inputs t) \<le> 2 ^ 20 \<and> length (tx_Outputs t) \<le> 2 ^ 20
     \<and> (tx_SegWit t \<or> tx_Inputs t \<noteq> []) \<and> (\<not> tx_WithTime t \<longrightarrow> tx_TxTime t = 0)
     \<and> length (Tx_Serialize t) < 2 ^ 62"

lemma length_ser_in: "length (op_Hash (ti_PrevOut i)) = 32 \<Longrightarrow> 41 \<le> length (ser_in i)"
  using length_varInt [of "length (ti_ScriptSig i)"] by (simp add: ser_in_def)

lemma length_ser_out: "9 \<le> length (ser_out t)"
  using length_varInt [of "length (to_ScriptPubKey t)"] by (simp add: ser_out_def)

lemma length_concat_ge: "\<forall>x \<in> set xs. k \<le> length (f x) \<Longrightarrow> k * length xs \<le> length (concat (map f xs))"
  by (induction xs) (auto simp: algebra_simps)

lemma pos_at_rem: "max 0 (int (length b) - pos_at b r) = int (length r)"
  by (simp add: pos_at_def)

lemma tail_nth: "tail_of b (x # y # r) \<Longrightarrow> b ! nat (pos_at b (x # y # r)) = x \<and> b ! nat (pos_at b (x # y # r) + 1) = y"
  by (auto simp: tail_of_def pos_at_def nth_append nat_add_distrib)

text \<open>The bytes from the input count on, and decoding them.\<close>

definition tx_rest :: "Tx \<Rightarrow> bytes" where
  "tx_rest t = varInt (length (tx_Inputs t)) @ concat (map ser_in (tx_Inputs t)) @ varInt (length (tx_Outputs t))
     @ concat (map ser_out (tx_Outputs t)) @ PutUint32 (tx_LockTime t)
     @ (if tx_SegWit t then concat (map ser_witness (tx_Inputs t)) else [])"

lemma Serialize_eq: "Tx_Serialize t = PutUint32 (tx_Version t) @ (if tx_WithTime t then PutUint32 (tx_TxTime t) else [])
    @ (if tx_SegWit t then [0, 1] else []) @ tx_rest t"
  by (simp add: Tx_Serialize_def tx_rest_def Let_def)

text \<open>Without the marker the first byte is a non-zero input count.\<close>

lemma no_marker:
  assumes "tx_Inputs t \<noteq> []"
  shows "\<exists>x y r. tx_rest t = x # y # r \<and> x \<noteq> 0"
proof -
  let ?n = "length (tx_Inputs t)"
  have "(of_nat ?n :: byte) \<noteq> 0" if "?n < 253"
  proof
    assume "(of_nat ?n :: byte) = 0"
    then have "uint (of_nat ?n :: byte) = 0" by simp
    then show False using uint_PutGet(1) [of ?n] that assms by simp
  qed
  then obtain x xs where v: "varInt ?n = x # xs" "x \<noteq> 0" by (cases "varInt ?n") (auto simp: varInt_def split: if_splits)
  then obtain r where r: "tx_rest t = x # r" "4 \<le> length r" by (simp add: tx_rest_def)
  then show ?thesis using v(2) by (cases r) auto
qed

text \<open>The part of the decoder after the marker.\<close>

lemma deserialize_rest:
  assumes "tx_ok t" and "tail_of b (tx_rest t)" and "pos = pos_at b (tx_rest t)"
  shows "deserializeBody b (tx_SegWit t) (tx_Version t) (tx_WithTime t) (tx_TxTime t) pos = Inr t"
proof -
  let ?W = "if tx_SegWit t then concat (map ser_witness (tx_Inputs t)) else []"
  let ?I = "concat (map ser_in (tx_Inputs t))" and ?O = "concat (map ser_out (tx_Outputs t))"
  note ok = assms(1) [unfolded tx_ok_def]
  have t0: "tail_of b (varInt (length (tx_Inputs t)) @ ?I @ varInt (length (tx_Outputs t)) @ ?O @ PutUint32 (tx_LockTime t) @ ?W)"
    using assms(2) by (simp add: tx_rest_def)
  note t1 = tail_appendD [OF t0] note t2 = tail_appendD [OF t1] note t3 = tail_appendD [OF t2]
  note t4 = tail_appendD [OF t3] note t5 = tail_appendD [OF t4]
  have li: "length (tx_Inputs t) < 2 ^ 63" and lo: "length (tx_Outputs t) < 2 ^ 63" using ok by auto
  have "41 * length (tx_Inputs t) \<le> length ?I" "9 * length (tx_Outputs t) \<le> length ?O"
    using ok length_ser_in length_ser_out by (auto intro!: length_concat_ge)
  then have few: "\<not> too_many (int (length (tx_Inputs t))) maxTxIns minTxInBytes (int (length (?I @ s)))"
      "\<not> too_many (int (length (tx_Outputs t))) maxTxOuts minTxOutBytes (int (length (?O @ s)))" for s
    using ok by (auto simp: too_many_def maxTxIns_def maxTxOuts_def minTxInBytes_def minTxOutBytes_def)
  have mk: "make_ok 104 (int (length (tx_Inputs t))) = Inr ()" "make_ok 32 (int (length (tx_Outputs t))) = Inr ()"
    using ok by (auto simp: make_ok_def)
  have ins: "read_ins (length (tx_Inputs t)) b (pos_at b (?I @ s)) = Inr (map bare_in (tx_Inputs t), pos_at b s)"
    if "tail_of b (?I @ s)" for s
    using read_ins_at [OF that] ok by simp
  have wit: "(if tx_SegWit t then read_witnesses (map bare_in (tx_Inputs t)) b (pos_at b ?W)
      else Inr (map bare_in (tx_Inputs t), pos_at b ?W)) = Inr (tx_Inputs t, pos_at b [])"
  proof (cases "tx_SegWit t")
    case True
    have "map (\<lambda>i. i\<lparr>ti_Amount := 0\<rparr>) (tx_Inputs t) = tx_Inputs t" using ok by (intro map_idI) simp
    with True t5 read_witnesses_at [of b "tx_Inputs t" "[]"] ok show ?thesis by simp
  next
    case False
    have "map bare_in (tx_Inputs t) = tx_Inputs t" using ok False by (intro map_idI) (simp add: bare_in_def)
    with False show ?thesis by simp
  qed
  have "pos_at b [] = int (length b)" by (simp add: pos_at_def)
  then show ?thesis
    unfolding assms(3) tx_rest_def deserializeBody_def
    using few mk wit need_at [OF t4, of 4]
    by (simp add: varInt_at [OF t0 li] varInt_at [OF t2 lo] ins [OF t1] read_outs_at [OF t3] pos_at_rem Let_def
        del: length_append)
qed

text \<open>The segwit test at the position before \<open>tx_rest\<close> or the marker.\<close>

lemma marker_test:
  assumes "tx_ok t" and "tail_of b ((if tx_SegWit t then [0, 1] else []) @ tx_rest t)"
    and "pos = pos_at b ((if tx_SegWit t then [0, 1] else []) @ tx_rest t)"
  shows "(int (length b) \<ge> pos + 2 \<and> b ! nat pos = 0x00 \<and> b ! nat (pos + 1) = 0x01) = tx_SegWit t"
    and "(if tx_SegWit t then pos + 2 else pos) = pos_at b (tx_rest t)"
proof -
  show "(if tx_SegWit t then pos + 2 else pos) = pos_at b (tx_rest t)" using assms(3) by (simp add: pos_at_def)
  show "(int (length b) \<ge> pos + 2 \<and> b ! nat pos = 0x00 \<and> b ! nat (pos + 1) = 0x01) = tx_SegWit t"
  proof (cases "tx_SegWit t")
    case True
    then show ?thesis using assms(2,3) tail_nth [of b 0 1 "tx_rest t"] by (simp add: pos_at_def)
  next
    case False
    then obtain x y r where "tx_rest t = x # y # r" "x \<noteq> 0"
      using no_marker [of t] assms(1) by (auto simp: tx_ok_def)
    then show ?thesis using False assms(2,3) tail_nth [of b x y r] by simp
  qed
qed

lemma Deserialize_Serialize:
  assumes "tx_ok t"
  shows "DeserializeWithTime (Tx_Serialize t) (tx_WithTime t) = Inr t"
proof -
  let ?b = "Tx_Serialize t" and ?M = "(if tx_SegWit t then [0, 1] else []) @ tx_rest t"
  let ?T = "if tx_WithTime t then PutUint32 (tx_TxTime t) else []"
  have t0: "tail_of ?b (PutUint32 (tx_Version t) @ ?T @ ?M)"
    using assms by (simp add: tail_of_def tx_ok_def) (simp add: Serialize_eq)
  note t1 = tail_appendD [OF t0] note t2 = tail_appendD [OF t1] note t3 = tail_appendD [OF t2]
  have p0: "pos_at ?b (PutUint32 (tx_Version t) @ ?T @ ?M) = 0" by (simp add: pos_at_def Serialize_eq)
  have n0: "need ?b 0 4 = Inr (PutUint32 (tx_Version t), pos_at ?b (?T @ ?M))"
    using need_at [OF t0, of 4] unfolding p0 by simp
  have n1: "(if tx_WithTime t then need ?b (pos_at ?b (?T @ ?M)) 4 else Inr ([], pos_at ?b (?T @ ?M)))
      = Inr (?T, pos_at ?b ?M)"
    using need_at [OF t1, of 4] by (cases "tx_WithTime t") simp_all
  note mk = marker_test [OF assms t2 refl]
  have "(if tx_WithTime t then Uint32 ?T else 0) = tx_TxTime t" using assms by (simp add: tx_ok_def)
  then show ?thesis
    unfolding DeserializeWithTime_def deserializeTx_def n0 go_bind_simps prod.case n1 Let_def mk
    using deserialize_rest [OF assms t3 refl] by simp
qed

text \<open>
  C27: every representable transaction, with or without the time field and with or without
  segwit, is decoded from its encoding without loss.
\<close>

theorem Tx_roundtrip:
  assumes "tx_ok t"
  shows "DeserializeWithTime (Tx_Serialize t) (tx_WithTime t) = Inr t"
  using assms by (rule Deserialize_Serialize)

definition sample_tx :: Tx where
  "sample_tx = \<lparr>tx_Version = 2, tx_LockTime = 100,
     tx_Inputs = [\<lparr>ti_PrevOut = \<lparr>op_Hash = replicate 32 1, op_Index = 3\<rparr>, ti_ScriptSig = [0x51], ti_Sequence = 0xffffffff,
       ti_Witness = [[9, 9]], ti_Amount = 0\<rparr>],
     tx_Outputs = [\<lparr>to_Value = 5000, to_ScriptPubKey = [0x6a]\<rparr>], tx_SegWit = True, tx_WithTime = True, tx_TxTime = 7\<rparr>"

theorem Tx_roundtrip_witness:
  "DeserializeWithTime (Tx_Serialize sample_tx) True = Inr sample_tx"
proof -
  have "tx_ok sample_tx"
    by (simp add: tx_ok_def sample_tx_def Tx_Serialize_def ser_in_def ser_out_def ser_witness_def varInt_def Let_def)
  from Tx_roundtrip [OF this] show ?thesis by (simp add: sample_tx_def)
qed

text \<open>
  A negative count crashes the decoder: 13 bytes with an input count of \<open>2 ^ 64 - 1\<close> pass both
  limit checks, because the count becomes a negative \<^verbatim>\<open>int\<close>, and the allocation panics.
\<close>

theorem Deserialize_panics:
  "panics (Deserialize [0, 0, 0, 0, 0xff, 0xff, 0xff, 0xff, 0xff, 0xff, 0xff, 0xff, 0xff])"
  by (simp add: Deserialize_def deserializeTx_def deserializeBody_def need_def int64_def readVarInt_def Let_def
      too_many_def maxTxIns_def make_ok_def Uint64_def)

text \<open>
  The legacy digest of an input commits to everything except the other inputs' scripts:
  it is unchanged by any change of the input scripts, witnesses and spent amounts already in
  the transaction, so inputs can be signed one after the other.
\<close>

theorem HashForSigning_scripts:
  assumes "length (tx_Inputs t) = length xs"
    and "\<forall>i < length xs. ti_PrevOut (tx_Inputs t ! i) = ti_PrevOut (xs ! i) \<and> ti_Sequence (tx_Inputs t ! i) = ti_Sequence (xs ! i)"
  shows "HashForSigning t idx s = HashForSigning (t\<lparr>tx_Inputs := xs\<rparr>) idx s"
proof -
  let ?f = "\<lambda>(i, inp). let script = (if int i = idx then s else []) in
             op_Hash (ti_PrevOut inp) @ PutUint32 (op_Index (ti_PrevOut inp)) @ varInt (length script) @ script
             @ PutUint32 (ti_Sequence inp)"
  have "map ?f (List.enumerate 0 (tx_Inputs t)) = map ?f (List.enumerate 0 xs)"
    by (rule nth_equalityI) (use assms in \<open>auto simp: nth_enumerate_eq\<close>)
  then show ?thesis by (simp add: HashForSigning_def assms(1) Let_def)
qed

theorem HashForSigning_scripts_witness:
  "HashForSigning sample_tx 0 [1] = HashForSigning (sample_tx\<lparr>tx_Inputs :=
     map (\<lambda>i. i\<lparr>ti_ScriptSig := [], ti_Witness := []\<rparr>) (tx_Inputs sample_tx)\<rparr>) 0 [1]"
  by (rule HashForSigning_scripts) (simp_all add: sample_tx_def)

text \<open>What the code relies on from the curve library for one key pair.\<close>

definition der_key_ok :: "('s, 'k) der_lib \<Rightarrow> bytes \<Rightarrow> bytes \<Rightarrow> bool" where
  "der_key_ok L priv pub \<longleftrightarrow> (\<exists>k. dl_parse_pub L pub = Some k
     \<and> (\<forall>h. \<exists>s. dl_parse_sig L (dl_sign L priv h) = Some s \<and> dl_verify L s h k))"

lemma sign_then_verify:
  assumes "der_key_ok L priv pub" and "length priv = 32" and "0 \<le> idx" and "idx < int (length (tx_Inputs tx))"
  shows "\<exists>sig. SignTxInputForCoin L tx idx script amount priv c = Inr sig
    \<and> (if c_signature c = SigForkID
       then VerifyTxInputForkID L tx idx script pub amount (c_forkValue c) sig = Inr True \<and> last sig = 0x41
       else VerifyTxInput L tx idx script pub sig = Inr True \<and> last sig = 0x01)"
proof -
  obtain k where k: "dl_parse_pub L pub = Some k"
    and s: "\<And>h. \<exists>s. dl_parse_sig L (dl_sign L priv h) = Some s \<and> dl_verify L s h k"
    using assms(1) by (auto simp: der_key_ok_def)
  have v: "verifyDigest L h pub (dl_sign L priv h @ [x]) = Inr True" for h x
    using k s [of h] by (auto simp: verifyDigest_def)
  obtain h where "HashForSigningForkID tx idx script amount (c_forkValue c) = Inr h"
    using assms(3,4) by (simp add: HashForSigningForkID_def HashForSigningBIP143_def Let_def)
  then show ?thesis
    using assms(2) v
    by (simp add: SignTxInputForCoin_def SignTxInputForkID_def SignTxInput_def signDigest_def
        signDigestWithSighash_def VerifyTxInputForkID_def VerifyTxInput_def Let_def SigHashForkID_def SigHashAll_def)
qed

text \<open>
  The signature that a coin's signing method produces for an existing input is accepted by
  the matching verification, and only the forkid coins put the forkid byte on it.
\<close>

theorem SignTxInputForCoin_verifies:
  assumes "der_key_ok L priv pub" and "length priv = 32" and "0 \<le> idx" and "idx < int (length (tx_Inputs tx))"
  shows "\<exists>sig. SignTxInputForCoin L tx idx script amount priv c = Inr sig
    \<and> (if c_signature c = SigForkID
       then VerifyTxInputForkID L tx idx script pub amount (c_forkValue c) sig = Inr True \<and> last sig = 0x41
       else VerifyTxInput L tx idx script pub sig = Inr True \<and> last sig = 0x01)"
  using assms by (rule sign_then_verify)

definition echo_der :: "(bytes, bytes) der_lib" where
  "echo_der = \<lparr>dl_sign = (\<lambda>priv h. h), dl_parse_sig = Some, dl_parse_pub = Some, dl_verify = (\<lambda>s h k. s = h)\<rparr>"

theorem SignTxInputForCoin_verifies_witness:
  "\<exists>sig. SignTxInputForCoin echo_der sample_tx 0 [1] 5 (replicate 32 1) sample = Inr sig
    \<and> VerifyTxInput echo_der sample_tx 0 [1] [2] sig = Inr True"
  using SignTxInputForCoin_verifies [of echo_der "replicate 32 1" "[2]" 0 sample_tx "[1]" 5 sample]
  by (auto simp: der_key_ok_def echo_der_def sample_tx_def sample_def)

end
