(* ===== verification/Base58.thy ===== *)
theory Base58
  imports Sha256 GoStrings
begin

text \<open>
  Base58 and Base58Check of \<^verbatim>\<open>coins/base58.go\<close> and \<^verbatim>\<open>coins/base58check.go\<close>. Both directions go
  through a big integer, so the argument is about positional notation: the locale \<open>radix\<close>
  proves once, for any base, that minimal digit lists and numbers correspond, and it is used
  at base 58 for the text and at base 256 for the bytes.
\<close>

section \<open>The code\<close>

definition b58Alphabet :: string where
  "b58Alphabet = ''123456789ABCDEFGHJKLMNPQRSTUVWXYZabcdefghijkmnopqrstuvwxyz''"

definition maxBase58Len :: nat where
  "maxBase58Len = 128"

definition b58Idx :: "char \<Rightarrow> int" where
  "b58Idx c = (case IndexByte b58Alphabet c of Some i \<Rightarrow> int i | None \<Rightarrow> - 1)"

fun b58_accumulate :: "string \<Rightarrow> nat \<Rightarrow> nat go" where
  "b58_accumulate [] x = Inr x"
| "b58_accumulate (c # s) x = (if b58Idx c < 0 then Inl (GoErr ''coins: invalid base58 character'')
     else b58_accumulate s (x * 58 + nat (b58Idx c)))"

text \<open>Digits of a number to a base, least significant first; none for zero.\<close>

function digs :: "nat \<Rightarrow> nat \<Rightarrow> nat list" where
  "digs B n = (if n = 0 \<or> B < 2 then [] else n mod B # digs B (n div B))"
  by pat_completeness auto
termination
  by (relation "measure snd") auto

declare digs.simps [simp del]

text \<open>\<^verbatim>\<open>big.Int.Bytes\<close> and \<^verbatim>\<open>big.Int.SetBytes\<close>: big-endian, the former without leading zeros.\<close>

definition big_Bytes :: "nat \<Rightarrow> bytes" where
  "big_Bytes n = rev (map of_nat (digs 256 n))"

definition big_SetBytes :: "bytes \<Rightarrow> nat" where
  "big_SetBytes b = foldl (\<lambda>n x. n * 256 + unat x) 0 b"

definition base58Decode :: "string \<Rightarrow> bytes go" where
  "base58Decode s = (if length s > maxBase58Len then Inl (GoErr ''coins: base58 string too long'')
     else go_bind (b58_accumulate s 0) (\<lambda>x.
       let leading = length (takeWhile (\<lambda>c. c = CHR ''1'') s); buf = big_Bytes x
       in Inr (replicate leading 0 @ buf)))"

definition base58Encode :: "bytes \<Rightarrow> string" where
  "base58Encode b = (let out = map (\<lambda>d. b58Alphabet ! d) (digs 58 (big_SetBytes b));
       out = out @ replicate (length (takeWhile (\<lambda>c. c = 0) b)) (CHR ''1'')
     in rev out)"

definition checksum :: "bytes \<Rightarrow> bytes" where
  "checksum b = (let h1 = sha256 b; h2 = sha256 h1 in take 4 h2)"

definition equal4 :: "bytes \<Rightarrow> bytes \<Rightarrow> bool" where
  "equal4 a b \<longleftrightarrow> \<not> (length a \<noteq> 4 \<or> length b \<noteq> 4)
     \<and> a ! 0 = b ! 0 \<and> a ! 1 = b ! 1 \<and> a ! 2 = b ! 2 \<and> a ! 3 = b ! 3"

definition base58CheckEncode :: "byte \<Rightarrow> bytes \<Rightarrow> string" where
  "base58CheckEncode prefix payload = (let body = prefix # payload; cs = checksum body in base58Encode (body @ cs))"

definition base58CheckDecode :: "string \<Rightarrow> (byte \<times> bytes) go" where
  "base58CheckDecode s = go_bind (base58Decode s) (\<lambda>raw.
     if length raw < 5 then Inl (GoErr ''coins: base58check string too short'')
     else let prefix = raw ! 0;
              payload = drop 1 (take (length raw - 4) raw);
              want = checksum (take (length raw - 4) raw);
              got = drop (length raw - 4) raw
       in if \<not> equal4 want got then Inl (GoErr ''coins: base58check checksum mismatch'')
          else Inr (prefix, payload))"

section \<open>Positional notation\<close>

definition digs_val :: "nat \<Rightarrow> nat list \<Rightarrow> nat" where
  "digs_val B ds = foldr (\<lambda>d n. d + B * n) ds 0"

definition canonical :: "nat \<Rightarrow> nat list \<Rightarrow> bool" where
  "canonical B ds \<longleftrightarrow> (\<forall>d \<in> set ds. d < B) \<and> (ds \<noteq> [] \<longrightarrow> last ds \<noteq> 0)"

lemma digs_val_simps [simp]: "digs_val B [] = 0" "digs_val B (d # ds) = d + B * digs_val B ds"
  by (simp_all add: digs_val_def)

lemma digs_val_zeros [simp]: "digs_val B (ds @ replicate k 0) = digs_val B ds"
proof -
  have "digs_val B (replicate k 0) = 0" by (induction k) simp_all
  then show ?thesis by (induction ds) simp_all
qed

lemma foldl_digs: "foldl (\<lambda>n x. n * B + x) 0 ds = digs_val B (rev ds)"
proof -
  have "foldl (\<lambda>n x. n * B + x) a ds = digs_val B (rev ds) + B ^ length ds * a" for a
  proof (induction ds rule: rev_induct)
    case (snoc d ds)
    then show ?case by (simp add: algebra_simps)
  qed simp
  then show ?thesis by simp
qed

locale radix =
  fixes B :: nat
  assumes base: "2 \<le> B"
begin

lemma digs_Suc: "n \<noteq> 0 \<Longrightarrow> digs B n = n mod B # digs B (n div B)"
  using base by (simp add: digs.simps [of B n])

lemma digs_0 [simp]: "digs B 0 = []"
  by (simp add: digs.simps)

lemma val_digs [simp]: "digs_val B (digs B n) = n"
proof (induction n rule: less_induct)
  case (less n)
  show ?case
  proof (cases "n = 0")
    case False
    then have "n div B < n" using base by simp
    from less [OF this] have "digs_val B (digs B n) = n mod B + B * (n div B)"
      by (simp only: digs_Suc [OF False] digs_val_simps)
    then show ?thesis by simp
  qed simp
qed

lemma canonical_digs: "canonical B (digs B n)"
proof (induction n rule: less_induct)
  case (less n)
  show ?case
  proof (cases "n < B")
    case True
    then show ?thesis by (cases "n = 0") (simp_all add: canonical_def digs_Suc [of n])
  next
    case False
    then have n: "n \<noteq> 0" "n div B \<noteq> 0" "n div B < n" using base by (auto simp: div_eq_0_iff)
    have "digs B (n div B) \<noteq> []" unfolding digs_Suc [OF n(2)] by simp
    moreover have "canonical B (digs B (n div B))" using less n(3) .
    moreover have "n mod B < B" using base by simp
    ultimately show ?thesis unfolding digs_Suc [OF n(1)] by (simp add: canonical_def)
  qed
qed

lemma val_pos: "canonical B ds \<Longrightarrow> ds \<noteq> [] \<Longrightarrow> 0 < digs_val B ds"
proof (induction ds)
  case (Cons d ds)
  then show ?case using base by (cases "ds = []") (auto simp: canonical_def)
qed simp

lemma digs_val_digs: "canonical B ds \<Longrightarrow> digs B (digs_val B ds) = ds"
proof (induction ds)
  case (Cons d ds)
  have "canonical B ds" using Cons.prems by (auto simp: canonical_def split: if_splits)
  moreover have "d < B" using Cons.prems by (simp add: canonical_def)
  moreover have "d + B * digs_val B ds \<noteq> 0" using val_pos [OF Cons.prems] by simp
  ultimately show ?case using Cons.IH by (simp add: digs_Suc [of "d + B * digs_val B ds"])
qed simp

lemma length_digs: "n < B ^ k \<Longrightarrow> length (digs B n) \<le> k"
proof (induction k arbitrary: n)
  case (Suc k)
  then have "n div B < B ^ k" using base by (simp add: less_mult_imp_div_less mult.commute)
  with Suc.IH show ?case by (cases "n = 0") (simp_all add: digs_Suc [of n])
qed simp

text \<open>A big-endian digit list splits into its leading zeros and a canonical rest.\<close>

lemma leading_zeros:
  assumes "\<forall>d \<in> set ds. d < B"
  shows "rev ds = digs B (digs_val B (rev ds)) @ replicate (length (takeWhile (\<lambda>d. d = 0) ds)) 0"
proof -
  let ?z = "takeWhile (\<lambda>d. d = 0) ds" and ?r = "dropWhile (\<lambda>d. d = 0) ds"
  have z: "?z = replicate (length ?z) 0"
    by (rule replicate_length_same [symmetric]) (auto dest: set_takeWhileD)
  have split: "rev ds = rev ?r @ replicate (length ?z) 0"
    by (metis z rev_append rev_replicate takeWhile_dropWhile_id)
  have "hd ?r \<noteq> 0" if "?r \<noteq> []" using hd_dropWhile [OF that] by simp
  then have "canonical B (rev ?r)"
    using assms by (auto simp: canonical_def last_rev dest: set_dropWhileD)
  then have "digs B (digs_val B (rev ds)) = rev ?r"
    unfolding split by (simp add: digs_val_digs)
  with split show ?thesis by simp
qed

end

interpretation r58: radix 58
  by unfold_locales simp

interpretation r256: radix 256
  by unfold_locales simp

section \<open>The alphabet\<close>

lemma alphabet_facts: "length b58Alphabet = 58" "distinct b58Alphabet" "b58Alphabet ! 0 = CHR ''1''"
  by (simp_all add: b58Alphabet_def)

lemma b58Idx_nth [simp]: "d < 58 \<Longrightarrow> b58Idx (b58Alphabet ! d) = int d"
  by (simp add: b58Idx_def IndexByte_nth alphabet_facts)

lemma b58Idx_valid: "0 \<le> b58Idx c \<Longrightarrow> nat (b58Idx c) < 58 \<and> b58Alphabet ! nat (b58Idx c) = c"
  by (auto simp: b58Idx_def alphabet_facts dest: IndexByte_SomeD split: option.splits)

definition b58_digits :: "string \<Rightarrow> nat list" where
  "b58_digits s = map (\<lambda>c. nat (b58Idx c)) s"

definition b58_valid :: "string \<Rightarrow> bool" where
  "b58_valid s \<longleftrightarrow> (\<forall>c \<in> set s. 0 \<le> b58Idx c)"

lemma b58_accumulate_eq:
  "b58_accumulate s x = (if b58_valid s then Inr (foldl (\<lambda>n d. n * 58 + d) x (b58_digits s))
     else Inl (GoErr ''coins: invalid base58 character''))"
  by (induction s arbitrary: x) (auto simp: b58_valid_def b58_digits_def)

lemma leading_ones:
  assumes "b58_valid s"
  shows "takeWhile (\<lambda>c. c = CHR ''1'') s = replicate (length (takeWhile (\<lambda>d. d = 0) (b58_digits s))) CHR ''1''"
  using assms
proof (induction s)
  case (Cons c s)
  have "nat (b58Idx c) = 0 \<longleftrightarrow> c = CHR ''1''"
    using Cons.prems b58Idx_valid [of c] b58Idx_nth [of 0] alphabet_facts(3) by (auto simp: b58_valid_def)
  with Cons show ?case by (auto simp: b58_valid_def b58_digits_def)
qed (simp add: b58_digits_def)

lemma b58_of_digits:
  assumes "\<forall>d \<in> set ds. d < 58"
  shows "b58_valid (map (\<lambda>d. b58Alphabet ! d) ds)" and "b58_digits (map (\<lambda>d. b58Alphabet ! d) ds) = ds"
  using assms by (auto simp: b58_valid_def b58_digits_def intro!: map_idI)

lemma digits_of_b58: "b58_valid s \<Longrightarrow> map (\<lambda>d. b58Alphabet ! d) (b58_digits s) = s"
  by (auto simp: b58_valid_def b58_digits_def b58Idx_valid intro!: map_idI)

lemma b58_digits_less: "b58_valid s \<Longrightarrow> \<forall>d \<in> set (b58_digits s). d < 58"
  by (auto simp: b58_valid_def b58_digits_def b58Idx_valid)

lemma big_SetBytes_eq: "big_SetBytes b = digs_val 256 (rev (map unat b))"
  using foldl_digs [of 256 "map unat b"] by (simp add: big_SetBytes_def foldl_map)

lemma unat_byte_less: "unat (b :: byte) < 256"
  using unat_less_2p [of b] by simp

text \<open>Bytes and base-58 text as the same number with the same count of leading zeros.\<close>

lemma bytes_split:
  "b = replicate (length (takeWhile (\<lambda>c. c = 0) b)) 0 @ big_Bytes (big_SetBytes b)"
proof -
  have z: "takeWhile (\<lambda>d. d = 0) (map unat b) = map unat (takeWhile (\<lambda>c. c = 0) b)"
    by (induction b) (auto simp: unat_gt_0)
  have "rev (map unat b) = digs 256 (big_SetBytes b) @ replicate (length (takeWhile (\<lambda>c. c = 0) b)) 0"
    using r256.leading_zeros [of "map unat b"] z by (simp add: big_SetBytes_eq unat_byte_less)
  then have "map unat b = replicate (length (takeWhile (\<lambda>c. c = 0) b)) 0 @ rev (digs 256 (big_SetBytes b))"
    by (metis rev_append rev_replicate rev_rev_ident)
  then have "map of_nat (map unat b) = (replicate (length (takeWhile (\<lambda>c. c = 0) b)) 0 @ big_Bytes (big_SetBytes b) :: bytes)"
    by (simp add: big_Bytes_def rev_map)
  moreover have "map of_nat (map unat b) = b" by (simp add: comp_def)
  ultimately show ?thesis by simp
qed

lemma text_split:
  assumes "b58_valid s"
  shows "s = replicate (length (takeWhile (\<lambda>c. c = CHR ''1'') s)) CHR ''1''
    @ rev (map (\<lambda>d. b58Alphabet ! d) (digs 58 (digs_val 58 (rev (b58_digits s)))))"
proof -
  let ?z = "length (takeWhile (\<lambda>d. d = 0) (b58_digits s))"
  have "rev (b58_digits s) = digs 58 (digs_val 58 (rev (b58_digits s))) @ replicate ?z 0"
    by (rule r58.leading_zeros [OF b58_digits_less [OF assms]])
  then have "b58_digits s = replicate ?z 0 @ rev (digs 58 (digs_val 58 (rev (b58_digits s))))"
    by (metis rev_append rev_replicate rev_rev_ident)
  then have "map (\<lambda>d. b58Alphabet ! d) (b58_digits s) = replicate ?z CHR ''1''
      @ rev (map (\<lambda>d. b58Alphabet ! d) (digs 58 (digs_val 58 (rev (b58_digits s)))))"
    by (metis alphabet_facts(3) map_append map_replicate rev_map)
  with digits_of_b58 [OF assms] leading_ones [OF assms] show ?thesis by simp
qed

lemma leading_replicate:
  "hd_opt \<noteq> [] \<longrightarrow> hd hd_opt \<noteq> x \<Longrightarrow> takeWhile (\<lambda>c. c = x) (replicate k x @ hd_opt) = replicate k x"
  by (induction k) (cases hd_opt; simp)+

text \<open>The first significant symbol of a minimal number is not the zero symbol, in either base.\<close>

lemma digs_hd:
  assumes "radix B"
  shows "digs B n \<noteq> [] \<Longrightarrow> last (digs B n) \<noteq> 0 \<and> last (digs B n) < B"
  using radix.canonical_digs [OF assms, of n] by (auto simp: canonical_def)

lemma encode_leading:
  "takeWhile (\<lambda>c. c = CHR ''1'') (replicate k CHR ''1'' @ rev (map (\<lambda>d. b58Alphabet ! d) (digs 58 n)))
    = replicate k CHR ''1''"
proof (rule leading_replicate, rule impI)
  assume "rev (map (\<lambda>d. b58Alphabet ! d) (digs 58 n)) \<noteq> []"
  then have ne: "digs 58 n \<noteq> []" by simp
  have l: "last (digs 58 n) \<noteq> 0" "last (digs 58 n) < 58" using digs_hd [OF r58.radix_axioms ne] by auto
  have "b58Alphabet ! last (digs 58 n) \<noteq> CHR ''1''"
    using l b58Idx_nth [of "last (digs 58 n)"] b58Idx_nth [of 0] alphabet_facts(3) by fastforce
  with ne show "hd (rev (map (\<lambda>d. b58Alphabet ! d) (digs 58 n))) \<noteq> CHR ''1''"
    by (simp add: hd_rev last_map)
qed

lemma big_Bytes_leading:
  "takeWhile (\<lambda>c. c = 0) (replicate k 0 @ big_Bytes n) = replicate k 0"
proof (rule leading_replicate, rule impI)
  assume "big_Bytes n \<noteq> []"
  then have ne: "digs 256 n \<noteq> []" by (simp add: big_Bytes_def)
  have "last (digs 256 n) \<noteq> 0" "last (digs 256 n) < 256" using digs_hd [OF r256.radix_axioms ne] by auto
  then have "unat (of_nat (last (digs 256 n)) :: byte) \<noteq> 0" by (simp add: unat_of_nat)
  with ne show "hd (big_Bytes n) \<noteq> 0"
    by (auto simp: big_Bytes_def hd_rev last_map)
qed

lemma big_SetBytes_Bytes: "big_SetBytes (replicate k 0 @ big_Bytes n) = n"
proof -
  have "map unat (map of_nat (digs 256 n) :: bytes) = digs 256 n"
    using r256.canonical_digs [of n] by (auto simp: canonical_def unat_of_nat intro!: map_idI)
  then show ?thesis by (simp add: big_SetBytes_eq big_Bytes_def rev_map [symmetric])
qed

section \<open>Properties\<close>

lemma base58_Encode_eq:
  "base58Encode b = replicate (length (takeWhile (\<lambda>c. c = 0) b)) CHR ''1''
     @ rev (map (\<lambda>d. b58Alphabet ! d) (digs 58 (big_SetBytes b)))"
  by (simp add: base58Encode_def Let_def)

lemma base58_Decode_eq:
  "b58_valid s \<Longrightarrow> length s \<le> 128 \<Longrightarrow> base58Decode s
    = Inr (replicate (length (takeWhile (\<lambda>c. c = CHR ''1'') s)) 0 @ big_Bytes (digs_val 58 (rev (b58_digits s))))"
  by (simp add: base58Decode_def maxBase58Len_def b58_accumulate_eq foldl_digs Let_def)

lemma base58_decode_encode:
  assumes len: "length (base58Encode b) \<le> 128"
  shows "base58Decode (base58Encode b) = Inr b"
proof -
  let ?ds = "digs 58 (big_SetBytes b)" and ?z = "length (takeWhile (\<lambda>c. c = 0) b)"
  have enc: "base58Encode b = map (\<lambda>d. b58Alphabet ! d) (replicate ?z 0 @ rev ?ds)"
    by (simp add: base58_Encode_eq alphabet_facts rev_map)
  have d: "\<forall>d \<in> set (replicate ?z 0 @ rev ?ds). d < 58"
    using r58.canonical_digs by (auto simp: canonical_def)
  have v: "b58_valid (base58Encode b)" and dg: "b58_digits (base58Encode b) = replicate ?z 0 @ rev ?ds"
    unfolding enc using b58_of_digits [OF d] by simp_all
  have "takeWhile (\<lambda>c. c = CHR ''1'') (base58Encode b) = replicate ?z CHR ''1''"
    unfolding base58_Encode_eq by (rule encode_leading)
  then show ?thesis
    using base58_Decode_eq [OF v len] bytes_split [of b] by (simp add: dg)
qed

lemma base58_encode_decode:
  assumes dec: "base58Decode s = Inr b"
  shows "base58Encode b = s"
proof -
  from dec have v: "b58_valid s" and len: "length s \<le> 128"
    by (auto simp: base58Decode_def b58_accumulate_eq maxBase58Len_def split: if_splits)
  let ?x = "digs_val 58 (rev (b58_digits s))" and ?z = "length (takeWhile (\<lambda>c. c = CHR ''1'') s)"
  have b: "b = replicate ?z 0 @ big_Bytes ?x" using base58_Decode_eq [OF v len] dec by simp
  show ?thesis
    using text_split [OF v] unfolding base58_Encode_eq b big_Bytes_leading big_SetBytes_Bytes by simp
qed

text \<open>
  Base58 text and byte strings correspond one to one: every byte string is recovered from
  its encoding (as long as that is within the decoder's length bound), and every text the
  decoder accepts is the encoding of what it returned, so an address has one spelling.
\<close>

theorem base58_inverse:
  "(length (base58Encode b) \<le> 128 \<longrightarrow> base58Decode (base58Encode b) = Inr b)
    \<and> (base58Decode s = Inr b \<longrightarrow> base58Encode b = s)"
  using base58_decode_encode base58_encode_decode by blast

theorem base58_inverse_witness:
  "base58Decode (base58Encode [0, 1]) = Inr [0, 1] \<and> base58Encode [0, 1] = ''12''"
proof -
  have "base58Encode [0, 1] = ''12''"
    by (simp add: base58Encode_def big_SetBytes_def digs.simps b58Alphabet_def Let_def)
  then show ?thesis using base58_inverse [of "[0, 1]"] by simp
qed

lemma big_SetBytes_bound: "big_SetBytes b < 256 ^ length b"
proof (induction b rule: rev_induct)
  case (snoc x b)
  have "big_SetBytes (b @ [x]) = big_SetBytes b * 256 + unat x" by (simp add: big_SetBytes_def)
  also have "\<dots> < (big_SetBytes b + 1) * 256" using unat_byte_less [of x] by simp
  also have "\<dots> \<le> 256 ^ length b * 256" using snoc by (intro mult_right_mono) auto
  finally show ?case by (simp add: mult.commute)
qed (simp add: big_SetBytes_def)

text \<open>Two base-58 symbols per byte are enough.\<close>

lemma length_base58Encode: "length (base58Encode b) \<le> 3 * length b"
proof -
  have "(256 :: nat) ^ length b \<le> 58 ^ (2 * length b)" unfolding power_mult by (intro power_mono) auto
  then have "length (digs 58 (big_SetBytes b)) \<le> 2 * length b"
    using big_SetBytes_bound [of b] by (intro r58.length_digs) linarith
  moreover have "length (takeWhile (\<lambda>c. c = 0) b) \<le> length b" by (rule length_takeWhile_le)
  ultimately show ?thesis by (simp add: base58_Encode_eq)
qed

lemma length_checksum [simp]: "length (checksum b) = 4"
  by (simp add: checksum_def Let_def)

lemma equal4_refl [simp]: "length a = 4 \<Longrightarrow> equal4 a b \<longleftrightarrow> a = b"
proof -
  assume a: "length a = 4"
  have "a = b \<longleftrightarrow> length b = 4 \<and> (\<forall>i < 4. a ! i = b ! i)" using a by (auto simp: list_eq_iff_nth_eq)
  moreover have "(\<forall>i < 4. a ! i = b ! i) \<longleftrightarrow> a ! 0 = b ! 0 \<and> a ! 1 = b ! 1 \<and> a ! 2 = b ! 2 \<and> a ! 3 = b ! 3"
    by (auto simp: less_Suc_eq numeral_eq_Suc)
  ultimately show ?thesis using a by (auto simp: equal4_def)
qed

lemma base58Check_decode_encode:
  assumes "length payload \<le> 32"
  shows "base58CheckDecode (base58CheckEncode prefix payload) = Inr (prefix, payload)"
proof -
  from assms have "length (base58Encode ((prefix # payload) @ checksum (prefix # payload))) \<le> 128"
    using length_base58Encode [of "(prefix # payload) @ checksum (prefix # payload)"] by simp
  then show "base58CheckDecode (base58CheckEncode prefix payload) = Inr (prefix, payload)"
    using base58_decode_encode [of "(prefix # payload) @ checksum (prefix # payload)"]
    by (simp add: base58CheckEncode_def base58CheckDecode_def Let_def)
qed

lemma base58Check_encode_decode:
  assumes "base58CheckDecode s = Inr (prefix, payload)"
  shows "base58CheckEncode prefix payload = s"
proof -
  from assms obtain raw where raw: "base58Decode s = Inr raw" "\<not> length raw < 5"
      "raw ! 0 = prefix" "drop 1 (take (length raw - 4) raw) = payload"
      "checksum (take (length raw - 4) raw) = drop (length raw - 4) raw"
    by (auto simp: base58CheckDecode_def Let_def split: if_splits)
  then have "take (length raw - 4) raw = prefix # payload"
    by (cases raw; cases "length raw - 4") auto
  with raw(5) have "raw = (prefix # payload) @ checksum (prefix # payload)"
    by (metis append_take_drop_id)
  with base58_encode_decode [OF raw(1)] show "base58CheckEncode prefix payload = s"
    by (simp add: base58CheckEncode_def Let_def)
qed

text \<open>
  Base58Check: a version byte and a payload of at most 32 bytes are recovered from their
  encoding, and a string is accepted only if it is that encoding, checksum included.
\<close>

theorem base58Check_inverse:
  "(length payload \<le> 32 \<longrightarrow> base58CheckDecode (base58CheckEncode prefix payload) = Inr (prefix, payload))
    \<and> (base58CheckDecode s = Inr (prefix, payload) \<longrightarrow> base58CheckEncode prefix payload = s)"
  using base58Check_decode_encode base58Check_encode_decode by blast

theorem base58Check_inverse_witness:
  "base58CheckDecode (base58CheckEncode 5 (replicate 20 7)) = Inr (5, replicate 20 7)"
  using base58Check_inverse [of "replicate 20 7" 5] by simp

end
