(* ===== verification/Bech32.thy ===== *)
theory Bech32
  imports Prelude GoStrings
begin

text \<open>
  Segwit addresses (\<^verbatim>\<open>coins/bech32.go\<close>) and CashAddr (\<^verbatim>\<open>coins/cashaddr.go\<close>). The two checksums
  are the same construction over different generators and widths: the locale \<open>bch_code\<close> proves
  once that the register is linear and that appending the created symbols verifies, and both
  codecs interpret it. Regrouping of bits is proved against the plain bit sequence. The
  registers stay below \<open>2 ^ 40\<close>, so Go's 64-bit integers are plain integers here; only the
  accumulator of \<^verbatim>\<open>convertBits\<close> grows past 64 bits, and its wrap is written out. Text is ASCII.
\<close>

unbundle bit_operations_syntax

section \<open>Symbols and checksums\<close>

definition bech32Const :: int where "bech32Const = 1"
definition bech32mConst :: int where "bech32mConst = 0x2bc"

definition bech32Charset :: string where
  "bech32Charset = ''qpzry9x8gf2tvdw0s3jn54khce6mua7l''"

definition bech32CharsetIdx :: "char \<Rightarrow> int" where
  "bech32CharsetIdx c = (case IndexByte bech32Charset c of Some i \<Rightarrow> int i | None \<Rightarrow> - 1)"

text \<open>The inner loop over the five generators, shared in shape by both registers.\<close>

fun feedback :: "int list \<Rightarrow> nat \<Rightarrow> int \<Rightarrow> int \<Rightarrow> int" where
  "feedback [] i b chk = chk"
| "feedback (g # gs) i b chk = feedback gs (i + 1) b (if (drop_bit i b) AND 1 = 1 then chk XOR g else chk)"

definition bech32_gen :: "int list" where
  "bech32_gen = [0x3b6a57b2, 0x26508e6d, 0x1ea119fa, 0x3d4233dd, 0x2a1462b3]"

fun bech32_register :: "int list \<Rightarrow> int \<Rightarrow> int" where
  "bech32_register [] chk = chk"
| "bech32_register (v # vs) chk = (let b = drop_bit 25 chk; chk = push_bit 5 (chk AND 0x1ffffff) XOR v
     in bech32_register vs (feedback bech32_gen 0 b chk))"

definition bech32Polymod :: "int list \<Rightarrow> int" where
  "bech32Polymod values = bech32_register values 1"

definition bech32HRPExpand :: "string \<Rightarrow> int list" where
  "bech32HRPExpand hrp = map (\<lambda>c. drop_bit 5 (of_char c)) hrp @ [0] @ map (\<lambda>c. of_char c AND 0x1f) hrp"

definition bech32CreateChecksum :: "string \<Rightarrow> int list \<Rightarrow> int \<Rightarrow> int list" where
  "bech32CreateChecksum hrp data c = (let values = bech32HRPExpand hrp @ data;
       values = values @ [0, 0, 0, 0, 0, 0]; polymod = bech32Polymod values XOR c
     in map (\<lambda>i. (drop_bit (5 * (5 - i)) polymod) AND 31) [0..<6])"

definition bech32VerifyChecksum :: "string \<Rightarrow> int list \<Rightarrow> int \<Rightarrow> bool" where
  "bech32VerifyChecksum hrp data c \<longleftrightarrow> (let values = bech32HRPExpand hrp @ data in bech32Polymod values = c)"

definition cashaddrGenerator :: "int list" where
  "cashaddrGenerator = [0x98f2bc8e61, 0x79b76d99e2, 0xf33e5fb3c4, 0xae2eabe2a8, 0x1e4f43e470]"

fun cashaddr_register :: "int list \<Rightarrow> int \<Rightarrow> int" where
  "cashaddr_register [] c = c"
| "cashaddr_register (d # ds) c = (let c0 = drop_bit 35 c; c = push_bit 5 (c AND 0x07ffffffff) XOR d
     in cashaddr_register ds (feedback cashaddrGenerator 0 c0 c))"

definition cashaddrPolymod :: "int list \<Rightarrow> int" where
  "cashaddrPolymod values = cashaddr_register values 1"

definition cashaddrHRPExpand :: "string \<Rightarrow> int list" where
  "cashaddrHRPExpand hrp = map (\<lambda>c. of_char c AND 0x1f) hrp @ [0]"

definition cashaddrCreateChecksum :: "string \<Rightarrow> int list \<Rightarrow> int list" where
  "cashaddrCreateChecksum prefix payload = (let data = cashaddrHRPExpand prefix @ payload;
       data = data @ [0, 0, 0, 0, 0, 0, 0, 0]; poly = cashaddrPolymod data XOR 1
     in map (\<lambda>i. (drop_bit (5 * (7 - i)) poly) AND 31) [0..<8])"

definition cashaddrVerifyChecksum :: "string \<Rightarrow> int list \<Rightarrow> bool" where
  "cashaddrVerifyChecksum prefix full \<longleftrightarrow> (let data = cashaddrHRPExpand prefix @ full in cashaddrPolymod data = 1)"

section \<open>Regrouping bits\<close>

definition wrap64 :: "int \<Rightarrow> int" where
  "wrap64 x = (x + 2 ^ 63) mod 2 ^ 64 - 2 ^ 63"

text \<open>The inner loop that emits groups while enough bits are there.\<close>

function emit_groups :: "int \<Rightarrow> nat \<Rightarrow> nat \<Rightarrow> int list \<Rightarrow> int list \<times> nat" where
  "emit_groups acc bits toBits out = (if toBits \<le> bits \<and> 0 < toBits
     then emit_groups acc (bits - toBits) toBits (out @ [(drop_bit (bits - toBits) acc) AND (2 ^ toBits - 1)])
     else (out, bits))"
  by pat_completeness auto
termination
  by (relation "measure (\<lambda>(acc, bits, toBits, out). bits)") auto

declare emit_groups.simps [simp del]

fun convert_loop :: "int list \<Rightarrow> nat \<Rightarrow> nat \<Rightarrow> int \<Rightarrow> nat \<Rightarrow> int list \<Rightarrow> (int \<times> nat \<times> int list) go" where
  "convert_loop [] fromBits toBits acc bits out = Inr (acc, bits, out)"
| "convert_loop (v # vs) fromBits toBits acc bits out = (
     if v < 0 \<or> drop_bit fromBits v \<noteq> 0 then Inl (GoErr ''coins: invalid bech32 data range'')
     else let acc = wrap64 (push_bit fromBits acc) OR v;
              (out, bits) = emit_groups acc (bits + fromBits) toBits out
       in convert_loop vs fromBits toBits acc bits out)"

definition convertBits :: "int list \<Rightarrow> nat \<Rightarrow> nat \<Rightarrow> bool \<Rightarrow> int list go" where
  "convertBits data fromBits toBits pad = go_bind (convert_loop data fromBits toBits 0 0 []) (\<lambda>(acc, bits, out).
     let maxv = 2 ^ toBits - 1 in
     if pad then Inr (if bits > 0 then out @ [wrap64 (push_bit (toBits - bits) acc) AND maxv] else out)
     else if bits \<ge> fromBits \<or> wrap64 (push_bit (toBits - bits) acc) AND maxv \<noteq> 0
       then Inl (GoErr ''coins: invalid bech32 padding'')
     else Inr out)"

definition bytesToInts :: "bytes \<Rightarrow> int list" where
  "bytesToInts b = map uint b"

definition intsToBytes :: "int list \<Rightarrow> bytes" where
  "intsToBytes xs = map word_of_int xs"

section \<open>Segwit addresses\<close>

definition charset_text :: "int list \<Rightarrow> string" where
  "charset_text vs = map (\<lambda>v. bech32Charset ! nat v) vs"

definition bech32Encode :: "string \<Rightarrow> int \<Rightarrow> bytes \<Rightarrow> string go" where
  "bech32Encode hrp witnessVersion program = (
     if witnessVersion < 0 \<or> witnessVersion > 16 then Inl (GoErr ''coins: invalid witness version'')
     else if length program < 2 \<or> length program > 40 then Inl (GoErr ''coins: invalid witness program length'')
     else go_bind (convertBits (bytesToInts program) 8 5 True) (\<lambda>prog.
       let data = [witnessVersion] @ prog;
           cc = (if witnessVersion \<ge> 1 then bech32mConst else bech32Const);
           cs = bech32CreateChecksum hrp data cc;
           full = data @ cs
       in Inr (hrp @ ''1'' @ charset_text full)))"

fun symbols :: "string \<Rightarrow> int list go" where
  "symbols [] = Inr []"
| "symbols (c # s) = (if bech32CharsetIdx c < 0 then Inl (GoErr ''coins: invalid bech32 symbol'')
     else go_bind (symbols s) (\<lambda>r. Inr (bech32CharsetIdx c # r)))"

definition LastIndex1 :: "string \<Rightarrow> int" where
  "LastIndex1 s = (case IndexByte (rev s) (CHR ''1'') of None \<Rightarrow> - 1 | Some i \<Rightarrow> int (length s) - 1 - int i)"

definition ToUpper :: "string \<Rightarrow> string" where
  "ToUpper s = map upper_char s"

definition bech32Decode :: "string \<Rightarrow> (string \<times> int \<times> bytes) go" where
  "bech32Decode addr = (
     if length addr < 8 \<or> length addr > 90 then Inl (GoErr ''coins: invalid bech32 length'')
     else let lower = ToLower addr; upper = ToUpper addr in
       if lower \<noteq> addr \<and> upper \<noteq> addr then Inl (GoErr ''coins: bech32 mixed case'')
       else let s = lower; pos = LastIndex1 s in
         if pos < 1 \<or> pos + 7 > int (length s) then Inl (GoErr ''coins: missing bech32 separator'')
         else let hrp = take (nat pos) s in
           go_bind (symbols (drop (nat pos + 1) s)) (\<lambda>data.
             if \<not> bech32VerifyChecksum hrp data bech32Const \<and> \<not> bech32VerifyChecksum hrp data bech32mConst
             then Inl (GoErr ''coins: bech32 checksum mismatch'')
             else let data = take (length data - 6) data in
               if data = [] then Inl (GoPanic ''slice bounds out of range'')
               else go_bind (convertBits (tl data) 5 8 False) (\<lambda>prog5.
                 let witnessVersion = hd data in
                 if witnessVersion < 0 \<or> witnessVersion > 16 then Inl (GoErr ''coins: invalid witness version'')
                 else Inr (hrp, witnessVersion, intsToBytes prog5))))"

section \<open>CashAddr\<close>

definition cashaddrSizeIndex :: "nat \<Rightarrow> int go" where
  "cashaddrSizeIndex n = (if n = 20 then Inr 0 else if n = 24 then Inr 1 else if n = 28 then Inr 2
     else if n = 32 then Inr 3 else Inl (GoErr ''coins: cashaddr unsupported hash length''))"

definition cashaddrLenFromIndex :: "int \<Rightarrow> nat option" where
  "cashaddrLenFromIndex i = (if i = 0 then Some 20 else if i = 1 then Some 24 else if i = 2 then Some 28
     else if i = 3 then Some 32 else None)"

definition cashaddrEncode :: "string \<Rightarrow> int \<Rightarrow> bytes \<Rightarrow> string go" where
  "cashaddrEncode prefix hashType hash = (
     if hashType \<noteq> 0 \<and> hashType \<noteq> 1 then Inl (GoErr ''coins: cashaddr invalid hash type'')
     else go_bind (cashaddrSizeIndex (length hash)) (\<lambda>sizeIdx.
       let version = push_bit 3 hashType OR sizeIdx in
       go_bind (convertBits (version # bytesToInts hash) 8 5 True) (\<lambda>payload.
         let cs = cashaddrCreateChecksum prefix payload; full = payload @ cs
         in Inr (prefix @ '':'' @ charset_text full))))"

fun cash_symbols :: "string \<Rightarrow> int list go" where
  "cash_symbols [] = Inr []"
| "cash_symbols (c # s) = (case IndexByte bech32Charset c of
     None \<Rightarrow> Inl (GoErr ''coins: cashaddr invalid symbol'')
   | Some idx \<Rightarrow> go_bind (cash_symbols s) (\<lambda>r. Inr (int idx # r)))"

definition cashaddrDecode :: "string \<Rightarrow> string \<Rightarrow> (int \<times> bytes) go" where
  "cashaddrDecode addr wantPrefix = (
     if length addr < 8 \<or> length addr > 110 then Inl (GoErr ''coins: invalid cashaddr length'')
     else let lower = ToLower addr; upper = ToUpper addr in
       if lower \<noteq> addr \<and> upper \<noteq> addr then Inl (GoErr ''coins: cashaddr mixed case'')
       else case IndexByte lower (CHR '':'') of
         None \<Rightarrow> Inl (GoErr ''coins: cashaddr missing separator'')
       | Some pos \<Rightarrow>
         if pos < 1 then Inl (GoErr ''coins: cashaddr missing separator'')
         else let prefix = take pos lower in
           if wantPrefix \<noteq> [] \<and> prefix \<noteq> wantPrefix then Inl (GoErr ''coins: cashaddr prefix does not match'')
           else go_bind (cash_symbols (drop (pos + 1) lower)) (\<lambda>data.
             if \<not> cashaddrVerifyChecksum prefix data then Inl (GoErr ''coins: cashaddr checksum mismatch'')
             else if length data < 8 then Inl (GoPanic ''slice bounds out of range'')
             else go_bind (convertBits (take (length data - 8) data) 5 8 False) (\<lambda>decoded.
               case decoded of [] \<Rightarrow> Inl (GoPanic ''index out of range'') | version # rest \<Rightarrow>
               let hashType = drop_bit 3 version; sizeIdx = version AND 0x07 in
               case cashaddrLenFromIndex sizeIdx of
                 None \<Rightarrow> Inl (GoErr ''coins: cashaddr invalid hash size index'')
               | Some hashLenBytes \<Rightarrow>
                 if hashType \<noteq> 0 \<and> hashType \<noteq> 1 then Inl (GoErr ''coins: cashaddr invalid hash type'')
                 else if length decoded \<noteq> 1 + hashLenBytes then Inl (GoErr ''coins: cashaddr unexpected payload length'')
                 else Inr (hashType, intsToBytes (take hashLenBytes rest)))))"

section \<open>The checksum register\<close>

text \<open>The contribution of the feedback, and the register for any width \<open>W\<close> and generators.\<close>

fun fb :: "int list \<Rightarrow> nat \<Rightarrow> int \<Rightarrow> int" where
  "fb [] i b = 0"
| "fb (g # gs) i b = (if bit b i then g else 0) XOR fb gs (i + 1) b"

fun pm_reg :: "nat \<Rightarrow> int list \<Rightarrow> int list \<Rightarrow> int \<Rightarrow> int" where
  "pm_reg W gs [] c = c"
| "pm_reg W gs (v # vs) c = pm_reg W gs vs ((push_bit 5 (take_bit W c) XOR v) XOR fb gs 0 (drop_bit W c))"

lemma drop_and_one: "(drop_bit i (b :: int)) AND 1 = 1 \<longleftrightarrow> bit b i"
  by (simp add: and_one_eq odd_iff_mod_2_eq_one [symmetric] bit_iff_odd_drop_bit)

lemma feedback_fb: "feedback gs i b chk = chk XOR fb gs i b"
  by (induction gs arbitrary: i chk) (simp_all add: drop_and_one xor.assoc)

lemma fb_xor: "fb gs i (a XOR b) = fb gs i a XOR fb gs i b"
proof (induction gs arbitrary: i)
  case (Cons g gs)
  have "(if bit (a XOR b) i then g else 0) = (if bit a i then g else 0) XOR (if bit b i then g else 0)"
    by (simp add: bit_xor_iff)
  with Cons show ?case by (simp add: xor.assoc xor.left_commute)
qed simp

lemma fb_0 [simp]: "fb gs i 0 = 0"
  by (induction gs arbitrary: i) auto

lemma bech32_register_eq: "bech32_register vs c = pm_reg 25 bech32_gen vs c"
  by (induction vs arbitrary: c) (simp_all add: feedback_fb Let_def take_bit_eq_mask mask_eq_exp_minus_1)

lemma cashaddr_register_eq: "cashaddr_register vs c = pm_reg 35 cashaddrGenerator vs c"
  by (induction vs arbitrary: c) (simp_all add: feedback_fb Let_def take_bit_eq_mask mask_eq_exp_minus_1)

lemma pm_reg_append: "pm_reg W gs (us @ vs) c = pm_reg W gs vs (pm_reg W gs us c)"
  by (induction us arbitrary: c) auto

text \<open>Symbols packed into one number, five bits each, and unpacked again.\<close>

definition pack :: "int list \<Rightarrow> int" where
  "pack vs = foldl (\<lambda>a v. push_bit 5 a XOR v) 0 vs"

lemma pack_snoc [simp]: "pack (vs @ [v]) = push_bit 5 (pack vs) XOR v"
  by (simp add: pack_def)

definition unpack :: "nat \<Rightarrow> int \<Rightarrow> int list" where
  "unpack k p = map (\<lambda>i. (drop_bit (5 * (k - 1 - i)) p) AND 31) [0..<k]"

definition fits :: "nat \<Rightarrow> int \<Rightarrow> bool" where
  "fits n x \<longleftrightarrow> take_bit n x = x"

lemma fits_xor: "fits n x \<Longrightarrow> fits n y \<Longrightarrow> fits n (x XOR y)"
  by (simp add: fits_def)

lemma fits_mono: "fits m x \<Longrightarrow> m \<le> n \<Longrightarrow> fits n x"
  unfolding fits_def by (metis min.absorb2 take_bit_take_bit)

lemma fits_push: "fits n x \<Longrightarrow> fits (n + k) (push_bit k x)"
  by (simp add: fits_def take_bit_push_bit)

lemma fits_0 [simp]: "fits n 0"
  by (simp add: fits_def)

lemma fits_drop: "fits (n + k) x \<Longrightarrow> fits n (drop_bit k x)"
  by (simp add: fits_def take_bit_drop_bit)

lemma fits_less: "fits n x \<longleftrightarrow> 0 \<le> x \<and> x < 2 ^ n"
  by (simp add: fits_def take_bit_int_eq_self_iff)

lemma and31: "(x :: int) AND 31 = take_bit 5 x"
  by (simp add: take_bit_eq_mask mask_eq_exp_minus_1)

lemma push_drop_xor_take: "push_bit n (drop_bit n (x :: int)) XOR take_bit n x = x"
  by (rule bit_eqI) (auto simp: bit_simps)

lemma pack_unpack: "fits (5 * k) p \<Longrightarrow> pack (unpack k p) = p"
proof (induction k arbitrary: p)
  case 0
  then show ?case by (simp add: pack_def unpack_def fits_def)
next
  case (Suc k)
  have "(drop_bit (5 * (Suc k - 1 - i)) p) AND 31 = (drop_bit (5 * (k - 1 - i)) (drop_bit 5 p)) AND 31" if "i < k" for i
    using that by (simp add: drop_bit_drop_bit algebra_simps)
  then have u: "unpack (Suc k) p = unpack k (drop_bit 5 p) @ [p AND 31]"
    by (simp add: unpack_def)
  have "fits (5 * k) (drop_bit 5 p)" using Suc.prems by (intro fits_drop) (simp add: add.commute)
  with Suc.IH u show ?case by (simp add: and31 push_drop_xor_take)
qed

lemma fits_unpack: "\<forall>v \<in> set (unpack k p). fits 5 v"
  by (auto simp: unpack_def fits_def and31)

lemma length_unpack [simp]: "length (unpack k p) = k"
  by (simp add: unpack_def)

locale bch_code =
  fixes W :: nat and gs :: "int list"
  assumes gens_fit: "g \<in> set gs \<Longrightarrow> fits (W + 5) g"
begin

lemma reg_step_linear:
  "pm_reg W gs [u XOR v] (a XOR b) = pm_reg W gs [u] a XOR pm_reg W gs [v] b"
  by (simp add: take_bit_xor push_bit_xor drop_bit_xor fb_xor xor.assoc xor.left_commute)

lemma reg_step_small: "fits W y \<Longrightarrow> pm_reg W gs [v] y = push_bit 5 y XOR v"
proof -
  assume "fits W y"
  then have "take_bit W y = y" and "drop_bit W y = 0"
    by (simp add: fits_def) (simp add: \<open>fits W y\<close> [unfolded fits_less] drop_bit_eq_div)
  then show ?thesis by simp
qed

lemma fits_fb: "set hs \<subseteq> set gs \<Longrightarrow> fits (W + 5) (fb hs i b)"
proof (induction hs arbitrary: i)
  case (Cons h hs)
  then have "fits (W + 5) (if bit b i then h else 0)" using gens_fit by simp
  with Cons show ?case by (simp only: fb.simps) (intro fits_xor; simp)
qed simp

lemma fits_reg: "fits (W + 5) c \<Longrightarrow> \<forall>v \<in> set vs. fits 5 v \<Longrightarrow> fits (W + 5) (pm_reg W gs vs c)"
proof (induction vs arbitrary: c)
  case (Cons v vs)
  have "fits (W + 5) (push_bit 5 (take_bit W c))" by (rule fits_push) (simp add: fits_def)
  moreover have "fits (W + 5) v" using Cons.prems(2) fits_mono [of 5 v "W + 5"] by simp
  ultimately have "fits (W + 5) ((push_bit 5 (take_bit W c) XOR v) XOR fb gs 0 (drop_bit W c))"
    by (intro fits_xor fits_fb) auto
  with Cons show ?case by simp
qed simp

text \<open>Feeding symbols is feeding zeros and adding the packed symbols, while they fit.\<close>

lemma reg_symbols:
  assumes "\<forall>v \<in> set vs. fits 5 v" and "5 * length vs \<le> W + 5"
  shows "pm_reg W gs vs x = pm_reg W gs (replicate (length vs) 0) x XOR pack vs \<and> fits (5 * length vs) (pack vs)"
  using assms
proof (induction vs rule: rev_induct)
  case (snoc v vs)
  let ?z = "pm_reg W gs (replicate (length vs) 0) x"
  have IH: "pm_reg W gs vs x = ?z XOR pack vs" "fits (5 * length vs) (pack vs)" using snoc by auto
  then have "fits W (pack vs)" using snoc.prems(2) fits_mono by fastforce
  then have "pm_reg W gs [v] (pack vs) = push_bit 5 (pack vs) XOR v" by (rule reg_step_small)
  then have "pm_reg W gs [0 XOR v] (?z XOR pack vs) = pm_reg W gs [0] ?z XOR pack (vs @ [v])"
    unfolding reg_step_linear by simp
  moreover have "replicate (length (vs @ [v])) (0 :: int) = replicate (length vs) 0 @ [0]"
    by (simp add: replicate_append_same)
  moreover have "fits (5 * length vs + 5) (push_bit 5 (pack vs) XOR v)"
    using IH(2) snoc.prems(1) fits_mono [of 5 v] by (intro fits_xor fits_push) auto
  ultimately show ?case using IH(1) by (simp add: pm_reg_append del: replicate.simps) (simp add: add.commute)
qed (simp add: pack_def)

lemma create_verifies:
  assumes "5 * k = W + 5" and "\<forall>v \<in> set vs. fits 5 v" and "fits (W + 5) x" and "fits (W + 5) c"
  shows "pm_reg W gs (vs @ unpack k (pm_reg W gs (vs @ replicate k 0) x XOR c)) x = c"
proof -
  let ?p = "pm_reg W gs (vs @ replicate k 0) x XOR c"
  have "fits (W + 5) ?p" using assms(2-4) by (intro fits_xor fits_reg) auto
  then have p: "pack (unpack k ?p) = ?p" using assms(1) by (intro pack_unpack) simp
  have "pm_reg W gs (unpack k ?p) (pm_reg W gs vs x)
      = pm_reg W gs (replicate k 0) (pm_reg W gs vs x) XOR ?p"
    using reg_symbols [OF fits_unpack] assms(1) p by simp
  also have "\<dots> = c" by (simp add: pm_reg_append flip: xor.assoc)
  finally show ?thesis by (simp add: pm_reg_append)
qed

end

interpretation b32: bch_code 25 bech32_gen
  by unfold_locales (auto simp: bech32_gen_def fits_less)

interpretation bcash: bch_code 35 cashaddrGenerator
  by unfold_locales (auto simp: cashaddrGenerator_def fits_less)

section \<open>Regrouping is a change of grouping only\<close>

definition to_bits :: "nat \<Rightarrow> int \<Rightarrow> bool list" where
  "to_bits w v = map (bit v) (rev [0..<w])"

definition bit_stream :: "nat \<Rightarrow> int list \<Rightarrow> bool list" where
  "bit_stream w vs = concat (map (to_bits w) vs)"

lemma length_to_bits [simp]: "length (to_bits w v) = w"
  by (simp add: to_bits_def)

lemma length_bit_stream [simp]: "length (bit_stream w vs) = w * length vs"
  by (induction vs) (auto simp: bit_stream_def)

lemma bit_stream_simps [simp]:
  "bit_stream w [] = []" "bit_stream w (v # vs) = to_bits w v @ bit_stream w vs"
  "bit_stream w (us @ vs) = bit_stream w us @ bit_stream w vs"
  by (simp_all add: bit_stream_def)

lemma to_bits_cong: "(\<And>i. i < w \<Longrightarrow> bit u i = bit v i) \<Longrightarrow> to_bits w u = to_bits w v"
  by (simp add: to_bits_def)

lemma to_bits_inj:
  assumes "to_bits w u = to_bits w v" and "fits w u" and "fits w v"
  shows "u = v"
proof -
  have "\<forall>i < w. bit u i = bit v i" using assms(1) by (auto simp: to_bits_def)
  then have "take_bit w u = take_bit w v" by (intro bit_eqI) (auto simp: bit_take_bit_iff)
  with assms(2,3) show ?thesis by (simp add: fits_def)
qed

lemma to_bits_split: "to_bits (a + b) v = to_bits a (drop_bit b v) @ to_bits b v"
proof (rule nth_equalityI)
  fix i assume i: "i < length (to_bits (a + b) v)"
  show "to_bits (a + b) v ! i = (to_bits a (drop_bit b v) @ to_bits b v) ! i"
  proof (cases "i < a")
    case True
    then show ?thesis using i by (simp add: to_bits_def nth_append rev_nth bit_drop_bit_eq algebra_simps)
  next
    case False
    then show ?thesis using i by (simp add: to_bits_def nth_append rev_nth add.commute)
  qed
qed simp

lemma to_bits_mask: "to_bits w (x AND (2 ^ w - 1)) = to_bits w x"
  by (rule to_bits_cong) (simp add: bit_and_iff bit_mask_iff flip: mask_eq_exp_minus_1)

lemma fits_mask: "fits w (x AND (2 ^ w - 1))"
  by (simp add: fits_def take_bit_eq_mask mask_eq_exp_minus_1 and.assoc)

lemma bit_stream_inj:
  assumes "bit_stream w us = bit_stream w vs" and "\<forall>u \<in> set us. fits w u" and "\<forall>v \<in> set vs. fits w v"
    and "length us = length vs"
  shows "us = vs"
  using assms(4,1-3)
proof (induction us vs rule: list_induct2)
  case (Cons u us v vs)
  then show ?case using to_bits_inj by auto
qed simp

lemma wrap64_bits:
  assumes "i < 64"
  shows "bit (wrap64 x) i = bit x i"
proof -
  have "wrap64 x mod 2 ^ 64 = (x + 2 ^ 63 - 2 ^ 63) mod 2 ^ 64"
    unfolding wrap64_def by (rule mod_diff_left_eq)
  then have "take_bit 64 (wrap64 x) = take_bit 64 x" by (simp only: take_bit_eq_mod add_diff_cancel_right')
  then have "bit (take_bit 64 (wrap64 x)) i = bit (take_bit 64 x) i" by (simp only:)
  then show ?thesis using assms by (simp only: bit_take_bit_iff simp_thms)
qed

lemma emit_groups_stream:
  assumes "emit_groups acc bits w out = (out', bits')" and "0 < w"
  shows "bit_stream w out' @ to_bits bits' acc = bit_stream w out @ to_bits bits acc
    \<and> bits' < w \<and> ((\<forall>v \<in> set out. fits w v) \<longrightarrow> (\<forall>v \<in> set out'. fits w v))"
  using assms
proof (induction acc bits w out rule: emit_groups.induct)
  case (1 acc bits w out)
  show ?case
  proof (cases "w \<le> bits")
    case True
    let ?g = "(drop_bit (bits - w) acc) AND (2 ^ w - 1)"
    have step: "emit_groups acc bits w out = emit_groups acc (bits - w) w (out @ [?g])"
      by (subst emit_groups.simps) (simp only: True 1(3) simp_thms if_True)
    have cond: "w \<le> bits \<and> 0 < w" using True 1(3) by simp
    from 1(1) [OF cond 1(2) [unfolded step] 1(3)]
    have IH: "bit_stream w out' @ to_bits bits' acc = bit_stream w (out @ [?g]) @ to_bits (bits - w) acc"
      "bits' < w" "(\<forall>v \<in> set (out @ [?g]). fits w v) \<longrightarrow> (\<forall>v \<in> set out'. fits w v)"
      by blast+
    moreover have "to_bits bits acc = to_bits w ?g @ to_bits (bits - w) acc"
      using to_bits_split [of w "bits - w" acc] True by (simp add: to_bits_mask)
    moreover have "fits w ?g" by (rule fits_mask)
    ultimately show ?thesis by simp
  next
    case False
    have "emit_groups acc bits w out = (out, bits)"
      by (subst emit_groups.simps) (simp only: False simp_thms if_False)
    with 1(2) False show ?thesis by simp
  qed
qed

lemma shift_in:
  assumes "bits + f < 64" and "fits f v"
  shows "to_bits (bits + f) (wrap64 (push_bit f acc) OR v) = to_bits bits acc @ to_bits f v"
proof -
  have v: "bit v i = (bit v i \<and> i < f)" for i
    using assms(2) by (metis bit_take_bit_iff fits_def)
  have "to_bits bits (drop_bit f (wrap64 (push_bit f acc) OR v)) = to_bits bits acc"
  proof (rule to_bits_cong)
    fix i assume "i < bits"
    then have "bit (wrap64 (push_bit f acc)) (f + i) = bit acc i"
      using assms(1) by (simp add: wrap64_bits bit_push_bit_iff)
    then show "bit (drop_bit f (wrap64 (push_bit f acc) OR v)) i = bit acc i"
      using v [of "f + i"] by (simp add: bit_drop_bit_eq bit_or_iff)
  qed
  moreover have "to_bits f (wrap64 (push_bit f acc) OR v) = to_bits f v"
    using assms(1) by (intro to_bits_cong) (simp add: bit_or_iff wrap64_bits bit_push_bit_iff)
  ultimately show ?thesis by (simp add: to_bits_split)
qed

lemma convert_loop_stream:
  assumes "\<forall>v \<in> set vs. fits f v" and "0 < w" and "w + f \<le> 64" and "bits < w" and "\<forall>v \<in> set out. fits w v"
  shows "\<exists>acc' bits' out'. convert_loop vs f w acc bits out = Inr (acc', bits', out') \<and> bits' < w
    \<and> (\<forall>v \<in> set out'. fits w v)
    \<and> bit_stream w out' @ to_bits bits' acc' = bit_stream w out @ to_bits bits acc @ bit_stream f vs"
  using assms
proof (induction vs arbitrary: acc bits out)
  case (Cons v vs)
  have v: "fits f v" using Cons.prems(1) by simp
  then have guard: "\<not> (v < 0 \<or> drop_bit f v \<noteq> 0)" by (simp add: fits_less drop_bit_eq_div)
  let ?acc = "wrap64 (push_bit f acc) OR v"
  obtain out1 bits1 where e: "emit_groups ?acc (bits + f) w out = (out1, bits1)" by fastforce
  have s: "bit_stream w out1 @ to_bits bits1 ?acc = bit_stream w out @ to_bits bits acc @ to_bits f v"
      "bits1 < w" "\<forall>v \<in> set out1. fits w v"
    using emit_groups_stream [OF e Cons.prems(2)] shift_in [OF _ v, of bits acc] Cons.prems by auto
  from Cons.IH [OF _ Cons.prems(2,3) s(2,3), of ?acc] Cons.prems(1)
  obtain acc' bits' out' where r: "convert_loop vs f w ?acc bits1 out1 = Inr (acc', bits', out')" "bits' < w"
      "\<forall>v \<in> set out'. fits w v"
      "bit_stream w out' @ to_bits bits' acc' = bit_stream w out1 @ to_bits bits1 ?acc @ bit_stream f vs"
    by auto
  have "bit_stream w out' @ to_bits bits' acc' = bit_stream w out @ to_bits bits acc @ bit_stream f (v # vs)"
    using r(4) s(1) by (metis append_assoc bit_stream_simps(2))
  with r guard e show ?case by simp
qed auto

lemma to_bits_zero: "to_bits w 0 = replicate w False"
  by (rule nth_equalityI) (simp_all add: to_bits_def)

text \<open>The last, padded group.\<close>

lemma pad_group:
  assumes "bits < w" and "w < 64"
  shows "to_bits w (wrap64 (push_bit (w - bits) acc) AND (2 ^ w - 1)) = to_bits bits acc @ replicate (w - bits) False"
proof -
  have "to_bits w (wrap64 (push_bit (w - bits) acc)) = to_bits (bits + (w - bits)) (wrap64 (push_bit (w - bits) acc) OR 0)"
    using assms by simp
  also have "\<dots> = to_bits bits acc @ to_bits (w - bits) 0"
    using assms by (intro shift_in) auto
  finally show ?thesis by (simp add: to_bits_mask to_bits_zero)
qed

lemma convert_pad:
  assumes "\<forall>v \<in> set data. fits 8 v"
  shows "\<exists>out p. convertBits data 8 5 True = Inr out \<and> (\<forall>v \<in> set out. fits 5 v) \<and> p < 5
    \<and> bit_stream 5 out = bit_stream 8 data @ replicate p False"
proof -
  obtain acc bits out where l: "convert_loop data 8 5 0 0 [] = Inr (acc, bits, out)" "bits < 5"
      "\<forall>v \<in> set out. fits 5 v" "bit_stream 5 out @ to_bits bits acc = bit_stream 8 data"
    using convert_loop_stream [OF assms, of 5 0 "[]" 0] by (auto simp: to_bits_def)
  show ?thesis
  proof (cases "bits = 0")
    case True
    with l show ?thesis by (auto simp: convertBits_def to_bits_def)
  next
    case False
    let ?g = "wrap64 (push_bit (5 - bits) acc) AND (2 ^ 5 - 1)"
    have "to_bits 5 ?g = to_bits bits acc @ replicate (5 - bits) False"
      using l(2) by (intro pad_group) auto
    then have "bit_stream 5 (out @ [?g]) = bit_stream 8 data @ replicate (5 - bits) False"
      by (simp add: l(4) [symmetric])
    moreover have "fits 5 ?g" by (rule fits_mask)
    moreover have "convertBits data 8 5 True = Inr (out @ [?g])"
      using l(1) False by (simp add: convertBits_def)
    ultimately show ?thesis using l(3) False by (intro exI [of _ "out @ [?g]"] exI [of _ "5 - bits"]) auto
  qed
qed

lemma convert_unpad:
  assumes "\<forall>v \<in> set xs. fits 5 v" and "\<forall>v \<in> set data. fits 8 v" and "p < 5"
    and "bit_stream 5 xs = bit_stream 8 data @ replicate p False"
  shows "convertBits xs 5 8 False = Inr data"
proof -
  obtain acc bits out where l: "convert_loop xs 5 8 0 0 [] = Inr (acc, bits, out)" "bits < 8"
      "\<forall>v \<in> set out. fits 8 v" "bit_stream 8 out @ to_bits bits acc = bit_stream 8 data @ replicate p False"
    using convert_loop_stream [OF assms(1), of 8 0 "[]" 0] assms(4) by (auto simp: to_bits_def)
  have "8 * length out + bits = 8 * length data + p"
    using arg_cong [OF l(4), of length] by simp
  then have len: "length out = length data" "bits = p" using l(2) assms(3) by presburger+
  then have "bit_stream 8 out = bit_stream 8 data" "to_bits bits acc = replicate p False"
    using l(4) by (simp_all add: append_eq_append_conv)
  then have "out = data" using bit_stream_inj l(3) assms(2) len by blast
  have "to_bits 8 (wrap64 (push_bit (8 - bits) acc) AND (2 ^ 8 - 1)) = to_bits 8 0"
    using pad_group [of bits 8 acc] l(2) \<open>to_bits bits acc = replicate p False\<close> len(2)
    by (simp add: to_bits_zero replicate_add [symmetric] del: replicate_add)
  then have "wrap64 (push_bit (8 - bits) acc) AND (2 ^ 8 - 1) = 0"
    by (rule to_bits_inj [OF _ fits_mask fits_0])
  with l(1) len assms(3) \<open>out = data\<close> show ?thesis by (simp add: convertBits_def)
qed

section \<open>Text\<close>

lemma charset_facts: "length bech32Charset = 32" "distinct bech32Charset"
  by (simp_all add: bech32Charset_def)

lemma charset_nth:
  assumes "fits 5 v"
  shows "IndexByte bech32Charset (bech32Charset ! nat v) = Some (nat v)"
    and "bech32Charset ! nat v \<in> set bech32Charset"
  using assms IndexByte_nth [OF charset_facts(2), of "nat v"]
  by (auto simp: fits_less charset_facts nat_less_iff)

lemma charset_chars:
  assumes "c \<in> set bech32Charset"
  shows "lower_char c = c \<and> c \<noteq> CHR ''1'' \<and> c \<noteq> CHR '':''"
proof -
  have "list_all (\<lambda>c. lower_char c = c \<and> c \<noteq> CHR ''1'' \<and> c \<noteq> CHR '':'') bech32Charset"
    by (simp add: bech32Charset_def lower_char_def)
  with assms show ?thesis by (simp add: list_all_iff)
qed

lemma symbols_text: "\<forall>v \<in> set vs. fits 5 v \<Longrightarrow> symbols (charset_text vs) = Inr vs"
  by (induction vs) (auto simp: charset_text_def bech32CharsetIdx_def charset_nth fits_less)

lemma cash_symbols_text: "\<forall>v \<in> set vs. fits 5 v \<Longrightarrow> cash_symbols (charset_text vs) = Inr vs"
  by (induction vs) (auto simp: charset_text_def charset_nth fits_less)

lemma text_chars: "\<forall>v \<in> set vs. fits 5 v \<Longrightarrow> set (charset_text vs) \<subseteq> set bech32Charset"
  by (auto simp: charset_text_def charset_nth)

lemma ToLower_text: "\<forall>v \<in> set vs. fits 5 v \<Longrightarrow> ToLower (charset_text vs) = charset_text vs"
  unfolding ToLower_def using text_chars charset_chars by (intro map_idI) blast

lemma LastIndex1_text:
  assumes "\<forall>v \<in> set vs. fits 5 v"
  shows "LastIndex1 (hrp @ CHR ''1'' # charset_text vs) = int (length hrp)"
proof -
  have "CHR ''1'' \<notin> set (rev (charset_text vs))" using text_chars [OF assms] charset_chars by auto
  then have "IndexByte (rev (charset_text vs) @ CHR ''1'' # rev hrp) CHR ''1'' = Some (length (rev (charset_text vs)))"
    by (rule IndexByte_append)
  then show ?thesis by (simp add: LastIndex1_def)
qed

lemma bytes_ints [simp]: "intsToBytes (bytesToInts b) = b"
  by (simp add: intsToBytes_def bytesToInts_def comp_def)

lemma fits_bytes: "\<forall>v \<in> set (bytesToInts b). fits 8 v"
proof -
  have "fits 8 (uint (x :: byte))" for x using uint_bounded [of x] by (simp add: fits_less)
  then show ?thesis by (auto simp: bytesToInts_def)
qed

section \<open>Properties\<close>

lemma hrp_fits: "\<forall>v \<in> set (bech32HRPExpand hrp). fits 5 v" "\<forall>v \<in> set (cashaddrHRPExpand hrp). fits 5 v"
proof -
  have "fits 5 (drop_bit 5 (of_char c :: int))" for c
  proof -
    have "int (of_char c) < int (2 ^ (5 + 5))"
      unfolding of_nat_less_iff by (rule less_le_trans [OF nat_of_char_less_256]) simp
    then have "int (of_char c) < 2 ^ (5 + 5)" by (simp only: of_nat_power of_nat_numeral)
    moreover have "0 \<le> int (of_char c)" by simp
    ultimately have "fits (5 + 5) (of_char c :: int)" unfolding fits_less by (simp only: of_nat_of_char)
    then show ?thesis by (rule fits_drop)
  qed
  then show "\<forall>v \<in> set (bech32HRPExpand hrp). fits 5 v" "\<forall>v \<in> set (cashaddrHRPExpand hrp). fits 5 v"
    by (auto simp: bech32HRPExpand_def cashaddrHRPExpand_def and31 fits_def)
qed

lemma upt6: "bech32CreateChecksum hrp data c
    = unpack 6 (pm_reg 25 bech32_gen ((bech32HRPExpand hrp @ data) @ replicate 6 0) 1 XOR c)"
  by (simp add: bech32CreateChecksum_def unpack_def bech32Polymod_def bech32_register_eq Let_def numeral_eq_Suc)

lemma upt8: "cashaddrCreateChecksum hrp data
    = unpack 8 (pm_reg 35 cashaddrGenerator ((cashaddrHRPExpand hrp @ data) @ replicate 8 0) 1 XOR 1)"
  by (simp add: cashaddrCreateChecksum_def unpack_def cashaddrPolymod_def cashaddr_register_eq Let_def numeral_eq_Suc)

lemma create_facts:
  "\<forall>v \<in> set (bech32CreateChecksum hrp data c). fits 5 v" "length (bech32CreateChecksum hrp data c) = 6"
  "\<forall>v \<in> set (cashaddrCreateChecksum hrp data). fits 5 v" "length (cashaddrCreateChecksum hrp data) = 8"
  by (simp_all add: upt6 upt8 fits_unpack)

lemma verify_created:
  assumes "\<forall>v \<in> set data. fits 5 v"
  shows "c \<in> {bech32Const, bech32mConst} \<Longrightarrow> bech32VerifyChecksum hrp (data @ bech32CreateChecksum hrp data c) c"
    and "cashaddrVerifyChecksum hrp (data @ cashaddrCreateChecksum hrp data)"
proof -
  have d: "\<forall>v \<in> set (bech32HRPExpand hrp @ data). fits 5 v" "\<forall>v \<in> set (cashaddrHRPExpand hrp @ data). fits 5 v"
    using assms hrp_fits by auto
  have "fits 30 c" if "c \<in> {bech32Const, bech32mConst}"
    using that by (auto simp: bech32Const_def bech32mConst_def fits_less)
  then show "c \<in> {bech32Const, bech32mConst} \<Longrightarrow> bech32VerifyChecksum hrp (data @ bech32CreateChecksum hrp data c) c"
    using b32.create_verifies [of 6, OF _ d(1), of 1 c]
    by (simp add: bech32VerifyChecksum_def upt6 bech32Polymod_def bech32_register_eq fits_less Let_def)
  show "cashaddrVerifyChecksum hrp (data @ cashaddrCreateChecksum hrp data)"
    using bcash.create_verifies [of 8, OF _ d(2), of 1 1]
    by (simp add: cashaddrVerifyChecksum_def upt8 cashaddrPolymod_def cashaddr_register_eq fits_less Let_def)
qed

text \<open>
  Both checksums are sound constructions: the symbols that the code creates for any prefix
  and any five-bit data make its own verification succeed, for bech32 under either constant
  and for CashAddr.
\<close>

theorem checksum_verifies:
  assumes "\<forall>v \<in> set data. 0 \<le> v \<and> v < 32" and "c \<in> {bech32Const, bech32mConst}"
  shows "bech32VerifyChecksum hrp (data @ bech32CreateChecksum hrp data c) c
    \<and> cashaddrVerifyChecksum hrp (data @ cashaddrCreateChecksum hrp data)"
  using assms verify_created [of data] by (simp add: fits_less)

theorem checksum_verifies_witness:
  "bech32VerifyChecksum ''bc'' ([0, 14, 20] @ bech32CreateChecksum ''bc'' [0, 14, 20] bech32Const) bech32Const"
  using checksum_verifies [of "[0, 14, 20]" bech32Const "''bc''"] by simp

text \<open>
  A segwit address that the encoder produces, with a lower-case prefix and within the 90
  characters of the format, decodes to the same prefix, witness version and program.
\<close>

theorem bech32_roundtrip:
  assumes "bech32Encode hrp ver prog = Inr s" and "hrp \<noteq> []" and "ToLower hrp = hrp" and "length s \<le> 90"
  shows "bech32Decode s = Inr (hrp, ver, prog)"
proof -
  obtain out p where out: "convertBits (bytesToInts prog) 8 5 True = Inr out" "\<forall>v \<in> set out. fits 5 v" "p < 5"
      "bit_stream 5 out = bit_stream 8 (bytesToInts prog) @ replicate p False"
    using convert_pad [OF fits_bytes] by blast
  let ?c = "if ver \<ge> 1 then bech32mConst else bech32Const"
  let ?full = "(ver # out) @ bech32CreateChecksum hrp (ver # out) ?c"
  have enc: "0 \<le> ver" "ver \<le> 16" "s = hrp @ CHR ''1'' # charset_text ?full"
    using assms(1) out(1) by (auto simp: bech32Encode_def Let_def split: if_splits)
  then have data: "\<forall>v \<in> set (ver # out). fits 5 v" using out(2) by (auto simp: fits_less)
  then have full: "\<forall>v \<in> set ?full. fits 5 v" using create_facts(1) by auto
  have "ToLower s = s"
    using assms(3) ToLower_text [OF full] enc(3) by (simp add: ToLower_def lower_char_def)
  moreover have "LastIndex1 s = int (length hrp)" unfolding enc(3) by (rule LastIndex1_text [OF full])
  moreover have "symbols (drop (length hrp + 1) s) = Inr ?full" using symbols_text [OF full] enc(3) by simp
  moreover have "bech32VerifyChecksum hrp ?full bech32Const \<or> bech32VerifyChecksum hrp ?full bech32mConst"
    using verify_created(1) [OF data, of ?c hrp] by (cases "ver \<ge> 1") auto
  moreover have "convertBits out 5 8 False = Inr (bytesToInts prog)"
    using convert_unpad [OF out(2) fits_bytes out(3,4)] .
  moreover have "length s = length hrp + length out + 8" by (simp add: enc(3) charset_text_def create_facts)
  moreover have "take (length ?full - 6) ?full = ver # out" by (simp add: create_facts)
  moreover have "take (length hrp) s = hrp" by (simp add: enc(3))
  ultimately show ?thesis
    using assms(2,4) enc(1,2) by (simp add: bech32Decode_def Let_def del: append_Cons)
qed

theorem bech32_roundtrip_witness:
  "bech32Decode ''bc1qqyqszqgpqyqszqgpqyqszqgpqyqszqgpyfl4f3'' = Inr (''bc'', 0, replicate 20 1)"
proof (rule bech32_roundtrip)
  show "bech32Encode ''bc'' 0 (replicate 20 1) = Inr ''bc1qqyqszqgpqyqszqgpqyqszqgpqyqszqgpyfl4f3''"
    by code_simp
qed (simp_all add: ToLower_def lower_char_def)

lemma cashaddr_decode_encode:
  assumes "cashaddrEncode prefix ty hash = Inr s" and "prefix \<noteq> []" and "ToLower prefix = prefix"
    and "CHR '':'' \<notin> set prefix" and "length s \<le> 110"
  shows "cashaddrDecode s prefix = Inr (ty, hash)"
proof -
  obtain idx where idx: "cashaddrSizeIndex (length hash) = Inr idx" and ty: "ty = 0 \<or> ty = 1"
    using assms(1) by (auto simp: cashaddrEncode_def split: if_splits)
  let ?v = "push_bit 3 ty OR idx"
  have idx4: "idx \<in> {0, 1, 2, 3}" and len: "cashaddrLenFromIndex idx = Some (length hash)"
    using idx by (auto simp: cashaddrSizeIndex_def cashaddrLenFromIndex_def split: if_splits)
  have v: "fits 8 ?v" "drop_bit 3 ?v = ty" "?v AND 7 = idx"
    using ty idx4 by (auto simp: fits_less)
  obtain out p where out: "convertBits (?v # bytesToInts hash) 8 5 True = Inr out" "\<forall>v \<in> set out. fits 5 v" "p < 5"
      "bit_stream 5 out = bit_stream 8 (?v # bytesToInts hash) @ replicate p False"
    using convert_pad [of "?v # bytesToInts hash"] fits_bytes v(1) by auto
  let ?full = "out @ cashaddrCreateChecksum prefix out"
  have enc: "s = prefix @ CHR '':'' # charset_text ?full"
    using assms(1) idx out(1) ty by (auto simp: cashaddrEncode_def Let_def split: if_splits)
  have full: "\<forall>v \<in> set ?full. fits 5 v" using create_facts(3) out(2) by auto
  have "ToLower s = s"
    using assms(3) ToLower_text [OF full] enc by (simp add: ToLower_def lower_char_def)
  moreover have "IndexByte s CHR '':'' = Some (length prefix)"
    unfolding enc by (rule IndexByte_append [OF assms(4)])
  moreover have "cash_symbols (drop (length prefix + 1) s) = Inr ?full" using cash_symbols_text [OF full] enc by simp
  moreover have "cashaddrVerifyChecksum prefix ?full" by (rule verify_created(2) [OF out(2)])
  moreover have "convertBits out 5 8 False = Inr (?v # bytesToInts hash)"
    using convert_unpad [OF out(2) _ out(3,4)] fits_bytes v(1) by simp
  moreover have "8 \<le> length s" "length ?full = length out + 8" using assms(2)
    by (simp_all add: enc charset_text_def create_facts)
  moreover have "take (length prefix) s = prefix" by (simp add: enc)
  moreover have "length (bytesToInts hash) = length hash" by (simp add: bytesToInts_def)
  ultimately show ?thesis
    using assms(2,5) ty v len by (simp add: cashaddrDecode_def Let_def)
qed

text \<open>
  A CashAddr address that the encoder produces for a lower-case prefix decodes, for that
  prefix, to the same type and hash.
\<close>

theorem cashaddr_roundtrip:
  assumes "cashaddrEncode prefix ty hash = Inr s" and "prefix \<noteq> []" and "ToLower prefix = prefix"
    and "CHR '':'' \<notin> set prefix" and "length s \<le> 110"
  shows "cashaddrDecode s prefix = Inr (ty, hash)"
  using assms by (rule cashaddr_decode_encode)

theorem cashaddr_roundtrip_witness:
  "cashaddrDecode ''bitcoincash:qqqszqgpqyqszqgpqyqszqgpqyqszqgpqyrygcdp8p'' ''bitcoincash'' = Inr (0, replicate 20 1)"
proof (rule cashaddr_roundtrip)
  show "cashaddrEncode ''bitcoincash'' 0 (replicate 20 1)
      = Inr ''bitcoincash:qqqszqgpqyqszqgpqyqszqgpqyqszqgpqyrygcdp8p''"
    by code_simp
qed (simp_all add: ToLower_def lower_char_def)

text \<open>
  Two address strings crash the decoders. Each consists of a prefix and exactly the
  checksum symbols: the segwit decoder slices past the end of the remaining (empty) data, the
  CashAddr decoder indexes the first byte of an empty payload.
\<close>

theorem address_decoders_panic:
  "panics (bech32Decode ''a12uel5l'') \<and> panics (cashaddrDecode ''bitcoincash:a5a8yrhz'' ''bitcoincash'')"
proof -
  have "bech32Decode ''a12uel5l'' = Inl (GoPanic ''slice bounds out of range'')" by code_simp
  moreover have "cashaddrDecode ''bitcoincash:a5a8yrhz'' ''bitcoincash'' = Inl (GoPanic ''index out of range'')"
    by code_simp
  ultimately show ?thesis by simp
qed

text \<open>
  The bech32m constant of the code is not the one of BIP350, so a taproot address from the
  standard's own list is rejected.
\<close>

theorem taproot_rejected:
  "bech32Decode ''bc1p0xlxvlhemja6c4dqv22uapctqupfhlxm9h8z3k2e72q4k9hcz7vqzk5jj0''
    = Inl (GoErr ''coins: bech32 checksum mismatch'')"
  by code_simp

end
