(* ===== verification/Address.thy ===== *)
theory Address
  imports Base58 Bech32 Coin
begin

text \<open>
  Addresses of \<^verbatim>\<open>coins/address.go\<close>: decoding per coin family, and the canonical text. Logging a
  failed decode has no effect on the result and is left out.
\<close>

section \<open>Addresses\<close>

datatype AddressKind = P2PKH | P2SH | P2WPKH | P2WSH | P2TR

record Address =
  a_Coin :: Coin
  a_Kind :: AddressKind
  a_Prefix :: byte
  a_Hash :: bytes
  a_WitnessVersion :: int

definition Address_ID :: "Address \<Rightarrow> bytes option" where
  "Address_ID a = (if length (a_Hash a) \<noteq> 20 then None else Some (a_Hash a))"

text \<open>An encoding error yields the empty string.\<close>

definition or_empty :: "string go \<Rightarrow> string" where
  "or_empty r = (case r of Inl _ \<Rightarrow> [] | Inr s \<Rightarrow> s)"

definition Address_String :: "Address \<Rightarrow> string" where
  "Address_String a = (
     if a_Kind a = P2PKH \<or> a_Kind a = P2SH then
       (if c_family (a_Coin a) = FamilyUTXOBCH
        then let typ = (if a_Kind a = P2SH then 1 else 0) in or_empty (cashaddrEncode (c_CashAddrPrefix (a_Coin a)) typ (a_Hash a))
        else base58CheckEncode (a_Prefix a) (a_Hash a))
     else or_empty (bech32Encode (c_Bech32HRP (a_Coin a)) (a_WitnessVersion a) (a_Hash a)))"

definition decodeSegwit :: "Coin \<Rightarrow> string \<Rightarrow> Address go" where
  "decodeSegwit c s = (
     if c_SegWit c \<and> c_Bech32HRP c \<noteq> [] then
       (case bech32Decode s of
          Inl (GoPanic p) \<Rightarrow> Inl (GoPanic p)
        | Inl (GoErr _) \<Rightarrow> Inl (GoErr (''coins: address is not valid for '' @ c_Ticker c))
        | Inr (hrp, ver, prog) \<Rightarrow>
            if hrp = c_Bech32HRP c then
              (if ver = 0 \<and> length prog = 20 then Inr \<lparr>a_Coin = c, a_Kind = P2WPKH, a_Prefix = 0, a_Hash = prog, a_WitnessVersion = 0\<rparr>
               else if ver = 0 \<and> length prog = 32 then Inr \<lparr>a_Coin = c, a_Kind = P2WSH, a_Prefix = 0, a_Hash = prog, a_WitnessVersion = 0\<rparr>
               else if ver = 1 \<and> length prog = 32 then Inr \<lparr>a_Coin = c, a_Kind = P2TR, a_Prefix = 0, a_Hash = prog, a_WitnessVersion = 1\<rparr>
               else Inl (GoErr ''coins: unsupported segwit program''))
            else Inl (GoErr (''coins: address is not valid for '' @ c_Ticker c)))
     else Inl (GoErr (''coins: address is not valid for '' @ c_Ticker c)))"

definition decodeAddress :: "Coin \<Rightarrow> string \<Rightarrow> Address go" where
  "decodeAddress c s = (
     if s = [] then Inl (GoErr ''coins: empty address'')
     else if c_family c = FamilyUTXOBCH then
       go_bind (cashaddrDecode s (c_CashAddrPrefix c)) (\<lambda>(typ, h).
         let kind = (if typ = 1 then P2SH else P2PKH)
         in Inr \<lparr>a_Coin = c, a_Kind = kind, a_Prefix = 0, a_Hash = h, a_WitnessVersion = 0\<rparr>)
     else case base58CheckDecode s of
         Inl (GoPanic p) \<Rightarrow> Inl (GoPanic p)
       | Inl (GoErr _) \<Rightarrow> decodeSegwit c s
       | Inr (prefix, payload) \<Rightarrow>
           if prefix = c_P2PKH c then Inr \<lparr>a_Coin = c, a_Kind = P2PKH, a_Prefix = prefix, a_Hash = payload, a_WitnessVersion = 0\<rparr>
           else if prefix = c_P2SH c then Inr \<lparr>a_Coin = c, a_Kind = P2SH, a_Prefix = prefix, a_Hash = payload, a_WitnessVersion = 0\<rparr>
           else Inl (GoErr ''coins: address version byte does not match coin''))"

definition DecodeAddress :: "Coin \<Rightarrow> string \<Rightarrow> Address go" where
  "DecodeAddress c s = decodeAddress c s"

section \<open>Lemmas\<close>

lemma check_encode_nonempty: "base58CheckEncode p h \<noteq> []"
proof
  assume e: "base58CheckEncode p h = []"
  have "big_SetBytes ((p # h) @ checksum (p # h)) = 0 \<or> digs 58 (big_SetBytes ((p # h) @ checksum (p # h))) \<noteq> []"
    by (auto simp: r58.digs_Suc)
  with e have "big_SetBytes ((p # h) @ checksum (p # h)) = 0" "takeWhile (\<lambda>c. c = 0) ((p # h) @ checksum (p # h)) = []"
    by (auto simp: base58CheckEncode_def base58_Encode_eq Let_def)
  then show False using bytes_split [of "(p # h) @ checksum (p # h)"] by (simp add: big_Bytes_def)
qed

text \<open>A legacy or CashAddr address of a coin, as the swap layer makes them.\<close>

definition plain_address :: "Address \<Rightarrow> bool" where
  "plain_address a \<longleftrightarrow> length (a_Hash a) = 20 \<and> a_WitnessVersion a = 0 \<and> c_P2PKH (a_Coin a) \<noteq> c_P2SH (a_Coin a)
     \<and> (if c_family (a_Coin a) = FamilyUTXOBCH
        then a_Kind a \<in> {P2PKH, P2SH} \<and> a_Prefix a = 0 \<and> c_CashAddrPrefix (a_Coin a) \<in> {''bitcoincash'', ''devault''}
        else (a_Kind a, a_Prefix a) \<in> {(P2PKH, c_P2PKH (a_Coin a)), (P2SH, c_P2SH (a_Coin a))})"

lemma cash_encode_ok:
  assumes "length h = 20" and "ty \<in> {0, 1}"
  shows "\<exists>s. cashaddrEncode p ty h = Inr s \<and> length s \<le> length p + 43 \<and> s \<noteq> []"
proof -
  have i: "cashaddrSizeIndex (length h) = Inr 0" using assms(1) by (simp add: cashaddrSizeIndex_def)
  have "fits 8 (push_bit 3 ty)" using assms(2) by (auto simp: fits_less)
  then obtain out q where out: "convertBits (push_bit 3 ty # bytesToInts h) 8 5 True = Inr out" "q < 5"
      "bit_stream 5 out = bit_stream 8 (push_bit 3 ty # bytesToInts h) @ replicate q False"
    using convert_pad [of "push_bit 3 ty # bytesToInts h"] fits_bytes by auto
  have "5 * length out = 8 * 21 + q"
    using arg_cong [OF out(3), of length] assms(1) by (simp add: bytesToInts_def)
  with out(2) have "length out \<le> 34" by simp
  with out(1) i assms(2) show ?thesis
    by (auto simp: cashaddrEncode_def Let_def charset_text_def create_facts)
qed

lemma plain_address_decodes:
  assumes "plain_address a"
  shows "DecodeAddress (a_Coin a) (Address_String a) = Inr a"
proof (cases "c_family (a_Coin a) = FamilyUTXOBCH")
  case True
  let ?c = "a_Coin a" and ?ty = "if a_Kind a = P2SH then 1 else 0 :: int"
  have p: "c_CashAddrPrefix ?c \<in> {''bitcoincash'', ''devault''}" "length (a_Hash a) = 20" "a_Kind a \<in> {P2PKH, P2SH}"
    using assms True by (auto simp: plain_address_def)
  have lc: "ToLower (c_CashAddrPrefix ?c) = c_CashAddrPrefix ?c" "CHR '':'' \<notin> set (c_CashAddrPrefix ?c)"
      "c_CashAddrPrefix ?c \<noteq> []" "length (c_CashAddrPrefix ?c) \<le> 11"
    using p(1) by (auto simp: ToLower_def lower_char_def)
  have "?ty \<in> {0, 1}" by simp
  from cash_encode_ok [OF p(2) this, of "c_CashAddrPrefix ?c"] obtain s
    where s: "cashaddrEncode (c_CashAddrPrefix ?c) ?ty (a_Hash a) = Inr s" "length s \<le> length (c_CashAddrPrefix ?c) + 43"
      "s \<noteq> []"
    by blast
  have len: "length s \<le> 110" using s(2) lc(4) by simp
  have "cashaddrDecode s (c_CashAddrPrefix ?c) = Inr (?ty, a_Hash a)"
    using cashaddr_decode_encode [OF s(1) lc(3,1,2) len] .
  moreover have "Address_String a = s" using True p(3) s(1) by (auto simp: Address_String_def or_empty_def)
  ultimately show ?thesis
    using True s(3) p(3) assms
    by (cases a) (auto simp: DecodeAddress_def decodeAddress_def plain_address_def)
next
  case False
  then have k: "a_Kind a \<in> {P2PKH, P2SH}" using assms by (auto simp: plain_address_def)
  have s: "Address_String a = base58CheckEncode (a_Prefix a) (a_Hash a)" using k False by (auto simp: Address_String_def)
  have "base58CheckDecode (Address_String a) = Inr (a_Prefix a, a_Hash a)"
    unfolding s by (rule base58Check_decode_encode) (use assms in \<open>simp add: plain_address_def\<close>)
  then show ?thesis
    using False assms check_encode_nonempty s
    by (auto simp: DecodeAddress_def decodeAddress_def plain_address_def intro!: Address.equality)
qed

section \<open>Properties\<close>

text \<open>
  The text of a 20-byte legacy or CashAddr address of a coin decodes, for that coin, to the
  same address.
\<close>

theorem Address_roundtrip:
  assumes "plain_address a"
  shows "DecodeAddress (a_Coin a) (Address_String a) = Inr a"
  using assms by (rule plain_address_decodes)

theorem Address_roundtrip_witness:
  "DecodeAddress sample (base58CheckEncode 5 (replicate 20 9))
    = Inr \<lparr>a_Coin = sample, a_Kind = P2SH, a_Prefix = 5, a_Hash = replicate 20 9, a_WitnessVersion = 0\<rparr>"
  using Address_roundtrip [of "\<lparr>a_Coin = sample, a_Kind = P2SH, a_Prefix = 5, a_Hash = replicate 20 9, a_WitnessVersion = 0\<rparr>"]
  by (simp add: plain_address_def Address_String_def sample_def)

text \<open>
  Whatever decodes for a coin of the Bitcoin family is an address of that coin: a legacy
  result carries one of the coin's version bytes and re-encodes to exactly the given text, and a
  segwit result has the program length of its kind.
\<close>

theorem decodeAddress_sound:
  assumes "DecodeAddress c s = Inr a" and "c_family c = FamilyUTXOBTC"
  shows "a_Coin a = c \<and> (case a_Kind a of
      P2PKH \<Rightarrow> a_Prefix a = c_P2PKH c \<and> Address_String a = s
    | P2SH \<Rightarrow> a_Prefix a = c_P2SH c \<and> Address_String a = s
    | P2WPKH \<Rightarrow> length (a_Hash a) = 20 \<and> a_WitnessVersion a = 0
    | P2WSH \<Rightarrow> length (a_Hash a) = 32 \<and> a_WitnessVersion a = 0
    | P2TR \<Rightarrow> length (a_Hash a) = 32 \<and> a_WitnessVersion a = 1)"
proof (cases "base58CheckDecode s")
  case (Inr r)
  obtain prefix payload where r: "r = (prefix, payload)" by fastforce
  have "base58CheckEncode prefix payload = s"
    using base58Check_encode_decode Inr r by simp
  with Inr r assms show ?thesis
    by (auto simp: DecodeAddress_def decodeAddress_def Address_String_def split: if_splits)
next
  case (Inl e)
  with assms have "decodeSegwit c s = Inr a"
    by (auto simp: DecodeAddress_def decodeAddress_def split: if_splits go_fail.splits)
  then show ?thesis
    by (auto simp: decodeSegwit_def split: if_splits sum.splits go_fail.splits)
qed

theorem decodeAddress_sound_witness:
  "DecodeAddress sample (base58CheckEncode 0 [1, 2]) = Inr \<lparr>a_Coin = sample, a_Kind = P2PKH, a_Prefix = 0, a_Hash = [1, 2], a_WitnessVersion = 0\<rparr>
    \<and> Address_String \<lparr>a_Coin = sample, a_Kind = P2PKH, a_Prefix = 0, a_Hash = [1, 2], a_WitnessVersion = 0\<rparr> = base58CheckEncode 0 [1, 2]"
proof -
  have "base58CheckDecode (base58CheckEncode 0 [1, 2]) = Inr (0, [1, 2])"
    by (rule base58Check_decode_encode) simp
  then have d: "DecodeAddress sample (base58CheckEncode 0 [1, 2]) = Inr \<lparr>a_Coin = sample, a_Kind = P2PKH, a_Prefix = 0, a_Hash = [1, 2], a_WitnessVersion = 0\<rparr>"
    using check_encode_nonempty by (simp add: DecodeAddress_def decodeAddress_def sample_def)
  from decodeAddress_sound [OF d] d show ?thesis by (simp add: sample_def)
qed

end
