(* ===== verification/Float64.thy ===== *)
theory Float64
  imports Complex_Main Prelude
begin

text \<open>
  Go's \<^verbatim>\<open>float64\<close>, for the price arithmetic of \<^verbatim>\<open>swap/price.go\<close> and the amounts a wallet
  reports in whole coins. A finite double is the rational number it denotes, and every
  operation of the source is the exact operation followed by \<open>fl\<close>, the rounding to the
  nearest number with a significand of 53 bits, ties to even (IEEE 754 binary64, without fused
  multiply-add). The exponent range is not bounded: the operands of the code are amounts below
  \<open>2 ^ 64\<close> scaled by \<open>10 ^ 6\<close> and ratios of them, far from overflow and from subnormals.
\<close>

type_synonym float64 = rat

section \<open>Rounding\<close>

function bitlen :: "int \<Rightarrow> nat" where
  "bitlen n = (if n \<le> 0 then 0 else Suc (bitlen (n div 2)))"
  by pat_completeness auto

termination
  by (relation "measure nat") auto

declare bitlen.simps [simp del]

definition pow2 :: "int \<Rightarrow> rat" where
  "pow2 e = (if 0 \<le> e then 2 ^ nat e else 1 / 2 ^ nat (- e))"

text \<open>Nearest integer of a non-negative rational, the even one of two.\<close>

definition round_even :: "rat \<Rightarrow> int" where
  "round_even y = (let f = \<lfloor>y\<rfloor>; d = y - of_int f in
     if d < 1 / 2 then f else if 1 / 2 < d then f + 1 else if even f then f else f + 1)"

text \<open>The exponent of the last bit of the significand of a positive number.\<close>

definition ulp_exp :: "rat \<Rightarrow> int" where
  "ulp_exp x = (let (p, q) = quotient_of x; e = int (bitlen p) - int (bitlen q) - 53 in
     if x < pow2 (e + 53) then e else e + 1)"

definition fl :: "rat \<Rightarrow> float64" where
  "fl x = (if x = 0 then 0 else if 0 < x then of_int (round_even (x / pow2 (ulp_exp x))) * pow2 (ulp_exp x)
     else - (of_int (round_even (- x / pow2 (ulp_exp (- x)))) * pow2 (ulp_exp (- x))))"

text \<open>Conversions: \<^verbatim>\<open>float64(u)\<close> of an unsigned integer, and \<^verbatim>\<open>uint64(f)\<close> of a number in range.\<close>

definition val :: "u64 \<Rightarrow> rat" where
  "val u = of_int (uint u)"

definition float_of_u64 :: "u64 \<Rightarrow> float64" where
  "float_of_u64 u = fl (val u)"

definition u64_of_float :: "float64 \<Rightarrow> u64" where
  "u64_of_float v = word_of_int \<lfloor>v\<rfloor>"

section \<open>Lemmas\<close>

lemma pow2_pos [simp]: "0 < pow2 e"
  by (simp add: pow2_def)

lemma pow2_nonzero [simp]: "pow2 e \<noteq> 0"
  using pow2_pos [of e] by linarith

lemma pow2_powi: "pow2 e = 2 powi e"
  by (simp add: pow2_def power_int_def field_simps)

lemma pow2_add: "pow2 (a + b) = pow2 a * pow2 b"
  by (simp add: pow2_powi power_int_add)

lemma pow2_mono: "a \<le> b \<Longrightarrow> pow2 a \<le> pow2 b"
  by (simp add: pow2_powi power_int_increasing)

lemma pow2_nat: "pow2 (int n) = 2 ^ n"
  by (simp add: pow2_def)

lemma bitlen_bounds: "0 < n \<Longrightarrow> (2 :: int) ^ (bitlen n - 1) \<le> n \<and> n < 2 ^ bitlen n \<and> 0 < bitlen n"
proof (induction n rule: bitlen.induct)
  case (1 n)
  show ?case
  proof (cases "n div 2 \<le> 0")
    case True
    with 1 have "n = 1" by simp
    then show ?thesis by (simp add: bitlen.simps)
  next
    case False
    with 1 have IH: "(2 :: int) ^ (bitlen (n div 2) - 1) \<le> n div 2" "n div 2 < 2 ^ bitlen (n div 2)" "0 < bitlen (n div 2)"
      by auto
    have b: "bitlen n = Suc (bitlen (n div 2))" using 1 by (simp add: bitlen.simps [of n])
    obtain k where k: "bitlen (n div 2) = Suc k" using IH(3) by (cases "bitlen (n div 2)") auto
    show ?thesis unfolding b k using IH(1,2) unfolding k by (simp; linarith)
  qed
qed

lemma ulp_exp_bounds:
  assumes "0 < x"
  shows "pow2 (ulp_exp x + 52) \<le> x" and "x < pow2 (ulp_exp x + 53)"
proof -
  obtain p q where pq: "quotient_of x = (p, q)" by (cases "quotient_of x")
  have q: "0 < q" using quotient_of_denom_pos [OF pq] .
  have x: "x = of_int p / of_int q" using quotient_of_div [OF pq] .
  then have p: "0 < p" using assms q by (simp add: zero_less_divide_iff)
  define a b where "a = bitlen p" and "b = bitlen q"
  have pb: "2 ^ (a - 1) \<le> p" "p < 2 ^ a" "0 < a" and qb: "2 ^ (b - 1) \<le> q" "q < 2 ^ b" "0 < b"
    using bitlen_bounds [OF p] bitlen_bounds [OF q] by (auto simp: a_def b_def)
  have P: "pow2 (int a - 1) \<le> of_int p" "of_int p < pow2 (int a)"
  proof -
    have "(of_int (2 ^ (a - 1)) :: rat) \<le> of_int p" "(of_int p :: rat) < of_int (2 ^ a)"
      using pb by (simp_all only: of_int_le_iff of_int_less_iff)
    moreover have "pow2 (int a - 1) = 2 ^ (a - 1)" using pb(3) pow2_nat [of "a - 1"] by (simp add: of_nat_diff)
    ultimately show "pow2 (int a - 1) \<le> of_int p" "of_int p < pow2 (int a)" by (simp_all add: pow2_nat)
  qed
  have Q: "pow2 (int b - 1) \<le> of_int q" "of_int q < pow2 (int b)"
  proof -
    have "(of_int (2 ^ (b - 1)) :: rat) \<le> of_int q" "(of_int q :: rat) < of_int (2 ^ b)"
      using qb by (simp_all only: of_int_le_iff of_int_less_iff)
    moreover have "pow2 (int b - 1) = 2 ^ (b - 1)" using qb(3) pow2_nat [of "b - 1"] by (simp add: of_nat_diff)
    ultimately show "pow2 (int b - 1) \<le> of_int q" "of_int q < pow2 (int b)" by (simp_all add: pow2_nat)
  qed
  have Qp: "(0 :: rat) < of_int q" using q by simp
  have lo: "pow2 (int a - int b - 1) \<le> x"
  proof -
    have "pow2 (int a - int b - 1) * of_int q \<le> pow2 (int a - int b - 1) * pow2 (int b)"
      using Q(2) by (simp add: mult_left_mono)
    also have "\<dots> = pow2 (int a - 1)" by (simp add: pow2_add [symmetric])
    finally show ?thesis using P(1) Qp by (simp add: x pos_le_divide_eq)
  qed
  have hi: "x < pow2 (int a - int b + 1)"
  proof -
    have "pow2 (int a) = pow2 (int a - int b + 1) * pow2 (int b - 1)" by (simp add: pow2_add [symmetric])
    also have "\<dots> \<le> pow2 (int a - int b + 1) * of_int q"
      using Q(1) by (simp add: mult_left_mono)
    finally show ?thesis using P(2) Qp by (simp add: x pos_divide_less_eq)
  qed
  have e: "ulp_exp x = (if x < pow2 (int a - int b) then int a - int b - 53 else int a - int b - 52)"
    by (simp add: ulp_exp_def pq a_def b_def Let_def)
  show "pow2 (ulp_exp x + 52) \<le> x" "x < pow2 (ulp_exp x + 53)"
    using lo hi by (auto simp: e not_less add.commute)
qed

lemma round_even_error: "\<bar>of_int (round_even y) - y\<bar> \<le> 1 / 2"
proof -
  have "of_int \<lfloor>y\<rfloor> \<le> y" "y < of_int \<lfloor>y\<rfloor> + 1" by linarith+
  then show ?thesis unfolding round_even_def Let_def by (auto simp: abs_if; linarith)
qed

lemma round_even_int [simp]: "round_even (of_int n) = n"
  by (simp add: round_even_def)

lemma fl_zero [simp]: "fl 0 = 0"
  by (simp add: fl_def)

text \<open>The relative error of one rounding is at most \<open>2 ^ - 53\<close>.\<close>

lemma fl_error:
  assumes "0 \<le> x"
  shows "\<bar>fl x - x\<bar> \<le> x / 2 ^ 53"
proof (cases "x = 0")
  case False
  then have x: "0 < x" using assms by simp
  let ?u = "pow2 (ulp_exp x)"
  have "fl x - x = (of_int (round_even (x / ?u)) - x / ?u) * ?u"
    using x by (simp add: fl_def left_diff_distrib)
  then have "\<bar>fl x - x\<bar> = \<bar>of_int (round_even (x / ?u)) - x / ?u\<bar> * ?u"
    by (simp add: abs_mult abs_of_pos)
  also have "\<dots> \<le> 1 / 2 * ?u"
    using round_even_error by (intro mult_right_mono) (auto simp: less_imp_le)
  also have "\<dots> \<le> x / 2 ^ 53"
  proof -
    have "pow2 (52 :: int) = 2 ^ 52" by (simp add: pow2_def)
    then have "?u * 2 ^ 52 \<le> x" using ulp_exp_bounds(1) [OF x] by (simp add: pow2_add)
    then show ?thesis by (simp add: field_simps)
  qed
  finally show ?thesis .
qed simp

lemma fl_nonneg: "0 \<le> x \<Longrightarrow> 0 \<le> fl x"
  using fl_error [of x] by (simp add: abs_if field_simps split: if_splits)

lemma val_nat: "val u = of_nat (unat u)"
  unfolding val_def uint_nat by simp

lemma val_nonneg [simp]: "0 \<le> val u"
  unfolding val_nat by (rule of_nat_0_le_iff)

lemma val_u64_pos: "0 < val u \<longleftrightarrow> u \<noteq> 0"
  unfolding val_nat of_nat_0_less_iff by (simp add: unat_gt_0)

lemma val_le_iff: "val a \<le> val b \<longleftrightarrow> a \<le> b"
  unfolding val_nat of_nat_le_iff by (simp add: word_le_nat_alt)

lemma val_less_iff: "val a < val b \<longleftrightarrow> a < b"
  unfolding val_nat of_nat_less_iff by (simp add: word_less_nat_alt)

lemma val_bound: "val u < 2 ^ 64"
proof -
  have "unat u < 2 ^ 64" using unat_less_2p [of u] by simp
  then have "val u < of_nat (2 ^ 64)" unfolding val_nat of_nat_less_iff .
  then show ?thesis by simp
qed

text \<open>Integers below \<open>2 ^ 53\<close> are exact.\<close>

lemma fl_nat_exact:
  assumes "n < 2 ^ 53"
  shows "fl (of_nat n) = of_nat n"
proof (cases "n = 0")
  case False
  let ?x = "of_nat n :: rat"
  have x: "0 < ?x" using False by simp
  have "ulp_exp ?x \<le> 0"
  proof (rule ccontr)
    assume "\<not> ulp_exp ?x \<le> 0"
    then have "pow2 53 \<le> pow2 (ulp_exp ?x + 52)" by (intro pow2_mono) simp
    then have "2 ^ 53 \<le> ?x" using ulp_exp_bounds(1) [OF x] by (simp add: pow2_def)
    then have "2 ^ 53 \<le> n" by (metis of_nat_le_iff of_nat_numeral of_nat_power)
    with assms show False by simp
  qed
  then have p: "pow2 (ulp_exp ?x) = 1 / 2 ^ nat (- ulp_exp ?x)"
    by (cases "ulp_exp ?x = 0") (auto simp: pow2_def)
  have "?x / pow2 (ulp_exp ?x) = of_int (int n * 2 ^ nat (- ulp_exp ?x))"
    by (simp add: p)
  then have "round_even (?x / pow2 (ulp_exp ?x)) = int n * 2 ^ nat (- ulp_exp ?x)"
    using round_even_int by metis
  then show ?thesis using x by (simp add: fl_def p)
qed simp

end
