(* ===== verification/SwapPrice.thy ===== *)
theory SwapPrice
  imports Float64 GoStrings
begin

text \<open>
  \<^verbatim>\<open>swap/state.go\<close> and \<^verbatim>\<open>swap/price.go\<close>: the ordinals and names of the transaction
  descriptor states, the lifetimes of orders, and the check that the amounts of a taker agree
  with the price a maker quoted. The price arithmetic is in \<^verbatim>\<open>float64\<close>; its model is in
  \<^verbatim>\<open>Float64\<close>.
\<close>

section \<open>Descriptor states\<close>

text \<open>\<^verbatim>\<open>DescrState\<close> is an integer type: \<^verbatim>\<open>String\<close> has a branch for the values that are no state.\<close>

type_synonym DescrState = int

definition DescrExpired :: DescrState where "DescrExpired = - 1"
definition DescrNew :: DescrState where "DescrNew = 0"
definition DescrOffline :: DescrState where "DescrOffline = 1"
definition DescrOpen :: DescrState where "DescrOpen = 2"
definition DescrAccepting :: DescrState where "DescrAccepting = 3"
definition DescrHold :: DescrState where "DescrHold = 4"
definition DescrInitialized :: DescrState where "DescrInitialized = 5"
definition DescrCreated :: DescrState where "DescrCreated = 6"
definition DescrSigned :: DescrState where "DescrSigned = 7"
definition DescrCommited :: DescrState where "DescrCommited = 8"
definition DescrFinished :: DescrState where "DescrFinished = 9"
definition DescrRollback :: DescrState where "DescrRollback = 10"
definition DescrRollbackFailed :: DescrState where "DescrRollbackFailed = 11"
definition DescrDropped :: DescrState where "DescrDropped = 12"
definition DescrCancelled :: DescrState where "DescrCancelled = 13"
definition DescrInvalid :: DescrState where "DescrInvalid = 14"

lemmas Descr_defs = DescrExpired_def DescrNew_def DescrOffline_def DescrOpen_def DescrAccepting_def
  DescrHold_def DescrInitialized_def DescrCreated_def DescrSigned_def DescrCommited_def DescrFinished_def
  DescrRollback_def DescrRollbackFailed_def DescrDropped_def DescrCancelled_def DescrInvalid_def

definition descrStateNames :: "string \<rightharpoonup> DescrState" where
  "descrStateNames = map_of [
     (''expired'', DescrExpired), (''new'', DescrNew), (''offline'', DescrOffline), (''open'', DescrOpen),
     (''accepting'', DescrAccepting), (''hold'', DescrHold), (''initialized'', DescrInitialized),
     (''created'', DescrCreated), (''signed'', DescrSigned), (''commited'', DescrCommited),
     (''finished'', DescrFinished), (''rolled back'', DescrRollback),
     (''rollback failed'', DescrRollbackFailed), (''dropped'', DescrDropped),
     (''canceled'', DescrCancelled), (''invalid'', DescrInvalid)]"

text \<open>\<^verbatim>\<open>%d\<close> of an integer.\<close>

definition int_str :: "int \<Rightarrow> string" where
  "int_str n = (if n < 0 then ''-'' @ nat_str (nat (- n)) else nat_str (nat n))"

definition DescrState_String :: "DescrState \<Rightarrow> string" where
  "DescrState_String s = (
     if s = DescrExpired then ''expired''
     else if s = DescrNew then ''new''
     else if s = DescrOffline then ''offline''
     else if s = DescrOpen then ''open''
     else if s = DescrAccepting then ''accepting''
     else if s = DescrHold then ''hold''
     else if s = DescrInitialized then ''initialized''
     else if s = DescrCreated then ''created''
     else if s = DescrSigned then ''signed''
     else if s = DescrCommited then ''commited''
     else if s = DescrFinished then ''finished''
     else if s = DescrRollback then ''rolled back''
     else if s = DescrRollbackFailed then ''rollback failed''
     else if s = DescrDropped then ''dropped''
     else if s = DescrCancelled then ''canceled''
     else if s = DescrInvalid then ''invalid''
     else ''descrState('' @ int_str s @ '')'')"

definition DescrStateFromName :: "string \<Rightarrow> DescrState option" where
  "DescrStateFromName name = descrStateNames name"

definition DescrStateOrdinal :: "string \<Rightarrow> int" where
  "DescrStateOrdinal name = (case descrStateNames name of Some s \<Rightarrow> s | None \<Rightarrow> 0)"

section \<open>Lifetimes\<close>

definition LockTime :: nat where "LockTime = 60 * 10"
definition PendingTTL :: nat where "PendingTTL = 60 * 6"
definition TTL :: nat where "TTL = 60 * 60"
definition DeadlineTTL :: nat where "DeadlineTTL = 60 * 60 * 24 * 7"
definition BlocksTTL :: nat where "BlocksTTL = 1440 * 7"

section \<open>Prices\<close>

definition swap_coin :: u64 where "swap_coin = 1000000"

definition priceSource :: "u64 \<Rightarrow> u64 \<Rightarrow> u64 \<Rightarrow> u64" where
  "priceSource counterpartyDest source dest = (
     if dest = 0 then 0
     else let c = float_of_u64 swap_coin;
              cda = fl (float_of_u64 counterpartyDest * c);
              sa = fl (float_of_u64 source * c);
              da = fl (float_of_u64 dest * c);
              v = fl (fl (cda * fl (sa / da)) + 1);
              ns = (if v < fl (2 ^ 63 - 1) then u64_of_float v div swap_coin
                    else let q = fl (v / c) in if q < float_of_u64 (- 1) then u64_of_float q else - 1)
          in if ns < 1 then 1 else ns)"

definition priceDest :: "u64 \<Rightarrow> u64 \<Rightarrow> u64 \<Rightarrow> u64" where
  "priceDest counterpartySource source dest = (
     if source = 0 then 0
     else let c = float_of_u64 swap_coin;
              csa = fl (float_of_u64 counterpartySource * c);
              sa = fl (float_of_u64 source * c);
              da = fl (float_of_u64 dest * c);
              v = fl (fl (csa * fl (da / sa)) + 1);
              nd = (if v < fl (2 ^ 63 - 1) then u64_of_float v div swap_coin
                    else let q = fl (v / c) in if q < float_of_u64 (- 1) then u64_of_float q else - 1)
          in if nd < 1 then 1 else nd)"

definition max64 :: "u64 \<Rightarrow> u64 \<Rightarrow> u64" where
  "max64 a b = (if b < a then a else b)"

definition min64 :: "u64 \<Rightarrow> u64 \<Rightarrow> u64" where
  "min64 a b = (if a < b then a else b)"

definition PartialOrderDriftCheck :: "u64 \<Rightarrow> u64 \<Rightarrow> u64 \<Rightarrow> u64 \<Rightarrow> bool" where
  "PartialOrderDriftCheck makerSource makerDest otherSource otherDest = (
     if otherSource = 0 \<or> otherDest = 0 then False
     else if makerSource = otherDest \<and> makerDest = otherSource then True
     else
       let checkSourceAmount = priceSource makerDest otherDest otherSource;
           checkDestAmount = priceDest makerSource otherDest otherSource;
           checkSourceAmountOther = priceSource otherDest makerDest makerSource;
           checkDestAmountOther = priceDest otherSource makerDest makerSource;
           mismatch = (checkSourceAmountOther \<noteq> otherSource \<or> checkDestAmountOther \<noteq> otherDest
             \<or> checkSourceAmount \<noteq> makerSource \<or> checkDestAmount \<noteq> makerDest)
       in if makerSource mod otherDest = 0 \<and> makerDest mod otherSource = 0 then \<not> mismatch
          else if mismatch then
            (let driftTakerSourceA = priceSource (otherDest + 1) makerDest makerSource;
                 driftTakerSourceB = priceSource (otherDest - 1) makerDest makerSource;
                 upperS = max64 driftTakerSourceA driftTakerSourceB;
                 lowerS = min64 driftTakerSourceA driftTakerSourceB
             in if upperS < otherSource \<or> otherSource < lowerS then False
                else let driftTakerDestA = priceDest (otherSource + 1) makerDest makerSource;
                         driftTakerDestB = priceDest (otherSource - 1) makerDest makerSource;
                         upperD = max64 driftTakerDestA driftTakerDestB;
                         lowerD = min64 driftTakerDestA driftTakerDestB
                     in \<not> (upperD < otherDest \<or> otherDest < lowerD))
          else True)"

section \<open>Rounding errors of a price\<close>

text \<open>\<open>near k x y\<close>: \<open>x\<close> is \<open>y\<close> up to \<open>k\<close> roundings, a factor of \<open>r ^ k\<close> either way.\<close>

definition rr :: rat where "rr = 1 + 1 / 2 ^ 52"

definition near :: "nat \<Rightarrow> rat \<Rightarrow> rat \<Rightarrow> bool" where
  "near k x y \<longleftrightarrow> 0 \<le> y \<and> 0 \<le> x \<and> y \<le> x * rr ^ k \<and> x \<le> y * rr ^ k"

lemma rr_pow: "1 \<le> rr ^ k"
  by (rule one_le_power) (simp add: rr_def)

lemma rr_pos [simp]: "0 < rr ^ k" "0 < rr"
  using rr_pow [of k] by (linarith, simp add: rr_def)

lemma near_refl: "0 \<le> x \<Longrightarrow> near 0 x x"
  by (simp add: near_def)

lemma near_fl: "0 \<le> x \<Longrightarrow> near 1 (fl x) x"
proof -
  assume x: "0 \<le> x"
  have e: "fl x \<le> x + x / 2 ^ 53" "x - x / 2 ^ 53 \<le> fl x"
    using fl_error [OF x] by (auto simp: abs_if simp del: divide_le_eq_numeral1 split: if_splits; linarith)+
  have "x \<le> (x - x / 2 ^ 53) * rr" using x by (simp add: rr_def field_simps)
  also have "\<dots> \<le> fl x * rr" using e(2) by (rule mult_right_mono) (simp add: rr_def)
  finally have "x \<le> fl x * rr" .
  moreover have "fl x \<le> x * rr" using e(1) x by (simp add: rr_def field_simps)
  ultimately show ?thesis using x fl_nonneg [OF x] by (simp add: near_def)
qed

lemma near_trans:
  assumes "near a x y" and "near b y z"
  shows "near (a + b) x z"
proof -
  have "z \<le> y * rr ^ b" using assms by (simp add: near_def)
  also have "\<dots> \<le> x * rr ^ a * rr ^ b" using assms by (intro mult_right_mono) (auto simp: near_def less_imp_le)
  finally have 1: "z \<le> x * rr ^ (a + b)" by (simp add: power_add mult.assoc)
  have "x \<le> y * rr ^ a" using assms by (simp add: near_def)
  also have "\<dots> \<le> z * rr ^ b * rr ^ a" using assms by (intro mult_right_mono) (auto simp: near_def less_imp_le)
  finally have "x \<le> z * rr ^ (a + b)" by (simp add: power_add mult.assoc mult.commute mult.left_commute)
  with 1 assms show ?thesis by (simp add: near_def)
qed

lemma near_mult:
  assumes "near a x y" and "near b x' y'"
  shows "near (a + b) (x * x') (y * y')"
proof -
  have "y * y' \<le> (x * rr ^ a) * (x' * rr ^ b)" using assms by (intro mult_mono) (auto simp: near_def)
  moreover have "x * x' \<le> (y * rr ^ a) * (y' * rr ^ b)" using assms by (intro mult_mono) (auto simp: near_def)
  ultimately show ?thesis using assms by (simp add: near_def power_add mult_ac)
qed

lemma near_inverse:
  assumes "near a x y" and "0 < y"
  shows "0 < x" and "near a (1 / x) (1 / y)"
proof -
  show x: "0 < x" using assms by (auto simp: near_def intro: ccontr)
  with assms show "near a (1 / x) (1 / y)" by (auto simp: near_def field_simps)
qed

lemma near_div:
  assumes "near a x y" and "near b x' y'" and "0 < y'"
  shows "near (a + b) (x / x') (y / y')"
  using near_mult [OF assms(1) near_inverse(2) [OF assms(2,3)]] by simp

lemma near_add1: "near a x y \<Longrightarrow> near a (x + 1) (y + 1)"
  using rr_pow [of a] by (auto simp: near_def distrib_right)

lemma near_fl_step: "near a x y \<Longrightarrow> near (Suc a) (fl x) y"
  using near_trans [OF near_fl, of x a y] by (simp add: near_def)

lemma near_float_of_u64: "near 1 (float_of_u64 u) (val u)"
  unfolding float_of_u64_def by (rule near_fl) simp

lemma float_swap_coin [simp]: "float_of_u64 swap_coin = 1000000"
proof -
  have "unat swap_coin = 1000000" by (simp add: swap_coin_def)
  then have "float_of_u64 swap_coin = fl (of_nat 1000000)" by (simp add: float_of_u64_def val_nat)
  also have "\<dots> = of_nat 1000000" by (rule fl_nat_exact) simp
  finally show ?thesis by simp
qed

lemma near_scaled: "near 2 (fl (float_of_u64 u * 1000000)) (val u * 1000000)"
  using near_fl_step [OF near_mult [OF near_float_of_u64 near_refl [of 1000000]], of u]
  by (simp add: numeral_2_eq_2)

text \<open>The value that a derived amount rounds.\<close>

definition price_v :: "u64 \<Rightarrow> u64 \<Rightarrow> u64 \<Rightarrow> rat" where
  "price_v cd s d = fl (fl (fl (float_of_u64 cd * 1000000)
     * fl (fl (float_of_u64 s * 1000000) / fl (float_of_u64 d * 1000000))) + 1)"

definition exact_price :: "u64 \<Rightarrow> u64 \<Rightarrow> u64 \<Rightarrow> rat" where
  "exact_price cd s d = val cd * val s / val d"

lemma near_price_v:
  assumes "d \<noteq> 0"
  shows "near 9 (price_v cd s d) (exact_price cd s d * 1000000 + 1)"
proof -
  have d: "(0 :: rat) < val d * 1000000" using assms by (simp add: val_u64_pos)
  have "near 5 (fl (fl (float_of_u64 s * 1000000) / fl (float_of_u64 d * 1000000)))
      (val s * 1000000 / (val d * 1000000))"
    using near_fl_step [OF near_div [OF near_scaled near_scaled d], of s] by simp
  from near_fl_step [OF near_add1 [OF near_fl_step [OF near_mult [OF near_scaled this]]], of cd]
  show ?thesis by (simp add: price_v_def exact_price_def mult_ac)
qed

lemma val_minus_one: "val (- 1) = 2 ^ 64 - 1"
proof -
  have "unat (- 1 :: u64) = 2 ^ 64 - 1" by (simp add: unsigned_minus_1_eq_mask mask_eq_exp_minus_1)
  then have "val (- 1) = of_nat (2 ^ 64 - 1)" unfolding val_nat by (simp only:)
  then show ?thesis by simp
qed

lemma fl_int_halfway:
  "fl (2 ^ 63 - 1) = 2 ^ 63" "float_of_u64 (- 1) = 2 ^ 64"
proof -
  have q: "quotient_of (2 ^ 63 - 1) = (2 ^ 63 - 1, 1)" "quotient_of (2 ^ 64 - 1) = (2 ^ 64 - 1, 1)"
    using quotient_of_int [of "2 ^ 63 - 1"] quotient_of_int [of "2 ^ 64 - 1"] by simp_all
  have b: "bitlen 9223372036854775807 = 63" "bitlen 18446744073709551615 = 64" "bitlen 1 = 1"
    by (simp_all add: bitlen.simps)
  have u: "ulp_exp (2 ^ 63 - 1) = 10" "ulp_exp (2 ^ 64 - 1) = 11"
    using b by (simp_all add: ulp_exp_def q [simplified] pow2_def)
  have fl63: "\<lfloor>9223372036854775807 / 1024 :: rat\<rfloor> = 9007199254740991"
    and fl64: "\<lfloor>18446744073709551615 / 2048 :: rat\<rfloor> = 9007199254740991"
    by (rule floor_unique; simp)+
  have r: "round_even ((2 ^ 63 - 1) / pow2 10) = 2 ^ 53" "round_even ((2 ^ 64 - 1) / pow2 11) = 2 ^ 53"
    using fl63 fl64 by (simp_all add: round_even_def Let_def pow2_def)
  show "fl (2 ^ 63 - 1) = 2 ^ 63" using u(1) r(1) by (simp add: fl_def pow2_def)
  have "val (- 1) = 2 ^ 64 - 1" by (rule val_minus_one)
  then show "float_of_u64 (- 1) = 2 ^ 64" using u(2) r(2) by (simp add: float_of_u64_def fl_def pow2_def)
qed

lemma priceDest_source: "priceDest cs s d = priceSource cs d s"
  by (simp add: priceDest_def priceSource_def)

lemma val_u64_of_float:
  assumes "0 \<le> x" and "x < 2 ^ 64"
  shows "val (u64_of_float x) \<le> x" and "x < val (u64_of_float x) + 1"
proof -
  have f: "0 \<le> \<lfloor>x\<rfloor>" "\<lfloor>x\<rfloor> < 2 ^ 64" using assms by (simp_all add: floor_less_iff)
  then have "uint (u64_of_float x) = \<lfloor>x\<rfloor>" by (simp add: u64_of_float_def uint_word_of_int take_bit_int_eq_self)
  then have "val (u64_of_float x) = of_int \<lfloor>x\<rfloor>" using f(1) unfolding val_nat
    by (metis of_int_of_nat_eq uint_nat)
  then show "val (u64_of_float x) \<le> x" "x < val (u64_of_float x) + 1" by linarith+
qed

lemma val_div_coin: "val (w div swap_coin) \<le> val w / 1000000" "(val w + 1) / 1000000 \<le> val (w div swap_coin) + 1"
proof -
  have "unat (w div swap_coin) = unat w div 1000000" by (simp add: unat_div swap_coin_def)
  then have e: "val (w div swap_coin) = of_nat (unat w div 1000000)" by (simp add: val_nat del: unat_div)
  have "unat w div 1000000 * 1000000 \<le> unat w" by simp
  then have "(of_nat (unat w div 1000000 * 1000000) :: rat) \<le> val w" unfolding val_nat of_nat_le_iff .
  then show "val (w div swap_coin) \<le> val w / 1000000" unfolding e by simp
  have "unat w + 1 \<le> (unat w div 1000000 + 1) * 1000000" by simp
  then have "(of_nat (unat w + 1) :: rat) \<le> of_nat ((unat w div 1000000 + 1) * 1000000)" unfolding of_nat_le_iff .
  then have "val w + 1 \<le> of_nat ((unat w div 1000000 + 1) * 1000000)" unfolding val_nat of_nat_add by simp
  then show "(val w + 1) / 1000000 \<le> val (w div swap_coin) + 1" unfolding e by simp
qed

lemma val_at_least_one: "val (if n < 1 then 1 else n) \<le> val n + 1" "val n \<le> val (if n < 1 then 1 else n)"
proof -
  have "val 1 = 1" "val 0 = 0" by (simp_all add: val_nat)
  moreover have "n < 1 \<longleftrightarrow> n = 0" by (metis word_less_1)
  ultimately show "val (if n < 1 then 1 else n) \<le> val n + 1" "val n \<le> val (if n < 1 then 1 else n)" by auto
qed

text \<open>
  A derived amount is the exact price rounded down, up to ten roundings of the floating-point
  arithmetic and one unit, unless it saturates.
\<close>

lemma price_bounds:
  fixes cd s d :: u64
  assumes "d \<noteq> 0"
  defines "E \<equiv> exact_price cd s d + 1 / 1000000" and "ns \<equiv> priceSource cd s d"
  shows "val ns \<le> E * rr ^ 10 + 1" and "ns = - 1 \<or> E < (val ns + 1) * rr ^ 10"
proof -
  define v where "v = price_v cd s d"
  define raw where "raw = (if v < 2 ^ 63 then u64_of_float v div swap_coin
      else let q = fl (v / 1000000) in if q < 2 ^ 64 then u64_of_float q else - 1)"
  have ns: "ns = (if raw < 1 then 1 else raw)"
    using assms(1) by (simp only: ns_def priceSource_def raw_def v_def price_v_def Let_def fl_int_halfway
        float_swap_coin if_False)
  have "near 9 v (E * 1000000)" using near_price_v [OF assms(1), of cd s] by (simp add: v_def E_def distrib_right)
  then have v9: "near 9 (v / 1000000) E" by (simp add: near_def field_simps)
  then have v10: "near 10 (fl (v / 1000000)) E" using near_fl_step by fastforce
  have up: "rr ^ 9 \<le> rr ^ 10" by (rule power_increasing) (simp_all add: rr_def)
  have E: "0 \<le> E" "0 \<le> v" using v9 by (simp_all add: near_def)
  have "val raw \<le> E * rr ^ 10 \<and> (raw = - 1 \<or> E < (val raw + 1) * rr ^ 10)"
  proof (cases "v < 2 ^ 63")
    case True
    then have w: "val (u64_of_float v) \<le> v" "v < val (u64_of_float v) + 1"
      using val_u64_of_float [OF E(2)] by simp_all
    have raw: "raw = u64_of_float v div swap_coin" using True by (simp add: raw_def)
    have hi: "val raw \<le> v / 1000000" and lo: "v / 1000000 < val raw + 1"
      using w val_div_coin [of "u64_of_float v"] by (auto simp: raw)
    have "v / 1000000 \<le> E * rr ^ 10"
      using v9 mult_left_mono [OF up E(1)] by (simp add: near_def)
    moreover have "E < (val raw + 1) * rr ^ 10"
    proof -
      have "E \<le> v / 1000000 * rr ^ 9" using v9 by (simp add: near_def)
      also have "\<dots> < (val raw + 1) * rr ^ 9" using lo by (rule mult_strict_right_mono) simp
      also have "\<dots> \<le> (val raw + 1) * rr ^ 10" using up by (rule mult_left_mono) (simp add: add_nonneg_nonneg)
      finally show ?thesis .
    qed
    ultimately show ?thesis using hi by simp
  next
    case False
    define q where "q = fl (v / 1000000)"
    have q: "0 \<le> q" "q \<le> E * rr ^ 10" "E \<le> q * rr ^ 10" using v10 by (simp_all add: q_def near_def)
    show ?thesis
    proof (cases "q < 2 ^ 64")
      case True
      then have raw: "raw = u64_of_float q" using False by (simp add: raw_def q_def Let_def)
      have w: "val raw \<le> q" "q < val raw + 1" using val_u64_of_float [OF q(1) True] by (simp_all add: raw)
      have "E < (val raw + 1) * rr ^ 10"
        using q(3) mult_strict_right_mono [OF w(2) rr_pos(1) [of 10]] by simp
      then show ?thesis using w(1) q(2) by simp
    next
      case False2: False
      then have "raw = - 1" using False by (simp add: raw_def q_def Let_def)
      then show ?thesis using q(2) False2 val_minus_one by simp
    qed
  qed
  moreover have "raw = - 1 \<Longrightarrow> ns = - 1" by (simp add: ns)
  moreover have "(val raw + 1) * rr ^ 10 \<le> (val ns + 1) * rr ^ 10"
    using val_at_least_one(2) [of raw] by (simp add: ns mult_right_mono)
  ultimately show "val ns \<le> E * rr ^ 10 + 1" and "ns = - 1 \<or> E < (val ns + 1) * rr ^ 10"
    using val_at_least_one(1) [of raw] by (auto simp: ns)
qed

lemma val_of_bound: "w \<le> 100000000000000 \<Longrightarrow> val w \<le> 100000000000000"
proof -
  have "unat (100000000000000 :: u64) = 100000000000000" by simp
  then have "val 100000000000000 = of_nat 100000000000000" unfolding val_nat by (simp only:)
  then have "val 100000000000000 = 100000000000000" by simp
  then show "w \<le> 100000000000000 \<Longrightarrow> val w \<le> 100000000000000" using val_le_iff by metis
qed

lemma val_plus_one: "val k \<le> 100000000000000 \<Longrightarrow> val (k + 1) = val k + 1"
proof -
  assume "val k \<le> 100000000000000"
  then have "val k \<noteq> val (- 1)" by (simp add: val_minus_one)
  then have "1 + k \<noteq> 0" by (metis add_eq_0_iff)
  then have "unat (k + 1) = unat k + 1" by (metis add.commute unatSuc Suc_eq_plus1)
  then show "val (k + 1) = val k + 1" unfolding val_nat by simp
qed

lemma val_minus: "k \<noteq> 0 \<Longrightarrow> val (k - 1) = val k - 1"
proof -
  assume k: "k \<noteq> 0"
  then have "unat (k - 1) + 1 = unat k" using unat_minus_one [OF k] by (simp add: unat_gt_0 Suc_leI)
  then have "(of_nat (unat (k - 1)) :: rat) + 1 = of_nat (unat k)" by (metis of_nat_1 of_nat_add)
  then show "val (k - 1) = val k - 1" unfolding val_nat by linarith
qed

lemma R_bound: "rr ^ 10 \<le> 1 + 1 / 2 ^ 48"
  by (simp add: rr_def power_divide flip: of_nat_power)

text \<open>An amount between two derived prices of neighbours of \<open>k\<close> is near the exact price of \<open>k\<close>.\<close>

lemma price_band:
  assumes d: "d \<noteq> 0" and k: "val k \<le> 100000000000000" and o: "val o' \<le> 100000000000000"
    and j1: "val k - 1 \<le> val j1" and j2: "val j2 \<le> val k + 1"
    and lo: "priceSource j1 s d \<le> o'" and hi: "o' \<le> priceSource j2 s d"
  shows "\<bar>val o' - val k * val s / val d\<bar> \<le> val s / val d * (1 + 1 / 2 ^ 40) + 2"
proof -
  define r where "r = val s / val d"
  define R where "R = rr ^ 10"
  have r: "0 \<le> r" by (simp add: r_def)
  have R: "R \<le> 1 + 1 / 2 ^ 48" using R_bound by (simp add: R_def)
  have E: "exact_price j s d = val j * r" for j by (simp add: exact_price_def r_def)
  have e1: "val k * r - r \<le> val j1 * r" and e2: "val j2 * r \<le> val k * r + r"
    using mult_right_mono [OF j1 r] mult_right_mono [OF j2 r] by (simp_all add: algebra_simps)
  have "val (priceSource j1 s d) \<le> val o'" using lo by (simp add: val_le_iff)
  moreover from this have "priceSource j1 s d \<noteq> - 1" using o val_minus_one by auto
  ultimately have "val j1 * r + 1 / 1000000 < (val o' + 1) * R"
    using price_bounds(2) [OF d, of j1 s] mult_right_mono [of "val (priceSource j1 s d) + 1" "val o' + 1" "rr ^ 10"]
    by (simp add: E R_def)
  moreover have "(val o' + 1) * R \<le> (val o' + 1) * (1 + 1 / 2 ^ 48)"
    using R by (rule mult_left_mono) (simp add: add_nonneg_nonneg)
  ultimately have L: "val k * r - r < (val o' + 1) * (1 + 1 / 2 ^ 48)" using e1 by linarith
  define X where "X = val k * r + r + 1 / 1000000"
  have X: "0 \<le> X" using r mult_nonneg_nonneg [OF val_nonneg r, of k] by (simp add: X_def)
  have "val o' \<le> val (priceSource j2 s d)" using hi by (simp add: val_le_iff)
  also have "\<dots> \<le> (val j2 * r + 1 / 1000000) * R + 1"
    using price_bounds(1) [OF d, of j2 s] by (simp add: E R_def)
  also have "\<dots> \<le> X * R + 1"
    using e2 by (intro add_right_mono mult_right_mono) (simp_all add: X_def R_def less_imp_le)
  also have "\<dots> \<le> X * (1 + 1 / 2 ^ 48) + 1"
    using R X by (intro add_right_mono mult_left_mono)
  finally have U: "val o' \<le> X * (1 + 1 / 2 ^ 48) + 1" .
  have "\<bar>val o' - val k * r\<bar> \<le> r * (1 + 1 / 2 ^ 40) + 2"
    using L U r o val_nonneg [of o'] unfolding X_def abs_le_iff by (simp add: field_simps; linarith)
  then show ?thesis by (simp add: r_def)
qed

section \<open>Properties\<close>

text \<open>
  C28: the drift check keeps the maker's price. When it accepts the amounts of a taker, both at
  most the largest order size, each of them differs from the amount that the maker's quote
  gives for the other by at most the worth of one unit of that other amount plus two units, in
  spite of all rounding errors; and a quote with a zero side is never accepted.
\<close>

theorem PartialOrderDriftCheck_price:
  assumes "PartialOrderDriftCheck mS mD oS oD" and "oS \<le> 100000000000000" and "oD \<le> 100000000000000"
  shows "mS \<noteq> 0 \<and> mD \<noteq> 0
    \<and> \<bar>val oS - val oD * val mD / val mS\<bar> \<le> val mD / val mS * (1 + 1 / 2 ^ 40) + 2
    \<and> \<bar>val oD - val oS * val mS / val mD\<bar> \<le> val mS / val mD * (1 + 1 / 2 ^ 40) + 2"
proof -
  have b: "val oS \<le> 100000000000000" "val oD \<le> 100000000000000" using assms(2,3) val_of_bound by auto
  have nz: "oS \<noteq> 0" "oD \<noteq> 0" using assms(1) by (auto simp: PartialOrderDriftCheck_def)
  have zero: "priceSource x y 0 = 0" for x y by (simp add: priceSource_def)
  have nb: "val oS - 1 \<le> val j" if "j \<in> {oS - 1, oS, oS + 1}" for j
    using that nz b by (auto simp: val_minus val_plus_one)
  show ?thesis
  proof (cases "mS = oD \<and> mD = oS")
    case True
    then show ?thesis using nz by (auto simp: val_u64_pos less_imp_neq [symmetric] field_simps)
  next
    case False
    have "\<exists>j1 \<in> {oD - 1, oD, oD + 1}. \<exists>j2 \<in> {oD - 1, oD, oD + 1}.
        priceSource j1 mD mS \<le> oS \<and> oS \<le> priceSource j2 mD mS"
      and "\<exists>j1 \<in> {oS - 1, oS, oS + 1}. \<exists>j2 \<in> {oS - 1, oS, oS + 1}.
        priceSource j1 mS mD \<le> oD \<and> oD \<le> priceSource j2 mS mD"
      using assms(1) False nz
      by (auto simp: PartialOrderDriftCheck_def Let_def priceDest_source max64_def min64_def not_less split: if_splits)
    then obtain j1 j2 i1 i2 where
      j: "j1 \<in> {oD - 1, oD, oD + 1}" "j2 \<in> {oD - 1, oD, oD + 1}" "priceSource j1 mD mS \<le> oS" "oS \<le> priceSource j2 mD mS"
      and i: "i1 \<in> {oS - 1, oS, oS + 1}" "i2 \<in> {oS - 1, oS, oS + 1}" "priceSource i1 mS mD \<le> oD" "oD \<le> priceSource i2 mS mD"
      by blast
    have m: "mS \<noteq> 0" "mD \<noteq> 0" using j(4) i(4) nz zero by auto
    have "\<bar>val oS - val oD * val mD / val mS\<bar> \<le> val mD / val mS * (1 + 1 / 2 ^ 40) + 2"
      by (rule price_band [OF m(1) b(2,1) _ _ j(3,4)]) (use j(1,2) nz b in \<open>auto simp: val_minus val_plus_one\<close>)
    moreover have "\<bar>val oD - val oS * val mS / val mD\<bar> \<le> val mS / val mD * (1 + 1 / 2 ^ 40) + 2"
      by (rule price_band [OF m(2) b _ _ i(3,4)]) (use i(1,2) nz b in \<open>auto simp: val_minus val_plus_one\<close>)
    ultimately show ?thesis using m by simp
  qed
qed

lemma sample_prices:
  "priceSource 1000000 1500001 500000 = 3000002" "priceSource 1500002 1000000 3000000 = 500000"
  "priceSource 1500000 1000000 3000000 = 500000" "priceDest 500001 1000000 3000000 = 1500003"
  "priceDest 499999 1000000 3000000 = 1499997"
  by (code_simp, code_simp, code_simp, code_simp, code_simp)

theorem PartialOrderDriftCheck_price_witness:
  "PartialOrderDriftCheck 3000000 1000000 500000 1500001
    \<and> \<bar>val 500000 - val 1500001 * val 1000000 / val 3000000\<bar> \<le> val 1000000 / val 3000000 * (1 + 1 / 2 ^ 40) + 2"
proof
  show "PartialOrderDriftCheck 3000000 1000000 500000 1500001"
    by (simp add: PartialOrderDriftCheck_def Let_def sample_prices max64_def min64_def)
  from PartialOrderDriftCheck_price [OF this]
  show "\<bar>val 500000 - val 1500001 * val 1000000 / val 3000000\<bar> \<le> val 1000000 / val 3000000 * (1 + 1 / 2 ^ 40) + 2"
    by simp
qed

end
