(* ===== verification/SwapDeposit.thy ===== *)
theory SwapDeposit
  imports Float64 ProtoPacket Tx
begin

text \<open>
  \<^verbatim>\<open>swap/deposit.go\<close>: the deposit of one side of a swap, a P2SH output whose redeem script is
  the contract of \<^verbatim>\<open>Script\<close>, and the transaction that funds it. The wallet's view of an output
  (\<^verbatim>\<open>wallet.Utxo\<close>) is here too. RIPEMD-160 is the argument \<open>rip\<close> and the clock is an argument.
\<close>

section \<open>Data\<close>

record Utxo =
  ut_TxID :: string
  ut_Vout :: u32
  ut_Address :: string
  ut_Amount :: u64
  ut_Value :: float64
  ut_ScriptPubKey :: string
  ut_Confirmations :: int

record DepositSpec =
  ds_Currency :: string
  ds_Amount :: u64
  ds_DepositorPub :: bytes
  ds_CounterpartyPub :: bytes
  ds_Secret :: bytes
  ds_Hash :: bytes
  ds_LockTime :: u32
  ds_TxVersion :: int

section \<open>Scripts\<close>

definition SecretHash :: "(bytes \<Rightarrow> bytes) \<Rightarrow> DepositSpec \<Rightarrow> bytes" where
  "SecretHash rip d = (if ds_Hash d \<noteq> replicate 20 0 then ds_Hash d
     else let h1 = sha256 (ds_Secret d) in take 20 (rip h1 @ replicate 20 0))"

definition RedeemScript :: "(bytes \<Rightarrow> bytes) \<Rightarrow> DepositSpec \<Rightarrow> bytes go" where
  "RedeemScript rip d = (let sh = SecretHash rip d in
     BuildDepositUnlockScript rip (ds_DepositorPub d) (ds_CounterpartyPub d) sh (ds_LockTime d))"

definition P2SHScript :: "(bytes \<Rightarrow> bytes) \<Rightarrow> DepositSpec \<Rightarrow> bytes go" where
  "P2SHScript rip d = go_bind (RedeemScript rip d) (\<lambda>r. Inr (BuildP2SHScript (KeyID rip r)))"

section \<open>The deposit transaction\<close>

definition reverseHashHex :: "string \<Rightarrow> bytes go" where
  "reverseHashHex s = (case hex_DecodeString s of
       None \<Rightarrow> Inl (GoErr (''swap: bad txid '' @ s))
     | Some b \<Rightarrow> if length b \<noteq> 32 then Inl (GoErr (''swap: bad txid '' @ s))
         else Inr (map (\<lambda>i. b ! (31 - i)) [0..<32]))"

text \<open>The loop that appends one input per funding output, stopping at the first bad id.\<close>

fun deposit_inputs :: "Utxo list \<Rightarrow> TxIn list go" where
  "deposit_inputs [] = Inr []"
| "deposit_inputs (u # us) = go_bind (reverseHashHex (ut_TxID u)) (\<lambda>h.
     go_bind (deposit_inputs us) (\<lambda>ins.
       Inr (\<lparr>ti_PrevOut = \<lparr>op_Hash = h, op_Index = ut_Vout u\<rparr>, ti_ScriptSig = [], ti_Sequence = 0xffffffff,
             ti_Witness = [], ti_Amount = 0\<rparr> # ins)))"

definition total_amount :: "Utxo list \<Rightarrow> u64" where
  "total_amount us = foldl (\<lambda>t u. t + ut_Amount u) 0 us"

definition BuildDepositTx :: "(bytes \<Rightarrow> bytes) \<Rightarrow> int \<Rightarrow> DepositSpec \<Rightarrow> Coin \<Rightarrow> Utxo list \<Rightarrow> bytes
    \<Rightarrow> u64 \<Rightarrow> u64 \<Rightarrow> u64 \<Rightarrow> Tx go" where
  "BuildDepositTx rip now d c funding changeAddr fee fee2 dustLimit = (
     if length funding = 0 then Inl (GoErr ''swap: no funding UTXOs for deposit'')
     else let total = total_amount funding in
     if total < ds_Amount d + fee + fee2 then Inl (GoErr ''swap: funding insufficient for deposit + fees'')
     else let ver = (if ds_TxVersion d \<le> 0 then 1 else ds_TxVersion d);
              tx = \<lparr>tx_Version = word_of_int ver, tx_LockTime = 0, tx_Inputs = [], tx_Outputs = [],
                    tx_SegWit = False, tx_WithTime = False, tx_TxTime = 0\<rparr>;
              tx = (if c_TxWithTimeField c then tx\<lparr>tx_WithTime := True, tx_TxTime := word_of_int now\<rparr> else tx)
          in go_bind (deposit_inputs funding) (\<lambda>ins.
             go_bind (P2SHScript rip d) (\<lambda>p2sh.
               let outs = [\<lparr>to_Value = ds_Amount d + fee2, to_ScriptPubKey = p2sh\<rparr>];
                   change = total - ds_Amount d - fee - fee2;
                   outs = (if change > 0 \<and> (dustLimit = 0 \<or> change \<ge> dustLimit)
                     then outs @ [\<lparr>to_Value = change, to_ScriptPubKey = BuildP2PKHScript changeAddr\<rparr>] else outs)
               in Inr (tx\<lparr>tx_Inputs := ins, tx_Outputs := outs\<rparr>))))"

definition DepositSpec_SignInput :: "('s, 'k) der_lib \<Rightarrow> DepositSpec \<Rightarrow> Tx \<Rightarrow> int \<Rightarrow> bytes \<Rightarrow> u64 \<Rightarrow> bytes
    \<Rightarrow> Coin \<Rightarrow> bytes go" where
  "DepositSpec_SignInput L d tx idx prevScript amount priv c = SignTxInputForCoin L tx idx prevScript amount priv c"

definition RefundScriptSig :: "(bytes \<Rightarrow> bytes) \<Rightarrow> DepositSpec \<Rightarrow> bytes \<Rightarrow> bytes go" where
  "RefundScriptSig rip d sig = go_bind (RedeemScript rip d) (\<lambda>r. Inr (BuildRefundScriptSig sig (ds_DepositorPub d) r))"

section \<open>Lemmas\<close>

lemma map_rev_index: "length b = 32 \<Longrightarrow> map (\<lambda>i. b ! (31 - i)) [0..<32] = rev b"
  by (rule nth_equalityI) (simp_all add: rev_nth)

lemma reverseHashHex_ok: "reverseHashHex s = Inr h \<longleftrightarrow> (\<exists>b. hex_DecodeString s = Some b \<and> length b = 32 \<and> h = rev b)"
  by (auto simp: reverseHashHex_def map_rev_index split: option.splits if_splits)

lemma reverseHashHex_hex [simp]: "length b = 32 \<Longrightarrow> reverseHashHex (hex_EncodeToString b) = Inr (rev b)"
  by (simp add: reverseHashHex_ok)

lemma length_SecretHash: "length (ds_Hash d) = 20 \<Longrightarrow> length (SecretHash rip d) = 20"
  by (auto simp: SecretHash_def Let_def min_def)

lemma RedeemScript_total: "length (ds_Hash d) = 20 \<Longrightarrow> \<exists>r. RedeemScript rip d = Inr r"
  using deposit_parse [of "SecretHash rip d" rip "ds_DepositorPub d" "ds_CounterpartyPub d" "ds_LockTime d"]
  by (auto simp: RedeemScript_def Let_def length_SecretHash)

lemma deposit_inputs_spend:
  "deposit_inputs us = Inr ins \<Longrightarrow>
     length ins = length us \<and> (\<forall>i \<in> set ins. ti_Sequence i = 0xffffffff \<and> length (op_Hash (ti_PrevOut i)) = 32)
     \<and> map (\<lambda>i. Inr (op_Hash (ti_PrevOut i))) ins = map (\<lambda>u. reverseHashHex (ut_TxID u)) us
     \<and> map (\<lambda>i. op_Index (ti_PrevOut i)) ins = map ut_Vout us"
proof (induction us arbitrary: ins)
  case (Cons u us)
  then obtain h rest where u: "reverseHashHex (ut_TxID u) = Inr h" and us: "deposit_inputs us = Inr rest"
    and ins: "ins = \<lparr>ti_PrevOut = \<lparr>op_Hash = h, op_Index = ut_Vout u\<rparr>, ti_ScriptSig = [], ti_Sequence = 0xffffffff,
      ti_Witness = [], ti_Amount = 0\<rparr> # rest"
    by auto
  have "length h = 32" using u by (auto simp: reverseHashHex_ok)
  then show ?case using Cons.IH [OF us] u by (simp add: ins)
qed simp

definition nat_total :: "Utxo list \<Rightarrow> nat" where
  "nat_total us = sum_list (map (\<lambda>u. unat (ut_Amount u)) us)"

lemma foldl_amount: "foldl (\<lambda>t u. t + ut_Amount u) a us = a + of_nat (nat_total us)"
  by (induction us arbitrary: a) (simp_all add: nat_total_def add.assoc)

lemma total_amount_nat: "nat_total us < 2 ^ 64 \<Longrightarrow> unat (total_amount us) = nat_total us"
  by (simp add: total_amount_def foldl_amount unat_of_nat)

lemma unat_add3:
  fixes a b c :: u64
  assumes "unat a + unat b + unat c < 2 ^ 64"
  shows "unat (a + b + c) = unat a + unat b + unat c"
proof -
  have "unat (a + b) = unat a + unat b" using assms by (intro unat_add_lem [THEN iffD1]) simp
  then show ?thesis using assms by (intro trans [OF unat_add_lem [THEN iffD1]]) simp_all
qed

section \<open>Properties\<close>

text \<open>
  C22: a deposit transaction conserves value. When the funding and the sum of amount and fees
  are below \<open>2 ^ 64\<close>, the transaction that is built spends exactly the given outputs, each with
  a final sequence number, pays the contract the amount plus the redeem fee as its first output,
  and what the inputs carry is what the outputs pay plus the network fee plus a change that was
  dropped only because it is below the dust limit.
\<close>

theorem BuildDepositTx_conserves:
  assumes tx: "BuildDepositTx rip now d c funding changeAddr fee fee2 dustLimit = Inr tx"
    and total: "nat_total funding < 2 ^ 64" and fees: "unat (ds_Amount d) + unat fee + unat fee2 < 2 ^ 64"
  shows "map (\<lambda>i. op_Index (ti_PrevOut i)) (tx_Inputs tx) = map ut_Vout funding
    \<and> map (\<lambda>i. Inr (op_Hash (ti_PrevOut i))) (tx_Inputs tx) = map (\<lambda>u. reverseHashHex (ut_TxID u)) funding
    \<and> (\<forall>i \<in> set (tx_Inputs tx). ti_Sequence i = 0xffffffff)
    \<and> unat (to_Value (hd (tx_Outputs tx))) = unat (ds_Amount d) + unat fee2
    \<and> Inr (to_ScriptPubKey (hd (tx_Outputs tx))) = P2SHScript rip d
    \<and> (\<exists>lost. nat_total funding = sum_list (map (\<lambda>t. unat (to_Value t)) (tx_Outputs tx)) + unat fee + lost
         \<and> (lost = 0 \<or> lost < unat dustLimit))"
proof -
  let ?need = "ds_Amount d + fee + fee2" and ?total = "total_amount funding"
  let ?change = "?total - ds_Amount d - fee - fee2"
  obtain ins p2sh where ins: "deposit_inputs funding = Inr ins" and p: "P2SHScript rip d = Inr p2sh"
    and enough: "?need \<le> ?total" and ti: "tx_Inputs tx = ins"
    and to: "tx_Outputs tx = (if ?change > 0 \<and> (dustLimit = 0 \<or> ?change \<ge> dustLimit)
        then [\<lparr>to_Value = ds_Amount d + fee2, to_ScriptPubKey = p2sh\<rparr>,
              \<lparr>to_Value = ?change, to_ScriptPubKey = BuildP2PKHScript changeAddr\<rparr>]
        else [\<lparr>to_Value = ds_Amount d + fee2, to_ScriptPubKey = p2sh\<rparr>])"
    using tx by (auto simp: BuildDepositTx_def Let_def not_less split: if_splits)
  have need: "unat ?need = unat (ds_Amount d) + unat fee + unat fee2" by (rule unat_add3 [OF fees])
  have v0: "unat (ds_Amount d + fee2) = unat (ds_Amount d) + unat fee2"
    using fees by (intro unat_add_lem [THEN iffD1]) simp
  have c: "?change = ?total - ?need" by (simp add: algebra_simps)
  have ch: "unat ?change = nat_total funding - (unat (ds_Amount d) + unat fee + unat fee2)"
    unfolding c using unat_sub [OF enough] need total_amount_nat [OF total] by simp
  have le: "unat (ds_Amount d) + unat fee + unat fee2 \<le> nat_total funding"
    using enough need total_amount_nat [OF total] by (simp add: word_le_nat_alt)
  have "\<exists>lost. nat_total funding = sum_list (map (\<lambda>t. unat (to_Value t)) (tx_Outputs tx)) + unat fee + lost
         \<and> (lost = 0 \<or> lost < unat dustLimit)"
  proof (cases "?change > 0 \<and> (dustLimit = 0 \<or> ?change \<ge> dustLimit)")
    case True
    then show ?thesis using ch le v0 by (intro exI [of _ 0]) (simp add: to)
  next
    case False
    then have "unat ?change = 0 \<or> unat ?change < unat dustLimit"
      by (auto simp: word_less_nat_alt word_le_nat_alt not_less)
    moreover have "sum_list (map (\<lambda>t. unat (to_Value t)) (tx_Outputs tx)) = unat (ds_Amount d) + unat fee2"
      unfolding to if_not_P [OF False] using v0 by simp
    ultimately show ?thesis using ch le by (intro exI [of _ "unat ?change"]) simp
  qed
  then show ?thesis using deposit_inputs_spend [OF ins] v0 p by (auto simp: ti to)
qed

definition demo_spec :: DepositSpec where
  "demo_spec = \<lparr>ds_Currency = ''BTC'', ds_Amount = 1000, ds_DepositorPub = [1], ds_CounterpartyPub = [2],
     ds_Secret = replicate 33 3, ds_Hash = replicate 20 7, ds_LockTime = 500, ds_TxVersion = 1\<rparr>"

definition demo_utxo :: Utxo where
  "demo_utxo = \<lparr>ut_TxID = hex_EncodeToString (replicate 32 9), ut_Vout = 1, ut_Address = ''a'', ut_Amount = 1500,
     ut_Value = 0, ut_ScriptPubKey = [], ut_Confirmations = 6\<rparr>"

theorem BuildDepositTx_conserves_witness:
  "\<exists>tx. BuildDepositTx (se_rip demo_env) 0 demo_spec sample [demo_utxo] (replicate 20 0) 100 50 546 = Inr tx
    \<and> unat (to_Value (hd (tx_Outputs tx))) = 1050 \<and> Inr (to_ScriptPubKey (hd (tx_Outputs tx))) = P2SHScript (se_rip demo_env) demo_spec"
proof -
  have h: "ds_Hash demo_spec = replicate 20 7" "replicate 20 7 \<noteq> (replicate 20 0 :: bytes)"
    by (simp_all add: demo_spec_def)
  have "P2SHScript (se_rip demo_env) demo_spec = Inr (BuildP2SHScript (KeyID (se_rip demo_env) demo_script))"
    using demo_build h by (simp add: P2SHScript_def RedeemScript_def SecretHash_def Let_def) (simp add: demo_spec_def)
  then obtain tx where tx: "BuildDepositTx (se_rip demo_env) 0 demo_spec sample [demo_utxo] (replicate 20 0) 100 50 546 = Inr tx"
    by (simp add: BuildDepositTx_def demo_utxo_def total_amount_def Let_def) (simp add: demo_spec_def Let_def)
  have "nat_total [demo_utxo] < 2 ^ 64" by (simp add: nat_total_def demo_utxo_def)
  moreover have "unat (ds_Amount demo_spec) + unat (100 :: u64) + unat (50 :: u64) < 2 ^ 64" by (simp add: demo_spec_def)
  moreover have "unat (ds_Amount demo_spec) + unat (50 :: u64) = 1050" by (simp add: demo_spec_def)
  ultimately show ?thesis using BuildDepositTx_conserves [OF tx] tx by auto
qed

end
