(* ===== verification/ApiResponse.thy ===== *)
theory ApiResponse
  imports SwapPrice SwapDeposit
begin

text \<open>
  \<^verbatim>\<open>api/response.go\<close> and \<^verbatim>\<open>api/cancel_reason.go\<close>: the forms in which amounts, order ids, states,
  errors and cancel reasons appear in the dx* calls. An order id is kept as 32 raw bytes,
  shown in reversed order, and keyed by the hex of the raw bytes.
\<close>

section \<open>Errors\<close>

record rpcError =
  re_Error :: string
  re_Code :: int
  re_Name :: string
  re_envelope :: bool

definition makeEnvelopeError :: "int \<Rightarrow> string \<Rightarrow> rpcError" where
  "makeEnvelopeError code msg = \<lparr>re_Error = msg, re_Code = code, re_Name = [], re_envelope = True\<rparr>"

definition xbridgeErrorText :: "int \<Rightarrow> string \<Rightarrow> string" where
  "xbridgeErrorText code arg = (
     if code = 0 then []
     else if code = 1001 then ''Unauthorized '' @ arg
     else if code = 1002 then ''Internal Server Error''
     else if code = 1004 then ''Bad Request '' @ arg
     else if code = 1011 then ''Invalid maker symbol '' @ arg
     else if code = 1012 then ''Invalid taker symbol '' @ arg
     else if code = 1015 then ''Invalid detail level, possible values: 1 - 3''
     else if code = 1016 then ''Invalid time format, ISO 8601 date format required''
     else if code = 1017 then ''Invalid coin '' @ arg
     else if code = 1018 then ''No session for currency '' @ arg
     else if code = 1019 then ''Insufficient funds for '' @ arg
     else if code = 1020 then ''Funds not signed for '' @ arg
     else if code = 1021 then ''Transaction '' @ arg @ '' not found''
     else if code = 1022 then ''Unknown session for '' @ arg
     else if code = 1023 then ''Revert tx failed for '' @ arg
     else if code = 1024 then ''Invalid amount '' @ arg
     else if code = 1025 then ''Invalid parameters: '' @ arg
     else if code = 1026 then ''Bad address '' @ arg
     else if code = 1027 then ''Invalid signature '' @ arg
     else if code = 1028 then ''invalid transaction state '' @ arg
     else if code = 1029 then ''Blocknet is not running as an exchange node''
     else if code = 1030 then ''Amount is dust (very small)''
     else if code = 1031 then ''Blocknet wallet amount is too small to cover the fee payment''
     else if code = 1032 then ''Could not find a service node with required services: '' @ arg
     else if code = 1033 then ''The order information could not be written to the blockchain''
     else if code = 1034 then ''Partial orders not allowed for this transaction''
     else ''invalid error value'')"

definition makeError :: "int \<Rightarrow> string \<Rightarrow> string \<Rightarrow> rpcError" where
  "makeError code name msg = \<lparr>re_Error = xbridgeErrorText code msg, re_Code = code, re_Name = name, re_envelope = False\<rparr>"

section \<open>Amounts\<close>

definition coinScale :: nat where "coinScale = 1000000"
definition maxXSize :: u64 where "maxXSize = 100000000 * 1000000"

definition formatXAmount :: "u64 \<Rightarrow> string" where
  "formatXAmount amt = (let q = unat amt div coinScale; r = unat amt mod coinScale
     in nat_str q @ ''.'' @ pad_left 6 (nat_str r))"

definition parseXAmount :: "string \<Rightarrow> u64 go" where
  "parseXAmount s0 = (let s = TrimSpace s0; bad = Inl (GoErr ''api: invalid amount'') in
     if s = [] then bad
     else if hd s = CHR ''-'' then bad
     else let (intStr, fracStr) = (case IndexByte s (CHR ''.'') of
                 Some dot \<Rightarrow> (take dot s, drop (dot + 1) s) | None \<Rightarrow> (s, []))
     in if \<not> list_all is_digit intStr then bad
     else if \<not> list_all is_digit fracStr then bad
     else let intStr = (if intStr = [] then ''0'' else intStr);
              frac = take 6 fracStr;
              frac = frac @ replicate (6 - length frac) CHR ''0''
     in case SetString10 (intStr @ frac) of None \<Rightarrow> bad
        | Some combined \<Rightarrow> if combined < 0 \<or> combined > 2 ^ 64 - 1 then bad else Inr (word_of_int combined))"

definition xBridgeSourceAmountFromPrice :: "u64 \<Rightarrow> u64 \<Rightarrow> u64 \<Rightarrow> u64" where
  "xBridgeSourceAmountFromPrice counterpartyDestAmount sourceAmount destAmount = (
     if destAmount = 0 then 0
     else let c = 1000000 :: float64;
              cda = fl (float_of_u64 counterpartyDestAmount * c);
              sa = fl (float_of_u64 sourceAmount * c);
              da = fl (float_of_u64 destAmount * c);
              v = fl (fl (cda * fl (sa / da)) + 1);
              out = (if v < fl (2 ^ 63 - 1) then u64_of_float v div 1000000
                     else let q = fl (v / c) in if q < float_of_u64 (- 1) then u64_of_float q else - 1)
          in if out < 1 then 1 else out)"

function sig_loop :: "int \<Rightarrow> int \<Rightarrow> int" where
  "sig_loop i n = (let n = n + 1; i = i div 10 in if i \<le> 1 then n else sig_loop i n)"
  by pat_completeness auto

termination
  by (relation "measure (\<lambda>(i, n). nat i)") auto

definition xBridgeSignificantDigits :: "int \<Rightarrow> int" where
  "xBridgeSignificantDigits coin = sig_loop coin 0"

text \<open>The scan of the digits after the first dot: how many there are, and how many of them are trailing zeros.\<close>

fun valid_scan :: "bool \<Rightarrow> int \<Rightarrow> int \<Rightarrow> string \<Rightarrow> int" where
  "valid_scan f n trailingZeros [] = n - trailingZeros"
| "valid_scan f n trailingZeros (c # s) = (
     if \<not> f \<and> c = CHR ''.'' then valid_scan True n trailingZeros s
     else if f then valid_scan f (n + 1) (if c = CHR ''0'' then trailingZeros + 1 else 0) s
     else valid_scan f n trailingZeros s)"

definition xBridgeValidCoin :: "string \<Rightarrow> bool" where
  "xBridgeValidCoin amountStr \<longleftrightarrow> valid_scan False 0 0 amountStr \<le> xBridgeSignificantDigits (int coinScale)"

section \<open>States\<close>

definition statusString :: "string \<Rightarrow> string" where
  "statusString s = (
     if s \<in> set [''trExpired'', ''expired''] then ''expired''
     else if s \<in> set [''trNew'', ''new''] then ''new''
     else if s \<in> set [''trOffline'', ''offline''] then ''offline''
     else if s \<in> set [''trPending'', ''pending'', ''open''] then ''open''
     else if s \<in> set [''trAccepting'', ''accepting''] then ''accepting''
     else if s \<in> set [''trHold'', ''hold''] then ''hold''
     else if s \<in> set [''trInitialized'', ''initialized''] then ''initialized''
     else if s \<in> set [''trCreated'', ''created''] then ''created''
     else if s \<in> set [''trSigned'', ''signed''] then ''signed''
     else if s \<in> set [''trCommited'', ''trCommitted'', ''commited'', ''committed''] then ''commited''
     else if s \<in> set [''trFinished'', ''finished''] then ''finished''
     else if s \<in> set [''trRollback'', ''rolled back''] then ''rolled back''
     else if s \<in> set [''trRollbackFailed'', ''rollback failed''] then ''rollback failed''
     else if s \<in> set [''trDropped'', ''dropped''] then ''dropped''
     else if s \<in> set [''trCancelled'', ''canceled'', ''cancelled''] then ''canceled''
     else if s \<in> set [''trInvalid'', ''invalid''] then ''invalid''
     else ''unknown'')"

definition stateOrdinal :: "string \<Rightarrow> int" where
  "stateOrdinal s = DescrStateOrdinal (statusString s)"

definition orderTypeString :: "bool \<Rightarrow> string" where
  "orderTypeString partial = (if partial then ''partial'' else ''exact'')"

section \<open>Order ids\<close>

definition isZeroID :: "bytes \<Rightarrow> bool" where
  "isZeroID i \<longleftrightarrow> list_all ((=) 0) i"

definition hexEncode :: "bytes \<Rightarrow> string" where
  "hexEncode b = hex_EncodeToString b"

definition orderIDString :: "bytes \<Rightarrow> string" where
  "orderIDString i = (let r = map (\<lambda>k. i ! (31 - k)) [0..<32] in hexEncode r)"

definition parentIDString :: "bytes \<Rightarrow> string" where
  "parentIDString i = (if isZeroID i then [] else orderIDString i)"

definition hexDigit :: "char \<Rightarrow> int" where
  "hexDigit ch = (let c = int (of_char ch) in
     if 48 \<le> c \<and> c \<le> 57 then c - 48
     else if 97 \<le> c \<and> c \<le> 102 then c - 97 + 10
     else if 65 \<le> c \<and> c \<le> 70 then c - 65 + 10
     else - 1)"

definition isSpace :: "char \<Rightarrow> bool" where
  "isSpace ch \<longleftrightarrow> (of_char ch :: nat) \<in> set [32, 9, 10, 11, 12, 13]"

text \<open>The loop over the hex digits from the last one: the even ones set a byte, the odd ones fill its high half.\<close>

fun parse_nibbles :: "nat \<Rightarrow> string \<Rightarrow> bytes \<Rightarrow> bytes" where
  "parse_nibbles n [] i = i"
| "parse_nibbles n (c # s) i = (
     if n \<ge> 64 then i
     else if even n then parse_nibbles (n + 1) s (i[n div 2 := word_of_int (hexDigit c)])
     else parse_nibbles (n + 1) s (i[n div 2 := i ! (n div 2) OR push_bit 4 (word_of_int (hexDigit c))]))"

definition parseOrderIDS :: "string \<Rightarrow> bytes" where
  "parseOrderIDS s0 = (let s = dropWhile isSpace s0;
       s = (if 2 \<le> length s \<and> s ! 0 = CHR ''0'' \<and> (s ! 1 = CHR ''x'' \<or> s ! 1 = CHR ''X'') then drop 2 s else s);
       digits = takeWhile (\<lambda>c. hexDigit c \<ge> 0) s
     in parse_nibbles 0 (rev digits) (replicate 32 0))"

definition idIsNull :: "bytes \<Rightarrow> bool" where
  "idIsNull i \<longleftrightarrow> i = replicate 32 0"

text \<open>\<^verbatim>\<open>bytes.Compare(a, b) < 0\<close>.\<close>

fun orderIDLess :: "bytes \<Rightarrow> bytes \<Rightarrow> bool" where
  "orderIDLess [] [] = False"
| "orderIDLess [] (y # ys) = True"
| "orderIDLess (x # xs) [] = False"
| "orderIDLess (x # xs) (y # ys) = (x < y \<or> (x = y \<and> orderIDLess xs ys))"

definition orderIDKey :: "string \<Rightarrow> string" where
  "orderIDKey i = (let raw = parseOrderIDS i in hexEncode raw)"

section \<open>Cancel reasons\<close>

type_synonym TxCancelReason = u32

definition crUnknown :: TxCancelReason where "crUnknown = 0"
definition crBadSettings :: TxCancelReason where "crBadSettings = 1"
definition crUserRequest :: TxCancelReason where "crUserRequest = 2"
definition crNoMoney :: TxCancelReason where "crNoMoney = 3"
definition crBadUtxo :: TxCancelReason where "crBadUtxo = 4"
definition crDust :: TxCancelReason where "crDust = 5"
definition crRpcError :: TxCancelReason where "crRpcError = 6"
definition crNotSigned :: TxCancelReason where "crNotSigned = 7"
definition crNotAccepted :: TxCancelReason where "crNotAccepted = 8"
definition crRollback :: TxCancelReason where "crRollback = 9"
definition crRpcRequest :: TxCancelReason where "crRpcRequest = 10"
definition crXbridgeRejected :: TxCancelReason where "crXbridgeRejected = 11"
definition crInvalidAddress :: TxCancelReason where "crInvalidAddress = 12"
definition crBlocknetError :: TxCancelReason where "crBlocknetError = 13"
definition crBadADepositTx :: TxCancelReason where "crBadADepositTx = 14"
definition crBadBDepositTx :: TxCancelReason where "crBadBDepositTx = 15"
definition crTimeout :: TxCancelReason where "crTimeout = 16"
definition crBadLockTime :: TxCancelReason where "crBadLockTime = 17"
definition crBadALockTime :: TxCancelReason where "crBadALockTime = 18"
definition crBadBLockTime :: TxCancelReason where "crBadBLockTime = 19"
definition crBadAUtxo :: TxCancelReason where "crBadAUtxo = 20"
definition crBadBUtxo :: TxCancelReason where "crBadBUtxo = 21"
definition crBadARefundTx :: TxCancelReason where "crBadARefundTx = 22"
definition crBadBRefundTx :: TxCancelReason where "crBadBRefundTx = 23"
definition crBadFeeTx :: TxCancelReason where "crBadFeeTx = 24"

lemmas cr_defs = crUnknown_def crBadSettings_def crUserRequest_def crNoMoney_def crBadUtxo_def crDust_def
  crRpcError_def crNotSigned_def crNotAccepted_def crRollback_def crRpcRequest_def crXbridgeRejected_def
  crInvalidAddress_def crBlocknetError_def crBadADepositTx_def crBadBDepositTx_def crTimeout_def
  crBadLockTime_def crBadALockTime_def crBadBLockTime_def crBadAUtxo_def crBadBUtxo_def crBadARefundTx_def
  crBadBRefundTx_def crBadFeeTx_def

definition TxCancelReasonText :: "u32 \<Rightarrow> string" where
  "TxCancelReasonText reason = (
     if reason = crBadSettings then ''crUnknown''
     else if reason = crUserRequest then ''crUserRequest''
     else if reason = crNoMoney then ''crNoMoney''
     else if reason = crBadUtxo then ''crBadUtxo''
     else if reason = crDust then ''crDust''
     else if reason = crRpcError then ''crRpcError''
     else if reason = crNotSigned then ''crNotSigned''
     else if reason = crNotAccepted then ''crNotAccepted''
     else if reason = crRollback then ''crRollback''
     else if reason = crRpcRequest then ''crRpcRequest''
     else if reason = crXbridgeRejected then ''crXbridgeRejected''
     else if reason = crInvalidAddress then ''crInvalidAddress''
     else if reason = crBlocknetError then ''crBlocknetError''
     else if reason = crBadADepositTx then ''crBadADepositTx''
     else if reason = crBadBDepositTx then ''crBadBDepositTx''
     else if reason = crTimeout then ''crTimeout''
     else if reason = crBadLockTime then ''crBadLockTime''
     else if reason = crBadALockTime then ''crBadALockTime''
     else if reason = crBadBLockTime then ''crBadBLockTime''
     else if reason = crBadAUtxo then ''crBadAUtxo''
     else if reason = crBadBUtxo then ''crBadBUtxo''
     else if reason = crBadARefundTx then ''crBadARefundTx''
     else if reason = crBadBRefundTx then ''crBadBRefundTx''
     else if reason = crBadFeeTx then ''crBadFeeTx''
     else ''crNone'')"

section \<open>Lemmas\<close>

lemma hexChar_digit: "n < 16 \<Longrightarrow> hexDigit (hexChar n) = int n"
  by (simp add: hexDigit_def hexChar_def Let_def)

lemma hexChar_plain: "n < 16 \<Longrightarrow> \<not> isSpace (hexChar n) \<and> hexChar n \<noteq> CHR ''x'' \<and> hexChar n \<noteq> CHR ''X''"
  by (auto simp: isSpace_def hexChar_def dest: arg_cong [where f = "of_char :: char \<Rightarrow> nat"])

lemma nibbles: "unat (x :: byte) div 16 < 16" "unat x mod 16 < 16"
  using unat_less_2p [of x] by (simp_all add: less_mult_imp_div_less)

lemma byte_of_nibbles: "(word_of_int (int (unat x mod 16)) :: byte) OR push_bit 4 (word_of_int (int (unat x div 16))) = x"
proof -
  have "word_of_int (int (unat x mod 16)) = take_bit 4 x" "word_of_int (int (unat x div 16)) = drop_bit 4 x"
    by (simp_all add: word_unat_eq_iff unat_of_nat take_bit_eq_mod unat_mod unat_drop_bit_eq drop_bit_eq_div
        mod_less le_less_trans [OF div_le_dividend] unat_less_2p [of x, simplified] unat_div)
  moreover have "take_bit 4 x OR push_bit 4 (drop_bit 4 x) = x" 
  proof (rule bit_eqI)
    fix n
    show "bit (take_bit 4 x OR push_bit 4 (drop_bit 4 x)) n = bit x n" if "possible_bit TYPE(byte) n"
      using that by (cases "4 \<le> n") (auto simp: bit_simps)
  qed
  ultimately show ?thesis by simp
qed

lemma rev_concat_pairs: "rev (concat (map (\<lambda>x. [f x, g x]) (rev xs))) = concat (map (\<lambda>x. [g x, f x]) xs)"
  by (induction xs) auto

lemma parse_nibbles_bytes:
  "length pre + length ys = 32 \<Longrightarrow>
   parse_nibbles (2 * length pre) (concat (map (\<lambda>x. [hexChar (unat x mod 16), hexChar (unat x div 16)]) ys))
     (pre @ replicate (length ys) 0) = pre @ ys"
proof (induction ys arbitrary: pre)
  case (Cons y ys)
  let ?n = "2 * length pre"
  have n: "?n < 64" using Cons.prems by simp
  have "parse_nibbles ?n (concat (map (\<lambda>x. [hexChar (unat x mod 16), hexChar (unat x div 16)]) (y # ys)))
      (pre @ replicate (length (y # ys)) 0)
    = parse_nibbles (?n + 2) (concat (map (\<lambda>x. [hexChar (unat x mod 16), hexChar (unat x div 16)]) ys))
        ((pre @ [y]) @ replicate (length ys) 0)"
    using n nibbles [of y] byte_of_nibbles [of y]
    by (simp add: hexChar_digit list_update_append nth_append)
  also have "\<dots> = (pre @ [y]) @ ys" using Cons.IH [of "pre @ [y]"] Cons.prems by simp
  finally show ?case by simp
qed simp

lemma orderIDString_rev: "length i = 32 \<Longrightarrow> orderIDString i = hexEncode (rev i)"
  by (simp add: orderIDString_def map_rev_index)

lemma hexEncode_chars: "c \<in> set (hexEncode b) \<Longrightarrow> \<exists>n < 16. c = hexChar n"
  by (auto simp: hexEncode_def hex_EncodeToString_def intro: nibbles)

lemma parseOrderIDS_hex:
  assumes "length i = 32"
  shows "parseOrderIDS (hexEncode (rev i)) = i"
proof -
  let ?s = "hexEncode (rev i)"
  have c: "\<not> isSpace c \<and> c \<noteq> CHR ''x'' \<and> c \<noteq> CHR ''X'' \<and> 0 \<le> hexDigit c" if "c \<in> set ?s" for c
    using hexEncode_chars [OF that] hexChar_plain by (auto simp: hexChar_digit)
  then have sp: "dropWhile isSpace ?s = ?s" by (simp add: dropWhile_eq_self_iff)
  have x: "\<not> (2 \<le> length ?s \<and> ?s ! 0 = CHR ''0'' \<and> (?s ! 1 = CHR ''x'' \<or> ?s ! 1 = CHR ''X''))"
    using c [of "?s ! 1"] by (auto dest: nth_mem [of 1])
  have tw: "takeWhile (\<lambda>c. hexDigit c \<ge> 0) ?s = ?s" using c by (simp add: takeWhile_eq_all_conv)
  have "rev ?s = concat (map (\<lambda>x. [hexChar (unat x mod 16), hexChar (unat x div 16)]) i)"
    by (simp add: hexEncode_def hex_EncodeToString_def rev_concat_pairs)
  then show ?thesis
    unfolding parseOrderIDS_def Let_def sp if_not_P [OF x] tw
    using parse_nibbles_bytes [of "[]" i] assms by simp
qed

definition status_list :: "string list" where
  "status_list = [''unknown'', ''expired'', ''new'', ''offline'', ''open'', ''accepting'', ''hold'', ''initialized'',
     ''created'', ''signed'', ''commited'', ''finished'', ''rolled back'', ''rollback failed'', ''dropped'',
     ''canceled'', ''invalid'']"

lemma status_range: "statusString s \<in> set status_list"
  unfolding statusString_def status_list_def by simp

lemma status_table:
  "list_all (\<lambda>t. statusString t = t \<and> (t = ''unknown'' \<and> DescrStateOrdinal t = 0
     \<or> DescrStateFromName t = Some (DescrStateOrdinal t) \<and> DescrState_String (DescrStateOrdinal t) = t)) status_list"
  by code_simp

section \<open>Properties\<close>

text \<open>
  An order id survives its display form. What the calls show for a 32-byte id is read back
  as that id, and the key of the shown form is the key under which the store keeps the order.
\<close>

theorem orderID_roundtrip:
  assumes "length i = 32"
  shows "parseOrderIDS (orderIDString i) = i \<and> orderIDKey (orderIDString i) = hexEncode i"
  using assms parseOrderIDS_hex [OF assms] by (simp add: orderIDString_rev orderIDKey_def)

theorem orderID_roundtrip_witness:
  "parseOrderIDS (orderIDString (replicate 31 0xab @ [0x0f])) = replicate 31 0xab @ [0x0f]"
  using orderID_roundtrip [of "replicate 31 0xab @ [0x0f]"] by simp

text \<open>
  An order amount survives its display form: every 64-bit amount in base units, written
  with its six decimals, is read back unchanged.
\<close>

theorem XAmount_roundtrip: "parseXAmount (formatXAmount amt) = Inr amt"
proof -
  let ?q = "unat amt div 1000000" and ?r = "unat amt mod 1000000"
  let ?f = "pad_left 6 (nat_str ?r)"
  have f: "list_all is_digit ?f" "digits_val ?f = ?r" "length ?f = 6"
    by (intro pad_digits; simp)+
  have q: "list_all is_digit (nat_str ?q)" "nat_str ?q \<noteq> []" "digits_val (nat_str ?q) = ?q"
    using nat_str_digits [of ?q] by auto
  have s: "formatXAmount amt = nat_str ?q @ CHR ''.'' # ?f" by (simp add: formatXAmount_def coinScale_def)
  have hd: "hd (nat_str ?q @ CHR ''.'' # ?f) \<noteq> CHR ''-''" using q(1,2) by (cases "nat_str ?q") (auto simp: is_digit_def)
  have dot: "IndexByte (nat_str ?q @ CHR ''.'' # ?f) CHR ''.'' = Some (length (nat_str ?q))"
    using IndexByte_append digit_not_dot q(1) by blast
  have "digits_val (nat_str ?q @ ?f) = unat amt"
    using div_mult_mod_eq [of "unat amt" 1000000] by (simp add: digits_val_append f q(3))
  moreover have "SetString10 (nat_str ?q @ ?f) = Some (int (digits_val (nat_str ?q @ ?f)))"
    unfolding SetString10_def using q f by (intro digits_not_sign) auto
  ultimately have v: "SetString10 (nat_str ?q @ ?f) = Some (uint amt)" unfolding uint_nat by simp
  have "uint amt < 2 ^ 64" using uint_bounded [of amt] by simp
  then show ?thesis
    unfolding parseXAmount_def s Let_def trim_amount(1) [OF q(1) f(1)] dot
    using hd q(1,2) f(1,3) v by simp
qed

text \<open>
  The states that the calls show are exactly the descriptor states. Every internal status
  string is shown as the name of a descriptor state or as \<open>unknown\<close>, showing is idempotent, each
  descriptor state has one name, and the ordinal that guards cancelling is the number of the
  shown state.
\<close>

theorem status_names:
  "statusString (statusString s) = statusString s
   \<and> (statusString s = ''unknown'' \<and> stateOrdinal s = 0
      \<or> DescrStateFromName (statusString s) = Some (stateOrdinal s)
        \<and> DescrState_String (stateOrdinal s) = statusString s)"
  using status_table status_range [of s] by (auto simp: list_all_iff stateOrdinal_def)

text \<open>
  The price helper of the calls is the one of the swap layer. The amount a dx* call derives
  from a price is, on every input, the amount that the drift check of the swap layer derives.
\<close>

theorem price_helpers_agree: "xBridgeSourceAmountFromPrice cda sa da = priceSource cda sa da"
  unfolding xBridgeSourceAmountFromPrice_def priceSource_def Let_def float_swap_coin unfolding swap_coin_def by (rule refl)

end
