(* ===== verification/Order.thy ===== *)
theory Order
  imports ApiResponse ProtoOrder
begin

text \<open>
  \<^verbatim>\<open>api/order.go\<close>: the record of an order and its three sources, a maker's order packet, a
  pending-order broadcast of a service node, and the restored form after a rejected take. The
  byte \<^verbatim>\<open>Role\<close> is \<open>0\<close>, \<open>'A'\<close> (maker) or \<open>'B'\<close> (taker).
\<close>

datatype OrderType = OrderTypeUnknown | OrderTypeMaker | OrderTypeBroadcast

record Order =
  o_ID :: bytes
  o_Type :: OrderType
  o_From :: bytes
  o_FromCurrency :: string
  o_FromAmount :: u64
  o_To :: bytes
  o_ToCurrency :: string
  o_ToAmount :: u64
  o_Created :: u64
  o_Updated :: u64
  o_BlockHash :: bytes
  o_BlockNumber :: u32
  o_PartialAllowed :: bool
  o_MinFromAmount :: u64
  o_OrigFromAmount :: u64
  o_OrigToAmount :: u64
  o_PartialRepost :: bool
  o_ParentID :: bytes
  o_Status :: string
  o_MakerPubkey :: string
  o_MakerAddress :: string
  o_TakerAddress :: string
  o_BlockID :: string
  o_RefundTx :: string
  o_BinTxId :: string
  o_OBinTxId :: string
  o_OBinTxVout :: u32
  o_OBinTxP2SHAmount :: u64
  o_OOverpayment :: u64
  o_PrepTx :: string
  o_Utxos :: "UtxoEntry list"
  o_Mine :: bool
  o_UsedCoins :: "Utxo list"
  o_FeeUtxos :: "Utxo list"
  o_UtxoCurrency :: string
  o_SNodePubkey :: string
  o_HubAddress :: bytes
  o_OtherPubkey :: string
  o_MakerKey :: string
  o_Reason :: u32
  o_Role :: byte
  o_DepositSent :: bool
  o_CounterpartyRedeemed :: bool
  o_OrigFromCurrency :: string
  o_OrigToCurrency :: string

text \<open>The zero value of the struct, on which the composite literals below are built.\<close>

definition zeroOrder :: Order where
  "zeroOrder = \<lparr>o_ID = replicate 32 0, o_Type = OrderTypeUnknown, o_From = replicate 20 0, o_FromCurrency = [],
     o_FromAmount = 0, o_To = replicate 20 0, o_ToCurrency = [], o_ToAmount = 0, o_Created = 0, o_Updated = 0,
     o_BlockHash = replicate 32 0, o_BlockNumber = 0, o_PartialAllowed = False, o_MinFromAmount = 0,
     o_OrigFromAmount = 0, o_OrigToAmount = 0, o_PartialRepost = False, o_ParentID = replicate 32 0, o_Status = [],
     o_MakerPubkey = [], o_MakerAddress = [], o_TakerAddress = [], o_BlockID = [], o_RefundTx = [], o_BinTxId = [],
     o_OBinTxId = [], o_OBinTxVout = 0, o_OBinTxP2SHAmount = 0, o_OOverpayment = 0, o_PrepTx = [], o_Utxos = [],
     o_Mine = False, o_UsedCoins = [], o_FeeUtxos = [], o_UtxoCurrency = [], o_SNodePubkey = [],
     o_HubAddress = replicate 20 0, o_OtherPubkey = [], o_MakerKey = [], o_Reason = 0, o_Role = 0,
     o_DepositSent = False, o_CounterpartyRedeemed = False, o_OrigFromCurrency = [], o_OrigToCurrency = []\<rparr>"

definition normalizeFromOrderBody :: "OrderBody \<Rightarrow> string \<Rightarrow> Order" where
  "normalizeFromOrderBody b maker = zeroOrder\<lparr>
     o_ID := ob_ID b, o_Type := OrderTypeMaker, o_From := ob_From b, o_FromCurrency := ob_FromCurrency b,
     o_FromAmount := ob_FromAmount b, o_To := ob_To b, o_ToCurrency := ob_ToCurrency b, o_ToAmount := ob_ToAmount b,
     o_Created := ob_Created b, o_Updated := ob_Created b, o_BlockHash := ob_BlockHash b,
     o_PartialAllowed := ob_PartialAllowed b, o_MinFromAmount := ob_MinFromAmount b,
     o_OrigFromAmount := ob_FromAmount b, o_OrigToAmount := ob_ToAmount b, o_PartialRepost := False,
     o_Status := ''open'', o_MakerPubkey := maker, o_SNodePubkey := maker, o_Utxos := ob_Utxos b,
     o_UtxoCurrency := ob_FromCurrency b\<rparr>"

definition normalizeFromPendingBody :: "PendingTransactionBody \<Rightarrow> string \<Rightarrow> Order" where
  "normalizeFromPendingBody b maker = zeroOrder\<lparr>
     o_ID := pb_ID b, o_Type := OrderTypeBroadcast, o_FromCurrency := pb_FromCurrency b,
     o_FromAmount := pb_FromAmount b, o_ToCurrency := pb_ToCurrency b, o_ToAmount := pb_ToAmount b,
     o_Created := pb_Created b, o_Updated := pb_Created b, o_BlockHash := pb_BlockHash b,
     o_PartialAllowed := pb_PartialAllowed b, o_MinFromAmount := pb_MinFromAmount b,
     o_OrigFromAmount := pb_FromAmount b, o_OrigToAmount := pb_ToAmount b, o_PartialRepost := False,
     o_Status := ''open'', o_MakerPubkey := maker, o_SNodePubkey := maker, o_HubAddress := pb_HubAddress b\<rparr>"

text \<open>
  A copy has the same fields and its own slices. Orders are values here, so a snapshot cannot
  be changed through the store nor the store through a snapshot.
\<close>

definition Order_Copy :: "Order \<Rightarrow> Order" where
  "Order_Copy ord = ord\<lparr>o_Utxos := map id (o_Utxos ord), o_UsedCoins := map id (o_UsedCoins ord),
     o_FeeUtxos := map id (o_FeeUtxos ord)\<rparr>"

definition localSense :: "Order \<Rightarrow> string \<times> u64 \<times> string \<times> u64" where
  "localSense ord = (if o_Role ord = byte_of_char CHR ''B''
     then (o_ToCurrency ord, o_ToAmount ord, o_FromCurrency ord, o_FromAmount ord)
     else (o_FromCurrency ord, o_FromAmount ord, o_ToCurrency ord, o_ToAmount ord))"

definition clearUsedCoins :: "Order \<Rightarrow> Order" where
  "clearUsedCoins ord = ord\<lparr>o_Role := 0, o_Mine := False, o_MakerKey := [], o_Reason := 0,
     o_FromCurrency := o_OrigFromCurrency ord, o_ToCurrency := o_OrigToCurrency ord,
     o_FromAmount := o_OrigFromAmount ord, o_ToAmount := o_OrigToAmount ord,
     o_MakerAddress := [], o_TakerAddress := [], o_UsedCoins := [], o_FeeUtxos := [], o_Utxos := []\<rparr>"

lemma Order_Copy_id [simp]: "Order_Copy ord = ord"
  by (simp add: Order_Copy_def)

end
