(* ===== verification/Store.thy ===== *)
theory Store
  imports Order "HOL-Library.AList" "HOL-Library.Char_ord" "HOL-Library.List_Lexorder" "HOL-Library.Product_Lexorder"
    "HOL-Library.Multiset"
begin

text \<open>
  \<^verbatim>\<open>api/store.go\<close>: the order book. A Go map is the association list of its entries, in the order
  in which a \<^verbatim>\<open>range\<close> over it visits them: Go leaves that order open, and the theorems hold for
  every list. Each method runs under the store's mutex, so a method is one atomic step from a
  store to a store. The clock is an argument. Read access returns copies, so orders are values.
\<close>

section \<open>Data\<close>

record reservedKeys =
  rk_fee :: "string list"
  rk_fund :: "string list"
  rk_fundCurrency :: string

record historyEntry =
  he_ID :: string
  he_Status :: string
  he_Reason :: u32
  he_Updated :: u64
  he_Order :: "Order option"

record fillEntry =
  fe_ID :: string
  fe_Time :: u64
  fe_Maker :: string
  fe_MakerSize :: string
  fe_Taker :: string
  fe_TakerSize :: string
  fe_ParentID :: string
  fe_OrderType :: string
  fe_PartialMinimum :: string
  fe_PartialOrigMakerSize :: string
  fe_PartialOrigTakerSize :: string
  fe_PartialRepost :: bool

record flushedOrder =
  fo_ID :: bytes
  fo_Txtime :: u64
  fo_UseCount :: int

record Store =
  s_orders :: "(string \<times> Order) list"
  s_locked :: "(string \<times> Order) list"
  s_history :: "historyEntry list"
  s_reserved :: "(string \<times> reservedKeys) list"

definition NewStore :: Store where
  "NewStore = \<lparr>s_orders = [], s_locked = [], s_history = [], s_reserved = []\<rparr>"

definition orderKey :: "bytes \<Rightarrow> string" where
  "orderKey i = hexEncode i"

section \<open>The live orders\<close>

definition Add :: "Store \<Rightarrow> Order \<Rightarrow> Store" where
  "Add s ord = s\<lparr>s_orders := AList.update (orderKey (o_ID ord)) ord (s_orders s)\<rparr>"

definition Store_Get :: "Store \<Rightarrow> string \<Rightarrow> Order option" where
  "Store_Get s idHex = map_option Order_Copy (map_of (s_orders s) idHex)"

definition Update :: "Store \<Rightarrow> string \<Rightarrow> (Order \<Rightarrow> Order) \<Rightarrow> Store \<times> bool" where
  "Update s idHex fn = (case map_of (s_orders s) idHex of
       Some ord \<Rightarrow> (s\<lparr>s_orders := AList.update idHex (fn ord) (s_orders s)\<rparr>, True)
     | None \<Rightarrow> (s, False))"

definition Touch :: "u64 \<Rightarrow> Store \<Rightarrow> string \<Rightarrow> Store \<times> bool" where
  "Touch now s idHex = (case map_of (s_orders s) idHex of
       Some ord \<Rightarrow> if o_Status ord \<noteq> ''canceled''
         then (s\<lparr>s_orders := AList.update idHex (ord\<lparr>o_Updated := now\<rparr>) (s_orders s)\<rparr>, True) else (s, False)
     | None \<Rightarrow> (s, False))"

definition Store_List :: "Store \<Rightarrow> Order list" where
  "Store_List s = map (\<lambda>(k, ord). Order_Copy ord) (s_orders s)"

definition Store_Remove :: "Store \<Rightarrow> string \<Rightarrow> Store" where
  "Store_Remove s idHex = s\<lparr>s_orders := AList.delete idHex (s_orders s)\<rparr>"

definition Mine :: "Store \<Rightarrow> Order list" where
  "Mine s = map (\<lambda>(k, ord). Order_Copy ord) (filter (\<lambda>(k, ord). o_Mine ord) (s_orders s))"

definition PruneUnconnected :: "Store \<Rightarrow> (string \<Rightarrow> bool) \<Rightarrow> Store" where
  "PruneUnconnected s kept = s\<lparr>s_orders := filter (\<lambda>(k, ord).
     o_Mine ord \<or> \<not> (\<not> kept (o_FromCurrency ord) \<or> \<not> kept (o_ToCurrency ord))) (s_orders s)\<rparr>"

section \<open>History\<close>

definition add_history :: "historyEntry list \<Rightarrow> string \<Rightarrow> string \<Rightarrow> u32 \<Rightarrow> u64 \<Rightarrow> Order option \<Rightarrow> historyEntry list" where
  "add_history hist idHex status reason updated ord = (
     if \<exists>e \<in> set hist. he_ID e = idHex then hist
     else let snap = map_option (\<lambda>ord. (Order_Copy ord)\<lparr>o_Status := status, o_Updated := updated\<rparr>) ord
     in hist @ [\<lparr>he_ID = idHex, he_Status = status, he_Reason = reason, he_Updated = updated, he_Order = snap\<rparr>])"

definition historyLocked :: "Store \<Rightarrow> string \<Rightarrow> string \<Rightarrow> u32 \<Rightarrow> u64 \<Rightarrow> Order option \<Rightarrow> Store" where
  "historyLocked s idHex status reason updated ord =
     s\<lparr>s_history := add_history (s_history s) idHex status reason updated ord\<rparr>"

definition MoveToHistory :: "Store \<Rightarrow> string \<Rightarrow> string \<Rightarrow> u64 \<Rightarrow> u64 \<Rightarrow> Store" where
  "MoveToHistory s idHex status reason updated = (case map_of (s_orders s) idHex of
       None \<Rightarrow> s
     | Some ord \<Rightarrow> historyLocked (s\<lparr>s_orders := AList.delete idHex (s_orders s)\<rparr>) idHex status (ucast reason) updated (Some ord))"

definition MoveToHistoryU32 :: "Store \<Rightarrow> string \<Rightarrow> string \<Rightarrow> u32 \<Rightarrow> u64 \<Rightarrow> Store" where
  "MoveToHistoryU32 s idHex status reason updated = MoveToHistory s idHex status (ucast reason) updated"

definition HasOrder :: "Store \<Rightarrow> string \<Rightarrow> bool" where
  "HasOrder s idHex \<longleftrightarrow> map_of (s_orders s) idHex \<noteq> None \<or> (\<exists>e \<in> set (s_history s). he_ID e = idHex)"

definition AddToHistory :: "Store \<Rightarrow> Order \<Rightarrow> string \<Rightarrow> u64 \<Rightarrow> u64 \<Rightarrow> Store" where
  "AddToHistory s ord status reason updated =
     historyLocked s (hexEncode (o_ID ord)) status (ucast reason) updated (Some ord)"

definition HistoryOrder :: "Store \<Rightarrow> string \<Rightarrow> Order option" where
  "HistoryOrder s idHex = (case filter (\<lambda>e. he_ID e = idHex \<and> he_Order e \<noteq> None) (s_history s) of
     e # _ \<Rightarrow> map_option Order_Copy (he_Order e) | [] \<Rightarrow> None)"

definition History :: "Store \<Rightarrow> historyEntry list" where
  "History s = map (\<lambda>e. e\<lparr>he_Order := map_option Order_Copy (he_Order e)\<rparr>) (s_history s)"

definition RemovePendingPackets :: "Store \<Rightarrow> string \<Rightarrow> Store" where
  "RemovePendingPackets s idHex = s"

section \<open>Expiry\<close>

definition ageSec :: "u64 \<Rightarrow> u64 \<Rightarrow> u64" where
  "ageSec nowUs ts = (if ts \<ge> nowUs then 0 else (nowUs - ts) div 1000000)"

text \<open>The body of the loop decides for one order whether it has expired.\<close>

definition order_expired :: "u64 \<Rightarrow> u32 \<Rightarrow> (string \<Rightarrow> bool) \<Rightarrow> string \<Rightarrow> Order \<Rightarrow> bool" where
  "order_expired nowUs currentBlock inSwap key ord = (
     if inSwap key then False
     else if o_Status ord \<noteq> ''created'' \<and> o_Status ord \<noteq> ''open'' then False
     else if o_PrepTx ord \<noteq> [] then False
     else let created = unat (ageSec nowUs (o_Created ord)); updated = unat (ageSec nowUs (o_Updated ord)) in
       if o_Status ord = ''created'' then
         let blockExpired = (o_BlockNumber ord \<noteq> 0 \<and> currentBlock \<noteq> 0 \<and> currentBlock > o_BlockNumber ord
               \<and> unat (currentBlock - o_BlockNumber ord) > BlocksTTL)
         in blockExpired \<or> created > DeadlineTTL \<or> updated > TTL
       else updated > PendingTTL \<or> created > DeadlineTTL)"

fun prune_loop :: "u64 \<Rightarrow> u32 \<Rightarrow> (string \<Rightarrow> bool) \<Rightarrow> (string \<times> Order) list \<Rightarrow> Store \<times> string list \<Rightarrow> Store \<times> string list" where
  "prune_loop nowUs currentBlock inSwap [] acc = acc"
| "prune_loop nowUs currentBlock inSwap ((key, ord) # rest) (s, pruned) = (
     if order_expired nowUs currentBlock inSwap key ord
     then let s = historyLocked s key ''expired'' crTimeout nowUs (Some ord);
              s = s\<lparr>s_orders := AList.delete key (s_orders s)\<rparr>
          in prune_loop nowUs currentBlock inSwap rest (s, pruned @ [key])
     else prune_loop nowUs currentBlock inSwap rest (s, pruned))"

definition PruneExpired :: "Store \<Rightarrow> u64 \<Rightarrow> u32 \<Rightarrow> (string \<Rightarrow> bool) \<Rightarrow> Store \<times> string list" where
  "PruneExpired s nowUs currentBlock inSwap =
     (let (s', pruned) = prune_loop nowUs currentBlock inSwap (s_orders s) (s, []) in (s', sort pruned))"

section \<open>Fills\<close>

definition render_fill :: "Order \<Rightarrow> u64 \<Rightarrow> fillEntry" where
  "render_fill ord t = (case localSense ord of (maker, makerSize, taker, takerSize) \<Rightarrow>
     \<lparr>fe_ID = orderIDString (o_ID ord), fe_Time = t, fe_Maker = maker, fe_MakerSize = formatXAmount makerSize,
      fe_Taker = taker, fe_TakerSize = formatXAmount takerSize, fe_ParentID = parentIDString (o_ParentID ord),
      fe_OrderType = orderTypeString (o_PartialAllowed ord), fe_PartialMinimum = formatXAmount (o_MinFromAmount ord),
      fe_PartialOrigMakerSize = formatXAmount (o_OrigFromAmount ord),
      fe_PartialOrigTakerSize = formatXAmount (o_OrigToAmount ord), fe_PartialRepost = o_PartialRepost ord\<rparr>)"

text \<open>Both loops: a row for every own finished order whose key has no row yet.\<close>

fun fill_loop :: "(string \<times> u64 \<times> Order option) list \<Rightarrow> fillEntry list \<times> string set \<Rightarrow> fillEntry list \<times> string set" where
  "fill_loop [] acc = acc"
| "fill_loop ((status, t, entry) # rest) (out, seen) = (case entry of
       None \<Rightarrow> fill_loop rest (out, seen)
     | Some ord \<Rightarrow> if \<not> o_Mine ord \<or> statusString status \<noteq> ''finished'' \<or> orderKey (o_ID ord) \<in> seen
         then fill_loop rest (out, seen)
         else fill_loop rest (out @ [render_fill ord t], insert (orderKey (o_ID ord)) seen))"

definition Fills :: "Store \<Rightarrow> fillEntry list" where
  "Fills s = (let acc = fill_loop (map (\<lambda>e. (he_Status e, he_Updated e, he_Order e)) (rev (s_history s))) ([], {});
       (out, seen) = fill_loop (map (\<lambda>(k, ord). (o_Status ord, o_Updated ord, Some ord)) (s_orders s)) acc
     in sort_key (\<lambda>r. (2 ^ 64 - 1 - unat (fe_Time r), fe_ID r)) out)"

section \<open>Locks and reservations\<close>

definition Lock :: "Store \<Rightarrow> Order \<Rightarrow> Store" where
  "Lock s ord = s\<lparr>s_locked := AList.update (orderKey (o_ID ord)) ord (s_locked s)\<rparr>"

definition Locked :: "Store \<Rightarrow> Order list" where
  "Locked s = map (\<lambda>(k, ord). Order_Copy ord) (s_locked s)"

definition isOrderTerminal :: "string \<Rightarrow> bool" where
  "isOrderTerminal status \<longleftrightarrow> statusString status \<in> set [''finished'', ''canceled'', ''dropped'', ''invalid'']"

definition orderLockReleased :: "string \<Rightarrow> bool" where
  "orderLockReleased status = (if isOrderTerminal status then True else statusString status = ''rolled back'')"

definition utxoEntryKey :: "UtxoEntry \<Rightarrow> string" where
  "utxoEntryKey e = (let r = map (\<lambda>i. ue_TxID e ! (31 - i)) [0..<32] in hexEncode r @ '':'' @ nat_str (unat (ue_Vout e)))"

definition utxoKey :: "Utxo \<Rightarrow> string" where
  "utxoKey u = ut_TxID u @ '':'' @ nat_str (unat (ut_Vout u))"

text \<open>The writes to the two maps that one live order and one reservation cause, in order.\<close>

definition order_locks :: "Order \<Rightarrow> (string \<times> string) list" where
  "order_locks ord = (if orderLockReleased (o_Status ord) then []
     else let oid = orderIDString (o_ID ord) in
       map (\<lambda>u. (utxoEntryKey u, oid)) (o_Utxos ord) @ map (\<lambda>u. (utxoKey u, oid)) (o_FeeUtxos ord))"

definition reserved_locks :: "Store \<Rightarrow> string \<Rightarrow> reservedKeys \<Rightarrow> (string \<times> string) list" where
  "reserved_locks s oid r = (case map_of (s_orders s) oid of
       None \<Rightarrow> []
     | Some ord \<Rightarrow> if orderLockReleased (o_Status ord) then []
         else let disp = orderIDString (o_ID ord) in
           map (\<lambda>k. (k, disp)) (rk_fee r) @ map (\<lambda>k. (k, disp)) (rk_fund r))"

definition lock_writes :: "Store \<Rightarrow> (string \<times> string) list" where
  "lock_writes s = concat (map (\<lambda>(k, ord). order_locks ord) (s_orders s))
     @ concat (map (\<lambda>(oid, r). reserved_locks s oid r) (s_reserved s))"

definition lockedInfoLocked :: "Store \<Rightarrow> string set \<times> (string \<rightharpoonup> string)" where
  "lockedInfoLocked s = (set (map fst (lock_writes s)), foldl (\<lambda>m (k, oid). m(k \<mapsto> oid)) Map.empty (lock_writes s))"

definition LockedUtxoInfo :: "Store \<Rightarrow> string set \<times> (string \<rightharpoonup> string)" where
  "LockedUtxoInfo s = lockedInfoLocked s"

definition utxoCurrency :: "Order \<Rightarrow> string" where
  "utxoCurrency ord = (if o_UtxoCurrency ord \<noteq> [] then o_UtxoCurrency ord
     else if o_Role ord = byte_of_char CHR ''B'' then o_ToCurrency ord else o_FromCurrency ord)"

definition order_locks_for :: "string \<Rightarrow> Order \<Rightarrow> string list" where
  "order_locks_for ticker ord = (if orderLockReleased (o_Status ord) then []
     else map utxoKey (o_FeeUtxos ord) @
       (let cur = utxoCurrency ord in if cur \<noteq> [] \<and> cur \<noteq> ticker then [] else map utxoEntryKey (o_Utxos ord)))"

definition reserved_locks_for :: "Store \<Rightarrow> string \<Rightarrow> string \<Rightarrow> reservedKeys \<Rightarrow> string list" where
  "reserved_locks_for s ticker oid r = (case map_of (s_orders s) oid of
       None \<Rightarrow> []
     | Some ord \<Rightarrow> if orderLockReleased (o_Status ord) then []
         else rk_fee r @ (if rk_fundCurrency r = ticker then rk_fund r else []))"

definition LockedUtxoInfoFor :: "Store \<Rightarrow> string \<Rightarrow> string set" where
  "LockedUtxoInfoFor s ticker = set (concat (map (\<lambda>(k, ord). order_locks_for ticker ord) (s_orders s))
     @ concat (map (\<lambda>(oid, r). reserved_locks_for s ticker oid r) (s_reserved s)))"

datatype takeReserve = reserveOrderBusy | reserveKeyCollision | reserveOrderGone | reserveOK

definition ReserveForTake :: "Store \<Rightarrow> string \<Rightarrow> string list \<Rightarrow> string list \<Rightarrow> string \<Rightarrow> Store \<times> takeReserve" where
  "ReserveForTake s key feeKeys fundKeys fundCurrency = (
     if (case map_of (s_orders s) key of None \<Rightarrow> True | Some ord \<Rightarrow> isOrderTerminal (o_Status ord))
     then (s, reserveOrderGone)
     else if map_of (s_reserved s) key \<noteq> None then (s, reserveOrderBusy)
     else let (locked, byOrder) = lockedInfoLocked s in
       if \<exists>k \<in> set feeKeys. k \<in> locked then (s, reserveKeyCollision)
       else if \<exists>k \<in> set fundKeys. k \<in> locked then (s, reserveKeyCollision)
       else if length feeKeys + length fundKeys > 0
         then (s\<lparr>s_reserved := AList.update key \<lparr>rk_fee = feeKeys, rk_fund = fundKeys, rk_fundCurrency = fundCurrency\<rparr>
                 (s_reserved s)\<rparr>, reserveOK)
         else (s, reserveOK))"

definition ReleaseReserve :: "Store \<Rightarrow> string \<Rightarrow> Store" where
  "ReleaseReserve s key = s\<lparr>s_reserved := AList.delete key (s_reserved s)\<rparr>"

section \<open>Flushing cancelled orders\<close>

definition historyOrderID :: "historyEntry \<Rightarrow> bytes" where
  "historyOrderID e = (case he_Order e of
       Some ord \<Rightarrow> o_ID ord
     | None \<Rightarrow> (case hex_DecodeString (he_ID e) of
           None \<Rightarrow> replicate 32 0
         | Some raw \<Rightarrow> if length raw \<noteq> 32 then replicate 32 0 else raw))"

definition keepTime :: "u64 \<Rightarrow> u64 \<Rightarrow> u64" where
  "keepTime now minAgeMillis = (if unat minAgeMillis \<le> (2 ^ 63 - 1) div 1000
     then let sub = minAgeMillis * 1000 in if sub \<le> now then now - sub else 0 else 0)"

definition flushable :: "u64 \<Rightarrow> string \<Rightarrow> u64 \<Rightarrow> bool" where
  "flushable keep status updated \<longleftrightarrow> statusString status = ''canceled'' \<and> updated < keep"

definition FlushCancelled :: "u64 \<Rightarrow> Store \<Rightarrow> u64 \<Rightarrow> Store \<times> flushedOrder list" where
  "FlushCancelled now s minAgeMillis = (let keep = keepTime now minAgeMillis;
       gone = filter (\<lambda>(k, ord). flushable keep (o_Status ord) (o_Updated ord)) (s_orders s);
       liveFlushed = map (\<lambda>(k, ord). \<lparr>fo_ID = o_ID ord, fo_Txtime = o_Updated ord, fo_UseCount = 1\<rparr>) gone;
       histFlushed = map (\<lambda>e. \<lparr>fo_ID = historyOrderID e, fo_Txtime = he_Updated e, fo_UseCount = 1\<rparr>)
         (filter (\<lambda>e. flushable keep (he_Status e) (he_Updated e)) (s_history s));
       s = s\<lparr>s_orders := filter (\<lambda>(k, ord). \<not> flushable keep (o_Status ord) (o_Updated ord)) (s_orders s),
             s_history := filter (\<lambda>e. \<not> flushable keep (he_Status e) (he_Updated e)) (s_history s)\<rparr>
     in (s, sort_key fo_ID liveFlushed @ sort_key fo_ID histFlushed))"

section \<open>The methods as one operation type\<close>

text \<open>A run of the store is a list of mutating method calls, in the order in which they take the mutex.\<close>

datatype store_op =
    OpAdd Order
  | OpUpdate string "Order \<Rightarrow> Order"
  | OpTouch u64 string
  | OpRemove string
  | OpMoveToHistory string string u64 u64
  | OpAddToHistory Order string u64 u64
  | OpPruneUnconnected "string \<Rightarrow> bool"
  | OpPruneExpired u64 u32 "string \<Rightarrow> bool"
  | OpLock Order
  | OpReserve string "string list" "string list" string
  | OpRelease string
  | OpFlush u64 u64

fun exec_op :: "store_op \<Rightarrow> Store \<Rightarrow> Store" where
  "exec_op (OpAdd ord) s = Add s ord"
| "exec_op (OpUpdate k fn) s = fst (Update s k fn)"
| "exec_op (OpTouch now k) s = fst (Touch now s k)"
| "exec_op (OpRemove k) s = Store_Remove s k"
| "exec_op (OpMoveToHistory k status reason updated) s = MoveToHistory s k status reason updated"
| "exec_op (OpAddToHistory ord status reason updated) s = AddToHistory s ord status reason updated"
| "exec_op (OpPruneUnconnected kept) s = PruneUnconnected s kept"
| "exec_op (OpPruneExpired now block inSwap) s = fst (PruneExpired s now block inSwap)"
| "exec_op (OpLock ord) s = Lock s ord"
| "exec_op (OpReserve k fee fund cur) s = fst (ReserveForTake s k fee fund cur)"
| "exec_op (OpRelease k) s = ReleaseReserve s k"
| "exec_op (OpFlush now age) s = fst (FlushCancelled now s age)"

text \<open>Callers hand in orders with a 32-byte id, and their update functions keep the id.\<close>

fun op_ok :: "store_op \<Rightarrow> bool" where
  "op_ok (OpAdd ord) = (length (o_ID ord) = 32)"
| "op_ok (OpAddToHistory ord status reason updated) = (length (o_ID ord) = 32)"
| "op_ok (OpUpdate k fn) = (\<forall>ord. o_ID (fn ord) = o_ID ord)"
| "op_ok _ = True"

definition live_ok :: "(string \<times> Order) list \<Rightarrow> bool" where
  "live_ok os \<longleftrightarrow> distinct (map fst os) \<and> (\<forall>(k, ord) \<in> set os. k = orderKey (o_ID ord) \<and> length (o_ID ord) = 32)"

definition hist_ok :: "historyEntry list \<Rightarrow> bool" where
  "hist_ok hs \<longleftrightarrow> distinct (map he_ID hs)
     \<and> (\<forall>e \<in> set hs. \<forall>ord. he_Order e = Some ord \<longrightarrow> he_ID e = orderKey (o_ID ord) \<and> length (o_ID ord) = 32
          \<and> o_Status ord = he_Status e \<and> o_Updated ord = he_Updated e)"

definition store_ok :: "Store \<Rightarrow> bool" where
  "store_ok s \<longleftrightarrow> live_ok (s_orders s) \<and> hist_ok (s_history s) \<and> distinct (map fst (s_reserved s))"

section \<open>Lemmas on the maps\<close>

lemma delete_filter: "AList.delete k al = filter (\<lambda>(k', _). k \<noteq> k') al"
  by (simp add: AList.delete_eq)

lemma map_of_filter_key: "distinct (map fst al) \<Longrightarrow>
  map_of (filter P al) k = (case map_of al k of Some v \<Rightarrow> if P (k, v) then Some v else None | None \<Rightarrow> None)"
proof (induction al)
  case (Cons e al)
  have "map_of al (fst e) = None" using Cons.prems by (simp add: map_of_eq_None_iff)
  with Cons show ?case by (cases e) (auto split: option.splits)
qed simp

lemma live_ok_filter: "live_ok os \<Longrightarrow> live_ok (filter P os)"
  by (auto simp: live_ok_def distinct_map_filter)

lemma live_ok_delete: "live_ok os \<Longrightarrow> live_ok (AList.delete k os)"
  by (simp add: delete_filter live_ok_filter)

lemma set_update: "set (AList.update k v al) \<subseteq> insert (k, v) (set al)"
  by (induction al) auto

lemma live_ok_update: "live_ok os \<Longrightarrow> k = orderKey (o_ID ord) \<Longrightarrow> length (o_ID ord) = 32 \<Longrightarrow> live_ok (AList.update k ord os)"
  using set_update [of k ord os] by (auto simp: live_ok_def AList.distinct_update)

lemma live_ok_lookup: "live_ok os \<Longrightarrow> map_of os k = Some ord \<Longrightarrow> k = orderKey (o_ID ord) \<and> length (o_ID ord) = 32"
  by (auto simp: live_ok_def dest: map_of_SomeD)

lemma hist_ok_filter: "hist_ok hs \<Longrightarrow> hist_ok (filter P hs)"
  by (auto simp: hist_ok_def distinct_map_filter)

lemma add_history_ids: "he_ID ` set (add_history hs k st r u ord) = insert k (he_ID ` set hs)"
  by (auto simp: add_history_def Let_def)

lemma hist_ok_add: "hist_ok hs \<Longrightarrow> (\<And>ord. o' = Some ord \<Longrightarrow> k = orderKey (o_ID ord) \<and> length (o_ID ord) = 32) \<Longrightarrow>
  hist_ok (add_history hs k st r u o')"
  by (auto simp: add_history_def hist_ok_def Let_def)

lemma orderKey_inj: "orderKey a = orderKey b \<longleftrightarrow> a = b"
  by (metis hex_roundtrip hexEncode_def option.inject orderKey_def)

lemma historyLocked_simps [simp]:
  "s_orders (historyLocked s k st r u o') = s_orders s" "s_reserved (historyLocked s k st r u o') = s_reserved s"
  "s_history (historyLocked s k st r u o') = add_history (s_history s) k st r u o'"
  by (simp_all add: historyLocked_def)

section \<open>Expiry: what the loop does\<close>

definition expired_entry :: "u64 \<Rightarrow> string \<Rightarrow> Order \<Rightarrow> historyEntry" where
  "expired_entry now k ord = \<lparr>he_ID = k, he_Status = ''expired'', he_Reason = crTimeout, he_Updated = now,
     he_Order = Some (ord\<lparr>o_Status := ''expired'', o_Updated := now\<rparr>)\<rparr>"

lemma prune_loop_result:
  assumes "prune_loop now block inSwap es (s, p) = (s', p')"
  defines "gone \<equiv> filter (\<lambda>(k, ord). order_expired now block inSwap k ord) es"
  shows "p' = p @ map fst gone"
    and "s_orders s' = filter (\<lambda>(k, ord). k \<notin> fst ` set gone) (s_orders s)"
    and "s_reserved s' = s_reserved s"
    and "distinct (map fst es) \<Longrightarrow> s_history s' = s_history s
      @ map (\<lambda>(k, ord). expired_entry now k ord) (filter (\<lambda>(k, ord). k \<notin> he_ID ` set (s_history s)) gone)"
  using assms(1) unfolding gone_def
proof (induction es arbitrary: s p)
  case (Cons e es)
  obtain k ord where e: "e = (k, ord)" by (cases e)
  let ?g = "filter (\<lambda>(k, ord). order_expired now block inSwap k ord) es"
  {
    case 1 then show ?case by (auto simp: e Let_def dest!: Cons.IH(1) split: if_splits)
  next
    case 2 then show ?case
      by (auto simp: e Let_def delete_filter dest!: Cons.IH(2) split: if_splits intro!: filter_cong)
  next
    case 3 then show ?case by (auto simp: e Let_def dest!: Cons.IH(3) split: if_splits)
  next
    case 4
    show ?case
    proof (cases "order_expired now block inSwap k ord")
      case True
      let ?h = "add_history (s_history s) k ''expired'' crTimeout now (Some ord)"
      have IH: "s_history s' = ?h @ map (\<lambda>(k, ord). expired_entry now k ord) (filter (\<lambda>(k, ord). k \<notin> he_ID ` set ?h) ?g)"
        using Cons.IH(4) 4 True by (auto simp: e Let_def)
      have "filter (\<lambda>(k', ord). k' \<notin> he_ID ` set ?h) ?g = filter (\<lambda>(k', ord). k' \<notin> he_ID ` set (s_history s)) ?g"
        using 4(1) by (intro filter_cong) (auto simp: e add_history_ids image_iff)
      with IH True show ?thesis by (auto simp: e add_history_def expired_entry_def Let_def)
    next
      case False
      then show ?thesis using Cons.IH(4) 4 by (auto simp: e)
    qed
  }
qed simp_all

end
