(* ===== verification/StoreSpec.thy ===== *)
theory StoreSpec
  imports Store
begin

text \<open>
  What the order book promises, and that \<^verbatim>\<open>api/store.go\<close> keeps it. The abstract book is a pair
  of partial functions, from order key to live order and from order key to terminal record; each
  method of the store refines one operation on it. The theory also has the invariant of every
  reachable store, the exact effect of the two sweeps, and the exclusion that reservations give
  to concurrent takes.
\<close>

section \<open>The abstract book\<close>

record book =
  b_live :: "string \<rightharpoonup> Order"
  b_past :: "string \<rightharpoonup> historyEntry"

definition keep_if :: "('k \<Rightarrow> 'v \<Rightarrow> bool) \<Rightarrow> ('k \<rightharpoonup> 'v) \<Rightarrow> ('k \<rightharpoonup> 'v)" where
  "keep_if P m = (\<lambda>k. case m k of Some v \<Rightarrow> if P k v then Some v else None | None \<Rightarrow> None)"

definition record_once :: "('k \<rightharpoonup> 'v) \<Rightarrow> 'k \<Rightarrow> 'v \<Rightarrow> ('k \<rightharpoonup> 'v)" where
  "record_once m k v = (if m k = None then m(k \<mapsto> v) else m)"

definition terminal_entry :: "string \<Rightarrow> string \<Rightarrow> u64 \<Rightarrow> u64 \<Rightarrow> Order \<Rightarrow> historyEntry" where
  "terminal_entry k status reason updated ord = \<lparr>he_ID = k, he_Status = status, he_Reason = ucast reason,
     he_Updated = updated, he_Order = Some (ord\<lparr>o_Status := status, o_Updated := updated\<rparr>)\<rparr>"

fun spec_op :: "store_op \<Rightarrow> book \<Rightarrow> book" where
  "spec_op (OpAdd ord) b = b\<lparr>b_live := (b_live b)(orderKey (o_ID ord) \<mapsto> ord)\<rparr>"
| "spec_op (OpUpdate k fn) b = b\<lparr>b_live := (b_live b)(k := map_option fn (b_live b k))\<rparr>"
| "spec_op (OpTouch now k) b = b\<lparr>b_live := (b_live b)(k := map_option
     (\<lambda>ord. if o_Status ord \<noteq> ''canceled'' then ord\<lparr>o_Updated := now\<rparr> else ord) (b_live b k))\<rparr>"
| "spec_op (OpRemove k) b = b\<lparr>b_live := (b_live b)(k := None)\<rparr>"
| "spec_op (OpMoveToHistory k status reason updated) b = (case b_live b k of
       None \<Rightarrow> b
     | Some ord \<Rightarrow> b\<lparr>b_live := (b_live b)(k := None),
         b_past := record_once (b_past b) k (terminal_entry k status reason updated ord)\<rparr>)"
| "spec_op (OpAddToHistory ord status reason updated) b = b\<lparr>b_past := record_once (b_past b) (orderKey (o_ID ord))
     (terminal_entry (orderKey (o_ID ord)) status reason updated ord)\<rparr>"
| "spec_op (OpPruneUnconnected kept) b = b\<lparr>b_live := keep_if (\<lambda>k ord.
     o_Mine ord \<or> kept (o_FromCurrency ord) \<and> kept (o_ToCurrency ord)) (b_live b)\<rparr>"
| "spec_op (OpPruneExpired now block inSwap) b = \<lparr>
     b_live = keep_if (\<lambda>k ord. \<not> order_expired now block inSwap k ord) (b_live b),
     b_past = (\<lambda>k. case b_past b k of Some e \<Rightarrow> Some e
       | None \<Rightarrow> map_option (expired_entry now k) (keep_if (order_expired now block inSwap) (b_live b) k))\<rparr>"
| "spec_op (OpLock ord) b = b"
| "spec_op (OpReserve k fee fund cur) b = b"
| "spec_op (OpRelease k) b = b"
| "spec_op (OpFlush now age) b = \<lparr>
     b_live = keep_if (\<lambda>k ord. \<not> flushable (keepTime now age) (o_Status ord) (o_Updated ord)) (b_live b),
     b_past = keep_if (\<lambda>k e. \<not> flushable (keepTime now age) (he_Status e) (he_Updated e)) (b_past b)\<rparr>"

definition past_of :: "historyEntry list \<Rightarrow> (string \<rightharpoonup> historyEntry)" where
  "past_of hs = map_of (map (\<lambda>e. (he_ID e, e)) hs)"

definition abs_book :: "Store \<Rightarrow> book" where
  "abs_book s = \<lparr>b_live = map_of (s_orders s), b_past = past_of (s_history s)\<rparr>"

section \<open>Lemmas\<close>

lemma map_of_filter: "distinct (map fst al) \<Longrightarrow> map_of (filter (\<lambda>(k, v). P k v) al) = keep_if P (map_of al)"
  by (auto simp: map_of_filter_key keep_if_def fun_eq_iff split: option.splits)

lemma past_of_None: "past_of hs k = None \<longleftrightarrow> k \<notin> he_ID ` set hs"
  by (simp add: past_of_def map_of_eq_None_iff image_image)

lemma past_of_filter: "distinct (map he_ID hs) \<Longrightarrow> past_of (filter P hs) = keep_if (\<lambda>k e. P e) (past_of hs)"
proof -
  assume d: "distinct (map he_ID hs)"
  have "map (\<lambda>e. (he_ID e, e)) (filter P hs) = filter (\<lambda>(k, e). P e) (map (\<lambda>e. (he_ID e, e)) hs)"
    by (induction hs) auto
  with d show ?thesis by (simp add: past_of_def map_of_filter comp_def)
qed

lemma past_of_add: "past_of (add_history hs k st r u (Some ord)) = record_once (past_of hs) k
  \<lparr>he_ID = k, he_Status = st, he_Reason = r, he_Updated = u, he_Order = Some (ord\<lparr>o_Status := st, o_Updated := u\<rparr>)\<rparr>"
proof (cases "k \<in> he_ID ` set hs")
  case True
  then show ?thesis using past_of_None [of hs k] by (auto simp: add_history_def record_once_def image_iff)
next
  case False
  then have "past_of hs k = None" by (simp add: past_of_None)
  with False show ?thesis
    by (auto simp: add_history_def record_once_def past_of_def image_iff fun_eq_iff Let_def map_add_def split: option.splits)
qed

lemma keep_if_keys: "keep_if (\<lambda>k v. k \<notin> dom (keep_if P m)) m = keep_if (\<lambda>k v. \<not> P k v) m"
  by (auto simp: keep_if_def fun_eq_iff split: option.splits)

lemma fst_filter_dom: "distinct (map fst al) \<Longrightarrow> fst ` set (filter (\<lambda>(k, v). P k v) al) = dom (keep_if P (map_of al))"
  by (metis dom_map_of_conv_image_fst map_of_filter)


lemma PruneExpired_state:
  assumes "PruneExpired s now block inSwap = (s', ids)" and "live_ok (s_orders s)"
  defines "gone \<equiv> keep_if (order_expired now block inSwap) (map_of (s_orders s))"
  shows "set ids = dom gone" and "sorted ids" and "distinct ids"
    and "s_orders s' = filter (\<lambda>(k, ord). \<not> order_expired now block inSwap k ord) (s_orders s)"
    and "s_history s' = s_history s @ map (\<lambda>(k, ord). expired_entry now k ord) (filter (\<lambda>(k, ord).
        k \<notin> he_ID ` set (s_history s)) (filter (\<lambda>(k, ord). order_expired now block inSwap k ord) (s_orders s)))"
    and "s_reserved s' = s_reserved s"
proof -
  have d: "distinct (map fst (s_orders s))" using assms(2) by (simp add: live_ok_def)
  let ?g = "filter (\<lambda>(k, ord). order_expired now block inSwap k ord) (s_orders s)"
  obtain p where loop: "prune_loop now block inSwap (s_orders s) (s, []) = (s', p)" and ids: "ids = sort p"
    using assms(1) by (auto simp: PruneExpired_def split: prod.splits)
  note res = prune_loop_result [OF loop]
  have p: "p = map fst ?g" using res(1) by simp
  show "set ids = dom gone" using fst_filter_dom [OF d] by (simp add: ids p gone_def)
  show "sorted ids" by (simp add: ids)
  show "distinct ids" using d by (simp add: ids p distinct_map_filter)
  have "(case e of (k, ord) \<Rightarrow> k \<notin> fst ` set ?g) = (case e of (k, ord) \<Rightarrow> \<not> order_expired now block inSwap k ord)"
    if "e \<in> set (s_orders s)" for e
    using that d by (auto simp: image_iff) (metis eq_key_imp_eq_value)
  then show "s_orders s' = filter (\<lambda>(k, ord). \<not> order_expired now block inSwap k ord) (s_orders s)"
    unfolding res(2) by (intro filter_cong) auto
  show "s_history s' = s_history s @ map (\<lambda>(k, ord). expired_entry now k ord) (filter (\<lambda>(k, ord).
        k \<notin> he_ID ` set (s_history s)) ?g)" by (rule res(4) [OF d])
  show "s_reserved s' = s_reserved s" by (rule res(3))
qed

section \<open>Every method keeps the invariant and refines the specification\<close>

lemma past_of_expired:
  assumes "distinct (map fst g)" and "\<And>k ord. (k, ord) \<in> set g \<Longrightarrow> k \<notin> he_ID ` set hs"
  shows "past_of (hs @ map (\<lambda>(k, ord). expired_entry now k ord) g)
    = (\<lambda>k. case past_of hs k of Some e \<Rightarrow> Some e | None \<Rightarrow> map_option (expired_entry now k) (map_of g k))"
proof
  fix k
  have A: "map (\<lambda>e. (he_ID e, e)) (map (\<lambda>(k, ord). expired_entry now k ord) g)
      = map (\<lambda>(k, ord). (k, expired_entry now k ord)) g"
    by (auto simp: expired_entry_def)
  have B: "map_of (map (\<lambda>(k, ord). (k, expired_entry now k ord)) g) k = map_option (expired_entry now k) (map_of g k)"
    by (induction g) auto
  have "map_of g k \<noteq> None \<Longrightarrow> past_of hs k = None"
    using assms(2) by (auto simp: past_of_None dest: map_of_SomeD)
  then show "past_of (hs @ map (\<lambda>(k, ord). expired_entry now k ord) g) k
      = (case past_of hs k of Some e \<Rightarrow> Some e | None \<Rightarrow> map_option (expired_entry now k) (map_of g k))"
    unfolding past_of_def map_append A map_of_append map_add_def B by (auto split: option.splits)
qed

lemma hist_ok_expired:
  assumes "hist_ok hs" and "distinct (map fst g)"
    and g: "\<And>k ord. (k, ord) \<in> set g \<Longrightarrow> k \<notin> he_ID ` set hs \<and> k = orderKey (o_ID ord) \<and> length (o_ID ord) = 32"
  shows "hist_ok (hs @ map (\<lambda>(k, ord). expired_entry now k ord) g)"
proof -
  have ids: "map he_ID (map (\<lambda>(k, ord). expired_entry now k ord) g) = map fst g"
    by (auto simp: expired_entry_def)
  have "distinct (map he_ID (hs @ map (\<lambda>(k, ord). expired_entry now k ord) g))"
    unfolding map_append ids using assms by (fastforce simp: hist_ok_def)
  then show ?thesis using assms(1) g unfolding hist_ok_def by (fastforce simp: expired_entry_def)
qed

lemma Update_cases:
  assumes "live_ok (s_orders s)" and "\<And>ord. o_ID (fn ord) = o_ID ord"
  shows "live_ok (s_orders (fst (Update s k fn)))"
    and "map_of (s_orders (fst (Update s k fn))) = (map_of (s_orders s))(k := map_option fn (map_of (s_orders s) k))"
    and "s_history (fst (Update s k fn)) = s_history s" and "s_reserved (fst (Update s k fn)) = s_reserved s"
    and "snd (Update s k fn) \<longleftrightarrow> map_of (s_orders s) k \<noteq> None"
  using assms live_ok_lookup [OF assms(1)]
  by (auto simp: Update_def AList.update_conv' fun_upd_idem live_ok_update split: option.splits)

lemma Touch_Update: "fst (Touch now s k) = fst (Update s k (\<lambda>ord. if o_Status ord \<noteq> ''canceled'' then ord\<lparr>o_Updated := now\<rparr> else ord))
    \<or> map_of (s_orders s) k \<noteq> None \<and> o_Status (the (map_of (s_orders s) k)) = ''canceled'' \<and> fst (Touch now s k) = s"
  by (auto simp: Touch_def Update_def split: option.splits)

definition refines :: "store_op \<Rightarrow> Store \<Rightarrow> bool" where
  "refines op s \<longleftrightarrow> store_ok (exec_op op s) \<and> abs_book (exec_op op s) = spec_op op (abs_book s)"

lemma store_ok_distinct:
  assumes "store_ok s"
  shows "distinct (map fst (s_orders s))" and "distinct (map he_ID (s_history s))"
  using assms by (simp_all add: store_ok_def live_ok_def hist_ok_def)

lemmas refine_simps = refines_def store_ok_def abs_book_def

lemma refines_live:
  assumes "store_ok s"
  shows "length (o_ID ord) = 32 \<Longrightarrow> refines (OpAdd ord) s" and "refines (OpRemove k) s"
    and "(\<And>ord. o_ID (fn ord) = o_ID ord) \<Longrightarrow> refines (OpUpdate k fn) s"
    and "refines (OpPruneUnconnected kept) s"
proof -
  have l: "live_ok (s_orders s)" using assms by (simp add: store_ok_def)
  show "length (o_ID ord) = 32 \<Longrightarrow> refines (OpAdd ord) s"
    using assms by (simp add: refine_simps Add_def AList.update_conv' live_ok_update)
  show "refines (OpRemove k) s"
    using assms by (simp add: refine_simps Store_Remove_def live_ok_delete AList.delete_conv')
  show "(\<And>ord. o_ID (fn ord) = o_ID ord) \<Longrightarrow> refines (OpUpdate k fn) s"
    using Update_cases [OF l, of fn k] assms by (simp add: refine_simps)
  show "refines (OpPruneUnconnected kept) s"
    using assms store_ok_distinct [OF assms]
    by (simp add: refine_simps PruneUnconnected_def live_ok_filter map_of_filter)
qed

lemma refines_touch:
  assumes "store_ok s"
  shows "refines (OpTouch now k) s"
proof -
  let ?f = "\<lambda>ord. if o_Status ord \<noteq> ''canceled'' then ord\<lparr>o_Updated := now\<rparr> else ord"
  from Touch_Update [of now s k] show ?thesis
  proof
    assume "fst (Touch now s k) = fst (Update s k ?f)"
    then show ?thesis using refines_live(3) [OF assms, of ?f k] by (simp add: refines_def)
  next
    assume a: "map_of (s_orders s) k \<noteq> None \<and> o_Status (the (map_of (s_orders s) k)) = ''canceled'' \<and> fst (Touch now s k) = s"
    then have "map_option ?f (map_of (s_orders s) k) = map_of (s_orders s) k" by auto
    then show ?thesis using a assms by (simp add: refines_def abs_book_def fun_upd_idem)
  qed
qed

lemma refines_history:
  assumes "store_ok s"
  shows "refines (OpMoveToHistory k st re u) s" and "length (o_ID ord) = 32 \<Longrightarrow> refines (OpAddToHistory ord st re u) s"
proof -
  have l: "live_ok (s_orders s)" using assms by (simp add: store_ok_def)
  show "refines (OpMoveToHistory k st re u) s"
  proof (cases "map_of (s_orders s) k")
    case None
    then show ?thesis using assms by (simp add: refines_def MoveToHistory_def abs_book_def)
  next
    case (Some ord)
    then have "hist_ok (add_history (s_history s) k st (ucast re) u (Some ord))"
      using assms live_ok_lookup [OF l Some] by (intro hist_ok_add) (auto simp: store_ok_def)
    then show ?thesis using assms Some
      by (simp add: refine_simps MoveToHistory_def live_ok_delete AList.delete_conv' past_of_add terminal_entry_def)
  qed
  assume "length (o_ID ord) = 32"
  then have "hist_ok (add_history (s_history s) (orderKey (o_ID ord)) st (ucast re) u (Some ord))"
    using assms by (intro hist_ok_add) (auto simp: store_ok_def)
  then show "refines (OpAddToHistory ord st re u) s" using assms
    by (simp add: refine_simps AddToHistory_def past_of_add terminal_entry_def flip: orderKey_def)
qed

lemma refines_expire:
  assumes "store_ok s"
  shows "refines (OpPruneExpired now block inSwap) s"
proof -
  have l: "live_ok (s_orders s)" and h: "hist_ok (s_history s)" and d: "distinct (map fst (s_orders s))"
    using assms store_ok_distinct [OF assms] by (simp_all add: store_ok_def)
  obtain s' ids where p: "PruneExpired s now block inSwap = (s', ids)" by (cases "PruneExpired s now block inSwap")
  note st = PruneExpired_state [OF p l]
  let ?g = "filter (\<lambda>(k, ord). order_expired now block inSwap k ord) (s_orders s)"
  let ?n = "filter (\<lambda>(k, ord). k \<notin> he_ID ` set (s_history s)) ?g"
  have n: "distinct (map fst ?n)" "\<And>k ord. (k, ord) \<in> set ?n \<Longrightarrow> k \<notin> he_ID ` set (s_history s)"
    using d by (auto simp: distinct_map_filter simp del: filter_filter)
  have own: "k = orderKey (o_ID ord) \<and> length (o_ID ord) = 32" if "(k, ord) \<in> set ?n" for k ord
    using that l by (auto simp: live_ok_def)
  have hk: "hist_ok (s_history s')"
    unfolding st(5) by (rule hist_ok_expired [OF h n(1)]) (use n(2) own in blast)
  have g: "map_of ?g = keep_if (order_expired now block inSwap) (map_of (s_orders s))" using d by (rule map_of_filter)
  have "map_of ?n = keep_if (\<lambda>k ord. k \<notin> he_ID ` set (s_history s)) (map_of ?g)"
    using d by (intro map_of_filter distinct_map_filter)
  then have nk: "past_of (s_history s) k = None \<Longrightarrow> map_of ?n k = map_of ?g k" for k
    by (simp only: keep_if_def past_of_None) (cases "map_of ?g k"; simp)
  have "past_of (s_history s') = (\<lambda>k. case past_of (s_history s) k of Some e \<Rightarrow> Some e
      | None \<Rightarrow> map_option (expired_entry now k) (map_of ?g k))"
    unfolding st(5)
    by (subst past_of_expired [OF n(1)], erule n(2), rule ext, case_tac "past_of (s_history s) k") (simp_all only: option.case nk)
  note past = this [unfolded g]
  show ?thesis using assms d hk unfolding refines_def store_ok_def abs_book_def
    by (simp add: p st(4,6) live_ok_filter map_of_filter past cong: option.case_cong)
qed

lemma refines_locks:
  assumes "store_ok s"
  shows "refines (OpLock ord) s" and "refines (OpReserve k fee fund cur) s" and "refines (OpRelease k) s"
    and "refines (OpFlush now age) s"
proof -
  show "refines (OpLock ord) s" using assms by (simp add: refine_simps Lock_def)
  show "refines (OpRelease k) s" using assms
    by (simp add: refine_simps ReleaseReserve_def delete_filter distinct_map_filter)
  show "refines (OpFlush now age) s"
    using assms store_ok_distinct [OF assms]
    by (simp add: refine_simps FlushCancelled_def Let_def live_ok_filter hist_ok_filter map_of_filter past_of_filter)
  show "refines (OpReserve k fee fund cur) s" using assms
    by (auto simp: refine_simps ReserveForTake_def AList.distinct_update Let_def split: prod.splits)
qed

lemma store_step: "store_ok s \<Longrightarrow> op_ok op \<Longrightarrow> refines op s"
  by (cases op) (simp_all add: refines_live refines_touch refines_history refines_expire refines_locks)

lemma store_run:
  assumes "store_ok s" and "list_all op_ok ops"
  shows "store_ok (fold exec_op ops s) \<and> abs_book (fold exec_op ops s) = fold spec_op ops (abs_book s)"
  using assms by (induction ops arbitrary: s) (use store_step in \<open>auto simp: refines_def\<close>)

lemma NewStore_ok: "store_ok NewStore" "abs_book NewStore = \<lparr>b_live = Map.empty, b_past = Map.empty\<rparr>"
  by (simp_all add: NewStore_def store_ok_def live_ok_def hist_ok_def abs_book_def past_of_def)

section \<open>Properties\<close>

text \<open>
  C15: the invariant of the order book. After any sequence of method calls on a new store, each
  order is filed once and under the key of its own id, no order id has two terminal records, the
  snapshot in a terminal record is the order it is filed for with the recorded status and time,
  and no order holds two reservations.
\<close>

theorem store_invariant:
  assumes "list_all op_ok ops"
  shows "store_ok (fold exec_op ops NewStore)"
  using store_run [OF NewStore_ok(1) assms] by simp

theorem store_invariant_witness:
  "store_ok (fold exec_op [OpAdd zeroOrder, OpMoveToHistory (orderKey (replicate 32 0)) ''canceled'' 2 7, OpAdd zeroOrder] NewStore)"
  by (rule store_invariant) (simp add: zeroOrder_def)

text \<open>
  C14: the order book refines its specification. After any sequence of method calls on a new
  store, the live orders and the terminal records are those of the abstract book after the same
  operations: an order is live until it is removed, moved, pruned or flushed, a terminal record is
  written once and stays until it is flushed.
\<close>

theorem store_refines:
  assumes "list_all op_ok ops"
  shows "abs_book (fold exec_op ops NewStore) = fold spec_op ops \<lparr>b_live = Map.empty, b_past = Map.empty\<rparr>"
  using store_run [OF NewStore_ok(1) assms] by (simp add: NewStore_ok(2))

theorem store_refines_witness:
  "b_past (abs_book (fold exec_op [OpAdd zeroOrder, OpMoveToHistory (orderKey (replicate 32 0)) ''canceled'' 2 7] NewStore))
     (orderKey (replicate 32 0)) \<noteq> None"
  using store_refines [of "[OpAdd zeroOrder, OpMoveToHistory (orderKey (replicate 32 0)) ''canceled'' 2 7]"]
  by (simp add: zeroOrder_def record_once_def)

text \<open>
  Expiry is exact. The sweep returns, in sorted order and whatever the iteration order of
  the map, the keys of exactly the live orders whose time is up; these and no others leave the
  book, each has a terminal record afterwards, earlier records stay as they were, and an order
  that is being swapped is never swept.
\<close>

theorem PruneExpired_exact:
  assumes "store_ok s" and "PruneExpired s now block inSwap = (s', ids)"
  shows "ids = sorted_list_of_set {k. \<exists>ord. map_of (s_orders s) k = Some ord \<and> order_expired now block inSwap k ord}
    \<and> map_of (s_orders s') = (\<lambda>k. if k \<in> set ids then None else map_of (s_orders s) k)
    \<and> (\<forall>k \<in> set ids. \<not> inSwap k \<and> (\<exists>e \<in> set (s_history s'). he_ID e = k))
    \<and> (\<exists>new. s_history s' = s_history s @ new \<and> he_ID ` set new \<subseteq> set ids)"
proof -
  have l: "live_ok (s_orders s)" and d: "distinct (map fst (s_orders s))"
    using assms(1) store_ok_distinct [OF assms(1)] by (simp_all add: store_ok_def)
  note st = PruneExpired_state [OF assms(2) l]
  have ids: "set ids = {k. \<exists>ord. map_of (s_orders s) k = Some ord \<and> order_expired now block inSwap k ord}"
    unfolding st(1) by (auto simp: keep_if_def dom_def split: option.splits if_splits)
  then have 1: "ids = sorted_list_of_set {k. \<exists>ord. map_of (s_orders s) k = Some ord \<and> order_expired now block inSwap k ord}"
    using st(2,3) sorted_list_of_set.idem_if_sorted_distinct by metis
  have 2: "map_of (s_orders s') = (\<lambda>k. if k \<in> set ids then None else map_of (s_orders s) k)"
    unfolding st(4) map_of_filter [OF d] ids by (auto simp: keep_if_def fun_eq_iff split: option.splits)
  have g: "fst ` set (filter (\<lambda>(k, ord). order_expired now block inSwap k ord) (s_orders s)) = set ids"
    unfolding st(1) using fst_filter_dom [OF d] by simp
  have "\<exists>e \<in> set (s_history s'). he_ID e = k" if k: "k \<in> set ids" for k
  proof (cases "k \<in> he_ID ` set (s_history s)")
    case True
    then show ?thesis unfolding st(5) by auto
  next
    case False
    from k g obtain ord where "(k, ord) \<in> set (filter (\<lambda>(k, ord). order_expired now block inSwap k ord) (s_orders s))" by force
    with False have "expired_entry now k ord \<in> set (s_history s')" unfolding st(5) by auto
    then show ?thesis by (metis expired_entry_def historyEntry.select_convs(1))
  qed
  moreover have "\<not> inSwap k" if "k \<in> set ids" for k using that unfolding ids by (auto simp: order_expired_def)
  moreover have "\<exists>new. s_history s' = s_history s @ new \<and> he_ID ` set new \<subseteq> set ids"
    unfolding st(5) g [symmetric] by (intro exI conjI, rule refl) (auto simp: expired_entry_def intro!: rev_image_eqI)
  ultimately show ?thesis using 1 2 by blast
qed

definition old_order :: Order where
  "old_order = zeroOrder\<lparr>o_Status := ''open''\<rparr>"

theorem PruneExpired_exact_witness:
  "snd (PruneExpired (Add NewStore old_order) 400000000 0 (\<lambda>_. False)) = [orderKey (replicate 32 0)]"
proof -
  let ?s = "Add NewStore old_order" and ?k = "orderKey (replicate 32 0)"
  obtain s' ids where p: "PruneExpired ?s 400000000 0 (\<lambda>_. False) = (s', ids)"
    by (cases "PruneExpired ?s 400000000 0 (\<lambda>_. False)")
  have os: "s_orders ?s = [(?k, old_order)]" by (simp add: Add_def NewStore_def old_order_def zeroOrder_def)
  have ok: "store_ok ?s"
    unfolding store_ok_def os live_ok_def by (simp add: old_order_def zeroOrder_def Add_def NewStore_def hist_ok_def)
  have "order_expired 400000000 0 (\<lambda>_. False) ?k old_order"
    by (simp add: order_expired_def old_order_def zeroOrder_def ageSec_def PendingTTL_def DeadlineTTL_def)
  then have "{k. \<exists>ord. map_of (s_orders ?s) k = Some ord \<and> order_expired 400000000 0 (\<lambda>_. False) k ord} = {?k}"
    unfolding os by auto
  with PruneExpired_exact [OF ok p] p show ?thesis by simp
qed

section \<open>Takes in flight\<close>

definition active :: "Store \<Rightarrow> string \<Rightarrow> bool" where
  "active s k = (case map_of (s_orders s) k of Some ord \<Rightarrow> \<not> orderLockReleased (o_Status ord) | None \<Rightarrow> False)"

definition take_keys :: "Store \<Rightarrow> string \<Rightarrow> string set" where
  "take_keys s k = (case map_of (s_reserved s) k of
     Some r \<Rightarrow> if active s k then set (rk_fee r) \<union> set (rk_fund r) else {} | None \<Rightarrow> {})"

lemma reserved_locks_keys: "map_of (s_reserved s) k = Some r \<Longrightarrow> take_keys s k = fst ` set (reserved_locks s k r)"
  by (cases "map_of (s_orders s) k") (auto simp: take_keys_def active_def reserved_locks_def Let_def image_Un image_image)

lemma take_keys_locked: "take_keys s k \<subseteq> fst (LockedUtxoInfo s)"
proof (cases "map_of (s_reserved s) k")
  case (Some r)
  then have "(k, r) \<in> set (s_reserved s)" by (rule map_of_SomeD)
  then show ?thesis unfolding reserved_locks_keys [OF Some]
    by (force simp: LockedUtxoInfo_def lockedInfoLocked_def lock_writes_def)
qed (simp add: take_keys_def)

lemma ReserveForTake_cases:
  assumes "ReserveForTake s key fee fund cur = (s', res)"
  shows "res \<noteq> reserveOK \<and> s' = s
    \<or> res = reserveOK \<and> set (fee @ fund) \<inter> fst (LockedUtxoInfo s) = {} \<and> map_of (s_reserved s) key = None
      \<and> s_orders s' = s_orders s \<and> s_history s' = s_history s
      \<and> map_of (s_reserved s') = (if fee @ fund = [] then map_of (s_reserved s) else
          (map_of (s_reserved s))(key \<mapsto> \<lparr>rk_fee = fee, rk_fund = fund, rk_fundCurrency = cur\<rparr>))"
  using assms
  by (auto simp: ReserveForTake_def LockedUtxoInfo_def Let_def AList.update_conv' split: if_splits prod.splits option.splits)

text \<open>
  A reservation is all or nothing. A refused take leaves the store as it was; a granted one
  claims inputs that no live order and no other take holds, and from then on, while its order is
  live, they count as locked and every take that needs one of them is refused.
\<close>

theorem ReserveForTake_exclusive:
  assumes "ReserveForTake s key fee fund cur = (s', res)"
  shows "(res \<noteq> reserveOK \<longrightarrow> s' = s)
    \<and> (res = reserveOK \<longrightarrow> set (fee @ fund) \<inter> fst (LockedUtxoInfo s) = {} \<and> s_orders s' = s_orders s
        \<and> (active s key \<longrightarrow> set (fee @ fund) \<subseteq> fst (LockedUtxoInfo s')
             \<and> (\<forall>key2 fee2 fund2 cur2. set (fee @ fund) \<inter> set (fee2 @ fund2) \<noteq> {} \<longrightarrow>
                  snd (ReserveForTake s' key2 fee2 fund2 cur2) \<noteq> reserveOK)))"
proof (cases "res = reserveOK")
  case True
  note R = ReserveForTake_cases [OF assms]
  have "set (fee @ fund) \<subseteq> fst (LockedUtxoInfo s')" if "active s key"
  proof (cases "fee @ fund = []")
    case False
    then have "take_keys s' key = set (fee @ fund)" using R True that by (auto simp: take_keys_def active_def)
    then show ?thesis using take_keys_locked [of s' key] by simp
  qed auto
  moreover have "snd (ReserveForTake s' key2 fee2 fund2 cur2) \<noteq> reserveOK"
    if "set (fee @ fund) \<inter> set (fee2 @ fund2) \<noteq> {}" "set (fee @ fund) \<subseteq> fst (LockedUtxoInfo s')" for key2 fee2 fund2 cur2
    using that ReserveForTake_cases [of s' key2 fee2 fund2 cur2] by (cases "ReserveForTake s' key2 fee2 fund2 cur2") auto
  ultimately show ?thesis using R True by auto
qed (use ReserveForTake_cases [OF assms] in auto)

definition two_orders :: Store where
  "two_orders = Add (Add NewStore old_order) (old_order\<lparr>o_ID := replicate 32 1\<rparr>)"

theorem ReserveForTake_exclusive_witness:
  "snd (ReserveForTake two_orders (orderKey (replicate 32 0)) [''a:0''] [''b:1''] ''BTC'') = reserveOK
   \<and> snd (ReserveForTake (fst (ReserveForTake two_orders (orderKey (replicate 32 0)) [''a:0''] [''b:1''] ''BTC''))
        (orderKey (replicate 32 1)) [] [''b:1''] ''LTC'') \<noteq> reserveOK"
proof -
  let ?k = "orderKey (replicate 32 0)"
  have ne: "orderKey (replicate 32 0) \<noteq> orderKey (replicate 32 1)" by (simp add: orderKey_inj)
  have os: "s_orders two_orders = [(?k, old_order), (orderKey (replicate 32 1), old_order\<lparr>o_ID := replicate 32 1\<rparr>)]"
      "s_reserved two_orders = []"
    using ne by (simp_all add: two_orders_def Add_def NewStore_def old_order_def zeroOrder_def)
  have st: "orderLockReleased (o_Status old_order) = False" "isOrderTerminal (o_Status old_order) = False"
    by (simp_all add: orderLockReleased_def isOrderTerminal_def old_order_def statusString_def)
  have l: "fst (lockedInfoLocked two_orders) = {}"
    by (simp add: lockedInfoLocked_def lock_writes_def os order_locks_def st Let_def) (simp add: old_order_def zeroOrder_def)
  obtain s' res where p: "ReserveForTake two_orders ?k [''a:0''] [''b:1''] ''BTC'' = (s', res)"
    by (cases "ReserveForTake two_orders ?k [''a:0''] [''b:1''] ''BTC''")
  have r: "res = reserveOK"
    using p l by (cases "lockedInfoLocked two_orders") (auto simp: ReserveForTake_def os st)
  have "active two_orders ?k" by (simp add: active_def os st)
  with ReserveForTake_exclusive [OF p] r have "snd (ReserveForTake s' (orderKey (replicate 32 1)) [] [''b:1''] ''LTC'') \<noteq> reserveOK"
    by auto
  with r p show ?thesis by simp
qed

text \<open>
  A run in which nobody revives a reserved order: a call may bring an order back into the book,
  or back from a terminal state, only while no take holds a reservation for it.
\<close>

definition no_revival :: "store_op \<Rightarrow> Store \<Rightarrow> bool" where
  "no_revival op s \<longleftrightarrow> (\<forall>k. map_of (s_reserved s) k \<noteq> None \<and> active (exec_op op s) k \<longrightarrow> active s k)"

inductive take_run :: "Store \<Rightarrow> bool" where
  take_init: "take_run NewStore"
| take_step: "take_run s \<Longrightarrow> op_ok op \<Longrightarrow> no_revival op s \<Longrightarrow> take_run (exec_op op s)"

definition exclusive :: "Store \<Rightarrow> bool" where
  "exclusive s \<longleftrightarrow> (\<forall>j k. j \<noteq> k \<longrightarrow> take_keys s j \<inter> take_keys s k = {})"

lemma reserved_kept:
  assumes "\<And>k fee fund cur. op \<noteq> OpReserve k fee fund cur"
  shows "map_of (s_reserved (exec_op op s)) k \<in> {None, map_of (s_reserved s) k}"
proof (cases op)
  case (OpPruneExpired now block inSwap)
  then show ?thesis
    using prune_loop_result(3) [of now block inSwap "s_orders s" s "[]"]
    by (auto simp: PruneExpired_def split: prod.splits)
qed (use assms in \<open>auto simp: Add_def Update_def Touch_def Store_Remove_def MoveToHistory_def AddToHistory_def
    PruneUnconnected_def Lock_def ReleaseReserve_def FlushCancelled_def Let_def AList.delete_conv' split: option.splits\<close>)

lemma take_keys_mono:
  assumes "no_revival op s" and "map_of (s_reserved (exec_op op s)) k \<in> {None, map_of (s_reserved s) k}"
  shows "take_keys (exec_op op s) k \<subseteq> take_keys s k"
  using assms by (auto simp: take_keys_def no_revival_def split: option.splits if_splits)

lemma exclusive_step:
  assumes "exclusive s" and "no_revival op s"
  shows "exclusive (exec_op op s)"
proof (cases "\<exists>k fee fund cur. op = OpReserve k fee fund cur")
  case True
  then obtain key fee fund cur where op: "op = OpReserve key fee fund cur" by blast
  obtain s' res where p: "ReserveForTake s key fee fund cur = (s', res)" by (cases "ReserveForTake s key fee fund cur")
  then have e: "exec_op op s = s'" by (simp add: op)
  from ReserveForTake_cases [OF p] show ?thesis
  proof
    assume "res \<noteq> reserveOK \<and> s' = s"
    then show ?thesis using assms(1) e by simp
  next
    assume R: "res = reserveOK \<and> set (fee @ fund) \<inter> fst (LockedUtxoInfo s) = {} \<and> map_of (s_reserved s) key = None
      \<and> s_orders s' = s_orders s \<and> s_history s' = s_history s
      \<and> map_of (s_reserved s') = (if fee @ fund = [] then map_of (s_reserved s) else
          (map_of (s_reserved s))(key \<mapsto> \<lparr>rk_fee = fee, rk_fund = fund, rk_fundCurrency = cur\<rparr>))"
    have a: "active s' k = active s k" for k using R by (simp add: active_def)
    have other: "take_keys s' k = take_keys s k" if "k \<noteq> key" for k
      using R that by (simp add: take_keys_def a cong: option.case_cong)
    have mine: "take_keys s' key \<subseteq> set (fee @ fund)" using R by (auto simp: take_keys_def split: option.splits if_splits)
    have free: "set (fee @ fund) \<inter> take_keys s k = {}" for k using R take_keys_locked [of s k] by blast
    show ?thesis unfolding exclusive_def e
    proof (intro allI impI)
      fix j k :: string assume "j \<noteq> k"
      then show "take_keys s' j \<inter> take_keys s' k = {}"
        using assms(1) other mine free unfolding exclusive_def by (cases "j = key"; cases "k = key") (simp; blast)+
    qed
  qed
next
  case False
  then have "take_keys (exec_op op s) k \<subseteq> take_keys s k" for k
    by (intro take_keys_mono [OF assms(2)] reserved_kept) auto
  then show ?thesis using assms(1) unfolding exclusive_def by blast
qed

text \<open>
  C13: two takes never spend the same input. In every reachable store in which no reserved order
  was revived, the inputs that the takes in flight have claimed for different live orders are
  disjoint.
\<close>

theorem takes_disjoint:
  assumes "take_run s" and "j \<noteq> k"
  shows "take_keys s j \<inter> take_keys s k = {}"
proof -
  from assms(1) have "exclusive s"
  proof (induction rule: take_run.induct)
    case take_init
    then show ?case by (simp add: exclusive_def take_keys_def NewStore_def)
  next
    case (take_step s op)
    then show ?case using exclusive_step by blast
  qed
  with assms(2) show ?thesis by (simp add: exclusive_def)
qed

lemma two_orders_run: "take_run two_orders"
proof -
  have "no_revival (OpAdd old_order) NewStore" by (simp add: no_revival_def NewStore_def)
  then have "take_run (exec_op (OpAdd old_order) NewStore)"
    by (intro take_step take_init) (simp_all add: old_order_def zeroOrder_def)
  moreover have "no_revival (OpAdd (old_order\<lparr>o_ID := replicate 32 1\<rparr>)) (exec_op (OpAdd old_order) NewStore)"
    by (simp add: no_revival_def NewStore_def Add_def)
  ultimately have "take_run (exec_op (OpAdd (old_order\<lparr>o_ID := replicate 32 1\<rparr>)) (exec_op (OpAdd old_order) NewStore))"
    using take_step [of "exec_op (OpAdd old_order) NewStore" "OpAdd (old_order\<lparr>o_ID := replicate 32 1\<rparr>)"] by simp
  then show ?thesis by (simp add: two_orders_def)
qed

theorem takes_disjoint_witness:
  "take_keys (fst (ReserveForTake two_orders (orderKey (replicate 32 0)) [''a:0''] [] ''BTC'')) (orderKey (replicate 32 0))
   \<inter> take_keys (fst (ReserveForTake two_orders (orderKey (replicate 32 0)) [''a:0''] [] ''BTC'')) (orderKey (replicate 32 1)) = {}"
proof (rule takes_disjoint)
  let ?op = "OpReserve (orderKey (replicate 32 0)) [''a:0''] [] ''BTC''"
  have "no_revival ?op two_orders"
    by (simp add: no_revival_def two_orders_def Add_def NewStore_def)
  then have "take_run (exec_op ?op two_orders)" using two_orders_run by (intro take_step) simp_all
  then show "take_run (fst (ReserveForTake two_orders (orderKey (replicate 32 0)) [''a:0''] [] ''BTC''))" by simp
qed (simp add: orderKey_inj)

section \<open>Fills\<close>

definition own_finished :: "string \<times> u64 \<times> Order option \<Rightarrow> bool" where
  "own_finished e = (case e of (status, t, Some ord) \<Rightarrow> o_Mine ord \<and> statusString status = ''finished'' | _ \<Rightarrow> False)"

definition entry_key :: "string \<times> u64 \<times> Order option \<Rightarrow> string" where
  "entry_key e = (case e of (status, t, Some ord) \<Rightarrow> orderKey (o_ID ord) | _ \<Rightarrow> [])"

definition entry_row :: "string \<times> u64 \<times> Order option \<Rightarrow> fillEntry" where
  "entry_row e = (case e of (status, t, ord) \<Rightarrow> render_fill (the ord) t)"

lemma fill_loop_rows:
  "\<exists>rows. fill_loop es (out, seen) = (out @ map entry_row rows, seen \<union> entry_key ` set rows)
     \<and> set rows \<subseteq> set (filter own_finished es) \<and> distinct (map entry_key rows) \<and> entry_key ` set rows \<inter> seen = {}
     \<and> entry_key ` set (filter own_finished es) \<subseteq> entry_key ` set rows \<union> seen"
proof (induction es arbitrary: out seen)
  case (Cons e es)
  obtain status t eo where e: "e = (status, t, eo)" by (cases e)
  show ?case
  proof (cases "own_finished e \<and> entry_key e \<notin> seen")
    case True
    then obtain ord where eo: "eo = Some ord" "o_Mine ord" "statusString status = ''finished''" "orderKey (o_ID ord) \<notin> seen"
      by (auto simp: e own_finished_def entry_key_def split: option.splits)
    obtain rows where R: "fill_loop es (out @ [entry_row e], insert (entry_key e) seen)
          = ((out @ [entry_row e]) @ map entry_row rows, insert (entry_key e) seen \<union> entry_key ` set rows)"
        "set rows \<subseteq> set (filter own_finished es)" "distinct (map entry_key rows)"
        "entry_key ` set rows \<inter> insert (entry_key e) seen = {}"
        "entry_key ` set (filter own_finished es) \<subseteq> entry_key ` set rows \<union> insert (entry_key e) seen"
      using Cons.IH [of "out @ [entry_row e]" "insert (entry_key e) seen"] by blast
    have "fill_loop (e # es) (out, seen) = fill_loop es (out @ [entry_row e], insert (entry_key e) seen)"
      using eo by (simp add: e entry_row_def entry_key_def)
    then show ?thesis using R True by (intro exI [of _ "e # rows"]) auto
  next
    case False
    then have "fill_loop (e # es) (out, seen) = fill_loop es (out, seen)"
      by (auto simp: e own_finished_def entry_key_def split: option.splits)
    then show ?thesis using Cons.IH [of out seen] False by auto
  qed
qed simp

definition fill_entries :: "Store \<Rightarrow> (string \<times> u64 \<times> Order option) list" where
  "fill_entries s = map (\<lambda>e. (he_Status e, he_Updated e, he_Order e)) (rev (s_history s))
     @ map (\<lambda>(k, ord). (o_Status ord, o_Updated ord, Some ord)) (s_orders s)"

lemma fill_loop_append: "fill_loop (xs @ ys) acc = fill_loop ys (fill_loop xs acc)"
  by (induction xs acc rule: fill_loop.induct) (auto split: option.splits)

lemma Fills_sorted_rows: "Fills s = sort_key (\<lambda>r. (2 ^ 64 - 1 - unat (fe_Time r), fe_ID r)) (fst (fill_loop (fill_entries s) ([], {})))"
  by (simp add: Fills_def fill_entries_def fill_loop_append Let_def split: prod.splits)

lemma fill_entries_ids: "store_ok s \<Longrightarrow> (status, t, Some ord) \<in> set (fill_entries s) \<Longrightarrow> length (o_ID ord) = 32"
  by (auto simp: fill_entries_def store_ok_def hist_ok_def live_ok_def; metis)

lemma entry_row_id: "fe_ID (entry_row (status, t, Some ord)) = orderIDString (o_ID ord)"
  by (simp add: entry_row_def render_fill_def split: prod.splits)

lemma orderIDString_inj: "length a = 32 \<Longrightarrow> length b = 32 \<Longrightarrow> orderIDString a = orderIDString b \<longleftrightarrow> a = b"
  by (metis orderIDString_rev hexEncode_def hex_roundtrip option.inject rev_rev_ident)

text \<open>
  The fills are one row per own finished order, newest first. No id is listed twice, every
  id that is listed belongs to an own order whose terminal record or live state is finished and
  every such order is listed, and the rows are ordered by falling time and then by id.
\<close>

theorem Fills_rows:
  assumes "store_ok s"
  shows "distinct (map fe_ID (Fills s))
    \<and> set (map fe_ID (Fills s)) = {orderIDString (o_ID ord) | status t ord.
        (status, t, Some ord) \<in> set (fill_entries s) \<and> o_Mine ord \<and> statusString status = ''finished''}
    \<and> sorted_wrt (\<lambda>a b. fe_Time b < fe_Time a \<or> fe_Time a = fe_Time b \<and> fe_ID a \<le> fe_ID b) (Fills s)"
proof -
  let ?key = "\<lambda>r. (2 ^ 64 - 1 - unat (fe_Time r), fe_ID r)" and ?es = "filter own_finished (fill_entries s)"
  obtain rows where out: "fst (fill_loop (fill_entries s) ([], {})) = map entry_row rows"
    and sub: "set rows \<subseteq> set ?es" and d: "distinct (map entry_key rows)" and all: "entry_key ` set ?es \<subseteq> entry_key ` set rows"
    using fill_loop_rows [of "fill_entries s" "[]" "{}"] by auto
  have ent: "\<exists>status t ord. e = (status, t, Some ord) \<and> length (o_ID ord) = 32 \<and> o_Mine ord \<and> statusString status = ''finished''
      \<and> e \<in> set (fill_entries s)" if "e \<in> set ?es" for e
    using that fill_entries_ids [OF assms] by (auto simp: own_finished_def split: option.splits)
  have same: "fe_ID (entry_row a) = fe_ID (entry_row b) \<longleftrightarrow> entry_key a = entry_key b" if "a \<in> set ?es" "b \<in> set ?es" for a b
    using ent [OF that(1)] ent [OF that(2)] by (auto simp: entry_row_id entry_key_def orderIDString_inj orderKey_inj)
  have inj: "inj_on (fe_ID \<circ> entry_row) (set rows)"
  proof (rule inj_onI)
    fix a b assume ab: "a \<in> set rows" "b \<in> set rows" and "(fe_ID \<circ> entry_row) a = (fe_ID \<circ> entry_row) b"
    then have "entry_key a = entry_key b" using same [OF subsetD [OF sub] subsetD [OF sub]] by simp
    then show "a = b" using d ab by (simp add: distinct_map inj_on_def)
  qed
  have "mset (map fe_ID (Fills s)) = mset (map (fe_ID \<circ> entry_row) rows)" by (simp add: Fills_sorted_rows out multiset.map_comp)
  moreover have "distinct (map (fe_ID \<circ> entry_row) rows)" using inj d by (simp add: distinct_map)
  ultimately have 1: "distinct (map fe_ID (Fills s))" by (metis mset_eq_imp_distinct_iff)
  have "set (map fe_ID (Fills s)) = (fe_ID \<circ> entry_row) ` set rows"
    by (simp add: Fills_sorted_rows out image_image)
  also have "\<dots> = (fe_ID \<circ> entry_row) ` set ?es"
  proof
    show "(fe_ID \<circ> entry_row) ` set rows \<subseteq> (fe_ID \<circ> entry_row) ` set ?es" using sub by (rule image_mono)
    show "(fe_ID \<circ> entry_row) ` set ?es \<subseteq> (fe_ID \<circ> entry_row) ` set rows"
    proof
    fix x assume "x \<in> (fe_ID \<circ> entry_row) ` set ?es"
    then obtain e where e: "e \<in> set ?es" "x = fe_ID (entry_row e)" by auto
    then obtain r where r: "r \<in> set rows" "entry_key e = entry_key r" using all by auto
    then have "x = (fe_ID \<circ> entry_row) r" using same [OF e(1) subsetD [OF sub r(1)]] e(2) by simp
    with r(1) show "x \<in> (fe_ID \<circ> entry_row) ` set rows" by (rule rev_image_eqI)
    qed
  qed
  also have "\<dots> = {orderIDString (o_ID ord) | status t ord.
        (status, t, Some ord) \<in> set (fill_entries s) \<and> o_Mine ord \<and> statusString status = ''finished''}"
    using ent by (force simp: entry_row_id own_finished_def image_iff)
  finally have 2: "set (map fe_ID (Fills s)) = \<dots>" .
  have "sorted (map ?key (Fills s))" unfolding Fills_sorted_rows by (rule sorted_sort_key)
  then have "sorted_wrt (\<lambda>a b. ?key a \<le> ?key b) (Fills s)" by (simp only: sorted_map)
  then have "sorted_wrt (\<lambda>a b. fe_Time b < fe_Time a \<or> fe_Time a = fe_Time b \<and> fe_ID a \<le> fe_ID b) (Fills s)"
  proof (rule sorted_wrt_mono_rel [rotated])
    fix a b assume "?key a \<le> ?key b"
    moreover have "unat (fe_Time a) < 2 ^ 64" "unat (fe_Time b) < 2 ^ 64" by (simp_all add: unat_less_2p [of "_ :: u64", simplified])
    ultimately show "fe_Time b < fe_Time a \<or> fe_Time a = fe_Time b \<and> fe_ID a \<le> fe_ID b"
      by (auto simp: less_eq_prod_def word_less_nat_alt word_unat_eq_iff)
  qed
  with 1 2 show ?thesis by blast
qed

definition done_order :: Order where
  "done_order = zeroOrder\<lparr>o_Status := ''finished'', o_Mine := True\<rparr>"

theorem Fills_rows_witness:
  "set (map fe_ID (Fills (Add NewStore done_order))) = {orderIDString (replicate 32 0)}"
proof -
  let ?s = "Add NewStore done_order"
  have os: "s_orders ?s = [(orderKey (replicate 32 0), done_order)]" "s_history ?s = []" "s_reserved ?s = []"
    by (simp_all add: Add_def NewStore_def done_order_def zeroOrder_def)
  have "store_ok ?s" by (simp add: store_ok_def os live_ok_def hist_ok_def) (simp add: done_order_def zeroOrder_def)
  from Fills_rows [OF this] have "set (map fe_ID (Fills ?s)) = {orderIDString (o_ID ord) | status t ord.
      (status, t, Some ord) \<in> set (fill_entries ?s) \<and> o_Mine ord \<and> statusString status = ''finished''}"
    by (simp only:)
  also have "\<dots> = {orderIDString (o_ID done_order)}"
    by (simp add: fill_entries_def os) (simp add: done_order_def statusString_def)
  finally show ?thesis by (simp add: done_order_def zeroOrder_def)
qed

section \<open>Flushing\<close>

lemma keepTime_age:
  assumes "unat now < 2 ^ 63"
  shows "updated < keepTime now age \<longleftrightarrow> unat updated + 1000 * unat age < unat now"
proof (cases "unat age \<le> (2 ^ 63 - 1) div 1000")
  case True
  then have "1000 * unat age < 2 ^ 64" by simp
  then have m: "unat (age * 1000) = 1000 * unat age" by (simp add: unat_word_ariths mult.commute)
  show ?thesis
  proof (cases "age * 1000 \<le> now")
    case le: True
    then have "unat (now - age * 1000) = unat now - 1000 * unat age" by (simp add: unat_sub m)
    moreover have "1000 * unat age \<le> unat now" using le by (simp add: word_le_nat_alt m)
    ultimately show ?thesis using True le by (auto simp: keepTime_def Let_def word_less_nat_alt)
  next
    case False
    then have "unat now < 1000 * unat age" by (simp add: word_le_nat_alt m)
    then show ?thesis using True False by (auto simp: keepTime_def Let_def)
  qed
next
  case False
  then have "2 ^ 63 \<le> 1000 * unat age" by simp
  then show ?thesis using False assms by (auto simp: keepTime_def)
qed

text \<open>
  Flushing removes exactly the cancelled orders that are old enough. For any clock below
  \<open>2 ^ 63\<close> microseconds and any requested age, however large, a live order or a terminal record
  leaves the store if and only if it is cancelled and its age exceeds the requested one, and what
  is returned are the removed live orders followed by the removed records, each group by id.
\<close>

theorem FlushCancelled_exact:
  assumes "store_ok s" and "unat now < 2 ^ 63" and "FlushCancelled now s age = (s', out)"
  defines "old \<equiv> \<lambda>status updated. statusString status = ''canceled'' \<and> unat updated + 1000 * unat age < unat now"
  shows "map_of (s_orders s') = keep_if (\<lambda>k ord. \<not> old (o_Status ord) (o_Updated ord)) (map_of (s_orders s))
    \<and> s_history s' = filter (\<lambda>e. \<not> old (he_Status e) (he_Updated e)) (s_history s)
    \<and> (\<exists>live hist. out = live @ hist \<and> sorted (map fo_ID live) \<and> sorted (map fo_ID hist)
        \<and> mset (map fo_ID live) = image_mset (o_ID \<circ> snd) (filter_mset (\<lambda>(k, ord). old (o_Status ord) (o_Updated ord)) (mset (s_orders s)))
        \<and> mset (map fo_ID hist) = image_mset historyOrderID (filter_mset (\<lambda>e. old (he_Status e) (he_Updated e)) (mset (s_history s))))"
proof -
  have f: "flushable (keepTime now age) = old"
    by (simp add: fun_eq_iff flushable_def old_def keepTime_age [OF assms(2)])
  note F = assms(3) [unfolded FlushCancelled_def Let_def f, simplified, THEN conjunct1, symmetric]
    assms(3) [unfolded FlushCancelled_def Let_def f, simplified, THEN conjunct2, symmetric]
  have 1: "map_of (s_orders s') = keep_if (\<lambda>k ord. \<not> old (o_Status ord) (o_Updated ord)) (map_of (s_orders s))"
    using store_ok_distinct(1) [OF assms(1)] by (simp add: F(1) map_of_filter)
  have 2: "s_history s' = filter (\<lambda>e. \<not> old (he_Status e) (he_Updated e)) (s_history s)" by (simp add: F(1))
  show ?thesis unfolding F(2)
    by (intro conjI 1 2 exI, rule refl, (rule sorted_sort_key)+)
      (simp_all add: multiset.map_comp comp_def case_prod_unfold)
qed

definition canceled_order :: Order where
  "canceled_order = zeroOrder\<lparr>o_Status := ''canceled''\<rparr>"

theorem FlushCancelled_exact_witness:
  "map_of (s_orders (fst (FlushCancelled 10000000 (Add NewStore canceled_order) 1))) (orderKey (replicate 32 0)) = None"
proof -
  let ?s = "Add NewStore canceled_order" and ?k = "orderKey (replicate 32 0)"
  have os: "s_orders ?s = [(?k, canceled_order)]" "s_history ?s = []" "s_reserved ?s = []"
    by (simp_all add: Add_def NewStore_def canceled_order_def zeroOrder_def)
  have ok: "store_ok ?s" by (simp add: store_ok_def os live_ok_def hist_ok_def) (simp add: canceled_order_def zeroOrder_def)
  obtain s' out where p: "FlushCancelled 10000000 ?s 1 = (s', out)" by (cases "FlushCancelled 10000000 ?s 1")
  have "statusString (o_Status canceled_order) = ''canceled''" "o_Updated canceled_order = 0"
    by (simp_all add: canceled_order_def statusString_def zeroOrder_def)
  with FlushCancelled_exact [OF ok _ p] show ?thesis by (simp add: p keep_if_def os)
qed

section \<open>The interface for the swap sessions\<close>

text \<open>
  A session reads and writes its order only through \<^verbatim>\<open>Get\<close> and \<^verbatim>\<open>Update\<close>. What it may rely on:
  an update is seen at its own key and at no other, and it never creates an order.
\<close>

locale order_access =
  fixes get :: "'s \<Rightarrow> string \<Rightarrow> Order option"
    and upd :: "'s \<Rightarrow> string \<Rightarrow> (Order \<Rightarrow> Order) \<Rightarrow> 's"
  assumes get_upd: "get (upd s k f) j = (if j = k then map_option f (get s k) else get s j)"
begin

lemma get_upd_same [simp]: "get (upd s k f) k = map_option f (get s k)"
  by (simp add: get_upd)

lemma get_upd_field:
  assumes "\<And>ord. P (f ord) = P ord"
  shows "map_option P (get (upd s k f) j) = map_option P (get s j)"
  using assms by (auto simp: get_upd option.map_comp comp_def cong: option.map_cong)

lemma get_upd_None [simp]: "get (upd s k f) j = None \<longleftrightarrow> get s j = None"
  by (simp add: get_upd)

lemma get_upd_Some: "get (upd s k f) k = Some ord' \<longleftrightarrow> (\<exists>ord. get s k = Some ord \<and> ord' = f ord)"
  by auto

end

definition Update_state :: "Store \<Rightarrow> string \<Rightarrow> (Order \<Rightarrow> Order) \<Rightarrow> Store" where
  "Update_state s k f = fst (Update s k f)"

lemma Store_Get_map: "Store_Get s k = map_of (s_orders s) k"
  by (simp add: Store_Get_def option.map_ident_strong)

interpretation book: order_access Store_Get Update_state
  by unfold_locales (auto simp: Update_state_def Store_Get_map Update_def AList.update_conv' split: option.splits)

end
