(* ===== verification/Durability.thy ===== *)
theory Durability
  imports Main
begin

text \<open>
  The two writers of the swap file, \<^verbatim>\<open>api/persist.go\<close> and \<^verbatim>\<open>api/engine.go\<close>. The engine goroutine
  queues a snapshot (\<^verbatim>\<open>persist\<close>) or writes one and waits for the disk (\<^verbatim>\<open>persistNow\<close>); a second
  goroutine (\<^verbatim>\<open>persistLoop\<close>) takes the queued snapshot, marshals it with no lock held and writes
  it. A critical section of the code, the part between a lock and its unlock, is one step here,
  and the steps of the two goroutines interleave freely. A snapshot is represented by the number
  of state changes the engine had made when it was taken.
\<close>

section \<open>State and critical sections\<close>

record pstate =
  p_dataDir :: bool
  p_persistUp :: bool
  p_version :: nat
  p_persistLatest :: "nat option"
  p_job :: "nat option"
  p_disk :: "nat option"
  p_engine :: "nat option"
  p_durable :: "nat option"
  p_failures :: nat

text \<open>
  \<open>p_dataDir\<close> tells that a data directory is configured, \<open>p_persistUp\<close> that \<^verbatim>\<open>persistLoop\<close> runs;
  \<open>p_job\<close> is the snapshot that the loop holds between taking and writing it, \<open>p_engine\<close> the one
  that the engine is about to write in \<^verbatim>\<open>persistNow\<close>, \<open>p_durable\<close> the last one that
  \<^verbatim>\<open>persistNow\<close> reported as written; the last field is not part of the program's state.
\<close>

definition pinit :: "bool \<Rightarrow> bool \<Rightarrow> pstate" where
  "pinit dir up = \<lparr>p_dataDir = dir, p_persistUp = up, p_version = 0, p_persistLatest = None, p_job = None, p_disk = None, p_engine = None, p_durable = None,
     p_failures = 0\<rparr>"

definition publishLatest :: "nat \<Rightarrow> pstate \<Rightarrow> pstate" where
  "publishLatest job s = s\<lparr>p_persistLatest := Some job\<rparr>"

text \<open>\<open>errs\<close> are the outcomes of the attempts to write; three are made before giving up.\<close>

fun writeSwapsWithRetry :: "nat \<Rightarrow> bool list \<Rightarrow> bool" where
  "writeSwapsWithRetry 0 errs = False"
| "writeSwapsWithRetry (Suc k) [] = True"
| "writeSwapsWithRetry (Suc k) (err # errs) = (if err then writeSwapsWithRetry k errs else True)"

definition persistWriteMaxAttempts :: nat where
  "persistWriteMaxAttempts = 3"

definition persistFailed :: "pstate \<Rightarrow> pstate" where
  "persistFailed s = s\<lparr>p_failures := p_failures s + 1\<rparr>"

text \<open>
  \<open>mErr\<close> tells that marshalling fails. With no loop running \<^verbatim>\<open>persist\<close> writes the file itself, in a
  single attempt.
\<close>

definition persist :: "bool \<Rightarrow> bool \<Rightarrow> pstate \<Rightarrow> pstate" where
  "persist mErr wErr s =
     (if \<not> p_dataDir s then s
      else if \<not> p_persistUp s then
        (if mErr then persistFailed s
         else if wErr then persistFailed s
         else s\<lparr>p_disk := Some (p_version s)\<rparr>)
      else publishLatest (p_version s) s)"

definition writeLatest_take :: "pstate \<Rightarrow> pstate" where
  "writeLatest_take s = s\<lparr>p_job := p_persistLatest s, p_persistLatest := None\<rparr>"

definition writeLatest_write :: "bool \<Rightarrow> bool list \<Rightarrow> pstate \<Rightarrow> pstate" where
  "writeLatest_write mErr errs s = (case p_job s of
       None \<Rightarrow> s
     | Some job \<Rightarrow>
         if mErr then persistFailed (s\<lparr>p_job := None\<rparr>)
         else if writeSwapsWithRetry persistWriteMaxAttempts errs then s\<lparr>p_disk := Some job, p_job := None\<rparr>
         else persistFailed (s\<lparr>p_job := None\<rparr>))"

definition persistNow_clear :: "pstate \<Rightarrow> pstate" where
  "persistNow_clear s = (if \<not> p_dataDir s then s else s\<lparr>p_persistLatest := None, p_engine := Some (p_version s)\<rparr>)"

definition persistNow_write :: "bool \<Rightarrow> bool list \<Rightarrow> pstate \<Rightarrow> pstate" where
  "persistNow_write mErr errs s = (case p_engine s of
       None \<Rightarrow> s
     | Some v \<Rightarrow>
         if mErr then persistFailed (s\<lparr>p_engine := None\<rparr>)
         else if writeSwapsWithRetry persistWriteMaxAttempts errs
           then s\<lparr>p_disk := Some v, p_engine := None, p_durable := Some v\<rparr>
         else persistFailed (s\<lparr>p_engine := None\<rparr>))"

section \<open>Interleavings\<close>

text \<open>
  The engine goes on only outside \<^verbatim>\<open>persistNow\<close>. The flag is true for the runs in which the loop
  never sits between taking and writing a snapshot while \<^verbatim>\<open>persistNow\<close> writes its own.
\<close>

inductive preach :: "bool \<Rightarrow> pstate \<Rightarrow> bool" for quiet :: bool where
  p_start: "preach quiet (pinit dir up)"
| p_change: "preach quiet s \<Longrightarrow> p_engine s = None \<Longrightarrow> preach quiet (s\<lparr>p_version := Suc (p_version s)\<rparr>)"
| p_persist: "preach quiet s \<Longrightarrow> p_engine s = None \<Longrightarrow> preach quiet (persist mErr wErr s)"
| p_take: "preach quiet s \<Longrightarrow> p_persistUp s \<Longrightarrow> p_job s = None \<Longrightarrow> preach quiet (writeLatest_take s)"
| p_write: "preach quiet s \<Longrightarrow> p_job s \<noteq> None \<Longrightarrow> preach quiet (writeLatest_write mErr errs s)"
| p_now_clear: "preach quiet s \<Longrightarrow> p_engine s = None \<Longrightarrow> preach quiet (persistNow_clear s)"
| p_now_write: "preach quiet s \<Longrightarrow> p_engine s \<noteq> None \<Longrightarrow> (quiet \<Longrightarrow> p_job s = None) \<Longrightarrow>
    preach quiet (persistNow_write mErr errs s)"

lemmas p_defs = persistFailed_def persistWriteMaxAttempts_def publishLatest_def persist_def writeLatest_take_def writeLatest_write_def persistNow_clear_def persistNow_write_def

definition p_inv :: "pstate \<Rightarrow> bool" where
  "p_inv s \<longleftrightarrow> (p_persistLatest s \<noteq> None \<or> p_job s \<noteq> None \<longrightarrow> p_persistUp s)
     \<and> (\<forall>x. p_persistLatest s = Some x \<longrightarrow> x \<le> p_version s) \<and> (\<forall>x. p_job s = Some x \<longrightarrow> x \<le> p_version s)
     \<and> (\<forall>x. p_engine s = Some x \<longrightarrow> x = p_version s \<and> p_persistLatest s = None)
     \<and> (\<forall>v. p_durable s = Some v \<longrightarrow> v \<le> p_version s \<and> (\<exists>d. p_disk s = Some d \<and> v \<le> d)
          \<and> (\<forall>x. p_persistLatest s = Some x \<or> p_job s = Some x \<longrightarrow> v \<le> x))"

lemma p_inv_reach: "preach True s \<Longrightarrow> p_inv s"
proof (induction rule: preach.induct)
  case (p_write s mErr errs)
  then show ?case by (auto simp: p_inv_def p_defs split: option.splits)
next
  case (p_now_write s mErr errs)
  then show ?case by (auto simp: p_inv_def p_defs split: option.splits)
qed (auto simp: p_inv_def pinit_def p_defs)

section \<open>Properties\<close>

text \<open>
  C16: what \<^verbatim>\<open>persistNow\<close> reported as written stays on disk. In every run in which the loop is not
  between taking and writing a snapshot while \<^verbatim>\<open>persistNow\<close> writes, the file holds the reported
  snapshot or a newer one from then on, whatever is queued, written or fails later.
\<close>

theorem persistNow_durable:
  assumes "preach True s" and "p_durable s = Some v"
  shows "\<exists>d. p_disk s = Some d \<and> v \<le> d"
  using p_inv_reach [OF assms(1)] assms(2) by (simp add: p_inv_def)

theorem persistNow_durable_witness:
  "\<exists>d. p_disk (persistNow_write False [True, False] (persistNow_clear ((pinit True True)\<lparr>p_version := 1\<rparr>))) = Some d \<and> 1 \<le> d"
proof (rule persistNow_durable)
  have "preach True ((pinit True True)\<lparr>p_version := Suc (p_version (pinit True True))\<rparr>)" by (rule p_change [OF p_start]) (simp add: pinit_def)
  then have "preach True ((pinit True True)\<lparr>p_version := 1\<rparr>)" by (simp add: pinit_def)
  then show "preach True (persistNow_write False [True, False] (persistNow_clear ((pinit True True)\<lparr>p_version := 1\<rparr>)))"
    by (intro p_now_write p_now_clear) (simp_all add: pinit_def persistNow_clear_def)
qed (simp add: pinit_def p_defs eval_nat_numeral)

text \<open>
  C36: without that restriction a durable snapshot can be overwritten by an older one. There is a
  run in which \<^verbatim>\<open>persistNow\<close> reports version 1 as written, so that the caller goes on to broadcast,
  and the loop then writes version 0, which it had taken before, over it.
\<close>

theorem persistNow_clobbered:
  "\<exists>s. preach False s \<and> p_durable s = Some 1 \<and> p_disk s = Some 0 \<and> p_persistLatest s = None \<and> p_job s = None"
proof -
  let ?s1 = "writeLatest_take (persist False False (pinit True True))"
  let ?s2 = "?s1\<lparr>p_version := Suc (p_version ?s1)\<rparr>"
  let ?s3 = "writeLatest_write False [] (persistNow_write False [] (persistNow_clear ?s2))"
  have "preach False ?s1" by (intro p_take p_persist p_start) (simp_all add: pinit_def p_defs)
  then have "preach False ?s2" by (rule p_change) (simp add: pinit_def p_defs)
  then have "preach False ?s3"
    by (intro p_write p_now_write p_now_clear) (simp_all add: pinit_def p_defs eval_nat_numeral)
  moreover have "p_durable ?s3 = Some 1 \<and> p_disk ?s3 = Some 0 \<and> p_persistLatest ?s3 = None \<and> p_job ?s3 = None"
    by (simp add: pinit_def p_defs eval_nat_numeral)
  ultimately show ?thesis by blast
qed

end
