(* ===== verification/SwapTx.thy ===== *)
theory SwapTx
  imports ApiResponse Address
begin

text \<open>
  The workers of a swap, \<^verbatim>\<open>api/swap.go\<close>, \<^verbatim>\<open>api/swap_retry.go\<close> and \<^verbatim>\<open>api/locktime.go\<close>: lock times and
  their drift check, the deposit with its pre-signed refund, the claim, and the recovery of the
  secret from the counterparty's claim. A worker reads an immutable snapshot (\<^verbatim>\<open>swapCtx\<close>) and the
  wallets; a wallet is a record of the calls the workers make, its answers are parameters.
  RIPEMD-160, the curve library and the clock are arguments, logging is left out.
\<close>

section \<open>Errors of a worker\<close>

text \<open>
  An error as the callers distinguish it with \<^verbatim>\<open>errors.Is\<close> and \<^verbatim>\<open>errors.As\<close>: not ready (with the
  verdict of \<^verbatim>\<open>NotReadySeen\<close>), a wallet error with its code, a failure that must become a self
  cancel, anything else, or a panic.
\<close>

datatype task_err = TErr string | TRpc int | TNotReady bool | TSelfCancel TxCancelReason | TPanic string

type_synonym 'a task = "task_err + 'a"

definition t_bind :: "'a task \<Rightarrow> ('a \<Rightarrow> 'b task) \<Rightarrow> 'b task" where
  "t_bind m k = (case m of Inl e \<Rightarrow> Inl e | Inr v \<Rightarrow> k v)"

definition of_go :: "'a go \<Rightarrow> 'a task" where
  "of_go m = (case m of Inr v \<Rightarrow> Inr v | Inl (GoErr s) \<Rightarrow> Inl (TErr s) | Inl (GoPanic s) \<Rightarrow> Inl (TPanic s))"

definition isNotReady :: "task_err \<Rightarrow> bool" where
  "isNotReady e = (case e of TNotReady _ \<Rightarrow> True | _ \<Rightarrow> False)"

definition NotReadySeen :: "task_err \<Rightarrow> bool" where
  "NotReadySeen e = (case e of TNotReady seen \<Rightarrow> seen | _ \<Rightarrow> True)"

section \<open>The wallet contract\<close>

record PrevTx =
  pt_TxID :: string
  pt_Vout :: u32
  pt_ScriptPubKey :: string
  pt_Amount :: u64

record DepositCheck =
  dc_IsGood :: bool
  dc_P2SHAmount :: u64
  dc_P2SHNative :: u64
  dc_DepositVout :: u32
  dc_Excess :: u64

record VerboseTxOut =
  vo_Value :: u64
  vo_ScriptHex :: string

record VerboseTx =
  vt_TxID :: string
  vt_Confirmations :: int
  vt_HasConfirmations :: bool
  vt_Outputs :: "u32 \<rightharpoonup> VerboseTxOut"

record BlockTx =
  bt_TxID :: string
  bt_Vin :: "(string \<times> u32) list"

record Connector =
  cn_GetNewAddress :: "string task"
  cn_GetBlockCount :: "int task"
  cn_SignRawTransaction :: "string \<Rightarrow> PrevTx list \<Rightarrow> (string \<times> bool) task"
  cn_SendRawTransaction :: "string \<Rightarrow> string task"
  cn_GetRawTransaction :: "string \<Rightarrow> string task"
  cn_GetRawTransactionVerbose :: "string \<Rightarrow> VerboseTx task"
  cn_GetTxOut :: "string \<Rightarrow> u32 \<Rightarrow> (Utxo \<times> bool) task"
  cn_CheckDepositTransaction :: "string \<Rightarrow> string \<Rightarrow> u64 \<Rightarrow> int \<Rightarrow> DepositCheck task"
  cn_GetRawMempool :: "string list task"
  cn_GetBlockHash :: "int \<Rightarrow> bytes task"
  cn_GetBlockTxs :: "bytes \<Rightarrow> BlockTx list task"

section \<open>The snapshot of a session\<close>

record swapCtx =
  sc_isMaker :: bool
  sc_srcCur :: string
  sc_dstCur :: string
  sc_srcAmt :: u64
  sc_dstAmt :: u64
  sc_ourSourceAddr :: string
  sc_ourDestAddr :: string
  sc_theirPub :: bytes
  sc_privKey :: bytes
  sc_pubKey :: bytes
  sc_secret :: bytes
  sc_secretHash :: bytes
  sc_theirDepositTxID :: string
  sc_theirLockTime :: u32
  sc_theirSecretHash :: bytes
  sc_theirDepositVout :: u32
  sc_theirP2SHNative :: u64
  sc_theirOverpayment :: u64
  sc_ourDepositTxID :: string
  sc_ourLockTime :: u32
  sc_refundHex :: string
  sc_connectors :: "string \<rightharpoonup> Connector"
  sc_confs :: "string \<rightharpoonup> CoinConf"
  sc_coinsMap :: "string \<rightharpoonup> Coin"
  sc_ourDepositP2SH :: u64
  sc_funding :: "Utxo list"

definition ctx_connector :: "swapCtx \<Rightarrow> string \<Rightarrow> Connector task" where
  "ctx_connector c t = (case sc_connectors c t of
     None \<Rightarrow> Inl (TErr (''dx: no wallet configured for '' @ t)) | Some conn \<Rightarrow> Inr conn)"

definition txVersion :: "swapCtx \<Rightarrow> string \<Rightarrow> int" where
  "txVersion c cur = (case sc_confs c cur of None \<Rightarrow> 1
     | Some cc \<Rightarrow> if cc_TxVersion cc \<le> 0 then 1 else cc_TxVersion cc)"

definition minConf :: "CoinConf option \<Rightarrow> int" where
  "minConf cc = (case cc of None \<Rightarrow> 0 | Some cc \<Rightarrow> cc_Confirmations cc)"

definition effectiveDust :: "CoinConf option \<Rightarrow> u64" where
  "effectiveDust cc = (case cc of None \<Rightarrow> 0 | Some cc \<Rightarrow> cc_DustAmount cc)"

definition depositDustLimit :: "CoinConf option \<Rightarrow> u64" where
  "depositDustLimit cc = effectiveDust cc"

definition ownDepositVout :: u32 where "ownDepositVout = 0"

section \<open>Amounts, fees and transaction ids\<close>

definition estimateFee :: "CoinConf option \<Rightarrow> nat \<Rightarrow> nat \<Rightarrow> u64" where
  "estimateFee cc nIn nOut = (let vsize = 192 * nIn + 34 * nOut;
     fee = (case cc of None \<Rightarrow> of_nat (vsize * 2)
       | Some c \<Rightarrow> if cc_FeePerByte c = 0 then of_nat (vsize * 2) else cc_FeePerByte c * of_nat vsize)
     in case cc of None \<Rightarrow> fee
       | Some c \<Rightarrow> if cc_MinTxFee c > 0 \<and> fee < cc_MinTxFee c then cc_MinTxFee c else fee)"

text \<open>The power of ten wraps at 64 bits, and a wrapped zero is replaced by one.\<close>

definition coinNativeScale :: "Coin \<Rightarrow> u64" where
  "coinNativeScale c = 10 ^ c_Decimals c"

definition toXBridgeAmt :: "Coin \<Rightarrow> u64 \<Rightarrow> u64" where
  "toXBridgeAmt c native = (let nc = coinNativeScale c; nc = (if nc = 0 then 1 else nc)
     in native * of_nat coinScale div nc)"

definition fromXBridgeAmt :: "Coin \<Rightarrow> u64 \<Rightarrow> u64" where
  "fromXBridgeAmt c xb = (let nc = coinNativeScale c; nc = (if nc = 0 then 1 else nc)
     in xb * nc div of_nat coinScale)"

definition reverseTxidHex :: "string \<Rightarrow> bytes go" where
  "reverseTxidHex s = (case hex_DecodeString s of
       None \<Rightarrow> Inl (GoErr (''bad txid '' @ s))
     | Some b \<Rightarrow> if length b \<noteq> 32 then Inl (GoErr (''bad txid '' @ s))
         else Inr (map (\<lambda>i. b ! (31 - i)) [0..<32]))"

definition txIDFromBytes :: "bytes \<Rightarrow> string" where
  "txIDFromBytes raw = (let h1 = sha256 raw; h2 = sha256 h1
     in hex_EncodeToString (map (\<lambda>i. h2 ! (31 - i)) [0..<32]))"

definition txIDFromHex :: "string \<Rightarrow> string task" where
  "txIDFromHex rawHex = (case hex_DecodeString rawHex of None \<Rightarrow> Inl (TErr ''encoding/hex'')
     | Some raw \<Rightarrow> Inr (txIDFromBytes raw))"

definition decodePub33 :: "string \<Rightarrow> bytes" where
  "decodePub33 s = (if s = [] then replicate 33 0 else case hex_DecodeString s of
       None \<Rightarrow> replicate 33 0
     | Some b \<Rightarrow> if length b \<noteq> 33 then replicate 33 0 else b)"

text \<open>Copying a decoded hash into a 20-byte array cuts or pads it with zeros.\<close>

definition copy20 :: "bytes \<Rightarrow> bytes" where
  "copy20 h = take 20 (h @ replicate 20 0)"

definition destScript :: "swapCtx \<Rightarrow> string \<Rightarrow> string \<Rightarrow> bytes task" where
  "destScript c cur addrStr = (case sc_coinsMap c cur of None \<Rightarrow> Inl (TErr (''api: unknown coin '' @ cur))
     | Some coin \<Rightarrow> t_bind (of_go (DecodeAddress coin addrStr)) (\<lambda>a. Inr (BuildP2PKHScript (copy20 (a_Hash a)))))"

section \<open>Lock times\<close>

definition lockTimeThreshold :: int where "lockTimeThreshold = 500000000"

definition acceptableLockTimeDrift :: "u32 \<Rightarrow> u32 \<Rightarrow> u32 \<Rightarrow> bool" where
  "acceptableLockTimeDrift ourLT theirLT blockTime = (
     if ourLT = 0 \<or> uint ourLT \<ge> lockTimeThreshold \<or> uint theirLT \<ge> lockTimeThreshold then False
     else let diff = int64 (uint ourLT - uint theirLT);
              drift = XLocktimeDriftSeconds;
              mb = int64 (XMaxLockTimeDriftBlocks * uint blockTime);
              drift = (if mb > drift then mb else drift)
          in int64 (diff * uint blockTime) \<le> drift)"

definition blockTimeFor :: "swapCtx \<Rightarrow> string \<Rightarrow> u32" where
  "blockTimeFor c cur = (case sc_confs c cur of None \<Rightarrow> 60
     | Some cc \<Rightarrow> if cc_BlockTime cc > 0 then word_of_int (cc_BlockTime cc) else 60)"

definition computeLockTimeFor :: "swapCtx \<Rightarrow> string \<Rightarrow> bool \<Rightarrow> u32" where
  "computeLockTimeFor c cur isMaker = (case sc_connectors c cur of None \<Rightarrow> 0
     | Some conn \<Rightarrow> (case cn_GetBlockCount conn of Inl _ \<Rightarrow> 0
     | Inr n \<Rightarrow> if n < 1 then 0
         else let bt = (case sc_confs c cur of None \<Rightarrow> 60
                | Some cc \<Rightarrow> if cc_BlockTime cc > 0 then cc_BlockTime cc else 60);
              target = (if isMaker then XMakerLocktimeTargetSeconds
                else if bt \<ge> XSlowBlockTimeSeconds then XSlowTakerLocktimeTargetSeconds
                else XTakerLocktimeTargetSeconds);
              blocks = target div bt;
              blocks = (if blocks < XMinLockTimeBlocks then XMinLockTimeBlocks else blocks)
         in word_of_int n + word_of_int blocks))"

definition computeLockTime :: "swapCtx \<Rightarrow> bool \<Rightarrow> u32" where
  "computeLockTime c isMaker = computeLockTimeFor c (sc_srcCur c) isMaker"

section \<open>The deposit and its refund\<close>

record depositOutcome =
  do_txid :: string
  do_lockTime :: u32
  do_refundHex :: string
  do_depositHex :: string
  do_conn :: Connector

definition stamp_time :: "swapCtx \<Rightarrow> string \<Rightarrow> int \<Rightarrow> Tx \<Rightarrow> Tx" where
  "stamp_time c cur now tx = (case sc_confs c cur of None \<Rightarrow> tx
     | Some cc \<Rightarrow> if cc_TxWithTimeField cc then tx\<lparr>tx_WithTime := True, tx_TxTime := word_of_int now\<rparr> else tx)"

definition single_tx :: "int \<Rightarrow> u32 \<Rightarrow> bytes \<Rightarrow> u32 \<Rightarrow> u32 \<Rightarrow> u64 \<Rightarrow> bytes \<Rightarrow> Tx" where
  "single_tx ver lockTime h idx seq v dest = \<lparr>tx_Version = word_of_int ver, tx_LockTime = lockTime,
     tx_Inputs = [\<lparr>ti_PrevOut = \<lparr>op_Hash = h, op_Index = idx\<rparr>, ti_ScriptSig = [], ti_Sequence = seq,
       ti_Witness = [], ti_Amount = 0\<rparr>],
     tx_Outputs = [\<lparr>to_Value = v, to_ScriptPubKey = dest\<rparr>], tx_SegWit = False, tx_WithTime = False, tx_TxTime = 0\<rparr>"

definition set_scriptSig :: "bytes \<Rightarrow> Tx \<Rightarrow> Tx" where
  "set_scriptSig ss tx = tx\<lparr>tx_Inputs := map (\<lambda>i. i\<lparr>ti_ScriptSig := ss\<rparr>) (tx_Inputs tx)\<rparr>"

definition buildRefundTx :: "(bytes \<Rightarrow> bytes) \<Rightarrow> ('s, 'k) der_lib \<Rightarrow> int \<Rightarrow> swapCtx \<Rightarrow> DepositSpec \<Rightarrow> string \<Rightarrow> string task" where
  "buildRefundTx rip L now c spec cur = (case sc_coinsMap c cur of
       None \<Rightarrow> Inl (TErr (''api: unknown coin '' @ cur))
     | Some coin \<Rightarrow> t_bind (destScript c cur (sc_ourSourceAddr c)) (\<lambda>dest.
         let depositP2SH = sc_ourDepositP2SH c in
         if depositP2SH = 0 then Inl (TErr (''api: no recorded deposit P2SH value for '' @ cur))
         else t_bind (of_go (reverseTxidHex (sc_ourDepositTxID c))) (\<lambda>h.
           let tx = single_tx (txVersion c cur) (ds_LockTime spec) h 0 0xfffffffe (ds_Amount spec) dest;
               tx = stamp_time c cur now tx
           in t_bind (of_go (RedeemScript rip spec)) (\<lambda>inner.
              t_bind (of_go (SignTxInputForCoin L tx 0 inner depositP2SH (sc_privKey c) coin)) (\<lambda>sig.
                let tx = set_scriptSig (BuildRefundScriptSig sig (ds_DepositorPub spec) inner) tx
                in Inr (hex_EncodeToString (Tx_Serialize tx)))))))"

definition largest_utxo :: "Utxo list \<Rightarrow> Utxo" where
  "largest_utxo us = foldl (\<lambda>largest u. if ut_Amount u > ut_Amount largest then u else largest) (hd us) (tl us)"

definition change_hash :: "Connector \<Rightarrow> Coin \<Rightarrow> Utxo \<Rightarrow> bytes task" where
  "change_hash conn coin largest = (case DecodeAddress coin (ut_Address largest) of
       Inr a \<Rightarrow> Inr (copy20 (a_Hash a))
     | Inl (GoPanic p) \<Rightarrow> Inl (TPanic p)
     | Inl (GoErr _) \<Rightarrow> t_bind (cn_GetNewAddress conn) (\<lambda>changeStr.
         t_bind (of_go (DecodeAddress coin changeStr)) (\<lambda>a. Inr (copy20 (a_Hash a)))))"

definition deposit_spec :: "swapCtx \<Rightarrow> Coin \<Rightarrow> bool \<Rightarrow> u32 \<Rightarrow> DepositSpec" where
  "deposit_spec c coin isMaker lockTime = (let cur = sc_srcCur c;
       h = (if isMaker then sc_secretHash c else sc_theirSecretHash c)
     in \<lparr>ds_Currency = cur, ds_Amount = fromXBridgeAmt coin (sc_srcAmt c), ds_DepositorPub = sc_pubKey c,
         ds_CounterpartyPub = sc_theirPub c, ds_Secret = replicate 33 0, ds_Hash = h, ds_LockTime = lockTime,
         ds_TxVersion = txVersion c cur\<rparr>)"

definition buildDeposit :: "(bytes \<Rightarrow> bytes) \<Rightarrow> ('s, 'k) der_lib \<Rightarrow> int \<Rightarrow> swapCtx \<Rightarrow> bool \<Rightarrow> depositOutcome task" where
  "buildDeposit rip L now c isMaker = (let cur = sc_srcCur c in
     case sc_connectors c cur of None \<Rightarrow> Inl (TErr (''api: no connector for '' @ cur))
   | Some conn \<Rightarrow> (case sc_confs c cur of None \<Rightarrow> Inl (TErr (''api: no conf for '' @ cur))
   | Some cc \<Rightarrow> (case sc_coinsMap c cur of None \<Rightarrow> Inl (TErr (''api: unknown coin '' @ cur))
   | Some coin \<Rightarrow>
     let funding = sc_funding c in
     if length funding = 0 then Inl (TErr (''api: no funding UTXOs for '' @ cur))
     else let lockTime = computeLockTime c isMaker in
     if lockTime = 0 then Inl (TErr (''api: locktime unavailable for '' @ cur))
     else t_bind (change_hash conn coin (largest_utxo funding)) (\<lambda>change.
       let fee = estimateFee (Some cc) (length funding) 3;
           fee2 = estimateFee (Some cc) 1 1;
           spec = deposit_spec c coin isMaker lockTime
       in t_bind (of_go (BuildDepositTx rip now spec coin funding change fee fee2 (depositDustLimit (Some cc)))) (\<lambda>tx.
          if length (tx_Outputs tx) = 0 then Inl (TErr (''api: deposit tx has no outputs for '' @ cur))
          else let c = c\<lparr>sc_ourDepositP2SH := to_Value (tx_Outputs tx ! 0)\<rparr>;
                   prevTxs = map (\<lambda>u. \<lparr>pt_TxID = ut_TxID u, pt_Vout = ut_Vout u, pt_ScriptPubKey = ut_ScriptPubKey u,
                     pt_Amount = ut_Amount u\<rparr>) funding;
                   unsigned_hex = hex_EncodeToString (Tx_Serialize tx)
          in t_bind (cn_SignRawTransaction conn unsigned_hex prevTxs) (\<lambda>(signed, complete).
             if \<not> complete then Inl (TErr (''api: deposit signing incomplete for '' @ cur))
             else t_bind (txIDFromHex signed) (\<lambda>localTxID.
               let c = c\<lparr>sc_ourDepositTxID := localTxID, sc_ourLockTime := lockTime\<rparr>
               in t_bind (buildRefundTx rip L now c spec cur) (\<lambda>refundHex.
                 Inr \<lparr>do_txid = localTxID, do_lockTime = lockTime, do_refundHex = refundHex,
                      do_depositHex = signed, do_conn = conn\<rparr>))))))))"

section \<open>The claim\<close>

definition confirmDepositKnownByRawTx :: "Connector \<Rightarrow> string \<Rightarrow> u32 \<Rightarrow> string \<Rightarrow> u64 \<Rightarrow> int \<Rightarrow> bool" where
  "confirmDepositKnownByRawTx conn txid vout scriptHex v minc = (case cn_GetRawTransactionVerbose conn txid of
       Inl _ \<Rightarrow> False
     | Inr vtx \<Rightarrow>
         if minc > 0 \<and> \<not> vt_HasConfirmations vtx then False
         else if minc > 0 \<and> vt_Confirmations vtx < minc then False
         else if \<not> minc > 0 \<and> vt_HasConfirmations vtx \<and> vt_Confirmations vtx < 0 then False
         else case vt_Outputs vtx vout of None \<Rightarrow> False
           | Some out \<Rightarrow> vo_Value out = v \<and> vo_ScriptHex out = scriptHex)"

definition their_spec :: "swapCtx \<Rightarrow> Coin \<Rightarrow> DepositSpec" where
  "their_spec c coin = \<lparr>ds_Currency = sc_dstCur c, ds_Amount = fromXBridgeAmt coin (sc_dstAmt c),
     ds_DepositorPub = sc_theirPub c, ds_CounterpartyPub = sc_pubKey c, ds_Secret = replicate 33 0,
     ds_Hash = (if sc_isMaker c then sc_secretHash c else sc_theirSecretHash c),
     ds_LockTime = sc_theirLockTime c, ds_TxVersion = 0\<rparr>"

text \<open>The check that the deposit is still unspent; without a connector it is skipped.\<close>

definition unspent_check :: "(bytes \<Rightarrow> bytes) \<Rightarrow> swapCtx \<Rightarrow> DepositSpec \<Rightarrow> unit task" where
  "unspent_check rip c spec = (case sc_connectors c (sc_dstCur c) of None \<Rightarrow> Inr ()
     | Some conn \<Rightarrow> (case cn_GetTxOut conn (sc_theirDepositTxID c) (sc_theirDepositVout c) of
         Inl gerr \<Rightarrow> t_bind (if gerr = TRpc (- 5)
             then t_bind (of_go (P2SHScript rip spec)) (\<lambda>script.
               Inr (confirmDepositKnownByRawTx conn (sc_theirDepositTxID c) (sc_theirDepositVout c)
                 (hex_EncodeToString script) (sc_theirP2SHNative c) (minConf (sc_confs c (sc_dstCur c)))))
             else Inr False) (\<lambda>degraded. if \<not> degraded then Inl (TNotReady True) else Inr ())
       | Inr (_, unspent) \<Rightarrow> if \<not> unspent then Inl (TErr ''api: counterparty deposit not unspent, awaiting redelivery'')
           else Inr ()))"

definition redeemCounterparty :: "(bytes \<Rightarrow> bytes) \<Rightarrow> ('s, 'k) der_lib \<Rightarrow> int \<Rightarrow> swapCtx \<Rightarrow> (string \<times> string) task" where
  "redeemCounterparty rip L now c = (let depositCur = sc_dstCur c in case sc_coinsMap c depositCur of
       None \<Rightarrow> Inl (TErr (''api: unknown coin '' @ depositCur))
     | Some depositCoin \<Rightarrow>
       let theirSpec = their_spec c depositCoin in
       t_bind (destScript c depositCur (sc_ourDestAddr c)) (\<lambda>dest.
       let fee = estimateFee (sc_confs c depositCur) 1 1;
           p2shNative = sc_theirP2SHNative c in
       if p2shNative = 0 then Inl (TErr ''api: counterparty deposit not validated (no p2sh amount)'')
       else if fee \<ge> p2shNative then Inl (TErr ''api: counterparty deposit amount too small for claim fee'')
       else t_bind (unspent_check rip c theirSpec) (\<lambda>_.
       t_bind (of_go (reverseTxidHex (sc_theirDepositTxID c))) (\<lambda>h.
       let payout = (if p2shNative > ds_Amount theirSpec + fee then p2shNative - fee else ds_Amount theirSpec);
           tx = single_tx (txVersion c depositCur) 0 h (sc_theirDepositVout c) 0xffffffff payout dest;
           tx = stamp_time c depositCur now tx
       in t_bind (of_go (RedeemScript rip theirSpec)) (\<lambda>inner.
          t_bind (of_go (SignTxInputForCoin L tx 0 inner p2shNative (sc_privKey c) depositCoin)) (\<lambda>sig.
            let tx = set_scriptSig (BuildPaymentScriptSig (sc_secret c) sig (sc_pubKey c) inner) tx
            in Inr (hex_EncodeToString (Tx_Serialize tx), depositCur)))))))"

section \<open>The secret\<close>

text \<open>The scan over the pushes of an input script; a byte that is no push is skipped.\<close>

function secretFromScriptSig :: "(bytes \<Rightarrow> bytes) \<Rightarrow> bytes \<Rightarrow> bytes \<Rightarrow> bytes option" where
  "secretFromScriptSig rip [] hx = None"
| "secretFromScriptSig rip (op # r) hx = (
     if unat op > 0x4d then secretFromScriptSig rip r hx
     else if unat op = 0x4c \<and> r = [] then None
     else if unat op = 0x4d \<and> length r < 2 then None
     else let n = (if unat op \<le> 0x4b then unat op else if unat op = 0x4c then unat (r ! 0)
                else unat (r ! 0) + 256 * unat (r ! 1));
              r' = (if unat op \<le> 0x4b then r else if unat op = 0x4c then drop 1 r else drop 2 r)
          in if n > length r' then None
             else if n = 33 \<and> KeyID rip (take n r') = hx then Some (take n r')
             else secretFromScriptSig rip (drop n r') hx)"
  by pat_completeness auto
termination
  by (relation "measure (\<lambda>(_, s, _). length s)") auto

fun secret_in_inputs :: "(bytes \<Rightarrow> bytes) \<Rightarrow> bytes \<Rightarrow> bytes \<Rightarrow> u32 \<Rightarrow> TxIn list \<Rightarrow> bytes option" where
  "secret_in_inputs rip hx depHash depVout [] = None"
| "secret_in_inputs rip hx depHash depVout (i # is) = (
     if op_Hash (ti_PrevOut i) \<noteq> depHash \<or> op_Index (ti_PrevOut i) \<noteq> depVout
     then secret_in_inputs rip hx depHash depVout is
     else case secretFromScriptSig rip (ti_ScriptSig i) hx of
         Some secret \<Rightarrow> Some secret
       | None \<Rightarrow> secret_in_inputs rip hx depHash depVout is)"

definition secretFromPayTx :: "(bytes \<Rightarrow> bytes) \<Rightarrow> string \<Rightarrow> bytes \<Rightarrow> bool \<Rightarrow> string \<Rightarrow> u32 \<Rightarrow> bytes option task" where
  "secretFromPayTx rip payHex hx hasTime depTxID depVout = (case hex_DecodeString payHex of
       None \<Rightarrow> Inr None
     | Some raw \<Rightarrow> (case DeserializeWithTime raw hasTime of
         Inl (GoPanic p) \<Rightarrow> Inl (TPanic p)
       | Inl (GoErr _) \<Rightarrow> Inr None
       | Inr tx \<Rightarrow> if length (tx_Inputs tx) = 0 then Inr None
           else (case reverseTxidHex depTxID of Inl _ \<Rightarrow> Inr None
             | Inr depHash \<Rightarrow> Inr (secret_in_inputs rip hx depHash depVout (tx_Inputs tx)))))"

section \<open>The tasks\<close>

record confirmOutcome =
  co_secret :: bytes
  co_payTxID :: string
  co_payHex :: string
  co_cur :: string
  co_check :: DepositCheck
  co_conn :: Connector

record createdBOutcome =
  cb_out :: depositOutcome
  cb_check :: DepositCheck

definition no_check :: DepositCheck where
  "no_check = \<lparr>dc_IsGood = False, dc_P2SHAmount = 0, dc_P2SHNative = 0, dc_DepositVout = 0, dc_Excess = 0\<rparr>"

definition counterpartyDepositScriptHex :: "(bytes \<Rightarrow> bytes) \<Rightarrow> swapCtx \<Rightarrow> bytes \<Rightarrow> string task" where
  "counterpartyDepositScriptHex rip c h = (let spec = \<lparr>ds_Currency = sc_dstCur c, ds_Amount = 0,
       ds_DepositorPub = sc_theirPub c, ds_CounterpartyPub = sc_pubKey c, ds_Secret = replicate 33 0,
       ds_Hash = h, ds_LockTime = sc_theirLockTime c, ds_TxVersion = 0\<rparr>
     in t_bind (of_go (P2SHScript rip spec)) (\<lambda>s. Inr (hex_EncodeToString s)))"

definition checkCounterpartyDeposit :: "(bytes \<Rightarrow> bytes) \<Rightarrow> swapCtx \<Rightarrow> bytes \<Rightarrow> u64 \<Rightarrow> DepositCheck task" where
  "checkCounterpartyDeposit rip c h expectedAmount = (case sc_connectors c (sc_dstCur c) of
       None \<Rightarrow> Inl (TErr (''api: no connector for '' @ sc_dstCur c))
     | Some conn \<Rightarrow> t_bind (counterpartyDepositScriptHex rip c h) (\<lambda>script.
         cn_CheckDepositTransaction conn (sc_theirDepositTxID c) script expectedAmount
           (minConf (sc_confs c (sc_dstCur c)))))"

definition makerDepositBuildTask :: "(bytes \<Rightarrow> bytes) \<Rightarrow> ('s, 'k) der_lib \<Rightarrow> int \<Rightarrow> swapCtx \<Rightarrow> depositOutcome task" where
  "makerDepositBuildTask rip L now c = buildDeposit rip L now c True"

definition takerDepositBuildTask :: "(bytes \<Rightarrow> bytes) \<Rightarrow> ('s, 'k) der_lib \<Rightarrow> int \<Rightarrow> swapCtx \<Rightarrow> createdBOutcome task" where
  "takerDepositBuildTask rip L now c = (
     let expLT = computeLockTimeFor c (sc_dstCur c) True in
     if expLT = 0 then Inl (TErr (''api: locktime unavailable for '' @ sc_dstCur c))
     else if \<not> acceptableLockTimeDrift expLT (sc_theirLockTime c) (blockTimeFor c (sc_dstCur c))
       then Inl (TSelfCancel crBadALockTime)
     else t_bind (checkCounterpartyDeposit rip c (sc_theirSecretHash c) (sc_dstAmt c)) (\<lambda>dcheck.
       if \<not> dc_IsGood dcheck then Inl (TSelfCancel crBadADepositTx)
       else let c = c\<lparr>sc_theirDepositVout := dc_DepositVout dcheck, sc_theirP2SHNative := dc_P2SHNative dcheck,
                  sc_theirOverpayment := dc_Excess dcheck\<rparr>
       in t_bind (buildDeposit rip L now c False) (\<lambda>out. Inr \<lparr>cb_out = out, cb_check = dcheck\<rparr>)))"

definition makerClaimBuildTask :: "(bytes \<Rightarrow> bytes) \<Rightarrow> ('s, 'k) der_lib \<Rightarrow> int \<Rightarrow> swapCtx \<Rightarrow> confirmOutcome task" where
  "makerClaimBuildTask rip L now c = (
     let expLT = computeLockTimeFor c (sc_dstCur c) False in
     if expLT = 0 then Inl (TErr (''api: locktime unavailable for '' @ sc_dstCur c))
     else if \<not> acceptableLockTimeDrift expLT (sc_theirLockTime c) (blockTimeFor c (sc_dstCur c))
       then Inl (TSelfCancel crBadBLockTime)
     else t_bind (checkCounterpartyDeposit rip c (sc_secretHash c) (sc_dstAmt c)) (\<lambda>dcheck.
       if \<not> dc_IsGood dcheck then Inl (TSelfCancel crBadBDepositTx)
       else let c = c\<lparr>sc_theirDepositVout := dc_DepositVout dcheck, sc_theirP2SHNative := dc_P2SHNative dcheck\<rparr>
       in t_bind (redeemCounterparty rip L now c) (\<lambda>(payHex, cur).
          t_bind (ctx_connector c cur) (\<lambda>wconn.
          t_bind (txIDFromHex payHex) (\<lambda>localPayID.
            Inr \<lparr>co_secret = replicate 33 0, co_payTxID = localPayID, co_payHex = payHex, co_cur = cur,
                 co_check = dcheck, co_conn = wconn\<rparr>)))))"

definition takerClaimBuildTask :: "(bytes \<Rightarrow> bytes) \<Rightarrow> ('s, 'k) der_lib \<Rightarrow> int \<Rightarrow> swapCtx \<Rightarrow> string \<Rightarrow> confirmOutcome task" where
  "takerClaimBuildTask rip L now c payTxID = (case sc_connectors c (sc_srcCur c) of
       None \<Rightarrow> Inl (TErr (''api: no connector for '' @ sc_srcCur c))
     | Some conn \<Rightarrow> (case cn_GetRawTransaction conn payTxID of
         Inl err \<Rightarrow> if err = TRpc (- 5) then Inl (TNotReady False) else Inl err
       | Inr payHex \<Rightarrow>
         let hasTime = (case sc_confs c (sc_srcCur c) of None \<Rightarrow> False | Some cc \<Rightarrow> cc_TxWithTimeField cc) in
         t_bind (secretFromPayTx rip payHex (sc_theirSecretHash c) hasTime (sc_ourDepositTxID c) ownDepositVout) (\<lambda>r.
         case r of None \<Rightarrow> Inl (TErr (''api: could not recover secret from payTx '' @ payTxID))
         | Some secret \<Rightarrow>
           let c = c\<lparr>sc_secret := secret\<rparr> in
           t_bind (redeemCounterparty rip L now c) (\<lambda>(payHex2, cur).
           t_bind (ctx_connector c cur) (\<lambda>wconn.
           t_bind (txIDFromHex payHex2) (\<lambda>localPayID.
             Inr \<lparr>co_secret = secret, co_payTxID = localPayID, co_payHex = payHex2, co_cur = cur,
                  co_check = no_check, co_conn = wconn\<rparr>))))))"

section \<open>Lemmas\<close>

lemma t_bind_simps [simp]: "t_bind (Inl e) k = Inl e" "t_bind (Inr v) k = k v"
  by (simp_all add: t_bind_def)

lemma t_bind_InrE [elim!]:
  assumes "t_bind m k = Inr y"
  obtains x where "m = Inr x" and "k x = Inr y"
  using assms by (cases m) auto

lemma of_go_Inr [simp]: "of_go m = Inr v \<longleftrightarrow> m = Inr v"
  by (auto simp: of_go_def split: sum.splits go_fail.splits)

lemma of_go_simp [simp]: "of_go (Inr v) = Inr v"
  by simp

end
