(* ===== verification/SwapSpend.thy ===== *)
theory SwapSpend
  imports SwapTx
begin

text \<open>
  What the workers of \<^verbatim>\<open>SwapTx\<close> guarantee: the taker's lock ends before the maker's, the refund that
  is signed before the deposit is sent spends that deposit once its lock time is reached, the
  claim spends the counterparty's deposit, and the claim hands the secret to the counterparty.
\<close>

section \<open>Lock times\<close>

lemma int64_in_range: "- 9223372036854775808 \<le> x \<Longrightarrow> x < 9223372036854775808 \<Longrightarrow> int64 x = x"
  by (simp add: int64_def)

text \<open>The drift check never wraps.\<close>

lemma drift_iff:
  "acceptableLockTimeDrift ourLT theirLT bt \<longleftrightarrow> ourLT \<noteq> 0 \<and> uint ourLT < 500000000 \<and> uint theirLT < 500000000
     \<and> (uint ourLT - uint theirLT) * uint bt \<le> max 900 (4 * uint bt)"
proof (cases "ourLT = 0 \<or> uint ourLT \<ge> 500000000 \<or> uint theirLT \<ge> 500000000")
  case False
  have b: "0 \<le> uint bt" "uint bt < 4294967296" using uint_bounded [of bt] by simp_all
  have d: "- 500000000 < uint ourLT - uint theirLT" "uint ourLT - uint theirLT < 500000000"
    using False uint_nonnegative [of ourLT] uint_nonnegative [of theirLT] by linarith+
  have "\<bar>uint ourLT - uint theirLT\<bar> * uint bt \<le> 500000000 * 4294967296"
    using b d by (intro mult_mono) auto
  then have "\<bar>(uint ourLT - uint theirLT) * uint bt\<bar> \<le> 500000000 * 4294967296" using b by (simp add: abs_mult)
  then have "int64 ((uint ourLT - uint theirLT) * uint bt) = (uint ourLT - uint theirLT) * uint bt"
    by (intro int64_in_range) linarith+
  moreover have "int64 (uint ourLT - uint theirLT) = uint ourLT - uint theirLT"
    using d by (intro int64_in_range) linarith+
  moreover have "int64 (4 * uint bt) = 4 * uint bt" using b by (intro int64_in_range) linarith+
  ultimately show ?thesis using False
    by (auto simp: acceptableLockTimeDrift_def lockTimeThreshold_def lock_consts Let_def max_def)
qed (auto simp: acceptableLockTimeDrift_def lockTimeThreshold_def)

definition lock_blocks :: "bool \<Rightarrow> int \<Rightarrow> int" where
  "lock_blocks isMaker bt = max 6 ((if isMaker then 7200 else if bt \<ge> 600 then 3600 else 1800) div bt)"

lemma computeLockTimeFor_value:
  assumes "sc_connectors c cur = Some w" and "cn_GetBlockCount w = Inr h" and "1 \<le> h" and "h < 500000000"
    and "sc_confs c cur = Some cc" and "0 < cc_BlockTime cc"
  shows "uint (computeLockTimeFor c cur isMaker) = h + lock_blocks isMaker (cc_BlockTime cc)"
proof -
  let ?b = "lock_blocks isMaker (cc_BlockTime cc)"
  have "(if isMaker then 7200 else if cc_BlockTime cc \<ge> 600 then 3600 else 1800) div cc_BlockTime cc \<le> (7200 :: int)"
    using assms(6) by (auto intro!: order_trans [OF int_div_le_self])
  then have b: "0 \<le> ?b" "?b \<le> 7200" by (simp_all add: lock_blocks_def)
  have "computeLockTimeFor c cur isMaker = word_of_int h + word_of_int ?b"
    using assms by (simp add: computeLockTimeFor_def lock_consts Let_def lock_blocks_def max_def)
  also have "\<dots> = word_of_int (h + ?b)" by simp
  finally have "uint (computeLockTimeFor c cur isMaker) = (h + ?b) mod 2 ^ 32" by (simp only: uint_word_of_int) simp
  then show ?thesis using assms(3,4) b by simp
qed

text \<open>
  For an admitted coin the maker's nominal lock lasts more than 5700 seconds after any accepted
  drift when blocks are fast, and the taker's never more than its target.
\<close>

lemma admitted_block_time:
  assumes "Admit (Some cc) = Inr ()" and "cc_BlockTime cc < 2 ^ 32"
  shows "0 < cc_BlockTime cc \<and> (cc_BlockTime cc \<le> 300 \<or> cc_BlockTime cc = 600)"
proof -
  have w: "int64 (cc_BlockTime cc * 6) = cc_BlockTime cc * 6" if "0 \<le> cc_BlockTime cc"
    using that assms(2) by (intro int64_in_range) simp_all
  from assms(1) have "0 \<le> cc_BlockTime cc" "cc_BlockTime cc \<noteq> 0"
    by (auto simp: Admit_def split: if_splits)
  with assms(1) w show ?thesis by (auto simp: Admit_def lock_consts split: if_splits)
qed

lemma taker_lock_seconds:
  assumes "0 < bt" and "bt \<le> 300 \<or> bt = 600"
  shows "lock_blocks False bt * bt \<le> 3600"
proof -
  have "1800 div bt * bt \<le> 1800" using div_mult_mod_eq [of 1800 bt] pos_mod_sign [OF assms(1), of 1800] by linarith
  then show ?thesis using assms by (auto simp: lock_blocks_def max_def)
qed

lemma maker_lock_seconds:
  assumes "0 < bt" and "bt \<le> 300 \<or> bt = 600"
  shows "4800 \<le> lock_blocks True bt * bt - max 900 (4 * bt)"
proof -
  have "7200 - bt < 7200 div bt * bt" using div_mult_mod_eq [of 7200 bt] pos_mod_bound [OF assms(1), of 7200] by linarith
  moreover have "7200 div bt * bt \<le> lock_blocks True bt * bt"
    using assms(1) by (intro mult_right_mono) (simp_all add: lock_blocks_def)
  ultimately have l: "7200 - bt < lock_blocks True bt * bt" by linarith
  from assms(2) show ?thesis
  proof
    assume "bt \<le> 300"
    with l assms(1) show ?thesis by (simp add: max_def)
  qed (simp add: lock_blocks_def)
qed

lemma computeLockTimeFor_cong:
  assumes "sc_connectors c' = sc_connectors c" and "sc_confs c' = sc_confs c"
  shows "computeLockTimeFor c' cur m = computeLockTimeFor c cur m"
  by (simp only: computeLockTimeFor_def assms)

lemma buildDeposit_lockTime:
  "buildDeposit rip L now c isMaker = Inr out \<Longrightarrow> do_lockTime out = computeLockTime c isMaker
    \<and> computeLockTime c isMaker \<noteq> 0"
  by (auto simp: buildDeposit_def Let_def split: option.splits if_splits)

lemma takerDeposit_inv:
  assumes "takerDepositBuildTask rip L now c = Inr out"
  shows "computeLockTimeFor c (sc_dstCur c) True \<noteq> 0
    \<and> acceptableLockTimeDrift (computeLockTimeFor c (sc_dstCur c) True) (sc_theirLockTime c) (blockTimeFor c (sc_dstCur c))
    \<and> (\<exists>dc. checkCounterpartyDeposit rip c (sc_theirSecretHash c) (sc_dstAmt c) = Inr dc \<and> dc_IsGood dc
         \<and> cb_check out = dc \<and> buildDeposit rip L now (c\<lparr>sc_theirDepositVout := dc_DepositVout dc,
             sc_theirP2SHNative := dc_P2SHNative dc, sc_theirOverpayment := dc_Excess dc\<rparr>) False = Inr (cb_out out))"
  using assms by (cases "checkCounterpartyDeposit rip c (sc_theirSecretHash c) (sc_dstAmt c)")
    (auto simp: takerDepositBuildTask_def Let_def split: if_splits)

section \<open>Transactions with one input\<close>

lemma length_pushNum:
  assumes "pushNum (uint (n :: u32)) = Inr p"
  shows "length p \<le> 6"
proof -
  have "length (num_loop (uint n)) \<le> 4"
  proof (rule ccontr)
    assume "\<not> length (num_loop (uint n)) \<le> 4"
    then have l: "4 \<le> length (num_loop (uint n)) - 1" and "uint n \<noteq> 0" by auto
    then have "256 ^ (length (num_loop (uint n)) - 1) \<le> uint n"
      using length_num_loop [of "uint n"] uint_nonnegative [of n] by linarith
    moreover have "(256 :: int) ^ 4 \<le> 256 ^ (length (num_loop (uint n)) - 1)" using l by (intro power_increasing) auto
    ultimately show False using uint_bounded [of n] by simp
  qed
  moreover have "length (pushData b) \<le> 6" if "length b \<le> 5" for b using that by (simp add: pushData_def Let_def)
  moreover have "0 \<le> uint n" by simp
  ultimately show ?thesis using assms
    by (auto simp: pushNum_def Let_def simp del: uint_nonnegative split: if_splits)
qed

lemma length_contract:
  assumes "BuildDepositUnlockScript rip my other sh lock = Inr s" and "length sh = 20"
  shows "length s \<le> 90"
proof -
  obtain p where p: "pushNum (uint lock) = Inr p" using assms(1) by (auto simp: BuildDepositUnlockScript_def Let_def)
  have "pushNum 33 = Inr [1, 33]" by (simp add: pushNum_def num_loop_pos pushData_def Let_def)
  then show ?thesis using assms length_pushNum [OF p] p
    by (auto simp: BuildDepositUnlockScript_def Let_def pushData_def)
qed

lemma length_copy20 [simp]: "length (copy20 h) = 20"
  by (simp add: copy20_def)

lemma destScript_length: "destScript c cur addr = Inr d \<Longrightarrow> length d = 25"
  by (auto simp: destScript_def BuildP2PKHScript_def pushData_def split: option.splits)

text \<open>The transaction of a refund or a claim, with its input script.\<close>

abbreviation spend_tx where
  "spend_tx c cur now ver lt h idx sq v dest ss \<equiv> set_scriptSig ss (stamp_time c cur now (single_tx ver lt h idx sq v dest))"

lemma spend_tx_fields:
  "tx_Inputs (spend_tx c cur now ver lt h idx sq v dest ss) = [\<lparr>ti_PrevOut = \<lparr>op_Hash = h, op_Index = idx\<rparr>,
     ti_ScriptSig = ss, ti_Sequence = sq, ti_Witness = [], ti_Amount = 0\<rparr>]"
  "tx_Outputs (spend_tx c cur now ver lt h idx sq v dest ss) = [\<lparr>to_Value = v, to_ScriptPubKey = dest\<rparr>]"
  "tx_LockTime (spend_tx c cur now ver lt h idx sq v dest ss) = lt"
  "tx_SegWit (spend_tx c cur now ver lt h idx sq v dest ss) = False"
  "tx_WithTime (spend_tx c cur now ver lt h idx sq v dest ss)
     = (case sc_confs c cur of None \<Rightarrow> False | Some cc \<Rightarrow> cc_TxWithTimeField cc)"
  by (simp_all add: set_scriptSig_def stamp_time_def single_tx_def split: option.split)

lemma length_varInt_le: "length (varInt n) \<le> 9"
  by (simp add: varInt_def)

lemma spend_tx_ok:
  assumes "length h = 32" and "length ss \<le> 100000" and "length dest = 25"
  shows "tx_ok (spend_tx c cur now ver lt h idx sq v dest ss)"
proof -
  let ?t = "spend_tx c cur now ver lt h idx sq v dest ss"
  have "\<not> tx_WithTime ?t \<longrightarrow> tx_TxTime ?t = 0"
    by (simp add: set_scriptSig_def stamp_time_def single_tx_def split: option.split)
  moreover have "length (Tx_Serialize ?t) < 2 ^ 62"
    using assms length_varInt_le [of "length ss"] length_varInt_le [of 1] length_varInt_le [of 25]
    by (simp add: Tx_Serialize_def Let_def spend_tx_fields ser_in_def ser_out_def)
  ultimately show ?thesis using assms by (simp add: tx_ok_def spend_tx_fields)
qed

lemma spend_tx_decodes:
  assumes "length h = 32" and "length ss \<le> 100000" and "length dest = 25"
    and "hasTime = (case sc_confs c cur of None \<Rightarrow> False | Some cc \<Rightarrow> cc_TxWithTimeField cc)"
  shows "DeserializeWithTime (Tx_Serialize (spend_tx c cur now ver lt h idx sq v dest ss)) hasTime
    = Inr (spend_tx c cur now ver lt h idx sq v dest ss)"
  using Deserialize_Serialize [OF spend_tx_ok [OF assms(1-3)]] unfolding spend_tx_fields assms(4) .

text \<open>The check of a spend of the contract by the rules of the coin.\<close>

definition tx_checksig :: "('s, 'k) der_lib \<Rightarrow> Tx \<Rightarrow> bytes \<Rightarrow> u64 \<Rightarrow> Coin \<Rightarrow> bytes \<Rightarrow> bytes \<Rightarrow> bool" where
  "tx_checksig L tx inner amount coin g k \<longleftrightarrow>
     (if c_signature coin = SigForkID then VerifyTxInputForkID L tx 0 inner k amount (c_forkValue coin) g
      else VerifyTxInput L tx 0 inner k g) = Inr True"

definition tx_env :: "(bytes \<Rightarrow> bytes) \<Rightarrow> ('s, 'k) der_lib \<Rightarrow> Tx \<Rightarrow> bytes \<Rightarrow> u64 \<Rightarrow> Coin \<Rightarrow> spend_env" where
  "tx_env rip L tx inner amount coin = \<lparr>se_rip = rip, se_lockTime = uint (tx_LockTime tx),
     se_final = (ti_Sequence (tx_Inputs tx ! 0) = 0xffffffff), se_checksig = tx_checksig L tx inner amount coin\<rparr>"

lemma set_scriptSig_digests:
  "HashForSigning (set_scriptSig ss t) idx s = HashForSigning t idx s"
  "HashForSigningForkID (set_scriptSig ss t) idx s a f = HashForSigningForkID t idx s a f"
proof -
  show "HashForSigning (set_scriptSig ss t) idx s = HashForSigning t idx s"
    unfolding set_scriptSig_def by (rule HashForSigning_scripts [symmetric]) simp_all
  show "HashForSigningForkID (set_scriptSig ss t) idx s a f = HashForSigningForkID t idx s a f"
    by (auto simp: HashForSigningForkID_def HashForSigningBIP143_def set_scriptSig_def comp_def Let_def nat_less_iff not_less)
qed

lemma signed_checks:
  assumes "der_key_ok L priv pub" and "length priv = 32"
    and "SignTxInputForCoin L (stamp_time c cur now (single_tx ver lt h idx sq v dest)) 0 inner amount priv coin = Inr sig"
  shows "tx_checksig L (spend_tx c cur now ver lt h idx sq v dest ss) inner amount coin sig pub"
proof -
  have "tx_Inputs (stamp_time c cur now (single_tx ver lt h idx sq v dest)) \<noteq> []"
    by (simp add: stamp_time_def single_tx_def split: option.split)
  then show ?thesis
    using sign_then_verify [OF assms(1,2), of 0 "stamp_time c cur now (single_tx ver lt h idx sq v dest)" inner amount coin] assms(3)
    by (auto simp: tx_checksig_def VerifyTxInput_def VerifyTxInputForkID_def set_scriptSig_digests split: if_splits)
qed

lemma signature_length:
  assumes "SignTxInputForCoin L tx idx inner amount priv coin = Inr sig" and "\<forall>h. length (dl_sign L priv h) \<le> 72"
  shows "length sig \<le> 73"
  using assms by (auto simp: SignTxInputForCoin_def SignTxInputForkID_def SignTxInput_def signDigest_def
      signDigestWithSighash_def Let_def split: if_splits)

section \<open>Refund and claim\<close>

text \<open>What is assumed of a session's keys and of the curve library: lengths, and that signatures verify.\<close>

definition keys_ok :: "('s, 'k) der_lib \<Rightarrow> swapCtx \<Rightarrow> bool" where
  "keys_ok L c \<longleftrightarrow> der_key_ok L (sc_privKey c) (sc_pubKey c) \<and> length (sc_privKey c) = 32 \<and> length (sc_pubKey c) = 33
     \<and> length (sc_secretHash c) = 20 \<and> length (sc_theirSecretHash c) = 20
     \<and> (\<forall>h. length (dl_sign L (sc_privKey c) h) \<le> 72)"

lemma RedeemScript_unfold:
  "RedeemScript rip d = BuildDepositUnlockScript rip (ds_DepositorPub d) (ds_CounterpartyPub d) (SecretHash rip d) (ds_LockTime d)"
  by (simp add: RedeemScript_def)

lemma length_inner: "RedeemScript rip d = Inr inner \<Longrightarrow> length (ds_Hash d) = 20 \<Longrightarrow> length inner \<le> 90"
  using length_contract length_SecretHash by (simp add: RedeemScript_unfold)

lemma length_sigs:
  assumes "length g \<le> 73" and "length k = 33" and "length inner \<le> 90" and "length x = 33"
  shows "length (BuildRefundScriptSig g k inner) \<le> 100000" and "length (BuildPaymentScriptSig x g k inner) \<le> 100000"
  using assms by (simp_all add: BuildRefundScriptSig_def BuildPaymentScriptSig_def pushData_def Let_def)

lemma refund_sig_spends:
  assumes k: "keys_ok L c" and "ds_DepositorPub spec = sc_pubKey c" and h: "length (ds_Hash spec) = 20"
    and i: "RedeemScript rip spec = Inr inner"
    and s: "SignTxInputForCoin L (stamp_time c cur now (single_tx ver (ds_LockTime spec) txh idx 0xfffffffe v dest)) 0 inner
      amount (sc_privKey c) coin = Inr sig"
    and t: "tx = spend_tx c cur now ver (ds_LockTime spec) txh idx 0xfffffffe v dest (BuildRefundScriptSig sig (sc_pubKey c) inner)"
  shows "spend_p2sh (tx_env rip L tx inner amount coin) (ti_ScriptSig (tx_Inputs tx ! 0)) (KeyID rip inner)"
proof -
  let ?e = "tx_env rip L tx inner amount coin"
  have e: "se_rip ?e = rip" "se_lockTime ?e = uint (ds_LockTime spec)" "\<not> se_final ?e"
    by (simp_all add: tx_env_def t spend_tx_fields)
  have ck: "se_checksig ?e sig (sc_pubKey c)"
    using signed_checks [OF _ _ s] k by (simp add: tx_env_def t keys_ok_def)
  have "can_refund ?e (sc_pubKey c) (ds_LockTime spec) sig (sc_pubKey c)"
    using e ck by (simp add: can_refund_def hash160_def)
  moreover have b: "BuildDepositUnlockScript (se_rip ?e) (sc_pubKey c) (ds_CounterpartyPub spec) (SecretHash rip spec) (ds_LockTime spec)
      = Inr inner" using i assms(2) e by (simp add: RedeemScript_unfold)
  moreover have "length inner \<le> 90" "length sig \<le> 73"
    using length_inner [OF i h] signature_length [OF s] k by (simp_all add: keys_ok_def)
  ultimately show ?thesis
    using built_sigs_spend [OF b length_SecretHash [OF h], of sig "sc_pubKey c" "[]"] k e(1)
    by (simp add: t spend_tx_fields keys_ok_def hash160_def)
qed

lemma claim_sig_spends:
  assumes k: "keys_ok L c" and "ds_CounterpartyPub spec = sc_pubKey c" and h: "length (ds_Hash spec) = 20"
    and i: "RedeemScript rip spec = Inr inner"
    and s: "SignTxInputForCoin L (stamp_time c cur now (single_tx ver 0 txh idx 0xffffffff v dest)) 0 inner
      amount (sc_privKey c) coin = Inr sig"
    and t: "tx = spend_tx c cur now ver 0 txh idx 0xffffffff v dest (BuildPaymentScriptSig x sig (sc_pubKey c) inner)"
    and x: "length x = 33" "KeyID rip x = SecretHash rip spec"
  shows "spend_p2sh (tx_env rip L tx inner amount coin) (ti_ScriptSig (tx_Inputs tx ! 0)) (KeyID rip inner)"
proof -
  let ?e = "tx_env rip L tx inner amount coin"
  have e: "se_rip ?e = rip" by (simp add: tx_env_def)
  have "se_checksig ?e sig (sc_pubKey c)"
    using signed_checks [OF _ _ s] k by (simp add: tx_env_def t keys_ok_def)
  then have "can_claim ?e (sc_pubKey c) (SecretHash rip spec) sig (sc_pubKey c) x"
    using e x by (simp add: can_claim_def hash160_def)
  moreover have b: "BuildDepositUnlockScript (se_rip ?e) (ds_DepositorPub spec) (sc_pubKey c) (SecretHash rip spec) (ds_LockTime spec)
      = Inr inner" using i assms(2) e by (simp add: RedeemScript_unfold)
  moreover have "length inner \<le> 90" "length sig \<le> 73"
    using length_inner [OF i h] signature_length [OF s] k by (simp_all add: keys_ok_def)
  ultimately show ?thesis
    using built_sigs_spend [OF b length_SecretHash [OF h], of sig "sc_pubKey c" x] k e x
    by (simp add: t spend_tx_fields keys_ok_def hash160_def)
qed

lemma reverseTxidHex_ok: "reverseTxidHex s = Inr h \<longleftrightarrow> (\<exists>b. hex_DecodeString s = Some b \<and> length b = 32 \<and> h = rev b)"
  by (auto simp: reverseTxidHex_def map_rev_index split: option.splits if_splits)

lemma buildRefundTx_inv:
  assumes "buildRefundTx rip L now c spec cur = Inr r"
  shows "\<exists>coin dest h inner sig. sc_coinsMap c cur = Some coin \<and> destScript c cur (sc_ourSourceAddr c) = Inr dest
    \<and> sc_ourDepositP2SH c \<noteq> 0 \<and> reverseTxidHex (sc_ourDepositTxID c) = Inr h \<and> RedeemScript rip spec = Inr inner
    \<and> SignTxInputForCoin L (stamp_time c cur now (single_tx (txVersion c cur) (ds_LockTime spec) h 0 0xfffffffe (ds_Amount spec) dest))
        0 inner (sc_ourDepositP2SH c) (sc_privKey c) coin = Inr sig
    \<and> r = hex_EncodeToString (Tx_Serialize (spend_tx c cur now (txVersion c cur) (ds_LockTime spec) h 0 0xfffffffe
            (ds_Amount spec) dest (BuildRefundScriptSig sig (ds_DepositorPub spec) inner)))"
  using assms by (auto simp: buildRefundTx_def Let_def split: option.splits if_splits)

lemma t_bind_Inr_iff: "t_bind m k = Inr y \<longleftrightarrow> (\<exists>x. m = Inr x \<and> k x = Inr y)"
  by (cases m) auto

lemma buildDeposit_inv:
  assumes "buildDeposit rip L now c isMaker = Inr out"
  shows "\<exists>conn cc coin dtx ch prevs. sc_connectors c (sc_srcCur c) = Some conn \<and> sc_confs c (sc_srcCur c) = Some cc
    \<and> sc_coinsMap c (sc_srcCur c) = Some coin \<and> do_lockTime out = computeLockTime c isMaker \<and> do_lockTime out \<noteq> 0
    \<and> BuildDepositTx rip now (deposit_spec c coin isMaker (do_lockTime out)) coin (sc_funding c) ch
        (estimateFee (Some cc) (length (sc_funding c)) 3) (estimateFee (Some cc) 1 1) (depositDustLimit (Some cc)) = Inr dtx
    \<and> cn_SignRawTransaction conn (hex_EncodeToString (Tx_Serialize dtx)) prevs = Inr (do_depositHex out, True)
    \<and> txIDFromHex (do_depositHex out) = Inr (do_txid out) \<and> do_conn out = conn
    \<and> buildRefundTx rip L now (c\<lparr>sc_ourDepositP2SH := to_Value (tx_Outputs dtx ! 0), sc_ourDepositTxID := do_txid out,
        sc_ourLockTime := do_lockTime out\<rparr>) (deposit_spec c coin isMaker (do_lockTime out)) (sc_srcCur c) = Inr (do_refundHex out)"
  using assms
  by (auto simp: buildDeposit_def Let_def t_bind_Inr_iff split: option.splits if_splits prod.splits) blast

lemma deposit_output:
  assumes "BuildDepositTx rip now d coin us ch fee fee2 dust = Inr dtx"
  shows "tx_Outputs dtx ! 0 = \<lparr>to_Value = ds_Amount d + fee2, to_ScriptPubKey = to_ScriptPubKey (tx_Outputs dtx ! 0)\<rparr>
    \<and> P2SHScript rip d = Inr (to_ScriptPubKey (tx_Outputs dtx ! 0))"
  using assms by (auto simp: BuildDepositTx_def Let_def split: if_splits)

lemma ctx_readers_cong:
  assumes "sc_confs c' = sc_confs c" and "sc_coinsMap c' = sc_coinsMap c"
  shows "txVersion c' = txVersion c" and "destScript c' = destScript c" and "stamp_time c' = stamp_time c"
  using assms by (simp_all add: fun_eq_iff txVersion_def destScript_def stamp_time_def)

lemma redeem_inv:
  assumes "redeemCounterparty rip L now c = Inr (payHex, cur)" and "sc_coinsMap c (sc_dstCur c) = Some coin"
  shows "\<exists>dest h inner sig payout. cur = sc_dstCur c \<and> destScript c cur (sc_ourDestAddr c) = Inr dest
    \<and> sc_theirP2SHNative c \<noteq> 0 \<and> estimateFee (sc_confs c cur) 1 1 < sc_theirP2SHNative c
    \<and> reverseTxidHex (sc_theirDepositTxID c) = Inr h \<and> RedeemScript rip (their_spec c coin) = Inr inner
    \<and> payout = (if sc_theirP2SHNative c > ds_Amount (their_spec c coin) + estimateFee (sc_confs c cur) 1 1
        then sc_theirP2SHNative c - estimateFee (sc_confs c cur) 1 1 else ds_Amount (their_spec c coin))
    \<and> SignTxInputForCoin L (stamp_time c cur now (single_tx (txVersion c cur) 0 h (sc_theirDepositVout c) 0xffffffff payout dest))
        0 inner (sc_theirP2SHNative c) (sc_privKey c) coin = Inr sig
    \<and> payHex = hex_EncodeToString (Tx_Serialize (spend_tx c cur now (txVersion c cur) 0 h (sc_theirDepositVout c) 0xffffffff
            payout dest (BuildPaymentScriptSig (sc_secret c) sig (sc_pubKey c) inner)))"
  using assms by (auto simp: redeemCounterparty_def Let_def t_bind_Inr_iff not_le split: if_splits)

text \<open>The first push of a claim's input script is the secret.\<close>

lemma secret_in_payment:
  assumes "length x = 33" and "KeyID rip x = hx"
  shows "secretFromScriptSig rip (BuildPaymentScriptSig x g k inner) hx = Some x"
proof -
  have "pushData x = 33 # x" using assms(1) by (auto simp: pushData_def Let_def)
  then have "BuildPaymentScriptSig x g k inner = 33 # x @ pushData g @ pushData k @ [Op0] @ pushData inner"
    by (simp add: BuildPaymentScriptSig_def)
  then show ?thesis using assms by (simp add: Let_def)
qed

lemma payout_value:
  fixes p a fee :: u64
  assumes "fee < p" and "unat a + unat fee < 2 ^ 64"
  shows "unat (if p > a + fee then p - fee else a) = max (unat a) (unat p - unat fee)"
proof -
  have "unat (a + fee) = unat a + unat fee" using assms(2) by (intro unat_add_lem [THEN iffD1]) simp
  then show ?thesis using assms(1) by (auto simp: word_less_nat_alt unat_sub_if')
qed

section \<open>A small instance\<close>

definition demo_der :: "(bytes, bytes) der_lib" where
  "demo_der = \<lparr>dl_sign = (\<lambda>priv h. take 32 h), dl_parse_sig = Some, dl_parse_pub = Some, dl_verify = (\<lambda>s h k. s = take 32 h)\<rparr>"

definition demo_addr :: string where
  "demo_addr = base58CheckEncode 0 (replicate 20 9)"

definition demo_wallet :: "string \<Rightarrow> Connector" where
  "demo_wallet pay = \<lparr>cn_GetNewAddress = Inr demo_addr, cn_GetBlockCount = Inr 1000, cn_SignRawTransaction = \<lambda>h _. Inr (h, True),
     cn_SendRawTransaction = \<lambda>_. Inr [], cn_GetRawTransaction = \<lambda>_. Inr pay, cn_GetRawTransactionVerbose = \<lambda>_. Inl (TErr []),
     cn_GetTxOut = \<lambda>_ _. Inr (demo_utxo, True),
     cn_CheckDepositTransaction = \<lambda>_ _ _ _. Inr (no_check\<lparr>dc_IsGood := True, dc_P2SHNative := 104520\<rparr>),
     cn_GetRawMempool = Inl (TErr []), cn_GetBlockHash = \<lambda>_. Inl (TErr []), cn_GetBlockTxs = \<lambda>_. Inl (TErr [])\<rparr>"

definition demo_ctx :: "string \<Rightarrow> bool \<Rightarrow> swapCtx" where
  "demo_ctx pay m = \<lparr>sc_isMaker = m, sc_srcCur = ''BTC'', sc_dstCur = ''BTC'', sc_srcAmt = 1000, sc_dstAmt = 1000,
     sc_ourSourceAddr = demo_addr, sc_ourDestAddr = demo_addr, sc_theirPub = replicate 33 2, sc_privKey = replicate 32 1,
     sc_pubKey = replicate 33 3, sc_secret = replicate 33 5, sc_secretHash = replicate 20 7,
     sc_theirDepositTxID = hex_EncodeToString (replicate 32 6), sc_theirLockTime = 1010, sc_theirSecretHash = replicate 20 7,
     sc_theirDepositVout = 0, sc_theirP2SHNative = 104520, sc_theirOverpayment = 0,
     sc_ourDepositTxID = hex_EncodeToString (replicate 32 6), sc_ourLockTime = 0, sc_refundHex = [],
     sc_connectors = [''BTC'' \<mapsto> demo_wallet pay], sc_confs = [''BTC'' \<mapsto> sample_coin], sc_coinsMap = [''BTC'' \<mapsto> sample],
     sc_ourDepositP2SH = 0, sc_funding = [demo_utxo\<lparr>ut_Address := demo_addr, ut_Amount := 1000000\<rparr>]\<rparr>"

abbreviation demo_rip :: "bytes \<Rightarrow> bytes" where
  "demo_rip \<equiv> (\<lambda>_. replicate 20 7)"

lemma demo_keys [simp]: "keys_ok demo_der (demo_ctx pay m)"
  by (simp add: keys_ok_def der_key_ok_def demo_der_def demo_ctx_def min_le_iff_disj)

lemma demo_decode [simp]: "DecodeAddress sample demo_addr
    = Inr \<lparr>a_Coin = sample, a_Kind = P2PKH, a_Prefix = 0, a_Hash = replicate 20 9, a_WitnessVersion = 0\<rparr>"
  using base58Check_decode_encode [of "replicate 20 9" 0] check_encode_nonempty [of 0 "replicate 20 9"]
  by (simp add: DecodeAddress_def decodeAddress_def demo_addr_def) (simp add: sample_def)

lemma reverse_txid [simp]: "\<exists>h. reverseTxidHex (txIDFromBytes raw) = Inr h"
  by (auto simp: reverseTxidHex_ok txIDFromBytes_def Let_def)

lemma SignTxInput_total [simp]: "length priv = 32 \<Longrightarrow> \<exists>g. SignTxInputForCoin L tx idx inner a priv sample = Inr g"
  by (simp add: SignTxInputForCoin_def SignTxInput_def signDigest_def signDigestWithSighash_def sample_def Let_def)

lemma demo_lock: "computeLockTimeFor (demo_ctx pay m) ''BTC'' k = (if k then 1012 else 1006)"
  by (simp add: computeLockTimeFor_def demo_ctx_def demo_wallet_def lock_consts sample_coin_def)

lemma buildRefund_total:
  assumes "sc_coinsMap c cur = Some sample" and "sc_ourSourceAddr c = demo_addr" and "sc_ourDepositP2SH c \<noteq> 0"
    and "sc_ourDepositTxID c = txIDFromBytes raw" and "length (sc_privKey c) = 32" and "length (ds_Hash spec) = 20"
  shows "\<exists>r. buildRefundTx rip L now c spec cur = Inr r"
proof -
  obtain h where h: "reverseTxidHex (txIDFromBytes raw) = Inr h" using reverse_txid by blast
  obtain inner where i: "RedeemScript rip spec = Inr inner" using RedeemScript_total [OF assms(6)] by blast
  have "destScript c cur demo_addr = Inr (BuildP2PKHScript (copy20 (replicate 20 9)))" using assms(1) by (simp add: destScript_def)
  moreover obtain g where "SignTxInputForCoin L (stamp_time c cur now (single_tx (txVersion c cur) (ds_LockTime spec) h 0 0xfffffffe
      (ds_Amount spec) (BuildP2PKHScript (copy20 (replicate 20 9))))) 0 inner (sc_ourDepositP2SH c) (sc_privKey c) sample = Inr g"
    using SignTxInput_total [OF assms(5)] by blast
  ultimately show ?thesis using assms h i by (simp add: buildRefundTx_def Let_def)
qed

lemma demo_fees: "estimateFee (Some sample_coin) 1 3 = 5880" "estimateFee (Some sample_coin) 1 1 = 4520"
  by (simp_all add: estimateFee_def sample_coin_def Let_def)

lemma demo_amount: "fromXBridgeAmt sample 1000 = 100000"
  by (simp add: fromXBridgeAmt_def coinNativeScale_def sample_def coinScale_def Let_def)

lemma demo_builds: "\<exists>out. buildDeposit rip demo_der now (demo_ctx pay m) k = Inr out"
proof -
  let ?c = "demo_ctx pay m" and ?lt = "if k then 1012 else 1006 :: u32"
  let ?spec = "deposit_spec ?c sample k ?lt" and ?us = "sc_funding ?c"
  have sp: "length (ds_Hash ?spec) = 20" "ds_Amount ?spec = 100000"
    by (simp_all add: deposit_spec_def demo_ctx_def demo_amount Let_def)
  obtain inner where i: "RedeemScript rip ?spec = Inr inner" using RedeemScript_total [OF sp(1)] by blast
  have us: "total_amount ?us = 1000000" "\<exists>ins. deposit_inputs ?us = Inr ins"
    by (simp_all add: total_amount_def demo_ctx_def demo_utxo_def)
  then obtain tx where tx: "BuildDepositTx rip now ?spec sample ?us (copy20 (replicate 20 9)) 5880 4520 546 = Inr tx"
    "tx_Outputs tx \<noteq> []" "to_Value (tx_Outputs tx ! 0) = 104520"
    using i sp(2) by (auto simp: BuildDepositTx_def P2SHScript_def demo_ctx_def Let_def)
  define c' where "c' = ?c\<lparr>sc_ourDepositP2SH := 104520, sc_ourDepositTxID := txIDFromBytes (Tx_Serialize tx), sc_ourLockTime := ?lt\<rparr>"
  have "sc_coinsMap c' ''BTC'' = Some sample" "sc_ourSourceAddr c' = demo_addr" "sc_ourDepositP2SH c' \<noteq> 0"
    "sc_ourDepositTxID c' = txIDFromBytes (Tx_Serialize tx)" "length (sc_privKey c') = 32"
    by (simp_all add: c'_def demo_ctx_def)
  from buildRefund_total [OF this sp(1)] obtain r where "buildRefundTx rip demo_der now c' ?spec ''BTC'' = Inr r" by blast
  moreover have "sc_connectors ?c ''BTC'' = Some (demo_wallet pay)" "sc_confs ?c ''BTC'' = Some sample_coin"
    "sc_coinsMap ?c ''BTC'' = Some sample" "sc_srcCur ?c = ''BTC''" "length ?us = 1" "?us \<noteq> []"
    "computeLockTime ?c k = ?lt" "?lt \<noteq> 0"
    using demo_lock [of pay m k] by (simp_all add: demo_ctx_def computeLockTime_def)
  moreover have "change_hash (demo_wallet pay) sample (largest_utxo ?us) = Inr (copy20 (replicate 20 9))"
    by (simp add: change_hash_def largest_utxo_def demo_ctx_def)
  moreover have "depositDustLimit (Some sample_coin) = 546" by (simp add: depositDustLimit_def effectiveDust_def sample_coin_def)
  moreover have "cn_SignRawTransaction (demo_wallet pay) h ps = Inr (h, True)" for h ps by (simp add: demo_wallet_def)
  ultimately show ?thesis
    using tx demo_fees by (simp add: buildDeposit_def txIDFromHex_def c'_def Let_def del: One_nat_def)
qed

lemma demo_secret: "KeyID demo_rip x = SecretHash demo_rip (their_spec (demo_ctx pay m) sample)"
proof -
  have "replicate 20 7 \<noteq> (replicate 20 0 :: bytes)" by simp
  then show ?thesis by (simp add: KeyID_def SecretHash_def their_spec_def demo_ctx_def del: replicate_eq_replicate)
qed

lemma demo_redeem: "\<exists>p. redeemCounterparty rip demo_der now (demo_ctx pay m) = Inr (p, ''BTC'')"
proof -
  let ?c = "demo_ctx pay m" and ?spec = "their_spec (demo_ctx pay m) sample"
  have c: "sc_dstCur ?c = ''BTC''" "sc_coinsMap ?c ''BTC'' = Some sample" "length (ds_Hash ?spec) = 20"
    "sc_theirP2SHNative ?c = 104520" "estimateFee (sc_confs ?c ''BTC'') 1 1 = 4520" "sc_ourDestAddr ?c = demo_addr"
    "length (sc_privKey ?c) = 32" "sc_theirDepositTxID ?c = hex_EncodeToString (replicate 32 6)"
    by (simp_all add: demo_ctx_def their_spec_def demo_fees del: One_nat_def)
  obtain inner where i: "RedeemScript rip ?spec = Inr inner" using RedeemScript_total [OF c(3)] by blast
  have u: "unspent_check rip ?c ?spec = Inr ()" by (simp add: unspent_check_def demo_ctx_def demo_wallet_def)
  have h: "reverseTxidHex (hex_EncodeToString (replicate 32 6)) = Inr (rev (replicate 32 6))" by (simp add: reverseTxidHex_ok)
  have d: "destScript ?c ''BTC'' demo_addr = Inr (BuildP2PKHScript (copy20 (replicate 20 9)))" using c(2) by (simp add: destScript_def)
  obtain g where "SignTxInputForCoin demo_der (stamp_time ?c ''BTC'' now (single_tx (txVersion ?c ''BTC'') 0 (rev (replicate 32 6))
      (sc_theirDepositVout ?c) 0xffffffff (if 104520 > ds_Amount ?spec + 4520 then 104520 - 4520 else ds_Amount ?spec)
      (BuildP2PKHScript (copy20 (replicate 20 9))))) 0 inner 104520 (sc_privKey ?c) sample = Inr g"
    using SignTxInput_total [OF c(7)] by blast
  then show ?thesis by (simp only: redeemCounterparty_def c Let_def u h d i option.case t_bind_simps of_go_simp) simp
qed

lemma script_total:
  assumes "length h = 20"
  shows "\<exists>q. counterpartyDepositScriptHex rip c h = Inr q"
proof -
  let ?d = "\<lparr>ds_Currency = sc_dstCur c, ds_Amount = 0, ds_DepositorPub = sc_theirPub c, ds_CounterpartyPub = sc_pubKey c,
    ds_Secret = replicate 33 0, ds_Hash = h, ds_LockTime = sc_theirLockTime c, ds_TxVersion = 0\<rparr>"
  obtain r where "RedeemScript rip ?d = Inr r" using RedeemScript_total [of ?d rip] assms by auto
  then show ?thesis by (simp add: counterpartyDepositScriptHex_def P2SHScript_def Let_def)
qed

lemma demo_task: "\<exists>out. takerDepositBuildTask rip demo_der now (demo_ctx pay m) = Inr out"
proof -
  let ?c = "demo_ctx pay m" and ?dc = "no_check\<lparr>dc_IsGood := True, dc_P2SHNative := 104520\<rparr>"
  have "length (sc_theirSecretHash ?c) = 20" by (simp add: demo_ctx_def)
  then obtain q where "counterpartyDepositScriptHex rip ?c (sc_theirSecretHash ?c) = Inr q"
    using script_total by blast
  then have ck: "checkCounterpartyDeposit rip ?c (sc_theirSecretHash ?c) (sc_dstAmt ?c) = Inr ?dc"
    by (simp add: checkCounterpartyDeposit_def) (simp add: demo_ctx_def demo_wallet_def)
  have same: "?c\<lparr>sc_theirDepositVout := dc_DepositVout ?dc, sc_theirP2SHNative := dc_P2SHNative ?dc,
      sc_theirOverpayment := dc_Excess ?dc\<rparr> = ?c"
    by (simp add: demo_ctx_def no_check_def)
  have "uint (1012 :: u32) = 1012" "uint (1010 :: u32) = 1010" "uint (600 :: u32) = 600" by simp_all
  then have dr: "acceptableLockTimeDrift 1012 (sc_theirLockTime ?c) (blockTimeFor ?c ''BTC'')"
    by (simp add: drift_iff blockTimeFor_def demo_ctx_def sample_coin_def)
  have "sc_dstCur ?c = ''BTC''" by (simp add: demo_ctx_def)
  then show ?thesis using demo_builds [of rip now pay m False] demo_lock [of pay m True] ck dr same
    by (auto simp: takerDepositBuildTask_def Let_def)
qed

section \<open>Properties\<close>

text \<open>
  C7: the taker's lock expires before the maker's. When the taker's task yields a deposit for
  coins that passed admission, the seconds until the taker's own refund is possible, counted in
  nominal block times from the current heights, are at least 1200 fewer than those until the
  maker can take the other deposit back, whatever lock time the maker's packet claimed.
\<close>

theorem taker_lock_before_maker:
  assumes run: "takerDepositBuildTask rip L now c = Inr out"
    and src: "sc_connectors c (sc_srcCur c) = Some ws" "cn_GetBlockCount ws = Inr hs" "hs < 500000000"
      "sc_confs c (sc_srcCur c) = Some cs" "Admit (Some cs) = Inr ()" "cc_BlockTime cs < 2 ^ 32"
    and dst: "sc_connectors c (sc_dstCur c) = Some wd" "cn_GetBlockCount wd = Inr ht" "ht < 500000000"
      "sc_confs c (sc_dstCur c) = Some cd" "Admit (Some cd) = Inr ()" "cc_BlockTime cd < 2 ^ 32"
  shows "(uint (do_lockTime (cb_out out)) - hs) * cc_BlockTime cs + 1200
    \<le> (uint (sc_theirLockTime c) - ht) * cc_BlockTime cd"
proof -
  let ?exp = "computeLockTimeFor c (sc_dstCur c) True"
  obtain dc :: DepositCheck where e: "?exp \<noteq> 0" and drift: "acceptableLockTimeDrift ?exp (sc_theirLockTime c) (blockTimeFor c (sc_dstCur c))"
    and b: "buildDeposit rip L now (c\<lparr>sc_theirDepositVout := dc_DepositVout dc, sc_theirP2SHNative := dc_P2SHNative dc,
        sc_theirOverpayment := dc_Excess dc\<rparr>) False = Inr (cb_out out)"
    using takerDeposit_inv [OF run] by blast
  note bs = admitted_block_time [OF src(5,6)] and bd = admitted_block_time [OF dst(5,6)]
  have own: "do_lockTime (cb_out out) = computeLockTimeFor c (sc_srcCur c) False" "computeLockTimeFor c (sc_srcCur c) False \<noteq> 0"
    using buildDeposit_lockTime [OF b] computeLockTimeFor_cong [of "c\<lparr>sc_theirDepositVout := dc_DepositVout dc,
      sc_theirP2SHNative := dc_P2SHNative dc, sc_theirOverpayment := dc_Excess dc\<rparr>" c]
    by (simp_all add: computeLockTime_def)
  have pos: "1 \<le> hs" "1 \<le> ht" using own(2) e src(1,2) dst(1,2) by (auto simp: computeLockTimeFor_def split: if_splits)
  have own_blocks: "uint (do_lockTime (cb_out out)) - hs = lock_blocks False (cc_BlockTime cs)"
    unfolding own(1) using computeLockTimeFor_value [OF src(1,2) pos(1) src(3,4)] bs by simp
  have x: "uint ?exp = ht + lock_blocks True (cc_BlockTime cd)"
    using computeLockTimeFor_value [OF dst(1,2) pos(2) dst(3,4)] bd by simp
  have "uint (blockTimeFor c (sc_dstCur c)) = cc_BlockTime cd"
    using bd dst(4,6) by (simp add: blockTimeFor_def uint_word_of_int)
  then have "(uint ?exp - uint (sc_theirLockTime c)) * cc_BlockTime cd \<le> max 900 (4 * cc_BlockTime cd)"
    using drift by (simp add: drift_iff)
  then have "lock_blocks True (cc_BlockTime cd) * cc_BlockTime cd - max 900 (4 * cc_BlockTime cd)
      \<le> (uint (sc_theirLockTime c) - ht) * cc_BlockTime cd"
    unfolding x by (simp add: algebra_simps)
  moreover note taker_lock_seconds [OF bs [THEN conjunct1] bs [THEN conjunct2]]
    maker_lock_seconds [OF bd [THEN conjunct1] bd [THEN conjunct2]]
  ultimately show ?thesis unfolding own_blocks by linarith
qed

theorem taker_lock_before_maker_witness:
  "\<exists>out. takerDepositBuildTask demo_rip demo_der 0 (demo_ctx [] False) = Inr out
    \<and> (uint (do_lockTime (cb_out out)) - 1000) * 600 + 1200 \<le> (uint (1010 :: u32) - 1000) * 600"
proof -
  let ?c = "demo_ctx [] False"
  have c: "sc_dstCur ?c = ''BTC''" "sc_srcCur ?c = ''BTC''" "sc_theirLockTime ?c = 1010"
    "sc_connectors ?c ''BTC'' = Some (demo_wallet [])" "cn_GetBlockCount (demo_wallet []) = Inr 1000"
    "sc_confs ?c ''BTC'' = Some sample_coin" "cc_BlockTime sample_coin = 600"
    by (simp_all add: demo_ctx_def demo_wallet_def sample_coin_def)
  have ad: "Admit (Some sample_coin) = Inr ()"
    by (simp add: Admit_def sample_coin_def lock_consts int64_def supportedCreateTxMethods_def Let_def)
  obtain out where out: "takerDepositBuildTask demo_rip demo_der 0 ?c = Inr out"
    using demo_task by blast
  from taker_lock_before_maker [OF out, of "demo_wallet []" 1000 sample_coin "demo_wallet []" 1000 sample_coin]
  show ?thesis using out ad by (auto simp: c)
qed



text \<open>
  C8: the refund that is signed together with a deposit spends it. When a deposit is built, the
  stored refund decodes to a transaction whose only input is output 0 of the signed deposit, with
  a sequence number that enables the time lock and the deposit's own lock time; it pays the
  nominal amount to our source address, and its input script satisfies the contract of the
  deposit's first output under the coin's own signature check.
\<close>

theorem refund_spends_deposit:
  assumes "buildDeposit rip L now c isMaker = Inr out" and k: "keys_ok L c"
  shows "\<exists>coin spec dtx tx inner dest h. sc_coinsMap c (sc_srcCur c) = Some coin
    \<and> spec = deposit_spec c coin isMaker (do_lockTime out) \<and> RedeemScript rip spec = Inr inner
    \<and> to_ScriptPubKey (tx_Outputs dtx ! 0) = BuildP2SHScript (KeyID rip inner)
    \<and> (\<exists>prevs. cn_SignRawTransaction (do_conn out) (hex_EncodeToString (Tx_Serialize dtx)) prevs = Inr (do_depositHex out, True))
    \<and> txIDFromHex (do_depositHex out) = Inr (do_txid out) \<and> reverseTxidHex (do_txid out) = Inr h
    \<and> (\<exists>raw. hex_DecodeString (do_refundHex out) = Some raw \<and> DeserializeWithTime raw (tx_WithTime tx) = Inr tx)
    \<and> map ti_PrevOut (tx_Inputs tx) = [\<lparr>op_Hash = h, op_Index = ownDepositVout\<rparr>]
    \<and> tx_LockTime tx = do_lockTime out \<and> do_lockTime out \<noteq> 0
    \<and> destScript c (sc_srcCur c) (sc_ourSourceAddr c) = Inr dest
    \<and> tx_Outputs tx = [\<lparr>to_Value = ds_Amount spec, to_ScriptPubKey = dest\<rparr>]
    \<and> spend_p2sh (tx_env rip L tx inner (to_Value (tx_Outputs dtx ! 0)) coin) (ti_ScriptSig (tx_Inputs tx ! 0)) (KeyID rip inner)"
proof -
  let ?cur = "sc_srcCur c"
  obtain conn coin dtx prevs cc ch where lt: "do_lockTime out \<noteq> 0" and co: "sc_coinsMap c ?cur = Some coin"
    and dtx: "BuildDepositTx rip now (deposit_spec c coin isMaker (do_lockTime out)) coin (sc_funding c) ch
        (estimateFee (Some cc) (length (sc_funding c)) 3) (estimateFee (Some cc) 1 1) (depositDustLimit (Some cc)) = Inr dtx"
    and sg: "cn_SignRawTransaction conn (hex_EncodeToString (Tx_Serialize dtx)) prevs = Inr (do_depositHex out, True)"
    and id: "txIDFromHex (do_depositHex out) = Inr (do_txid out)" and cn: "do_conn out = conn"
    and rf: "buildRefundTx rip L now (c\<lparr>sc_ourDepositP2SH := to_Value (tx_Outputs dtx ! 0), sc_ourDepositTxID := do_txid out,
        sc_ourLockTime := do_lockTime out\<rparr>) (deposit_spec c coin isMaker (do_lockTime out)) ?cur = Inr (do_refundHex out)"
    using buildDeposit_inv [OF assms(1)] by blast
  define c' where "c' = c\<lparr>sc_ourDepositP2SH := to_Value (tx_Outputs dtx ! 0), sc_ourDepositTxID := do_txid out,
    sc_ourLockTime := do_lockTime out\<rparr>"
  define spec where "spec = deposit_spec c coin isMaker (do_lockTime out)"
  have sp: "ds_DepositorPub spec = sc_pubKey c" "length (ds_Hash spec) = 20" "ds_LockTime spec = do_lockTime out"
    using k by (auto simp: spec_def deposit_spec_def keys_ok_def Let_def)
  have c': "sc_confs c' = sc_confs c" "sc_coinsMap c' = sc_coinsMap c" "sc_pubKey c' = sc_pubKey c" "sc_privKey c' = sc_privKey c"
      "sc_ourSourceAddr c' = sc_ourSourceAddr c" "sc_ourDepositTxID c' = do_txid out" "keys_ok L c' = keys_ok L c"
    by (simp_all add: c'_def keys_ok_def)
  note cg = ctx_readers_cong [OF c'(1,2)]
  obtain dest h inner sig where d: "destScript c ?cur (sc_ourSourceAddr c) = Inr dest" and h: "reverseTxidHex (do_txid out) = Inr h"
    and i: "RedeemScript rip spec = Inr inner"
    and s: "SignTxInputForCoin L (stamp_time c ?cur now (single_tx (txVersion c ?cur) (ds_LockTime spec) h 0 0xfffffffe (ds_Amount spec) dest))
        0 inner (to_Value (tx_Outputs dtx ! 0)) (sc_privKey c) coin = Inr sig"
    and r: "do_refundHex out = hex_EncodeToString (Tx_Serialize (spend_tx c ?cur now (txVersion c ?cur) (ds_LockTime spec) h 0
        0xfffffffe (ds_Amount spec) dest (BuildRefundScriptSig sig (sc_pubKey c) inner)))"
    using buildRefundTx_inv [OF rf [folded c'_def spec_def]] co unfolding cg c' sp(1) by (auto simp: c'_def)
  define tx where "tx = spend_tx c ?cur now (txVersion c ?cur) (ds_LockTime spec) h 0 0xfffffffe (ds_Amount spec) dest
    (BuildRefundScriptSig sig (sc_pubKey c) inner)"
  have ok: "length (sc_pubKey c) = 33" "length h = 32" "length sig \<le> 73"
    using k h signature_length [OF s] by (auto simp: keys_ok_def reverseTxidHex_ok)
  have "DeserializeWithTime (Tx_Serialize tx) (tx_WithTime tx) = Inr tx"
    unfolding tx_def spend_tx_fields
    by (rule spend_tx_decodes [OF ok(2) length_sigs(1) [OF ok(3,1) length_inner [OF i sp(2)]] destScript_length [OF d] refl])
      (rule length_replicate)
  moreover have "to_ScriptPubKey (tx_Outputs dtx ! 0) = BuildP2SHScript (KeyID rip inner)"
    using deposit_output [OF dtx [folded spec_def]] i by (simp add: P2SHScript_def)
  ultimately show ?thesis
    using refund_sig_spends [OF k sp(1,2) i s tx_def] lt co sg id cn h d i r sp(3)
    by (intro exI [of _ coin] exI [of _ spec] exI [of _ dtx] exI [of _ tx] exI [of _ inner] exI [of _ dest] exI [of _ h])
      (auto simp: spec_def tx_def spend_tx_fields ownDepositVout_def)
qed

theorem refund_spends_deposit_witness:
  "\<exists>out tx inner a. buildDeposit demo_rip demo_der 0 (demo_ctx [] True) True = Inr out \<and> tx_LockTime tx = do_lockTime out
    \<and> spend_p2sh (tx_env demo_rip demo_der tx inner a sample) (ti_ScriptSig (tx_Inputs tx ! 0)) (KeyID demo_rip inner)"
proof -
  obtain out where out: "buildDeposit demo_rip demo_der 0 (demo_ctx [] True) True = Inr out" using demo_builds by blast
  moreover have "sc_coinsMap (demo_ctx [] True) (sc_srcCur (demo_ctx [] True)) = Some sample" by (simp add: demo_ctx_def)
  ultimately show ?thesis using refund_spends_deposit [OF out demo_keys] by auto
qed


text \<open>
  C9: a claim spends the counterparty's deposit and pays all of it but the fee. Whatever the
  worker returns is a transaction whose only input is the validated deposit output, whose input
  script satisfies the counterparty's contract when the secret matches its hash, and which pays
  our destination address the larger of the order amount and the deposit's value less the fee.
\<close>

theorem claim_spends_deposit:
  assumes r: "redeemCounterparty rip L now c = Inr (payHex, cur)" and k: "keys_ok L c"
    and coin: "sc_coinsMap c (sc_dstCur c) = Some coin"
    and x: "length (sc_secret c) = 33" "KeyID rip (sc_secret c) = SecretHash rip (their_spec c coin)"
    and small: "unat (ds_Amount (their_spec c coin)) + unat (estimateFee (sc_confs c cur) 1 1) < 2 ^ 64"
  shows "\<exists>tx inner dest h v. cur = sc_dstCur c \<and> RedeemScript rip (their_spec c coin) = Inr inner
    \<and> (\<exists>raw. hex_DecodeString payHex = Some raw \<and> DeserializeWithTime raw (tx_WithTime tx) = Inr tx)
    \<and> reverseTxidHex (sc_theirDepositTxID c) = Inr h
    \<and> map ti_PrevOut (tx_Inputs tx) = [\<lparr>op_Hash = h, op_Index = sc_theirDepositVout c\<rparr>]
    \<and> destScript c cur (sc_ourDestAddr c) = Inr dest \<and> tx_Outputs tx = [\<lparr>to_Value = v, to_ScriptPubKey = dest\<rparr>]
    \<and> unat v = max (unat (ds_Amount (their_spec c coin))) (unat (sc_theirP2SHNative c) - unat (estimateFee (sc_confs c cur) 1 1))
    \<and> spend_p2sh (tx_env rip L tx inner (sc_theirP2SHNative c) coin) (ti_ScriptSig (tx_Inputs tx ! 0)) (KeyID rip inner)"
proof -
  let ?spec = "their_spec c coin" and ?fee = "estimateFee (sc_confs c cur) 1 1"
  obtain dest h inner sig payout where cur: "cur = sc_dstCur c" and d: "destScript c cur (sc_ourDestAddr c) = Inr dest"
    and fee: "?fee < sc_theirP2SHNative c" and h: "reverseTxidHex (sc_theirDepositTxID c) = Inr h"
    and i: "RedeemScript rip ?spec = Inr inner"
    and po: "payout = (if sc_theirP2SHNative c > ds_Amount ?spec + ?fee then sc_theirP2SHNative c - ?fee else ds_Amount ?spec)"
    and s: "SignTxInputForCoin L (stamp_time c cur now (single_tx (txVersion c cur) 0 h (sc_theirDepositVout c) 0xffffffff payout dest))
        0 inner (sc_theirP2SHNative c) (sc_privKey c) coin = Inr sig"
    and p: "payHex = hex_EncodeToString (Tx_Serialize (spend_tx c cur now (txVersion c cur) 0 h (sc_theirDepositVout c) 0xffffffff
            payout dest (BuildPaymentScriptSig (sc_secret c) sig (sc_pubKey c) inner)))"
    using redeem_inv [OF r coin] by blast
  define tx where "tx = spend_tx c cur now (txVersion c cur) 0 h (sc_theirDepositVout c) 0xffffffff payout dest
    (BuildPaymentScriptSig (sc_secret c) sig (sc_pubKey c) inner)"
  have sp: "ds_CounterpartyPub ?spec = sc_pubKey c" "length (ds_Hash ?spec) = 20"
    using k by (auto simp: their_spec_def keys_ok_def)
  have ok: "length (sc_pubKey c) = 33" "length h = 32" "length sig \<le> 73"
    using k h signature_length [OF s] by (auto simp: keys_ok_def reverseTxidHex_ok)
  have "DeserializeWithTime (Tx_Serialize tx) (tx_WithTime tx) = Inr tx"
    unfolding tx_def spend_tx_fields
    by (rule spend_tx_decodes [OF ok(2) length_sigs(2) [OF ok(3,1) length_inner [OF i sp(2)] x(1)] destScript_length [OF d] refl])
  then show ?thesis
    using claim_sig_spends [OF k sp i s tx_def x] payout_value [OF fee small] cur h d i p
    by (intro exI [of _ tx] exI [of _ inner] exI [of _ dest] exI [of _ h] exI [of _ payout]) (auto simp: tx_def spend_tx_fields po)
qed

theorem claim_spends_deposit_witness:
  "\<exists>payHex tx v dest. redeemCounterparty demo_rip demo_der 0 (demo_ctx [] True) = Inr (payHex, ''BTC'')
    \<and> tx_Outputs tx = [\<lparr>to_Value = v, to_ScriptPubKey = dest\<rparr>] \<and> unat v = 100000
    \<and> (\<exists>raw. hex_DecodeString payHex = Some raw \<and> DeserializeWithTime raw (tx_WithTime tx) = Inr tx)"
proof -
  let ?c = "demo_ctx [] True"
  obtain p where p: "redeemCounterparty demo_rip demo_der 0 ?c = Inr (p, ''BTC'')" using demo_redeem by blast
  have c: "sc_coinsMap ?c (sc_dstCur ?c) = Some sample" "length (sc_secret ?c) = 33"
    "ds_Amount (their_spec ?c sample) = 100000" "estimateFee (sc_confs ?c ''BTC'') 1 1 = 4520" "sc_theirP2SHNative ?c = 104520"
    by (simp_all add: demo_ctx_def their_spec_def demo_amount demo_fees del: One_nat_def)
  have "unat (100000 :: u64) + unat (4520 :: u64) < 2 ^ 64" by simp
  note claim_spends_deposit [OF p demo_keys c(1,2) demo_secret, unfolded c(3-5), OF this]
  then obtain tx dest v where "tx_Outputs tx = [\<lparr>to_Value = v, to_ScriptPubKey = dest\<rparr>]"
    "unat v = max (unat (100000 :: u64)) (unat (104520 :: u64) - unat (4520 :: u64))"
    "\<exists>raw. hex_DecodeString p = Some raw \<and> DeserializeWithTime raw (tx_WithTime tx) = Inr tx"
    by blast
  with p show ?thesis by auto
qed


text \<open>
  C10: the maker's claim gives the taker what it needs. When the maker's worker built a claim of
  the taker's deposit, the taker's worker, given that transaction by its wallet, recovers exactly
  the maker's secret from it, and goes on to a claim of its own with that secret whenever its
  wallets allow one.
\<close>

theorem secret_reaches_taker:
  assumes m: "redeemCounterparty rip L now cm = Inr (payHex, cur)" and k: "keys_ok L cm"
    and coin: "sc_coinsMap cm (sc_dstCur cm) = Some coin"
    and x: "length (sc_secret cm) = 33" "KeyID rip (sc_secret cm) = sc_theirSecretHash ct"
    and w: "sc_connectors ct (sc_srcCur ct) = Some wal" "cn_GetRawTransaction wal payID = Inr payHex"
    and dep: "sc_ourDepositTxID ct = sc_theirDepositTxID cm" "sc_theirDepositVout cm = ownDepositVout"
    and conf: "sc_confs ct (sc_srcCur ct) = sc_confs cm (sc_dstCur cm)"
    and t: "redeemCounterparty rip L' now' (ct\<lparr>sc_secret := sc_secret cm\<rparr>) = Inr (payHex', cur')"
      "sc_connectors ct cur' = Some wal'"
  shows "\<exists>out. takerClaimBuildTask rip L' now' ct payID = Inr out \<and> co_secret out = sc_secret cm
    \<and> co_payHex out = payHex' \<and> co_cur out = cur' \<and> txIDFromHex payHex' = Inr (co_payTxID out)"
proof -
  obtain dest h inner sig payout where cur: "cur = sc_dstCur cm" and d: "destScript cm cur (sc_ourDestAddr cm) = Inr dest"
    and h: "reverseTxidHex (sc_theirDepositTxID cm) = Inr h" and i: "RedeemScript rip (their_spec cm coin) = Inr inner"
    and s: "SignTxInputForCoin L (stamp_time cm cur now (single_tx (txVersion cm cur) 0 h (sc_theirDepositVout cm) 0xffffffff payout dest))
        0 inner (sc_theirP2SHNative cm) (sc_privKey cm) coin = Inr sig"
    and p: "payHex = hex_EncodeToString (Tx_Serialize (spend_tx cm cur now (txVersion cm cur) 0 h (sc_theirDepositVout cm) 0xffffffff
            payout dest (BuildPaymentScriptSig (sc_secret cm) sig (sc_pubKey cm) inner)))"
    using redeem_inv [OF m coin] by blast
  let ?time = "case sc_confs ct (sc_srcCur ct) of None \<Rightarrow> False | Some cc \<Rightarrow> cc_TxWithTimeField cc"
  have sp: "length (ds_Hash (their_spec cm coin)) = 20" using k by (auto simp: their_spec_def keys_ok_def)
  have ok: "length (sc_pubKey cm) = 33" "length h = 32" "length sig \<le> 73"
    using k h signature_length [OF s] by (auto simp: keys_ok_def reverseTxidHex_ok)
  have time: "?time = (case sc_confs cm cur of None \<Rightarrow> False | Some cc \<Rightarrow> cc_TxWithTimeField cc)" by (simp add: conf cur)
  note dec = spend_tx_decodes [OF ok(2) length_sigs(2) [OF ok(3,1) length_inner [OF i sp] x(1)] destScript_length [OF d] time]
  have "secretFromPayTx rip payHex (sc_theirSecretHash ct) ?time (sc_ourDepositTxID ct) ownDepositVout = Inr (Some (sc_secret cm))"
    using h secret_in_payment [OF x]
    by (simp add: secretFromPayTx_def p dec spend_tx_fields dep)
  then show ?thesis
    using w t by (simp add: takerClaimBuildTask_def Let_def ctx_connector_def txIDFromHex_def split: option.splits)
      (auto simp: redeemCounterparty_def Let_def split: option.splits if_splits)
qed

theorem secret_reaches_taker_witness:
  "\<exists>pay out. redeemCounterparty demo_rip demo_der 0 (demo_ctx [] True) = Inr (pay, ''BTC'')
    \<and> takerClaimBuildTask demo_rip demo_der 0 ((demo_ctx pay False)\<lparr>sc_secret := replicate 33 0\<rparr>) ''id'' = Inr out
    \<and> co_secret out = replicate 33 5"
proof -
  let ?m = "demo_ctx [] True"
  obtain pay where pay: "redeemCounterparty demo_rip demo_der 0 ?m = Inr (pay, ''BTC'')" using demo_redeem by blast
  let ?t = "(demo_ctx pay False)\<lparr>sc_secret := replicate 33 0\<rparr>"
  obtain p2 where p2: "redeemCounterparty demo_rip demo_der 0 (demo_ctx pay False) = Inr (p2, ''BTC'')" using demo_redeem by blast
  moreover have "?t\<lparr>sc_secret := sc_secret ?m\<rparr> = demo_ctx pay False" by (simp add: demo_ctx_def)
  ultimately have t: "redeemCounterparty demo_rip demo_der 0 (?t\<lparr>sc_secret := sc_secret ?m\<rparr>) = Inr (p2, ''BTC'')" by simp
  have c: "sc_coinsMap ?m (sc_dstCur ?m) = Some sample" "length (sc_secret ?m) = 33"
    "KeyID demo_rip (sc_secret ?m) = sc_theirSecretHash ?t" "sc_connectors ?t (sc_srcCur ?t) = Some (demo_wallet pay)"
    "cn_GetRawTransaction (demo_wallet pay) ''id'' = Inr pay" "sc_ourDepositTxID ?t = sc_theirDepositTxID ?m"
    "sc_theirDepositVout ?m = ownDepositVout" "sc_confs ?t (sc_srcCur ?t) = sc_confs ?m (sc_dstCur ?m)"
    "sc_connectors ?t ''BTC'' = Some (demo_wallet pay)" "sc_secret ?m = replicate 33 5"
    by (simp_all add: demo_ctx_def demo_wallet_def ownDepositVout_def KeyID_def)
  show ?thesis using secret_reaches_taker [OF pay demo_keys c(1-8) t c(9)] pay c(10) by auto
qed


end
