(* ===== verification/SwapNode.thy ===== *)
theory SwapNode
  imports SwapTx Store
begin

text \<open>
  The state of a started node as far as swaps are concerned: the sessions of \<^verbatim>\<open>api/swap.go\<close>, the
  order store, the queue of tasks for the worker goroutines, the table of broadcasts and the
  saved file, with the small operations that the packet handlers and sweeps are made of.

  A session is an object that a queued task keeps a pointer to while the session table may drop
  or replace it, so sessions live in a heap and the table maps an order key to an address. The
  branches the code takes when the engine is not running (the inline mode of its tests) are left
  out: the engine runs, work goes through the task queue. Logging and the transcript are left
  out. One call of a handler sees one clock value.
\<close>

section \<open>The client state\<close>

datatype clientState = csIdle | csMaker | csTaker | csHoldApplied | csInitialized | csCreatedA | csCreatedB
  | csConfirmedA | csConfirmedB | csFinished

primrec cs_ord :: "clientState \<Rightarrow> nat" where
  "cs_ord csIdle = 0" | "cs_ord csMaker = 1" | "cs_ord csTaker = 2" | "cs_ord csHoldApplied = 3"
| "cs_ord csInitialized = 4" | "cs_ord csCreatedA = 5" | "cs_ord csCreatedB = 6" | "cs_ord csConfirmedA = 7"
| "cs_ord csConfirmedB = 8" | "cs_ord csFinished = 9"

lemma cs_ord_inj: "cs_ord a = cs_ord b \<Longrightarrow> a = b"
  by (cases a; cases b) simp_all

instantiation clientState :: linorder
begin

definition less_eq_clientState :: "clientState \<Rightarrow> clientState \<Rightarrow> bool" where
  "less_eq_clientState a b \<longleftrightarrow> cs_ord a \<le> cs_ord b"

definition less_clientState :: "clientState \<Rightarrow> clientState \<Rightarrow> bool" where
  "less_clientState a b \<longleftrightarrow> cs_ord a < cs_ord b"

instance
  by standard (auto simp: less_eq_clientState_def less_clientState_def cs_ord_inj)

end

lemmas cs_less = less_eq_clientState_def less_clientState_def

section \<open>Sessions\<close>

record SwapSession =
  ss_isMaker :: bool
  ss_id :: bytes
  ss_srcCur :: string
  ss_dstCur :: string
  ss_srcAmt :: u64
  ss_dstAmt :: u64
  ss_ourSourceAddr :: string
  ss_ourDestAddr :: string
  ss_theirPub :: bytes
  ss_privKey :: bytes
  ss_pubKey :: bytes
  ss_secret :: bytes
  ss_secretHash :: bytes
  ss_ourLockTime :: u32
  ss_ourDepositTxID :: string
  ss_refundHex :: string
  ss_refundDone :: bool
  ss_secretHunt :: bool
  ss_huntSince :: u64
  ss_scanCursor :: u32
  ss_depositHex :: string
  ss_claimHex :: string
  ss_claimTxID :: string
  ss_claimCur :: string
  ss_theirDepositTxID :: string
  ss_theirLockTime :: u32
  ss_theirSecretHash :: bytes
  ss_theirPayTxID :: string
  ss_claimRetryAt :: u64
  ss_claimRetries :: u32
  ss_depositRetryAt :: u64
  ss_depositRetries :: u32
  ss_notReadySince :: u64
  ss_notReadySeen :: bool
  ss_theirDepositVout :: u32
  ss_theirP2SHNative :: u64
  ss_theirOverpayment :: u64
  ss_hub :: bytes
  ss_hubKey :: bytes
  ss_state :: clientState
  ss_await :: bool
  ss_awaitSince :: u64
  ss_vanishMisses :: int
  ss_lastProgress :: u64
  ss_holdApplySentAt :: u64

definition zeroSession :: SwapSession where
  "zeroSession = \<lparr>ss_isMaker = False, ss_id = replicate 32 0, ss_srcCur = [], ss_dstCur = [], ss_srcAmt = 0, ss_dstAmt = 0,
     ss_ourSourceAddr = [], ss_ourDestAddr = [], ss_theirPub = replicate 33 0, ss_privKey = replicate 32 0,
     ss_pubKey = replicate 33 0, ss_secret = replicate 33 0, ss_secretHash = replicate 20 0, ss_ourLockTime = 0,
     ss_ourDepositTxID = [], ss_refundHex = [], ss_refundDone = False, ss_secretHunt = False, ss_huntSince = 0,
     ss_scanCursor = 0, ss_depositHex = [], ss_claimHex = [], ss_claimTxID = [], ss_claimCur = [], ss_theirDepositTxID = [],
     ss_theirLockTime = 0, ss_theirSecretHash = replicate 20 0, ss_theirPayTxID = [], ss_claimRetryAt = 0,
     ss_claimRetries = 0, ss_depositRetryAt = 0, ss_depositRetries = 0, ss_notReadySince = 0, ss_notReadySeen = False,
     ss_theirDepositVout = 0, ss_theirP2SHNative = 0, ss_theirOverpayment = 0, ss_hub = replicate 20 0,
     ss_hubKey = replicate 33 0, ss_state = csIdle, ss_await = False, ss_awaitSince = 0, ss_vanishMisses = 0,
     ss_lastProgress = 0, ss_holdApplySentAt = 0\<rparr>"

definition sessionKey :: "SwapSession \<Rightarrow> string" where
  "sessionKey s = hexEncode (ss_id s)"

section \<open>Tasks\<close>

datatype broadcastKind = broadcastDeposit | broadcastClaim | broadcastRefund | broadcastPrep | broadcastSplit

record trackedBroadcast =
  tb_OrderID :: string
  tb_Kind :: broadcastKind
  tb_Coin :: string
  tb_TxID :: string
  tb_Hex :: string
  tb_Seq :: u64
  tb_Confs :: int
  tb_FirstSeenMicro :: u64
  tb_Attempts :: int

text \<open>
  What a broadcast hands its result to, and who waits for a refund: nobody (a sweep), the caller
  of \<^verbatim>\<open>BroadcastRefund\<close>, or the rest of the chain of candidate coins of a stored refund.
\<close>

datatype bcont = ContA nat depositOutcome | ContB nat createdBOutcome | ContClaimA nat confirmOutcome
  | ContClaimB nat confirmOutcome

datatype refund_done = NoDone | Manual | Chain "string list" bool

record refundOutcome =
  ro_txid :: string
  ro_depositSpent :: bool
  ro_sendErr :: "task_err option"

record own_query =
  oq_conn :: "Connector option"
  oq_depTxID :: string
  oq_hunt :: bool
  oq_cursor :: u32
  oq_hx :: bytes
  oq_hasTime :: bool
  oq_blockTime :: int
  oq_excludeTxID :: string
  oq_rescanDue :: bool
  oq_seen :: "string set"

datatype workTask =
    BuildA nat swapCtx
  | BuildB nat swapCtx
  | ClaimA nat swapCtx
  | ClaimB nat swapCtx string
  | Broadcast string "Connector option" string string broadcastKind bcont
  | Refund string "Connector option" string string u32 bool string u32 bool refund_done
  | WatchDeposit string "Connector option" string string u32 bool int "Connector option" string
  | OwnWatch nat string own_query
  | PollConfs "(string \<times> Connector) list"
  | Rebroadcast "(string \<times> Connector \<times> string) list"
  | VerifyOrder Connector Coin Order

section \<open>The node\<close>

record TakeOrderParams =
  tp_ID :: string
  tp_FromAddress :: string
  tp_ToAddress :: string
  tp_Amount :: string
  tp_DryRun :: bool

record takeRetryState =
  tr_params :: TakeOrderParams
  tr_attempts :: int

text \<open>A parked timer: the order, the parameters of the take, the attempt, and the delay in seconds.\<close>

type_synonym take_timer = "string \<times> TakeOrderParams \<times> int \<times> nat"

text \<open>The saved file holds the sessions by key and the orders.\<close>

type_synonym saved = "(string \<rightharpoonup> SwapSession) \<times> (string \<times> Order) list"

record Node =
  n_heap :: "nat \<Rightarrow> SwapSession"
  n_next :: nat
  n_sessions :: "string \<rightharpoonup> nat"
  n_store :: Store
  n_tasks :: "workTask list"
  n_tracked :: "string \<rightharpoonup> trackedBroadcast"
  n_trackedSeq :: u64
  n_pendingConfirm :: bool
  n_pendingRebroadcast :: bool
  n_pendingRefunds :: "string set"
  n_refundAttempts :: "string \<rightharpoonup> nat"
  n_refundRetryAt :: "string \<rightharpoonup> u64"
  n_pendingWatch :: "string set"
  n_pendingOwnWatch :: "string set"
  n_ownWatchSeen :: "string \<rightharpoonup> string set"
  n_rescanAttempts :: "string \<rightharpoonup> nat"
  n_rescanRetryAt :: "string \<rightharpoonup> u64"
  n_stallWarned :: "string \<rightharpoonup> u64"
  n_silentHubs :: "bytes \<rightharpoonup> u64"
  n_takeRetries :: "string \<rightharpoonup> takeRetryState"
  n_timers :: "take_timer list"
  n_persistLatest :: "saved option"
  n_disk :: "saved option"
  n_persistFailures :: nat
  n_packets :: "(bytes \<times> XBridgeCommand \<times> bytes) list"
  n_manual :: "(string \<times> task_err option) list"

text \<open>
  What a step sees of its surroundings: the clock, the configuration, the coin registry, the
  packet signer, the peer connection, the service-node registry, and the outcome of disk writes.
  \<open>n_packets\<close> and \<open>n_manual\<close> record what left the node; they are not read.
\<close>

record 'k Env =
  e_now :: u64
  e_unix :: int
  e_secp :: "'k secp"
  e_version :: u32
  e_connectors :: "string \<rightharpoonup> Connector"
  e_confs :: "string \<rightharpoonup> CoinConf"
  e_coins :: registry
  e_dataDir :: bool
  e_diskErr :: bool
  e_connected :: bool
  e_writeErr :: bool
  e_known :: "bytes \<Rightarrow> bool"
  e_exchangeStarted :: bool
  e_queueCap :: nat
  e_startedAt :: u64
  e_takeRetry :: int

text \<open>Access to a session object through its address, and to the store.\<close>

definition upd :: "nat \<Rightarrow> (SwapSession \<Rightarrow> SwapSession) \<Rightarrow> Node \<Rightarrow> Node" where
  "upd p f n = n\<lparr>n_heap := (n_heap n)(p := f (n_heap n p))\<rparr>"

definition live :: "Node \<Rightarrow> string \<Rightarrow> SwapSession option" where
  "live n key = map_option (n_heap n) (n_sessions n key)"

definition upd_order :: "string \<Rightarrow> (Order \<Rightarrow> Order) \<Rightarrow> Node \<Rightarrow> Node" where
  "upd_order key f n = n\<lparr>n_store := fst (Update (n_store n) key f)\<rparr>"

definition session_order :: "Node \<Rightarrow> SwapSession \<Rightarrow> Order option" where
  "session_order n s = Store_Get (n_store n) (sessionKey s)"

definition setOrderStatus :: "'k Env \<Rightarrow> nat \<Rightarrow> string \<Rightarrow> Node \<Rightarrow> Node" where
  "setOrderStatus e p status n = upd_order (sessionKey (n_heap n p)) (\<lambda>ord. ord\<lparr>o_Status := status, o_Updated := e_now e\<rparr>) n"

section \<open>Saving and sending\<close>

definition snapshotSwaps :: "Node \<Rightarrow> saved" where
  "snapshotSwaps n = (live n, s_orders (n_store n))"

definition persistNow :: "'k Env \<Rightarrow> Node \<Rightarrow> Node \<times> bool" where
  "persistNow e n = (if \<not> e_dataDir e then (n, True)
     else let n = n\<lparr>n_persistLatest := None\<rparr> in
       if e_diskErr e then (n\<lparr>n_persistFailures := n_persistFailures n + 1\<rparr>, False)
       else (n\<lparr>n_disk := Some (snapshotSwaps n)\<rparr>, True))"

definition persist :: "'k Env \<Rightarrow> Node \<Rightarrow> Node" where
  "persist e n = (if \<not> e_dataDir e then n else n\<lparr>n_persistLatest := Some (snapshotSwaps n)\<rparr>)"

definition send :: "'k Env \<Rightarrow> bytes \<Rightarrow> XBridgeCommand \<Rightarrow> bytes \<Rightarrow> bytes \<Rightarrow> Node \<Rightarrow> Node \<times> bool" where
  "send e dest cmd body priv n = (
     if \<not> e_connected e then (n, False)
     else if length priv \<noteq> 32 then (n, False)
     else case Signer_Sign (e_secp e) (NewPacket (e_version e) (e_unix e) cmd body) priv of
         Inl _ \<Rightarrow> (n, False)
       | Inr pkt \<Rightarrow> let (n, ok) = persistNow e n in
           if \<not> ok then (n, False)
           else if e_writeErr e then (n, False)
           else (n\<lparr>n_packets := n_packets n @ [(dest, cmd, body)]\<rparr>, True))"

definition recordBroadcast :: "'k Env \<Rightarrow> string \<Rightarrow> broadcastKind \<Rightarrow> string \<Rightarrow> string \<Rightarrow> string \<Rightarrow> Node \<Rightarrow> Node" where
  "recordBroadcast e orderID kind coin txid hexStr n = (
     if txid = [] then n
     else if n_tracked n txid \<noteq> None then n
     else n\<lparr>n_trackedSeq := n_trackedSeq n + 1, n_tracked := (n_tracked n)(txid \<mapsto> \<lparr>tb_OrderID = orderID, tb_Kind = kind,
         tb_Coin = coin, tb_TxID = txid, tb_Hex = hexStr, tb_Seq = n_trackedSeq n + 1, tb_Confs = 0,
         tb_FirstSeenMicro = e_now e, tb_Attempts = 0\<rparr>)\<rparr>)"

text \<open>Queueing a task: a full queue drops it.\<close>

definition enqueue :: "'k Env \<Rightarrow> workTask \<Rightarrow> Node \<Rightarrow> Node \<times> bool" where
  "enqueue e t n = (if length (n_tasks n) < e_queueCap e then (n\<lparr>n_tasks := n_tasks n @ [t]\<rparr>, True) else (n, False))"

section \<open>The await guard and the retry schedules\<close>

definition holdAwait :: "'k Env \<Rightarrow> nat \<Rightarrow> Node \<Rightarrow> Node" where
  "holdAwait e p = upd p (\<lambda>s. s\<lparr>ss_await := True, ss_awaitSince := e_now e\<rparr>)"

definition releaseAwait :: "nat \<Rightarrow> Node \<Rightarrow> Node" where
  "releaseAwait p = upd p (\<lambda>s. s\<lparr>ss_await := False, ss_awaitSince := 0\<rparr>)"

definition awaitStuckMicro :: u64 where "awaitStuckMicro = 3 * 60 * 1000000"
definition notReadyPollMicro :: u64 where "notReadyPollMicro = 5 * 1000000"
definition notReadyTaperAfterMicro :: u64 where "notReadyTaperAfterMicro = 60 * 1000000"
definition notReadyTaperPollMicro :: u64 where "notReadyTaperPollMicro = 15 * 1000000"
definition notReadyFastWindowMicro :: u64 where "notReadyFastWindowMicro = 10 * 60 * 1000000"
definition claimRetryBaseMicro :: u64 where "claimRetryBaseMicro = 60 * 1000000"
definition claimRetryCapMicro :: u64 where "claimRetryCapMicro = 15 * 60 * 1000000"
definition broadcastRepostMax :: u32 where "broadcastRepostMax = 10"

definition await_stuck :: "u64 \<Rightarrow> SwapSession \<Rightarrow> bool" where
  "await_stuck now s \<longleftrightarrow> ss_await s \<and> ss_awaitSince s \<noteq> 0 \<and> \<not> now < ss_awaitSince s \<and> now - ss_awaitSince s > awaitStuckMicro"

text \<open>A sweep over the sessions takes the order \<open>keys\<close> in which the table is ranged over.\<close>

definition clear_stuck_one :: "'k Env \<Rightarrow> string \<Rightarrow> Node \<Rightarrow> Node" where
  "clear_stuck_one e orderID n = (case n_sessions n orderID of None \<Rightarrow> n
     | Some p \<Rightarrow> if await_stuck (e_now e) (n_heap n p) then releaseAwait p n else n)"

definition clearStuckAwait :: "'k Env \<Rightarrow> string list \<Rightarrow> Node \<Rightarrow> Node" where
  "clearStuckAwait e keys n = fold (clear_stuck_one e) keys n"

definition retryBackoff :: "u32 \<Rightarrow> u64" where
  "retryBackoff retries = (let shift = (if retries > 3 then 3 else retries);
     d = push_bit (unat shift) claimRetryBaseMicro in if d > claimRetryCapMicro then claimRetryCapMicro else d)"

text \<open>\<^verbatim>\<open>scheduleNotReady\<close>: whether the failure was scheduled as a fast poll.\<close>

definition scheduleNotReady :: "'k Env \<Rightarrow> nat \<Rightarrow> bool \<Rightarrow> task_err \<Rightarrow> Node \<Rightarrow> Node \<times> bool" where
  "scheduleNotReady e p isClaim terr n = (let now = e_now e in
     if \<not> isNotReady terr then (n, False)
     else let n = upd p (\<lambda>s. if ss_notReadySince s > now then s\<lparr>ss_notReadySince := now\<rparr> else s) n;
              s = n_heap n p in
     if ss_notReadySince s \<noteq> 0 \<and> ss_notReadySince s \<le> now \<and> now - ss_notReadySince s \<ge> notReadyFastWindowMicro
     then (n, False)
     else let n = upd p (\<lambda>s. if ss_notReadySince s = 0 then s\<lparr>ss_notReadySince := now\<rparr> else s) n;
              n = upd p (\<lambda>s. s\<lparr>ss_notReadySeen := NotReadySeen terr\<rparr>) n;
              s = n_heap n p;
              poll = (if \<not> ss_notReadySeen s \<and> ss_notReadySince s \<le> now \<and> now - ss_notReadySince s \<ge> notReadyTaperAfterMicro
                then notReadyTaperPollMicro else notReadyPollMicro);
              n = upd p (\<lambda>s. if isClaim then s\<lparr>ss_claimRetryAt := now + poll\<rparr> else s\<lparr>ss_depositRetryAt := now + poll\<rparr>) n;
              n = upd p (\<lambda>s. s\<lparr>ss_lastProgress := now\<rparr>) n
     in (fst (persistNow e n), True))"

definition scheduleClaimRetry :: "'k Env \<Rightarrow> nat \<Rightarrow> Node \<Rightarrow> Node" where
  "scheduleClaimRetry e p n = (let delay = retryBackoff (ss_claimRetries (n_heap n p)) in
     fst (persistNow e (upd p (\<lambda>s. s\<lparr>ss_claimRetries := ss_claimRetries s + 1, ss_claimRetryAt := e_now e + delay,
       ss_lastProgress := e_now e\<rparr>) n)))"

definition scheduleDepositRetry :: "'k Env \<Rightarrow> nat \<Rightarrow> Node \<Rightarrow> Node" where
  "scheduleDepositRetry e p n = (let delay = retryBackoff (ss_depositRetries (n_heap n p)) in
     fst (persistNow e (upd p (\<lambda>s. s\<lparr>ss_depositRetries := ss_depositRetries s + 1, ss_depositRetryAt := e_now e + delay,
       ss_lastProgress := e_now e\<rparr>) n)))"

definition clearClaimRetry :: "nat \<Rightarrow> Node \<Rightarrow> Node" where
  "clearClaimRetry p = upd p (\<lambda>s. s\<lparr>ss_claimRetryAt := 0, ss_claimRetries := 0, ss_notReadySince := 0, ss_notReadySeen := False\<rparr>)"

definition clearDepositRetry :: "nat \<Rightarrow> Node \<Rightarrow> Node" where
  "clearDepositRetry p = upd p (\<lambda>s. s\<lparr>ss_depositRetryAt := 0, ss_depositRetries := 0, ss_notReadySince := 0, ss_notReadySeen := False\<rparr>)"

end
