(* ===== verification/SwapRefund.thy ===== *)
theory SwapRefund
  imports SwapNode
begin

text \<open>
  Getting out of a swap: the refund task and its failure backoff, the sweeps that send a refund
  once its lock time is reached, the removal of sessions, and cancellation, remote and by
  ourselves (\<^verbatim>\<open>api/swap.go\<close>, \<^verbatim>\<open>api/refund_sweep.go\<close>, \<^verbatim>\<open>api/stall_watch.go\<close>, \<^verbatim>\<open>api/node.go\<close>).
\<close>

section \<open>Which orders have something to refund\<close>

definition orderDepositSent :: "Node \<Rightarrow> string \<Rightarrow> bool" where
  "orderDepositSent n orderID = (case Store_Get (n_store n) orderID of None \<Rightarrow> False | Some ord \<Rightarrow> o_DepositSent ord)"

definition rollbackGate :: "Node \<Rightarrow> string \<Rightarrow> bool" where
  "rollbackGate n orderID = (case live n orderID of
       Some s \<Rightarrow> ss_state s \<ge> csCreatedA \<or> orderDepositSent n orderID
     | None \<Rightarrow> (case Store_Get (n_store n) orderID of None \<Rightarrow> False
         | Some ord \<Rightarrow> o_RefundTx ord \<noteq> [] \<and> o_DepositSent ord))"

definition sessionIsTerminal :: "Node \<Rightarrow> string \<Rightarrow> SwapSession \<Rightarrow> bool" where
  "sessionIsTerminal n orderID s = (
     if ss_state s = csFinished then True
     else if ss_refundHex s \<noteq> [] \<and> \<not> ss_refundDone s \<and> (ss_state s \<ge> csCreatedA \<or> orderDepositSent n orderID) then False
     else if ss_await s then False
     else case Store_Get (n_store n) orderID of None \<Rightarrow> True
       | Some ord \<Rightarrow> isOrderTerminal (o_Status ord) \<or> ss_refundDone s)"

definition pruned :: "Node \<Rightarrow> string \<Rightarrow> bool" where
  "pruned n k = (case live n k of None \<Rightarrow> False | Some s \<Rightarrow> sessionIsTerminal n k s)"

definition drop_keys :: "(string \<Rightarrow> bool) \<Rightarrow> (string \<rightharpoonup> 'a) \<Rightarrow> (string \<rightharpoonup> 'a)" where
  "drop_keys dead m = (\<lambda>k. if dead k then None else m k)"

text \<open>The loop deletes entries only, so whether one is terminal does not depend on the others.\<close>

definition pruneSessions :: "Node \<Rightarrow> Node" where
  "pruneSessions n = (let dead = pruned n in
     n\<lparr>n_pendingRefunds := {k \<in> n_pendingRefunds n. \<not> dead k}, n_refundAttempts := drop_keys dead (n_refundAttempts n),
       n_refundRetryAt := drop_keys dead (n_refundRetryAt n), n_rescanAttempts := drop_keys dead (n_rescanAttempts n),
       n_rescanRetryAt := drop_keys dead (n_rescanRetryAt n),
       n_pendingWatch := {k \<in> n_pendingWatch n. \<not> dead k}, n_pendingOwnWatch := {k \<in> n_pendingOwnWatch n. \<not> dead k},
       n_ownWatchSeen := drop_keys dead (n_ownWatchSeen n), n_stallWarned := drop_keys dead (n_stallWarned n),
       n_sessions := drop_keys dead (n_sessions n)\<rparr>)"

section \<open>Failure backoff\<close>

definition refundBackoffBaseMicro :: u64 where "refundBackoffBaseMicro = 10 * 60 * 1000000"
definition refundBackoffCapMicro :: u64 where "refundBackoffCapMicro = 24 * 60 * 60 * 1000000"

definition refundBackoffActive :: "'k Env \<Rightarrow> Node \<Rightarrow> string \<Rightarrow> bool" where
  "refundBackoffActive e n idHex = (case n_refundRetryAt n idHex of None \<Rightarrow> False | Some retryAt \<Rightarrow> e_now e < retryAt)"

text \<open>The doubling loop, from its counter on.\<close>

function backoff_loop :: "nat \<Rightarrow> nat \<Rightarrow> u64 \<Rightarrow> u64" where
  "backoff_loop i a delay = (if i < a \<and> delay < refundBackoffCapMicro then backoff_loop (Suc i) a (delay * 2) else delay)"
  by pat_completeness auto
termination
  by (relation "measure (\<lambda>(i, a, _). a - i)") auto

declare backoff_loop.simps [simp del]

definition refund_delay :: "nat \<Rightarrow> u64" where
  "refund_delay a = (let delay = backoff_loop 1 a refundBackoffBaseMicro
     in if delay > refundBackoffCapMicro then refundBackoffCapMicro else delay)"

definition recordRefundFailure :: "'k Env \<Rightarrow> string \<Rightarrow> Node \<Rightarrow> Node" where
  "recordRefundFailure e idHex n = (let a = (case n_refundAttempts n idHex of None \<Rightarrow> 0 | Some k \<Rightarrow> k) + 1 in
     n\<lparr>n_refundAttempts := (n_refundAttempts n)(idHex \<mapsto> a),
       n_refundRetryAt := (n_refundRetryAt n)(idHex \<mapsto> e_now e + refund_delay a)\<rparr>)"

definition clearRefundBackoff :: "string \<Rightarrow> Node \<Rightarrow> Node" where
  "clearRefundBackoff idHex n = n\<lparr>n_refundAttempts := (n_refundAttempts n)(idHex := None),
     n_refundRetryAt := (n_refundRetryAt n)(idHex := None)\<rparr>"

section \<open>The refund task\<close>

definition probeOwnDeposit :: "Connector option \<Rightarrow> string \<Rightarrow> u32 \<Rightarrow> bool \<times> bool" where
  "probeOwnDeposit conn depTxID depVout = (case conn of None \<Rightarrow> (False, False)
     | Some conn \<Rightarrow> if depTxID = [] then (False, False)
         else (case cn_GetRawTransactionVerbose conn depTxID of Inl _ \<Rightarrow> (False, False)
           | Inr vtx \<Rightarrow> if \<not> vt_HasConfirmations vtx \<or> vt_Confirmations vtx < 0 then (False, False)
               else (case cn_GetTxOut conn depTxID depVout of Inl _ \<Rightarrow> (False, False) | Inr (_, ok) \<Rightarrow> (True, \<not> ok))))"

definition refund_none :: refundOutcome where
  "refund_none = \<lparr>ro_txid = [], ro_depositSpent = False, ro_sendErr = None\<rparr>"

definition errRefundDepositSpent :: task_err where
  "errRefundDepositSpent = TErr ''api: own deposit already spent, hunting secret instead of refunding''"

definition runRefundTask :: "Connector option \<Rightarrow> string \<Rightarrow> string \<Rightarrow> u32 \<Rightarrow> bool \<Rightarrow> string \<Rightarrow> u32 \<Rightarrow> bool \<Rightarrow> refundOutcome task" where
  "runRefundTask conn cur refundHex lockTime checkLock depTxID depVout proveSpend = (case conn of
       None \<Rightarrow> Inl (TErr (''api: no connector for '' @ cur))
     | Some w \<Rightarrow>
       let send_it = (case cn_SendRawTransaction w refundHex of
           Inr txid \<Rightarrow> Inr (refund_none\<lparr>ro_txid := txid\<rparr>)
         | Inl err \<Rightarrow>
             (case txIDFromHex refundHex of
                Inr localID \<Rightarrow> (case cn_GetRawTransaction w localID of
                    Inr _ \<Rightarrow> Inr (refund_none\<lparr>ro_txid := localID\<rparr>)
                  | Inl _ \<Rightarrow> if proveSpend \<and> probeOwnDeposit conn depTxID depVout = (True, True)
                      then Inr (refund_none\<lparr>ro_depositSpent := True, ro_sendErr := Some err\<rparr>) else Inl err)
              | Inl _ \<Rightarrow> if proveSpend \<and> probeOwnDeposit conn depTxID depVout = (True, True)
                  then Inr (refund_none\<lparr>ro_depositSpent := True, ro_sendErr := Some err\<rparr>) else Inl err))
       in if \<not> checkLock then send_it
          else (case cn_GetBlockCount w of Inl _ \<Rightarrow> Inl (TErr (''api: getblockcount '' @ cur))
            | Inr h \<Rightarrow> if h < 1 then Inl (TErr (''api: getblockcount '' @ cur))
                else if (word_of_int h :: u32) < lockTime then Inr refund_none else send_it))"

text \<open>
  Queueing a refund. A full queue calls the waiter with an error, and the waiter of a stored
  refund goes on with the next candidate coin.
\<close>

definition refund_proof :: "Node \<Rightarrow> string \<Rightarrow> string \<times> u32 \<times> bool" where
  "refund_proof n orderID = (
     let from_order = (case Store_Get (n_store n) orderID of None \<Rightarrow> ([], 0, False)
           | Some ord \<Rightarrow> if o_BinTxId ord \<noteq> [] then (o_BinTxId ord, ownDepositVout, rollbackGate n orderID) else ([], 0, False))
     in case live n orderID of None \<Rightarrow> from_order
       | Some s \<Rightarrow> if ss_ourDepositTxID s \<noteq> [] then (ss_ourDepositTxID s, ownDepositVout, rollbackGate n orderID) else from_order)"

definition refund_enqueue :: "'k Env \<Rightarrow> string \<Rightarrow> string \<Rightarrow> string \<Rightarrow> u32 \<Rightarrow> bool \<Rightarrow> refund_done \<Rightarrow> Node \<Rightarrow> Node \<times> bool" where
  "refund_enqueue e orderID cur refundHex lockTime checkLock dn n = (
     let (depTxID, depVout, proveSpend) = refund_proof n orderID;
         (n, ok) = enqueue e (Refund orderID (e_connectors e cur) cur refundHex lockTime checkLock depTxID depVout proveSpend dn) n
     in if ok then (n, True) else (n\<lparr>n_pendingRefunds := n_pendingRefunds n - {orderID}\<rparr>, False))"

fun tryStoredRefund :: "'k Env \<Rightarrow> string \<Rightarrow> string \<Rightarrow> u32 \<Rightarrow> string list \<Rightarrow> bool \<Rightarrow> Node \<Rightarrow> Node" where
  "tryStoredRefund e orderID refundHex lockTime [] manual n =
     (if manual then n\<lparr>n_manual := n_manual n @ [([], Some (TErr ''api: could not broadcast stored refund''))]\<rparr> else n)"
| "tryStoredRefund e orderID refundHex lockTime (cur # rest) manual n = (
     let (n, ok) = refund_enqueue e orderID cur refundHex lockTime True (Chain rest manual) n
     in if ok then n else tryStoredRefund e orderID refundHex lockTime rest manual n)"

definition postRefundTask :: "'k Env \<Rightarrow> string \<Rightarrow> string \<Rightarrow> string \<Rightarrow> u32 \<Rightarrow> bool \<Rightarrow> refund_done \<Rightarrow> Node \<Rightarrow> Node" where
  "postRefundTask e orderID cur refundHex lockTime checkLock dn n = (
     let (n, ok) = refund_enqueue e orderID cur refundHex lockTime checkLock dn n
     in if ok then n
        else case dn of
            NoDone \<Rightarrow> n
          | Manual \<Rightarrow> n\<lparr>n_manual := n_manual n @ [([], Some (TErr ''api: refund task dropped, engine busy''))]\<rparr>
          | Chain rest manual \<Rightarrow> tryStoredRefund e orderID refundHex lockTime rest manual n)"

text \<open>Calling the waiter of a refund.\<close>

definition call_done :: "'k Env \<Rightarrow> string \<Rightarrow> string \<Rightarrow> u32 \<Rightarrow> refund_done \<Rightarrow> string \<Rightarrow> task_err option \<Rightarrow> Node \<Rightarrow> Node" where
  "call_done e orderID refundHex lockTime dn txid err n = (case dn of
       NoDone \<Rightarrow> n
     | Manual \<Rightarrow> n\<lparr>n_manual := n_manual n @ [(txid, err)]\<rparr>
     | Chain cands manual \<Rightarrow>
         (case err of
            None \<Rightarrow> if manual then n\<lparr>n_manual := n_manual n @ [(txid, None)]\<rparr> else n
          | Some er \<Rightarrow> if er = errRefundDepositSpent
              then (if manual then n\<lparr>n_manual := n_manual n @ [([], err)]\<rparr> else recordRefundFailure e orderID n)
              else tryStoredRefund e orderID refundHex lockTime cands manual n))"

definition enterSecretHunt :: "'k Env \<Rightarrow> string \<Rightarrow> Node \<Rightarrow> Node" where
  "enterSecretHunt e orderID n = (case n_sessions n orderID of None \<Rightarrow> n
     | Some p \<Rightarrow> if ss_secretHunt (n_heap n p) then n
         else persist e (clearRefundBackoff orderID (upd p (\<lambda>s. s\<lparr>ss_secretHunt := True, ss_huntSince := e_now e\<rparr>) n)))"

text \<open>The result of a refund task, after the verdict that our deposit is already spent was dealt with.\<close>

definition refund_failed :: "'k Env \<Rightarrow> string \<Rightarrow> refund_done \<Rightarrow> Node \<Rightarrow> Node" where
  "refund_failed e orderID dn n = (let n = (if rollbackGate n orderID
       then persist e (upd_order orderID (\<lambda>ord. if \<not> isOrderTerminal (o_Status ord) \<and> o_Status ord \<noteq> ''rollback failed''
              then ord\<lparr>o_Status := ''rollback failed'', o_Updated := e_now e\<rparr> else ord) n) else n)
     in if dn = NoDone then recordRefundFailure e orderID n else n)"

definition roll_back :: "'k Env \<Rightarrow> Order \<Rightarrow> Order" where
  "roll_back e ord = (if (\<not> isOrderTerminal (o_Status ord) \<or> o_Status ord = ''canceled'') \<and> o_Status ord \<noteq> ''rolled back''
     then ord\<lparr>o_Status := ''rolled back'', o_Updated := e_now e\<rparr> else ord)"

definition refund_sent :: "'k Env \<Rightarrow> string \<Rightarrow> string \<Rightarrow> string \<Rightarrow> Node \<Rightarrow> Node" where
  "refund_sent e orderID cur refundHex n = (
     let n = clearRefundBackoff orderID n;
         n = (case txIDFromHex refundHex of Inr localID \<Rightarrow> recordBroadcast e orderID broadcastRefund cur localID refundHex n | Inl _ \<Rightarrow> n);
         n = (case n_sessions n orderID of None \<Rightarrow> n | Some p \<Rightarrow> upd p (\<lambda>s. s\<lparr>ss_refundDone := True\<rparr>) n);
         n = (if rollbackGate n orderID
           then upd_order orderID (roll_back e) n else n)
     in pruneSessions (persist e n))"

definition applyRefund :: "'k Env \<Rightarrow> string \<Rightarrow> string \<Rightarrow> string \<Rightarrow> u32 \<Rightarrow> refund_done \<Rightarrow> refundOutcome task \<Rightarrow> Node \<Rightarrow> Node" where
  "applyRefund e orderID cur refundHex lockTime dn v n = (
     let n = n\<lparr>n_pendingRefunds := n_pendingRefunds n - {orderID}\<rparr>;
         out = (case v of Inr out \<Rightarrow> out | Inl _ \<Rightarrow> refund_none);
         err = (case v of Inr _ \<Rightarrow> None | Inl er \<Rightarrow> Some er);
         spent = (err = None \<and> ro_depositSpent out) in
     if spent \<and> (case live n orderID of Some s \<Rightarrow> \<not> ss_isMaker s | None \<Rightarrow> False)
     then call_done e orderID refundHex lockTime dn [] (Some errRefundDepositSpent) (enterSecretHunt e orderID n)
     else if spent \<and> live n orderID = None
     then (if dn = NoDone then recordRefundFailure e orderID n
       else call_done e orderID refundHex lockTime dn [] (Some errRefundDepositSpent) n)
     else let err = (if spent then Some (case ro_sendErr out of None \<Rightarrow> errRefundDepositSpent | Some er \<Rightarrow> er) else err);
              txid = ro_txid out;
              n = call_done e orderID refundHex lockTime dn txid err n
       in if err \<noteq> None then refund_failed e orderID dn n
          else if txid = [] then n
          else refund_sent e orderID cur refundHex n)"

section \<open>Who sends a refund\<close>

definition refund_due :: "'k Env \<Rightarrow> Node \<Rightarrow> string \<Rightarrow> SwapSession \<Rightarrow> bool" where
  "refund_due e n orderID s \<longleftrightarrow> \<not> (ss_refundDone s \<or> ss_refundHex s = [] \<or> ss_state s = csFinished) \<and> \<not> ss_secretHunt s
     \<and> \<not> (ss_isMaker s \<and> ss_state s \<ge> csConfirmedA) \<and> \<not> (\<not> ss_isMaker s \<and> ss_state s \<ge> csConfirmedB)
     \<and> \<not> refundBackoffActive e n orderID \<and> \<not> (ss_state s < csCreatedA \<and> \<not> orderDepositSent n orderID)
     \<and> orderID \<notin> n_pendingRefunds n"

text \<open>The body of the sweep for one session; \<open>keys\<close> is the order in which the table is ranged over.\<close>

definition scan_one :: "'k Env \<Rightarrow> string \<Rightarrow> Node \<Rightarrow> Node" where
  "scan_one e orderID n = (case live n orderID of None \<Rightarrow> n
     | Some s \<Rightarrow> if refund_due e n orderID s
         then postRefundTask e orderID (ss_srcCur s) (ss_refundHex s) (ss_ourLockTime s) True NoDone
           (n\<lparr>n_pendingRefunds := insert orderID (n_pendingRefunds n)\<rparr>)
         else n)"

definition scanRefunds :: "'k Env \<Rightarrow> string list \<Rightarrow> Node \<Rightarrow> Node" where
  "scanRefunds e keys n = fold (scan_one e) keys n"

text \<open>
  The sweep of stored orders that have no session. The snapshot of the store is taken first;
  the flag says that an order changed.
\<close>

definition stored_one :: "'k Env \<Rightarrow> Order \<Rightarrow> Node \<times> bool \<Rightarrow> Node \<times> bool" where
  "stored_one e ord = (\<lambda>(n, dirty). let idHex = hexEncode (o_ID ord) in
     if \<not> o_Mine ord \<or> o_RefundTx ord = [] \<or> \<not> o_DepositSent ord then (n, dirty)
     else if statusString (o_Status ord) \<in> {''finished'', ''dropped'', ''invalid'', ''rolled back''} then (n, dirty)
     else if n_sessions n idHex \<noteq> None then (n, dirty)
     else if refundBackoffActive e n idHex then (n, dirty)
     else case hex_DecodeString (o_RefundTx ord) of None \<Rightarrow> (n, dirty)
       | Some raw \<Rightarrow> (case Deserialize raw of Inl _ \<Rightarrow> (n, dirty)
         | Inr rtx \<Rightarrow> (case n_tracked n (txIDFromBytes raw) of
             Some tb \<Rightarrow> let (n, dirty) = (if tb_Confs tb \<ge> 1 \<and> rollbackGate n idHex
                 then let (st, ok) = Update (n_store n) idHex (roll_back e) in (n\<lparr>n_store := st\<rparr>, dirty \<or> ok)
                 else (n, dirty)) in (clearRefundBackoff idHex n, dirty)
           | None \<Rightarrow> let coin = utxoCurrency ord in
               if coin = [] \<or> e_connectors e coin = None then (n, dirty)
               else if idHex \<in> n_pendingRefunds n then (n, dirty)
               else (postRefundTask e idHex coin (o_RefundTx ord) (tx_LockTime rtx) True NoDone
                   (n\<lparr>n_pendingRefunds := insert idHex (n_pendingRefunds n)\<rparr>), dirty))))"

definition scanStoredRefunds :: "'k Env \<Rightarrow> Node \<Rightarrow> Node" where
  "scanStoredRefunds e n = (let (n, dirty) = fold (stored_one e) (Store_List (n_store n)) (n, False)
     in if dirty then persist e n else n)"

definition stored_cands :: "'k Env \<Rightarrow> Order \<Rightarrow> string list" where
  "stored_cands e ord = fold (\<lambda>cur cands. if cur \<noteq> [] \<and> cur \<notin> set cands \<and> e_connectors e cur \<noteq> None then cands @ [cur] else cands)
     [utxoCurrency ord, o_FromCurrency ord, o_ToCurrency ord] []"

definition enqueueRefund :: "'k Env \<Rightarrow> string \<Rightarrow> bool \<Rightarrow> Node \<Rightarrow> Node" where
  "enqueueRefund e orderID manual n = (
     let fail = (\<lambda>msg n. if manual then n\<lparr>n_manual := n_manual n @ [([], Some (TErr msg))]\<rparr> else n);
         stored = (case Store_Get (n_store n) orderID of None \<Rightarrow> fail ''api: no refund available'' n
           | Some ord \<Rightarrow> if o_RefundTx ord = [] \<or> \<not> o_DepositSent ord then fail ''api: no refund available'' n
               else (case hex_DecodeString (o_RefundTx ord) of None \<Rightarrow> fail ''api: stored refund undecodable'' n
                 | Some raw \<Rightarrow> (case Deserialize raw of Inl _ \<Rightarrow> fail ''api: stored refund undeserializable'' n
                     | Inr rtx \<Rightarrow> tryStoredRefund e orderID (o_RefundTx ord) (tx_LockTime rtx) (stored_cands e ord) manual n)))
     in case live n orderID of
          Some s \<Rightarrow> if ss_refundHex s \<noteq> []
            then (if ss_state s < csCreatedA \<and> \<not> orderDepositSent n orderID then fail ''api: no deposit broadcast'' n
              else postRefundTask e orderID (ss_srcCur s) (ss_refundHex s) (ss_ourLockTime s) True
                (if manual then Manual else NoDone) (n\<lparr>n_pendingRefunds := insert orderID (n_pendingRefunds n)\<rparr>))
            else stored
        | None \<Rightarrow> stored)"

section \<open>Cancellation\<close>

definition dropTakeRetry :: "string \<Rightarrow> Node \<Rightarrow> Node" where
  "dropTakeRetry idHex n = n\<lparr>n_takeRetries := (n_takeRetries n)(idHex := None)\<rparr>"

definition takeRetryBackoff :: "nat list" where "takeRetryBackoff = [20, 40]"

definition takeRetryBackoffFor :: "int \<Rightarrow> nat" where
  "takeRetryBackoffFor attempt = (
     if attempt - 1 < int (length takeRetryBackoff) then takeRetryBackoff ! nat (attempt - 1) else last takeRetryBackoff)"

text \<open>Counting one more attempt and parking its timer.\<close>

definition arm_take_retry :: "string \<Rightarrow> takeRetryState \<Rightarrow> Node \<Rightarrow> Node" where
  "arm_take_retry idHex st n = (let attempt = tr_attempts st + 1 in
     n\<lparr>n_takeRetries := (n_takeRetries n)(idHex \<mapsto> st\<lparr>tr_attempts := attempt\<rparr>),
       n_timers := n_timers n @ [(idHex, tr_params st, attempt, takeRetryBackoffFor attempt)]\<rparr>)"

definition scheduleTakeRetry :: "'k Env \<Rightarrow> string \<Rightarrow> Node \<Rightarrow> Node" where
  "scheduleTakeRetry e idHex n = (if e_takeRetry e \<le> 0 then n
     else case n_takeRetries n idHex of None \<Rightarrow> n
       | Some st \<Rightarrow> if tr_attempts st \<ge> e_takeRetry e then dropTakeRetry idHex n else arm_take_retry idHex st n)"

definition markStale :: "'k Env \<Rightarrow> Order \<Rightarrow> Order" where
  "markStale e ord = ord\<lparr>o_Updated := e_now e - 241000000\<rparr>"

definition verified :: "'k Env \<Rightarrow> Packet \<Rightarrow> string \<Rightarrow> bool" where
  "verified e pkt key \<longleftrightarrow> VerifyAgainst (e_secp e) pkt key = Inr True"

definition sendCancelTransaction :: "'k Env \<Rightarrow> string \<Rightarrow> u32 \<Rightarrow> Node \<Rightarrow> Node \<times> bool" where
  "sendCancelTransaction e idHex reason n = (
     if \<not> e_connected e then (n, False)
     else case live n idHex of None \<Rightarrow> (n, False)
       | Some s \<Rightarrow> let body = CancelBody_Marshal \<lparr>clb_ID = ss_id s, clb_Reason = reason\<rparr> in
           (case Signer_Sign (e_secp e) (NewPacket (e_version e) (e_unix e) XbcTransactionCancel body) (ss_privKey s) of
              Inl _ \<Rightarrow> (n, False)
            | Inr pkt \<Rightarrow> if e_writeErr e then (n, False)
                else (n\<lparr>n_packets := n_packets n @ [(replicate 20 0, XbcTransactionCancel, body)]\<rparr>, True)))"

definition cancel_order :: "'k Env \<Rightarrow> u32 \<Rightarrow> Order \<Rightarrow> Order" where
  "cancel_order e reason ord = ord\<lparr>o_Status := ''canceled'', o_Reason := reason, o_Updated := e_now e\<rparr>"

definition handleRemoteCancel :: "'k Env \<Rightarrow> Packet \<Rightarrow> CancelBody \<Rightarrow> Node \<Rightarrow> Node" where
  "handleRemoteCancel e pkt b n = (let idHex = hexEncode (clb_ID b); reason = clb_Reason b in
     case Store_Get (n_store n) idHex of None \<Rightarrow> n
   | Some ord \<Rightarrow>
     if e_exchangeStarted e then
       (case live n idHex of None \<Rightarrow> n
        | Some s \<Rightarrow> if \<not> verified e pkt (hexEncode (ss_pubKey s)) \<and> \<not> verified e pkt (hexEncode (ss_theirPub s)) then n
            else (case sendCancelTransaction e idHex reason n of (n, ok) \<Rightarrow> if \<not> ok then n else dropTakeRetry idHex n))
     else
       let iCanceled = (o_MakerKey ord \<noteq> [] \<and> verified e pkt (o_MakerKey ord));
           snOK = verified e pkt (o_SNodePubkey ord); othOK = verified e pkt (o_OtherPubkey ord) in
       if \<not> snOK \<and> \<not> othOK \<and> \<not> iCanceled then n
       else if e_connectors e (o_FromCurrency ord) = None then n
       else if o_Mine ord \<and> stateOrdinal (o_Status ord) \<le> 2 \<and> \<not> iCanceled
         then dropTakeRetry idHex (upd_order idHex (markStale e) n)
       else if stateOrdinal (o_Status ord) < 6
         then dropTakeRetry idHex (n\<lparr>n_store := MoveToHistoryU32 (n_store n) idHex ''canceled'' reason (e_now e)\<rparr>)
       else if o_Status ord = ''canceled'' then n
       else if \<not> o_DepositSent ord then persist e (dropTakeRetry idHex (upd_order idHex (cancel_order e reason) n))
       else if o_CounterpartyRedeemed ord then n
       else if o_RefundTx ord = [] then persist e (dropTakeRetry idHex (upd_order idHex (cancel_order e reason) n))
       else let n = n\<lparr>n_store := RemovePendingPackets (n_store n) idHex\<rparr>;
                n = dropTakeRetry idHex (upd_order idHex (cancel_order e reason) n)
            in persist e (enqueueRefund e idHex False n))"

definition sendSelfCancel :: "'k Env \<Rightarrow> nat \<Rightarrow> TxCancelReason \<Rightarrow> Node \<Rightarrow> Node" where
  "sendSelfCancel e p reason n = (
     if \<not> e_connected e then n
     else let s = n_heap n p; body = \<lparr>clb_ID = ss_id s, clb_Reason = reason\<rparr> in
       (case Signer_Sign (e_secp e) (NewPacket (e_version e) (e_unix e) XbcTransactionCancel (CancelBody_Marshal body)) (ss_privKey s) of
          Inl _ \<Rightarrow> n
        | Inr pkt \<Rightarrow> let n = handleRemoteCancel e pkt body n; n = fst (persistNow e n) in
            if e_writeErr e then n
            else n\<lparr>n_packets := n_packets n @ [(replicate 20 0, XbcTransactionCancel, CancelBody_Marshal body)]\<rparr>))"

definition failSelfCancel :: "'k Env \<Rightarrow> nat \<Rightarrow> task_err \<Rightarrow> Node \<Rightarrow> Node \<times> bool" where
  "failSelfCancel e p terr n = (case terr of TSelfCancel reason \<Rightarrow> (sendSelfCancel e p reason n, True) | _ \<Rightarrow> (n, False))"

definition handleRemoteReject :: "'k Env \<Rightarrow> Packet \<Rightarrow> RejectBody \<Rightarrow> Node \<Rightarrow> Node" where
  "handleRemoteReject e pkt b n = (let idHex = hexEncode (rjb_ID b); reason = rjb_Reason b in
     case Store_Get (n_store n) idHex of None \<Rightarrow> n
   | Some ord \<Rightarrow>
     if o_Role ord \<noteq> byte_of_char CHR ''B'' \<or> stateOrdinal (o_Status ord) > 3 then n
     else if \<not> verified e pkt (o_SNodePubkey ord) then n
     else let n = upd_order idHex (\<lambda>ord. ord\<lparr>o_Reason := reason\<rparr>) n;
              n = upd_order idHex (\<lambda>ord. clearUsedCoins (ord\<lparr>o_Reason := reason, o_Status := ''open''\<rparr>)) n;
              n = n\<lparr>n_store := RemovePendingPackets (n_store n) idHex\<rparr>;
              n = persist e n
          in if reason = crNotAccepted then scheduleTakeRetry e idHex n else dropTakeRetry idHex n)"

section \<open>The watchdogs of silent sessions and stale orders\<close>

definition sessionStallMicro :: u64 where "sessionStallMicro = 30 * 60 * 1000000"
definition sessionStallWarnMicro :: u64 where "sessionStallWarnMicro = 5 * 60 * 1000000"
definition mineOrderTTLMicro :: u64 where "mineOrderTTLMicro = 24 * 60 * 60 * 1000000"

definition stall_one :: "'k Env \<Rightarrow> string \<Rightarrow> Node \<Rightarrow> Node" where
  "stall_one e orderID n = (case n_sessions n orderID of None \<Rightarrow> n
     | Some p \<Rightarrow> let s = n_heap n p; now = e_now e in
         if ss_state s = csFinished \<or> ss_refundDone s \<or> ss_await s \<or> ss_claimHex s \<noteq> [] \<or> ss_secretHunt s then n
         else if ss_lastProgress s = 0 then n
         else let silent = (if now \<ge> ss_lastProgress s then now - ss_lastProgress s else 0);
                  n = (if silent > sessionStallWarnMicro then n\<lparr>n_stallWarned := (n_stallWarned n)(orderID \<mapsto> ss_lastProgress s)\<rparr>
                    else n\<lparr>n_stallWarned := (n_stallWarned n)(orderID := None)\<rparr>) in
           if silent \<le> sessionStallMicro then n
           else if (case Store_Get (n_store n) orderID of None \<Rightarrow> False
               | Some ord \<Rightarrow> isOrderTerminal (o_Status ord) \<or> o_Status ord = ''rolled back'' \<or> o_Status ord = ''rollback failed''
                   \<or> o_Status ord = ''canceled'' \<or> o_CounterpartyRedeemed ord) then n
           else if refundBackoffActive e n orderID then n
           else sendSelfCancel e p crTimeout n)"

definition watchStalledSessions :: "'k Env \<Rightarrow> string list \<Rightarrow> Node \<Rightarrow> Node" where
  "watchStalledSessions e keys n = fold (stall_one e) keys n"

definition gc_one :: "'k Env \<Rightarrow> string set \<Rightarrow> Order \<Rightarrow> Node \<Rightarrow> Node" where
  "gc_one e trackedOrders ord n = (let idHex = hexEncode (o_ID ord); now = e_now e in
     if \<not> o_Mine ord \<or> isOrderTerminal (o_Status ord) \<or> o_DepositSent ord then n
     else if n_sessions n idHex \<noteq> None then n
     else if idHex \<in> trackedOrders then n
     else if now < o_Updated ord \<or> now - o_Updated ord \<le> mineOrderTTLMicro then n
     else n\<lparr>n_store := MoveToHistory (n_store n) idHex ''dropped'' (ucast crTimeout) now\<rparr>)"

text \<open>\<open>txids\<close> is the order in which the table of broadcasts is ranged over.\<close>

definition unconfirmed_orders :: "string list \<Rightarrow> Node \<Rightarrow> string set" where
  "unconfirmed_orders txids n = set (List.map_filter (\<lambda>txid. case n_tracked n txid of
     Some tb \<Rightarrow> if tb_Confs tb = 0 then Some (tb_OrderID tb) else None | None \<Rightarrow> None) txids)"

definition gcStaleMineOrders :: "'k Env \<Rightarrow> string list \<Rightarrow> Node \<Rightarrow> Node" where
  "gcStaleMineOrders e txids n = fold (gc_one e (unconfirmed_orders txids n)) (Store_List (n_store n)) n"

end
