(* ===== verification/SwapHandlers.thy ===== *)
theory SwapHandlers
  imports SwapRefund
begin

text \<open>
  The handshake of a started node: the packet handlers of a session, what becomes of the results
  of their tasks, the retries, and the dispatch of hub packets to a session (\<^verbatim>\<open>api/swap.go\<close>,
  \<^verbatim>\<open>api/swap_retry.go\<close>, \<^verbatim>\<open>api/hold_resend.go\<close>, \<^verbatim>\<open>api/node.go\<close>). A handler answers with an error, with
  nothing, or with the command and body of its reply.
\<close>

type_synonym reply = "(XBridgeCommand \<times> bytes) option task"

section \<open>Sessions and their snapshots\<close>

definition orderFunding :: "Node \<Rightarrow> bytes \<Rightarrow> Utxo list" where
  "orderFunding n i = (case Store_Get (n_store n) (hexEncode i) of None \<Rightarrow> [] | Some ord \<Rightarrow> o_UsedCoins ord)"

definition snapshot :: "'k Env \<Rightarrow> Node \<Rightarrow> nat \<Rightarrow> swapCtx" where
  "snapshot e n p = (let s = n_heap n p in
     \<lparr>sc_isMaker = ss_isMaker s, sc_srcCur = ss_srcCur s, sc_dstCur = ss_dstCur s, sc_srcAmt = ss_srcAmt s,
      sc_dstAmt = ss_dstAmt s, sc_ourSourceAddr = ss_ourSourceAddr s, sc_ourDestAddr = ss_ourDestAddr s,
      sc_theirPub = ss_theirPub s, sc_privKey = ss_privKey s, sc_pubKey = ss_pubKey s, sc_secret = ss_secret s,
      sc_secretHash = ss_secretHash s, sc_theirDepositTxID = ss_theirDepositTxID s, sc_theirLockTime = ss_theirLockTime s,
      sc_theirSecretHash = ss_theirSecretHash s, sc_theirDepositVout = ss_theirDepositVout s,
      sc_theirP2SHNative = ss_theirP2SHNative s, sc_theirOverpayment = ss_theirOverpayment s,
      sc_ourDepositTxID = ss_ourDepositTxID s, sc_ourLockTime = ss_ourLockTime s, sc_refundHex = ss_refundHex s,
      sc_connectors = e_connectors e, sc_confs = e_confs e,
      sc_coinsMap = (\<lambda>t. if t = ss_srcCur s \<or> t = ss_dstCur s then e_coins e t else None),
      sc_ourDepositP2SH = 0, sc_funding = orderFunding n (ss_id s)\<rparr>)"

text \<open>
  A new session is a new object. The maker's secret is the compressed public key \<open>xpk\<close> of a fresh
  private key, or nothing when the curve library fails.
\<close>

definition install :: "SwapSession \<Rightarrow> Node \<Rightarrow> Node" where
  "install s n = n\<lparr>n_heap := (n_heap n)(n_next n := s), n_next := Suc (n_next n),
     n_sessions := (n_sessions n)(sessionKey s \<mapsto> n_next n)\<rparr>"

definition newMakerSession :: "'k Env \<Rightarrow> (bytes \<Rightarrow> bytes) \<Rightarrow> bytes option \<Rightarrow> Order \<Rightarrow> string \<Rightarrow> string \<Rightarrow> bytes \<Rightarrow> bytes \<Rightarrow> Node \<Rightarrow> Node" where
  "newMakerSession e rip xpk ord makerAddress takerAddress priv pub n = (case xpk of None \<Rightarrow> n
     | Some xpk \<Rightarrow> install (zeroSession\<lparr>ss_isMaker := True, ss_id := o_ID ord, ss_srcCur := o_FromCurrency ord,
         ss_dstCur := o_ToCurrency ord, ss_srcAmt := o_FromAmount ord, ss_dstAmt := o_ToAmount ord,
         ss_ourSourceAddr := makerAddress, ss_ourDestAddr := takerAddress, ss_privKey := priv, ss_pubKey := pub,
         ss_secret := xpk, ss_secretHash := KeyID rip xpk, ss_state := csMaker, ss_lastProgress := e_now e,
         ss_hub := o_HubAddress ord, ss_hubKey := decodePub33 (o_SNodePubkey ord)\<rparr>) n)"

definition newTakerSession :: "'k Env \<Rightarrow> Order \<Rightarrow> string \<Rightarrow> string \<Rightarrow> bytes \<Rightarrow> bytes \<Rightarrow> Node \<Rightarrow> Node" where
  "newTakerSession e ord fromAddress toAddress priv pub n =
     install (zeroSession\<lparr>ss_isMaker := False, ss_id := o_ID ord, ss_srcCur := o_ToCurrency ord,
         ss_dstCur := o_FromCurrency ord, ss_srcAmt := o_ToAmount ord, ss_dstAmt := o_FromAmount ord,
         ss_ourSourceAddr := fromAddress, ss_ourDestAddr := toAddress, ss_privKey := priv, ss_pubKey := pub,
         ss_state := csTaker, ss_lastProgress := e_now e, ss_hubKey := decodePub33 (o_SNodePubkey ord),
         ss_hub := o_HubAddress ord\<rparr>) n"

section \<open>Posting work\<close>

definition release_key :: "string \<Rightarrow> Node \<Rightarrow> Node" where
  "release_key orderID n = (case n_sessions n orderID of None \<Rightarrow> n | Some p \<Rightarrow> releaseAwait p n)"

definition postSwapTask :: "'k Env \<Rightarrow> string \<Rightarrow> workTask \<Rightarrow> Node \<Rightarrow> Node \<times> bool" where
  "postSwapTask e orderID t n = (let (n, ok) = enqueue e t n in if ok then (n, True) else (release_key orderID n, False))"

definition postBroadcastTask :: "'k Env \<Rightarrow> string \<Rightarrow> Connector option \<Rightarrow> string \<Rightarrow> string \<Rightarrow> broadcastKind \<Rightarrow> bcont \<Rightarrow> Node \<Rightarrow> Node \<times> bool" where
  "postBroadcastTask e orderID conn cur txhex kind k n = postSwapTask e orderID (Broadcast orderID conn cur txhex kind k) n"

text \<open>The worker's half of a broadcast.\<close>

definition runBroadcast :: "Connector option \<Rightarrow> string \<Rightarrow> string \<Rightarrow> string task" where
  "runBroadcast conn cur txhex = (case conn of None \<Rightarrow> Inl (TErr (''api: no connector for '' @ cur))
     | Some c \<Rightarrow> cn_SendRawTransaction c txhex)"

section \<open>Hold and Init\<close>

definition holdApplySource :: "'k Env \<Rightarrow> SwapSession \<Rightarrow> bytes task" where
  "holdApplySource e s = (case Coin_Get (e_coins e) (ss_srcCur s) of
       None \<Rightarrow> Inl (TErr (''api: unknown coin '' @ ss_srcCur s))
     | Some c \<Rightarrow> t_bind (of_go (DecodeAddress c (ss_ourSourceAddr s))) (\<lambda>a. Inr (copy20 (a_Hash a))))"

definition verifyHold :: "Node \<Rightarrow> SwapSession \<Rightarrow> HoldBody \<Rightarrow> string option" where
  "verifyHold n s b = (
     if ss_isMaker s then
       if hb_ToAmount b > ss_srcAmt s then Some ''taker requesting an amount that is too large''
       else if hb_FromAmount b > ss_dstAmt s then Some ''taker sending an amount that is too large''
       else if (case session_order n s of None \<Rightarrow> False | Some ord \<Rightarrow> o_PartialAllowed ord \<and> hb_ToAmount b < o_MinFromAmount ord)
         then Some ''taker requesting an amount that is too small''
       else if \<not> PartialOrderDriftCheck (ss_srcAmt s) (ss_dstAmt s) (hb_FromAmount b) (hb_ToAmount b)
         then Some ''taker price does not match maker expected price''
       else None
     else if hb_FromAmount b \<noteq> ss_srcAmt s then Some ''taker from amount from snode should match expected amount''
     else if hb_ToAmount b \<noteq> ss_dstAmt s then Some ''taker to amount from snode should match expected amount''
     else let (origFrom, origTo) = (case session_order n s of None \<Rightarrow> (ss_dstAmt s, ss_srcAmt s)
         | Some ord \<Rightarrow> if o_OrigFromAmount ord > 0 then (o_OrigFromAmount ord, o_OrigToAmount ord) else (ss_dstAmt s, ss_srcAmt s))
       in if \<not> PartialOrderDriftCheck origFrom origTo (ss_srcAmt s) (ss_dstAmt s)
         then Some ''taker price does not match maker expected price'' else None)"

definition OnHold :: "'k Env \<Rightarrow> HoldBody \<Rightarrow> nat \<Rightarrow> Node \<Rightarrow> Node \<times> reply" where
  "OnHold e b p n = (let s = n_heap n p in
     if ss_state s \<ge> csHoldApplied then (n, Inr None)
     else if verifyHold n s b \<noteq> None then (n, Inr None)
     else case holdApplySource e s of Inl err \<Rightarrow> (n, Inl err)
       | Inr src \<Rightarrow>
         let n = (if ss_isMaker s
               then persist e (upd_order (sessionKey s) (\<lambda>ord. ord\<lparr>o_FromAmount := hb_ToAmount b, o_ToAmount := hb_FromAmount b\<rparr>)
                 (upd p (\<lambda>s. s\<lparr>ss_srcAmt := hb_ToAmount b, ss_dstAmt := hb_FromAmount b\<rparr>) n))
               else n);
             n = upd p (\<lambda>s. s\<lparr>ss_state := csHoldApplied\<rparr>) n;
             n = setOrderStatus e p ''hold'' n
         in (n, Inr (Some (XbcTransactionHoldApply,
               HoldApplyBody_Marshal \<lparr>hab_HubAddress = ss_hub s, hab_ClientAddress = src, hab_ID = ss_id s\<rparr>))))"

definition decodeAddrHash :: "'k Env \<Rightarrow> string \<Rightarrow> string \<Rightarrow> bytes" where
  "decodeAddrHash e cur addrStr = (case Coin_Get (e_coins e) cur of None \<Rightarrow> replicate 20 0
     | Some c \<Rightarrow> (case DecodeAddress c addrStr of Inl _ \<Rightarrow> replicate 20 0 | Inr a \<Rightarrow> copy20 (a_Hash a)))"

definition verifyInit :: "'k Env \<Rightarrow> SwapSession \<Rightarrow> InitBody \<Rightarrow> string option" where
  "verifyInit e s b = (
     if ib_ID b \<noteq> ss_id s then Some ''order id mismatch''
     else if ib_FromAddress b \<noteq> decodeAddrHash e (ss_srcCur s) (ss_ourSourceAddr s) then Some ''from address mismatch''
     else if ib_FromCurrency b \<noteq> ss_srcCur s then Some ''from currency mismatch''
     else if ib_FromAmount b \<noteq> ss_srcAmt s then Some ''from amount mismatch''
     else if ib_ToAddress b \<noteq> decodeAddrHash e (ss_dstCur s) (ss_ourDestAddr s) then Some ''to address mismatch''
     else if ib_ToCurrency b \<noteq> ss_dstCur s then Some ''to currency mismatch''
     else if ib_ToAmount b \<noteq> ss_dstAmt s then Some ''to amount mismatch''
     else None)"

definition OnInit :: "'k Env \<Rightarrow> InitBody \<Rightarrow> nat \<Rightarrow> Node \<Rightarrow> Node \<times> reply" where
  "OnInit e b p n = (let s = n_heap n p in
     if ss_state s \<ge> csInitialized then (n, Inr None)
     else if verifyInit e s b \<noteq> None then (n, Inr None)
     else (setOrderStatus e p ''initialized'' (upd p (\<lambda>s. s\<lparr>ss_state := csInitialized\<rparr>) n),
       Inr (Some (XbcTransactionInitialized,
         InitializedBody_Marshal \<lparr>inb_HubAddress = ss_hub s, inb_ClientAddress = ib_ClientAddress b, inb_ID = ss_id s\<rparr>))))"

section \<open>Deposits\<close>

definition OnCreateA :: "'k Env \<Rightarrow> CreateABody \<Rightarrow> nat \<Rightarrow> Node \<Rightarrow> Node \<times> reply" where
  "OnCreateA e b p n = (let s = n_heap n p; orderID = sessionKey s in
     if \<not> ss_isMaker s then (n, Inr None)
     else if ss_state s \<ge> csCreatedA then (n, Inr None)
     else if ss_await s then (n, Inr None)
     else if cab_BPubKey b = replicate 33 0 then (n, Inl (TErr ''api: CreateA missing B pubkey''))
     else let n = upd p (\<lambda>s. s\<lparr>ss_theirPub := cab_BPubKey b\<rparr>) n;
              n = upd_order orderID (\<lambda>ord. ord\<lparr>o_OtherPubkey := hexEncode (cab_BPubKey b)\<rparr>) n;
              c = snapshot e n p;
              n = holdAwait e p n
          in (fst (postSwapTask e orderID (BuildA p c) n), Inr None))"

definition OnCreateB :: "'k Env \<Rightarrow> CreateBBody \<Rightarrow> nat \<Rightarrow> Node \<Rightarrow> Node \<times> reply" where
  "OnCreateB e b p n = (let s = n_heap n p; orderID = sessionKey s in
     if ss_state s \<ge> csCreatedB then (n, Inr None)
     else if ss_await s then (n, Inr None)
     else if ss_isMaker s then (n, Inr None)
     else if cbb_ADepositTxID b = [] then (sendSelfCancel e p crBadADepositTx n, Inr None)
     else if ss_theirPub s \<noteq> replicate 33 0 then (n, Inr None)
     else if cbb_APubKey b = replicate 33 0 then (n, Inl (TErr ''api: CreateB missing A pubkey''))
     else let n = upd p (\<lambda>s. s\<lparr>ss_theirPub := cbb_APubKey b, ss_theirDepositTxID := cbb_ADepositTxID b\<rparr>) n;
              n = upd_order orderID (\<lambda>ord. ord\<lparr>o_OBinTxId := cbb_ADepositTxID b, o_OtherPubkey := hexEncode (cbb_APubKey b)\<rparr>) n;
              n = upd p (\<lambda>s. s\<lparr>ss_theirSecretHash := cbb_HashedSecret b, ss_theirLockTime := cbb_ALockTime b\<rparr>) n;
              c = snapshot e n p;
              n = holdAwait e p n
          in (fst (postSwapTask e orderID (BuildB p c) n), Inr None))"

definition sessionAlive :: "Node \<Rightarrow> nat \<Rightarrow> bool" where
  "sessionAlive n p \<longleftrightarrow> n_sessions n (sessionKey (n_heap n p)) = Some p"

text \<open>A failed build of a deposit, or of a claim: poll again soon, or back off.\<close>

definition deposit_failed :: "'k Env \<Rightarrow> nat \<Rightarrow> task_err \<Rightarrow> Node \<Rightarrow> Node" where
  "deposit_failed e p terr n = (if ss_ourDepositTxID (n_heap n p) = []
     then let (n, done) = scheduleNotReady e p False terr n in if done then n else scheduleDepositRetry e p n
     else n)"

definition claim_failed :: "'k Env \<Rightarrow> nat \<Rightarrow> task_err \<Rightarrow> Node \<Rightarrow> Node" where
  "claim_failed e p terr n = (if ss_claimTxID (n_heap n p) = []
     then let (n, done) = scheduleNotReady e p True terr n in if done then n else scheduleClaimRetry e p n
     else n)"

definition store_deposit :: "string \<Rightarrow> depositOutcome \<Rightarrow> Node \<Rightarrow> Node" where
  "store_deposit orderID out n = upd_order orderID (\<lambda>ord. ord\<lparr>o_RefundTx := do_refundHex out\<rparr>)
     (upd_order orderID (\<lambda>ord. ord\<lparr>o_BinTxId := do_txid out, o_DepositSent := False\<rparr>) n)"

definition applyCreatedA :: "'k Env \<Rightarrow> nat \<Rightarrow> depositOutcome task \<Rightarrow> Node \<Rightarrow> Node" where
  "applyCreatedA e p v n = (let orderID = sessionKey (n_heap n p) in
     if \<not> sessionAlive n p then n
     else case v of
       Inl terr \<Rightarrow> deposit_failed e p terr (releaseAwait p n)
     | Inr out \<Rightarrow>
       let n = clearDepositRetry p n;
           n = upd p (\<lambda>s. s\<lparr>ss_ourDepositTxID := do_txid out, ss_ourLockTime := do_lockTime out,
             ss_refundHex := do_refundHex out, ss_depositHex := do_depositHex out\<rparr>) n;
           n = store_deposit orderID out n;
           (n, ok) = persistNow e n
       in if \<not> ok then releaseAwait p n
          else fst (postBroadcastTask e orderID (Some (do_conn out)) (ss_srcCur (n_heap n p)) (do_depositHex out)
            broadcastDeposit (ContA p out) n))"

definition applyCreatedABroadcast :: "'k Env \<Rightarrow> nat \<Rightarrow> depositOutcome \<Rightarrow> task_err option \<Rightarrow> Node \<Rightarrow> Node" where
  "applyCreatedABroadcast e p out terr n = (let s = n_heap n p; orderID = sessionKey s in
     if \<not> sessionAlive n p then recordBroadcast e orderID broadcastDeposit (ss_srcCur s) (do_txid out) (do_depositHex out) n
     else let n = releaseAwait p n in
     if terr \<noteq> None then (if ss_ourDepositTxID s \<noteq> [] \<and> ss_depositHex s \<noteq> [] then scheduleDepositRetry e p n else n)
     else let n = clearDepositRetry p n;
              n = upd_order orderID (\<lambda>ord. ord\<lparr>o_DepositSent := True\<rparr>) n;
              n = setOrderStatus e p ''created'' (upd p (\<lambda>s. s\<lparr>ss_state := csCreatedA\<rparr>) n);
              body = CreatedABody_Marshal \<lparr>cdab_HubAddress = ss_hub s, cdab_ID = ss_id s, cdab_ADepositTxID = do_txid out,
                cdab_HashedSecret = ss_secretHash s, cdab_ALockTime = do_lockTime out, cdab_RefTxID = [], cdab_RefTx = do_refundHex out\<rparr>
          in fst (send e (ss_hub s) XbcTransactionCreatedA body (ss_privKey s) (persist e n)))"

definition counterpartyCoin :: "'k Env \<Rightarrow> SwapSession \<Rightarrow> Coin option" where
  "counterpartyCoin e s = Coin_Get (e_coins e) (ss_dstCur s)"

text \<open>An unknown coin is the zero coin, whose amounts have no decimals.\<close>

definition their_xbridge :: "'k Env \<Rightarrow> SwapSession \<Rightarrow> u64 \<Rightarrow> u64" where
  "their_xbridge e s native = (case counterpartyCoin e s of Some c \<Rightarrow> toXBridgeAmt c native
     | None \<Rightarrow> native * of_nat coinScale)"

definition store_check :: "'k Env \<Rightarrow> SwapSession \<Rightarrow> DepositCheck \<Rightarrow> Order \<Rightarrow> Order" where
  "store_check e s check ord = ord\<lparr>o_OBinTxVout := dc_DepositVout check,
     o_OBinTxP2SHAmount := their_xbridge e s (dc_P2SHNative check), o_OOverpayment := dc_Excess check\<rparr>"

definition applyCreatedB :: "'k Env \<Rightarrow> nat \<Rightarrow> createdBOutcome task \<Rightarrow> Node \<Rightarrow> Node" where
  "applyCreatedB e p v n = (let orderID = sessionKey (n_heap n p) in
     if \<not> sessionAlive n p then n
     else case v of
       Inl terr \<Rightarrow> (let (n, canceled) = failSelfCancel e p terr (releaseAwait p n)
         in if canceled then n else deposit_failed e p terr n)
     | Inr cb \<Rightarrow>
       let out = cb_out cb; check = cb_check cb;
           n = clearDepositRetry p n;
           n = upd p (\<lambda>s. s\<lparr>ss_ourDepositTxID := do_txid out, ss_ourLockTime := do_lockTime out,
             ss_refundHex := do_refundHex out, ss_depositHex := do_depositHex out,
             ss_theirDepositVout := dc_DepositVout check, ss_theirP2SHNative := dc_P2SHNative check,
             ss_theirOverpayment := dc_Excess check\<rparr>) n;
           n = store_deposit orderID out n;
           n = upd_order orderID (store_check e (n_heap n p) check) n;
           (n, ok) = persistNow e n
       in if \<not> ok then releaseAwait p n
          else fst (postBroadcastTask e orderID (Some (do_conn out)) (ss_srcCur (n_heap n p)) (do_depositHex out)
            broadcastDeposit (ContB p cb) n))"

definition applyCreatedBBroadcast :: "'k Env \<Rightarrow> nat \<Rightarrow> createdBOutcome \<Rightarrow> task_err option \<Rightarrow> Node \<Rightarrow> Node" where
  "applyCreatedBBroadcast e p cb terr n = (let out = cb_out cb; s = n_heap n p; orderID = sessionKey s in
     if \<not> sessionAlive n p then recordBroadcast e orderID broadcastDeposit (ss_srcCur s) (do_txid out) (do_depositHex out) n
     else let n = releaseAwait p n in
     if terr \<noteq> None then (if ss_ourDepositTxID s \<noteq> [] \<and> ss_depositHex s \<noteq> [] then scheduleDepositRetry e p n else n)
     else let n = clearDepositRetry p n;
              n = upd_order orderID (\<lambda>ord. ord\<lparr>o_DepositSent := True\<rparr>) n;
              n = setOrderStatus e p ''created'' (upd p (\<lambda>s. s\<lparr>ss_state := csCreatedB\<rparr>) n);
              body = CreatedBBody_Marshal \<lparr>cdbb_HubAddress = ss_hub s, cdbb_ID = ss_id s, cdbb_BDepositTxID = do_txid out,
                cdbb_BLockTime = do_lockTime out, cdbb_RefTxID = [], cdbb_RefTx = do_refundHex out\<rparr>
          in fst (send e (ss_hub s) XbcTransactionCreatedB body (ss_privKey s) (persist e n)))"

section \<open>Claims\<close>

definition OnConfirmA :: "'k Env \<Rightarrow> ConfirmABody \<Rightarrow> nat \<Rightarrow> Node \<Rightarrow> Node \<times> reply" where
  "OnConfirmA e b p n = (let s = n_heap n p; orderID = sessionKey s in
     if ss_state s \<ge> csConfirmedA then (n, Inr None)
     else if \<not> ss_isMaker s then (n, Inr None)
     else if ss_await s then (n, Inr None)
     else let n = upd p (\<lambda>s. s\<lparr>ss_theirDepositTxID := cfab_BDepositTxID b, ss_theirLockTime := cfab_BLockTime b\<rparr>) n;
              n = upd_order orderID (\<lambda>ord. ord\<lparr>o_OBinTxId := cfab_BDepositTxID b\<rparr>) n;
              c = snapshot e n p;
              n = holdAwait e p n
          in (fst (postSwapTask e orderID (ClaimA p c) n), Inr None))"

definition applyConfirmedA :: "'k Env \<Rightarrow> nat \<Rightarrow> confirmOutcome task \<Rightarrow> Node \<Rightarrow> Node" where
  "applyConfirmedA e p v n = (let orderID = sessionKey (n_heap n p) in
     if \<not> sessionAlive n p then n
     else case v of
       Inl terr \<Rightarrow> (let (n, canceled) = failSelfCancel e p terr (releaseAwait p n)
         in if canceled then n else claim_failed e p terr n)
     | Inr out \<Rightarrow>
       let check = co_check out;
           n = clearClaimRetry p n;
           n = upd p (\<lambda>s. s\<lparr>ss_theirDepositVout := dc_DepositVout check, ss_theirP2SHNative := dc_P2SHNative check,
             ss_theirOverpayment := dc_Excess check, ss_claimHex := co_payHex out, ss_claimTxID := co_payTxID out,
             ss_claimCur := co_cur out\<rparr>) n;
           (n, ok) = persistNow e n
       in if \<not> ok then releaseAwait p n
          else fst (postBroadcastTask e orderID (Some (co_conn out)) (co_cur out) (co_payHex out)
            broadcastClaim (ContClaimA p out) n))"

definition applyConfirmedABroadcast :: "'k Env \<Rightarrow> nat \<Rightarrow> confirmOutcome \<Rightarrow> task_err option \<Rightarrow> Node \<Rightarrow> Node" where
  "applyConfirmedABroadcast e p out terr n = (let s = n_heap n p; orderID = sessionKey s in
     if \<not> sessionAlive n p then recordBroadcast e orderID broadcastClaim (co_cur out) (co_payTxID out) (co_payHex out) n
     else let n = releaseAwait p n in
     if terr \<noteq> None then (if ss_claimTxID s \<noteq> [] \<and> ss_claimHex s \<noteq> [] then scheduleClaimRetry e p n else n)
     else let n = clearClaimRetry p n;
              n = setOrderStatus e p ''finished'' (upd p (\<lambda>s. s\<lparr>ss_state := csFinished\<rparr>) n);
              n = upd_order orderID (\<lambda>ord. store_check e s (co_check out) (ord\<lparr>o_CounterpartyRedeemed := True\<rparr>)) n;
              body = ConfirmedABody_Marshal \<lparr>cfdab_HubAddress = ss_hub s, cfdab_ID = ss_id s, cfdab_APayTxID = co_payTxID out\<rparr>
          in fst (send e (ss_hub s) XbcTransactionConfirmedA body (ss_privKey s) (persist e n)))"

definition OnConfirmB :: "'k Env \<Rightarrow> ConfirmBBody \<Rightarrow> nat \<Rightarrow> Node \<Rightarrow> Node \<times> reply" where
  "OnConfirmB e b p n = (let s = n_heap n p; orderID = sessionKey s in
     if ss_state s \<ge> csConfirmedB then (n, Inr None)
     else if ss_await s then (n, Inr None)
     else let n = persist e (upd p (\<lambda>s. s\<lparr>ss_theirPayTxID := cfbb_APayTxID b\<rparr>) n);
              c = snapshot e n p;
              n = holdAwait e p n
          in (fst (postSwapTask e orderID (ClaimB p c (cfbb_APayTxID b)) n), Inr None))"

definition applyConfirmedB :: "'k Env \<Rightarrow> nat \<Rightarrow> confirmOutcome task \<Rightarrow> Node \<Rightarrow> Node" where
  "applyConfirmedB e p v n = (let orderID = sessionKey (n_heap n p) in
     if \<not> sessionAlive n p then n
     else case v of
       Inl terr \<Rightarrow> claim_failed e p terr (releaseAwait p n)
     | Inr out \<Rightarrow>
       let n = clearClaimRetry p n;
           n = upd p (\<lambda>s. s\<lparr>ss_secret := co_secret out, ss_claimHex := co_payHex out, ss_claimTxID := co_payTxID out,
             ss_claimCur := co_cur out\<rparr>) n;
           (n, ok) = persistNow e n
       in if \<not> ok then releaseAwait p n
          else fst (postBroadcastTask e orderID (Some (co_conn out)) (co_cur out) (co_payHex out)
            broadcastClaim (ContClaimB p out) n))"

definition applyConfirmedBBroadcast :: "'k Env \<Rightarrow> nat \<Rightarrow> confirmOutcome \<Rightarrow> task_err option \<Rightarrow> Node \<Rightarrow> Node" where
  "applyConfirmedBBroadcast e p out terr n = (let s = n_heap n p; orderID = sessionKey s in
     if \<not> sessionAlive n p then recordBroadcast e orderID broadcastClaim (co_cur out) (co_payTxID out) (co_payHex out) n
     else let n = releaseAwait p n in
     if terr \<noteq> None then (if ss_claimTxID s \<noteq> [] \<and> ss_claimHex s \<noteq> [] then scheduleClaimRetry e p n else n)
     else let n = clearClaimRetry p n;
              n = setOrderStatus e p ''finished'' (upd p (\<lambda>s. s\<lparr>ss_state := csFinished\<rparr>) n);
              n = upd_order orderID (\<lambda>ord. ord\<lparr>o_CounterpartyRedeemed := True\<rparr>) n;
              body = ConfirmedBBody_Marshal \<lparr>cfdbb_HubAddress = ss_hub s, cfdbb_ID = ss_id s, cfdbb_BPayTxID = co_payTxID out\<rparr>
          in fst (send e (ss_hub s) XbcTransactionConfirmedB body (ss_privKey s) (persist e n)))"

definition finishedMayTerminate :: "Node \<Rightarrow> SwapSession \<Rightarrow> bool" where
  "finishedMayTerminate n s \<longleftrightarrow> ss_state s \<ge> csConfirmedA
     \<or> (case session_order n s of None \<Rightarrow> False | Some ord \<Rightarrow> o_CounterpartyRedeemed ord)
     \<or> ss_state s < csCreatedA \<and> \<not> orderDepositSent n (sessionKey s)"

definition OnFinished :: "'k Env \<Rightarrow> FinishedBody \<Rightarrow> nat \<Rightarrow> Node \<Rightarrow> Node \<times> reply" where
  "OnFinished e b p n = (let s = n_heap n p in
     if \<not> finishedMayTerminate n s then (n, Inr None)
     else let n = n\<lparr>n_store := MoveToHistory (n_store n) (sessionKey s) ''finished'' 0 (e_now e)\<rparr>;
              n = upd p (\<lambda>s. s\<lparr>ss_state := csFinished\<rparr>) n
          in (pruneSessions (persist e n), Inr None))"

section \<open>The engine's half of a broadcast\<close>

definition applyBroadcast :: "'k Env \<Rightarrow> string \<Rightarrow> string \<Rightarrow> string \<Rightarrow> broadcastKind \<Rightarrow> bcont \<Rightarrow> string task \<Rightarrow> Node \<Rightarrow> Node" where
  "applyBroadcast e orderID cur txhex kind k v n = (
     let terr = (case v of Inl er \<Rightarrow> Some er | Inr _ \<Rightarrow> None);
         n = (if terr = None then
               let n = (case txIDFromHex txhex of Inr localID \<Rightarrow> recordBroadcast e orderID kind cur localID txhex n | Inl _ \<Rightarrow> n)
               in (case n_sessions n orderID of None \<Rightarrow> n | Some q \<Rightarrow> upd q (\<lambda>s. s\<lparr>ss_lastProgress := e_now e\<rparr>) n)
             else n)
     in case k of
          ContA p out \<Rightarrow> applyCreatedABroadcast e p out terr n
        | ContB p cb \<Rightarrow> applyCreatedBBroadcast e p cb terr n
        | ContClaimA p out \<Rightarrow> applyConfirmedABroadcast e p out terr n
        | ContClaimB p out \<Rightarrow> applyConfirmedBBroadcast e p out terr n)"

section \<open>Retries\<close>

definition session_check :: "SwapSession \<Rightarrow> DepositCheck" where
  "session_check s = \<lparr>dc_IsGood = True, dc_P2SHAmount = 0, dc_P2SHNative = ss_theirP2SHNative s,
     dc_DepositVout = ss_theirDepositVout s, dc_Excess = ss_theirOverpayment s\<rparr>"

definition on_chain :: "Connector \<Rightarrow> string \<Rightarrow> bool" where
  "on_chain conn txid = (case cn_GetRawTransactionVerbose conn txid of Inl _ \<Rightarrow> False | Inr v \<Rightarrow> vt_Confirmations v \<ge> 1)"

definition adoptOrRepostDeposit :: "'k Env \<Rightarrow> nat \<Rightarrow> Node \<Rightarrow> Node" where
  "adoptOrRepostDeposit e p n = (
     let s = n_heap n p; now = e_now e; orderID = sessionKey s;
         out = (\<lambda>conn. \<lparr>do_txid = ss_ourDepositTxID s, do_lockTime = ss_ourLockTime s, do_refundHex = ss_refundHex s,
           do_depositHex = ss_depositHex s, do_conn = conn\<rparr>);
         cb = (\<lambda>conn. \<lparr>cb_out = out conn, cb_check = session_check s\<rparr>);
         capped = (\<lambda>n. upd p (\<lambda>s. s\<lparr>ss_depositRetryAt := 0\<rparr>) n)
     in case e_connectors e (ss_srcCur s) of
       None \<Rightarrow> if ss_depositRetries s \<ge> broadcastRepostMax then capped n
         else upd p (\<lambda>s. s\<lparr>ss_depositRetryAt := now + claimRetryBaseMicro\<rparr>) n
     | Some conn \<Rightarrow>
       if on_chain conn (ss_ourDepositTxID s)
       then let n = upd p (\<lambda>s. s\<lparr>ss_depositRetryAt := 0\<rparr>) n in
         (if ss_isMaker s then applyCreatedABroadcast e p (out conn) None n else applyCreatedBBroadcast e p (cb conn) None n)
       else if ss_depositRetries s \<ge> broadcastRepostMax then capped n
       else let n = upd p (\<lambda>s. s\<lparr>ss_depositRetryAt := 0\<rparr>) n;
                n = upd p (\<lambda>s. s\<lparr>ss_lastProgress := now\<rparr>) (holdAwait e p n);
                (n, ok) = postBroadcastTask e orderID (Some conn) (ss_srcCur s) (ss_depositHex s) broadcastDeposit
                  (if ss_isMaker s then ContA p (out conn) else ContB p (cb conn)) n
            in if ok then n else upd p (\<lambda>s. s\<lparr>ss_depositRetryAt := now + claimRetryBaseMicro\<rparr>) (releaseAwait p n))"

definition adoptOrRepostClaim :: "'k Env \<Rightarrow> nat \<Rightarrow> Node \<Rightarrow> Node" where
  "adoptOrRepostClaim e p n = (
     let s = n_heap n p; now = e_now e; orderID = sessionKey s;
         out = (\<lambda>conn. \<lparr>co_secret = ss_secret s, co_payTxID = ss_claimTxID s, co_payHex = ss_claimHex s,
           co_cur = ss_claimCur s, co_check = session_check s, co_conn = conn\<rparr>);
         capped = (\<lambda>n. upd p (\<lambda>s. s\<lparr>ss_claimRetryAt := 0\<rparr>) n)
     in case e_connectors e (ss_claimCur s) of
       None \<Rightarrow> if ss_claimRetries s \<ge> broadcastRepostMax then capped n
         else upd p (\<lambda>s. s\<lparr>ss_claimRetryAt := now + claimRetryBaseMicro\<rparr>) n
     | Some conn \<Rightarrow>
       if on_chain conn (ss_claimTxID s)
       then let n = upd p (\<lambda>s. s\<lparr>ss_claimRetryAt := 0\<rparr>) n in
         (if ss_isMaker s then applyConfirmedABroadcast e p (out conn) None n else applyConfirmedBBroadcast e p (out conn) None n)
       else if ss_claimRetries s \<ge> broadcastRepostMax then capped n
       else let n = upd p (\<lambda>s. s\<lparr>ss_claimRetryAt := 0\<rparr>) n;
                n = upd p (\<lambda>s. s\<lparr>ss_lastProgress := now\<rparr>) (holdAwait e p n);
                (n, ok) = postBroadcastTask e orderID (Some conn) (ss_claimCur s) (ss_claimHex s) broadcastClaim
                  (if ss_isMaker s then ContClaimA p (out conn) else ContClaimB p (out conn)) n
            in if ok then n else upd p (\<lambda>s. s\<lparr>ss_claimRetryAt := now + claimRetryBaseMicro\<rparr>) (releaseAwait p n))"

text \<open>The tail shared by the rebuilds: clear the schedule, take the guard, post the task.\<close>

definition rebuild_deposit :: "'k Env \<Rightarrow> string \<Rightarrow> nat \<Rightarrow> workTask \<Rightarrow> Node \<Rightarrow> Node" where
  "rebuild_deposit e orderID p t n = (
     let n = upd p (\<lambda>s. s\<lparr>ss_depositRetryAt := 0\<rparr>) n;
         n = upd p (\<lambda>s. s\<lparr>ss_lastProgress := e_now e\<rparr>) (holdAwait e p n);
         (n, ok) = postSwapTask e orderID t n
     in if ok then n else upd p (\<lambda>s. s\<lparr>ss_depositRetryAt := e_now e + claimRetryBaseMicro\<rparr>) (releaseAwait p n))"

definition rebuild_claim :: "'k Env \<Rightarrow> string \<Rightarrow> nat \<Rightarrow> workTask \<Rightarrow> Node \<Rightarrow> Node" where
  "rebuild_claim e orderID p t n = (
     let n = upd p (\<lambda>s. s\<lparr>ss_claimRetryAt := 0\<rparr>) n;
         n = upd p (\<lambda>s. s\<lparr>ss_lastProgress := e_now e\<rparr>) (holdAwait e p n);
         (n, ok) = postSwapTask e orderID t n
     in if ok then n else upd p (\<lambda>s. s\<lparr>ss_claimRetryAt := e_now e + claimRetryBaseMicro\<rparr>) (releaseAwait p n))"

definition retry_deposit_one :: "'k Env \<Rightarrow> string \<Rightarrow> Node \<Rightarrow> Node" where
  "retry_deposit_one e orderID n = (case n_sessions n orderID of None \<Rightarrow> n
     | Some p \<Rightarrow> let s = n_heap n p; now = e_now e in
       if ss_await s then n
       else if ss_ourDepositTxID s \<noteq> [] \<and> ss_depositHex s \<noteq> [] then
         (let rolePreCreated = (ss_isMaker s \<and> ss_state s < csCreatedA \<or> \<not> ss_isMaker s \<and> ss_state s < csCreatedB);
              depositSent = (case session_order n s of None \<Rightarrow> False | Some ord \<Rightarrow> o_DepositSent ord)
          in if \<not> rolePreCreated \<or> depositSent then n
             else if ss_depositRetryAt s = 0 \<or> ss_depositRetryAt s > now then n
             else adoptOrRepostDeposit e p n)
       else if ss_ourDepositTxID s \<noteq> [] then n
       else let due = (if ss_depositRetryAt s = 0 then \<not> (ss_lastProgress s \<noteq> 0 \<and> ss_lastProgress s + claimRetryBaseMicro > now)
                  else \<not> ss_depositRetryAt s > now) in
         if ss_isMaker s \<and> ss_state s < csCreatedA \<and> ss_theirPub s \<noteq> replicate 33 0
         then (if due then rebuild_deposit e orderID p (BuildA p (snapshot e n p)) n else n)
         else if \<not> ss_isMaker s \<and> ss_state s < csCreatedB \<and> ss_theirDepositTxID s \<noteq> []
         then (if due then rebuild_deposit e orderID p (BuildB p (snapshot e n p)) n else n)
         else n)"

definition retryFailedDepositBuilds :: "'k Env \<Rightarrow> string list \<Rightarrow> Node \<Rightarrow> Node" where
  "retryFailedDepositBuilds e keys n = fold (retry_deposit_one e) keys n"

definition retry_claim_one :: "'k Env \<Rightarrow> string \<Rightarrow> Node \<Rightarrow> Node" where
  "retry_claim_one e orderID n = (case n_sessions n orderID of None \<Rightarrow> n
     | Some p \<Rightarrow> let s = n_heap n p; now = e_now e in
       if ss_await s \<or> ss_claimRetryAt s = 0 \<or> ss_claimRetryAt s > now then n
       else if ss_claimTxID s \<noteq> [] \<and> ss_claimHex s \<noteq> [] then
         (let rolePreConfirmed = (ss_isMaker s \<and> (ss_state s = csCreatedA \<or> ss_state s = csConfirmedA)
                \<or> \<not> ss_isMaker s \<and> (ss_state s = csCreatedB \<or> ss_state s = csConfirmedB))
          in if \<not> rolePreConfirmed then upd p (\<lambda>s. s\<lparr>ss_claimRetryAt := 0\<rparr>) n else adoptOrRepostClaim e p n)
       else if ss_claimTxID s \<noteq> [] then n
       else if \<not> ss_isMaker s \<and> ss_state s = csCreatedB \<and> ss_theirPayTxID s \<noteq> []
         then rebuild_claim e orderID p (ClaimB p (snapshot e n p) (ss_theirPayTxID s)) n
       else if ss_isMaker s \<and> ss_state s = csCreatedA
         then rebuild_claim e orderID p (ClaimA p (snapshot e n p)) n
       else n)"

definition retryFailedClaimBuilds :: "'k Env \<Rightarrow> string list \<Rightarrow> Node \<Rightarrow> Node" where
  "retryFailedClaimBuilds e keys n = fold (retry_claim_one e) keys n"

section \<open>Resent HoldApplies and silent hubs\<close>

definition holdApplyResendMicro :: u64 where "holdApplyResendMicro = 60 * 1000000"
definition hubSilenceMicro :: u64 where "hubSilenceMicro = 10 * 60 * 1000000"
definition silentHubTTLMicro :: u64 where "silentHubTTLMicro = 24 * 60 * 60 * 1000000"

definition resend_one :: "'k Env \<Rightarrow> string \<Rightarrow> Node \<Rightarrow> Node" where
  "resend_one e orderID n = (case n_sessions n orderID of None \<Rightarrow> n
     | Some p \<Rightarrow> let s = n_heap n p; now = e_now e in
       if ss_state s \<noteq> csHoldApplied \<or> ss_holdApplySentAt s = 0 then n
       else if ss_await s then n
       else if now \<le> ss_holdApplySentAt s \<or> now - ss_holdApplySentAt s < holdApplyResendMicro then n
       else case holdApplySource e s of Inl _ \<Rightarrow> n
         | Inr src \<Rightarrow>
           let body = HoldApplyBody_Marshal \<lparr>hab_HubAddress = ss_hub s, hab_ClientAddress = src, hab_ID = ss_id s\<rparr>;
               (n, ok) = send e (ss_hub s) XbcTransactionHoldApply body (ss_privKey s) n
           in if ok then upd p (\<lambda>s. s\<lparr>ss_holdApplySentAt := now\<rparr>) n else n)"

definition resendHoldApplies :: "'k Env \<Rightarrow> string list \<Rightarrow> Node \<Rightarrow> Node" where
  "resendHoldApplies e keys n = fold (resend_one e) keys n"

definition silent_one :: "'k Env \<Rightarrow> string \<Rightarrow> Node \<Rightarrow> Node" where
  "silent_one e orderID n = (case live n orderID of None \<Rightarrow> n
     | Some s \<Rightarrow> let now = e_now e in
       if ss_state s \<noteq> csHoldApplied \<or> ss_holdApplySentAt s = 0 \<or> ss_hubKey s = replicate 33 0 then n
       else if now \<le> ss_holdApplySentAt s \<or> now - ss_holdApplySentAt s < hubSilenceMicro then n
       else if e_startedAt e \<noteq> 0 \<and> ss_holdApplySentAt s < e_startedAt e then n
       else if n_silentHubs n (ss_hubKey s) \<noteq> None then n
       else n\<lparr>n_silentHubs := (n_silentHubs n)(ss_hubKey s \<mapsto> now + silentHubTTLMicro)\<rparr>)"

definition recordSilentHubs :: "'k Env \<Rightarrow> string list \<Rightarrow> Node \<Rightarrow> Node" where
  "recordSilentHubs e keys n = fold (silent_one e) keys n"

section \<open>Packets\<close>

definition hubRegistered :: "'k Env \<Rightarrow> bytes \<Rightarrow> bool" where
  "hubRegistered e pk = e_known e pk"

definition verifyHubPacket :: "'k Env \<Rightarrow> Packet \<Rightarrow> SwapSession \<Rightarrow> bool" where
  "verifyHubPacket e pkt s = (
     if ss_hubKey s = replicate 33 0 then False
     else if \<not> verified e pkt (hexEncode (ss_hubKey s)) then False
     else if ss_state s \<ge> csHoldApplied then True
     else hubRegistered e (ss_hubKey s))"

definition processSwap :: "'k Env \<Rightarrow> Packet \<Rightarrow> bytes \<Rightarrow> bytes \<Rightarrow> (nat \<Rightarrow> Node \<Rightarrow> Node \<times> reply) \<Rightarrow> Node \<Rightarrow> Node" where
  "processSwap e pkt i hub fn n = (case n_sessions n (hexEncode i) of None \<Rightarrow> n
     | Some p \<Rightarrow>
       if \<not> verifyHubPacket e pkt (n_heap n p) then n
       else let n = (if hub \<noteq> replicate 20 0 then upd p (\<lambda>s. s\<lparr>ss_hub := hub\<rparr>) n else n);
                n = upd p (\<lambda>s. s\<lparr>ss_lastProgress := e_now e\<rparr>) n in
       if ss_await (n_heap n p) then n
       else case fn p n of
           (n, Inl _) \<Rightarrow> n
         | (n, Inr None) \<Rightarrow> n
         | (n, Inr (Some (cmd, body))) \<Rightarrow>
           (let (n, ok) = send e (ss_hub (n_heap n p)) cmd body (ss_privKey (n_heap n p)) n
            in if ok \<and> cmd = XbcTransactionHoldApply then upd p (\<lambda>s. s\<lparr>ss_holdApplySentAt := e_now e\<rparr>) n else n))"

text \<open>The cases of the dispatcher that concern swaps; an order announcement is booked elsewhere.\<close>

definition handleSwapPacket :: "'k Env \<Rightarrow> Packet \<Rightarrow> xbody \<Rightarrow> Node \<Rightarrow> Node" where
  "handleSwapPacket e pkt body n = (case body of
       XHold b \<Rightarrow> processSwap e pkt (hb_ID b) (hb_HubAddress b) (OnHold e b) n
     | XInit b \<Rightarrow> processSwap e pkt (ib_ID b) (ib_HubAddress b) (OnInit e b) n
     | XCreateA b \<Rightarrow> processSwap e pkt (cab_ID b) (cab_HubAddress b) (OnCreateA e b) n
     | XCreateB b \<Rightarrow> processSwap e pkt (cbb_ID b) (cbb_HubAddress b) (OnCreateB e b) n
     | XConfirmA b \<Rightarrow> processSwap e pkt (cfab_ID b) (cfab_HubAddress b) (OnConfirmA e b) n
     | XConfirmB b \<Rightarrow> processSwap e pkt (cfbb_ID b) (cfbb_HubAddress b) (OnConfirmB e b) n
     | XFinished b \<Rightarrow> processSwap e pkt (fb_ID b) (replicate 20 0) (OnFinished e b) n
     | XCancel b \<Rightarrow> handleRemoteCancel e pkt b n
     | XReject b \<Rightarrow> handleRemoteReject e pkt b n
     | _ \<Rightarrow> n)"

end
