(* ===== verification/SwapWatch.thy ===== *)
theory SwapWatch
  imports SwapHandlers
begin

text \<open>
  The two watches over deposits: the counterparty's, whose durable absence cancels the swap
  (\<^verbatim>\<open>api/swap.go\<close>), and our own, whose spender carries the secret (\<^verbatim>\<open>api/own_deposit_watch.go\<close>),
  found in the mempool or by reading blocks from a saved cursor. A panic of a worker is an error
  result without a value.
\<close>

section \<open>The counterparty's deposit\<close>

text \<open>A block time so long that the product wraps to a negative number gives the lower bound, with either rounding of the division.\<close>

definition depositWatchVanishThreshold :: "int \<Rightarrow> int" where
  "depositWatchVanishThreshold blockTimeSec = (if blockTimeSec \<le> 0 then 6
     else let k = wrap64 (2 * blockTimeSec + 59) div 60 + 1
       in if k < 3 then 3 else if k > 12 then 12 else k)"

definition pre_claim :: "SwapSession \<Rightarrow> bool" where
  "pre_claim s = (if ss_isMaker s then \<not> (ss_state s < csCreatedA \<or> ss_state s \<ge> csConfirmedA)
     else \<not> (ss_state s < csCreatedB \<or> ss_state s \<ge> csConfirmedB))"

definition order_resolved :: "Node \<Rightarrow> string \<Rightarrow> bool" where
  "order_resolved n orderID = (case Store_Get (n_store n) orderID of None \<Rightarrow> False
     | Some ord \<Rightarrow> isOrderTerminal (o_Status ord) \<or> o_CounterpartyRedeemed ord \<or> o_Status ord = ''rolled back''
         \<or> o_Status ord = ''rollback failed'')"

definition watch_guarded :: "Node \<Rightarrow> string \<Rightarrow> SwapSession \<Rightarrow> bool" where
  "watch_guarded n orderID s \<longleftrightarrow> ss_theirDepositTxID s = [] \<or> ss_await s \<or> ss_claimHex s \<noteq> [] \<or> ss_claimTxID s \<noteq> []
     \<or> ss_secretHunt s \<or> \<not> pre_claim s \<or> order_resolved n orderID \<or> ss_theirP2SHNative s = 0"

definition reset_misses :: "nat \<Rightarrow> Node \<Rightarrow> Node" where
  "reset_misses p = upd p (\<lambda>s. s\<lparr>ss_vanishMisses := 0\<rparr>)"

definition postDepositWatchTask :: "'k Env \<Rightarrow> string \<Rightarrow> Node \<Rightarrow> Node" where
  "postDepositWatchTask e orderID n = (case live n orderID of None \<Rightarrow> n
     | Some s \<Rightarrow>
       let blockTime = (case e_confs e (ss_dstCur s) of None \<Rightarrow> 0 | Some cc \<Rightarrow> if cc_BlockTime cc > 0 then cc_BlockTime cc else 0);
           threshold = depositWatchVanishThreshold blockTime;
           proveSpend = (ss_ourDepositTxID s \<noteq> [] \<and> rollbackGate n orderID);
           decisiveOwnProbe = (proveSpend \<and> ss_vanishMisses s + 1 \<ge> threshold);
           (n, ok) = enqueue e (WatchDeposit orderID (e_connectors e (ss_dstCur s)) (ss_dstCur s) (ss_theirDepositTxID s)
             (ss_theirDepositVout s) decisiveOwnProbe threshold (e_connectors e (ss_srcCur s)) (ss_ourDepositTxID s)) n
       in if ok then n else n\<lparr>n_pendingWatch := n_pendingWatch n - {orderID}\<rparr>)"

definition watch_one :: "'k Env \<Rightarrow> string \<Rightarrow> Node \<Rightarrow> Node" where
  "watch_one e orderID n = (case n_sessions n orderID of None \<Rightarrow> n
     | Some p \<Rightarrow> if watch_guarded n orderID (n_heap n p) then reset_misses p n
         else if orderID \<in> n_pendingWatch n then n
         else postDepositWatchTask e orderID (n\<lparr>n_pendingWatch := insert orderID (n_pendingWatch n)\<rparr>))"

definition watchCounterpartyDeposits :: "'k Env \<Rightarrow> string list \<Rightarrow> Node \<Rightarrow> Node" where
  "watchCounterpartyDeposits e keys n = fold (watch_one e) keys n"

record depositWatchOutcome =
  dw_unspent :: bool
  dw_ownKnown :: bool
  dw_ownSpent :: bool

definition runDepositWatchTask :: "Connector option \<Rightarrow> string \<Rightarrow> string \<Rightarrow> u32 \<Rightarrow> bool task" where
  "runDepositWatchTask conn cur txid vout = (case conn of None \<Rightarrow> Inl (TErr (''api: no connector for '' @ cur))
     | Some c \<Rightarrow> (case cn_GetTxOut c txid vout of Inl err \<Rightarrow> Inl err | Inr (_, ok) \<Rightarrow> Inr ok))"

definition depositWatch_run :: "Connector option \<Rightarrow> string \<Rightarrow> string \<Rightarrow> u32 \<Rightarrow> bool \<Rightarrow> Connector option \<Rightarrow> string \<Rightarrow> depositWatchOutcome task" where
  "depositWatch_run conn dstCur depTxID depVout decisive ownConn ourDepTxID =
     (case runDepositWatchTask conn dstCur depTxID depVout of
        Inl err \<Rightarrow> Inl err
      | Inr unspent \<Rightarrow> if unspent \<or> \<not> decisive then Inr \<lparr>dw_unspent = unspent, dw_ownKnown = False, dw_ownSpent = False\<rparr>
          else (case probeOwnDeposit ownConn ourDepTxID ownDepositVout of (known, spent) \<Rightarrow>
            Inr \<lparr>dw_unspent = False, dw_ownKnown = known, dw_ownSpent = spent\<rparr>))"

definition applyDepositWatch :: "'k Env \<Rightarrow> string \<Rightarrow> int \<Rightarrow> depositWatchOutcome task \<Rightarrow> Node \<Rightarrow> Node" where
  "applyDepositWatch e orderID threshold v n = (let n = n\<lparr>n_pendingWatch := n_pendingWatch n - {orderID}\<rparr> in
     case n_sessions n orderID of None \<Rightarrow> n
     | Some p \<Rightarrow> let s = n_heap n p in (case v of
         Inl _ \<Rightarrow> reset_misses p n
       | Inr out \<Rightarrow>
         if dw_unspent out \<or> ss_secretHunt s \<or> ss_await s \<or> ss_claimHex s \<noteq> [] \<or> ss_claimTxID s \<noteq> [] \<or> \<not> pre_claim s
           \<or> order_resolved n orderID then reset_misses p n
         else if ss_vanishMisses s + 1 < threshold then upd p (\<lambda>s. s\<lparr>ss_vanishMisses := ss_vanishMisses s + 1\<rparr>) n
         else let n = reset_misses p n in
           if dw_ownKnown out \<and> dw_ownSpent out \<and> \<not> ss_isMaker s then enterSecretHunt e orderID n
           else sendSelfCancel e p (if ss_isMaker s then crBadBDepositTx else crBadADepositTx) n))"

section \<open>Blocks from a cursor\<close>

definition ownWatchFetchBudget :: nat where "ownWatchFetchBudget = 200"
definition rescanPageBudget :: int where "rescanPageBudget = 3"
definition rescanPageBudgetCap :: int where "rescanPageBudgetCap = 12"
definition rescanWindowBlocks :: int where "rescanWindowBlocks = 144"

definition rescanPageBudgetFor :: "int \<Rightarrow> int" where
  "rescanPageBudgetFor blockTime = (if blockTime > 0 \<and> blockTime \<le> 20
     then (let p = 120 div blockTime + 1 in if p < rescanPageBudgetCap then p else rescanPageBudgetCap)
     else rescanPageBudget)"

record rescanOutcome =
  rs_spender :: string
  rs_nextCursor :: u32
  rs_advanced :: bool
  rs_err :: "task_err option"

record rescanQuery =
  rq_depTxID :: string
  rq_excludeTxID :: string
  rq_depVout :: u32
  rq_cursor :: u32
  rq_hx :: bytes
  rq_hasTime :: bool
  rq_pageBudget :: int

definition seedRescanStart :: "Connector \<Rightarrow> string \<Rightarrow> int \<Rightarrow> u32" where
  "seedRescanStart conn depTxID tip = (
     let window = (let start = tip - rescanWindowBlocks in if start > 0 then word_of_int start else 0)
     in case cn_GetRawTransactionVerbose conn depTxID of Inl _ \<Rightarrow> window
        | Inr vtx \<Rightarrow> if vt_HasConfirmations vtx \<and> vt_Confirmations vtx \<ge> 0
            then (let start = tip - vt_Confirmations vtx in if start > 0 then word_of_int start else 0) else window)"

definition rescanBackoffActive :: "'k Env \<Rightarrow> Node \<Rightarrow> string \<Rightarrow> bool" where
  "rescanBackoffActive e n idHex = (case n_rescanRetryAt n idHex of None \<Rightarrow> False | Some retryAt \<Rightarrow> e_now e < retryAt)"

definition recordRescanFailure :: "'k Env \<Rightarrow> string \<Rightarrow> Node \<Rightarrow> Node" where
  "recordRescanFailure e idHex n = (let a = (case n_rescanAttempts n idHex of None \<Rightarrow> 0 | Some k \<Rightarrow> k) + 1 in
     n\<lparr>n_rescanAttempts := (n_rescanAttempts n)(idHex \<mapsto> a),
       n_rescanRetryAt := (n_rescanRetryAt n)(idHex \<mapsto> e_now e + refund_delay a)\<rparr>)"

definition clearRescanFailure :: "string \<Rightarrow> Node \<Rightarrow> Node" where
  "clearRescanFailure idHex n = n\<lparr>n_rescanAttempts := (n_rescanAttempts n)(idHex := None),
     n_rescanRetryAt := (n_rescanRetryAt n)(idHex := None)\<rparr>"

text \<open>One page: the first transaction that spends the deposit and carries the secret, or why the page could not be decided.\<close>

datatype page = PageErr task_err | PageClean | PageHit string

fun scan_page :: "(bytes \<Rightarrow> bytes) \<Rightarrow> Connector \<Rightarrow> rescanQuery \<Rightarrow> BlockTx list \<Rightarrow> page task" where
  "scan_page rip conn q [] = Inr PageClean"
| "scan_page rip conn q (tx # txs) = (
     if rq_excludeTxID q \<noteq> [] \<and> bt_TxID tx = rq_excludeTxID q then scan_page rip conn q txs
     else if (rq_depTxID q, rq_depVout q) \<notin> set (bt_Vin tx) then scan_page rip conn q txs
     else case cn_GetRawTransaction conn (bt_TxID tx) of Inl er \<Rightarrow> Inr (PageErr er)
       | Inr payHex \<Rightarrow> t_bind (secretFromPayTx rip payHex (rq_hx q) (rq_hasTime q) (rq_depTxID q) (rq_depVout q)) (\<lambda>r.
           case r of None \<Rightarrow> scan_page rip conn q txs | Some _ \<Rightarrow> Inr (PageHit (bt_TxID tx))))"

definition read_page :: "(bytes \<Rightarrow> bytes) \<Rightarrow> Connector \<Rightarrow> rescanQuery \<Rightarrow> int \<Rightarrow> page task" where
  "read_page rip conn q h = (case cn_GetBlockHash conn h of Inl er \<Rightarrow> Inr (PageErr er)
     | Inr bh \<Rightarrow> (case cn_GetBlockTxs conn bh of Inl er \<Rightarrow> Inr (PageErr er) | Inr txs \<Rightarrow> scan_page rip conn q txs))"

fun rescan_loop :: "(bytes \<Rightarrow> bytes) \<Rightarrow> Connector \<Rightarrow> rescanQuery \<Rightarrow> u32 \<Rightarrow> u32 \<Rightarrow> int list \<Rightarrow> rescanOutcome task" where
  "rescan_loop rip conn q start nxt [] = Inr \<lparr>rs_spender = [], rs_nextCursor = nxt, rs_advanced = (nxt \<noteq> start), rs_err = None\<rparr>"
| "rescan_loop rip conn q start nxt (h # hs) = t_bind (read_page rip conn q h) (\<lambda>pg. case pg of
       PageErr er \<Rightarrow> Inr \<lparr>rs_spender = [], rs_nextCursor = nxt, rs_advanced = (nxt \<noteq> start), rs_err = Some er\<rparr>
     | PageHit txid \<Rightarrow> Inr \<lparr>rs_spender = txid, rs_nextCursor = word_of_int h + 1, rs_advanced = True, rs_err = None\<rparr>
     | PageClean \<Rightarrow> rescan_loop rip conn q start (word_of_int h + 1) hs)"

definition runRescanPages :: "(bytes \<Rightarrow> bytes) \<Rightarrow> Connector \<Rightarrow> rescanQuery \<Rightarrow> rescanOutcome task" where
  "runRescanPages rip conn q = (
     let stay = (\<lambda>er. Inr \<lparr>rs_spender = [], rs_nextCursor = rq_cursor q, rs_advanced = False, rs_err = er\<rparr>)
     in case cn_GetBlockCount conn of Inl er \<Rightarrow> stay (Some er)
        | Inr tip \<Rightarrow> if tip < 1 then stay None
          else let cursor = (if rq_cursor q = 0 then seedRescanStart conn (rq_depTxID q) tip else rq_cursor q);
                   budget = (if rq_pageBudget q < 1 then rescanPageBudget else rq_pageBudget q);
                   first = uint cursor; last = min tip (uint cursor + budget - 1)
               in rescan_loop rip conn q cursor cursor [first..last])"

section \<open>Our own deposit\<close>

record ownWatchResult =
  ow_spender :: string
  ow_scanned :: "string list"
  ow_rechecked :: bool
  ow_depositLive :: bool
  ow_nextCursor :: u32
  ow_cursorAdvanced :: bool
  ow_rescanErr :: "task_err option"
  ow_ranRescanLeg :: bool

definition no_result :: ownWatchResult where
  "no_result = \<lparr>ow_spender = [], ow_scanned = [], ow_rechecked = False, ow_depositLive = False, ow_nextCursor = 0,
     ow_cursorAdvanced = False, ow_rescanErr = None, ow_ranRescanLeg = False\<rparr>"

fun mempool_loop :: "(bytes \<Rightarrow> bytes) \<Rightarrow> Connector \<Rightarrow> own_query \<Rightarrow> nat \<Rightarrow> string list \<Rightarrow> string list \<Rightarrow> (string list \<times> string) task" where
  "mempool_loop rip conn q fetched scanned [] = Inr (scanned, [])"
| "mempool_loop rip conn q fetched scanned (txid # txids) = (
     if txid \<in> oq_seen q then mempool_loop rip conn q fetched scanned txids
     else if fetched \<ge> ownWatchFetchBudget then Inr (scanned, [])
     else case cn_GetRawTransaction conn txid of Inl _ \<Rightarrow> mempool_loop rip conn q (Suc fetched) scanned txids
       | Inr payHex \<Rightarrow> t_bind (secretFromPayTx rip payHex (oq_hx q) (oq_hasTime q) (oq_depTxID q) ownDepositVout) (\<lambda>r.
           case r of Some _ \<Rightarrow> Inr (scanned @ [txid], txid)
           | None \<Rightarrow> mempool_loop rip conn q (Suc fetched) (scanned @ [txid]) txids))"

text \<open>
  \<^verbatim>\<open>runOwnWatchTask\<close>: what was scanned, the spender, and the error; a panic aborts the whole task.
\<close>

definition runOwnWatchTask :: "(bytes \<Rightarrow> bytes) \<Rightarrow> own_query \<Rightarrow> (string list \<times> string \<times> task_err option) task" where
  "runOwnWatchTask rip q = (case oq_conn q of None \<Rightarrow> Inr ([], [], Some (TErr ''wallet: no chain source''))
     | Some conn \<Rightarrow> (case cn_GetRawMempool conn of Inl er \<Rightarrow> Inr ([], [], Some er)
         | Inr txids \<Rightarrow> t_bind (mempool_loop rip conn q 0 [] txids) (\<lambda>(scanned, spender). Inr (scanned, spender, None))))"

definition ownWatch_run :: "(bytes \<Rightarrow> bytes) \<Rightarrow> own_query \<Rightarrow> ownWatchResult \<times> task_err option" where
  "ownWatch_run rip q = (
     let (known, spent) = (if oq_hunt q then probeOwnDeposit (oq_conn q) (oq_depTxID q) ownDepositVout else (False, False));
         res = no_result\<lparr>ow_rechecked := known, ow_depositLive := known \<and> \<not> spent\<rparr>
     in case runOwnWatchTask rip q of Inl er \<Rightarrow> (no_result, Some er)
        | Inr (scanned, spender, merr) \<Rightarrow>
          let res = res\<lparr>ow_spender := spender, ow_scanned := scanned\<rparr> in
          if \<not> (oq_hunt q \<and> spender = [] \<and> oq_rescanDue q) then (res, merr)
          else (case oq_conn q of None \<Rightarrow> (no_result, Some (TPanic ''nil connector''))
            | Some conn \<Rightarrow> (case runRescanPages rip conn \<lparr>rq_depTxID = oq_depTxID q, rq_excludeTxID = oq_excludeTxID q,
                  rq_depVout = ownDepositVout, rq_cursor = oq_cursor q, rq_hx = oq_hx q, rq_hasTime = oq_hasTime q,
                  rq_pageBudget = rescanPageBudgetFor (oq_blockTime q)\<rparr> of
                Inl er \<Rightarrow> (no_result, Some er)
              | Inr rsc \<Rightarrow> (res\<lparr>ow_ranRescanLeg := True, ow_nextCursor := rs_nextCursor rsc, ow_cursorAdvanced := rs_advanced rsc,
                  ow_rescanErr := rs_err rsc, ow_spender := rs_spender rsc\<rparr>, merr))))"

definition own_watched :: "Node \<Rightarrow> string \<Rightarrow> SwapSession \<Rightarrow> bool" where
  "own_watched n orderID s \<longleftrightarrow> \<not> (ss_isMaker s \<or> ss_await s)
     \<and> (ss_state s = csCreatedB \<or> ss_secretHunt s \<and> orderDepositSent n orderID)
     \<and> \<not> (ss_ourDepositTxID s = [] \<or> ss_claimTxID s \<noteq> [] \<or> ss_secret s \<noteq> replicate 33 0)
     \<and> ss_theirSecretHash s \<noteq> replicate 20 0"

definition postOwnWatchTask :: "'k Env \<Rightarrow> string \<Rightarrow> Node \<Rightarrow> Node" where
  "postOwnWatchTask e orderID n = (case n_sessions n orderID of None \<Rightarrow> n
     | Some p \<Rightarrow>
       let s = n_heap n p; cc = e_confs e (ss_srcCur s);
           excludeTxID = (if ss_refundHex s \<noteq> [] then (case txIDFromHex (ss_refundHex s) of Inr rid \<Rightarrow> rid | Inl _ \<Rightarrow> []) else []);
           seen = (case n_ownWatchSeen n orderID of None \<Rightarrow> {} | Some m \<Rightarrow> m);
           n = n\<lparr>n_ownWatchSeen := (n_ownWatchSeen n)(orderID \<mapsto> seen)\<rparr>;
           (n, ok) = enqueue e (OwnWatch p orderID \<lparr>oq_conn = e_connectors e (ss_srcCur s), oq_depTxID = ss_ourDepositTxID s,
             oq_hunt = ss_secretHunt s, oq_cursor = ss_scanCursor s, oq_hx = ss_theirSecretHash s,
             oq_hasTime = (case cc of None \<Rightarrow> False | Some c \<Rightarrow> cc_TxWithTimeField c),
             oq_blockTime = (case cc of None \<Rightarrow> 0 | Some c \<Rightarrow> cc_BlockTime c), oq_excludeTxID = excludeTxID,
             oq_rescanDue = (\<not> rescanBackoffActive e n orderID), oq_seen = seen\<rparr>) n
       in if ok then n else n\<lparr>n_pendingOwnWatch := n_pendingOwnWatch n - {orderID}\<rparr>)"

definition own_watch_one :: "'k Env \<Rightarrow> string \<Rightarrow> Node \<Rightarrow> Node" where
  "own_watch_one e orderID n = (case live n orderID of None \<Rightarrow> n
     | Some s \<Rightarrow> if \<not> own_watched n orderID s then n
         else if orderID \<in> n_pendingOwnWatch n then n
         else postOwnWatchTask e orderID (n\<lparr>n_pendingOwnWatch := insert orderID (n_pendingOwnWatch n)\<rparr>))"

definition watchOwnDepositSpends :: "'k Env \<Rightarrow> string list \<Rightarrow> Node \<Rightarrow> Node" where
  "watchOwnDepositSpends e keys n = fold (own_watch_one e) keys n"

text \<open>
  The result: a seen-set that is gone makes the merge panic, and the panic ends the step there.
\<close>

definition own_hunt_cleared :: "'k Env \<Rightarrow> nat \<Rightarrow> ownWatchResult \<Rightarrow> Node \<Rightarrow> Node" where
  "own_hunt_cleared e p res n = (if ow_spender res = [] \<and> ss_secretHunt (n_heap n p) \<and> ow_rechecked res \<and> ow_depositLive res
     then persist e (upd p (\<lambda>s. s\<lparr>ss_secretHunt := False, ss_huntSince := 0\<rparr>) n) else n)"

definition own_cursor_saved :: "'k Env \<Rightarrow> nat \<Rightarrow> string \<Rightarrow> ownWatchResult \<Rightarrow> Node \<Rightarrow> Node" where
  "own_cursor_saved e p orderID res n = (
     let n = (if ow_cursorAdvanced res
           then persist e (clearRescanFailure orderID (upd p (\<lambda>s. s\<lparr>ss_scanCursor := ow_nextCursor res\<rparr>) n)) else n)
     in if \<not> ow_ranRescanLeg res then n
        else if ow_rescanErr res \<noteq> None then recordRescanFailure e orderID n
        else if ow_spender res \<noteq> [] \<or> ow_cursorAdvanced res then clearRescanFailure orderID n else n)"

definition applyOwnWatch :: "'k Env \<Rightarrow> nat \<Rightarrow> string \<Rightarrow> ownWatchResult \<times> task_err option \<Rightarrow> Node \<Rightarrow> Node" where
  "applyOwnWatch e p orderID v n = (case v of (res, err) \<Rightarrow>
     let n = n\<lparr>n_pendingOwnWatch := n_pendingOwnWatch n - {orderID}\<rparr> in
     if \<not> sessionAlive n p then n
     else if n_ownWatchSeen n orderID = None \<and> ow_scanned res \<noteq> [] then n
     else let n = (case n_ownWatchSeen n orderID of None \<Rightarrow> n
              | Some seen \<Rightarrow> n\<lparr>n_ownWatchSeen := (n_ownWatchSeen n)(orderID \<mapsto> seen \<union> set (ow_scanned res))\<rparr>);
              n = own_cursor_saved e p orderID res (own_hunt_cleared e p res n)
       in if err \<noteq> None \<or> ow_spender res = [] then n
          else fst (OnConfirmB e \<lparr>cfbb_HubAddress = ss_hub (n_heap n p), cfbb_ID = ss_id (n_heap n p),
            cfbb_APayTxID = ow_spender res\<rparr> p n))"

end
