(* ===== verification/Reconcile.thy ===== *)
theory Reconcile
  imports SwapHandlers
begin

text \<open>
  The table of own broadcasts, \<^verbatim>\<open>api/reconcile.go\<close>: polling their confirmations, sending an
  unconfirmed one again, and dropping those that are final. An operation that ranges over the
  table takes the order \<open>txids\<close> in which it does. A poll or a round of rebroadcasts runs on a
  worker; its result comes back as the list of what it learnt.
\<close>

section \<open>Restoring\<close>

record persistedBroadcast =
  pb_OrderID :: string
  pb_Kind :: broadcastKind
  pb_Coin :: string
  pb_TxID :: string
  pb_Hex :: string
  pb_Seq :: u64
  pb_Confs :: int
  pb_FirstSeenMicro :: u64
  pb_Attempts :: int

definition restored :: "'k Env \<Rightarrow> persistedBroadcast \<Rightarrow> trackedBroadcast" where
  "restored e p = \<lparr>tb_OrderID = pb_OrderID p, tb_Kind = pb_Kind p, tb_Coin = pb_Coin p, tb_TxID = pb_TxID p, tb_Hex = pb_Hex p,
     tb_Seq = pb_Seq p, tb_Confs = pb_Confs p,
     tb_FirstSeenMicro = (if pb_FirstSeenMicro p = 0 then e_now e else pb_FirstSeenMicro p), tb_Attempts = pb_Attempts p\<rparr>"

definition insert_one :: "'k Env \<Rightarrow> persistedBroadcast \<Rightarrow> (string \<rightharpoonup> trackedBroadcast) \<times> u64 \<Rightarrow> (string \<rightharpoonup> trackedBroadcast) \<times> u64" where
  "insert_one e p = (\<lambda>(tracked, maxSeq).
     if pb_TxID p = [] \<or> pb_Coin p = [] then (tracked, maxSeq)
     else if tracked (pb_TxID p) \<noteq> None then (tracked, maxSeq)
     else (tracked(pb_TxID p \<mapsto> restored e p), if pb_Seq p > maxSeq then pb_Seq p else maxSeq))"

definition insertTracked :: "'k Env \<Rightarrow> persistedBroadcast list \<Rightarrow> Node \<Rightarrow> Node" where
  "insertTracked e bc n = (let (tracked, maxSeq) = fold (insert_one e) bc (n_tracked n, 0) in
     n\<lparr>n_tracked := tracked, n_trackedSeq := (if maxSeq > n_trackedSeq n then maxSeq else n_trackedSeq n)\<rparr>)"

definition restoreTracked :: "'k Env \<Rightarrow> persistedBroadcast list \<Rightarrow> Node \<Rightarrow> Node" where
  "restoreTracked e bc n = (if bc = [] then n else insertTracked e bc n)"

section \<open>Which entries are final\<close>

definition trackedCap :: nat where "trackedCap = 500"
definition trackedRetainDepth :: int where "trackedRetainDepth = 6"

definition settleDepth :: "'k Env \<Rightarrow> string \<Rightarrow> int" where
  "settleDepth e coin = (case e_confs e coin of None \<Rightarrow> trackedRetainDepth
     | Some cc \<Rightarrow> if cc_Confirmations cc > trackedRetainDepth then cc_Confirmations cc else trackedRetainDepth)"

definition refundSettleable :: "Node \<Rightarrow> string \<Rightarrow> broadcastKind \<Rightarrow> bool" where
  "refundSettleable n orderID kind = (if kind \<noteq> broadcastRefund then True
     else case Store_Get (n_store n) orderID of None \<Rightarrow> True
       | Some ord \<Rightarrow> isOrderTerminal (o_Status ord) \<or> statusString (o_Status ord) = ''rolled back'')"

definition watchNeeded :: "'k Env \<Rightarrow> Node \<Rightarrow> string \<Rightarrow> string \<Rightarrow> broadcastKind \<Rightarrow> int \<Rightarrow> bool" where
  "watchNeeded e n coin orderID kind confs \<longleftrightarrow> confs < settleDepth e coin \<or> (orderID \<noteq> [] \<and> n_sessions n orderID \<noteq> None)
     \<or> \<not> refundSettleable n orderID kind"

definition entry_needed :: "'k Env \<Rightarrow> Node \<Rightarrow> trackedBroadcast \<Rightarrow> bool" where
  "entry_needed e n tb = watchNeeded e n (tb_Coin tb) (tb_OrderID tb) (tb_Kind tb) (tb_Confs tb)"

definition finalizeWatchEntries :: "'k Env \<Rightarrow> string list \<Rightarrow> Node \<Rightarrow> Node \<times> bool" where
  "finalizeWatchEntries e txids n = (
     let dead = filter (\<lambda>txid. case n_tracked n txid of None \<Rightarrow> False | Some tb \<Rightarrow> \<not> entry_needed e n tb) txids
     in if dead = [] then (n, False)
        else (n\<lparr>n_tracked := (\<lambda>txid. if txid \<in> set dead then None else n_tracked n txid)\<rparr>, True))"

definition migrateSettledArchive :: "'k Env \<Rightarrow> persistedBroadcast list \<Rightarrow> Node \<Rightarrow> Node" where
  "migrateSettledArchive e settled n = (
     let kept = filter (\<lambda>p. pb_TxID p \<noteq> [] \<and> pb_Coin p \<noteq> []
           \<and> watchNeeded e n (pb_Coin p) (pb_OrderID p) (pb_Kind p) (pb_Confs p)) settled
     in if kept = [] then n else insertTracked e kept n)"

definition droppable :: "Node \<Rightarrow> trackedBroadcast \<Rightarrow> bool" where
  "droppable n tb \<longleftrightarrow> \<not> tb_Confs tb < trackedRetainDepth \<and> n_sessions n (tb_OrderID tb) = None
     \<and> refundSettleable n (tb_OrderID tb) (tb_Kind tb)"

definition pruneTracked :: "string list \<Rightarrow> Node \<Rightarrow> Node" where
  "pruneTracked txids n = (
     let entries = List.map_filter (\<lambda>txid. map_option (Pair txid) (n_tracked n txid)) txids in
     if length entries \<le> trackedCap then n
     else let cands = sort_key (\<lambda>(txid, tb). tb_Seq tb) (filter (\<lambda>(txid, tb). droppable n tb) entries);
              dead = set (map fst (take (length entries - trackedCap) cands))
          in n\<lparr>n_tracked := (\<lambda>txid. if txid \<in> dead then None else n_tracked n txid)\<rparr>)"

section \<open>Polling confirmations\<close>

definition with_connector :: "'k Env \<Rightarrow> (trackedBroadcast \<Rightarrow> bool) \<Rightarrow> Node \<Rightarrow> string list \<Rightarrow> (string \<times> Connector \<times> string) list" where
  "with_connector e P n txids = List.map_filter (\<lambda>txid. case n_tracked n txid of None \<Rightarrow> None
     | Some tb \<Rightarrow> if P tb then map_option (\<lambda>c. (txid, c, tb_Hex tb)) (e_connectors e (tb_Coin tb)) else None) txids"

definition finalize_and_save :: "'k Env \<Rightarrow> string list \<Rightarrow> bool \<Rightarrow> Node \<Rightarrow> Node" where
  "finalize_and_save e txids changed n = (let (n, finalized) = finalizeWatchEntries e txids n
     in if changed \<or> finalized then persist e n else n)"

definition pollBroadcastConfirmations :: "'k Env \<Rightarrow> string list \<Rightarrow> Node \<Rightarrow> Node" where
  "pollBroadcastConfirmations e txids n = (if n_pendingConfirm n then n
     else let byTx = map (\<lambda>(txid, c, h). (txid, c)) (with_connector e (\<lambda>_. True) n txids) in
       if byTx = [] then finalize_and_save e txids False n
       else let (n, ok) = enqueue e (PollConfs byTx) (n\<lparr>n_pendingConfirm := True\<rparr>)
         in if ok then n else n\<lparr>n_pendingConfirm := False\<rparr>)"

definition runPoll :: "(string \<times> Connector) list \<Rightarrow> (string \<times> int) list" where
  "runPoll byTx = List.map_filter (\<lambda>(txid, conn). case cn_GetRawTransactionVerbose conn txid of Inl _ \<Rightarrow> None
     | Inr vtx \<Rightarrow> if \<not> vt_HasConfirmations vtx \<or> vt_Confirmations vtx < 0 then None else Some (txid, vt_Confirmations vtx)) byTx"

definition set_confs :: "string \<times> int \<Rightarrow> (string \<rightharpoonup> trackedBroadcast) \<times> bool \<Rightarrow> (string \<rightharpoonup> trackedBroadcast) \<times> bool" where
  "set_confs = (\<lambda>(txid, confs) (tracked, changed). case tracked txid of None \<Rightarrow> (tracked, changed)
     | Some cur \<Rightarrow> if tb_Confs cur \<noteq> confs then (tracked(txid \<mapsto> cur\<lparr>tb_Confs := confs\<rparr>), True) else (tracked, changed))"

definition applyPoll :: "'k Env \<Rightarrow> string list \<Rightarrow> (string \<times> int) list task \<Rightarrow> Node \<Rightarrow> Node" where
  "applyPoll e txids v n = (let n = n\<lparr>n_pendingConfirm := False\<rparr> in
     case v of Inl _ \<Rightarrow> n
     | Inr depths \<Rightarrow> let (tracked, changed) = fold set_confs depths (n_tracked n, False)
         in finalize_and_save e txids changed (n\<lparr>n_tracked := tracked\<rparr>))"

section \<open>Sending again\<close>

definition maxRebroadcasts :: int where "maxRebroadcasts = 10"
definition rebroadcastFloorMicro :: int where "rebroadcastFloorMicro = 120 * 1000000"

definition rebroadcastAfterMicro :: "'k Env \<Rightarrow> string \<Rightarrow> u64" where
  "rebroadcastAfterMicro e coin = (
     let blockTime = (case e_confs e coin of None \<Rightarrow> 60 | Some cc \<Rightarrow> if cc_BlockTime cc > 0 then cc_BlockTime cc else 60);
         after = wrap64 (blockTime * 3 * 1000000)
     in word_of_int (if after < rebroadcastFloorMicro then rebroadcastFloorMicro else after))"

definition rebroadcast_due :: "'k Env \<Rightarrow> trackedBroadcast \<Rightarrow> bool" where
  "rebroadcast_due e tb \<longleftrightarrow> tb_Confs tb = 0 \<and> tb_Attempts tb < maxRebroadcasts \<and> tb_Hex tb \<noteq> []
     \<and> \<not> (e_now e < tb_FirstSeenMicro tb \<or> e_now e - tb_FirstSeenMicro tb \<le> rebroadcastAfterMicro e (tb_Coin tb))"

definition rebroadcastUnconfirmed :: "'k Env \<Rightarrow> string list \<Rightarrow> Node \<Rightarrow> Node" where
  "rebroadcastUnconfirmed e txids n = (if n_pendingRebroadcast n then n
     else let byTx = with_connector e (rebroadcast_due e) n txids in
       if byTx = [] then n
       else let (n, ok) = enqueue e (Rebroadcast byTx) (n\<lparr>n_pendingRebroadcast := True\<rparr>)
         in if ok then n else n\<lparr>n_pendingRebroadcast := False\<rparr>)"

definition runRebroadcast :: "(string \<times> Connector \<times> string) list \<Rightarrow> (string \<times> bool) list" where
  "runRebroadcast byTx = map (\<lambda>(txid, conn, h). (txid, case cn_SendRawTransaction conn h of Inl _ \<Rightarrow> False | Inr _ \<Rightarrow> True)) byTx"

definition count_attempt :: "'k Env \<Rightarrow> string \<times> bool \<Rightarrow> (string \<rightharpoonup> trackedBroadcast) \<times> bool \<Rightarrow> (string \<rightharpoonup> trackedBroadcast) \<times> bool" where
  "count_attempt e = (\<lambda>(txid, sent) (tracked, changed). case tracked txid of None \<Rightarrow> (tracked, changed)
     | Some tb \<Rightarrow> (tracked(txid \<mapsto> tb\<lparr>tb_Attempts := tb_Attempts tb + 1,
         tb_FirstSeenMicro := (if sent then e_now e else tb_FirstSeenMicro tb)\<rparr>), True))"

definition applyRebroadcast :: "'k Env \<Rightarrow> (string \<times> bool) list task \<Rightarrow> Node \<Rightarrow> Node" where
  "applyRebroadcast e v n = (let n = n\<lparr>n_pendingRebroadcast := False\<rparr> in
     case v of Inl _ \<Rightarrow> n
     | Inr sent \<Rightarrow> let (tracked, changed) = fold (count_attempt e) sent (n_tracked n, False);
                      n = n\<lparr>n_tracked := tracked\<rparr>
         in if changed then persist e n else n)"

end
