(* ===== verification/TakeRetry.thy ===== *)
theory TakeRetry
  imports SwapRefund
begin

text \<open>
  Retrying a take that the hub did not accept, \<^verbatim>\<open>api/take_retry.go\<close>: the entries, the parked
  timers and the retry itself. Taking the order again is the function \<open>take_it\<close>, the model of the
  call of \<^verbatim>\<open>TakeOrder\<close>: its error code, if any, and the node after it.
\<close>

section \<open>Entries\<close>

definition registerTakeRetry :: "'k Env \<Rightarrow> string \<Rightarrow> TakeOrderParams \<Rightarrow> Node \<Rightarrow> Node" where
  "registerTakeRetry e idHex p n = (if e_takeRetry e \<le> 0 then n
     else case n_takeRetries n idHex of
         None \<Rightarrow> n\<lparr>n_takeRetries := (n_takeRetries n)(idHex \<mapsto> \<lparr>tr_params = p, tr_attempts = 0\<rparr>)\<rparr>
       | Some _ \<Rightarrow> n)"

definition pruneTakeRetries :: "Node \<Rightarrow> Node" where
  "pruneTakeRetries n = n\<lparr>n_takeRetries := (\<lambda>idHex. case Store_Get (n_store n) idHex of None \<Rightarrow> None
     | Some ord \<Rightarrow> if o_Status ord \<noteq> ''open'' \<and> o_Status ord \<noteq> ''accepting'' then None else n_takeRetries n idHex)\<rparr>"

section \<open>The retry\<close>

definition errBadRequest :: int where "errBadRequest = 1004"
definition errTxNotFound :: int where "errTxNotFound = 1021"
definition errInvalidState :: int where "errInvalidState = 1028"

definition runTakeRetry :: "'k Env \<Rightarrow> (TakeOrderParams \<Rightarrow> Node \<Rightarrow> Node \<times> int option) \<Rightarrow> string \<Rightarrow> TakeOrderParams \<Rightarrow> Node \<Rightarrow> Node" where
  "runTakeRetry e take_it idHex params n = (
     if n_takeRetries n idHex = None then n
     else case Store_Get (n_store n) idHex of None \<Rightarrow> dropTakeRetry idHex n
       | Some ord \<Rightarrow> if o_Status ord \<noteq> ''open'' then dropTakeRetry idHex n
         else let (n, rerr) = take_it params n in
           (case rerr of None \<Rightarrow> n
            | Some code \<Rightarrow>
              if code = errBadRequest \<or> code = errTxNotFound \<or> code = errInvalidState then dropTakeRetry idHex n
              else case n_takeRetries n idHex of None \<Rightarrow> n
                | Some st \<Rightarrow> if e_takeRetry e \<le> 0 \<or> tr_attempts st \<ge> e_takeRetry e then dropTakeRetry idHex n
                    else arm_take_retry idHex st n))"

text \<open>A timer fires: it leaves the list and runs its retry.\<close>

definition fire_timer :: "'k Env \<Rightarrow> (TakeOrderParams \<Rightarrow> Node \<Rightarrow> Node \<times> int option) \<Rightarrow> nat \<Rightarrow> Node \<Rightarrow> Node" where
  "fire_timer e take_it i n = (if i < length (n_timers n)
     then case n_timers n ! i of (idHex, params, attempt, delay) \<Rightarrow>
       runTakeRetry e take_it idHex params (n\<lparr>n_timers := take i (n_timers n) @ drop (Suc i) (n_timers n)\<rparr>)
     else n)"

end
