(* ===== verification/P2PWire.thy ===== *)
theory P2PWire
  imports ProtoPacket
begin

text \<open>
  The messages of the peer protocol: the Bitcoin frame of \<^verbatim>\<open>p2p/message.go\<close>, the xbridge envelope
  and the CompactSize integers of \<^verbatim>\<open>p2p/envelope.go\<close>, the version message of \<^verbatim>\<open>p2p/version.go\<close>
  and the address list of \<^verbatim>\<open>p2p/addr.go\<close>. A \<^verbatim>\<open>net.IP\<close> is its byte slice, of length 4 or 16 or
  empty; an \<^verbatim>\<open>int32\<close> or \<^verbatim>\<open>int64\<close> field is kept as the word that travels and read with \<open>sint\<close>.
\<close>

section \<open>Frames\<close>

definition MainnetMagic :: bytes where "MainnetMagic = [0xa1, 0xa0, 0xa2, 0xa3]"
definition TestnetMagic :: bytes where "TestnetMagic = [0x45, 0x76, 0x65, 0xbb]"
definition RegtestMagic :: bytes where "RegtestMagic = [0xa1, 0xcf, 0x7e, 0xac]"

definition cmdSize :: nat where "cmdSize = 12"
definition MaxPayloadSize :: nat where "MaxPayloadSize = 4000000"

definition ErrChecksum :: go_fail where
  "ErrChecksum = GoErr ''p2p: checksum mismatch''"

record Message =
  m_Magic :: bytes
  m_Command :: string
  m_Length :: u32
  m_Checksum :: bytes
  m_Payload :: bytes

definition Checksum :: "bytes \<Rightarrow> bytes" where
  "Checksum payload = (let d1 = sha256 payload; d2 = sha256 d1 in take 4 d2)"

definition Message_Marshal :: "Message \<Rightarrow> bytes" where
  "Message_Marshal m = (
     let c = take cmdSize (str_bytes (m_Command m)); cmd = c @ replicate (cmdSize - length c) 0
     in m_Magic m @ cmd @ PutUint32 (of_nat (length (m_Payload m))) @ m_Checksum m @ m_Payload m)"

definition UnmarshalMessage :: "bytes \<Rightarrow> Message go" where
  "UnmarshalMessage data = (
     if length data < 4 + cmdSize + 4 + 4 then Inl (GoErr ''p2p: message too short'')
     else let command = bytes_str (takeWhile (\<lambda>b. b \<noteq> 0) (take cmdSize (drop 4 data)));
              len = Uint32 (drop (4 + cmdSize) data);
              checksum = take 4 (drop (4 + cmdSize + 4) data) in
       if unat len > MaxPayloadSize then Inl (GoErr ''p2p: declared payload too large'')
       else if length data < 4 + cmdSize + 8 + unat len then Inl (GoErr ''p2p: payload shorter than declared length'')
       else let payload = take (unat len) (drop (4 + cmdSize + 8) data) in
         if Checksum payload \<noteq> checksum then Inl ErrChecksum
         else Inr \<lparr>m_Magic = take 4 data, m_Command = command, m_Length = len, m_Checksum = checksum, m_Payload = payload\<rparr>)"

section \<open>CompactSize integers and the envelope\<close>

definition writeVarInt :: "nat \<Rightarrow> bytes" where
  "writeVarInt n = (if n < 0xfd then [of_nat n]
     else if n \<le> 0xffff then 0xfd # PutUint16 (of_nat n)
     else if n \<le> 0xffffffff then 0xfe # PutUint32 (of_nat n)
     else 0xff # PutUint64 (of_nat n))"

definition maxCompactSize :: nat where "maxCompactSize = 0x02000000"

definition varint_truncated :: go_fail where
  "varint_truncated = GoErr ''p2p: varint truncated''"

definition readVarInt :: "bytes \<Rightarrow> nat \<Rightarrow> (nat \<times> nat) go" where
  "readVarInt b pos = (if pos \<ge> length b then Inl varint_truncated
     else let first = b ! pos; pos = pos + 1 in
       go_bind (
         if first < 0xfd then Inr (unat first, pos)
         else if first = 0xfd then
           (if pos + 2 > length b then Inl varint_truncated
            else let v = unat (Uint16 (drop pos b)) in
              if v < 0xfd then Inl (GoErr ''p2p: non-canonical varint'') else Inr (v, pos + 2))
         else if first = 0xfe then
           (if pos + 4 > length b then Inl varint_truncated
            else let v = unat (Uint32 (drop pos b)) in
              if v < 0x10000 then Inl (GoErr ''p2p: non-canonical varint'') else Inr (v, pos + 4))
         else
           (if pos + 8 > length b then Inl varint_truncated
            else let v = unat (Uint64 (drop pos b)) in
              if v < 0x100000000 then Inl (GoErr ''p2p: non-canonical varint'') else Inr (v, pos + 8)))
       (\<lambda>(v, pos). if v > maxCompactSize then Inl (GoErr ''p2p: varint too large'') else Inr (v, pos)))"

definition xbridgeEnvelopeSize :: nat where "xbridgeEnvelopeSize = 20 + 8"

text \<open>The clock of the envelope's timestamp is the argument \<open>micro\<close>.\<close>

definition encodeXBridgePayload :: "u64 \<Rightarrow> bytes \<Rightarrow> bytes \<Rightarrow> bytes" where
  "encodeXBridgePayload micro packet dest = (
     let env = dest @ PutUint64 micro @ packet in writeVarInt (length env) @ env)"

definition DecodeXBridgePayload :: "bytes \<Rightarrow> bytes go" where
  "DecodeXBridgePayload payload = go_bind (readVarInt payload 0) (\<lambda>(n, off).
     if off + n \<noteq> length payload then Inl (GoErr ''p2p: xbridge envelope length mismatch'')
     else if n < xbridgeEnvelopeSize then Inl (GoErr ''p2p: xbridge envelope too small'')
     else Inr (take (n - xbridgeEnvelopeSize) (drop (off + xbridgeEnvelopeSize) payload)))"

section \<open>Strings\<close>

definition marshalVarStr :: "string \<Rightarrow> bytes" where
  "marshalVarStr s = writeVarInt (length s) @ str_bytes s"

text \<open>
  The length is converted to \<^verbatim>\<open>int\<close>, so a 64-bit length can be negative or wrap the sum; the
  slice expression panics when its end is before its start.
\<close>

definition unmarshalVarStr :: "bytes \<Rightarrow> (string \<times> nat) go" where
  "unmarshalVarStr b = (if length b < 1 then Inl (GoErr ''p2p: varstr too short'')
     else go_bind (let first = b ! 0 in
         if first < 0xfd then Inr (word_of_nat (unat first), 1)
         else if first = 0xfd then
           (if length b < 3 then Inl (GoErr ''p2p: varstr too short'') else Inr (word_of_nat (unat (Uint16 (drop 1 b))), 3))
         else if first = 0xfe then
           (if length b < 5 then Inl (GoErr ''p2p: varstr too short'') else Inr (word_of_nat (unat (Uint32 (drop 1 b))), 5))
         else (if length b < 9 then Inl (GoErr ''p2p: varstr too short'') else Inr (Uint64 (drop 1 b), 9)))
       (\<lambda>(n :: u64, pos).
         let stop = sint (word_of_nat pos + n) in
         if stop > int (length b) then Inl (GoErr ''p2p: varstr length exceeds payload'')
         else if stop < int pos then Inl (GoPanic ''slice bounds out of range'')
         else Inr (bytes_str (take (nat stop - pos) (drop pos b)), nat stop)))"

section \<open>Addresses\<close>

definition ip_mapped :: "bytes \<Rightarrow> bool" where
  "ip_mapped ip \<longleftrightarrow> length ip = 16 \<and> take 10 ip = replicate 10 0 \<and> ip ! 10 = 0xff \<and> ip ! 11 = 0xff"

text \<open>\<^verbatim>\<open>net.IP.To4\<close> and \<^verbatim>\<open>To16\<close>.\<close>

definition To4 :: "bytes \<Rightarrow> bytes option" where
  "To4 ip = (if length ip = 4 then Some ip else if ip_mapped ip then Some (drop 12 ip) else None)"

definition To16 :: "bytes \<Rightarrow> bytes option" where
  "To16 ip = (if length ip = 4 then Some (replicate 10 0 @ [0xff, 0xff] @ ip) else if length ip = 16 then Some ip else None)"

definition ipTo16 :: "bytes \<Rightarrow> bytes" where
  "ipTo16 ip = (case To4 ip of Some ip4 \<Rightarrow> replicate 10 0 @ [0xff, 0xff] @ ip4
     | None \<Rightarrow> (case To16 ip of Some ip6 \<Rightarrow> ip6 | None \<Rightarrow> replicate 16 0))"

definition netIPFrom16 :: "bytes \<Rightarrow> bytes" where
  "netIPFrom16 b = (if b ! 10 = 0xff \<and> b ! 11 = 0xff then replicate 10 0 @ [0xff, 0xff] @ drop 12 b else b)"

record NetAddr =
  na_Services :: u64
  na_IP :: bytes
  na_Port :: u16

text \<open>\<^verbatim>\<open>binary.BigEndian\<close> for the port.\<close>

definition PutUint16BE :: "u16 \<Rightarrow> bytes" where
  "PutUint16BE v = rev (PutUint16 v)"

definition Uint16BE :: "bytes \<Rightarrow> u16" where
  "Uint16BE b = Uint16 (rev (take 2 b))"

definition marshalNetAddr :: "NetAddr \<Rightarrow> bytes" where
  "marshalNetAddr a = PutUint64 (na_Services a) @ ipTo16 (na_IP a) @ PutUint16BE (na_Port a)"

definition unmarshalNetAddr :: "bytes \<Rightarrow> (NetAddr \<times> nat) go" where
  "unmarshalNetAddr b = (if length b < 26 then Inl (GoErr ''p2p: net_addr too short'')
     else Inr (\<lparr>na_Services = Uint64 b, na_IP = netIPFrom16 (take 16 (drop 8 b)), na_Port = Uint16BE (drop 24 b)\<rparr>, 26))"

section \<open>The version message\<close>

record VersionMessage =
  vm_Version :: u32
  vm_Services :: u64
  vm_Timestamp :: u64
  vm_AddrRecv :: NetAddr
  vm_AddrFrom :: NetAddr
  vm_Nonce :: u64
  vm_UserAgent :: string
  vm_StartHeight :: u32
  vm_Relay :: bool
  vm_FXRouter :: bool

definition VersionMessage_Marshal :: "VersionMessage \<Rightarrow> bytes" where
  "VersionMessage_Marshal m =
     PutUint32 (vm_Version m) @ PutUint64 (vm_Services m) @ PutUint64 (vm_Timestamp m) @ marshalNetAddr (vm_AddrRecv m)
     @ marshalNetAddr (vm_AddrFrom m) @ PutUint64 (vm_Nonce m) @ marshalVarStr (vm_UserAgent m) @ PutUint32 (vm_StartHeight m)
     @ [if vm_Relay m then 1 else 0] @ [if vm_FXRouter m then 1 else 0]"

definition BitcoinProtocolVersion :: u32 where "BitcoinProtocolVersion = 70713"
definition MinPeerProtoVersion :: int where "MinPeerProtoVersion = 70712"
definition UserAgent :: string where "UserAgent = ''/go-xbridge:0.1.0/''"
definition ServiceNodeNone :: u64 where "ServiceNodeNone = 0"

text \<open>The address of the peer, the clock and the random nonce are arguments.\<close>

definition NewVersion :: "(bytes \<times> u16) option \<Rightarrow> u64 \<Rightarrow> u64 \<Rightarrow> VersionMessage" where
  "NewVersion remote now nonce = (
     let zero = \<lparr>na_Services = 0, na_IP = [], na_Port = 0\<rparr>;
         addrRecv = (case remote of None \<Rightarrow> zero | Some (ip, port) \<Rightarrow> \<lparr>na_Services = ServiceNodeNone, na_IP = ip, na_Port = port\<rparr>)
     in \<lparr>vm_Version = BitcoinProtocolVersion, vm_Services = ServiceNodeNone, vm_Timestamp = now, vm_AddrRecv = addrRecv,
         vm_AddrFrom = zero, vm_Nonce = nonce, vm_UserAgent = UserAgent, vm_StartHeight = 0, vm_Relay = False, vm_FXRouter = False\<rparr>)"

definition UnmarshalVersion :: "bytes \<Rightarrow> VersionMessage go" where
  "UnmarshalVersion b = (if length b < 4 + 8 + 8 then Inl (GoErr ''p2p: version payload too short'')
     else go_bind (unmarshalNetAddr (drop 20 b)) (\<lambda>(addrRecv, n1).
       let pos = 20 + n1 in
       go_bind (unmarshalNetAddr (drop pos b)) (\<lambda>(addrFrom, n2).
       let pos = pos + n2 in
       if pos + 8 > length b then Inl (GoErr ''p2p: version payload too short (nonce)'')
       else let nonce = Uint64 (drop pos b); pos = pos + 8 in
       go_bind (unmarshalVarStr (drop pos b)) (\<lambda>(ua, n3).
       let pos = pos + n3 in
       if pos + 4 > length b then Inl (GoErr ''p2p: version payload too short (start height)'')
       else let startHeight = Uint32 (drop pos b); pos = pos + 4;
                relay = (pos < length b \<and> b ! pos \<noteq> 0);
                pos = (if pos < length b then pos + 1 else pos);
                fx = (pos < length b \<and> b ! pos \<noteq> 0)
       in Inr \<lparr>vm_Version = Uint32 b, vm_Services = Uint64 (drop 4 b), vm_Timestamp = Uint64 (drop 12 b), vm_AddrRecv = addrRecv,
           vm_AddrFrom = addrFrom, vm_Nonce = nonce, vm_UserAgent = ua, vm_StartHeight = startHeight, vm_Relay = relay,
           vm_FXRouter = fx\<rparr>))))"

section \<open>Address lists\<close>

record AddrEntry =
  ae_Time :: u32
  ae_Services :: u64
  ae_IP :: bytes
  ae_Port :: u16

definition MaxAddrRecords :: nat where "MaxAddrRecords = 1000"

fun addr_loop :: "nat \<Rightarrow> bytes \<Rightarrow> AddrEntry list" where
  "addr_loop 0 b = []"
| "addr_loop (Suc n) b = (if 30 > length b then []
     else \<lparr>ae_Time = Uint32 b, ae_Services = Uint64 (drop 4 b), ae_IP = netIPFrom16 (take 16 (drop 12 b)),
            ae_Port = Uint16BE (drop 28 b)\<rparr> # addr_loop n (drop 30 b))"

definition ParseAddr :: "bytes \<Rightarrow> AddrEntry list go" where
  "ParseAddr payload = go_bind (readVarInt payload 0) (\<lambda>(n, off).
     if n > MaxAddrRecords then Inl (GoErr ''p2p: addr payload exceeds 1000 records'')
     else Inr (addr_loop n (drop off payload)))"

definition MarshalAddr :: "AddrEntry list \<Rightarrow> bytes" where
  "MarshalAddr addrs = writeVarInt (length addrs)
     @ concat (map (\<lambda>a. PutUint32 (ae_Time a) @ PutUint64 (ae_Services a) @ ipTo16 (ae_IP a) @ PutUint16BE (ae_Port a)) addrs)"

section \<open>Lemmas\<close>

named_theorems wire \<open>reading back what was written\<close>

lemma length_Checksum [simp]: "length (Checksum p) = 4"
  by (simp add: Checksum_def)

lemma unat_of_byte: "n < 256 \<Longrightarrow> unat (of_nat n :: byte) = n"
  by (simp add: unat_of_nat)

lemma readVarInt_writeVarInt [wire]:
  assumes "n \<le> maxCompactSize"
  shows "readVarInt (writeVarInt n @ r) 0 = Inr (n, length (writeVarInt n))"
proof -
  have n: "n \<le> 33554432"
    using assms by (simp add: maxCompactSize_def)
  consider (a) "n < 253" | (b) "253 \<le> n" "n \<le> 65535" | (c) "65536 \<le> n"
    by linarith
  thus ?thesis
  proof cases
    case a
    hence "(of_nat n :: byte) < 0xfd"
      by (simp add: word_less_nat_alt unat_of_nat)
    thus ?thesis
      using a n by (simp add: readVarInt_def writeVarInt_def maxCompactSize_def unat_of_byte)
  next
    case b
    hence "unat (of_nat n :: u16) = n"
      by (simp add: unat_of_nat)
    thus ?thesis
      using b n by (simp add: readVarInt_def writeVarInt_def maxCompactSize_def)
  next
    case c
    hence "unat (of_nat n :: u32) = n"
      using n by (simp add: unat_of_nat)
    thus ?thesis
      using c n by (simp add: readVarInt_def writeVarInt_def maxCompactSize_def)
  qed
qed

text \<open>A length the reader accepts is encoded in one way only.\<close>

lemma readVarInt_canonical:
  assumes "readVarInt b 0 = Inr (n, off)"
  shows "n \<le> maxCompactSize \<and> off \<le> length b \<and> take off b = writeVarInt n"
proof -
  have b: "b \<noteq> []"
    using assms by (auto simp: readVarInt_def)
  then obtain x xs where x: "b = x # xs"
    by (cases b) auto
  consider (a) "x < 0xfd" | (b) "x = 0xfd" | (c) "x = 0xfe" | (d) "x = 0xff"
  proof -
    have "unat x < 256"
      using unat_less_2p [of x] by simp
    hence "unat x < 253 \<or> unat x = 253 \<or> unat x = 254 \<or> unat x = 255"
      by linarith
    thus thesis
      using that by (auto simp: word_less_nat_alt word_unat_eq_iff)
  qed
  thus ?thesis
  proof cases
    case a
    hence "unat x < 253"
      by (simp add: word_less_nat_alt)
    thus ?thesis
      using assms a by (auto simp: readVarInt_def x writeVarInt_def maxCompactSize_def)
  next
    case b
    thus ?thesis
      using assms unat_less_2p [of "Uint16 xs"] PutUint16_Uint16 [of xs, unfolded numeral_2_eq_2]
      by (auto simp: readVarInt_def x writeVarInt_def maxCompactSize_def Let_def split: if_splits)
  next
    case c
    thus ?thesis
      using assms unat_less_2p [of "Uint32 xs"] PutUint32_Uint32 [of xs]
      by (auto simp: readVarInt_def x writeVarInt_def maxCompactSize_def Let_def split: if_splits)
  next
    case d
    thus ?thesis
      using assms by (auto simp: readVarInt_def x maxCompactSize_def Let_def split: if_splits)
  qed
qed

lemma length_writeVarInt: "length (writeVarInt n) \<in> {1, 3, 5, 9}"
  by (simp add: writeVarInt_def)

lemma no_panic_readVarInt [simp]: "\<not> panics (readVarInt b pos)"
  by (auto simp: readVarInt_def panics_go_bind varint_truncated_def Let_def split: if_splits)

lemma DecodeXBridgePayload_encode [wire]:
  assumes "length dest = 20" and "length packet \<le> 2 ^ 24"
  shows "DecodeXBridgePayload (encodeXBridgePayload micro packet dest) = Inr packet"
proof -
  let ?env = "dest @ PutUint64 micro @ packet"
  have len: "length ?env = 28 + length packet"
    using assms(1) by simp
  have "readVarInt (writeVarInt (length ?env) @ ?env) 0 = Inr (length ?env, length (writeVarInt (length ?env)))"
    by (rule readVarInt_writeVarInt) (use len assms(2) in \<open>simp add: maxCompactSize_def\<close>)
  moreover have "drop (length (writeVarInt (length ?env)) + 28) (writeVarInt (length ?env) @ ?env) = packet"
    using assms(1) by simp
  ultimately show ?thesis
    using len by (simp add: DecodeXBridgePayload_def encodeXBridgePayload_def xbridgeEnvelopeSize_def Let_def del: drop_append)
qed

lemma takeWhile_padded: "0 \<notin> set xs \<Longrightarrow> takeWhile (\<lambda>b. b \<noteq> 0) (xs @ replicate k (0 :: byte)) = xs"
  by (induction xs) (auto simp: takeWhile_eq_Nil_iff)

text \<open>A command as the frame carries it: at most 12 bytes, none of them zero.\<close>

definition command_ok :: "string \<Rightarrow> bool" where
  "command_ok c \<longleftrightarrow> length c \<le> cmdSize \<and> 0 \<notin> set (str_bytes c)"

definition frame :: "bytes \<Rightarrow> string \<Rightarrow> bytes \<Rightarrow> Message" where
  "frame magic cmd payload = \<lparr>m_Magic = magic, m_Command = cmd, m_Length = of_nat (length payload), m_Checksum = Checksum payload,
     m_Payload = payload\<rparr>"

lemma Unmarshal_frame [wire]:
  assumes "length magic = 4" and "command_ok cmd" and "length payload \<le> MaxPayloadSize"
  shows "UnmarshalMessage (Message_Marshal (frame magic cmd payload)) = Inr (frame magic cmd payload)"
proof -
  have cmd: "take cmdSize (str_bytes cmd) = str_bytes cmd" "length cmd \<le> 12" "0 \<notin> set (str_bytes cmd)"
    using assms(2) by (simp_all add: command_ok_def cmdSize_def)
  have len: "unat (of_nat (length payload) :: u32) = length payload"
    using assms(3) by (simp add: unat_of_nat MaxPayloadSize_def)
  define pad where "pad = str_bytes cmd @ replicate (12 - length cmd) 0"
  have pad: "length pad = 12" "takeWhile (\<lambda>b. b \<noteq> 0) pad = str_bytes cmd"
    using cmd by (simp_all add: pad_def takeWhile_padded)
  have m: "Message_Marshal (frame magic cmd payload)
      = magic @ pad @ PutUint32 (of_nat (length payload)) @ Checksum payload @ payload"
    using cmd by (simp add: Message_Marshal_def frame_def Let_def pad_def cmdSize_def)
  show ?thesis
    unfolding m UnmarshalMessage_def using assms(1,3) pad len by (simp add: cmdSize_def Let_def frame_def)
qed

end
