(* ===== verification/P2PConn.thy ===== *)
theory P2PConn
  imports P2PWire
begin

text \<open>
  A peer connection, \<^verbatim>\<open>p2p/conn.go\<close>. What the peer sends is the list of bytes that the socket
  still delivers before it fails; a read that finds too few of them is an error. The reader
  skips frames with a bad checksum, the handshake exchanges version and verack, and
  \<^verbatim>\<open>ReadPacket\<close> unwraps frame, envelope and packet. Sending appends to a queue that one writer
  goroutine drains. Deadlines and logging are left out.
\<close>

section \<open>Reading\<close>

definition eof :: go_fail where "eof = GoErr ''unexpected EOF''"
definition ErrMalformedXBridge :: go_fail where "ErrMalformedXBridge = GoErr ''p2p: malformed xbridge envelope''"
definition XBridgeNetCommand :: string where "XBridgeNetCommand = ''xbridge''"

text \<open>The result and what is left of the stream; a failed read leaves nothing.\<close>

function readMessage :: "bytes \<Rightarrow> bytes \<Rightarrow> Message go \<times> bytes" where
  "readMessage magic s = (if length s < 4 + cmdSize + 8 then (Inl eof, [])
     else let hdr = take (4 + cmdSize + 8) s; s1 = drop (4 + cmdSize + 8) s;
              len = unat (Uint32 (drop (4 + cmdSize) hdr)) in
       if len > MaxPayloadSize then (Inl (GoErr ''p2p: implausible message length''), s1)
       else if length s1 < len then (Inl eof, [])
       else let payload = take len s1; s2 = drop len s1 in
         case UnmarshalMessage (hdr @ payload) of
           Inl er \<Rightarrow> if er = ErrChecksum then readMessage magic s2 else (Inl er, s2)
         | Inr msg \<Rightarrow> if m_Magic msg \<noteq> magic then (Inl (GoErr ''p2p: unexpected network magic''), s2) else (Inr msg, s2))"
  by pat_completeness auto
termination
  by (relation "measure (length \<circ> snd)") (auto simp: cmdSize_def)

declare readMessage.simps [simp del]

lemma readMessage_shorter: "readMessage magic s = (Inr msg, s') \<Longrightarrow> length s' < length s"
proof (induction magic s rule: readMessage.induct)
  case (1 magic s)
  show ?case
    using "1.prems" "1.IH" by (subst (asm) readMessage.simps [of magic s]) (fastforce simp: Let_def cmdSize_def split: if_splits sum.splits)
qed

text \<open>
  The messages the callback \<^verbatim>\<open>OnNonXBridge\<close> receives are collected in order. The version gate of
  the packet layer is the argument \<open>ver\<close>.
\<close>

function ReadPacket :: "u32 \<Rightarrow> bytes \<Rightarrow> bytes \<Rightarrow> Packet go \<times> bytes \<times> (string \<times> bytes) list" where
  "ReadPacket ver magic s = (case readMessage magic s of
       (Inl er, s') \<Rightarrow> (Inl er, s', [])
     | (Inr msg, s') \<Rightarrow>
       if m_Command msg \<noteq> XBridgeNetCommand then
         (case ReadPacket ver magic s' of (res, s'', seen) \<Rightarrow> (res, s'', (m_Command msg, m_Payload msg) # seen))
       else case DecodeXBridgePayload (m_Payload msg) of
           Inl er \<Rightarrow> (Inl ErrMalformedXBridge, s', [])
         | Inr pktBytes \<Rightarrow> (Packet_Unmarshal ver pktBytes, s', []))"
  by pat_completeness auto
termination
  by (relation "measure (\<lambda>(_, _, s). length s)") (auto dest: readMessage_shorter [OF sym])

declare ReadPacket.simps [simp del]

definition WritePacket :: "bytes \<Rightarrow> u64 \<Rightarrow> Packet \<Rightarrow> bytes \<Rightarrow> bytes" where
  "WritePacket magic micro p dest = (let payload = encodeXBridgePayload micro (Packet_Marshal p) dest in
     Message_Marshal \<lparr>m_Magic = magic, m_Command = XBridgeNetCommand, m_Length = 0, m_Checksum = Checksum payload, m_Payload = payload\<rparr>)"

definition SendCommand :: "bytes \<Rightarrow> string \<Rightarrow> bytes \<Rightarrow> bytes" where
  "SendCommand magic cmd payload =
     Message_Marshal \<lparr>m_Magic = magic, m_Command = cmd, m_Length = 0, m_Checksum = Checksum payload, m_Payload = payload\<rparr>"

section \<open>The handshake\<close>

definition writeVersion :: "bytes \<Rightarrow> (bytes \<times> u16) option \<Rightarrow> u64 \<Rightarrow> u64 \<Rightarrow> bytes" where
  "writeVersion magic remote now nonce = SendCommand magic ''version'' (VersionMessage_Marshal (NewVersion remote now nonce))"

definition writeVerack :: "bytes \<Rightarrow> bytes" where
  "writeVerack magic = SendCommand magic ''verack'' []"

text \<open>
  The loop until both messages were seen: the peer's version, the rest of the stream, and the
  frames written. \<open>wok\<close> says whether the socket takes a write.
\<close>

function handshake_loop :: "bool \<Rightarrow> bytes \<Rightarrow> bool \<Rightarrow> bool \<Rightarrow> VersionMessage option \<Rightarrow> bytes \<Rightarrow> VersionMessage option go \<times> bytes \<times> bytes list" where
  "handshake_loop wok magic seenVersion seenVerack pv s = (if seenVersion \<and> seenVerack then (Inr pv, s, [])
     else case readMessage magic s of
       (Inl er, s') \<Rightarrow> (Inl er, s', [])
     | (Inr msg, s') \<Rightarrow>
       if m_Command msg = ''version'' then
         (if seenVersion then (Inl (GoErr ''p2p: duplicate version message''), s', [])
          else case UnmarshalVersion (m_Payload msg) of
            Inl er \<Rightarrow> (Inl er, s', [])
          | Inr v \<Rightarrow> if sint (vm_Version v) < MinPeerProtoVersion then (Inl (GoErr ''p2p: peer version below minimum''), s', [])
              else if \<not> wok then (Inl (GoErr ''write''), s', [])
              else (case handshake_loop wok magic True seenVerack (Some v) s' of (res, s'', w) \<Rightarrow> (res, s'', writeVerack magic # w)))
       else if m_Command msg = ''verack'' then handshake_loop wok magic seenVersion True pv s'
       else handshake_loop wok magic seenVersion seenVerack pv s')"
  by pat_completeness auto
termination
  by (relation "measure (\<lambda>(_, _, _, _, _, s). length s)") (auto dest: readMessage_shorter [OF sym])

declare handshake_loop.simps [simp del]

definition handshake :: "bool \<Rightarrow> bytes \<Rightarrow> (bytes \<times> u16) option \<Rightarrow> u64 \<Rightarrow> u64 \<Rightarrow> bytes \<Rightarrow> VersionMessage option go \<times> bytes \<times> bytes list" where
  "handshake wok magic remote now nonce s = (if \<not> wok then (Inl (GoErr ''write''), s, [])
     else case handshake_loop wok magic False False None s of (res, s', w) \<Rightarrow> (res, s', writeVersion magic remote now nonce # w))"

section \<open>The send queue\<close>

definition maxSendBufferSize :: nat where "maxSendBufferSize = 2 ^ 20"

record sendq =
  sq_q :: "bytes list"
  sq_bytes :: nat
  sq_over :: bool
  sq_done :: bool
  sq_err :: "string option"
  sq_writing :: "bytes option"
  sq_sent :: "bytes list"
  sq_accepted :: "bytes list"

definition new_sendq :: sendq where
  "new_sendq = \<lparr>sq_q = [], sq_bytes = 0, sq_over = False, sq_done = False, sq_err = None, sq_writing = None, sq_sent = [], sq_accepted = []\<rparr>"

text \<open>
  \<^verbatim>\<open>enqueue\<close>: the checks, made without the lock, and the part under it. \<open>sq_sent\<close>, \<open>sq_writing\<close>
  and \<open>sq_accepted\<close> record the frames on the wire, in the writer's hand, and taken from callers.
\<close>

definition enqueue_push :: "bytes \<Rightarrow> sendq \<Rightarrow> sendq" where
  "enqueue_push buf c = (let c = c\<lparr>sq_q := sq_q c @ [buf], sq_bytes := sq_bytes c + length buf, sq_accepted := sq_accepted c @ [buf]\<rparr>
     in if sq_bytes c > maxSendBufferSize then c\<lparr>sq_over := True\<rparr> else c)"

definition enqueue_frame :: "bytes \<Rightarrow> sendq \<Rightarrow> sendq \<times> string option" where
  "enqueue_frame buf c = (case sq_err c of Some er \<Rightarrow> (c, Some er)
     | None \<Rightarrow> if sq_done c then (c, Some ''p2p: connection closed'')
       else if sq_over c then (c, Some ''p2p: send buffer over limit'')
       else let c = enqueue_push buf c in
         if sq_over c then (c\<lparr>sq_done := True\<rparr>, Some ''p2p: send buffer over limit; disconnected peer'') else (c, None))"

definition writer_take :: "sendq \<Rightarrow> sendq" where
  "writer_take c = (case sq_q c of [] \<Rightarrow> c
     | buf # rest \<Rightarrow> c\<lparr>sq_q := rest, sq_bytes := sq_bytes c - length buf, sq_writing := Some buf\<rparr>)"

definition writer_wrote :: "string option \<Rightarrow> bytes \<Rightarrow> sendq \<Rightarrow> sendq" where
  "writer_wrote er buf c = (case er of None \<Rightarrow> c\<lparr>sq_writing := None, sq_sent := sq_sent c @ [buf]\<rparr>
     | Some er \<Rightarrow> c\<lparr>sq_err := Some er, sq_done := True\<rparr>)"

text \<open>
  What can happen to a connection after the handshake: a caller appends a frame (its checks may be
  out of date by then), the writer takes the next frame or finishes the one in its hand, somebody
  closes. A writer whose write failed has left.
\<close>

inductive conn_step :: "sendq \<Rightarrow> sendq \<Rightarrow> bool" where
  c_push: "conn_step c (enqueue_push buf c)"
| c_take: "sq_writing c = None \<Longrightarrow> conn_step c (writer_take c)"
| c_wrote: "sq_writing c = Some buf \<Longrightarrow> sq_err c = None \<Longrightarrow> conn_step c (writer_wrote er buf c)"
| c_close: "conn_step c (c\<lparr>sq_done := True\<rparr>)"

section \<open>Lemmas: reading\<close>

lemma SendCommand_frame: "SendCommand magic cmd payload = Message_Marshal (frame magic cmd payload)"
  by (simp add: SendCommand_def frame_def Message_Marshal_def)

lemma WritePacket_frame:
  "WritePacket magic micro p dest = Message_Marshal (frame magic XBridgeNetCommand (encodeXBridgePayload micro (Packet_Marshal p) dest))"
  by (simp add: WritePacket_def frame_def Let_def Message_Marshal_def)

text \<open>A frame of the protocol with the given checksum field, and reading one off the stream.\<close>

definition raw_frame :: "bytes \<Rightarrow> string \<Rightarrow> bytes \<Rightarrow> bytes \<Rightarrow> bytes" where
  "raw_frame magic cmd chk payload =
     Message_Marshal \<lparr>m_Magic = magic, m_Command = cmd, m_Length = 0, m_Checksum = chk, m_Payload = payload\<rparr>"

definition frame_shape :: "bytes \<Rightarrow> string \<Rightarrow> bytes \<Rightarrow> bytes \<Rightarrow> bool" where
  "frame_shape magic cmd chk payload \<longleftrightarrow> length magic = 4 \<and> command_ok cmd \<and> length chk = 4 \<and> length payload \<le> MaxPayloadSize"

lemma raw_frame_eq:
  assumes "frame_shape magic cmd chk payload"
  shows "raw_frame magic cmd chk payload = (magic @ (str_bytes cmd @ replicate (12 - length cmd) 0)
    @ PutUint32 (of_nat (length payload)) @ chk) @ payload"
  using assms by (simp add: frame_shape_def command_ok_def raw_frame_def Message_Marshal_def Let_def cmdSize_def)

lemma Unmarshal_raw_frame:
  assumes "frame_shape magic cmd chk payload"
  shows "UnmarshalMessage (raw_frame magic cmd chk payload) = (if Checksum payload \<noteq> chk then Inl ErrChecksum
    else Inr (frame magic cmd payload))"
proof (cases "Checksum payload = chk")
  case True
  hence "raw_frame magic cmd chk payload = Message_Marshal (frame magic cmd payload)"
    by (simp add: raw_frame_def frame_def Message_Marshal_def)
  thus ?thesis
    using Unmarshal_frame [of magic cmd payload] assms True by (simp add: frame_shape_def)
next
  case False
  have len: "unat (of_nat (length payload) :: u32) = length payload"
    using assms by (simp add: unat_of_nat MaxPayloadSize_def frame_shape_def)
  show ?thesis
    unfolding raw_frame_eq [OF assms] UnmarshalMessage_def
    using assms False len by (simp add: cmdSize_def Let_def frame_shape_def command_ok_def)
qed

lemma readMessage_raw:
  assumes "frame_shape magic cmd chk payload"
  shows "readMessage magic (raw_frame magic cmd chk payload @ s)
    = (if Checksum payload \<noteq> chk then readMessage magic s else (Inr (frame magic cmd payload), s))"
proof -
  define h where "h = magic @ (str_bytes cmd @ replicate (12 - length cmd) 0) @ PutUint32 (of_nat (length payload)) @ chk"
  have len: "unat (of_nat (length payload) :: u32) = length payload"
    using assms by (simp add: unat_of_nat MaxPayloadSize_def frame_shape_def)
  have h: "length h = 24" "unat (Uint32 (drop 16 h)) = length payload"
    using assms len by (simp_all add: h_def frame_shape_def command_ok_def cmdSize_def)
  have f: "raw_frame magic cmd chk payload = h @ payload"
    unfolding h_def by (rule raw_frame_eq [OF assms])
  have p: "\<not> length payload > MaxPayloadSize"
    using assms by (simp add: frame_shape_def)
  have cut: "\<not> length (h @ payload @ s) < 24" "take 24 (h @ payload @ s) = h" "drop 24 (h @ payload @ s) = payload @ s"
    using h(1) by simp_all
  note u = Unmarshal_raw_frame [OF assms, unfolded f]
  show ?thesis
    unfolding f append_assoc using readMessage.simps [of magic "h @ payload @ s"] p
    by (simp only: cmdSize_def Let_def cut h(2) if_False u add_numeral_left numeral_plus_numeral arith_simps)
       (simp add: u frame_def)
qed

lemma readMessage_frame:
  assumes "length magic = 4" and "command_ok cmd" and "length payload \<le> MaxPayloadSize"
  shows "readMessage magic (Message_Marshal (frame magic cmd payload) @ s) = (Inr (frame magic cmd payload), s)"
proof -
  have "frame_shape magic cmd (Checksum payload) payload"
    using assms by (simp add: frame_shape_def)
  moreover have "raw_frame magic cmd (Checksum payload) payload = Message_Marshal (frame magic cmd payload)"
    by (simp add: raw_frame_def frame_def Message_Marshal_def)
  ultimately show ?thesis
    using readMessage_raw [of magic cmd "Checksum payload" payload s] by simp
qed

text \<open>
  Traffic that is not for the bridge: frames with a wrong checksum, and messages with another
  command. The callback sees the latter.
\<close>

definition noise_ok :: "bytes \<Rightarrow> string \<times> bytes \<times> bytes \<Rightarrow> bool" where
  "noise_ok magic = (\<lambda>(cmd, chk, q). frame_shape magic cmd chk q \<and> (Checksum q = chk \<longrightarrow> cmd \<noteq> XBridgeNetCommand))"

definition noise_bytes :: "bytes \<Rightarrow> (string \<times> bytes \<times> bytes) list \<Rightarrow> bytes" where
  "noise_bytes magic ns = concat (map (\<lambda>(cmd, chk, q). raw_frame magic cmd chk q) ns)"

definition noise_seen :: "(string \<times> bytes \<times> bytes) list \<Rightarrow> (string \<times> bytes) list" where
  "noise_seen ns = map (\<lambda>(cmd, chk, q). (cmd, q)) (filter (\<lambda>(cmd, chk, q). Checksum q = chk) ns)"

lemma frame_sel [simp]: "m_Command (frame g c p) = c" "m_Payload (frame g c p) = p" "m_Magic (frame g c p) = g"
  by (simp_all add: frame_def)

lemma ReadPacket_one:
  assumes "noise_ok magic (cmd, chk, q)"
  shows "ReadPacket ver magic (raw_frame magic cmd chk q @ s) = (if Checksum q \<noteq> chk then ReadPacket ver magic s
    else case ReadPacket ver magic s of (res, r, seen) \<Rightarrow> (res, r, (cmd, q) # seen))"
proof -
  have ok: "frame_shape magic cmd chk q" "Checksum q = chk \<Longrightarrow> cmd \<noteq> XBridgeNetCommand"
    using assms by (simp_all add: noise_ok_def)
  show ?thesis
    using ok(2) ReadPacket.simps [of ver magic s] ReadPacket.simps [of ver magic "raw_frame magic cmd chk q @ s"]
    by (simp add: readMessage_raw [OF ok(1)])
qed

lemma ReadPacket_noise:
  assumes "\<forall>x \<in> set ns. noise_ok magic x"
  shows "ReadPacket ver magic (noise_bytes magic ns @ s)
    = (case ReadPacket ver magic s of (res, r, seen) \<Rightarrow> (res, r, noise_seen ns @ seen))"
  using assms
proof (induction ns)
  case (Cons x ns)
  obtain cmd chk q where x: "x = (cmd, chk, q)"
    by (cases x)
  have split: "noise_bytes magic (x # ns) @ s = raw_frame magic cmd chk q @ noise_bytes magic ns @ s"
    by (simp add: noise_bytes_def x)
  show ?case
    unfolding split using Cons ReadPacket_one [of magic cmd chk q ver "noise_bytes magic ns @ s"]
    by (simp add: x noise_seen_def split: prod.splits)
qed (simp add: noise_bytes_def noise_seen_def)

lemma command_ok_xbridge: "command_ok XBridgeNetCommand"
  by (simp add: command_ok_def XBridgeNetCommand_def cmdSize_def str_bytes_def byte_of_char_def)

lemma length_Packet_Marshal: "packet_shape p \<Longrightarrow> length (Packet_Marshal p) = 129 + length (p_Body p)"
  by (simp add: Marshal_layout length_packet_head packet_shape_def layout_defs)

lemma length_encode: "length dest = 20 \<Longrightarrow> length (encodeXBridgePayload micro packet dest) \<le> 37 + length packet"
  using length_writeVarInt [of "28 + length packet"] by (auto simp: encodeXBridgePayload_def Let_def)

lemma ReadPacket_written:
  assumes "packet_ok ver p" and "length magic = 4" and "length dest = 20"
  shows "ReadPacket ver magic (WritePacket magic micro p dest @ s) = (Inr p, s, [])"
proof -
  let ?payload = "encodeXBridgePayload micro (Packet_Marshal p) dest"
  have len: "length (Packet_Marshal p) \<le> 129 + 2 ^ 20"
    using assms(1) by (simp add: length_Packet_Marshal packet_ok_shape packet_ok_def)
  have "length ?payload \<le> MaxPayloadSize"
    using length_encode [OF assms(3), of micro "Packet_Marshal p"] len by (simp add: MaxPayloadSize_def)
  hence "readMessage magic (WritePacket magic micro p dest @ s) = (Inr (frame magic XBridgeNetCommand ?payload), s)"
    unfolding WritePacket_frame by (rule readMessage_frame [OF assms(2) command_ok_xbridge])
  moreover have "DecodeXBridgePayload ?payload = Inr (Packet_Marshal p)"
    by (rule DecodeXBridgePayload_encode) (use assms(3) len in simp_all)
  ultimately show ?thesis
    using ReadPacket.simps [of ver magic "WritePacket magic micro p dest @ s"] Packet_roundtrip [OF assms(1)] by simp
qed

section \<open>Lemmas: strings and version messages\<close>

lemma unmarshalVarStr_marshal [wire]:
  assumes "length s < 2 ^ 32"
  shows "unmarshalVarStr (marshalVarStr s @ r) = Inr (s, length (marshalVarStr s))"
proof -
  have small: "sint (word_of_nat k :: u64) = int k" if "k < 2 ^ 33" for k
    using that by (simp add: signed_of_nat signed_take_bit_int_eq_self)
  have sum: "sint (word_of_nat k + word_of_nat (length s) :: u64) = int (k + length s)" if "k \<le> 9" for k
    using small [of "k + length s"] that assms by simp
  consider (a) "length s < 253" | (b) "253 \<le> length s" "length s \<le> 65535" | (c) "65536 \<le> length s"
    by linarith
  thus ?thesis
  proof cases
    case a
    hence "(of_nat (length s) :: byte) < 0xfd" "unat (of_nat (length s) :: byte) = length s"
      by (simp_all add: word_less_nat_alt unat_of_nat)
    thus ?thesis
      using a sum [of 1] by (simp add: unmarshalVarStr_def marshalVarStr_def writeVarInt_def Let_def)
  next
    case b
    hence "unat (of_nat (length s) :: u16) = length s"
      by (simp add: unat_of_nat)
    thus ?thesis
      using b sum [of 3] by (simp add: unmarshalVarStr_def marshalVarStr_def writeVarInt_def Let_def)
  next
    case c
    hence "unat (of_nat (length s) :: u32) = length s"
      using assms by (simp add: unat_of_nat)
    thus ?thesis
      using c assms sum [of 5] by (simp add: unmarshalVarStr_def marshalVarStr_def writeVarInt_def Let_def)
  qed
qed

text \<open>An address in the form the reader produces.\<close>

definition ip_ok :: "bytes \<Rightarrow> bool" where
  "ip_ok ip \<longleftrightarrow> length ip = 16 \<and> (ip ! 10 = 0xff \<and> ip ! 11 = 0xff \<longrightarrow> ip_mapped ip)"

lemma length_ipTo16 [simp]: "length (ipTo16 ip) = 16"
  by (auto simp: ipTo16_def To4_def To16_def ip_mapped_def)

lemma ip_mapped_split: "ip_mapped ip \<Longrightarrow> replicate 10 0 @ [0xff, 0xff] @ drop 12 ip = ip"
proof -
  assume m: "ip_mapped ip"
  have "take 12 ip = take 10 ip @ [ip ! 10, ip ! 11]"
    using m take_Suc_conv_app_nth [of 10 ip] take_Suc_conv_app_nth [of 11 ip] by (simp add: ip_mapped_def)
  thus ?thesis
    using m append_take_drop_id [of 12 ip] by (simp add: ip_mapped_def)
qed

lemma netIPFrom16_ipTo16 [wire]:
  assumes "ip_ok ip"
  shows "ipTo16 ip = ip" and "netIPFrom16 ip = ip"
proof -
  show "ipTo16 ip = ip"
    using assms ip_mapped_split [of ip] by (simp add: ip_ok_def ipTo16_def To4_def To16_def)
  show "netIPFrom16 ip = ip"
    using assms ip_mapped_split [of ip] by (simp add: ip_ok_def netIPFrom16_def)
qed

lemma PutUint16BE_simps [simp]: "length (PutUint16BE v) = 2" "Uint16BE (PutUint16BE v @ r) = v" "Uint16BE (PutUint16BE v) = v"
  by (simp_all add: PutUint16BE_def Uint16BE_def)

definition addr_ok :: "NetAddr \<Rightarrow> bool" where
  "addr_ok a \<longleftrightarrow> ip_ok (na_IP a)"

lemma length_marshalNetAddr [simp]: "length (marshalNetAddr a) = 26"
  by (simp add: marshalNetAddr_def)

lemma unmarshalNetAddr_marshal [wire]:
  "addr_ok a \<Longrightarrow> unmarshalNetAddr (marshalNetAddr a @ r) = Inr (a, 26)"
  using netIPFrom16_ipTo16 [of "na_IP a"] length_ipTo16 [of "na_IP a"]
  by (simp add: unmarshalNetAddr_def marshalNetAddr_def addr_ok_def)

definition version_ok :: "VersionMessage \<Rightarrow> bool" where
  "version_ok v \<longleftrightarrow> addr_ok (vm_AddrRecv v) \<and> addr_ok (vm_AddrFrom v) \<and> length (vm_UserAgent v) \<le> 256"

lemma UnmarshalVersion_Marshal [wire]:
  assumes "version_ok v"
  shows "UnmarshalVersion (VersionMessage_Marshal v) = Inr v"
proof -
  have ok: "addr_ok (vm_AddrRecv v)" "addr_ok (vm_AddrFrom v)"
    using assms by (simp_all add: version_ok_def)
  have ua: "unmarshalVarStr (marshalVarStr (vm_UserAgent v) @ r) = Inr (vm_UserAgent v, length (marshalVarStr (vm_UserAgent v)))" for r
    by (rule unmarshalVarStr_marshal) (use assms in \<open>simp add: version_ok_def\<close>)
  define flags :: bytes where "flags = [if vm_Relay v then 1 else 0, if vm_FXRouter v then 1 else 0]"
  define h where "h = PutUint32 (vm_Version v) @ PutUint64 (vm_Services v) @ PutUint64 (vm_Timestamp v)
    @ marshalNetAddr (vm_AddrRecv v) @ marshalNetAddr (vm_AddrFrom v) @ PutUint64 (vm_Nonce v)"
  define t where "t = marshalVarStr (vm_UserAgent v) @ PutUint32 (vm_StartHeight v)"
  have m: "VersionMessage_Marshal v = h @ t @ flags"
    by (simp add: VersionMessage_Marshal_def h_def t_def flags_def)
  have len: "length h = 80" "length t = length (marshalVarStr (vm_UserAgent v)) + 4" "length flags = 2"
    by (simp_all add: h_def t_def flags_def)
  have rd: "unmarshalNetAddr (drop 20 (h @ r)) = Inr (vm_AddrRecv v, 26)" "unmarshalNetAddr (drop 46 (h @ r)) = Inr (vm_AddrFrom v, 26)"
    "Uint64 (drop 72 (h @ r)) = vm_Nonce v" "Uint32 (h @ r) = vm_Version v" "Uint64 (drop 4 (h @ r)) = vm_Services v"
    "Uint64 (drop 12 (h @ r)) = vm_Timestamp v" for r
    by (simp_all add: h_def unmarshalNetAddr_marshal ok)
  have cut: "drop 80 (h @ r) = r" "drop (80 + k) (h @ r) = drop k r" "(h @ r) ! (80 + k) = r ! k" for r k
    using len(1) nth_append_length_plus [of h r k] by simp_all
  have tt: "unmarshalVarStr (t @ r) = Inr (vm_UserAgent v, length (marshalVarStr (vm_UserAgent v)))"
    "Uint32 (drop (length (marshalVarStr (vm_UserAgent v))) (t @ r)) = vm_StartHeight v" for r
    by (simp_all add: t_def ua)
  have fl: "(t @ flags) ! (length (marshalVarStr (vm_UserAgent v)) + 4) = (if vm_Relay v then 1 else 0)"
    "(t @ flags) ! (length (marshalVarStr (vm_UserAgent v)) + 5) = (if vm_FXRouter v then 1 else 0)"
    using len(2) by (simp_all add: nth_append flags_def)
  let ?u = "length (marshalVarStr (vm_UserAgent v))"
  have arith: "4 + 8 + 8 = (20 :: nat)" "20 + 26 = (46 :: nat)" "46 + 26 = (72 :: nat)" "72 + 8 = (80 :: nat)"
    "80 + k + 4 = 80 + (k + 4)" "80 + (k + 4) + 1 = 80 + (k + 5)" for k :: nat
    by simp_all
  have size: "\<not> length (h @ t @ flags) < 20" "\<not> length (h @ t @ flags) < 80" "\<not> length (h @ t @ flags) < 80 + (?u + 4)"
    "80 + (?u + 4) < length (h @ t @ flags)" "80 + (?u + 5) < length (h @ t @ flags)"
    using len by simp_all
  show ?thesis
    unfolding UnmarshalVersion_def m
    by (simp only: arith Let_def size if_False if_True rd go_bind_simps prod.case cut tt fl simp_thms) simp
qed

section \<open>Properties\<close>

text \<open>
  C24: A packet that one node writes is the packet another node of the same protocol version and
  network reads: frame, envelope and packet layer undo each other. Frames with a wrong checksum
  before it are dropped, messages with another command go to the callback in their order, and
  what follows stays in the stream.
\<close>

theorem transport_roundtrip:
  assumes "packet_ok ver p" and "length magic = 4" and "length dest = 20" and "\<forall>x \<in> set ns. noise_ok magic x"
  shows "ReadPacket ver magic (noise_bytes magic ns @ WritePacket magic micro p dest @ s) = (Inr p, s, noise_seen ns)"
  by (simp add: ReadPacket_noise [OF assms(4)] ReadPacket_written [OF assms(1-3)])

theorem transport_roundtrip_witness:
  "ReadPacket 55 MainnetMagic (noise_bytes MainnetMagic [(''ping'', [1, 2, 3, 4], [9])]
      @ WritePacket MainnetMagic 1700000000 (NewPacket 55 1700000000 XbcTransactionCancel [1, 2, 3]) (replicate 20 7) @ [5])
    = (Inr (NewPacket 55 1700000000 XbcTransactionCancel [1, 2, 3]), [5], noise_seen [(''ping'', [1, 2, 3, 4], [9])])"
  by (rule transport_roundtrip)
    (simp_all add: packet_ok_def packet_shape_def NewPacket_def layout_defs MainnetMagic_def noise_ok_def frame_shape_def
      command_ok_def cmdSize_def MaxPayloadSize_def XBridgeNetCommand_def str_bytes_def byte_of_char_def)

text \<open>
  The handshake with a peer that follows the protocol returns the peer's version message, having
  written a version and a verack, and leaves the stream right after the peer's verack.
\<close>

lemma handshake_completes:
  assumes "length magic = 4" and "version_ok v" and "sint (vm_Version v) \<ge> MinPeerProtoVersion"
  shows "handshake True magic remote now nonce
      (SendCommand magic ''version'' (VersionMessage_Marshal v) @ SendCommand magic ''verack'' [] @ s)
    = (Inr (Some v), s, [writeVersion magic remote now nonce, writeVerack magic])"
proof -
  let ?m = "VersionMessage_Marshal v" and ?s1 = "SendCommand magic ''verack'' [] @ s"
  have cmd: "command_ok ''version''" "command_ok ''verack''"
    by (simp_all add: command_ok_def cmdSize_def str_bytes_def byte_of_char_def)
  have "length ?m \<le> MaxPayloadSize"
    using assms(2) length_writeVarInt [of "length (vm_UserAgent v)"]
    by (auto simp: VersionMessage_Marshal_def marshalVarStr_def version_ok_def MaxPayloadSize_def)
  hence r1: "readMessage magic (SendCommand magic ''version'' ?m @ ?s1) = (Inr (frame magic ''version'' ?m), ?s1)"
    unfolding SendCommand_frame by (rule readMessage_frame [OF assms(1) cmd(1)])
  have r2: "readMessage magic ?s1 = (Inr (frame magic ''verack'' []), s)"
    unfolding SendCommand_frame by (rule readMessage_frame [OF assms(1) cmd(2)]) simp
  have l3: "handshake_loop True magic True True (Some v) s = (Inr (Some v), s, [])"
    using handshake_loop.simps [of True magic True True "Some v" s] by simp
  have l2: "handshake_loop True magic True False (Some v) ?s1 = (Inr (Some v), s, [])"
    using handshake_loop.simps [of True magic True False "Some v" ?s1] by (simp add: r2 l3)
  show ?thesis
    using handshake_loop.simps [of True magic False False None "SendCommand magic ''version'' ?m @ ?s1"] assms(3)
    by (simp add: r1 l2 handshake_def UnmarshalVersion_Marshal [OF assms(2)])
qed

text \<open>A version payload whose user agent declares the length \<open>2 ^ 64 - 1\<close>.\<close>

definition evil_version :: bytes where
  "evil_version = replicate 80 0 @ replicate 9 0xff"

lemma le_nat_ones: "Suc (le_nat (replicate k 0xff)) = 256 ^ k"
proof (induction k)
  case (Suc k)
  have "Suc (le_nat (replicate (Suc k) 0xff)) = 256 * Suc (le_nat (replicate k 0xff))"
    by simp
  thus ?case
    by (simp add: Suc)
qed simp

lemma Uint64_ones: "Uint64 (replicate 8 0xff) = -1"
proof -
  have "le_nat (replicate 8 0xff) = 256 ^ 8 - 1"
    using le_nat_ones [of 8] by linarith
  thus ?thesis
    by (simp add: Uint64_def)
qed

lemma unmarshalVarStr_ones: "unmarshalVarStr (replicate 9 0xff) = Inl (GoPanic ''slice bounds out of range'')"
proof -
  have "drop 1 (replicate 9 (0xff :: byte)) = replicate 8 0xff" "replicate 9 (0xff :: byte) ! 0 = 0xff"
    by simp_all
  thus ?thesis
    by (simp add: unmarshalVarStr_def Uint64_ones Let_def)
qed

lemma UnmarshalVersion_evil: "UnmarshalVersion evil_version = Inl (GoPanic ''slice bounds out of range'')"
proof -
  have len: "length evil_version = 89" and cut: "drop 80 evil_version = replicate 9 0xff"
    by (simp_all add: evil_version_def)
  hence addr: "\<exists>a. unmarshalNetAddr (drop k evil_version) = Inr (a, 26)" if "k \<le> 46" for k
    using that by (simp add: unmarshalNetAddr_def)
  obtain a b where "unmarshalNetAddr (drop 20 evil_version) = Inr (a, 26)" "unmarshalNetAddr (drop 46 evil_version) = Inr (b, 26)"
    using addr [of 20] addr [of 46] by auto
  thus ?thesis
    by (simp add: UnmarshalVersion_def Let_def len cut unmarshalVarStr_ones)
qed

text \<open>
  C40: A peer that answers the dialing node with this version message makes the decoder slice with
  an end before its start: the handshake panics, in a goroutine that has no recovery.
\<close>

theorem handshake_panics:
  "fst (handshake True MainnetMagic remote now nonce (SendCommand MainnetMagic ''version'' evil_version @ s))
    = Inl (GoPanic ''slice bounds out of range'')"
proof -
  have r: "readMessage MainnetMagic (SendCommand MainnetMagic ''version'' evil_version @ s)
      = (Inr (frame MainnetMagic ''version'' evil_version), s)"
    unfolding SendCommand_frame
    by (rule readMessage_frame)
      (simp_all add: MainnetMagic_def evil_version_def MaxPayloadSize_def command_ok_def cmdSize_def str_bytes_def byte_of_char_def)
  show ?thesis
    using handshake_loop.simps [of True MainnetMagic False False None "SendCommand MainnetMagic ''version'' evil_version @ s"]
    by (simp add: handshake_def r UnmarshalVersion_evil)
qed

text \<open>What the writer has in its hand.\<close>

definition in_hand :: "sendq \<Rightarrow> bytes list" where
  "in_hand c = (case sq_writing c of None \<Rightarrow> [] | Some buf \<Rightarrow> [buf])"

definition sendq_inv :: "sendq \<Rightarrow> bool" where
  "sendq_inv c \<longleftrightarrow> sq_sent c @ in_hand c @ sq_q c = sq_accepted c \<and> sq_bytes c = sum_list (map length (sq_q c))
     \<and> (sq_bytes c > maxSendBufferSize \<longrightarrow> sq_over c)"

lemma conn_step_inv: "conn_step c c' \<Longrightarrow> sendq_inv c \<Longrightarrow> sendq_inv c'"
proof (induction rule: conn_step.induct)
  case (c_push c buf)
  thus ?case
    by (auto simp: sendq_inv_def enqueue_push_def in_hand_def Let_def)
next
  case (c_take c)
  thus ?case
    by (auto simp: sendq_inv_def writer_take_def in_hand_def split: list.splits)
next
  case (c_wrote c buf er)
  thus ?case
    by (auto simp: sendq_inv_def writer_wrote_def in_hand_def split: option.splits)
next
  case (c_close c)
  thus ?case
    by (simp add: sendq_inv_def in_hand_def)
qed

text \<open>
  In every interleaving of callers, writer and close, the frames on the wire, the one in the
  writer's hand and the queued ones are together the accepted frames in the order of acceptance:
  nothing is lost, doubled or overtaken. The byte count is exact, and as soon as it exceeds the
  limit the over-limit mark is set, after which \<^verbatim>\<open>enqueue\<close> refuses every frame.
\<close>

theorem send_queue_fifo:
  assumes "conn_step\<^sup>*\<^sup>* new_sendq c"
  shows "sq_sent c @ in_hand c @ sq_q c = sq_accepted c \<and> sq_bytes c = sum_list (map length (sq_q c))
    \<and> (sq_bytes c \<le> maxSendBufferSize \<or> sq_over c \<and> fst (enqueue_frame buf c) = c \<and> snd (enqueue_frame buf c) \<noteq> None)"
proof -
  have "sendq_inv new_sendq"
    by (simp add: sendq_inv_def new_sendq_def in_hand_def)
  with assms have "sendq_inv c"
    by (induction rule: rtranclp_induct) (auto intro: conn_step_inv)
  thus ?thesis
    by (auto simp: sendq_inv_def enqueue_frame_def split: option.splits)
qed

theorem send_queue_fifo_witness:
  "sq_sent (writer_take (enqueue_push [2] (enqueue_push [1] new_sendq))) @ in_hand (writer_take (enqueue_push [2] (enqueue_push [1] new_sendq)))
     @ sq_q (writer_take (enqueue_push [2] (enqueue_push [1] new_sendq))) = [[1], [2]]"
proof -
  let ?c = "enqueue_push [2] (enqueue_push [1] new_sendq)"
  have "conn_step\<^sup>*\<^sup>* new_sendq (writer_take ?c)"
    by (rule rtranclp.rtrancl_into_rtrancl [OF rtranclp.rtrancl_into_rtrancl [OF rtranclp.rtrancl_into_rtrancl [OF rtranclp.rtrancl_refl]]];
        (rule conn_step.intros)?)
      (simp_all add: enqueue_push_def new_sendq_def maxSendBufferSize_def)
  from send_queue_fifo [OF this] show ?thesis
    by (simp add: enqueue_push_def writer_take_def new_sendq_def maxSendBufferSize_def)
qed

end
