(* ===== verification/ServiceNode.thy ===== *)
theory ServiceNode
  imports P2PConn GoStrings "HOL-Library.List_Lexorder" "HOL-Library.Char_ord"
begin

text \<open>
  Service nodes, \<^verbatim>\<open>p2p/servicenode/servicenode.go\<close>: the parsers of registrations and pings, the
  validity rules a thin client can check, and the registry from which a hub is picked. The curve
  library is the record \<open>snlib\<close>. The JSON decoder of the standard library is the parameter
  \<open>json\<close>: the members of the object in a configuration text, or none if the text is not one.
\<close>

section \<open>Records and external functions\<close>

record CollateralUTXO =
  cu_TxID :: bytes
  cu_Vout :: u32

record ServiceNode =
  sn_PubKey :: bytes
  sn_Tier :: byte
  sn_Config :: string
  sn_Services :: "string list"
  sn_PingTime :: u32
  sn_XBridgeVersion :: u32
  sn_PaymentAddress :: bytes
  sn_Collateral :: "CollateralUTXO list"
  sn_BestBlock :: u32
  sn_BestBlockHash :: bytes
  sn_Signature :: bytes

definition TierOpen :: byte where "TierOpen = 0"
definition TierSPV :: byte where "TierSPV = 50"

text \<open>
  Parsing a compressed key, recovering a key from a compact signature (both serializations and
  the compression flag of the header), and signing.
\<close>

record snlib =
  sx_parse :: "bytes \<Rightarrow> bool"
  sx_recover :: "bytes \<Rightarrow> bytes \<Rightarrow> (bytes \<times> bytes \<times> bool) option"
  sx_sign :: "bytes \<Rightarrow> bytes \<Rightarrow> bytes"

definition FullyValidPubKey :: "snlib \<Rightarrow> bytes \<Rightarrow> bool" where
  "FullyValidPubKey L pk = sx_parse L pk"

definition RecoverCompact :: "snlib \<Rightarrow> bytes \<Rightarrow> bytes \<Rightarrow> bytes option" where
  "RecoverCompact L sig hash = (case sx_recover L sig hash of None \<Rightarrow> None
     | Some (compressed, uncompressed, wasCompressed) \<Rightarrow> if \<not> wasCompressed then Some uncompressed else Some compressed)"

definition SignCompact :: "snlib \<Rightarrow> bytes \<Rightarrow> bytes \<Rightarrow> bytes option" where
  "SignCompact L priv hash = (if length priv \<noteq> 32 then None else Some (sx_sign L priv hash))"

section \<open>Readers\<close>

text \<open>A reader is the data and a position; each read gives the value and the next position.\<close>

definition errShort :: "string \<Rightarrow> go_fail" where
  "errShort f = GoErr (''servicenode: '' @ f @ '' truncated'')"

definition readCPubKey :: "bytes \<Rightarrow> nat \<Rightarrow> (bytes \<times> nat) go" where
  "readCPubKey b pos = go_bind (readVarInt b pos) (\<lambda>(n, off).
     if n \<noteq> 33 \<or> length b < off + 33 then Inl (errShort ''cpubkey'') else Inr (take 33 (drop off b), off + 33))"

definition readFixed :: "nat \<Rightarrow> string \<Rightarrow> bytes \<Rightarrow> nat \<Rightarrow> (bytes \<times> nat) go" where
  "readFixed k f b pos = (if length b < pos + k then Inl (errShort f) else Inr (take k (drop pos b), pos + k))"

definition readUint8 :: "bytes \<Rightarrow> nat \<Rightarrow> (byte \<times> nat) go" where
  "readUint8 b pos = (if length b < pos + 1 then Inl (errShort ''uint8'') else Inr (b ! pos, pos + 1))"

definition readFixed20 :: "bytes \<Rightarrow> nat \<Rightarrow> (bytes \<times> nat) go" where
  "readFixed20 b pos = readFixed 20 ''paymentAddress'' b pos"

definition readInt32 :: "bytes \<Rightarrow> nat \<Rightarrow> (u32 \<times> nat) go" where
  "readInt32 b pos = (if length b < pos + 4 then Inl (errShort ''int32'') else Inr (Uint32 (drop pos b), pos + 4))"

definition readUint32 :: "bytes \<Rightarrow> nat \<Rightarrow> (u32 \<times> nat) go" where
  "readUint32 b pos = (if length b < pos + 4 then Inl (errShort ''uint32'') else Inr (Uint32 (drop pos b), pos + 4))"

definition readUint256 :: "bytes \<Rightarrow> nat \<Rightarrow> (bytes \<times> nat) go" where
  "readUint256 b pos = readFixed 32 ''uint256'' b pos"

definition readVarStr :: "bytes \<Rightarrow> nat \<Rightarrow> (string \<times> nat) go" where
  "readVarStr b pos = go_bind (unmarshalVarStr (drop pos b)) (\<lambda>(s, off). Inr (s, pos + off))"

definition readVarBytes :: "bytes \<Rightarrow> nat \<Rightarrow> (bytes \<times> nat) go" where
  "readVarBytes b pos = go_bind (readVarInt b pos) (\<lambda>(n, off).
     if length b < off + n then Inl (errShort ''varbytes'') else Inr (take n (drop off b), off + n))"

fun collateral_loop :: "nat \<Rightarrow> bytes \<Rightarrow> CollateralUTXO list" where
  "collateral_loop 0 b = []"
| "collateral_loop (Suc n) b = \<lparr>cu_TxID = take 32 b, cu_Vout = Uint32 (drop 32 b)\<rparr> # collateral_loop n (drop 36 b)"

definition readCollateral :: "bytes \<Rightarrow> nat \<Rightarrow> (CollateralUTXO list \<times> nat) go" where
  "readCollateral b pos = go_bind (readVarInt b pos) (\<lambda>(n, off).
     if length b < off + n * (32 + 4) then Inl (errShort ''collateral'')
     else Inr (collateral_loop n (drop off b), off + n * (32 + 4)))"

section \<open>Registrations\<close>

definition parseInnerServiceNode :: "bytes \<Rightarrow> nat \<Rightarrow> (ServiceNode \<times> nat) go" where
  "parseInnerServiceNode b pos =
     go_bind (readCPubKey b pos) (\<lambda>(pk, pos). go_bind (readUint8 b pos) (\<lambda>(tier, pos). go_bind (readFixed20 b pos) (\<lambda>(pay, pos).
     go_bind (readCollateral b pos) (\<lambda>(coll, pos). go_bind (readInt32 b pos) (\<lambda>(bb, pos). go_bind (readUint256 b pos) (\<lambda>(bbh, pos).
     go_bind (readVarBytes b pos) (\<lambda>(sig, pos).
       Inr (\<lparr>sn_PubKey = pk, sn_Tier = tier, sn_Config = [], sn_Services = [], sn_PingTime = 0, sn_XBridgeVersion = 0,
         sn_PaymentAddress = pay, sn_Collateral = coll, sn_BestBlock = bb, sn_BestBlockHash = bbh, sn_Signature = sig\<rparr>, pos))))))))"

definition ParseServiceNode :: "bytes \<Rightarrow> ServiceNode go" where
  "ParseServiceNode b = go_bind (parseInnerServiceNode b 0) (\<lambda>(sn, pos). Inr sn)"

definition maxCollateralCount :: nat where "maxCollateralCount = 10"

definition compactSize :: "nat \<Rightarrow> bytes" where
  "compactSize n = (if n < 0xfd then [of_nat n]
     else if n \<le> 0xffff then [0xfd, of_nat n, of_nat (n div 2 ^ 8)]
     else if n \<le> 0xffffffff then [0xfe, of_nat n, of_nat (n div 2 ^ 8), of_nat (n div 2 ^ 16), of_nat (n div 2 ^ 24)]
     else 0xff # map (\<lambda>i. of_nat (n div 2 ^ (8 * i))) [0..<8])"

definition serializeSigHashFields :: "ServiceNode \<Rightarrow> bytes" where
  "serializeSigHashFields sn = marshalVarStr (bytes_str (sn_PubKey sn)) @ [sn_Tier sn] @ sn_PaymentAddress sn
     @ compactSize (length (sn_Collateral sn)) @ concat (map (\<lambda>op. cu_TxID op @ PutUint32 (cu_Vout op)) (sn_Collateral sn))
     @ PutUint32 (sn_BestBlock sn) @ sn_BestBlockHash sn"

definition verifyRegistrationSignature :: "snlib \<Rightarrow> ServiceNode \<Rightarrow> bool" where
  "verifyRegistrationSignature L sn = (if sn_Signature sn = [] then False
     else RecoverCompact L (sn_Signature sn) (sha256d (serializeSigHashFields sn)) \<noteq> None)"

definition SignRegistration :: "snlib \<Rightarrow> ServiceNode \<Rightarrow> bytes \<Rightarrow> ServiceNode go" where
  "SignRegistration L sn priv = (if length priv \<noteq> 32 then Inl (GoErr ''servicenode: registration signer must be 32 bytes'')
     else case SignCompact L priv (sha256d (serializeSigHashFields sn)) of
         None \<Rightarrow> Inl (GoErr ''crypto: private key must be 32 bytes'')
       | Some sig \<Rightarrow> Inr (sn\<lparr>sn_Signature := sig\<rparr>))"

definition hasDupCollateral :: "CollateralUTXO list \<Rightarrow> bool" where
  "hasDupCollateral collateral = (if length collateral < 2 then False else \<not> distinct collateral)"

definition registrationValid :: "snlib \<Rightarrow> ServiceNode \<Rightarrow> bool" where
  "registrationValid L sn \<longleftrightarrow> sn_Tier sn = TierSPV \<and> FullyValidPubKey L (sn_PubKey sn)
     \<and> sn_PaymentAddress sn \<noteq> replicate 20 0 \<and> sn_Collateral sn \<noteq> [] \<and> length (sn_Collateral sn) \<le> maxCollateralCount
     \<and> \<not> hasDupCollateral (sn_Collateral sn) \<and> verifyRegistrationSignature L sn"

section \<open>The configuration of a ping\<close>

text \<open>A JSON value; a number keeps its literal.\<close>

datatype json = JNull | JBool bool | JNum string | JStr string | JArr "json list" | JObj "(string \<times> json) list"

definition numericUint32 :: "(string \<rightharpoonup> json) \<Rightarrow> string \<Rightarrow> u32 option" where
  "numericUint32 uv key = (case uv key of
       Some (JNum lit) \<Rightarrow> (case parse_signed lit of Some i \<Rightarrow> if - (2 ^ 31) \<le> i \<and> i < 2 ^ 31 then Some (word_of_int i) else None
         | None \<Rightarrow> None)
     | _ \<Rightarrow> None)"

fun json_strings :: "json list \<Rightarrow> string list option" where
  "json_strings [] = Some []"
| "json_strings (JStr s # js) = map_option ((#) s) (json_strings js)"
| "json_strings (JNull # js) = map_option ((#) []) (json_strings js)"
| "json_strings (_ # js) = None"

definition parseConfig :: "(string \<Rightarrow> (string \<rightharpoonup> json) option) \<Rightarrow> string \<Rightarrow> byte \<Rightarrow> string list \<times> u32" where
  "parseConfig json config tier = (if config = [] then ([], 0)
     else case json config of None \<Rightarrow> ([], 0)
       | Some uv \<Rightarrow> (case numericUint32 uv ''xbridgeversion'' of None \<Rightarrow> ([], 0)
         | Some ver \<Rightarrow> if numericUint32 uv ''xrouterversion'' = None then ([], ver)
             else if tier \<noteq> TierSPV then ([], ver)
             else (case uv ''xbridge'' of None \<Rightarrow> ([], ver)
               | Some JNull \<Rightarrow> ([], ver)
               | Some (JArr js) \<Rightarrow> (case json_strings js of None \<Rightarrow> ([], ver) | Some arr \<Rightarrow> (arr, ver))
               | Some _ \<Rightarrow> ([], ver))))"

section \<open>Pings\<close>

definition ParseServiceNodePing :: "snlib \<Rightarrow> (string \<Rightarrow> (string \<rightharpoonup> json) option) \<Rightarrow> bytes \<Rightarrow> ServiceNode go" where
  "ParseServiceNodePing L json b =
     go_bind (readCPubKey b 0) (\<lambda>(outerPubkey, pos). go_bind (readUint32 b pos) (\<lambda>(_, pos). go_bind (readUint256 b pos) (\<lambda>(_, pos).
     go_bind (readUint32 b pos) (\<lambda>(pingTime, pos). go_bind (readVarStr b pos) (\<lambda>(config, pos).
     go_bind (parseInnerServiceNode b pos) (\<lambda>(inner, pos).
       if \<not> FullyValidPubKey L outerPubkey \<or> outerPubkey \<noteq> sn_PubKey inner
       then Inl (GoErr ''servicenode: ping outer pubkey invalid or not equal to embedded snode pubkey'')
       else let (services, ver) = parseConfig json config (sn_Tier inner);
                sn = inner\<lparr>sn_Config := config, sn_Services := services, sn_XBridgeVersion := ver, sn_PingTime := pingTime\<rparr>;
                sigStart = pos in
         go_bind (readVarBytes b pos) (\<lambda>(signature, pos).
           if RecoverCompact L signature (sha256d (take sigStart b)) \<noteq> Some outerPubkey
           then Inl (GoErr ''servicenode: ping signature does not match pubkey'')
           else if \<not> registrationValid L sn
           then Inl (GoErr ''servicenode: embedded registration fails the thin-client isValid subset'')
           else Inr sn)))))))"

section \<open>The registry\<close>

record entry =
  en_services :: "string list"
  en_xbridgeVersion :: u32
  en_paymentAddress :: bytes
  en_pingTime :: u32

record Registry =
  r_nodes :: "bytes \<rightharpoonup> entry"
  r_pings :: "bytes \<rightharpoonup> u32"
  r_raw :: "bytes \<rightharpoonup> bytes"

definition NewRegistry :: Registry where
  "NewRegistry = \<lparr>r_nodes = Map.empty, r_pings = Map.empty, r_raw = Map.empty\<rparr>"

definition AddRegistration :: "snlib \<Rightarrow> ServiceNode \<Rightarrow> Registry \<Rightarrow> Registry" where
  "AddRegistration L sn r = (if \<not> registrationValid L sn then r
     else r\<lparr>r_nodes := (r_nodes r)(sn_PubKey sn \<mapsto> \<lparr>en_services = sn_Services sn, en_xbridgeVersion = sn_XBridgeVersion sn,
       en_paymentAddress = sn_PaymentAddress sn, en_pingTime = 0\<rparr>)\<rparr>)"

text \<open>The clock, in seconds, is the argument \<open>now\<close>.\<close>

definition clampPingTime :: "u32 \<Rightarrow> int \<Rightarrow> u32" where
  "clampPingTime reported now = (if reported = 0 \<or> uint reported > now then word_of_int now else reported)"

definition AddPing :: "snlib \<Rightarrow> int \<Rightarrow> ServiceNode \<Rightarrow> bytes option \<Rightarrow> Registry \<Rightarrow> Registry \<times> bool" where
  "AddPing L now sn raw r = (let k = sn_PubKey sn in
     if sn_Tier sn = TierSPV \<and> sn_Services sn \<noteq> [] \<and> FullyValidPubKey L k
       \<and> (case r_pings r k of None \<Rightarrow> True | Some prev \<Rightarrow> sn_PingTime sn > prev)
     then (r\<lparr>r_pings := (r_pings r)(k \<mapsto> sn_PingTime sn),
         r_nodes := (r_nodes r)(k \<mapsto> \<lparr>en_services = sn_Services sn, en_xbridgeVersion = sn_XBridgeVersion sn,
           en_paymentAddress = sn_PaymentAddress sn, en_pingTime = clampPingTime (sn_PingTime sn) now\<rparr>),
         r_raw := (case raw of None \<Rightarrow> r_raw r | Some p \<Rightarrow> (r_raw r)(k \<mapsto> p))\<rparr>, True)
     else (r, False))"

definition runningWindow :: int where "runningWindow = 5 * 60"

definition running :: "int \<Rightarrow> entry \<Rightarrow> bool" where
  "running now e \<longleftrightarrow> now - uint (en_pingTime e) < runningWindow"

definition containsAll :: "string list \<Rightarrow> string list \<Rightarrow> bool" where
  "containsAll hs need \<longleftrightarrow> list_all (\<lambda>want. list_ex (\<lambda>h. h = want) hs) need"

definition eligible :: "u32 \<Rightarrow> int \<Rightarrow> string list \<Rightarrow> bytes list \<Rightarrow> Registry \<Rightarrow> bytes \<Rightarrow> bool" where
  "eligible ver now need exclude r k \<longleftrightarrow> k \<notin> set exclude \<and> (case r_nodes r k of None \<Rightarrow> False
     | Some e \<Rightarrow> en_xbridgeVersion e = ver \<and> running now e \<and> need \<noteq> [] \<and> containsAll (en_services e) need)"

text \<open>
  \<^verbatim>\<open>Pick\<close> ranges over the map in the order \<open>keys\<close> and takes the first of the shuffled candidates;
  \<open>draw\<close> is the position of that one, which the random generator chose.
\<close>

definition Pick :: "u32 \<Rightarrow> int \<Rightarrow> bytes list \<Rightarrow> nat \<Rightarrow> Registry \<Rightarrow> string list \<Rightarrow> bytes list \<Rightarrow> bytes option" where
  "Pick ver now keys draw r need exclude = (let cands = filter (eligible ver now need exclude r) keys in
     if cands = [] then None else Some (cands ! (draw mod length cands)))"

definition Known :: "Registry \<Rightarrow> bytes \<Rightarrow> bool" where
  "Known r k \<longleftrightarrow> r_nodes r k \<noteq> None"

definition PaymentAddress :: "Registry \<Rightarrow> bytes \<Rightarrow> bytes option" where
  "PaymentAddress r k = map_option en_paymentAddress (r_nodes r k)"

definition wallet_token :: "string \<Rightarrow> bool" where
  "wallet_token s \<longleftrightarrow> s \<noteq> [] \<and> CHR '':'' \<notin> set s \<and> s \<noteq> ''xr'' \<and> s \<noteq> ''xrs''"

definition WalletServices :: "int \<Rightarrow> bytes list \<Rightarrow> Registry \<Rightarrow> string list" where
  "WalletServices now keys r = (let es = filter (running now) (List.map_filter (r_nodes r) keys) in
     sort (remdups (filter wallet_token (concat (map en_services es)))))"

definition AcceptedRawPings :: "bytes list \<Rightarrow> Registry \<Rightarrow> bytes list \<times> bytes list" where
  "AcceptedRawPings keys r = (let ks = sort (filter (\<lambda>k. r_raw r k \<noteq> None) keys) in (ks, List.map_filter (r_raw r) ks))"

section \<open>Lemmas: reading\<close>

lemma drop_cut:
  assumes "pos \<le> length b" and "drop pos b = w @ rest"
  shows "pos + length w \<le> length b" and "drop (pos + length w) b = rest"
proof -
  have "drop (length w) (drop pos b) = rest" "length (drop pos b) = length w + length rest"
    by (simp_all add: assms(2))
  thus "pos + length w \<le> length b" "drop (pos + length w) b = rest"
    using assms(1) by (simp_all add: add.commute)
qed

text \<open>
  A reader of a field: it consumes one encoding of the value at the position, and only that. The
  locale states this for a reader \<open>rd\<close>, an encoder \<open>wr\<close> and the values \<open>ok\<close> the reader returns.
\<close>

locale field_reader =
  fixes rd :: "bytes \<Rightarrow> nat \<Rightarrow> ('a \<times> nat) go" and wr :: "'a \<Rightarrow> bytes" and ok :: "'a \<Rightarrow> bool"
  assumes rd_iff: "pos \<le> length b \<Longrightarrow>
    rd b pos = Inr (x, pos') \<longleftrightarrow> ok x \<and> pos' = pos + length (wr x) \<and> (\<exists>rest. drop pos b = wr x @ rest)"
begin

text \<open>Reading the field and going on, in both directions.\<close>

lemma bind_iff:
  assumes "pos \<le> length b"
  shows "go_bind (rd b pos) (\<lambda>(x, pos). k x pos) = Inr y
    \<longleftrightarrow> (\<exists>x rest. ok x \<and> drop pos b = wr x @ rest \<and> k x (pos + length (wr x)) = Inr y)"
  using rd_iff [OF assms] by (force simp: go_bind_eq_Inr split: prod.splits)

lemma bindE:
  assumes "pos \<le> length b" and "go_bind (rd b pos) (\<lambda>(x, pos). k x pos) = Inr y"
  obtains x pos' where "ok x" and "pos' = pos + length (wr x)" and "pos' \<le> length b" and "drop pos b = wr x @ drop pos' b"
    and "k x pos' = Inr y"
  using assms(2) unfolding bind_iff [OF assms(1)]
proof (elim exE conjE)
  fix x rest
  assume x: "ok x" "drop pos b = wr x @ rest" "k x (pos + length (wr x)) = Inr y"
  thus thesis
    using drop_cut [OF assms(1) x(2)] by (intro that [of x "pos + length (wr x)"]) simp_all
qed

lemma read_at:
  assumes "ok x"
  shows "rd (pre @ wr x @ rest) (length pre) = Inr (x, length (pre @ wr x))"
  using rd_iff [of "length pre" "pre @ wr x @ rest" x] assms by simp

lemma next_pos:
  assumes "pos \<le> length b" and "drop pos b = wr x @ rest"
  shows "pos + length (wr x) \<le> length b \<and> drop (pos + length (wr x)) b = rest"
  using drop_cut [OF assms] by simp

end

lemma readVarInt_shift:
  assumes "pos \<le> length b"
  shows "readVarInt b pos = go_bind (readVarInt (drop pos b) 0) (\<lambda>(n, off). Inr (n, pos + off))"
proof (cases "pos = length b")
  case True
  thus ?thesis
    by (simp add: readVarInt_def)
next
  case False
  obtain x xs where x: "drop pos b = x # xs"
    using assms False by (metis Cons_nth_drop_Suc le_neq_implies_less)
  have d: "drop (Suc pos) b = xs" "b ! pos = x" "length b = pos + Suc (length xs)"
    using x assms by (metis drop_Suc tl_drop list.sel(3), metis nth_via_drop x, metis length_drop x length_Cons le_add_diff_inverse)
  show ?thesis
    using False assms d by (simp add: readVarInt_def x Let_def)
qed

lemma readVarInt_iff:
  "readVarInt b 0 = Inr (n, off) \<longleftrightarrow> n \<le> maxCompactSize \<and> off = length (writeVarInt n) \<and> (\<exists>rest. b = writeVarInt n @ rest)"
  (is "?L \<longleftrightarrow> ?R")
proof
  assume L: ?L
  have t: "n \<le> maxCompactSize \<and> off \<le> length b \<and> take off b = writeVarInt n"
    by (rule readVarInt_canonical [OF L])
  hence "b = writeVarInt n @ drop off b"
    by (metis append_take_drop_id)
  thus ?R
    using t by (metis length_take min.absorb2)
next
  assume ?R
  thus ?L
    using readVarInt_writeVarInt [of n] by auto
qed

lemma of_nat_mod_byte: "(of_nat (m mod 256) :: byte) = of_nat m"
  by (simp add: word_unat_eq_iff unat_of_nat)

lemma compactSize_eq:
  assumes "n \<le> maxCompactSize"
  shows "compactSize n = writeVarInt n"
proof -
  have two: "(2 :: nat) = Suc (Suc 0)" and four: "(4 :: nat) = Suc (Suc (Suc (Suc 0)))"
    by simp_all
  have "m div 256 div 256 = m div 65536" "m div 65536 div 256 = m div 16777216" for m :: nat
    using div_mult2_eq [of m 256 256] div_mult2_eq [of m 65536 256] by simp_all
  hence le2: "le_bytes 2 m = [of_nat m, of_nat (m div 2 ^ 8)]"
    and le4: "le_bytes 4 m = [of_nat m, of_nat (m div 2 ^ 8), of_nat (m div 2 ^ 16), of_nat (m div 2 ^ 24)]" for m
    unfolding two [THEN arg_cong [of _ _ "\<lambda>k. le_bytes k m"]] four [THEN arg_cong [of _ _ "\<lambda>k. le_bytes k m"]]
    by (simp_all add: of_nat_mod_byte)
  consider (a) "n < 0xfd" | (b) "\<not> n < 0xfd" "n \<le> 0xffff" | (c) "\<not> n < 0xfd" "\<not> n \<le> 0xffff" "n \<le> 0xffffffff"
    using assms by (fastforce simp: maxCompactSize_def)
  thus ?thesis
  proof cases
    case b
    hence "unat (of_nat n :: u16) = n"
      by (simp add: unat_of_nat)
    thus ?thesis
      using b by (simp only: compactSize_def writeVarInt_def if_False if_True PutUint16_def le2)
  next
    case c
    hence "unat (of_nat n :: u32) = n"
      by (simp add: unat_of_nat)
    thus ?thesis
      using c by (simp only: compactSize_def writeVarInt_def if_False if_True PutUint32_def le4)
  qed (simp add: compactSize_def writeVarInt_def)
qed

text \<open>The fields: a fixed number of bytes, a word, and data behind its length.\<close>

definition pubkey_bytes :: "bytes \<Rightarrow> bytes" where
  "pubkey_bytes pk = 33 # pk"

definition var_bytes :: "bytes \<Rightarrow> bytes" where
  "var_bytes v = writeVarInt (length v) @ v"

definition coll_bytes :: "CollateralUTXO list \<Rightarrow> bytes" where
  "coll_bytes cs = writeVarInt (length cs) @ concat (map (\<lambda>op. cu_TxID op @ PutUint32 (cu_Vout op)) cs)"

definition coll_ok :: "CollateralUTXO list \<Rightarrow> bool" where
  "coll_ok cs \<longleftrightarrow> length cs \<le> maxCompactSize \<and> (\<forall>c \<in> set cs. length (cu_TxID c) = 32)"

lemma prefix_iff: "length v = k \<Longrightarrow> (\<exists>rest. d = v @ rest) \<longleftrightarrow> k \<le> length d \<and> take k d = v"
  by (metis append_take_drop_id length_append le_add1 take_append_exact)

lemma readFixed_field: "field_reader (readFixed k f) (\<lambda>v. v) (\<lambda>v. length v = k)"
proof
  fix pos pos' :: nat and b x :: bytes
  assume "pos \<le> length b"
  thus "readFixed k f b pos = Inr (x, pos') \<longleftrightarrow> length x = k \<and> pos' = pos + length x \<and> (\<exists>rest. drop pos b = x @ rest)"
    using prefix_iff [of x k "drop pos b"] by (auto simp: readFixed_def)
qed

interpretation addr: field_reader readFixed20 "\<lambda>v. v" "\<lambda>v. length v = 20"
  using readFixed_field [of 20 "''paymentAddress''"] unfolding readFixed20_def [abs_def] .

interpretation hash: field_reader readUint256 "\<lambda>v. v" "\<lambda>v. length v = 32"
  using readFixed_field [of 32 "''uint256''"] unfolding readUint256_def [abs_def] .

interpretation tier: field_reader readUint8 "\<lambda>v. [v]" "\<lambda>_. True"
proof
  fix pos pos' :: nat and b :: bytes and x :: byte
  assume "pos \<le> length b"
  thus "readUint8 b pos = Inr (x, pos') \<longleftrightarrow> True \<and> pos' = pos + length [x] \<and> (\<exists>rest. drop pos b = [x] @ rest)"
    using prefix_iff [of "[x]" 1 "drop pos b"] by (auto simp: readUint8_def take_Suc_conv_app_nth nth_drop)
qed

lemma PutUint32_inj: "PutUint32 x = PutUint32 y \<longleftrightarrow> x = y"
  by (metis Uint_PutUint(2))

lemma Uint32_prefix: "(\<exists>rest. d = PutUint32 x @ rest) \<longleftrightarrow> 4 \<le> length d \<and> Uint32 d = x"
proof
  assume "4 \<le> length d \<and> Uint32 d = x"
  hence "d = PutUint32 x @ drop 4 d"
    using PutUint32_Uint32 [of d] append_take_drop_id [of 4 d] by auto
  thus "\<exists>rest. d = PutUint32 x @ rest"
    by blast
qed auto

lemma word_field:
  assumes "pos \<le> length b"
  shows "(if length b < pos + 4 then Inl e else Inr (Uint32 (drop pos b), pos + 4)) = Inr (x, pos')
    \<longleftrightarrow> True \<and> pos' = pos + length (PutUint32 x) \<and> (\<exists>rest. drop pos b = PutUint32 x @ rest)"
  unfolding Uint32_prefix using assms by auto

interpretation i32: field_reader readInt32 PutUint32 "\<lambda>_. True"
  by unfold_locales (simp only: readInt32_def word_field)

interpretation w32: field_reader readUint32 PutUint32 "\<lambda>_. True"
  by unfold_locales (simp only: readUint32_def word_field)

lemma varint_field:
  assumes "pos \<le> length b"
  shows "readVarInt b pos = Inr (n, pos') \<longleftrightarrow> n \<le> maxCompactSize \<and> pos' = pos + length (writeVarInt n)
    \<and> (\<exists>rest. drop pos b = writeVarInt n @ rest)"
  using readVarInt_iff [of "drop pos b" n] by (auto simp: readVarInt_shift [OF assms] go_bind_eq_Inr)

interpretation varint: field_reader readVarInt writeVarInt "\<lambda>n. n \<le> maxCompactSize"
  by unfold_locales (rule varint_field)

text \<open>A length and then that many bytes, cut into a value by \<open>f\<close>.\<close>

lemma var_field:
  assumes pos: "pos \<le> length b"
    and wr: "\<And>x. wr x = writeVarInt (m x) @ body x" "\<And>x. ok x \<Longrightarrow> length (body x) = m x * c"
    and f: "\<And>n d x. n * c \<le> length d \<Longrightarrow> f n d = x \<and> n \<le> maxCompactSize \<and> good n \<longleftrightarrow> ok x \<and> m x = n \<and> take (n * c) d = body x"
  shows "go_bind (readVarInt b pos) (\<lambda>(n, off). if \<not> good n \<or> length b < off + n * c then Inl er
      else Inr (f n (drop off b), off + n * c)) = Inr (x, pos')
    \<longleftrightarrow> ok x \<and> pos' = pos + length (wr x) \<and> (\<exists>rest. drop pos b = wr x @ rest)" (is "?L \<longleftrightarrow> ?R")
proof
  assume ?L
  then obtain n rest where n: "n \<le> maxCompactSize" "drop pos b = writeVarInt n @ rest" "good n"
      "\<not> length b < pos + length (writeVarInt n) + n * c"
      "x = f n (drop (pos + length (writeVarInt n)) b)" "pos' = pos + length (writeVarInt n) + n * c"
    unfolding varint.bind_iff [OF pos] by (auto split: if_splits)
  have cut: "drop (pos + length (writeVarInt n)) b = rest" "pos + length (writeVarInt n) \<le> length b"
    using varint.next_pos [OF pos n(2)] by simp_all
  hence len: "n * c \<le> length rest"
    using n(4) by (metis add_le_cancel_left le_add_diff_inverse length_drop linorder_not_less)
  hence x: "ok x" "m x = n" "take (n * c) rest = body x"
    using f [of n rest x] n(1,3,5) cut(1) by auto
  have "drop pos b = wr x @ drop (n * c) rest"
    using n(2) x(2,3) append_take_drop_id [of "n * c" rest] by (simp add: wr(1))
  thus ?R
    using x wr(2) [OF x(1)] n(6) by (auto simp: wr(1))
next
  assume R: ?R
  then obtain rest where rest: "ok x" "pos' = pos + length (wr x)" "drop pos b = writeVarInt (m x) @ body x @ rest"
    by (auto simp: wr(1))
  have body: "length (body x) = m x * c"
    by (rule wr(2) [OF rest(1)])
  have good: "f (m x) (body x @ rest) = x" "m x \<le> maxCompactSize" "good (m x)"
    using f [of "m x" "body x @ rest" x] rest(1) body by simp_all
  have cut: "drop (pos + length (writeVarInt (m x))) b = body x @ rest" "pos + length (writeVarInt (m x)) \<le> length b"
    using varint.next_pos [OF pos rest(3)] by simp_all
  have "length b = pos + length (writeVarInt (m x)) + length (body x @ rest)"
    using cut by (metis le_add_diff_inverse length_drop)
  hence "\<not> length b < pos + length (writeVarInt (m x)) + m x * c"
    using body by simp
  thus ?L
    unfolding varint.bind_iff [OF pos] using rest body good cut by (auto simp: wr(1) intro!: exI [of _ "m x"])
qed

interpretation vbytes: field_reader readVarBytes var_bytes "\<lambda>v. length v \<le> maxCompactSize"
proof
  fix pos pos' :: nat and b x :: bytes
  assume pos: "pos \<le> length b"
  have eq: "readVarBytes b pos = go_bind (readVarInt b pos) (\<lambda>(n, off). if \<not> True \<or> length b < off + n * 1
      then Inl (errShort ''varbytes'') else Inr (take n (drop off b), off + n * 1))"
    unfolding readVarBytes_def by (intro arg_cong [of _ _ "go_bind (readVarInt b pos)"] ext) auto
  show "readVarBytes b pos = Inr (x, pos')
      \<longleftrightarrow> length x \<le> maxCompactSize \<and> pos' = pos + length (var_bytes x) \<and> (\<exists>rest. drop pos b = var_bytes x @ rest)"
    unfolding eq by (rule var_field [OF pos, where m = length and body = "\<lambda>v. v"]) (auto simp: var_bytes_def)
qed

interpretation cpubkey: field_reader readCPubKey pubkey_bytes "\<lambda>v. length v = 33"
proof
  fix pos pos' :: nat and b x :: bytes
  assume pos: "pos \<le> length b"
  have eq: "readCPubKey b pos = go_bind (readVarInt b pos) (\<lambda>(n, off). if \<not> n = 33 \<or> length b < off + n * 1
      then Inl (errShort ''cpubkey'') else Inr (take n (drop off b), off + n * 1))"
    unfolding readCPubKey_def by (intro arg_cong [of _ _ "go_bind (readVarInt b pos)"] ext) auto
  have "readCPubKey b pos = Inr (x, pos') \<longleftrightarrow> length x = 33 \<and> pos' = pos + length (var_bytes x) \<and> (\<exists>rest. drop pos b = var_bytes x @ rest)"
    unfolding eq by (rule var_field [OF pos, where m = length and body = "\<lambda>v. v"]) (auto simp: var_bytes_def maxCompactSize_def)
  moreover have "length x = 33 \<Longrightarrow> var_bytes x = pubkey_bytes x"
    by (simp add: var_bytes_def pubkey_bytes_def writeVarInt_def)
  ultimately show "readCPubKey b pos = Inr (x, pos')
      \<longleftrightarrow> length x = 33 \<and> pos' = pos + length (pubkey_bytes x) \<and> (\<exists>rest. drop pos b = pubkey_bytes x @ rest)"
    by auto
qed

text \<open>The collateral: \<open>n\<close> outpoints of 36 bytes.\<close>

definition op_bytes :: "CollateralUTXO \<Rightarrow> bytes" where
  "op_bytes op = cu_TxID op @ PutUint32 (cu_Vout op)"

lemma collateral_loop_iff:
  assumes "n * 36 \<le> length d"
  shows "collateral_loop n d = cs \<longleftrightarrow> (\<forall>c \<in> set cs. length (cu_TxID c) = 32) \<and> length cs = n \<and> take (n * 36) d = concat (map op_bytes cs)"
  using assms
proof (induction n arbitrary: d cs)
  case (Suc n)
  have len: "36 \<le> length d" "n * 36 \<le> length (drop 36 d)"
    using Suc.prems by simp_all
  have head: "take 36 d = take 32 d @ PutUint32 (Uint32 (drop 32 d))"
    using len(1) PutUint32_Uint32 [of "drop 32 d"] take_add [of 32 4 d] by simp
  have split: "take (Suc n * 36) d = take 36 d @ take (n * 36) (drop 36 d)"
    using take_add [of 36 "n * 36" d] by (simp add: add.commute)
  show ?case
  proof (cases cs)
    case Nil
    thus ?thesis
      by simp
  next
    case (Cons c cs')
    have "take 36 d = op_bytes c \<and> take (n * 36) (drop 36 d) = concat (map op_bytes cs')
        \<longleftrightarrow> take (Suc n * 36) d = concat (map op_bytes cs)" if "length (cu_TxID c) = 32"
      unfolding split Cons using that len(1) append_eq_append_conv [of "take 36 d" "op_bytes c"]
      by (simp add: op_bytes_def del: append_eq_append_conv)
    moreover have "length (cu_TxID c) = 32 \<and> take 36 d = op_bytes c \<longleftrightarrow> \<lparr>cu_TxID = take 32 d, cu_Vout = Uint32 (drop 32 d)\<rparr> = c"
      unfolding head using len(1) by (cases c) (auto simp: op_bytes_def PutUint32_inj)
    ultimately show ?thesis
      using Suc.IH [OF len(2), of cs'] by (auto simp: Cons)
  qed
qed auto

interpretation coll: field_reader readCollateral coll_bytes coll_ok
proof
  fix pos pos' :: nat and b :: bytes and x :: "CollateralUTXO list"
  assume pos: "pos \<le> length b"
  have eq: "readCollateral b pos = go_bind (readVarInt b pos) (\<lambda>(n, off). if \<not> True \<or> length b < off + n * 36
      then Inl (errShort ''collateral'') else Inr (collateral_loop n (drop off b), off + n * 36))"
    unfolding readCollateral_def by (intro arg_cong [of _ _ "go_bind (readVarInt b pos)"] ext) auto
  have len: "length (concat (map op_bytes cs)) = length cs * 36" if "coll_ok cs" for cs
    using that by (induction cs) (auto simp: coll_ok_def op_bytes_def)
  show "readCollateral b pos = Inr (x, pos') \<longleftrightarrow> coll_ok x \<and> pos' = pos + length (coll_bytes x) \<and> (\<exists>rest. drop pos b = coll_bytes x @ rest)"
    unfolding eq
  proof (rule var_field [OF pos, where m = length and body = "\<lambda>cs. concat (map op_bytes cs)"])
    show "coll_bytes cs = writeVarInt (length cs) @ concat (map op_bytes cs)" for cs
      by (simp add: coll_bytes_def op_bytes_def [abs_def])
  qed (use len collateral_loop_iff in \<open>auto simp: coll_ok_def\<close>)
qed

section \<open>What a registration is\<close>

text \<open>The values a registration can carry, and the bytes it consists of.\<close>

definition sn_shape :: "ServiceNode \<Rightarrow> bool" where
  "sn_shape sn \<longleftrightarrow> length (sn_PubKey sn) = 33 \<and> length (sn_PaymentAddress sn) = 20 \<and> coll_ok (sn_Collateral sn)
     \<and> length (sn_BestBlockHash sn) = 32 \<and> length (sn_Signature sn) \<le> maxCompactSize"

definition bare :: "ServiceNode \<Rightarrow> bool" where
  "bare sn \<longleftrightarrow> sn_Config sn = [] \<and> sn_Services sn = [] \<and> sn_PingTime sn = 0 \<and> sn_XBridgeVersion sn = 0"

definition registration_bytes :: "ServiceNode \<Rightarrow> bytes" where
  "registration_bytes sn = serializeSigHashFields sn @ var_bytes (sn_Signature sn)"

lemma registration_bytes_eq:
  assumes "sn_shape sn"
  shows "registration_bytes sn = pubkey_bytes (sn_PubKey sn) @ [sn_Tier sn] @ sn_PaymentAddress sn @ coll_bytes (sn_Collateral sn)
    @ PutUint32 (sn_BestBlock sn) @ sn_BestBlockHash sn @ var_bytes (sn_Signature sn)"
proof -
  have "marshalVarStr (bytes_str (sn_PubKey sn)) = pubkey_bytes (sn_PubKey sn)"
    using assms by (simp add: marshalVarStr_def pubkey_bytes_def sn_shape_def writeVarInt_def)
  moreover have "compactSize (length (sn_Collateral sn)) = writeVarInt (length (sn_Collateral sn))"
    using assms by (intro compactSize_eq) (simp add: sn_shape_def coll_ok_def)
  ultimately show ?thesis
    by (simp add: registration_bytes_def serializeSigHashFields_def coll_bytes_def)
qed

text \<open>Reading one field after the other is reading a field that consists of both.\<close>

definition seq_rd :: "(bytes \<Rightarrow> nat \<Rightarrow> ('a \<times> nat) go) \<Rightarrow> (bytes \<Rightarrow> nat \<Rightarrow> ('b \<times> nat) go) \<Rightarrow> bytes \<Rightarrow> nat \<Rightarrow> (('a \<times> 'b) \<times> nat) go" where
  "seq_rd r1 r2 b pos = go_bind (r1 b pos) (\<lambda>(x, pos). go_bind (r2 b pos) (\<lambda>(y, pos). Inr ((x, y), pos)))"

lemma seq_field:
  assumes "field_reader r1 w1 ok1" and "field_reader r2 w2 ok2"
  shows "field_reader (seq_rd r1 r2) (\<lambda>(x, y). w1 x @ w2 y) (\<lambda>(x, y). ok1 x \<and> ok2 y)"
proof
  fix pos pos' :: nat and b :: bytes and z :: "'a \<times> 'b"
  assume pos: "pos \<le> length b"
  obtain x y where z: "z = (x, y)"
    by (cases z)
  note n1 = field_reader.next_pos [OF assms(1) pos]
  have "seq_rd r1 r2 b pos = Inr (z, pos') \<longleftrightarrow> (\<exists>rest. ok1 x \<and> drop pos b = w1 x @ rest \<and> r2 b (pos + length (w1 x)) = Inr (y, pos'))"
    unfolding seq_rd_def z field_reader.bind_iff [OF assms(1) pos] by (auto simp: go_bind_eq_Inr)
  also have "\<dots> \<longleftrightarrow> ok1 x \<and> ok2 y \<and> pos' = pos + length (w1 x @ w2 y) \<and> (\<exists>rest. drop pos b = (w1 x @ w2 y) @ rest)"
    using n1 field_reader.rd_iff [OF assms(2)] by fastforce
  finally show "seq_rd r1 r2 b pos = Inr (z, pos') \<longleftrightarrow> (case z of (x, y) \<Rightarrow> ok1 x \<and> ok2 y)
      \<and> pos' = pos + length (case z of (x, y) \<Rightarrow> w1 x @ w2 y) \<and> (\<exists>rest. drop pos b = (case z of (x, y) \<Rightarrow> w1 x @ w2 y) @ rest)"
    by (simp add: z)
qed

lemmas registration_field = seq_field [OF cpubkey.field_reader_axioms seq_field [OF tier.field_reader_axioms
  seq_field [OF addr.field_reader_axioms seq_field [OF coll.field_reader_axioms seq_field [OF i32.field_reader_axioms
  seq_field [OF hash.field_reader_axioms vbytes.field_reader_axioms]]]]]]

definition mk_bare :: "bytes \<times> byte \<times> bytes \<times> CollateralUTXO list \<times> u32 \<times> bytes \<times> bytes \<Rightarrow> ServiceNode" where
  "mk_bare = (\<lambda>(pk, t, pay, cs, bb, bbh, sig). \<lparr>sn_PubKey = pk, sn_Tier = t, sn_Config = [], sn_Services = [], sn_PingTime = 0,
     sn_XBridgeVersion = 0, sn_PaymentAddress = pay, sn_Collateral = cs, sn_BestBlock = bb, sn_BestBlockHash = bbh, sn_Signature = sig\<rparr>)"

lemma parseInner_seq:
  "parseInnerServiceNode b pos = go_bind (seq_rd readCPubKey (seq_rd readUint8 (seq_rd readFixed20 (seq_rd readCollateral
     (seq_rd readInt32 (seq_rd readUint256 readVarBytes))))) b pos) (\<lambda>(x, pos). Inr (mk_bare x, pos))"
  unfolding parseInnerServiceNode_def seq_rd_def mk_bare_def go_bind_def by (simp split: sum.split prod.split)

lemma parseInner_iff:
  assumes pos: "pos \<le> length b"
  shows "parseInnerServiceNode b pos = Inr (sn, pos')
    \<longleftrightarrow> sn_shape sn \<and> bare sn \<and> pos' = pos + length (registration_bytes sn) \<and> (\<exists>rest. drop pos b = registration_bytes sn @ rest)"
proof -
  let ?x = "(sn_PubKey sn, sn_Tier sn, sn_PaymentAddress sn, sn_Collateral sn, sn_BestBlock sn, sn_BestBlockHash sn, sn_Signature sn)"
  have mk: "mk_bare x = sn \<longleftrightarrow> bare sn \<and> x = ?x" for x
    by (cases x) (auto simp: mk_bare_def bare_def)
  have "parseInnerServiceNode b pos = Inr (sn, pos') \<longleftrightarrow> bare sn \<and> seq_rd readCPubKey (seq_rd readUint8 (seq_rd readFixed20
      (seq_rd readCollateral (seq_rd readInt32 (seq_rd readUint256 readVarBytes))))) b pos = Inr (?x, pos')"
    unfolding parseInner_seq go_bind_eq_Inr by (auto simp: mk)
  also have "\<dots> \<longleftrightarrow> bare sn \<and> sn_shape sn \<and> pos' = pos + length (registration_bytes sn) \<and> (\<exists>rest. drop pos b = registration_bytes sn @ rest)"
    unfolding field_reader.rd_iff [OF registration_field pos] by (auto simp: sn_shape_def registration_bytes_eq cong: conj_cong)
  finally show ?thesis
    by blast
qed

section \<open>What a ping is\<close>

text \<open>The parser of pings after the configuration string, as a function of its own.\<close>

definition ping_tail :: "snlib \<Rightarrow> (string \<Rightarrow> (string \<rightharpoonup> json) option) \<Rightarrow> bytes \<Rightarrow> bytes \<Rightarrow> u32 \<Rightarrow> string \<Rightarrow> nat \<Rightarrow> ServiceNode go" where
  "ping_tail L json b pk pt config pos = go_bind (parseInnerServiceNode b pos) (\<lambda>(inner, pos).
       if \<not> FullyValidPubKey L pk \<or> pk \<noteq> sn_PubKey inner
       then Inl (GoErr ''servicenode: ping outer pubkey invalid or not equal to embedded snode pubkey'')
       else let (services, ver) = parseConfig json config (sn_Tier inner);
                sn = inner\<lparr>sn_Config := config, sn_Services := services, sn_XBridgeVersion := ver, sn_PingTime := pt\<rparr> in
         go_bind (readVarBytes b pos) (\<lambda>(signature, pos').
           if RecoverCompact L signature (sha256d (take pos b)) \<noteq> Some pk
           then Inl (GoErr ''servicenode: ping signature does not match pubkey'')
           else if \<not> registrationValid L sn
           then Inl (GoErr ''servicenode: embedded registration fails the thin-client isValid subset'')
           else Inr sn))"

lemma ping_split: "ParseServiceNodePing L json b = go_bind (readCPubKey b 0) (\<lambda>(pk, pos). go_bind (readUint32 b pos) (\<lambda>(_, pos).
     go_bind (readUint256 b pos) (\<lambda>(_, pos). go_bind (readUint32 b pos) (\<lambda>(pt, pos). go_bind (readVarStr b pos) (\<lambda>(config, pos).
       ping_tail L json b pk pt config pos)))))"
  unfolding ParseServiceNodePing_def ping_tail_def Let_def by simp

lemma unmarshalVarStr_bound: "unmarshalVarStr d = Inr (s, off) \<Longrightarrow> off \<le> length d"
  by (auto simp: unmarshalVarStr_def Let_def split: if_splits)

lemma readVarStr_bindE:
  assumes "pos \<le> length b" and "go_bind (readVarStr b pos) (\<lambda>(x, pos). k x pos) = Inr y"
  obtains x w pos' where "pos' \<le> length b" and "drop pos b = w @ drop pos' b" and "k x pos' = Inr y"
proof -
  obtain x off where "unmarshalVarStr (drop pos b) = Inr (x, off)" and k: "k x (pos + off) = Inr y"
    using assms(2) by (auto simp: readVarStr_def go_bind_eq_Inr)
  hence "pos + off \<le> length b" "drop pos b = take off (drop pos b) @ drop (pos + off) b"
    using unmarshalVarStr_bound assms(1) append_take_drop_id [of off "drop pos b"] by (fastforce simp: add.commute)+
  thus thesis
    using k by (rule that)
qed

lemma registration_bytes_update [simp]:
  "registration_bytes (sn\<lparr>sn_Config := c, sn_Services := s, sn_XBridgeVersion := v, sn_PingTime := t\<rparr>) = registration_bytes sn"
  by (simp add: registration_bytes_def serializeSigHashFields_def)

lemma ping_tailE:
  assumes "pos \<le> length b" and "ping_tail L json b pk pt config pos = Inr sn"
  obtains signature rest pos' where "pos' \<le> length b" "drop pos b = registration_bytes sn @ drop pos' b" "drop pos' b = var_bytes signature @ rest"
      "RecoverCompact L signature (sha256d (take pos' b)) = Some (sn_PubKey sn)" "FullyValidPubKey L (sn_PubKey sn)"
      "registrationValid L sn" "pk = sn_PubKey sn" "sn_PingTime sn = pt" "sn_Config sn = config"
      "(sn_Services sn, sn_XBridgeVersion sn) = parseConfig json (sn_Config sn) (sn_Tier sn)"
proof -
  obtain inner pos' where i: "parseInnerServiceNode b pos = Inr (inner, pos')"
    using assms(2) by (auto simp: ping_tail_def go_bind_eq_Inr)
  obtain rest0 where r: "drop pos b = registration_bytes inner @ rest0" "pos' = pos + length (registration_bytes inner)"
    using parseInner_iff [OF assms(1)] i by auto
  have p: "pos' \<le> length b" "drop pos b = registration_bytes inner @ drop pos' b"
    using drop_cut [OF assms(1) r(1)] r by simp_all
  obtain services ver where c: "parseConfig json config (sn_Tier inner) = (services, ver)"
    by fastforce
  define m where "m = inner\<lparr>sn_Config := config, sn_Services := services, sn_XBridgeVersion := ver, sn_PingTime := pt\<rparr>"
  have v: "FullyValidPubKey L pk" "pk = sn_PubKey inner"
    and k: "go_bind (readVarBytes b pos') (\<lambda>(signature, _).
      if RecoverCompact L signature (sha256d (take pos' b)) \<noteq> Some pk then Inl (GoErr ''servicenode: ping signature does not match pubkey'')
      else if \<not> registrationValid L m then Inl (GoErr ''servicenode: embedded registration fails the thin-client isValid subset'')
      else Inr m) = Inr sn"
    using assms(2) by (auto simp: ping_tail_def i c m_def Let_def split: if_splits)
  obtain signature p2 where "drop pos' b = var_bytes signature @ drop p2 b"
      "RecoverCompact L signature (sha256d (take pos' b)) = Some pk" "registrationValid L m" "m = sn"
    using k by (elim vbytes.bindE [OF p(1)]) (auto split: if_splits)
  thus thesis
    using that [of pos' signature "drop p2 b"] p v c m_def [symmetric] by auto
qed

text \<open>
  The other direction: the bytes of a ping with a canonical configuration string are parsed, under
  the conditions the parser checks.
\<close>

definition ping_head :: "ServiceNode \<Rightarrow> u32 \<Rightarrow> bytes \<Rightarrow> bytes" where
  "ping_head sn block bh = pubkey_bytes (sn_PubKey sn) @ PutUint32 block @ bh @ PutUint32 (sn_PingTime sn)
     @ marshalVarStr (sn_Config sn) @ registration_bytes sn"

lemma registration_bytes_bare:
  "registration_bytes (sn\<lparr>sn_Config := [], sn_Services := [], sn_XBridgeVersion := 0, sn_PingTime := 0\<rparr>) = registration_bytes sn"
  by simp

lemma ping_complete:
  assumes sh: "sn_shape sn" "length bh = 32" "length (sn_Config sn) < 2 ^ 32" "length signature \<le> maxCompactSize"
    and ok: "registrationValid L sn" "RecoverCompact L signature (sha256d (ping_head sn block bh)) = Some (sn_PubKey sn)"
      "parseConfig json (sn_Config sn) (sn_Tier sn) = (sn_Services sn, sn_XBridgeVersion sn)"
  shows "ParseServiceNodePing L json (ping_head sn block bh @ var_bytes signature @ rest) = Inr sn"
proof -
  define b where "b = ping_head sn block bh @ var_bytes signature @ rest"
  let ?p1 = "pubkey_bytes (sn_PubKey sn)"
  let ?p2 = "?p1 @ PutUint32 block"
  let ?p3 = "?p2 @ bh"
  let ?p4 = "?p3 @ PutUint32 (sn_PingTime sn)"
  let ?p5 = "?p4 @ marshalVarStr (sn_Config sn)"
  define bare_sn where "bare_sn = sn\<lparr>sn_Config := [], sn_Services := [], sn_XBridgeVersion := 0, sn_PingTime := 0\<rparr>"
  have bare: "sn_shape bare_sn" "bare bare_sn" "registration_bytes bare_sn = registration_bytes sn" "sn_PubKey bare_sn = sn_PubKey sn"
    "sn_Tier bare_sn = sn_Tier sn"
    using sh(1) by (simp_all add: bare_sn_def sn_shape_def bare_def)
  have r1: "readCPubKey b 0 = Inr (sn_PubKey sn, length ?p1)"
    using cpubkey.read_at [of "sn_PubKey sn" "[]"] sh(1) by (simp add: b_def ping_head_def sn_shape_def)
  have r2: "readUint32 b (length ?p1) = Inr (block, length ?p2)"
    using w32.read_at [where x = block and pre = ?p1] by (simp add: b_def ping_head_def)
  have r3: "readUint256 b (length ?p2) = Inr (bh, length ?p3)"
    using hash.read_at [OF sh(2), of ?p2] by (simp add: b_def ping_head_def)
  have r4: "readUint32 b (length ?p3) = Inr (sn_PingTime sn, length ?p4)"
    using w32.read_at [where x = "sn_PingTime sn" and pre = ?p3] by (simp add: b_def ping_head_def)
  have "drop (length ?p4) b = marshalVarStr (sn_Config sn) @ registration_bytes sn @ var_bytes signature @ rest"
    by (simp add: b_def ping_head_def)
  hence r5: "readVarStr b (length ?p4) = Inr (sn_Config sn, length ?p5)"
    using unmarshalVarStr_marshal [OF sh(3)] by (simp add: readVarStr_def)
  have "drop (length ?p5) b = registration_bytes bare_sn @ var_bytes signature @ rest" "length ?p5 \<le> length b"
    by (simp_all add: b_def ping_head_def bare)
  hence r6: "parseInnerServiceNode b (length ?p5) = Inr (bare_sn, length (ping_head sn block bh))"
    using parseInner_iff [of "length ?p5" b bare_sn] bare by (simp add: ping_head_def)
  have r7: "readVarBytes b (length (ping_head sn block bh)) = Inr (signature, length (ping_head sn block bh @ var_bytes signature))"
    unfolding b_def by (rule vbytes.read_at [OF sh(4)])
  have "take (length (ping_head sn block bh)) b = ping_head sn block bh" "FullyValidPubKey L (sn_PubKey sn)"
    using ok(1) by (simp_all add: b_def registrationValid_def)
  moreover have "bare_sn\<lparr>sn_Config := sn_Config sn, sn_Services := sn_Services sn, sn_XBridgeVersion := sn_XBridgeVersion sn,
      sn_PingTime := sn_PingTime sn\<rparr> = sn"
    by (simp add: bare_sn_def)
  ultimately have "ParseServiceNodePing L json b = Inr sn"
    using ok bare by (simp only: ping_split ping_tail_def r1 r2 r3 r4 r5 r6 r7 go_bind_simps prod.case Let_def simp_thms if_False)
  thus ?thesis
    by (simp only: b_def)
qed

section \<open>Histories of the registry\<close>

datatype reg_op = Register ServiceNode | Ping int ServiceNode "bytes option"

definition reg_step :: "snlib \<Rightarrow> reg_op \<Rightarrow> Registry \<Rightarrow> Registry" where
  "reg_step L op r = (case op of Register sn \<Rightarrow> AddRegistration L sn r | Ping now sn raw \<Rightarrow> fst (AddPing L now sn raw r))"

definition reg_run :: "snlib \<Rightarrow> reg_op list \<Rightarrow> Registry \<Rightarrow> Registry" where
  "reg_run L ops r = fold (reg_step L) ops r"

lemma reg_run_simps [simp]:
  "reg_run L [] r = r" "reg_run L (op # ops) r = reg_run L ops (reg_step L op r)"
  by (simp_all add: reg_run_def)

text \<open>The time of the last accepted ping of a key never goes down.\<close>

definition ping_at_least :: "u32 \<Rightarrow> bytes \<Rightarrow> Registry \<Rightarrow> bool" where
  "ping_at_least t k r \<longleftrightarrow> (case r_pings r k of None \<Rightarrow> False | Some u \<Rightarrow> t \<le> u)"

lemma ping_at_least_run: "ping_at_least t k r \<Longrightarrow> ping_at_least t k (reg_run L ops r)"
proof (induction ops arbitrary: r)
  case (Cons op ops)
  have "ping_at_least t k (reg_step L op r)"
    using Cons.prems by (auto simp: reg_step_def ping_at_least_def AddRegistration_def AddPing_def Let_def split: reg_op.splits option.splits)
  thus ?case
    by (simp add: Cons.IH)
qed simp

definition entry_of_ping :: "int \<Rightarrow> ServiceNode \<Rightarrow> entry" where
  "entry_of_ping t sn = \<lparr>en_services = sn_Services sn, en_xbridgeVersion = sn_XBridgeVersion sn,
     en_paymentAddress = sn_PaymentAddress sn, en_pingTime = clampPingTime (sn_PingTime sn) t\<rparr>"

text \<open>Every entry of a registry is that of an accepted ping, or that of a registration, which does not run.\<close>

definition entries_from :: "snlib \<Rightarrow> reg_op list \<Rightarrow> Registry \<Rightarrow> bool" where
  "entries_from L ops r \<longleftrightarrow> (\<forall>k e. r_nodes r k = Some e \<longrightarrow> en_pingTime e = 0
     \<or> (\<exists>t sn raw. Ping t sn raw \<in> set ops \<and> sn_PubKey sn = k \<and> sn_Tier sn = TierSPV \<and> FullyValidPubKey L k \<and> e = entry_of_ping t sn))"

lemma entries_from_step:
  assumes "entries_from L ops r" and "op \<in> set ops"
  shows "entries_from L ops (reg_step L op r)"
proof (cases op)
  case (Register sn)
  thus ?thesis
    using assms(1) by (simp add: entries_from_def reg_step_def AddRegistration_def)
next
  case (Ping t sn raw)
  have "r_nodes (reg_step L op r) = r_nodes r \<or> sn_Tier sn = TierSPV \<and> FullyValidPubKey L (sn_PubKey sn)
      \<and> r_nodes (reg_step L op r) = (r_nodes r)(sn_PubKey sn \<mapsto> entry_of_ping t sn)"
    by (simp add: Ping reg_step_def AddPing_def Let_def entry_of_ping_def)
  thus ?thesis
  proof (elim disjE conjE)
    assume acc: "sn_Tier sn = TierSPV" "FullyValidPubKey L (sn_PubKey sn)"
      and upd: "r_nodes (reg_step L op r) = (r_nodes r)(sn_PubKey sn \<mapsto> entry_of_ping t sn)"
    have "\<exists>t' sn' raw'. Ping t' sn' raw' \<in> set ops \<and> sn_PubKey sn' = sn_PubKey sn \<and> sn_Tier sn' = TierSPV
        \<and> FullyValidPubKey L (sn_PubKey sn) \<and> entry_of_ping t sn = entry_of_ping t' sn'"
      using assms(2) acc by (intro exI [of _ t] exI [of _ sn] exI [of _ raw]) (simp add: Ping)
    thus ?thesis
      using assms(1) by (simp add: entries_from_def upd)
  qed (use assms(1) in \<open>simp add: entries_from_def\<close>)
qed

lemma entries_from_run:
  assumes "entries_from L all r" and "set ops \<subseteq> set all"
  shows "entries_from L all (reg_run L ops r)"
  using assms by (induction ops arbitrary: r) (auto intro: entries_from_step)

lemma containsAll_iff: "containsAll hs need \<longleftrightarrow> set need \<subseteq> set hs"
  by (auto simp: containsAll_def list_all_iff list_ex_iff)

lemma Pick_eligible: "Pick ver now keys draw r need exclude = Some k \<Longrightarrow> eligible ver now need exclude r k"
proof -
  assume p: "Pick ver now keys draw r need exclude = Some k"
  let ?c = "filter (eligible ver now need exclude r) keys"
  have "?c \<noteq> []" "k = ?c ! (draw mod length ?c)"
    using p by (auto simp: Pick_def Let_def split: if_splits)
  hence "k \<in> set ?c"
    by (metis length_greater_0_conv mod_less_divisor nth_mem)
  thus ?thesis
    by simp
qed

section \<open>A service node to try\<close>

text \<open>A curve library that accepts every key and recovers one fixed key, and a node with that key.\<close>

definition demo_key :: bytes where
  "demo_key = 2 # replicate 32 7"

definition demo_lib :: snlib where
  "demo_lib = \<lparr>sx_parse = (\<lambda>_. True), sx_recover = (\<lambda>_ _. Some (demo_key, [], True)), sx_sign = (\<lambda>_ _. [1])\<rparr>"

definition demo_node :: ServiceNode where
  "demo_node = \<lparr>sn_PubKey = demo_key, sn_Tier = TierSPV, sn_Config = [], sn_Services = [], sn_PingTime = 1700000000, sn_XBridgeVersion = 0,
     sn_PaymentAddress = replicate 20 1, sn_Collateral = [\<lparr>cu_TxID = replicate 32 9, cu_Vout = 0\<rparr>], sn_BestBlock = 5,
     sn_BestBlockHash = replicate 32 3, sn_Signature = [1]\<rparr>"

definition demo_hub :: ServiceNode where
  "demo_hub = demo_node\<lparr>sn_Services := [''BTC'', ''LTC''], sn_XBridgeVersion := 55\<rparr>"

lemma demo_shape: "sn_shape demo_node"
  by (simp add: sn_shape_def demo_node_def demo_key_def coll_ok_def maxCompactSize_def)

lemma demo_recover: "RecoverCompact demo_lib sig h = Some demo_key"
  by (simp add: RecoverCompact_def demo_lib_def)

lemma demo_valid: "registrationValid demo_lib demo_node"
proof -
  have "verifyRegistrationSignature demo_lib demo_node"
    by (simp add: verifyRegistrationSignature_def demo_recover) (simp add: demo_node_def)
  thus ?thesis
    by (simp add: registrationValid_def hasDupCollateral_def maxCollateralCount_def FullyValidPubKey_def)
      (simp add: demo_node_def demo_lib_def)
qed

lemma demo_ping: "ParseServiceNodePing demo_lib (\<lambda>_. None) (ping_head demo_node 5 (replicate 32 4) @ var_bytes [1] @ []) = Inr demo_node"
  by (rule ping_complete [OF demo_shape])
    (simp_all add: demo_valid demo_recover maxCompactSize_def, simp_all add: demo_node_def parseConfig_def)

lemma demo_accepted: "AddPing demo_lib 1700000100 demo_hub None NewRegistry
  = (\<lparr>r_nodes = [demo_key \<mapsto> entry_of_ping 1700000100 demo_hub], r_pings = [demo_key \<mapsto> 1700000000], r_raw = Map.empty\<rparr>, True)"
  by (simp add: AddPing_def NewRegistry_def demo_hub_def demo_node_def FullyValidPubKey_def demo_lib_def entry_of_ping_def)

section \<open>Properties\<close>

text \<open>
  The registration parser accepts exactly the encodings of registrations: the bytes it consumes
  are the bytes over which the registration's signature is computed, followed by the signature
  itself. No other byte string gives the same record, and what comes after is not looked at.
\<close>

theorem registration_exact:
  "ParseServiceNode b = Inr sn \<longleftrightarrow> sn_shape sn \<and> bare sn \<and> (\<exists>rest. b = serializeSigHashFields sn @ var_bytes (sn_Signature sn) @ rest)"
  using parseInner_iff [of 0 b sn] by (auto simp: ParseServiceNode_def go_bind_eq_Inr registration_bytes_def)

text \<open>
  C33: A ping is accepted only if its key is on the curve and is the key of the registration inside
  it, that key signed everything before the signature (key, block, ping time, configuration and
  registration), and the registration passes the checks of a thin client.
\<close>

theorem ping_authentic:
  assumes "ParseServiceNodePing L json b = Inr sn"
  shows "\<exists>block bh cfg signature rest. b = pubkey_bytes (sn_PubKey sn) @ PutUint32 block @ bh @ PutUint32 (sn_PingTime sn) @ cfg
      @ registration_bytes sn @ var_bytes signature @ rest
    \<and> RecoverCompact L signature (sha256d (pubkey_bytes (sn_PubKey sn) @ PutUint32 block @ bh @ PutUint32 (sn_PingTime sn) @ cfg
      @ registration_bytes sn)) = Some (sn_PubKey sn)
    \<and> FullyValidPubKey L (sn_PubKey sn) \<and> registrationValid L sn
    \<and> (sn_Services sn, sn_XBridgeVersion sn) = parseConfig json (sn_Config sn) (sn_Tier sn)"
proof -
  obtain pk p1 where "length pk = 33" "p1 = 0 + length (pubkey_bytes pk)" and s1: "p1 \<le> length b" "drop 0 b = pubkey_bytes pk @ drop p1 b"
    and k1: "go_bind (readUint32 b p1) (\<lambda>(_, pos). go_bind (readUint256 b pos) (\<lambda>(_, pos).
      go_bind (readUint32 b pos) (\<lambda>(pt, pos). go_bind (readVarStr b pos) (\<lambda>(config, pos). ping_tail L json b pk pt config pos)))) = Inr sn"
    by (rule cpubkey.bindE [OF le0 assms [unfolded ping_split]])
  obtain blk p2 where True "p2 = p1 + length (PutUint32 blk)" and s2: "p2 \<le> length b" "drop p1 b = PutUint32 blk @ drop p2 b"
    and k2: "go_bind (readUint256 b p2) (\<lambda>(_, pos). go_bind (readUint32 b pos) (\<lambda>(pt, pos).
      go_bind (readVarStr b pos) (\<lambda>(config, pos). ping_tail L json b pk pt config pos))) = Inr sn"
    by (rule w32.bindE [OF s1(1) k1])
  obtain bh p3 where "length bh = 32" "p3 = p2 + length bh" and s3: "p3 \<le> length b" "drop p2 b = bh @ drop p3 b"
    and k3: "go_bind (readUint32 b p3) (\<lambda>(pt, pos). go_bind (readVarStr b pos) (\<lambda>(config, pos). ping_tail L json b pk pt config pos)) = Inr sn"
    by (rule hash.bindE [OF s2(1) k2])
  obtain pt p4 where True "p4 = p3 + length (PutUint32 pt)" and s4: "p4 \<le> length b" "drop p3 b = PutUint32 pt @ drop p4 b"
    and k4: "go_bind (readVarStr b p4) (\<lambda>(config, pos). ping_tail L json b pk pt config pos) = Inr sn"
    by (rule w32.bindE [OF s3(1) k3])
  obtain config cfg p5 where s5: "p5 \<le> length b" "drop p4 b = cfg @ drop p5 b" and k5: "ping_tail L json b pk pt config p5 = Inr sn"
    by (rule readVarStr_bindE [OF s4(1) k4])
  obtain signature rest p6 where t: "p6 \<le> length b" "drop p5 b = registration_bytes sn @ drop p6 b" "drop p6 b = var_bytes signature @ rest"
      "RecoverCompact L signature (sha256d (take p6 b)) = Some (sn_PubKey sn)" "FullyValidPubKey L (sn_PubKey sn)"
      "registrationValid L sn" "pk = sn_PubKey sn" "sn_PingTime sn = pt" "sn_Config sn = config"
      "(sn_Services sn, sn_XBridgeVersion sn) = parseConfig json (sn_Config sn) (sn_Tier sn)"
    by (rule ping_tailE [OF s5(1) k5])
  define signed where "signed = pubkey_bytes pk @ PutUint32 blk @ bh @ PutUint32 pt @ cfg @ registration_bytes sn"
  have "drop 0 b = signed @ drop p6 b"
    unfolding signed_def append_assoc s1(2) s2(2) s3(2) s4(2) s5(2) t(2) by (rule refl)
  hence b: "b = signed @ drop p6 b"
    unfolding drop_0 .
  have "length b = length signed + (length b - p6)"
    using b by (metis length_append length_drop)
  hence len: "length signed = p6"
    using t(1) by linarith
  have "take p6 b = signed"
    by (subst b) (simp add: len)
  hence "RecoverCompact L signature (sha256d signed) = Some (sn_PubKey sn)"
    using t(4) by simp
  moreover have "b = signed @ var_bytes signature @ rest"
    by (rule b [unfolded t(3)])
  ultimately show ?thesis
    using t(5,6,10) unfolding signed_def t(7) t(8) [symmetric] append_assoc by blast
qed

theorem ping_authentic_witness:
  "\<exists>block bh cfg signature rest. ping_head demo_node 5 (replicate 32 4) @ var_bytes [1] @ [] = pubkey_bytes (sn_PubKey demo_node)
      @ PutUint32 block @ bh @ PutUint32 (sn_PingTime demo_node) @ cfg @ registration_bytes demo_node @ var_bytes signature @ rest
    \<and> RecoverCompact demo_lib signature (sha256d (pubkey_bytes (sn_PubKey demo_node) @ PutUint32 block @ bh
      @ PutUint32 (sn_PingTime demo_node) @ cfg @ registration_bytes demo_node)) = Some (sn_PubKey demo_node)"
  using ping_authentic [OF demo_ping] by blast

text \<open>
  C34: A ping that was accepted is refused whenever it arrives again, whatever was registered or
  pinged in between, and leaves the registry as it is.
\<close>

theorem ping_not_replayed:
  assumes "snd (AddPing L now sn raw r)"
  shows "AddPing L now' sn raw' (reg_run L ops (fst (AddPing L now sn raw r))) = (reg_run L ops (fst (AddPing L now sn raw r)), False)"
proof -
  have "ping_at_least (sn_PingTime sn) (sn_PubKey sn) (fst (AddPing L now sn raw r))"
    using assms by (simp add: AddPing_def ping_at_least_def Let_def split: if_splits)
  hence "ping_at_least (sn_PingTime sn) (sn_PubKey sn) (reg_run L ops (fst (AddPing L now sn raw r)))"
    by (rule ping_at_least_run)
  thus ?thesis
    by (auto simp: AddPing_def ping_at_least_def Let_def split: option.splits)
qed

theorem ping_not_replayed_witness:
  "snd (AddPing demo_lib 1700000200 demo_hub None (AddRegistration demo_lib demo_node (fst (AddPing demo_lib 1700000100 demo_hub None NewRegistry))))
    = False"
proof -
  have "snd (AddPing demo_lib 1700000100 demo_hub None NewRegistry)"
    by (simp add: demo_accepted)
  from ping_not_replayed [OF this, of 1700000200 None "[Register demo_node]"] show ?thesis
    by (simp add: reg_step_def)
qed

text \<open>
  A hub that \<^verbatim>\<open>Pick\<close> returns pinged with a valid key, under the bridge version asked for, with
  every token needed, within the last five minutes (a ping time of the future counts as the time
  of arrival), and is not among the excluded ones; and no hub is returned only if none qualifies.
\<close>

theorem Pick_recent_ping:
  assumes "r = reg_run L ops NewRegistry" and "now \<ge> runningWindow" and "set keys = dom (r_nodes r)"
  shows "case Pick ver now keys draw r need exclude of
      None \<Rightarrow> \<not> (\<exists>k. eligible ver now need exclude r k)
    | Some k \<Rightarrow> k \<notin> set exclude \<and> (\<exists>t sn raw. Ping t sn raw \<in> set ops \<and> sn_PubKey sn = k \<and> sn_Tier sn = TierSPV
        \<and> FullyValidPubKey L k \<and> sn_XBridgeVersion sn = ver \<and> set need \<subseteq> set (sn_Services sn)
        \<and> now - uint (clampPingTime (sn_PingTime sn) t) < runningWindow)"
proof (cases "Pick ver now keys draw r need exclude")
  case None
  hence "\<not> eligible ver now need exclude r k" if "k \<in> set keys" for k
    using that by (auto simp: Pick_def Let_def filter_empty_conv split: if_splits)
  moreover have "k \<in> set keys" if "eligible ver now need exclude r k" for k
    using that assms(3) by (auto simp: eligible_def split: option.splits)
  ultimately show ?thesis
    using None by auto
next
  case (Some k)
  obtain e where e: "r_nodes r k = Some e" "en_xbridgeVersion e = ver" "running now e" "set need \<subseteq> set (en_services e)" "k \<notin> set exclude"
    using Pick_eligible [OF Some] by (auto simp: eligible_def containsAll_iff split: option.splits)
  have "entries_from L ops r"
    unfolding assms(1) by (rule entries_from_run) (simp_all add: entries_from_def NewRegistry_def)
  moreover have "en_pingTime e \<noteq> 0"
    using e(3) assms(2) by (auto simp: running_def)
  ultimately obtain t sn raw where "Ping t sn raw \<in> set ops" "sn_PubKey sn = k" "sn_Tier sn = TierSPV" "FullyValidPubKey L k"
      "e = entry_of_ping t sn"
    using e(1) unfolding entries_from_def by blast
  thus ?thesis
    using e Some by (auto simp: entry_of_ping_def running_def)
qed

theorem Pick_recent_ping_witness:
  "Pick 55 1700000200 [demo_key] 3 (reg_run demo_lib [Ping 1700000100 demo_hub None] NewRegistry) [''LTC''] [] = Some demo_key
    \<and> sn_XBridgeVersion demo_hub = 55 \<and> ''LTC'' \<in> set (sn_Services demo_hub)"
proof -
  let ?r = "reg_run demo_lib [Ping 1700000100 demo_hub None] NewRegistry"
  have r: "?r = fst (AddPing demo_lib 1700000100 demo_hub None NewRegistry)"
    by (simp add: reg_step_def)
  have keys: "set [demo_key] = dom (r_nodes ?r)"
    unfolding r demo_accepted by simp
  have el: "eligible 55 1700000200 [''LTC''] [] ?r demo_key"
    unfolding r demo_accepted
    by (simp add: eligible_def entry_of_ping_def running_def runningWindow_def clampPingTime_def containsAll_def)
      (simp add: demo_hub_def demo_node_def)
  have "(1700000200 :: int) \<ge> runningWindow"
    by (simp add: runningWindow_def)
  from Pick_recent_ping [OF refl this keys, where ver = 55 and draw = 3 and need = "[''LTC'']" and exclude = "[]"] el show ?thesis
    by (auto simp: Pick_def split: option.splits)
qed

end
