(* ===== verification/UtxoProof.thy ===== *)
theory UtxoProof
  imports SwapTx Order
begin

text \<open>
  Ownership proofs of the outputs that fund an order (\<^verbatim>\<open>api/node.go\<close>): the text a maker's wallet
  signs for each output, the list of proofs, and the check every other trader makes before it books
  the order. The wallet's \<^verbatim>\<open>SignMessage\<close> and \<^verbatim>\<open>VerifyMessage\<close> are the arguments \<open>sm\<close> and \<open>vm\<close>.
\<close>

section \<open>Decimal text of a double\<close>

text \<open>
  \<^verbatim>\<open>strconv.FormatFloat(v, 'g', 6, 64)\<close>: six significant digits, rounded to nearest and to even on a
  tie, trailing zeros dropped; exponent form below \<open>10 ^ -4\<close> and from \<open>10 ^ 6\<close>.
\<close>

definition pow10 :: "int \<Rightarrow> rat" where
  "pow10 k = (if 0 \<le> k then 10 ^ nat k else 1 / 10 ^ nat (- k))"

definition dec_exp :: "rat \<Rightarrow> int" where
  "dec_exp v = (if 1 \<le> v then int (length (nat_str (nat \<lfloor>v\<rfloor>))) - 1 else - int (length (nat_str (nat (\<lceil>1 / v\<rceil> - 1)))))"

definition trim_zeros :: "string \<Rightarrow> string" where
  "trim_zeros s = rev (dropWhile ((=) (CHR ''0'')) (rev s))"

text \<open>The digits and the position of the point, for a positive number.\<close>

definition six_digits :: "rat \<Rightarrow> string \<times> int" where
  "six_digits v = (let x = dec_exp v; d = round_even (v / pow10 (x - 5)) in
     if d = 1000000 then (''1'', x + 2) else (trim_zeros (nat_str (nat d)), x + 1))"

definition exp_text :: "int \<Rightarrow> string" where
  "exp_text x = (let a = nat \<bar>x\<bar> in ''e'' @ (if x < 0 then ''-'' else ''+'') @ (if a < 10 then ''0'' else []) @ nat_str a)"

definition fmtE :: "string \<Rightarrow> int \<Rightarrow> string" where
  "fmtE ds dp = take 1 ds @ (if 1 < length ds then CHR ''.'' # drop 1 ds else []) @ exp_text (dp - 1)"

definition fmtF :: "string \<Rightarrow> int \<Rightarrow> string" where
  "fmtF ds dp = (let whole = (if 0 < dp then take (nat dp) (ds @ replicate (nat dp) (CHR ''0'')) else ''0'');
       frac = replicate (nat (- dp)) (CHR ''0'') @ drop (nat dp) ds
     in whole @ (if int (length ds) - dp > 0 then CHR ''.'' # frac else []))"

definition FormatFloat_g6 :: "float64 \<Rightarrow> string" where
  "FormatFloat_g6 v = (
     let (ds, dp) = (if v = 0 then ([], 0) else six_digits \<bar>v\<bar>);
         eprec = (if 6 > length ds \<and> int (length ds) \<ge> dp then int (length ds) else 6);
         text = (if dp - 1 < -4 \<or> dp - 1 \<ge> eprec then fmtE ds dp else fmtF ds dp)
     in if v < 0 then CHR ''-'' # text else text)"

section \<open>The challenge and the proofs\<close>

definition wholeCoinOstream :: "float64 \<Rightarrow> string" where
  "wholeCoinOstream v = FormatFloat_g6 v"

definition utxoChallenge :: "string \<Rightarrow> u32 \<Rightarrow> float64 \<Rightarrow> string \<Rightarrow> string" where
  "utxoChallenge txid vout amount address = txid @ '':'' @ nat_str (unat vout) @ '':'' @ wholeCoinOstream amount @ '':'' @ address"

fun buildUtxoProofs :: "(string \<Rightarrow> string \<Rightarrow> bytes task) \<Rightarrow> Utxo list \<Rightarrow> Coin \<Rightarrow> UtxoEntry list task" where
  "buildUtxoProofs sm [] c = Inr []"
| "buildUtxoProofs sm (u # us) c =
     t_bind (of_go (reverseTxidHex (ut_TxID u))) (\<lambda>i.
     case DecodeAddress c (ut_Address u) of
       Inl (GoPanic s) \<Rightarrow> Inl (TPanic s)
     | Inl (GoErr s) \<Rightarrow> Inl (TErr (''api: utxo address is invalid: '' @ s))
     | Inr a \<Rightarrow> (case Address_ID a of
         None \<Rightarrow> Inl (TErr (''api: utxo address is invalid: '' @ ut_Address u @ '' has no id''))
       | Some raw \<Rightarrow> t_bind (sm (ut_Address u) (utxoChallenge (ut_TxID u) (ut_Vout u) (ut_Value u) (ut_Address u))) (\<lambda>sig.
           if length sig \<noteq> 65 then Inl (TErr ''api: signature must be 65 bytes'')
           else t_bind (buildUtxoProofs sm us c) (\<lambda>out.
             Inr (\<lparr>ue_TxID = i, ue_Vout = ut_Vout u, ue_RawAddress = raw, ue_Signature = sig\<rparr> # out)))))"

section \<open>Checking the proofs\<close>

definition proof_address :: "Coin \<Rightarrow> bytes \<Rightarrow> Address" where
  "proof_address c h = \<lparr>a_Coin = c, a_Kind = P2PKH, a_Prefix = c_P2PKH c, a_Hash = h, a_WitnessVersion = 0\<rparr>"

text \<open>What one entry adds to the total; an entry that fails is skipped.\<close>

definition proof_value :: "(string \<Rightarrow> bytes \<Rightarrow> string \<Rightarrow> bool task) \<Rightarrow> Connector \<Rightarrow> Coin \<Rightarrow> UtxoEntry \<Rightarrow> float64 option" where
  "proof_value vm conn c en = (
     let txid = hexEncode (map (\<lambda>i. ue_TxID en ! (31 - i)) [0..<32]) in
     case cn_GetTxOut conn txid (ue_Vout en) of
       Inl _ \<Rightarrow> None
     | Inr (u, ok) \<Rightarrow> if \<not> ok then None
         else let address = Address_String (proof_address c (ue_RawAddress en)) in
           if address = [] then None
           else if vm address (ue_Signature en) (utxoChallenge txid (ue_Vout en) (ut_Value u) address) \<noteq> Inr True then None
           else Some (ut_Value u))"

fun verify_loop :: "(string \<Rightarrow> bytes \<Rightarrow> string \<Rightarrow> bool task) \<Rightarrow> Connector \<Rightarrow> Coin \<Rightarrow> UtxoEntry list \<Rightarrow> float64 \<Rightarrow> nat \<Rightarrow> float64 \<times> nat" where
  "verify_loop vm conn c [] acc valid = (acc, valid)"
| "verify_loop vm conn c (en # es) acc valid = (case proof_value vm conn c en of
       None \<Rightarrow> verify_loop vm conn c es acc valid
     | Some v \<Rightarrow> verify_loop vm conn c es (fl (acc + v)) (Suc valid))"

definition verifyOrderUtxos :: "(string \<Rightarrow> bytes \<Rightarrow> string \<Rightarrow> bool task) \<Rightarrow> Connector \<Rightarrow> Coin \<Rightarrow> UtxoEntry list \<Rightarrow> u64 \<Rightarrow> bool" where
  "verifyOrderUtxos vm conn c utxos required = (let (acc, valid) = verify_loop vm conn c utxos 0 0 in
     0 < valid \<and> fl (acc * of_nat coinScale) \<ge> float_of_u64 required)"

section \<open>Lemmas\<close>

text \<open>The total of a list of values as the loop adds them.\<close>

definition fl_total :: "float64 list \<Rightarrow> float64" where
  "fl_total vs = foldl (\<lambda>t v. fl (t + v)) 0 vs"

lemma verify_loop_eq:
  "verify_loop vm conn c es acc valid
     = (foldl (\<lambda>t v. fl (t + v)) acc (List.map_filter (proof_value vm conn c) es),
        valid + length (List.map_filter (proof_value vm conn c) es))"
  by (induction es arbitrary: acc valid) (simp_all add: List.map_filter_def split: option.splits)

lemma verifyOrderUtxos_eq:
  "verifyOrderUtxos vm conn c es required \<longleftrightarrow> (let vs = List.map_filter (proof_value vm conn c) es in
     vs \<noteq> [] \<and> float_of_u64 required \<le> fl (fl_total vs * 1000000))"
  by (simp add: verifyOrderUtxos_def verify_loop_eq fl_total_def Let_def coinScale_def)

lemma rev32: "length b = 32 \<Longrightarrow> map (\<lambda>i. b ! (31 - i)) [0..<32] = rev b"
  by (rule nth_equalityI) (simp_all add: rev_nth)

text \<open>A coin whose key-hash addresses read back, and an output of such an address with its id in lower-case hex.\<close>

definition keyed_coin :: "Coin \<Rightarrow> bool" where
  "keyed_coin c \<longleftrightarrow> c_P2PKH c \<noteq> c_P2SH c \<and> (c_family c = FamilyUTXOBCH \<longrightarrow> c_CashAddrPrefix c \<in> {''bitcoincash'', ''devault''})"

definition provable :: "Coin \<Rightarrow> Utxo \<Rightarrow> bool" where
  "provable c u \<longleftrightarrow> (\<exists>t h. length t = 32 \<and> ut_TxID u = hexEncode t \<and> length h = 20 \<and> ut_Address u = Address_String (proof_address c h))"

lemma proof_address_decodes:
  assumes "keyed_coin c" and "length h = 20"
  shows "\<exists>a. DecodeAddress c (Address_String (proof_address c h)) = Inr a \<and> a_Hash a = h"
proof -
  let ?a = "(proof_address c h)\<lparr>a_Prefix := if c_family c = FamilyUTXOBCH then 0 else c_P2PKH c\<rparr>"
  have "plain_address ?a"
    using assms by (auto simp: plain_address_def proof_address_def keyed_coin_def)
  from plain_address_decodes [OF this] have "DecodeAddress c (Address_String ?a) = Inr ?a"
    by (simp add: proof_address_def)
  moreover have "Address_String ?a = Address_String (proof_address c h)"
    by (simp add: Address_String_def proof_address_def)
  ultimately show ?thesis
    by (auto simp: proof_address_def)
qed

lemma decoded_nonempty: "DecodeAddress c s = Inr a \<Longrightarrow> s \<noteq> []"
  by (auto simp: DecodeAddress_def decodeAddress_def)

text \<open>The wallets agree: what one signs the other accepts, and both see the same value of an output.\<close>

definition wallets_agree :: "(string \<Rightarrow> string \<Rightarrow> bytes task) \<Rightarrow> (string \<Rightarrow> bytes \<Rightarrow> string \<Rightarrow> bool task) \<Rightarrow> Connector \<Rightarrow> Utxo list \<Rightarrow> bool" where
  "wallets_agree sm vm conn us \<longleftrightarrow> (\<forall>a m sig. sm a m = Inr sig \<longrightarrow> vm a sig m = Inr True)
     \<and> (\<forall>u \<in> set us. \<exists>w. cn_GetTxOut conn (ut_TxID u) (ut_Vout u) = Inr (w, True) \<and> ut_Value w = ut_Value u)"

lemma proof_value_built:
  assumes "keyed_coin c" and "provable c u" and "wallets_agree sm vm conn (u # us)"
    and "buildUtxoProofs sm (u # us) c = Inr es"
  shows "\<exists>en rest. es = en # rest \<and> buildUtxoProofs sm us c = Inr rest \<and> proof_value vm conn c en = Some (ut_Value u)"
proof -
  obtain t h where th: "length t = 32" "ut_TxID u = hexEncode t" "length h = 20" "ut_Address u = Address_String (proof_address c h)"
    using assms(2) by (auto simp: provable_def)
  obtain a where a: "DecodeAddress c (ut_Address u) = Inr a" "a_Hash a = h"
    using proof_address_decodes [OF assms(1) th(3)] th(4) by auto
  have "reverseTxidHex (ut_TxID u) = Inr (rev t)"
    using th(1,2) by (simp add: reverseTxidHex_def hexEncode_def rev32)
  then obtain sig rest where s: "sm (ut_Address u) (utxoChallenge (ut_TxID u) (ut_Vout u) (ut_Value u) (ut_Address u)) = Inr sig"
      "buildUtxoProofs sm us c = Inr rest"
      "es = \<lparr>ue_TxID = rev t, ue_Vout = ut_Vout u, ue_RawAddress = h, ue_Signature = sig\<rparr> # rest"
    using assms(4) a th(3) by (auto simp: Address_ID_def t_bind_def of_go_def split: sum.splits if_splits)
  have id: "hexEncode (map (\<lambda>i. rev t ! (31 - i)) [0..<32]) = ut_TxID u"
    using th(1,2) rev32 [of "rev t"] by simp
  obtain w where w: "cn_GetTxOut conn (ut_TxID u) (ut_Vout u) = Inr (w, True)" "ut_Value w = ut_Value u"
    using assms(3) by (auto simp: wallets_agree_def)
  have "vm (ut_Address u) sig (utxoChallenge (ut_TxID u) (ut_Vout u) (ut_Value u) (ut_Address u)) = Inr True"
    using assms(3) s(1) by (simp add: wallets_agree_def)
  thus ?thesis
    using s w decoded_nonempty [OF a(1)] by (simp add: proof_value_def Let_def id th(4) [symmetric])
qed

lemma proofs_values:
  assumes "keyed_coin c" and "list_all (provable c) us" and "wallets_agree sm vm conn us"
    and "buildUtxoProofs sm us c = Inr es"
  shows "List.map_filter (proof_value vm conn c) es = map ut_Value us"
  using assms
proof (induction us arbitrary: es)
  case (Cons u us)
  from Cons.prems obtain en rest where "es = en # rest" "buildUtxoProofs sm us c = Inr rest"
      "proof_value vm conn c en = Some (ut_Value u)"
    using proof_value_built [of c u sm vm conn us es] by auto
  with Cons show ?case
    by (simp add: List.map_filter_def wallets_agree_def)
qed (simp add: List.map_filter_def)

section \<open>Properties\<close>

text \<open>
  C32: the proofs a maker builds for its outputs are accepted by every trader whose wallet agrees with
  the maker's, exactly when there is at least one output and their total, added up as doubles and
  scaled, reaches the order's amount. The outputs pay to key hashes of the coin, and their ids are in
  lower-case hex.
\<close>

theorem utxo_proofs_accepted:
  assumes "keyed_coin c" and "list_all (provable c) us" and "wallets_agree sm vm conn us"
    and "buildUtxoProofs sm us c = Inr es"
  shows "verifyOrderUtxos vm conn c es required
    \<longleftrightarrow> us \<noteq> [] \<and> float_of_u64 required \<le> fl (fl_total (map ut_Value us) * 1000000)"
  using proofs_values [OF assms] by (simp add: verifyOrderUtxos_eq)

text \<open>One output of one coin and a wallet that signs with zeros and knows the output.\<close>

definition one_coin :: Utxo where
  "one_coin = \<lparr>ut_TxID = hexEncode (replicate 32 7), ut_Vout = 1, ut_Address = Address_String (proof_address sample (replicate 20 9)),
     ut_Amount = 100000000, ut_Value = 1, ut_ScriptPubKey = [], ut_Confirmations = 3\<rparr>"

definition one_conn :: Connector where
  "one_conn = \<lparr>cn_GetNewAddress = Inl (TErr []), cn_GetBlockCount = Inl (TErr []), cn_SignRawTransaction = (\<lambda>_ _. Inl (TErr [])),
     cn_SendRawTransaction = (\<lambda>_. Inl (TErr [])), cn_GetRawTransaction = (\<lambda>_. Inl (TErr [])),
     cn_GetRawTransactionVerbose = (\<lambda>_. Inl (TErr [])), cn_GetTxOut = (\<lambda>_ _. Inr (one_coin, True)),
     cn_CheckDepositTransaction = (\<lambda>_ _ _ _. Inl (TErr [])), cn_GetRawMempool = Inl (TErr []),
     cn_GetBlockHash = (\<lambda>_. Inl (TErr [])), cn_GetBlockTxs = (\<lambda>_. Inl (TErr []))\<rparr>"

lemma one_coin_built:
  "buildUtxoProofs (\<lambda>_ _. Inr (replicate 65 0)) [one_coin] sample
     = Inr [\<lparr>ue_TxID = replicate 32 7, ue_Vout = 1, ue_RawAddress = replicate 20 9, ue_Signature = replicate 65 0\<rparr>]"
proof -
  obtain a where a: "DecodeAddress sample (ut_Address one_coin) = Inr a" "a_Hash a = replicate 20 9"
    using proof_address_decodes [of sample "replicate 20 9"] by (auto simp: keyed_coin_def sample_def one_coin_def)
  have "reverseTxidHex (ut_TxID one_coin) = Inr (replicate 32 7)"
    using rev32 [of "replicate 32 7 :: bytes"] by (simp add: reverseTxidHex_def hexEncode_def one_coin_def)
  thus ?thesis
    using a by (simp add: Address_ID_def t_bind_def of_go_def) (simp add: one_coin_def)
qed

theorem utxo_proofs_accepted_witness:
  "\<not> verifyOrderUtxos (\<lambda>_ _ _. Inr True) one_conn sample
      [\<lparr>ue_TxID = replicate 32 7, ue_Vout = 1, ue_RawAddress = replicate 20 9, ue_Signature = replicate 65 0\<rparr>] 1000001
   \<and> verifyOrderUtxos (\<lambda>_ _ _. Inr True) one_conn sample
      [\<lparr>ue_TxID = replicate 32 7, ue_Vout = 1, ue_RawAddress = replicate 20 9, ue_Signature = replicate 65 0\<rparr>] 1000000"
proof -
  have "length (replicate 32 7 :: bytes) = 32 \<and> ut_TxID one_coin = hexEncode (replicate 32 7) \<and> length (replicate 20 9 :: bytes) = 20
      \<and> ut_Address one_coin = Address_String (proof_address sample (replicate 20 9))"
    by (simp add: one_coin_def)
  hence prov: "list_all (provable sample) [one_coin]"
    unfolding list_all_iff provable_def by fastforce
  have agree: "wallets_agree (\<lambda>_ _. Inr (replicate 65 0)) (\<lambda>_ _ _. Inr True) one_conn [one_coin]"
    by (simp add: wallets_agree_def one_conn_def)
  have "keyed_coin sample"
    by (simp add: keyed_coin_def sample_def)
  note acc = utxo_proofs_accepted [OF this prov agree one_coin_built]
  have one: "fl 1 = 1" "fl 1000000 = 1000000" "fl 1000001 = 1000001"
    using fl_nat_exact [of 1] fl_nat_exact [of 1000000] fl_nat_exact [of 1000001] by simp_all
  show ?thesis
    unfolding acc by (simp add: fl_total_def one one_coin_def float_of_u64_def val_def)
qed


end
