(* ===== verification/Engine.thy ===== *)
theory Engine
  imports SwapWatch Reconcile TakeRetry ServiceNode UtxoProof
begin

text \<open>
  The engine around the swap sessions: \<^verbatim>\<open>api/engine.go\<close> and the parts of \<^verbatim>\<open>api/node.go\<close> and
  \<^verbatim>\<open>api/hold_resend.go\<close> that read packets off the wire, choose a hub, book announced orders, keep
  own orders announced, and run the sweeps of the 60-second tick. The block cache, the registry of
  service nodes and the outcome of a write to an address are arguments.
\<close>

section \<open>The reader\<close>

definition hubBanThreshold :: nat where "hubBanThreshold = 100"

text \<open>
  What one call of \<^verbatim>\<open>ReadPacket\<close> can return: an idle timeout, another error, or a packet. The reader
  keeps a misbehaviour score; \<open>rl_out\<close> is what it passed on to the engine, in order.
\<close>

datatype read_event = RdTimeout | RdErr go_fail | RdPkt Packet

record reader =
  rl_score :: nat
  rl_closed :: bool
  rl_out :: "Packet list"

definition new_reader :: reader where
  "new_reader = \<lparr>rl_score = 0, rl_closed = False, rl_out = []\<rparr>"

definition readerLoop_step :: "'k secp \<Rightarrow> bool \<Rightarrow> read_event \<Rightarrow> reader \<Rightarrow> reader" where
  "readerLoop_step L direct ev r = (if rl_closed r then r
     else case ev of
       RdErr er \<Rightarrow> if direct \<and> er = ErrMalformedXBridge
         then (let r = r\<lparr>rl_score := rl_score r + 10\<rparr> in if rl_score r \<ge> hubBanThreshold then r\<lparr>rl_closed := True\<rparr> else r)
         else r
     | RdTimeout \<Rightarrow> r\<lparr>rl_closed := True\<rparr>
     | RdPkt pkt \<Rightarrow> (case DecodeBody (p_Command pkt) (p_Body pkt) of Inl _ \<Rightarrow> r
         | Inr _ \<Rightarrow> if Signer_Verify L pkt \<noteq> Inr True then r else r\<lparr>rl_out := rl_out r @ [pkt]\<rparr>))"

definition readerLoop :: "'k secp \<Rightarrow> bool \<Rightarrow> read_event list \<Rightarrow> reader" where
  "readerLoop L direct evs = fold (readerLoop_step L direct) evs new_reader"

section \<open>Choosing a hub\<close>

text \<open>\<open>keys\<close> is the order in which the table of silent hubs is ranged over.\<close>

definition hubExclusions :: "'k Env \<Rightarrow> bytes list \<Rightarrow> Node \<Rightarrow> Node \<times> bytes list" where
  "hubExclusions e keys n = (
     let lapsed = (\<lambda>k. case n_silentHubs n k of None \<Rightarrow> False | Some until \<Rightarrow> e_now e \<ge> until);
         out = filter (\<lambda>k. n_silentHubs n k \<noteq> None \<and> \<not> lapsed k) keys
     in (n\<lparr>n_silentHubs := (\<lambda>k. if k \<in> set keys \<and> lapsed k then None else n_silentHubs n k)\<rparr>, sort out))"

text \<open>The registry with the orders it is ranged over and the random draws of its two calls.\<close>

record snreg =
  sr_reg :: Registry
  sr_keys :: "bytes list"
  sr_draw :: nat
  sr_draw2 :: nat

definition reg_pick :: "'k Env \<Rightarrow> snreg \<Rightarrow> nat \<Rightarrow> string list \<Rightarrow> bytes list \<Rightarrow> bytes option" where
  "reg_pick e sr draw svcs exclude = Pick (e_version e) (e_unix e) (sr_keys sr) draw (sr_reg sr) svcs exclude"

definition pickHub :: "'k Env \<Rightarrow> snreg option \<Rightarrow> bytes list \<Rightarrow> string list \<Rightarrow> Node \<Rightarrow> Node \<times> bytes option" where
  "pickHub e snReg keys currencies n = (case snReg of None \<Rightarrow> (n, None)
     | Some sr \<Rightarrow> let (n, excl) = hubExclusions e keys n in
         case (if excl \<noteq> [] then reg_pick e sr (sr_draw sr) currencies excl else None) of
           Some key \<Rightarrow> (n, Some key)
         | None \<Rightarrow> (n, reg_pick e sr (sr_draw2 sr) currencies []))"

section \<open>Announced orders\<close>

text \<open>The cached tip of the chain: hash, height and time of reading in microseconds.\<close>

record BlockCache =
  bk_hash :: bytes
  bk_height :: u32
  bk_at :: int

definition cachedBlockHeight :: "'k Env \<Rightarrow> BlockCache \<Rightarrow> u32" where
  "cachedBlockHeight e c = (if bk_at c > uint (e_now e) - 60 * 1000000 \<and> bk_hash c \<noteq> replicate 32 0 then bk_height c else 0)"

definition book :: "Order \<Rightarrow> Node \<Rightarrow> Node" where
  "book ord n = n\<lparr>n_store := Add (n_store n) ord\<rparr>"

definition verifyAndBook :: "'k Env \<Rightarrow> Order \<Rightarrow> Node \<Rightarrow> Node" where
  "verifyAndBook e ord n = (if o_Utxos ord = [] then book ord n
     else case (e_connectors e (o_FromCurrency ord), Coin_Get (e_coins e) (o_FromCurrency ord)) of
         (Some conn, Some coin) \<Rightarrow> fst (enqueue e (VerifyOrder conn coin ord) n)
       | _ \<Rightarrow> book ord n)"

text \<open>What the worker computes, and what the engine does with it.\<close>

definition run_VerifyOrder :: "(string \<Rightarrow> bytes \<Rightarrow> string \<Rightarrow> bool task) \<Rightarrow> Connector \<Rightarrow> Coin \<Rightarrow> Order \<Rightarrow> bool task" where
  "run_VerifyOrder vm conn coin ord = Inr (verifyOrderUtxos vm conn coin (o_Utxos ord) (o_FromAmount ord))"

definition applyVerified :: "Order \<Rightarrow> bool task \<Rightarrow> Node \<Rightarrow> Node" where
  "applyVerified ord v n = (if v \<noteq> Inr True then n
     else if HasOrder (n_store n) (hexEncode (o_ID ord)) then n else book ord n)"

definition ingestPending :: "'k Env \<Rightarrow> BlockCache \<Rightarrow> PendingTransactionBody \<Rightarrow> string \<Rightarrow> Node \<Rightarrow> Node" where
  "ingestPending e c b snode n = (
     let ord = (normalizeFromPendingBody b snode)\<lparr>o_BlockNumber := cachedBlockHeight e c\<rparr>;
         idHex = hexEncode (o_ID ord);
         (st, touched) = Touch (e_now e) (n_store n) idHex;
         n = n\<lparr>n_store := st\<rparr>
     in if touched then n
        else if HasOrder (n_store n) idHex then n
        else verifyAndBook e ord n)"

definition handlePacket :: "'k Env \<Rightarrow> BlockCache \<Rightarrow> Packet \<Rightarrow> Node \<Rightarrow> Node" where
  "handlePacket e c pkt n = (case DecodeBody (p_Command pkt) (p_Body pkt) of Inl _ \<Rightarrow> n
     | Inr (XPending b) \<Rightarrow> ingestPending e c b (hexEncode (p_Pubkey pkt)) n
     | Inr body \<Rightarrow> handleSwapPacket e pkt body n)"

section \<open>Expiry and announcing again\<close>

definition in_swap :: "Node \<Rightarrow> string \<Rightarrow> bool" where
  "in_swap n key = (case live n key of None \<Rightarrow> False
     | Some s \<Rightarrow> if ss_state s \<le> csMaker then False
         else if \<not> ss_isMaker s then (case Store_Get (n_store n) key of None \<Rightarrow> False | Some ord \<Rightarrow> o_Status ord \<noteq> ''open'')
         else True)"

definition pruneExpired :: "'k Env \<Rightarrow> BlockCache \<Rightarrow> Node \<Rightarrow> Node" where
  "pruneExpired e c n = n\<lparr>n_store := fst (PruneExpired (n_store n) (e_now e) (cachedBlockHeight e c) (in_swap n))\<rparr>"

definition rebroadcastInterval :: u64 where "rebroadcastInterval = 240 * 1000000"

definition order_body :: "Order \<Rightarrow> OrderBody" where
  "order_body ord = \<lparr>ob_ID = o_ID ord, ob_From = o_From ord, ob_FromCurrency = o_FromCurrency ord, ob_FromAmount = o_FromAmount ord,
     ob_To = o_To ord, ob_ToCurrency = o_ToCurrency ord, ob_ToAmount = o_ToAmount ord, ob_Created = o_Created ord,
     ob_BlockHash = o_BlockHash ord, ob_PartialAllowed = o_PartialAllowed ord, ob_MinFromAmount = o_MinFromAmount ord,
     ob_Utxos = o_Utxos ord\<rparr>"

definition buildOrderPacket :: "'k Env \<Rightarrow> Order \<Rightarrow> bytes \<Rightarrow> Packet go" where
  "buildOrderPacket e ord priv = Signer_Sign (e_secp e) (NewPacket (e_version e) (e_unix e) XbcTransaction (OrderBody_Marshal (order_body ord))) priv"

text \<open>The hash function \<open>rip\<close> is RIPEMD-160, which makes the address of a key.\<close>

definition rotateHub :: "'k Env \<Rightarrow> (bytes \<Rightarrow> bytes) \<Rightarrow> snreg option \<Rightarrow> string \<Rightarrow> nat \<Rightarrow> Order \<Rightarrow> Node \<Rightarrow> Node \<times> bytes option" where
  "rotateHub e rip snReg key p ord n = (case snReg of None \<Rightarrow> (n, None)
     | Some sr \<Rightarrow> let s = n_heap n p in
       if \<not> ss_isMaker s \<or> ss_state s \<noteq> csMaker then (n, None)
       else case reg_pick e sr (sr_draw sr) [o_FromCurrency ord, o_ToCurrency ord] (if ss_hubKey s \<noteq> replicate 33 0 then [ss_hubKey s] else []) of
           None \<Rightarrow> (n, None)
         | Some newKey \<Rightarrow>
           let newAddr = KeyID rip newKey;
               n = upd p (\<lambda>s. s\<lparr>ss_hub := newAddr, ss_hubKey := newKey\<rparr>) n;
               n = upd_order key (\<lambda>ord. ord\<lparr>o_HubAddress := newAddr, o_SNodePubkey := hexEncode newKey\<rparr>) n
           in (persist e n, Some newAddr))"

fun used_coins_loop :: "'k Env \<Rightarrow> Connector \<Rightarrow> string \<Rightarrow> Utxo list \<Rightarrow> Node \<Rightarrow> Node \<times> bool" where
  "used_coins_loop e conn idHex [] n = (n, True)"
| "used_coins_loop e conn idHex (u # us) n = (case cn_GetTxOut conn (ut_TxID u) (ut_Vout u) of
       Inl _ \<Rightarrow> (n, True)
     | Inr (_, ok) \<Rightarrow> if \<not> ok
         then (let n = fst (sendCancelTransaction e idHex (ucast crBadAUtxo) n);
                   n = upd_order idHex (\<lambda>stored. stored\<lparr>o_Status := ''canceled'', o_Updated := e_now e\<rparr>) n
               in (persist e n, False))
         else used_coins_loop e conn idHex us n)"

definition orderUtxosStillValid :: "'k Env \<Rightarrow> Order \<Rightarrow> Node \<Rightarrow> Node \<times> bool" where
  "orderUtxosStillValid e ord n = (if o_UsedCoins ord = [] then (n, True)
     else case e_connectors e (o_FromCurrency ord) of None \<Rightarrow> (n, True)
       | Some conn \<Rightarrow> used_coins_loop e conn (hexEncode (o_ID ord)) (o_UsedCoins ord) n)"

definition write_packet :: "(bytes \<Rightarrow> bool) \<Rightarrow> Packet \<Rightarrow> bytes \<Rightarrow> Node \<Rightarrow> Node \<times> bool" where
  "write_packet wok pkt dest n = (if \<not> wok dest then (n, False)
     else (n\<lparr>n_packets := n_packets n @ [(dest, p_Command pkt, p_Body pkt)]\<rparr>, True))"

definition rebroadcast_one :: "'k Env \<Rightarrow> (bytes \<Rightarrow> bytes) \<Rightarrow> snreg option \<Rightarrow> (bytes \<Rightarrow> bool) \<Rightarrow> string \<Rightarrow> Node \<Rightarrow> Node" where
  "rebroadcast_one e rip snReg wok key n = (case n_sessions n key of None \<Rightarrow> n
     | Some p \<Rightarrow> let s = n_heap n p; now = e_now e in
       if \<not> ss_isMaker s \<or> ss_state s \<noteq> csMaker then n
       else case Store_Get (n_store n) key of None \<Rightarrow> n
         | Some ord \<Rightarrow>
           if \<not> o_Mine ord \<or> o_PrepTx ord \<noteq> [] \<or> o_Status ord \<noteq> ''open'' then n
           else if now - o_Updated ord < rebroadcastInterval then n
           else let (n, valid) = orderUtxosStillValid e ord n in
             if \<not> valid then n
             else let hubAddr = (if o_HubAddress ord = replicate 20 0 then ss_hub s else o_HubAddress ord) in
               case buildOrderPacket e ord (ss_privKey s) of Inl _ \<Rightarrow> n
               | Inr pkt \<Rightarrow>
                 let (n, sent) = write_packet wok pkt hubAddr n;
                     (n, sent) = (if sent then (n, True)
                       else case rotateHub e rip snReg key p ord n of
                           (n, None) \<Rightarrow> (n, False)
                         | (n, Some newAddr) \<Rightarrow> write_packet wok pkt newAddr n)
                 in if sent then upd_order key (\<lambda>ord. ord\<lparr>o_Updated := now\<rparr>) n else n)"

definition rebroadcastOpenOrders :: "'k Env \<Rightarrow> (bytes \<Rightarrow> bytes) \<Rightarrow> snreg option \<Rightarrow> (bytes \<Rightarrow> bool) \<Rightarrow> string list \<Rightarrow> Node \<Rightarrow> Node" where
  "rebroadcastOpenOrders e rip snReg wok keys n = fold (rebroadcast_one e rip snReg wok) keys n"

section \<open>The tick\<close>

text \<open>
  The stages with their names; \<open>keys\<close> and \<open>txids\<close> are the orders in which the sessions and the
  broadcasts are ranged over. The clock of a tick is that of its surrounding.
\<close>

definition tickStages :: "'k Env \<Rightarrow> string list \<Rightarrow> string list \<Rightarrow> (string \<times> (Node \<Rightarrow> Node)) list" where
  "tickStages e keys txids = [
     (''clearStuckAwait'', clearStuckAwait e keys),
     (''scanRefunds'', scanRefunds e keys),
     (''scanStoredRefunds'', scanStoredRefunds e),
     (''resendHoldApplies'', resendHoldApplies e keys),
     (''retryFailedClaimBuilds'', retryFailedClaimBuilds e keys),
     (''retryFailedDepositBuilds'', retryFailedDepositBuilds e keys),
     (''recordSilentHubs'', recordSilentHubs e keys),
     (''watchStalledSessions'', watchStalledSessions e keys),
     (''gcStaleMineOrders'', gcStaleMineOrders e txids),
     (''watchCounterpartyDeposits'', watchCounterpartyDeposits e keys),
     (''watchOwnDepositSpends'', watchOwnDepositSpends e keys),
     (''pollBroadcastConfirmations'', pollBroadcastConfirmations e txids),
     (''rebroadcastUnconfirmed'', rebroadcastUnconfirmed e txids),
     (''pruneTracked'', pruneTracked txids),
     (''pruneSessions'', pruneSessions),
     (''pruneTakeRetries'', pruneTakeRetries),
     (''persist'', persist e)]"

definition tick :: "'k Env \<Rightarrow> string list \<Rightarrow> string list \<Rightarrow> Node \<Rightarrow> Node" where
  "tick e keys txids n = fold (\<lambda>(name, run). run) (tickStages e keys txids) n"

text \<open>The other two tickers: order expiry with the announcements, and the fast lane of the retries.\<close>

definition expiry_tick :: "'k Env \<Rightarrow> (bytes \<Rightarrow> bytes) \<Rightarrow> BlockCache \<Rightarrow> snreg option \<Rightarrow> (bytes \<Rightarrow> bool) \<Rightarrow> string list \<Rightarrow> Node \<Rightarrow> Node" where
  "expiry_tick e rip c snReg wok keys n = rebroadcastOpenOrders e rip snReg wok keys (pruneExpired e c n)"

definition retry_tick :: "'k Env \<Rightarrow> string list \<Rightarrow> Node \<Rightarrow> Node" where
  "retry_tick e keys n = retryFailedDepositBuilds e keys (retryFailedClaimBuilds e keys n)"

end
