(* ===== verification/UtxoSelect.thy ===== *)
theory UtxoSelect
  imports UtxoProof Store P2PWire
begin

text \<open>
  Choosing the outputs that fund an order, \<^verbatim>\<open>api/utxo_select.go\<close>, and the id of an order. Values are
  doubles in whole coins; the accounting of partial orders is in 64-bit integers that wrap, with the
  source's signed comparisons. \<^verbatim>\<open>sort.Slice\<close> is the argument \<open>srt\<close>: it promises a sorted permutation and
  says nothing of equal elements.
\<close>

unbundle bit_operations_syntax

section \<open>Amounts and fees\<close>

definition scale :: float64 where "scale = of_nat coinScale"

definition xBridgeValueFromAmount :: "u64 \<Rightarrow> float64" where
  "xBridgeValueFromAmount a = fl (fl (float_of_u64 a / scale) + fl (1 / 100000000))"

definition xBridgeIntFromReal :: "float64 \<Rightarrow> u64" where
  "xBridgeIntFromReal v = u64_of_float (fl (fl (v * scale) + fl (1 / 100000000)))"

definition camount :: "Utxo \<Rightarrow> u64" where
  "camount u = xBridgeIntFromReal (ut_Value u)"

definition ceilFeeXB :: "CoinConf option \<Rightarrow> u64 \<Rightarrow> u64" where
  "ceilFeeXB cc feeNative = (let perXB = (case cc of None \<Rightarrow> 100 | Some c \<Rightarrow> if cc_Coin c \<ge> 1000000 then cc_Coin c div 1000000 else 100)
     in if perXB \<le> 1 then feeNative else (feeNative + perXB - 1) div perXB)"

definition minTxFeeWhole :: "CoinConf option \<Rightarrow> nat \<Rightarrow> nat \<Rightarrow> float64" where
  "minTxFeeWhole cc nIn nOut = (case cc of
       None \<Rightarrow> fl (float_of_u64 (estimateFee None nIn nOut) / scale)
     | Some c \<Rightarrow> fl (float_of_u64 (estimateFee cc nIn nOut) / float_of_u64 (cc_Coin c)))"

text \<open>Conversion to an integer cuts towards zero.\<close>

definition trunc64 :: "float64 \<Rightarrow> int" where
  "trunc64 v = (if 0 \<le> v then \<lfloor>v\<rfloor> else \<lceil>v\<rceil>)"

definition isDustNative :: "float64 \<Rightarrow> CoinConf option \<Rightarrow> u64 \<Rightarrow> bool" where
  "isDustNative v cc nativeCoin = (let x = fl (v * float_of_u64 nativeCoin) in
     trunc64 x < 0 \<or> word_of_int (trunc64 x) < effectiveDust cc)"

section \<open>Sorting\<close>

type_synonym sorter = "(Utxo \<Rightarrow> Utxo \<Rightarrow> bool) \<Rightarrow> Utxo list \<Rightarrow> Utxo list"

definition strict_weak :: "('a \<Rightarrow> 'a \<Rightarrow> bool) \<Rightarrow> bool" where
  "strict_weak before \<longleftrightarrow> (\<forall>a b. before a b \<longrightarrow> \<not> before b a) \<and> (\<forall>a b c. \<not> before a b \<longrightarrow> \<not> before b c \<longrightarrow> \<not> before a c)"

text \<open>What \<^verbatim>\<open>sort.Slice\<close> promises.\<close>

locale slice_sort =
  fixes srt :: sorter
  assumes perm: "mset (srt before xs) = mset xs"
    and ordered: "strict_weak before \<Longrightarrow> sorted_wrt (\<lambda>a b. \<not> before b a) (srt before xs)"

text \<open>The library sorts up to twelve elements by insertion, each before the larger ones at the end of the sorted part.\<close>

fun slice_insert :: "('a \<Rightarrow> 'a \<Rightarrow> bool) \<Rightarrow> 'a \<Rightarrow> 'a list \<Rightarrow> 'a list" where
  "slice_insert before x [] = [x]"
| "slice_insert before x (y # ys) = (if before x y then x # y # ys else y # slice_insert before x ys)"

definition insertionSort :: "('a \<Rightarrow> 'a \<Rightarrow> bool) \<Rightarrow> 'a list \<Rightarrow> 'a list" where
  "insertionSort before xs = fold (slice_insert before) xs []"

section \<open>Exact orders\<close>

text \<open>
  The scan of both selectors (this one and the one of the service-node fee): the first ideal output
  ends it, the others are split at the minimum. Then the smallest large one, else the largest small
  ones up to the first prefix that is enough; the empty list is failure.
\<close>

fun pick_scan :: "(Utxo \<Rightarrow> bool) \<Rightarrow> float64 \<Rightarrow> Utxo list \<Rightarrow> Utxo list \<Rightarrow> Utxo list \<Rightarrow> Utxo + Utxo list \<times> Utxo list" where
  "pick_scan ideal minAmount [] gt lt = Inr (gt, lt)"
| "pick_scan ideal minAmount (u # us) gt lt = (
     if ideal u then Inl u
     else if ut_Value u \<ge> minAmount then pick_scan ideal minAmount us (gt @ [u]) lt
     else pick_scan ideal minAmount us gt (lt @ [u]))"

fun pick_prefix :: "(Utxo list \<Rightarrow> bool) \<Rightarrow> Utxo list \<Rightarrow> Utxo list \<Rightarrow> Utxo list" where
  "pick_prefix enough sel [] = []"
| "pick_prefix enough sel (u # us) = (let sel = sel @ [u] in if enough sel then sel else pick_prefix enough sel us)"

definition value_asc :: "Utxo \<Rightarrow> Utxo \<Rightarrow> bool" where
  "value_asc a b \<longleftrightarrow> ut_Value a < ut_Value b"

definition value_desc :: "Utxo \<Rightarrow> Utxo \<Rightarrow> bool" where
  "value_desc a b \<longleftrightarrow> ut_Value a > ut_Value b"

definition pick :: "sorter \<Rightarrow> (Utxo \<Rightarrow> bool) \<Rightarrow> float64 \<Rightarrow> (Utxo list \<Rightarrow> bool) \<Rightarrow> Utxo list \<Rightarrow> Utxo list" where
  "pick srt ideal minAmount enough us = (case pick_scan ideal minAmount us [] [] of
       Inl u \<Rightarrow> [u]
     | Inr (gt, lt) \<Rightarrow>
         if length gt = 1 then take 1 gt
         else if length gt > 1 then take 1 (srt value_asc gt)
         else if length lt < 2 then []
         else pick_prefix enough [] (srt value_desc lt))"

definition feeAmount :: "CoinConf option \<Rightarrow> float64 \<Rightarrow> nat \<Rightarrow> nat \<Rightarrow> float64" where
  "feeAmount cc amt inputs outs = fl (fl (amt + minTxFeeWhole cc inputs outs) + minTxFeeWhole cc 1 1)"

definition sel_ideal :: "string \<Rightarrow> CoinConf option \<Rightarrow> float64 \<Rightarrow> Utxo \<Rightarrow> bool" where
  "sel_ideal addr cc minAmount u \<longleftrightarrow> ut_Value u \<ge> minAmount
     \<and> ut_Value u < fl (minAmount + fl (fl (minTxFeeWhole cc 1 3 + minTxFeeWhole cc 1 1) * 1000))
     \<and> (ut_Address u = addr \<or> addr = [])"

definition sel_enough :: "CoinConf option \<Rightarrow> float64 \<Rightarrow> Utxo list \<Rightarrow> bool" where
  "sel_enough cc minAmount sel \<longleftrightarrow>
     foldl (\<lambda>running s. fl (running + ut_Value s)) (- fl (minTxFeeWhole cc (length sel) 3 + minTxFeeWhole cc 1 1)) sel \<ge> minAmount"

definition selUtxos :: "sorter \<Rightarrow> string \<Rightarrow> CoinConf option \<Rightarrow> Utxo list \<Rightarrow> float64 \<Rightarrow> Utxo list" where
  "selUtxos srt addr cc us amt = (let minAmount = feeAmount cc amt 1 3
     in pick srt (sel_ideal addr cc minAmount) minAmount (sel_enough cc minAmount) us)"

definition selectUtxos :: "sorter \<Rightarrow> string \<Rightarrow> Utxo list \<Rightarrow> CoinConf option \<Rightarrow> u64 \<Rightarrow> (Utxo list \<times> u64 \<times> u64) option" where
  "selectUtxos srt addr outputs cc requiredAmount = (
     let out = selUtxos srt addr cc (srt value_desc outputs) (fl (float_of_u64 requiredAmount / scale))
     in if out = [] then None
        else Some (out, sum_list (map (\<lambda>u. u64_of_float (fl (ut_Value u * scale))) out), ceilFeeXB cc (estimateFee cc (length out) 3)))"

definition selectTakeFunding :: "sorter \<Rightarrow> string \<Rightarrow> Utxo list \<Rightarrow> Utxo list \<Rightarrow> CoinConf option \<Rightarrow> u64 \<Rightarrow> (Utxo list \<times> Utxo list) option" where
  "selectTakeFunding srt fromAddr fundAvail feeAvail ccTo fromSize = (case selectUtxos srt fromAddr fundAvail ccTo fromSize of
       None \<Rightarrow> None
     | Some (funding, _, _) \<Rightarrow> let skip = set (map utxoKey funding)
         in Some (funding, filter (\<lambda>u. utxoKey u \<notin> skip) feeAvail))"

section \<open>Partial orders\<close>

definition maxPartialOrderUtxos :: nat where "maxPartialOrderUtxos = 10"

record partial_req =
  pr_Amount :: u64
  pr_UtxoCount :: u64
  pr_FeePerUtxo :: u64
  pr_PrepTxVouts :: nat
  pr_SplitSize :: u64
  pr_Remainder :: u64

definition exactSplit :: "partial_req \<Rightarrow> u64" where
  "exactSplit q = (pr_SplitSize q + pr_FeePerUtxo q) * pr_UtxoCount q"

definition remainderNeeded :: "partial_req \<Rightarrow> u64" where
  "remainderNeeded q = (if pr_Remainder q > 0 then pr_Remainder q + pr_FeePerUtxo q else 0)"

definition prepFees :: "CoinConf option \<Rightarrow> partial_req \<Rightarrow> nat \<Rightarrow> u64" where
  "prepFees cc q cnt = ceilFeeXB cc (estimateFee cc cnt (pr_PrepTxVouts q))"

definition splitNeeded :: "CoinConf option \<Rightarrow> partial_req \<Rightarrow> nat \<Rightarrow> u64" where
  "splitNeeded cc q cnt = exactSplit q + remainderNeeded q + prepFees cc q cnt"

record partial_sel =
  sl_used :: u64
  sl_fees :: u64
  sl_out :: "Utxo list"
  sl_ideal :: nat

definition use :: "Utxo \<Rightarrow> u64 \<Rightarrow> nat \<Rightarrow> partial_sel \<Rightarrow> partial_sel" where
  "use u fee k s = s\<lparr>sl_used := sl_used s + camount u, sl_fees := sl_fees s + fee, sl_out := sl_out s @ [u], sl_ideal := sl_ideal s + k\<rparr>"

text \<open>The five loops; each returns the selection and the outputs it left.\<close>

fun ideal_loop :: "partial_req \<Rightarrow> Utxo list \<Rightarrow> Utxo list \<Rightarrow> partial_sel \<Rightarrow> partial_sel \<times> Utxo list" where
  "ideal_loop q kept [] s = (s, kept)"
| "ideal_loop q kept (u # us) s = (
     if camount u = pr_SplitSize q + pr_FeePerUtxo q \<and> sint (sl_used s) < sint (exactSplit q)
     then ideal_loop q kept us (use u (pr_FeePerUtxo q) 1 s)
     else if pr_Remainder q > 0 \<and> camount u = pr_Remainder q then ideal_loop q kept us (use u (pr_FeePerUtxo q) 0 s)
     else if sint (pr_Amount q) \<le> sint (sl_used s) then (s, kept @ u # us)
     else ideal_loop q (kept @ [u]) us s)"

definition use_first :: "(Utxo \<Rightarrow> bool) \<Rightarrow> u64 \<Rightarrow> partial_sel \<times> Utxo list \<Rightarrow> partial_sel \<times> Utxo list" where
  "use_first P fee st = (case st of (s, us) \<Rightarrow> (case List.extract P us of
       None \<Rightarrow> (s, us) | Some (pre, u, post) \<Rightarrow> (use u fee 0 s, pre @ post)))"

fun prep_loop :: "CoinConf option \<Rightarrow> partial_req \<Rightarrow> nat \<Rightarrow> Utxo list \<Rightarrow> Utxo list \<Rightarrow> partial_sel \<Rightarrow> partial_sel \<times> Utxo list" where
  "prep_loop cc q cnt kept [] s = (s, kept)"
| "prep_loop cc q cnt kept (u # us) s = (
     if sint (splitNeeded cc q cnt - sl_used s) \<le> 0 then (s, kept @ u # us)
     else if camount u \<ge> pr_SplitSize q + pr_FeePerUtxo q then prep_loop cc q (Suc cnt) kept us (use u 0 0 s)
     else prep_loop cc q cnt (kept @ [u]) us s)"

fun greedy_loop :: "CoinConf option \<Rightarrow> partial_req \<Rightarrow> nat \<Rightarrow> Utxo list \<Rightarrow> partial_sel \<Rightarrow> partial_sel \<times> Utxo list" where
  "greedy_loop cc q cnt [] s = (s, [])"
| "greedy_loop cc q cnt (u # us) s = (
     if sint (splitNeeded cc q cnt - sl_used s) \<le> 0 then (s, u # us)
     else greedy_loop cc q (Suc cnt) us (use u 0 0 s))"

definition camount_asc :: "Utxo \<Rightarrow> Utxo \<Rightarrow> bool" where
  "camount_asc a b \<longleftrightarrow> camount a < camount b"

definition camount_desc :: "Utxo \<Rightarrow> Utxo \<Rightarrow> bool" where
  "camount_desc a b \<longleftrightarrow> camount a > camount b"

definition covered :: "partial_req \<Rightarrow> partial_sel \<Rightarrow> bool" where
  "covered q s \<longleftrightarrow> sint (pr_Amount q + sl_fees s - sl_used s) \<le> 0"

text \<open>The part after the search for exact outputs: top up for the prep transaction, then the last test.\<close>

definition top_up :: "sorter \<Rightarrow> CoinConf option \<Rightarrow> partial_req \<Rightarrow> partial_sel \<times> Utxo list \<Rightarrow> partial_sel" where
  "top_up srt cc q st = (
     let needed = splitNeeded cc q (length (sl_out (fst st)) - sl_ideal (fst st) + 1);
         st = (if sint (sl_used (fst st)) < sint needed
               then use_first (\<lambda>u. sint (camount u + sl_used (fst st)) \<ge> sint needed) 0 st else st)
     in if sint (sl_used (fst st)) < sint needed
        then fst (greedy_loop cc q (length (sl_out (fst st)) - sl_ideal (fst st) + 1) (srt camount_desc (snd st)) (fst st))
        else fst st)"

definition final_check :: "CoinConf option \<Rightarrow> partial_req \<Rightarrow> partial_sel \<Rightarrow> (Utxo list \<times> u64 \<times> u64 \<times> bool) option" where
  "final_check cc q s = (
     let needed = splitNeeded cc q (length (sl_out s) - sl_ideal s);
         fees = of_nat (length (sl_out s)) * pr_FeePerUtxo q
     in if sl_out s = [] \<or> sint (sl_used s - needed) \<le> 0 then None
        else Some (sl_out s, sl_used s, fees, False))"

definition selectPartialUtxos :: "sorter \<Rightarrow> Utxo list \<Rightarrow> CoinConf option \<Rightarrow> partial_req \<Rightarrow> (Utxo list \<times> u64 \<times> u64 \<times> bool) option" where
  "selectPartialUtxos srt outputs cc q = (
     let (s, us) = ideal_loop q [] outputs \<lparr>sl_used = 0, sl_fees = 0, sl_out = [], sl_ideal = 0\<rparr> in
     if (int (length (sl_out s)) = sint (pr_UtxoCount q)
          \<or> pr_Remainder q > 0 \<and> int (length (sl_out s)) = sint (pr_UtxoCount q + 1)) \<and> covered q s
     then Some (sl_out s, sl_used s, sl_fees s, True)
     else let us = srt camount_asc us in
       if int (length (sl_out s)) = sint (pr_UtxoCount q) then
         (let st = use_first (\<lambda>u. camount u = pr_Amount q + sl_fees s + pr_FeePerUtxo q - sl_used s) (pr_FeePerUtxo q) (s, us);
              s = fst st in
          if int (length (sl_out s)) \<ge> sint (pr_UtxoCount q) \<and> covered q s
          then Some (sl_out s, sl_used s, sl_fees s, True)
          else final_check cc q (top_up srt cc q st))
       else final_check cc q (top_up srt cc q (prep_loop cc q (length (sl_out s) - sl_ideal s + 1) [] us s)))"

section \<open>The id of an order\<close>

definition order_preimage :: "bytes \<Rightarrow> string \<Rightarrow> u64 \<Rightarrow> bytes \<Rightarrow> string \<Rightarrow> u64 \<Rightarrow> u64 \<Rightarrow> bytes \<Rightarrow> bytes \<Rightarrow> bytes" where
  "order_preimage from fromCur fromAmt to toCur toAmt ts blockHash sig =
     marshalVarStr (bytes_str from) @ marshalVarStr fromCur @ PutUint64 fromAmt @ marshalVarStr (bytes_str to)
       @ marshalVarStr toCur @ PutUint64 toAmt @ PutUint64 ts @ blockHash @ marshalVarStr (bytes_str sig)"

definition sha256dOrderID :: "bytes \<Rightarrow> string \<Rightarrow> u64 \<Rightarrow> bytes \<Rightarrow> string \<Rightarrow> u64 \<Rightarrow> u64 \<Rightarrow> bytes \<Rightarrow> bytes \<Rightarrow> bytes" where
  "sha256dOrderID from fromCur fromAmt to toCur toAmt ts blockHash sig =
     sha256 (sha256 (order_preimage from fromCur fromAmt to toCur toAmt ts blockHash sig))"

section \<open>Lemmas\<close>

subsection \<open>Sorting\<close>

lemma mset_slice_insert [simp]: "mset (slice_insert before x ys) = add_mset x (mset ys)"
  by (induction ys) auto

lemma set_slice_insert [simp]: "set (slice_insert before x ys) = insert x (set ys)"
  by (induction ys) auto

lemma slice_insert_sorted:
  assumes weak: "strict_weak before" and "sorted_wrt (\<lambda>a b. \<not> before b a) ys"
  shows "sorted_wrt (\<lambda>a b. \<not> before b a) (slice_insert before x ys)"
  using assms(2)
proof (induction ys)
  case (Cons y ys)
  have asym: "\<not> before b a" if "before a b" for a b
    using weak that unfolding strict_weak_def by blast
  have trans: "\<not> before a c" if "\<not> before a b" "\<not> before b c" for a b c
    using weak that unfolding strict_weak_def by blast
  show ?case
  proof (cases "before x y")
    case True
    have "\<not> before z x" if "z \<in> set ys" for z
      using trans [of z y x] asym [OF True] that Cons.prems by simp
    thus ?thesis
      using True asym [OF True] Cons.prems by simp
  next
    case False
    thus ?thesis
      using Cons by simp
  qed
qed simp

lemma mset_insert_fold: "mset (fold (slice_insert before) xs acc) = mset xs + mset acc"
  by (induction xs arbitrary: acc) simp_all

lemma sorted_insert_fold:
  "strict_weak before \<Longrightarrow> sorted_wrt (\<lambda>a b. \<not> before b a) acc \<Longrightarrow> sorted_wrt (\<lambda>a b. \<not> before b a) (fold (slice_insert before) xs acc)"
  by (induction xs arbitrary: acc) (simp_all add: slice_insert_sorted)

interpretation go_sort: slice_sort insertionSort
  by unfold_locales (simp_all add: insertionSort_def mset_insert_fold sorted_insert_fold)

subsection \<open>Picking\<close>

lemma pick_scan_eq:
  "pick_scan ideal m us gt lt = (case find ideal us of Some u \<Rightarrow> Inl u
     | None \<Rightarrow> Inr (gt @ filter (\<lambda>u. m \<le> ut_Value u) us, lt @ filter (\<lambda>u. ut_Value u < m) us))"
  by (induction us arbitrary: gt lt) (auto split: option.splits)

lemma pick_prefix_none: "pick_prefix enough sel us = [] \<longleftrightarrow> (\<forall>k \<in> {1..length us}. \<not> enough (sel @ take k us))"
proof (induction us arbitrary: sel)
  case (Cons u us)
  have "(\<forall>k \<in> {1..length (u # us)}. P k) \<longleftrightarrow> P 1 \<and> (\<forall>k \<in> {1..length us}. P (Suc k))" for P
  proof
    assume split: "P 1 \<and> (\<forall>k \<in> {1..length us}. P (Suc k))"
    show "\<forall>k \<in> {1..length (u # us)}. P k"
    proof
      fix k assume "k \<in> {1..length (u # us)}"
      thus "P k"
        using split by (cases k; cases "k = 1") auto
    qed
  qed auto
  thus ?case
    using Cons.IH [of "sel @ [u]"] by (simp add: Let_def)
qed simp

lemma pick_prefix_some:
  "pick_prefix enough sel us \<noteq> [] \<Longrightarrow> \<exists>k. pick_prefix enough sel us = sel @ take k us \<and> enough (sel @ take k us)"
proof (induction us arbitrary: sel)
  case (Cons u us)
  show ?case
  proof (cases "enough (sel @ [u])")
    case True
    thus ?thesis
      by (intro exI [of _ 1]) simp
  next
    case False
    then obtain k where "pick_prefix enough (sel @ [u]) us = (sel @ [u]) @ take k us \<and> enough ((sel @ [u]) @ take k us)"
      using Cons by fastforce
    thus ?thesis
      using False by (intro exI [of _ "Suc k"]) simp
  qed
qed simp

lemma mset_take_sub: "mset (take k xs) \<subseteq># mset xs"
  by (metis append_take_drop_id mset_append mset_subset_eq_add_left)

lemma single_sub: "u \<in> set xs \<Longrightarrow> mset [u] \<subseteq># mset xs"
  by simp

context slice_sort
begin

lemma set_srt [simp]: "set (srt before xs) = set xs"
  using perm [of before xs] by (metis set_mset_mset)

lemma length_srt [simp]: "length (srt before xs) = length xs"
  using perm [of before xs] by (metis size_mset)

lemma pick_sound:
  assumes "\<And>u. ideal u \<Longrightarrow> m \<le> ut_Value u" and "pick srt ideal m enough us \<noteq> []"
  shows "mset (pick srt ideal m enough us) \<subseteq># mset us"
    and "(\<exists>u. pick srt ideal m enough us = [u] \<and> m \<le> ut_Value u) \<or> enough (pick srt ideal m enough us)"
proof -
  define gt lt where "gt = filter (\<lambda>u. m \<le> ut_Value u) us" and "lt = filter (\<lambda>u. ut_Value u < m) us"
  have "mset (pick srt ideal m enough us) \<subseteq># mset us
      \<and> ((\<exists>u. pick srt ideal m enough us = [u] \<and> m \<le> ut_Value u) \<or> enough (pick srt ideal m enough us))"
  proof (cases "find ideal us")
    case (Some u)
    hence "ideal u" "u \<in> set us"
      by (auto simp: find_Some_iff)
    thus ?thesis
      using Some assms(1) by (auto simp: pick_def pick_scan_eq)
  next
    case None
    have one: "take 1 ys = [hd ys]" "hd ys \<in> set us" "m \<le> ut_Value (hd ys)" if "ys \<noteq> []" "set ys \<subseteq> set gt" for ys
      using that by (cases ys; auto simp: gt_def)+
    show ?thesis
    proof (cases "gt = []")
      case False
      hence "pick srt ideal m enough us = take 1 (if length gt = 1 then gt else srt value_asc gt)"
        using None by (cases gt) (auto simp: pick_def pick_scan_eq gt_def [symmetric])
      moreover have "(if length gt = 1 then gt else srt value_asc gt) \<noteq> []"
        using False length_srt [of value_asc gt] by (metis length_0_conv)
      ultimately show ?thesis
        using one [of "if length gt = 1 then gt else srt value_asc gt"] by auto
    next
      case True
      hence p: "pick srt ideal m enough us = pick_prefix enough [] (srt value_desc lt)"
        using None assms(2) by (auto simp: pick_def pick_scan_eq gt_def [symmetric] lt_def [symmetric] split: if_splits)
      then obtain k where "pick srt ideal m enough us = take k (srt value_desc lt)" "enough (take k (srt value_desc lt))"
        using pick_prefix_some [of enough "[]"] assms(2) by fastforce
      moreover have "mset (take k (srt value_desc lt)) \<subseteq># mset us"
        using mset_take_sub [of k "srt value_desc lt"] perm [of value_desc lt] multiset_filter_subset [of "\<lambda>u. ut_Value u < m" "mset us"]
        by (auto simp: lt_def intro: subset_mset.order_trans)
      ultimately show ?thesis
        by simp
    qed
  qed
  thus "mset (pick srt ideal m enough us) \<subseteq># mset us"
    "(\<exists>u. pick srt ideal m enough us = [u] \<and> m \<le> ut_Value u) \<or> enough (pick srt ideal m enough us)"
    by blast+
qed

lemma pick_fails:
  assumes "\<And>u. ideal u \<Longrightarrow> m \<le> ut_Value u" and "pick srt ideal m enough us = []"
  shows "(\<forall>u \<in> set us. ut_Value u < m) \<and> (length us < 2 \<or> (\<forall>k \<in> {1..length us}. \<not> enough (take k (srt value_desc us))))"
proof -
  define gt lt where "gt = filter (\<lambda>u. m \<le> ut_Value u) us" and "lt = filter (\<lambda>u. ut_Value u < m) us"
  have none: "find ideal us = None"
    using assms(2) by (auto simp: pick_def pick_scan_eq split: option.splits)
  have "gt = []"
  proof (rule ccontr)
    assume "gt \<noteq> []"
    hence "srt value_asc gt \<noteq> []"
      using length_srt [of value_asc gt] by (metis length_0_conv)
    moreover have "length gt = 1 \<or> 1 < length gt"
      using \<open>gt \<noteq> []\<close> by (cases gt; cases "tl gt") simp_all
    ultimately show False
      using assms(2) none by (auto simp: pick_def pick_scan_eq gt_def [symmetric] split: if_splits)
  qed
  hence small: "\<forall>u \<in> set us. ut_Value u < m"
    by (auto simp: gt_def filter_empty_conv)
  hence "lt = us"
    by (simp add: lt_def)
  thus ?thesis
    using small assms(2) none \<open>gt = []\<close> pick_prefix_none [of enough "[]" "srt value_desc us"]
    by (auto simp: pick_def pick_scan_eq gt_def [symmetric] lt_def [symmetric] split: if_splits)
qed

end

subsection \<open>Partial orders\<close>

text \<open>
  What every loop keeps: the selection and the outputs left are the outputs given, the total is that
  of the selection, and the outputs counted as ideal, which the prep transaction does not resend,
  are outputs of the selection that have the split size and its fee.
\<close>

definition ideal_among :: "partial_req \<Rightarrow> nat \<Rightarrow> Utxo list \<Rightarrow> bool" where
  "ideal_among q k sel \<longleftrightarrow> (\<exists>ids others. mset sel = mset ids + mset others \<and> length ids = k
     \<and> (\<forall>u \<in> set ids. camount u = pr_SplitSize q + pr_FeePerUtxo q))"

definition sel_inv :: "partial_req \<Rightarrow> Utxo list \<Rightarrow> partial_sel \<times> Utxo list \<Rightarrow> bool" where
  "sel_inv q outs st \<longleftrightarrow> mset (sl_out (fst st)) + mset (snd st) = mset outs
     \<and> sl_used (fst st) = sum_list (map camount (sl_out (fst st))) \<and> ideal_among q (sl_ideal (fst st)) (sl_out (fst st))"

definition fee_inv :: "partial_req \<Rightarrow> partial_sel \<Rightarrow> bool" where
  "fee_inv q s \<longleftrightarrow> sl_fees s = of_nat (length (sl_out s)) * pr_FeePerUtxo q"

lemma ideal_among_add:
  assumes "ideal_among q k sel"
  shows "ideal_among q k (sel @ [u])" and "camount u = pr_SplitSize q + pr_FeePerUtxo q \<Longrightarrow> ideal_among q (Suc k) (sel @ [u])"
proof -
  obtain ids others where ids: "mset sel = mset ids + mset others" "length ids = k" "\<forall>u \<in> set ids. camount u = pr_SplitSize q + pr_FeePerUtxo q"
    using assms by (auto simp: ideal_among_def)
  show "ideal_among q k (sel @ [u])"
    unfolding ideal_among_def using ids by (intro exI [of _ ids] exI [of _ "u # others"]) simp
  show "ideal_among q (Suc k) (sel @ [u])" if "camount u = pr_SplitSize q + pr_FeePerUtxo q"
    unfolding ideal_among_def using ids that by (intro exI [of _ "u # ids"] exI [of _ others]) simp
qed

lemma use_inv:
  "sel_inv q outs (s, pre @ u # post) \<Longrightarrow> sel_inv q outs (use u fee 0 s, pre @ post)"
  "sel_inv q outs (s, pre @ u # post) \<Longrightarrow> camount u = pr_SplitSize q + pr_FeePerUtxo q \<Longrightarrow> sel_inv q outs (use u fee 1 s, pre @ post)"
  by (simp_all add: sel_inv_def use_def union_assoc ideal_among_add)

lemma fee_use: "fee_inv q s \<Longrightarrow> fee_inv q (use u (pr_FeePerUtxo q) k s)"
  by (simp add: fee_inv_def use_def algebra_simps)

lemma ideal_loop_inv:
  "sel_inv q outs (s, kept @ us) \<Longrightarrow> fee_inv q s \<Longrightarrow> sel_inv q outs (ideal_loop q kept us s) \<and> fee_inv q (fst (ideal_loop q kept us s))"
proof (induction us arbitrary: kept s)
  case (Cons u us)
  have "sel_inv q outs (s, (kept @ [u]) @ us)"
    using Cons.prems(1) by simp
  thus ?case
    using Cons use_inv [OF Cons.prems(1)] fee_use [OF Cons.prems(2)] by simp
qed simp

lemma use_first_inv: "sel_inv q outs st \<Longrightarrow> sel_inv q outs (use_first P fee st)"
  by (cases st) (auto simp: use_first_def extract_Some_iff intro: use_inv split: option.splits)

lemma use_first_fee: "fee_inv q (fst st) \<Longrightarrow> fee_inv q (fst (use_first P (pr_FeePerUtxo q) st))"
  by (cases st) (auto simp: use_first_def fee_use split: option.splits)

lemma prep_loop_inv: "sel_inv q outs (s, kept @ us) \<Longrightarrow> sel_inv q outs (prep_loop cc q cnt kept us s)"
proof (induction us arbitrary: cnt kept s)
  case (Cons u us)
  have "sel_inv q outs (s, (kept @ [u]) @ us)"
    using Cons.prems by simp
  thus ?case
    using Cons use_inv [OF Cons.prems] by simp
qed simp

lemma greedy_loop_inv: "sel_inv q outs (s, us) \<Longrightarrow> sel_inv q outs (greedy_loop cc q cnt us s)"
proof (induction us arbitrary: cnt s)
  case (Cons u us)
  thus ?case
    using use_inv(1) [of q outs s "[]" u us] by simp
qed simp

context slice_sort
begin

lemma srt_inv: "sel_inv q outs (s, us) \<Longrightarrow> sel_inv q outs (s, srt before us)"
  by (simp add: sel_inv_def perm)

lemma top_up_inv:
  assumes "sel_inv q outs st"
  shows "\<exists>rest. sel_inv q outs (top_up srt cc q st, rest)"
proof -
  have greedy: "\<exists>rest. sel_inv q outs (fst (greedy_loop cc q cnt (srt camount_desc (snd t)) (fst t)), rest)" if "sel_inv q outs t" for t cnt
    using greedy_loop_inv [OF srt_inv [of q outs "fst t" "snd t" camount_desc]] that by (metis prod.collapse)
  have keep: "\<exists>rest. sel_inv q outs (fst t, rest)" if "sel_inv q outs t" for t
    using that by (metis prod.collapse)
  show ?thesis
    unfolding top_up_def Let_def using greedy keep use_first_inv [OF assms] assms by (simp split: if_splits)
qed

end

definition partial_ok :: "Utxo list \<Rightarrow> CoinConf option \<Rightarrow> partial_req \<Rightarrow> (Utxo list \<times> u64 \<times> u64 \<times> bool) option \<Rightarrow> bool" where
  "partial_ok outs cc q r = (case r of None \<Rightarrow> True | Some (sel, amt, fees, exact) \<Rightarrow>
     mset sel \<subseteq># mset outs \<and> amt = sum_list (map camount sel) \<and> fees = of_nat (length sel) * pr_FeePerUtxo q
     \<and> (if exact then sint (pr_Amount q + fees - amt) \<le> 0
        else sel \<noteq> [] \<and> (\<exists>ids others. mset sel = mset ids + mset others
          \<and> (\<forall>u \<in> set ids. camount u = pr_SplitSize q + pr_FeePerUtxo q) \<and> 0 < sint (amt - splitNeeded cc q (length others)))))"

lemma final_check_ok:
  assumes "sel_inv q outs (s, rest)"
  shows "partial_ok outs cc q (final_check cc q s)"
proof -
  obtain ids others where ids: "mset (sl_out s) = mset ids + mset others" "length ids = sl_ideal s"
    "\<forall>u \<in> set ids. camount u = pr_SplitSize q + pr_FeePerUtxo q"
    using assms by (auto simp: sel_inv_def ideal_among_def)
  have "length (sl_out s) = length ids + length others"
    using arg_cong [OF ids(1), of size] by simp
  hence resent: "length (sl_out s) - sl_ideal s = length others"
    using ids(2) by simp
  have "\<exists>ids others. mset (sl_out s) = mset ids + mset others \<and> (\<forall>u \<in> set ids. camount u = pr_SplitSize q + pr_FeePerUtxo q)
      \<and> 0 < sint (sl_used s - splitNeeded cc q (length others))" if "0 < sint (sl_used s - splitNeeded cc q (length (sl_out s) - sl_ideal s))"
    using ids(1,3) that unfolding resent by blast
  moreover have "mset (sl_out s) \<subseteq># mset outs" "sl_used s = sum_list (map camount (sl_out s))"
    using assms by (simp_all add: sel_inv_def) (metis mset_subset_eq_add_left)
  ultimately show ?thesis
    by (simp add: partial_ok_def final_check_def Let_def)
qed

lemma exact_ok:
  "sel_inv q outs (s, rest) \<Longrightarrow> fee_inv q s \<Longrightarrow> covered q s \<Longrightarrow> partial_ok outs cc q (Some (sl_out s, sl_used s, sl_fees s, True))"
  by (auto simp: partial_ok_def sel_inv_def fee_inv_def covered_def) (metis mset_subset_eq_add_left)

subsection \<open>Keys and ids\<close>

lemma last_colon:
  assumes "a @ z # x = b @ z # y" and "z \<notin> set x" and "z \<notin> set y"
  shows "a = b \<and> x = y"
proof -
  have "takeWhile (\<lambda>c. c \<noteq> z) (rev (a @ z # x)) = rev x" "takeWhile (\<lambda>c. c \<noteq> z) (rev (b @ z # y)) = rev y"
    using assms(2,3) by (auto simp: takeWhile_tail)
  hence "x = y"
    using assms(1) by simp
  thus ?thesis
    using assms(1) by simp
qed

lemma colon_no_digit: "CHR '':'' \<notin> set (nat_str n)"
proof
  assume "CHR '':'' \<in> set (nat_str n)"
  hence "is_digit (CHR '':'')"
    using nat_str_digits [of n] unfolding list_all_iff by blast
  thus False
    by (simp add: is_digit_def)
qed

lemma utxoKey_eq: "utxoKey u = utxoKey v \<longleftrightarrow> ut_TxID u = ut_TxID v \<and> ut_Vout u = ut_Vout v"
proof
  assume "utxoKey u = utxoKey v"
  hence "ut_TxID u @ CHR '':'' # nat_str (unat (ut_Vout u)) = ut_TxID v @ CHR '':'' # nat_str (unat (ut_Vout v))"
    by (simp add: utxoKey_def)
  from last_colon [OF this colon_no_digit colon_no_digit]
  have txid: "ut_TxID u = ut_TxID v" and "nat_str (unat (ut_Vout u)) = nat_str (unat (ut_Vout v))"
    by simp_all
  from arg_cong [OF this(2), of digits_val] have "unat (ut_Vout u) = unat (ut_Vout v)"
    by simp
  thus "ut_TxID u = ut_TxID v \<and> ut_Vout u = ut_Vout v"
    using txid by (simp add: word_unat_eq_iff)
qed (simp add: utxoKey_def)

lemma marshalVarStr_inj:
  assumes "marshalVarStr s @ r = marshalVarStr t @ r'" and "length s \<le> maxCompactSize" and "length t \<le> maxCompactSize"
  shows "s = t \<and> r = r'"
proof -
  have "readVarInt (writeVarInt (length s) @ str_bytes s @ r) 0 = readVarInt (writeVarInt (length t) @ str_bytes t @ r') 0"
    using assms(1) by (simp add: marshalVarStr_def)
  hence n: "length s = length t"
    using assms(2,3) by (simp add: readVarInt_writeVarInt)
  hence "str_bytes s @ r = str_bytes t @ r'"
    using assms(1) by (simp add: marshalVarStr_def)
  hence "str_bytes s = str_bytes t" "r = r'"
    using n by (simp_all add: str_bytes_def)
  thus ?thesis
    by (metis bytes_str_of_bytes)
qed

lemma PutUint64_inj: "PutUint64 a @ r = PutUint64 b @ r' \<Longrightarrow> a = b \<and> r = r'"
proof -
  assume eq: "PutUint64 a @ r = PutUint64 b @ r'"
  have "length (PutUint64 a) = length (PutUint64 b)"
    by (simp add: PutUint64_def)
  hence "PutUint64 a = PutUint64 b" "r = r'"
    using eq by simp_all
  moreover have "le_nat (PutUint64 v) = unat v" for v
    using unat_less_2p [of v] by (simp add: PutUint64_def le_nat_le_bytes)
  ultimately show ?thesis
    by (metis word_unat_eq_iff)
qed

lemma bytes_str_inj: "bytes_str a = bytes_str b \<Longrightarrow> a = b"
  by (metis str_bytes_of_str)

subsection \<open>Rounding\<close>

lemma fl_within: "0 \<le> x \<Longrightarrow> x * (1 - 1 / 2 ^ 53) \<le> fl x \<and> fl x \<le> x * (1 + 1 / 2 ^ 53)"
  using fl_error [of x] unfolding abs_le_iff by (simp add: field_simps)

text \<open>The rounding of a given number, from its exponent and its significand.\<close>

lemma fl_eqI:
  assumes "2 ^ 52 * pow2 e \<le> x" and "x < 2 ^ 53 * pow2 e" and "\<bar>x / pow2 e - of_int k\<bar> < 1 / 2"
  shows "fl x = of_int k * pow2 e"
proof -
  have pow: "pow2 (a + 52) = 2 ^ 52 * pow2 a" "pow2 (a + 53) = 2 ^ 53 * pow2 a" for a
    using pow2_nat [of 52] pow2_nat [of 53] by (simp_all add: pow2_add)
  have x: "0 < x"
    using less_le_trans [OF _ assms(1)] by simp
  have "ulp_exp x = e"
  proof (rule antisym; rule ccontr)
    assume "\<not> ulp_exp x \<le> e"
    hence "pow2 (e + 53) \<le> pow2 (ulp_exp x + 52)"
      by (intro pow2_mono) simp
    thus False
      using ulp_exp_bounds(1) [OF x] assms(2) pow(2) [of e] by simp
  next
    assume "\<not> e \<le> ulp_exp x"
    hence "pow2 (ulp_exp x + 53) \<le> pow2 (e + 52)"
      by (intro pow2_mono) simp
    thus False
      using ulp_exp_bounds(2) [OF x] assms(1) pow(1) [of e] by simp
  qed
  moreover have "round_even (x / pow2 e) = k"
  proof -
    have "\<bar>of_int (round_even (x / pow2 e)) - of_int k :: rat\<bar> < 1"
      using round_even_error [of "x / pow2 e"] assms(3) by linarith
    thus ?thesis
      by linarith
  qed
  ultimately show ?thesis
    using x by (simp add: fl_def)
qed

lemma camount_round:
  assumes "n \<le> 30000000" and "ut_Value u = fl (of_nat n / 1000000)"
  shows "camount u = of_nat n"
proof -
  define N where "N = (of_nat n :: rat)"
  define x where "x = fl (N / 1000000) * 1000000"
  define w where "w = fl x"
  define c where "c = fl (1 / 100000000)"
  define z where "z = fl (w + c)"
  have N: "0 \<le> N" "N \<le> 30000000"
    using assms(1) of_nat_mono [of n 30000000, where 'a = rat] by (simp_all add: N_def)
  have x: "N * (1 - 1 / 2 ^ 53) \<le> x" "x \<le> N * (1 + 1 / 2 ^ 53)"
    using fl_within [of "N / 1000000"] N by (simp_all add: x_def)
  have x0: "0 \<le> x"
    using order_trans [OF _ x(1)] N by simp
  have w: "x * (1 - 1 / 2 ^ 53) \<le> w" "w \<le> x * (1 + 1 / 2 ^ 53)"
    using fl_within [OF x0] by (simp_all add: w_def)
  have c: "1 / 100000000 * (1 - 1 / 2 ^ 53) \<le> c" "c \<le> 1 / 100000000 * (1 + 1 / 2 ^ 53)"
    using fl_within [of "1 / 100000000"] by (simp_all add: c_def)
  have "0 \<le> w" "0 \<le> c"
    using fl_nonneg x0 by (simp_all add: w_def c_def)
  hence z: "(w + c) * (1 - 1 / 2 ^ 53) \<le> z" "z \<le> (w + c) * (1 + 1 / 2 ^ 53)"
    using fl_within [of "w + c"] by (simp_all add: z_def)
  have "N \<le> z" "z < N + 1"
    using N x w c z by (simp_all add: field_simps)
  hence "\<lfloor>z\<rfloor> = int n"
    by (simp add: N_def floor_eq_iff)
  moreover have "camount u = u64_of_float z"
    by (simp add: camount_def xBridgeIntFromReal_def scale_def coinScale_def assms(2) z_def w_def c_def x_def N_def)
  ultimately show ?thesis
    by (simp add: u64_of_float_def)
qed

lemma lossy: "fl (fl (fl (26609653 / 100000) * scale) + fl (1 / 100000000)) = 8928717921320959 / 2 ^ 25"
proof -
  have a: "fl (26609653 / 100000) = 4681219661533523 / 2 ^ 44"
    using fl_eqI [of "-44" "26609653 / 100000" 4681219661533523] by (simp add: pow2_def)
  have b: "fl (4681219661533523 / 2 ^ 44 * 1000000) = 8928717921320959 / 2 ^ 25"
    using fl_eqI [of "-25" "4681219661533523 / 2 ^ 44 * 1000000" 8928717921320959] by (simp add: pow2_def)
  have c: "fl (1 / 100000000) = 6044629098073146 / 2 ^ 79"
    using fl_eqI [of "-79" "1 / 100000000" 6044629098073146] by (simp add: pow2_def)
  have d: "fl (8928717921320959 / 2 ^ 25 + 6044629098073146 / 2 ^ 79) = 8928717921320959 / 2 ^ 25"
    using fl_eqI [of "-25" "8928717921320959 / 2 ^ 25 + 6044629098073146 / 2 ^ 79" 8928717921320959] by (simp add: pow2_def)
  have scale: "scale = 1000000"
    by (simp add: scale_def coinScale_def)
  show ?thesis
    unfolding scale a b c d ..
qed

lemma selectUtxos_cases:
  assumes "slice_sort srt" and "m = feeAmount cc (fl (float_of_u64 required / scale)) 1 3"
  shows "case selectUtxos srt addr outputs cc required of
      Some (sel, _, _) \<Rightarrow> sel \<noteq> [] \<and> mset sel \<subseteq># mset outputs
        \<and> ((\<exists>u. sel = [u] \<and> m \<le> ut_Value u) \<or> sel_enough cc m sel)
    | None \<Rightarrow> (\<forall>u \<in> set outputs. ut_Value u < m)
        \<and> (length outputs < 2 \<or> (\<forall>k \<in> {1..length outputs}. \<not> sel_enough cc m (take k (srt value_desc (srt value_desc outputs)))))"
proof -
  let ?sel = "pick srt (sel_ideal addr cc m) m (sel_enough cc m) (srt value_desc outputs)"
  have sel: "selUtxos srt addr cc (srt value_desc outputs) (fl (float_of_u64 required / scale)) = ?sel"
    by (simp add: selUtxos_def assms(2) Let_def)
  have ideal: "m \<le> ut_Value u" if "sel_ideal addr cc m u" for u
    using that by (simp add: sel_ideal_def)
  note facts = slice_sort.perm [OF assms(1)] slice_sort.set_srt [OF assms(1)] slice_sort.length_srt [OF assms(1)]
  show ?thesis
  proof (cases "?sel = []")
    case True
    thus ?thesis
      using slice_sort.pick_fails [OF assms(1) ideal True] by (simp add: selectUtxos_def sel Let_def facts)
  next
    case False
    thus ?thesis
      using slice_sort.pick_sound [OF assms(1) ideal False] by (simp add: selectUtxos_def sel Let_def facts)
  qed
qed

lemma one_coin_only:
  assumes "sel \<noteq> []" and "mset sel \<subseteq># {#one_coin#}"
  shows "sel = [one_coin]"
proof -
  have "mset sel = {#one_coin#}"
    using assms by (metis mset_zero_iff subset_mset.le_zero_eq nonempty_subseteq_mset_eq_single)
  thus ?thesis
    by simp
qed

lemma half_coin_min: "feeAmount None (fl (float_of_u64 500000 / scale)) 1 3 < 1"
proof -
  have fee: "fl (float_of_u64 v / scale) \<le> 1 / 100" "0 \<le> fl (float_of_u64 v / scale)" if "val v \<le> 600" for v
    using that fl_within [of "val v"] fl_within [of "float_of_u64 v / 1000000"] fl_nonneg [of "val v"] fl_nonneg [of "float_of_u64 v / 1000000"]
    by (simp_all add: float_of_u64_def scale_def coinScale_def)
  have "val (estimateFee None 1 3) \<le> 600" "val (estimateFee None 1 1) \<le> 600"
    by (simp_all add: estimateFee_def Let_def val_def)
  note fees = this [THEN fee(1)] this [THEN fee(2)]
  have half: "fl (float_of_u64 500000 / scale) = 1 / 2"
  proof -
    have "float_of_u64 500000 = 500000"
      using fl_nat_exact [of 500000] by (simp add: float_of_u64_def val_def)
    thus ?thesis
      using fl_eqI [of "-53" "1 / 2" "2 ^ 52"] by (simp add: scale_def coinScale_def pow2_def)
  qed
  show ?thesis
    using fees fl_within [of "1 / 2 + minTxFeeWhole None 1 3"] fl_within [of "fl (1 / 2 + minTxFeeWhole None 1 3) + minTxFeeWhole None 1 1"]
      fl_nonneg [of "1 / 2 + minTxFeeWhole None 1 3"]
    by (simp add: feeAmount_def half minTxFeeWhole_def)
qed

lemma one_coin_selected: "\<exists>amt fee. selectUtxos insertionSort [] [one_coin] None 500000 = Some ([one_coin], amt, fee)"
  using selectUtxos_cases [OF go_sort.slice_sort_axioms refl, where addr = "[]" and outputs = "[one_coin]" and cc = None and required = 500000]
    half_coin_min one_coin_only
  by (auto simp: one_coin_def [THEN arg_cong, of ut_Value] split: option.splits)

lemma one_coin_camount: "camount one_coin = 1000000"
  using camount_round [of 1000000 one_coin] fl_nat_exact [of 1] by (simp add: one_coin_def)

section \<open>Properties\<close>

text \<open>
  C29: the outputs chosen for an exact order are distinct entries of the wallet's list. They are one
  output of at least the amount with the fees of the prep and the deposit transaction, or several
  whose running total less their fees reaches it; and nothing is chosen only when no single output
  is large enough and no number of the largest ones is. This holds for every sorting routine.
\<close>

theorem selectUtxos_complete:
  assumes "slice_sort srt" and "m = feeAmount cc (fl (float_of_u64 required / scale)) 1 3"
  shows "case selectUtxos srt addr outputs cc required of
      Some (sel, _, _) \<Rightarrow> sel \<noteq> [] \<and> mset sel \<subseteq># mset outputs
        \<and> ((\<exists>u. sel = [u] \<and> m \<le> ut_Value u) \<or> sel_enough cc m sel)
    | None \<Rightarrow> (\<forall>u \<in> set outputs. ut_Value u < m)
        \<and> (length outputs < 2 \<or> (\<forall>k \<in> {1..length outputs}. \<not> sel_enough cc m (take k (srt value_desc (srt value_desc outputs)))))"
  using assms by (rule selectUtxos_cases)

theorem selectUtxos_complete_witness:
  "case selectUtxos insertionSort [] [one_coin] None 500000 of Some (sel, _, _) \<Rightarrow> sel = [one_coin] | None \<Rightarrow> ut_Value one_coin < 1"
  using selectUtxos_complete [OF go_sort.slice_sort_axioms refl, where addr = "[]" and outputs = "[one_coin]" and cc = None and required = 500000]
    half_coin_min one_coin_only
  by (auto simp: one_coin_def [THEN arg_cong, of ut_Value] split: option.splits)

text \<open>
  The inputs left for the service-node fee are exactly those of the fee wallet that the funding
  of the take does not use, by transaction and output number.
\<close>

theorem take_funding_disjoint:
  assumes "selectTakeFunding srt fromAddr fundAvail feeAvail ccTo fromSize = Some (funding, feeRest)"
  shows "feeRest = filter (\<lambda>u. (ut_TxID u, ut_Vout u) \<notin> set (map (\<lambda>f. (ut_TxID f, ut_Vout f)) funding)) feeAvail"
proof -
  have "utxoKey u \<in> utxoKey ` set funding \<longleftrightarrow> (ut_TxID u, ut_Vout u) \<in> (\<lambda>f. (ut_TxID f, ut_Vout f)) ` set funding" for u
    by (auto simp: image_iff utxoKey_eq)
  thus ?thesis
    using assms by (auto simp: selectTakeFunding_def Let_def split: option.splits)
qed

theorem take_funding_disjoint_witness:
  "\<exists>rest. selectTakeFunding insertionSort [] [one_coin] [one_coin\<lparr>ut_Vout := 2\<rparr>, one_coin] None 500000 = Some ([one_coin], rest)
     \<and> rest = [one_coin\<lparr>ut_Vout := 2\<rparr>]"
proof -
  obtain rest where r: "selectTakeFunding insertionSort [] [one_coin] [one_coin\<lparr>ut_Vout := 2\<rparr>, one_coin] None 500000 = Some ([one_coin], rest)"
    using one_coin_selected by (auto simp: selectTakeFunding_def Let_def)
  show ?thesis
    using take_funding_disjoint [OF r] r by (simp add: one_coin_def)
qed

text \<open>
  C30: the outputs chosen for a partial order are distinct entries of the wallet's list, the amount
  reported is their total and the fees are one share per output. An exact match covers the order and
  these fees; any other choice exceeds the splits, the remainder and the fees of a prep transaction
  that resends every chosen output but those that already have the split size and its fee. Differences
  are read as signed 64-bit numbers. This holds for every sorting routine.
\<close>

theorem partial_selection_covers:
  assumes "slice_sort srt"
  shows "case selectPartialUtxos srt outs cc q of None \<Rightarrow> True | Some (sel, amt, fees, exact) \<Rightarrow>
     mset sel \<subseteq># mset outs \<and> amt = sum_list (map camount sel) \<and> fees = of_nat (length sel) * pr_FeePerUtxo q
     \<and> (if exact then sint (pr_Amount q + fees - amt) \<le> 0
        else sel \<noteq> [] \<and> (\<exists>ids others. mset sel = mset ids + mset others
          \<and> (\<forall>u \<in> set ids. camount u = pr_SplitSize q + pr_FeePerUtxo q) \<and> 0 < sint (amt - splitNeeded cc q (length others))))"
proof -
  let ?start = "\<lparr>sl_used = 0, sl_fees = 0, sl_out = [], sl_ideal = 0\<rparr>"
  obtain s us where st: "ideal_loop q [] outs ?start = (s, us)"
    by fastforce
  have inv: "sel_inv q outs (s, us)" "fee_inv q s"
    using ideal_loop_inv [of q outs ?start "[]" outs] by (simp_all add: st sel_inv_def fee_inv_def ideal_among_def)
  have inv': "sel_inv q outs (s, srt camount_asc us)"
    by (rule slice_sort.srt_inv [OF assms inv(1)])
  have rest: "partial_ok outs cc q (final_check cc q (top_up srt cc q t))" if "sel_inv q outs t" for t
    using slice_sort.top_up_inv [OF assms that] final_check_ok by blast
  define t where "t = use_first (\<lambda>u. camount u = pr_Amount q + sl_fees s + pr_FeePerUtxo q - sl_used s) (pr_FeePerUtxo q) (s, srt camount_asc us)"
  have t: "sel_inv q outs t" "fee_inv q (fst t)"
    unfolding t_def by (rule use_first_inv [OF inv']) (rule use_first_fee, simp add: inv(2))
  have exact: "partial_ok outs cc q (Some (sl_out (fst t), sl_used (fst t), sl_fees (fst t), True))" if "covered q (fst t)"
    using exact_ok [OF _ t(2) that, of outs "snd t"] t(1) by simp
  have "partial_ok outs cc q (selectPartialUtxos srt outs cc q)"
    unfolding selectPartialUtxos_def st case_prod_conv Let_def t_def [symmetric]
    using exact_ok [OF inv] exact rest [OF t(1)] rest [OF prep_loop_inv [of q outs s "[]"]] inv' by (simp split: if_splits)
  thus ?thesis
    by (simp add: partial_ok_def)
qed

theorem partial_selection_covers_witness:
  "\<exists>sel amt fees amt2 fees2. selectPartialUtxos insertionSort [one_coin] None \<lparr>pr_Amount = 999000, pr_UtxoCount = 1, pr_FeePerUtxo = 1000,
       pr_PrepTxVouts = 2, pr_SplitSize = 999000, pr_Remainder = 0\<rparr> = Some (sel, amt, fees, True)
     \<and> sint (999000 + fees - amt) \<le> 0 \<and> amt = sum_list (map camount sel)
     \<and> selectPartialUtxos insertionSort [one_coin] None \<lparr>pr_Amount = 200000, pr_UtxoCount = 2, pr_FeePerUtxo = 1000,
       pr_PrepTxVouts = 2, pr_SplitSize = 100000, pr_Remainder = 0\<rparr> = Some ([one_coin], amt2, fees2, False)
     \<and> 0 < sint (amt2 - splitNeeded None \<lparr>pr_Amount = 200000, pr_UtxoCount = 2, pr_FeePerUtxo = 1000,
       pr_PrepTxVouts = 2, pr_SplitSize = 100000, pr_Remainder = 0\<rparr> 1)"
proof -
  let ?q = "\<lparr>pr_Amount = 999000, pr_UtxoCount = 1, pr_FeePerUtxo = 1000, pr_PrepTxVouts = 2, pr_SplitSize = 999000, pr_Remainder = 0\<rparr>"
  let ?q2 = "\<lparr>pr_Amount = 200000, pr_UtxoCount = 2, pr_FeePerUtxo = 1000, pr_PrepTxVouts = 2, pr_SplitSize = 100000, pr_Remainder = 0\<rparr>"
  note covers = partial_selection_covers [OF go_sort.slice_sort_axioms, where outs = "[one_coin]" and cc = None]
  have one: "selectPartialUtxos insertionSort [one_coin] None ?q = Some ([one_coin], 1000000, 1000, True)"
    by (simp add: selectPartialUtxos_def one_coin_camount exactSplit_def use_def covered_def)
  have "prepFees None ?q2 (Suc 0) = 6" "prepFees None ?q2 (Suc (Suc 0)) = 10"
    by (simp_all add: prepFees_def ceilFeeXB_def estimateFee_def word_le_nat_alt)
  hence needs: "splitNeeded None ?q2 (Suc 0) = 202006" "splitNeeded None ?q2 (Suc (Suc 0)) = 202010"
    by (simp_all add: splitNeeded_def exactSplit_def remainderNeeded_def)
  have two: "selectPartialUtxos insertionSort [one_coin] None ?q2 = Some ([one_coin], 1000000, 1000, False)"
    by (simp add: selectPartialUtxos_def one_coin_camount use_def covered_def top_up_def final_check_def insertionSort_def needs)
  obtain ids others where ids: "{#one_coin#} = mset ids + mset others" "\<forall>u \<in> set ids. camount u = 101000"
    "0 < sint (1000000 - splitNeeded None ?q2 (length others))"
    using covers [of ?q2] unfolding two by auto
  have "ids = []"
  proof (cases ids)
    case (Cons u us)
    hence "u \<in># {#one_coin#}"
      unfolding ids(1) by simp
    thus ?thesis
      using ids(2) Cons one_coin_camount by simp
  qed simp
  hence "length others = 1"
    using arg_cong [OF ids(1), of size] by simp
  hence needed: "0 < sint (1000000 - splitNeeded None ?q2 1)"
    using ids(3) by (simp only:)
  have "sint (999000 + 1000 - 1000000 :: u64) \<le> 0" "1000000 = sum_list (map camount [one_coin])"
    using covers [of ?q] unfolding one by simp_all
  thus ?thesis
    using one two needed by (intro exI conjI) assumption+
qed

text \<open>
  The inputs of the hash that names an order determine the order: two orders with the same
  hashed bytes agree in addresses, currencies, amounts, time, block and signature. Strings are below
  32 MiB and a block hash has 32 bytes.
\<close>

theorem order_preimage_injective:
  assumes "order_preimage f fc fa t tc ta ts bh sg = order_preimage f' fc' fa' t' tc' ta' ts' bh' sg'"
    and "length bh = 32" and "length bh' = 32"
    and "list_all (\<lambda>n. n \<le> maxCompactSize) [length f, length fc, length t, length tc, length sg, length f', length fc', length t', length tc', length sg']"
  shows "(f, fc, fa, t, tc, ta, ts, bh, sg) = (f', fc', fa', t', tc', ta', ts', bh', sg')"
proof -
  have len: "length (bytes_str b) = length b" for b
    by (simp add: bytes_str_def)
  note str = marshalVarStr_inj and num = PutUint64_inj
  have 1: "bytes_str f = bytes_str f'" and r1: "marshalVarStr fc @ PutUint64 fa @ marshalVarStr (bytes_str t) @ marshalVarStr tc
      @ PutUint64 ta @ PutUint64 ts @ bh @ marshalVarStr (bytes_str sg)
    = marshalVarStr fc' @ PutUint64 fa' @ marshalVarStr (bytes_str t') @ marshalVarStr tc'
      @ PutUint64 ta' @ PutUint64 ts' @ bh' @ marshalVarStr (bytes_str sg')"
    using str [OF assms(1) [unfolded order_preimage_def]] assms(4) by (simp_all add: len)
  have 2: "fc = fc'" and r2: "PutUint64 fa @ marshalVarStr (bytes_str t) @ marshalVarStr tc
      @ PutUint64 ta @ PutUint64 ts @ bh @ marshalVarStr (bytes_str sg)
    = PutUint64 fa' @ marshalVarStr (bytes_str t') @ marshalVarStr tc'
      @ PutUint64 ta' @ PutUint64 ts' @ bh' @ marshalVarStr (bytes_str sg')"
    using str [OF r1] assms(4) by simp_all
  note 3 = num [OF r2]
  have 4: "bytes_str t = bytes_str t'" and r4: "marshalVarStr tc @ PutUint64 ta @ PutUint64 ts @ bh @ marshalVarStr (bytes_str sg)
    = marshalVarStr tc' @ PutUint64 ta' @ PutUint64 ts' @ bh' @ marshalVarStr (bytes_str sg')"
    using str [OF conjunct2 [OF 3]] assms(4) by (simp_all add: len)
  have 5: "tc = tc'" and r5: "PutUint64 ta @ PutUint64 ts @ bh @ marshalVarStr (bytes_str sg)
    = PutUint64 ta' @ PutUint64 ts' @ bh' @ marshalVarStr (bytes_str sg')"
    using str [OF r4] assms(4) by simp_all
  note 6 = num [OF r5]
  note 7 = num [OF conjunct2 [OF 6]]
  have 8: "bh = bh'" and r8: "marshalVarStr (bytes_str sg) @ [] = marshalVarStr (bytes_str sg') @ []"
    using conjunct2 [OF 7] assms(2,3) by simp_all
  have "bytes_str sg = bytes_str sg'"
    using str [OF r8] assms(4) by (simp add: len)
  thus ?thesis
    using 1 2 3 4 5 6 7 8 bytes_str_inj by blast
qed

theorem order_preimage_injective_witness:
  "order_preimage (replicate 20 1) ''BTC'' 5 (replicate 20 2) ''LTC'' 7 9 (replicate 32 0) (replicate 65 3)
     \<noteq> order_preimage (replicate 20 1) ''BTC'' 5 (replicate 20 2) ''LTC'' 8 9 (replicate 32 0) (replicate 65 3)"
proof
  assume "order_preimage (replicate 20 1) ''BTC'' 5 (replicate 20 2) ''LTC'' 7 9 (replicate 32 0) (replicate 65 3)
     = order_preimage (replicate 20 1) ''BTC'' 5 (replicate 20 2) ''LTC'' 8 9 (replicate 32 0) (replicate 65 3)"
  from order_preimage_injective [OF this] show False
    by (simp add: maxCompactSize_def)
qed

text \<open>
  The amount of an output in units of a millionth is exact up to thirty coins, and not in
  general: of an output of 266.09653 coins a unit is lost.
\<close>

theorem camount_exact_to_thirty:
  "(\<forall>n \<le> 30000000. camount (one_coin\<lparr>ut_Value := fl (of_nat n / 1000000)\<rparr>) = of_nat n)
   \<and> camount (one_coin\<lparr>ut_Value := fl (26609653 / 100000)\<rparr>) = 266096529"
proof
  show "\<forall>n \<le> 30000000. camount (one_coin\<lparr>ut_Value := fl (of_nat n / 1000000)\<rparr>) = of_nat n"
    by (simp add: camount_round)
  show "camount (one_coin\<lparr>ut_Value := fl (26609653 / 100000)\<rparr>) = 266096529"
  proof -
    have "\<lfloor>8928717921320959 / 2 ^ 25 :: rat\<rfloor> = 266096529"
      by (simp add: floor_eq_iff)
    thus ?thesis
      by (simp add: camount_def xBridgeIntFromReal_def lossy u64_of_float_def)
  qed
qed

theorem camount_exact_to_thirty_witness:
  "camount (one_coin\<lparr>ut_Value := fl (of_nat 29999999 / 1000000)\<rparr>) = of_nat 29999999"
  by (rule conjunct1 [OF camount_exact_to_thirty, rule_format]) simp

end
