(* ===== verification/WalletTx.thy ===== *)
theory WalletTx
  imports UtxoSelect TakeRetry
begin

text \<open>
  Transactions the API builds outside a swap: \<^verbatim>\<open>splitTx\<close> (\<^verbatim>\<open>dxSplitAddress\<close> and \<^verbatim>\<open>dxSplitInputs\<close>) and
  \<^verbatim>\<open>buildPrepTx\<close> of \<^verbatim>\<open>api/handlers.go\<close>, and the service-node fee of \<^verbatim>\<open>api/fee_tx.go\<close>. The wallet's
  \<^verbatim>\<open>ListUnspent\<close> is the argument \<open>lu\<close>, and \<open>txt\<close> is the text of a wallet error.
\<close>

section \<open>Errors and shared parts\<close>

datatype api_fail = ApiErr rpcError | ApiPanic string

type_synonym 'a api = "api_fail + 'a"

definition a_bind :: "'a api \<Rightarrow> ('a \<Rightarrow> 'b api) \<Rightarrow> 'b api" where
  "a_bind m k = (case m of Inl e \<Rightarrow> Inl e | Inr v \<Rightarrow> k v)"

definition api_err :: "int \<Rightarrow> string \<Rightarrow> string \<Rightarrow> 'a api" where
  "api_err code name msg = Inl (ApiErr (makeError code name msg))"

definition errNoSession :: int where "errNoSession = 1018"
definition errInsufficientFunds :: int where "errInsufficientFunds = 1019"
definition errInvalidParameters :: int where "errInvalidParameters = 1025"
definition errInvalidAddress :: int where "errInvalidAddress = 1026"
definition errUnknown :: int where "errUnknown = 1002"

definition legacyOutputScript :: "Coin \<Rightarrow> string \<Rightarrow> bytes api" where
  "legacyOutputScript c addr = (case DecodeAddress c addr of
       Inl (GoPanic s) \<Rightarrow> Inl (ApiPanic s)
     | Inl (GoErr _) \<Rightarrow> api_err errInvalidAddress ''dxSplit'' addr
     | Inr a \<Rightarrow> (case a_Kind a of
         P2PKH \<Rightarrow> Inr (BuildP2PKHScript (copy20 (a_Hash a)))
       | P2SH \<Rightarrow> Inr (BuildP2SHScript (copy20 (a_Hash a)))
       | _ \<Rightarrow> api_err errInvalidAddress ''dxSplit'' (''segwit destinations not supported for split: '' @ addr)))"

definition txidOfRawTx :: "string \<Rightarrow> string api" where
  "txidOfRawTx rawHex = (case hex_DecodeString rawHex of
       None \<Rightarrow> api_err errInvalidParameters ''dxSplit'' ''bad signed transaction''
     | Some b \<Rightarrow> Inr (hex_EncodeToString (rev (sha256 (sha256 b)))))"

definition isP2PKHScript :: "string \<Rightarrow> bool" where
  "isP2PKHScript scriptHex = (case hex_DecodeString scriptHex of None \<Rightarrow> False
     | Some s \<Rightarrow> length s = 25 \<and> s ! 0 = 0x76 \<and> s ! 1 = 0xa9 \<and> s ! 2 = 0x14 \<and> s ! 23 = 0x88 \<and> s ! 24 = 0xac)"

text \<open>The inputs of a transaction over wallet outputs; the left value is the first id that is no transaction id.\<close>

fun utxo_inputs :: "Utxo list \<Rightarrow> string + TxIn list" where
  "utxo_inputs [] = Inr []"
| "utxo_inputs (u # us) = (case reverseTxidHex (ut_TxID u) of Inl _ \<Rightarrow> Inl (ut_TxID u)
     | Inr h \<Rightarrow> (case utxo_inputs us of Inl s \<Rightarrow> Inl s
       | Inr ins \<Rightarrow> Inr (\<lparr>ti_PrevOut = \<lparr>op_Hash = h, op_Index = ut_Vout u\<rparr>, ti_ScriptSig = [], ti_Sequence = 0xffffffff,
           ti_Witness = [], ti_Amount = 0\<rparr> # ins)))"

definition prev_txs :: "Utxo list \<Rightarrow> PrevTx list" where
  "prev_txs us = map (\<lambda>u. \<lparr>pt_TxID = ut_TxID u, pt_Vout = ut_Vout u, pt_ScriptPubKey = ut_ScriptPubKey u, pt_Amount = ut_Amount u\<rparr>) us"

definition wallet_tx :: "int \<Rightarrow> bool \<Rightarrow> u32 \<Rightarrow> TxIn list \<Rightarrow> TxOut list \<Rightarrow> Tx" where
  "wallet_tx ver withTime txTime ins outs = \<lparr>tx_Version = (if ver = 0 then 1 else word_of_int ver), tx_LockTime = 0,
     tx_Inputs = ins, tx_Outputs = outs, tx_SegWit = False, tx_WithTime = withTime, tx_TxTime = txTime\<rparr>"

section \<open>Splitting outputs\<close>

text \<open>Taking the fee out of the split outputs, from the last one; the list is in reverse.\<close>

fun claw :: "(u64 \<Rightarrow> bool) \<Rightarrow> u64 \<Rightarrow> u64 list \<Rightarrow> int \<Rightarrow> u64 list \<times> int" where
  "claw dust feesLeft [] nSplits = ([], nSplits)"
| "claw dust feesLeft (x # xs) nSplits = (
     if feesLeft = 0 then (x # xs, nSplits)
     else if x \<le> feesLeft then claw dust (feesLeft - x) xs (nSplits - 1)
     else (if dust (x - feesLeft) then xs else (x - feesLeft) # xs, nSplits - 1))"

text \<open>
  The amounts of the outputs and the count reported. An amount of zero divides by zero, and a count
  below minus one is no capacity of a slice.
\<close>

definition xb_dust :: "CoinConf \<Rightarrow> Coin \<Rightarrow> u64 \<Rightarrow> bool" where
  "xb_dust cc c v = isDustNative (xBridgeValueFromAmount v) (Some cc) (coinNativeScale c)"

definition split_plan :: "CoinConf \<Rightarrow> Coin \<Rightarrow> string \<Rightarrow> string \<Rightarrow> nat \<Rightarrow> u64 \<Rightarrow> u64 \<Rightarrow> (u64 list \<times> int) api" where
  "split_plan cc c method address nIn vinsTotalXB splitSizeXB = (
     if splitSizeXB = 0 then Inl (ApiPanic ''integer divide by zero'')
     else let n = sint (vinsTotalXB div splitSizeXB); n = (if n > 100 then 100 else n) in
       if n = 0 then api_err errBadRequest method (''already split all unused utxos in address ['' @ address @ '']'')
       else if n + 1 < 0 then Inl (ApiPanic ''makeslice: cap out of range'')
       else let remainderXB = vinsTotalXB - word_of_int n * splitSizeXB;
                txFeesXB = ceilFeeXB (Some cc) (estimateFee (Some cc) nIn (nat n));
                outs = replicate (nat n) splitSizeXB;
                change = remainderXB - txFeesXB;
                (outs, n) = (if sint change > 0 \<and> \<not> xb_dust cc c change then (outs @ [change], n)
                  else (let (r, n) = claw (xb_dust cc c) txFeesXB (rev outs) n in (rev r, n)))
            in if outs = [] then api_err errBadRequest method (''unable to split further, already split all unused utxos in address ['' @ address @ '']'')
               else Inr (outs, n))"

text \<open>The wallet's outputs asked for, each once and in the wallet's order, and the keys that are left.\<close>

fun resolve :: "string set \<Rightarrow> Utxo list \<Rightarrow> Utxo list \<times> string set" where
  "resolve want [] = ([], want)"
| "resolve want (w # ws) = (if utxoKey w \<in> want then (let (r, rest) = resolve (want - {utxoKey w}) ws in (w # r, rest)) else resolve want ws)"

definition split_inputs :: "string \<Rightarrow> string \<Rightarrow> string \<Rightarrow> u64 \<Rightarrow> string set \<Rightarrow> Utxo list \<Rightarrow> Utxo list \<Rightarrow> Utxo list api" where
  "split_inputs method ticker address splitSizeXB locked walletUtxos utxos = (
     let walletUtxos = filter (\<lambda>u. isP2PKHScript (ut_ScriptPubKey u)) walletUtxos in
     a_bind (if utxos = []
       then Inr (filter (\<lambda>u. utxoKey u \<notin> locked \<and> camount u \<noteq> splitSizeXB \<and> ut_Address u = address) walletUtxos)
       else let (resolved, want) = resolve (set (map utxoKey utxos)) walletUtxos in
         case find (\<lambda>u. utxoKey u \<in> want) utxos of
           Some u \<Rightarrow> api_err errBadRequest method (''user specified utxo was not found or is not available: COutPoint(''
             @ take 10 (ut_TxID u) @ '', '' @ nat_str (unat (ut_Vout u)) @ '')'')
         | None \<Rightarrow> Inr resolved)
     (\<lambda>utxos. if utxos = [] then api_err errBadRequest method (''failed to get unspent transaction outputs for token '' @ ticker)
        else Inr (take 100 utxos)))"

record splitTxResult =
  st_Token :: string
  st_IncludeFees :: bool
  st_SplitAmountRequested :: string
  st_SplitAmountWithFees :: string
  st_SplitUtxoCount :: int
  st_SplitTotal :: string
  st_TxID :: string
  st_RawTx :: string

definition lexicalAmount :: "string \<Rightarrow> u64 api" where
  "lexicalAmount s = (case parseXAmount s of
       Inl _ \<Rightarrow> Inl (ApiErr (makeEnvelopeError (-1) ''bad lexical cast: source type value could not be interpreted as target''))
     | Inr v \<Rightarrow> Inr v)"

record split_req =
  sq_ticker :: string
  sq_amount :: string
  sq_address :: string
  sq_includeFees :: bool
  sq_showRawTx :: bool
  sq_submit :: bool
  sq_utxos :: "Utxo list"
  sq_method :: string

text \<open>Up to the inputs and the outputs: wallet, coin, conf, inputs, split size and amounts.\<close>

definition split_prepare :: "'k Env \<Rightarrow> (Connector \<Rightarrow> int \<Rightarrow> Utxo list task) \<Rightarrow> (task_err \<Rightarrow> string) \<Rightarrow> split_req \<Rightarrow> Node
    \<Rightarrow> (Connector \<times> Coin \<times> CoinConf \<times> u64 \<times> u64 \<times> Utxo list \<times> bytes \<times> u64 list \<times> int) api" where
  "split_prepare e lu txt q n = (let ticker = sq_ticker q; method = sq_method q; address = sq_address q in
     case e_connectors e ticker of None \<Rightarrow> api_err errNoSession method ticker
     | Some conn \<Rightarrow> (case Coin_Get (e_coins e) ticker of
         None \<Rightarrow> api_err errInvalidParameters method (''unknown coin: '' @ ticker)
       | Some c \<Rightarrow> a_bind (lexicalAmount (sq_amount q)) (\<lambda>targetXB.
         case e_confs e ticker of None \<Rightarrow> api_err errNoSession method ticker
         | Some cc \<Rightarrow>
           if xb_dust cc c targetXB then api_err errBadRequest method (''split amount is dust ['' @ formatXAmount targetXB @ '']'')
           else case DecodeAddress c address of
             Inl (GoPanic s) \<Rightarrow> Inl (ApiPanic s)
           | r \<Rightarrow> if (case r of Inl _ \<Rightarrow> True | Inr a \<Rightarrow> a_Kind a \<noteq> P2PKH \<and> a_Kind a \<noteq> P2SH)
             then api_err errBadRequest method (''address is invalid or not in the wallet for token '' @ ticker)
             else let fee1XB = ceilFeeXB (Some cc) (estimateFee (Some cc) 1 3);
                      fee2XB = ceilFeeXB (Some cc) (estimateFee (Some cc) 1 1);
                      splitSizeXB = (if sq_includeFees q then targetXB + (fee1XB + fee2XB) else targetXB)
                  in case lu conn (cc_Confirmations cc) of
                    Inl er \<Rightarrow> api_err errBadRequest method (txt er)
                  | Inr walletUtxos \<Rightarrow>
                    a_bind (split_inputs method ticker address splitSizeXB (fst (LockedUtxoInfo (n_store n))) walletUtxos (sq_utxos q)) (\<lambda>utxos.
                    a_bind (legacyOutputScript c address) (\<lambda>script.
                    let vinsTotalXB = sum_list (map camount utxos) in
                    a_bind (split_plan cc c method address (length utxos) vinsTotalXB splitSizeXB) (\<lambda>(outs, nSplits).
                    Inr (conn, c, cc, targetXB, splitSizeXB, utxos, script, outs, nSplits)))))))"

definition splitTx :: "'k Env \<Rightarrow> (Connector \<Rightarrow> int \<Rightarrow> Utxo list task) \<Rightarrow> (task_err \<Rightarrow> string) \<Rightarrow> split_req \<Rightarrow> Node \<Rightarrow> Node \<times> splitTxResult api" where
  "splitTx e lu txt q n = (let ticker = sq_ticker q; method = sq_method q in
     case split_prepare e lu txt q n of Inl er \<Rightarrow> (n, Inl er)
     | Inr (conn, c, cc, targetXB, splitSizeXB, utxos, script, outs, nSplits) \<Rightarrow>
       (case utxo_inputs utxos of Inl s \<Rightarrow> (n, api_err errBadRequest method (''bad utxo txid: '' @ s))
        | Inr ins \<Rightarrow>
          let tx = wallet_tx (cc_TxVersion cc) False 0 ins (map (\<lambda>v. \<lparr>to_Value = fromXBridgeAmt c v, to_ScriptPubKey = script\<rparr>) outs) in
          case cn_SignRawTransaction conn (hex_EncodeToString (Tx_Serialize tx)) (prev_txs utxos) of
            Inl er \<Rightarrow> (n, api_err errBadRequest method (txt er))
          | Inr (signedHex, done_) \<Rightarrow>
            if \<not> done_ then (n, api_err errBadRequest method (''failed to sign the split transaction '' @ ticker))
            else case txidOfRawTx signedHex of Inl er \<Rightarrow> (n, Inl er)
              | Inr txid \<Rightarrow>
                let res = \<lparr>st_Token = ticker, st_IncludeFees = sq_includeFees q, st_SplitAmountRequested = formatXAmount targetXB,
                      st_SplitAmountWithFees = formatXAmount splitSizeXB, st_SplitUtxoCount = nSplits,
                      st_SplitTotal = formatXAmount (sum_list (map camount utxos)), st_TxID = txid,
                      st_RawTx = (if sq_showRawTx q then signedHex else [])\<rparr>
                in if sq_submit q then
                     (case cn_SendRawTransaction conn signedHex of
                        Inl er \<Rightarrow> (n, api_err errBadRequest method (txt er))
                      | Inr _ \<Rightarrow> (recordBroadcast e [] broadcastSplit ticker txid signedHex n, Inr res))
                   else (n, Inr res)))"

section \<open>The prep transaction\<close>

text \<open>Every output goes to the address of the first; \<open>now\<close> is the Unix time.\<close>

record prepVout =
  pv_addr :: string
  pv_amount :: u64

definition buildPrepTx :: "(task_err \<Rightarrow> string) \<Rightarrow> int \<Rightarrow> Connector \<Rightarrow> CoinConf option \<Rightarrow> Coin \<Rightarrow> Utxo list \<Rightarrow> prepVout list \<Rightarrow> (string \<times> string) api" where
  "buildPrepTx txt now conn cc coin vins vouts = (
     if vouts = [] then api_err errInvalidParameters ''dxMakePartialOrder'' ''no prep outputs''
     else a_bind (legacyOutputScript coin (pv_addr (hd vouts))) (\<lambda>script.
       case utxo_inputs vins of Inl s \<Rightarrow> api_err errInvalidParameters ''dxMakePartialOrder'' (''bad prep input txid: '' @ s)
       | Inr ins \<Rightarrow>
         let tx = wallet_tx (case cc of None \<Rightarrow> 0 | Some c \<Rightarrow> cc_TxVersion c) (c_TxWithTimeField coin) (word_of_int now) ins
               (map (\<lambda>vo. \<lparr>to_Value = pv_amount vo, to_ScriptPubKey = script\<rparr>) vouts) in
         case cn_SignRawTransaction conn (hex_EncodeToString (Tx_Serialize tx)) (prev_txs vins) of
           Inl er \<Rightarrow> api_err errUnknown ''dxMakePartialOrder'' (txt er)
         | Inr (signedHex, done_) \<Rightarrow>
           if \<not> done_ then api_err errUnknown ''dxMakePartialOrder'' ''signing incomplete (wallet missing keys?)''
           else a_bind (txidOfRawTx signedHex) (\<lambda>txid. Inr (signedHex, txid))))"

section \<open>The service-node fee\<close>

definition serviceNodeFeeReal :: float64 where "serviceNodeFeeReal = fl (15 / 1000)"

definition feeTxRelayPerByte :: float64 where "feeTxRelayPerByte = fl (40 / 100000000)"

definition maxOrderInfoBytes :: nat where "maxOrderInfoBytes = 160 - 3"

text \<open>
  \<^verbatim>\<open>json.Marshal\<close> of a list of strings and numbers: quotes, backslashes, control characters and the
  three characters special in HTML are escaped. Bytes from 128 on are copied, as those of valid
  UTF-8 are but for the line and paragraph separators.
\<close>

definition json_char :: "char \<Rightarrow> string" where
  "json_char c = (let k = of_char c :: nat; hx = hex_EncodeToString [of_nat k] in
     if c = CHR 0x22 \<or> c = CHR 0x5C then [CHR 0x5C, c]
     else if k = 8 then [CHR 0x5C, CHR ''b''] else if k = 12 then [CHR 0x5C, CHR ''f''] else if k = 10 then [CHR 0x5C, CHR ''n'']
     else if k = 13 then [CHR 0x5C, CHR ''r''] else if k = 9 then [CHR 0x5C, CHR ''t'']
     else if k < 32 \<or> c = CHR ''<'' \<or> c = CHR ''>'' \<or> c = CHR ''&'' then [CHR 0x5C, CHR ''u'', CHR ''0'', CHR ''0''] @ hx
     else [c])"

definition json_str :: "string \<Rightarrow> string" where
  "json_str s = [CHR 0x22] @ concat (map json_char s) @ [CHR 0x22]"

definition order_info :: "string \<Rightarrow> string \<Rightarrow> u64 \<Rightarrow> string \<Rightarrow> u64 \<Rightarrow> string" where
  "order_info i fromCur fromAmt toCur toAmt = ''['' @ json_str i @ '','' @ json_str fromCur @ '','' @ nat_str (unat fromAmt)
     @ '','' @ json_str toCur @ '','' @ nat_str (unat toAmt) @ '']''"

definition errOrderInfoOverflow :: string where "errOrderInfoOverflow = ''fee order info exceeds max bytes''"

definition feeOrderInfo :: "bytes \<Rightarrow> string \<Rightarrow> u64 \<Rightarrow> string \<Rightarrow> u64 \<Rightarrow> string + string" where
  "feeOrderInfo i fromCur fromAmt toCur toAmt = (
     let strInfo = order_info [] fromCur fromAmt toCur toAmt;
         orderID = orderIDString i;
         leftOver = int maxOrderInfoBytes - int (length strInfo);
         orderID = (if length strInfo + length orderID > maxOrderInfoBytes
           then if leftOver > 0 then take (nat leftOver) orderID else if leftOver = 0 then [] else orderID
           else orderID);
         out = order_info orderID fromCur fromAmt toCur toAmt
     in if length out > maxOrderInfoBytes then Inl errOrderInfoOverflow else Inr out)"

definition estFeeBlock :: "nat \<Rightarrow> nat \<Rightarrow> float64" where
  "estFeeBlock inputs outputs = fl (of_nat (192 * inputs + 34 * outputs) * feeTxRelayPerByte)"

definition fee_ideal :: "float64 \<Rightarrow> Utxo \<Rightarrow> bool" where
  "fee_ideal minAmount u \<longleftrightarrow> ut_Value u \<ge> minAmount \<and> ut_Value u < fl (minAmount + fl (estFeeBlock 1 3 * 100))"

definition fee_enough :: "float64 \<Rightarrow> Utxo list \<Rightarrow> bool" where
  "fee_enough minAmount sel \<longleftrightarrow> fl (foldl (\<lambda>r s. fl (r + ut_Value s)) 0 sel - estFeeBlock (length sel) 3) \<ge> minAmount"

definition selectFeeUtxos :: "sorter \<Rightarrow> Utxo list \<Rightarrow> float64 \<Rightarrow> Utxo list option" where
  "selectFeeUtxos srt a amt = (
     let minAmount = fl (amt + estFeeBlock 1 3);
         sel = pick srt (fee_ideal minAmount) minAmount (fee_enough minAmount) (srt value_desc a)
     in if sel = [] then None else Some sel)"

definition isP2PKH25 :: "string \<Rightarrow> bool" where
  "isP2PKH25 scriptHex = (case hex_DecodeString scriptHex of None \<Rightarrow> False
     | Some b \<Rightarrow> length b = 25 \<and> b ! 0 = 0x76 \<and> b ! 1 = 0xa9 \<and> b ! 2 = 0x14 \<and> b ! 23 = 0x88 \<and> b ! 24 = 0xac)"

definition fee_err :: "string \<Rightarrow> 'a api" where
  "fee_err msg = api_err errInsufficientFunds ''dxTakeOrder'' (''not accepting order, '' @ msg)"

definition buildServiceNodeFeeTx :: "sorter \<Rightarrow> Connector \<Rightarrow> Coin \<Rightarrow> CoinConf option \<Rightarrow> bytes \<Rightarrow> bytes \<Rightarrow> Utxo list \<Rightarrow> (string \<times> Utxo list) api" where
  "buildServiceNodeFeeTx srt conn blkCoin blkConf dest data avail = (case selectFeeUtxos srt avail serviceNodeFeeReal of
       None \<Rightarrow> fee_err ''insufficient BLOCK funds for service node fee payment''
     | Some sel \<Rightarrow> (case blkConf of None \<Rightarrow> fee_err ''BLOCK conf missing''
       | Some cc \<Rightarrow>
         let native = float_of_u64 (cc_Coin cc);
             inputAmt = foldl (\<lambda>r u. fl (r + ut_Value u)) 0 sel;
             feeAmt = estFeeBlock (length sel) 3;
             changeAmt = word_of_int (trunc64 (fl (fl (fl (inputAmt - serviceNodeFeeReal) - feeAmt) * native))) :: u64
         in case utxo_inputs sel of Inl s \<Rightarrow> fee_err (''bad fee input txid: '' @ s)
         | Inr ins \<Rightarrow>
           a_bind (if changeAmt \<ge> effectiveDust (Some cc)
             then a_bind (legacyOutputScript blkCoin (ut_Address (hd sel))) (\<lambda>script. Inr [\<lparr>to_Value = changeAmt, to_ScriptPubKey = script\<rparr>])
             else Inr []) (\<lambda>change.
           let outs = [\<lparr>to_Value = 0, to_ScriptPubKey = BuildOpReturnScript data\<rparr>,
                 \<lparr>to_Value = word_of_int (trunc64 (fl (serviceNodeFeeReal * native))), to_ScriptPubKey = BuildP2PKHScript dest\<rparr>] @ change;
               tx = wallet_tx (cc_TxVersion cc) (c_TxWithTimeField blkCoin) 0 ins outs in
           case cn_SignRawTransaction conn (hex_EncodeToString (Tx_Serialize tx)) (prev_txs sel) of
             Inr (raw, True) \<Rightarrow> Inr (raw, sel)
           | _ \<Rightarrow> fee_err ''failed to prepare the service node fee'')))"

section \<open>Lemmas\<close>

lemma claw_pays:
  "unat f \<le> sum_list (map unat xs) \<Longrightarrow> sum_list (map unat (fst (claw d f xs n))) + unat f \<le> sum_list (map unat xs)
   \<or> fst (claw d f xs n) = []"
proof (induction d f xs n rule: claw.induct)
  case (2 d f x xs n)
  show ?case
  proof (cases "f = 0 \<or> x > f")
    case True
    thus ?thesis
      by (auto simp: unat_sub word_less_nat_alt word_le_nat_alt)
  next
    case False
    hence "x \<le> f" "f \<noteq> 0"
      by (simp_all add: not_less)
    hence le: "x \<le> f" "f \<noteq> 0" "unat (f - x) = unat f - unat x" "unat x \<le> unat f"
      by (simp_all add: unat_sub word_le_nat_alt)
    hence claw: "claw d f (x # xs) n = claw d (f - x) xs (n - 1)"
      by simp
    have "unat (f - x) \<le> sum_list (map unat xs)"
      using 2(2) le by simp
    with 2(1) [OF le(2,1)] show ?thesis
      unfolding claw using le(3,4) by (auto simp: le(3))
  qed
qed simp

lemma claw_short: "sum_list (map unat xs) < unat f \<Longrightarrow> fst (claw d f xs n) = []"
proof (induction d f xs n rule: claw.induct)
  case (2 d f x xs n)
  hence "x \<le> f" "f \<noteq> 0" "sum_list (map unat xs) < unat (f - x)"
    by (auto simp: unat_sub word_le_nat_alt)
  thus ?case
    using 2 by simp
qed simp

lemma signed_small: "unat v < 2 ^ 63 \<Longrightarrow> sint (v :: u64) = int (unat v)"
proof -
  assume "unat v < 2 ^ 63"
  hence "int (unat v) < 2 ^ 63"
    by (metis of_nat_less_iff of_nat_numeral of_nat_power)
  hence "signed_take_bit 63 (int (unat v)) = int (unat v)"
    by (intro signed_take_bit_int_eq_self) (simp_all add: order_trans [of _ 0])
  thus ?thesis
    by (simp add: sint_uint)
qed

lemma signed_diff_small:
  fixes a b :: u64
  assumes "unat a < 2 ^ 63" and "unat b < 2 ^ 63"
  shows "sint (a - b) = int (unat a) - int (unat b)"
proof -
  have ab: "int (unat a) < 2 ^ 63" "int (unat b) < 2 ^ 63"
    using assms by (metis of_nat_less_iff of_nat_numeral of_nat_power)+
  have diff: "a - b = word_of_int (int (unat a) - int (unat b))"
    by simp
  have sint: "sint (word_of_int k :: u64) = signed_take_bit 63 k" for k
    by (simp add: signed_of_int)
  have "signed_take_bit 63 (int (unat a) - int (unat b)) = int (unat a) - int (unat b)"
    using ab by (intro signed_take_bit_int_eq_self) linarith+
  thus ?thesis
    unfolding diff sint .
qed

lemma mult_small: "k * unat v < 2 ^ 64 \<Longrightarrow> unat (word_of_nat k * v :: u64) = k * unat v"
proof -
  assume small: "k * unat v < 2 ^ 64"
  have "word_of_nat k * v = (word_of_nat (k * unat v) :: u64)"
    by simp
  thus ?thesis
    using small by (simp add: unat_of_nat del: of_nat_mult)
qed

text \<open>The plan in natural numbers, while the total stays below half the range.\<close>

lemma split_sizes:
  fixes vins sz :: u64
  assumes "sz \<noteq> 0" and "unat vins < 2 ^ 63" and "n = (let n = sint (vins div sz) in if n > 100 then 100 else n)"
  shows "0 \<le> n" and "nat n * unat sz \<le> unat vins" and "unat (vins - word_of_int n * sz) = unat vins - nat n * unat sz"
proof -
  have q: "unat (vins div sz) = unat vins div unat sz"
    by (rule unat_div)
  hence "unat (vins div sz) < 2 ^ 63"
    using assms(2) div_le_dividend [of "unat vins" "unat sz"] by linarith
  hence "sint (vins div sz) = int (unat vins div unat sz)"
    using q signed_small [of "vins div sz"] by simp
  hence n: "n = (if int (unat vins div unat sz) > 100 then 100 else int (unat vins div unat sz))"
    using assms(3) by (simp add: Let_def)
  thus "0 \<le> n"
    by simp
  have "nat n \<le> unat vins div unat sz"
    using n by (simp split: if_splits)
  thus le: "nat n * unat sz \<le> unat vins"
    by (rule order_trans [OF mult_le_mono1 div_times_less_eq_dividend])
  have "word_of_int n = (word_of_nat (nat n) :: u64)"
    using \<open>0 \<le> n\<close> by simp
  hence "unat (word_of_int n * sz) = nat n * unat sz"
    using le assms(2) mult_small [of "nat n" sz] by simp
  thus "unat (vins - word_of_int n * sz) = unat vins - nat n * unat sz"
    using le by (simp add: unat_sub word_le_nat_alt)
qed

lemma json_hex: "set s \<subseteq> set ''0123456789abcdef'' \<Longrightarrow> concat (map json_char s) = s"
  by (induction s) (auto simp: json_char_def)

lemma hexChar_lower: "n < 16 \<Longrightarrow> hexChar n \<in> set ''0123456789abcdef''"
proof -
  have "list_all (\<lambda>n. hexChar n \<in> set ''0123456789abcdef'') [0..<16]"
    by code_simp
  thus "n < 16 \<Longrightarrow> hexChar n \<in> set ''0123456789abcdef''"
    unfolding list_all_iff by (metis atLeastLessThan_iff atLeast_upt lessThan_iff)
qed

lemma hex_digits: "set (hex_EncodeToString b) \<subseteq> set ''0123456789abcdef''"
proof -
  have "hexChar (unat x div 16) \<in> set ''0123456789abcdef''" "hexChar (unat x mod 16) \<in> set ''0123456789abcdef''" for x :: byte
    using unat_less_2p [of x] by (intro hexChar_lower; simp add: div_less_iff_less_mult)+
  thus ?thesis
    unfolding hex_EncodeToString_def by fastforce
qed

text \<open>An order id in the middle of the text takes the room of its characters.\<close>

lemma length_order_info: "set i \<subseteq> set ''0123456789abcdef'' \<Longrightarrow> length (order_info i f fa t ta) = length i + length (order_info [] f fa t ta)"
  unfolding order_info_def json_str_def by (simp add: json_hex)

lemma length_hex: "length (hex_EncodeToString b) = 2 * length b"
  by (induction b) (simp_all add: hex_EncodeToString_def)

section \<open>Properties\<close>

text \<open>
  A split never spends more than it has: on success the outputs and the network fee together are
  at most the total of the inputs. The total is below half the range of 64 bits, and so is the fee.
\<close>

theorem split_conserves:
  assumes "split_plan cc c method address nIn vins sz = Inr (outs, k)" and "unat vins < 2 ^ 63"
    and "fee = ceilFeeXB (Some cc) (estimateFee (Some cc) nIn (nat (let n = sint (vins div sz) in if n > 100 then 100 else n)))"
    and "unat fee < 2 ^ 63"
  shows "outs \<noteq> [] \<and> sum_list (map unat outs) + unat fee \<le> unat vins"
proof -
  define n where "n = (let n = sint (vins div sz) in if n > 100 then 100 else n)"
  define rest where "rest = vins - word_of_int n * sz"
  have nz: "sz \<noteq> 0"
    using assms(1) by (auto simp: split_plan_def)
  note sizes = split_sizes [OF nz assms(2) n_def]
  have rest: "unat rest = unat vins - nat n * unat sz"
    using sizes(3) by (simp add: rest_def)
  have total: "sum_list (map unat (replicate (nat n) sz)) = nat n * unat sz"
    by (simp add: sum_list_replicate)
  have fee: "ceilFeeXB (Some cc) (estimateFee (Some cc) nIn (nat n)) = fee"
    using assms(3) by (simp add: n_def)
  have ne: "outs \<noteq> []"
    and plan: "outs = (if sint (rest - fee) > 0 \<and> \<not> xb_dust cc c (rest - fee) then replicate (nat n) sz @ [rest - fee]
      else rev (fst (claw (xb_dust cc c) fee (replicate (nat n) sz) n)))"
    using assms(1) nz unfolding split_plan_def n_def [unfolded Let_def, symmetric] Let_def rest_def [symmetric] fee
    by (auto simp: api_err_def case_prod_beta split: if_splits)
  show ?thesis
  proof (cases "sint (rest - fee) > 0 \<and> \<not> xb_dust cc c (rest - fee)")
    case True
    have "unat fee \<le> unat rest"
    proof (rule ccontr)
      assume "\<not> unat fee \<le> unat rest"
      hence "sint (rest - fee) = int (unat rest) - int (unat fee)"
        by (intro signed_diff_small) (use rest assms(2,4) in simp_all)
      thus False
        using conjunct1 [OF True] \<open>\<not> unat fee \<le> unat rest\<close> by linarith
    qed
    hence "unat (rest - fee) = unat rest - unat fee"
      by (simp add: unat_sub word_le_nat_alt)
    hence "sum_list (map unat outs) = nat n * unat sz + (unat vins - nat n * unat sz - unat fee)"
      using True plan total rest by simp
    moreover have "unat fee \<le> unat vins - nat n * unat sz"
      using \<open>unat fee \<le> unat rest\<close> rest by simp
    ultimately have "sum_list (map unat outs) + unat fee = unat vins"
      using sizes(2) by linarith
    thus ?thesis
      using ne by simp
  next
    case False
    hence outs: "rev outs = fst (claw (xb_dust cc c) fee (replicate (nat n) sz) n)"
      unfolding plan if_not_P [OF False] by simp
    have "unat fee \<le> nat n * unat sz"
      using claw_short [of "replicate (nat n) sz" fee "xb_dust cc c" n] outs ne total by (metis leI rev_is_Nil_conv)
    hence "sum_list (map unat (rev outs)) + unat fee \<le> nat n * unat sz"
      using claw_pays [of fee "replicate (nat n) sz" "xb_dust cc c" n] outs ne total by auto
    thus ?thesis
      using ne sizes(2) by (simp add: rev_map [symmetric])
  qed
qed

definition bare_conf :: CoinConf where
  "bare_conf = sample_coin\<lparr>cc_Coin := 1000000, cc_DustAmount := 0, cc_MinTxFee := 0, cc_FeePerByte := 0\<rparr>"

lemma bare_simps: "cc_Coin bare_conf = 1000000" "cc_DustAmount bare_conf = 0" "cc_MinTxFee bare_conf = 0" "cc_FeePerByte bare_conf = 0"
  by (simp_all add: bare_conf_def)

theorem split_conserves_witness:
  "split_plan bare_conf sample [] [] 1 1040 520 = Inr ([520], 1) \<and> sum_list (map unat [520 :: u64]) + 520 \<le> unat (1040 :: u64)"
proof -
  have two: "(1040 div 520 :: u64) = 2" "replicate 2 (520 :: u64) = [520, 520]"
    by (code_simp, simp add: numeral_2_eq_2)
  have fee: "520 = ceilFeeXB (Some bare_conf) (estimateFee (Some bare_conf) 1 (nat (let n = sint (1040 div 520 :: u64) in if n > 100 then 100 else n)))"
    by (simp add: two(1) bare_simps ceilFeeXB_def estimateFee_def Let_def)
  have plan: "split_plan bare_conf sample [] [] 1 1040 520 = Inr ([520], 1)"
    using fee by (simp add: split_plan_def two Let_def)
  show ?thesis
    using split_conserves [OF plan _ fee] plan by simp
qed

text \<open>
  The text a take puts on chain is the order's id, as much of it as fits, with the two currencies
  and amounts, and is at most 157 bytes; the take is refused exactly when the text without an id is
  longer than that.
\<close>

theorem feeOrderInfo_exact:
  assumes "length i = 32" and "room = 157 - length (order_info [] fromCur fromAmt toCur toAmt)"
  shows "feeOrderInfo i fromCur fromAmt toCur toAmt =
    (if length (order_info [] fromCur fromAmt toCur toAmt) \<le> 157
     then Inr (order_info (take room (orderIDString i)) fromCur fromAmt toCur toAmt) else Inl errOrderInfoOverflow)"
proof -
  let ?base = "length (order_info [] fromCur fromAmt toCur toAmt)"
  have hex: "set (orderIDString i) \<subseteq> set ''0123456789abcdef''" "length (orderIDString i) = 64"
    by (simp_all only: orderIDString_def hexEncode_def Let_def hex_digits length_hex) (simp_all add: hex_digits)
  have len: "length (order_info (take k (orderIDString i)) fromCur fromAmt toCur toAmt) = min 64 k + ?base" for k
    using length_order_info [of "take k (orderIDString i)"] hex set_take_subset [of k "orderIDString i"] by (simp add: subset_trans)
  show ?thesis
  proof (cases "?base + 64 \<le> 157")
    case True
    thus ?thesis
      using len [of 64] hex(2) assms(2) by (simp add: feeOrderInfo_def maxOrderInfoBytes_def Let_def)
  next
    case False
    thus ?thesis
      using len [of room] len [of 64] hex(2) assms(2)
      by (cases "?base = 157") (auto simp: feeOrderInfo_def maxOrderInfoBytes_def Let_def nat_diff_distrib)
  qed
qed

theorem feeOrderInfo_exact_witness:
  "feeOrderInfo (replicate 32 0) ''BTC'' 7 ''LTC'' 9 = Inr (order_info (take 137 (orderIDString (replicate 32 0))) ''BTC'' 7 ''LTC'' 9)"
proof -
  have len: "length (order_info [] ''BTC'' 7 ''LTC'' 9) = 20"
    by (simp add: order_info_def json_str_def json_char_def nat_str.simps Let_def)
  show ?thesis
    using feeOrderInfo_exact [of "replicate 32 0" 137 "''BTC''" 7 "''LTC''" 9] len by simp
qed

text \<open>
  An amount of zero without fees passes the dust test of a coin that has no dust threshold, and
  the split then divides by it: with an address that decodes and at least one output to split, the
  handler panics.
\<close>

theorem split_zero_panics:
  assumes "e_connectors e (sq_ticker q) = Some conn" and "Coin_Get (e_coins e) (sq_ticker q) = Some c"
    and "e_confs e (sq_ticker q) = Some cc" and "cc_DustAmount cc = 0" and "parseXAmount (sq_amount q) = Inr 0" and "\<not> sq_includeFees q"
    and "DecodeAddress c (sq_address q) = Inr a" and "a_Kind a = P2PKH" and "lu conn (cc_Confirmations cc) = Inr walletUtxos"
    and "split_inputs (sq_method q) (sq_ticker q) (sq_address q) 0 (fst (LockedUtxoInfo (n_store n))) walletUtxos (sq_utxos q) = Inr utxos"
  shows "splitTx e lu txt q n = (n, Inl (ApiPanic ''integer divide by zero''))"
proof -
  have "0 \<le> xBridgeValueFromAmount 0"
    unfolding xBridgeValueFromAmount_def by (intro fl_nonneg add_nonneg_nonneg divide_nonneg_nonneg) (simp_all add: float_of_u64_def scale_def fl_nonneg)
  hence "0 \<le> fl (xBridgeValueFromAmount 0 * float_of_u64 (coinNativeScale c))"
    by (intro fl_nonneg mult_nonneg_nonneg) (simp_all add: float_of_u64_def fl_nonneg)
  hence "\<not> xb_dust cc c 0"
    using assms(4) by (simp add: xb_dust_def isDustNative_def trunc64_def effectiveDust_def Let_def)
  thus ?thesis
    using assms by (simp add: splitTx_def split_prepare_def lexicalAmount_def a_bind_def Let_def legacyOutputScript_def split_plan_def)
qed

definition zero_req :: split_req where
  "zero_req = \<lparr>sq_ticker = ''BTC'', sq_amount = ''0'', sq_address = Address_String (proof_address sample (replicate 20 9)),
     sq_includeFees = False, sq_showRawTx = False, sq_submit = True, sq_utxos = [one_coin], sq_method = ''dxSplitInputs''\<rparr>"

definition split_env :: "bytes Env" where
  "split_env = \<lparr>e_now = 1000, e_unix = 0, e_secp = echo_secp, e_version = 55, e_connectors = [''BTC'' \<mapsto> one_conn],
     e_confs = [''BTC'' \<mapsto> bare_conf], e_coins = (\<lambda>_. Some sample), e_dataDir = True, e_diskErr = False, e_connected = False,
     e_writeErr = False, e_known = (\<lambda>_. True), e_exchangeStarted = False, e_queueCap = 4, e_startedAt = 0, e_takeRetry = 2\<rparr>"

theorem split_zero_panics_witness:
  "\<forall>n. splitTx split_env (\<lambda>_ _. Inr [one_coin\<lparr>ut_ScriptPubKey := hex_EncodeToString ([0x76, 0xa9, 0x14] @ replicate 20 9 @ [0x88, 0xac])\<rparr>])
     (\<lambda>_. []) zero_req n = (n, Inl (ApiPanic ''integer divide by zero''))"
proof
  fix n :: Node
  let ?u = "one_coin\<lparr>ut_ScriptPubKey := hex_EncodeToString ([0x76, 0xa9, 0x14] @ replicate 20 9 @ [0x88, 0xac])\<rparr>"
  obtain a where a: "DecodeAddress sample (sq_address zero_req) = Inr a" "a_Kind a = P2PKH"
    using plain_address_decodes [of "proof_address sample (replicate 20 9)"]
    by (auto simp: plain_address_def proof_address_def sample_def zero_req_def)
  have "isP2PKHScript (ut_ScriptPubKey ?u)"
    by (simp add: isP2PKHScript_def nth_append)
  moreover have "utxoKey ?u = utxoKey one_coin"
    by (simp add: utxoKey_def)
  ultimately have inputs: "split_inputs (sq_method zero_req) (sq_ticker zero_req) (sq_address zero_req) 0 (fst (LockedUtxoInfo (n_store n))) [?u]
      (sq_utxos zero_req) = Inr [?u]"
    by (simp add: split_inputs_def zero_req_def a_bind_def)
  show "splitTx split_env (\<lambda>_ _. Inr [?u]) (\<lambda>_. []) zero_req n = (n, Inl (ApiPanic ''integer divide by zero''))"
    by (rule split_zero_panics [OF _ _ _ _ _ _ a _ inputs, of _ one_conn bare_conf])
      (simp_all add: split_env_def zero_req_def bare_simps Coin_Get_def, code_simp)
qed

end
