(* ===== verification/OrderCommit.thy ===== *)
theory OrderCommit
  imports WalletTx SwapHandlers
begin

text \<open>
  The engine's part of making, taking and cancelling an order (\<^verbatim>\<open>api/node.go\<close>): one unit each that
  changes the book and the sessions, saves, and sends, and that is undone when saving or sending
  fails. \<open>dtxt\<close> and \<open>wtxt\<close> are the texts of a disk and of a wire error.
\<close>

section \<open>Making\<close>

definition drop_session :: "string \<Rightarrow> Node \<Rightarrow> Node" where
  "drop_session key n = n\<lparr>n_sessions := (n_sessions n)(key := None)\<rparr>"

definition drop_order :: "string \<Rightarrow> Node \<Rightarrow> Node" where
  "drop_order key n = n\<lparr>n_store := Store_Remove (n_store n) key\<rparr>"

text \<open>An order that waits for its prep transaction (\<open>pending\<close>) is not announced.\<close>

definition commitMake :: "'k Env \<Rightarrow> (bytes \<Rightarrow> bytes) \<Rightarrow> bytes option \<Rightarrow> string \<Rightarrow> string \<Rightarrow> bool \<Rightarrow> Order \<Rightarrow> string \<Rightarrow> string \<Rightarrow> bytes \<Rightarrow> bytes
    \<Rightarrow> Packet \<Rightarrow> bytes \<Rightarrow> Node \<Rightarrow> Node \<times> Order option api" where
  "commitMake e rip xpk dtxt wtxt pending ord makerAddress takerAddress priv pub pkt hubAddr n = (
     let key = hexEncode (o_ID ord);
         n = n\<lparr>n_store := Add (n_store n) ord\<rparr>;
         n = newMakerSession e rip xpk ord makerAddress takerAddress priv pub n
     in if pending then (let n = persist e n in (n, Inr (Store_Get (n_store n) key)))
        else let (n, ok) = persistNow e n in
          if \<not> ok then (drop_order key (drop_session key n), api_err errUnknown ''dxMakeOrder'' dtxt)
          else if e_writeErr e
            then (fst (persistNow e (drop_order key (drop_session key n))), api_err errUnknown ''dxMakeOrder'' wtxt)
          else let n = n\<lparr>n_packets := n_packets n @ [(hubAddr, p_Command pkt, p_Body pkt)]\<rparr>
            in (n, Inr (Store_Get (n_store n) key)))"

section \<open>Taking\<close>

definition mark_taken :: "u64 \<Rightarrow> string \<Rightarrow> TakeOrderParams \<Rightarrow> UtxoEntry list \<Rightarrow> Utxo list \<Rightarrow> Utxo list \<Rightarrow> Order \<Rightarrow> Order" where
  "mark_taken now makerKey p proofs usedCoins feeInputs ord = ord\<lparr>o_Updated := now, o_Status := ''accepting'',
     o_Role := byte_of_char CHR ''B'', o_Mine := True, o_MakerKey := makerKey,
     o_OrigFromCurrency := o_FromCurrency ord, o_OrigToCurrency := o_ToCurrency ord,
     o_OrigFromAmount := (if o_OrigFromAmount ord = 0 then o_FromAmount ord else o_OrigFromAmount ord),
     o_OrigToAmount := (if o_OrigToAmount ord = 0 then o_ToAmount ord else o_OrigToAmount ord),
     o_MakerAddress := tp_FromAddress p, o_TakerAddress := tp_ToAddress p,
     o_Utxos := proofs, o_UsedCoins := usedCoins, o_FeeUtxos := feeInputs, o_UtxoCurrency := o_ToCurrency ord\<rparr>"

definition release_reserve :: "string \<Rightarrow> Node \<Rightarrow> Node" where
  "release_reserve key n = n\<lparr>n_store := ReleaseReserve (n_store n) key\<rparr>"

definition revertTake :: "'k Env \<Rightarrow> string \<Rightarrow> Order \<Rightarrow> Node \<Rightarrow> Node" where
  "revertTake e key prev n = fst (persistNow e (drop_session key (upd_order key (\<lambda>_. Order_Copy prev) n)))"

definition commitTake :: "'k Env \<Rightarrow> string \<Rightarrow> string \<Rightarrow> string \<Rightarrow> TakeOrderParams \<Rightarrow> Packet \<Rightarrow> bytes \<Rightarrow> bytes \<Rightarrow> UtxoEntry list
    \<Rightarrow> Utxo list \<Rightarrow> Utxo list \<Rightarrow> Node \<Rightarrow> Node \<times> Order option api" where
  "commitTake e dtxt wtxt key p pkt priv pub proofs usedCoins feeInputs n = (case Store_Get (n_store n) key of
       None \<Rightarrow> (release_reserve key n, Inr None)
     | Some prev \<Rightarrow>
       let n = upd_order key (mark_taken (e_now e) (hexEncode pub) p proofs usedCoins feeInputs) n;
           n = release_reserve key n
       in case Store_Get (n_store n) key of
            None \<Rightarrow> (revertTake e key prev n, api_err errUnknown ''dxTakeOrder'' ''order vanished after commit'')
          | Some cur \<Rightarrow>
            let n = newTakerSession e cur (tp_FromAddress p) (tp_ToAddress p) priv pub n;
                (n, ok) = persistNow e n
            in if \<not> ok then (revertTake e key prev n, api_err errUnknown ''dxTakeOrder'' dtxt)
               else if e_writeErr e then (revertTake e key prev n, api_err errUnknown ''dxTakeOrder'' wtxt)
               else let n = n\<lparr>n_packets := n_packets n @ [(o_HubAddress cur, p_Command pkt, p_Body pkt)]\<rparr>;
                        n = registerTakeRetry e key p n
                    in (n, Inr (Store_Get (n_store n) key)))"

text \<open>The session a take opens: the amounts are those of the whole order.\<close>

definition taker_session :: "'k Env \<Rightarrow> TakeOrderParams \<Rightarrow> bytes \<Rightarrow> bytes \<Rightarrow> Order \<Rightarrow> SwapSession" where
  "taker_session e p priv pub ord = zeroSession\<lparr>ss_isMaker := False, ss_id := o_ID ord, ss_srcCur := o_ToCurrency ord,
     ss_dstCur := o_FromCurrency ord, ss_srcAmt := o_ToAmount ord, ss_dstAmt := o_FromAmount ord,
     ss_ourSourceAddr := tp_FromAddress p, ss_ourDestAddr := tp_ToAddress p, ss_privKey := priv, ss_pubKey := pub,
     ss_state := csTaker, ss_lastProgress := e_now e, ss_hubKey := decodePub33 (o_SNodePubkey ord), ss_hub := o_HubAddress ord\<rparr>"

section \<open>Cancelling\<close>

definition errNoServiceNode :: int where "errNoServiceNode = 1032"

definition cancel_error :: "'k Env \<Rightarrow> string \<Rightarrow> string \<Rightarrow> Node \<Rightarrow> rpcError" where
  "cancel_error e etxt idHex n = (if \<not> e_connected e then makeError errNoServiceNode ''dxCancelOrder'' []
     else if live n idHex = None then makeError errBadRequest ''dxCancelOrder'' ''no active session for order''
     else makeError errUnknown ''dxCancelOrder'' etxt)"

definition commitCancel :: "'k Env \<Rightarrow> string \<Rightarrow> string \<Rightarrow> Node \<Rightarrow> Node \<times> unit api" where
  "commitCancel e etxt idHex n = (case Store_Get (n_store n) idHex of
       None \<Rightarrow> (n, api_err errTxNotFound ''dxCancelOrder'' [])
     | Some cur \<Rightarrow> if stateOrdinal (o_Status cur) > 6 then (n, api_err errInvalidState ''dxCancelOrder'' [])
       else (case sendCancelTransaction e idHex (ucast crRpcRequest) n of
           (n', False) \<Rightarrow> (n', Inl (ApiErr (cancel_error e etxt idHex n)))
         | (n, True) \<Rightarrow>
           let n = upd_order idHex (\<lambda>stored. stored\<lparr>o_Status := ''canceled'', o_Updated := e_now e\<rparr>) n;
               n = dropTakeRetry idHex n;
               n = enqueueRefund e idHex False n
           in (persist e n, Inr ())))"

definition CancelOrder :: "'k Env \<Rightarrow> string \<Rightarrow> string \<Rightarrow> Node \<Rightarrow> Node \<times> Order api" where
  "CancelOrder e etxt idHex n = (
     if \<not> e_connected e then (n, api_err errNoServiceNode ''dxCancelOrder'' [])
     else case Store_Get (n_store n) idHex of None \<Rightarrow> (n, api_err errTxNotFound ''dxCancelOrder'' [])
       | Some ord \<Rightarrow> if \<not> o_Mine ord then (n, api_err errTxNotFound ''dxCancelOrder'' [])
         else if e_connectors e (o_FromCurrency ord) = None then (n, api_err errNoSession ''dxCancelOrder'' [])
         else case commitCancel e etxt idHex n of
             (n, Inl er) \<Rightarrow> (n, Inl er)
           | (n, Inr _) \<Rightarrow> (n, Inr (ord\<lparr>o_Status := ''canceled'', o_Updated := e_now e\<rparr>)))"

section \<open>Lemmas\<close>

lemma Store_Get_eq: "Store_Get s key = map_of (s_orders s) key"
  by (cases "map_of (s_orders s) key") (simp_all add: Store_Get_def)

lemma alist_update_same: "map_of xs k = Some v \<Longrightarrow> AList.update k v xs = xs"
  by (induction xs) (auto split: if_splits)

lemma alist_update_twice: "AList.update k v (AList.update k w xs) = AList.update k v xs"
  by (induction xs) auto

lemma persistNow_keeps:
  "n_store (fst (persistNow e n)) = n_store n" "n_sessions (fst (persistNow e n)) = n_sessions n" "n_heap (fst (persistNow e n)) = n_heap n"
  "n_packets (fst (persistNow e n)) = n_packets n" "n_tasks (fst (persistNow e n)) = n_tasks n" "live (fst (persistNow e n)) = live n"
  by (auto simp: persistNow_def Let_def live_def fun_eq_iff)

lemma persistNow_disk: "e_dataDir e \<Longrightarrow> snd (persistNow e n) \<Longrightarrow> n_disk (fst (persistNow e n)) = Some (snapshotSwaps n)"
  by (auto simp: persistNow_def Let_def snapshotSwaps_def live_def fun_eq_iff split: if_splits)

lemma live_sent [simp]: "live (n\<lparr>n_packets := xs\<rparr>) = live n"
  by (simp add: live_def fun_eq_iff)

lemma registerTakeRetry_keeps:
  "n_store (registerTakeRetry e k p n) = n_store n" "n_sessions (registerTakeRetry e k p n) = n_sessions n"
  "n_heap (registerTakeRetry e k p n) = n_heap n" "n_packets (registerTakeRetry e k p n) = n_packets n"
  "n_disk (registerTakeRetry e k p n) = n_disk n" "live (registerTakeRetry e k p n) = live n"
  by (auto simp: registerTakeRetry_def live_def fun_eq_iff split: option.splits)

lemma newTakerSession_keeps:
  "n_store (newTakerSession e ord a1 a2 priv pub n) = n_store n" "n_packets (newTakerSession e ord a1 a2 priv pub n) = n_packets n"
  "n_sessions (newTakerSession e ord a1 a2 priv pub n) = (n_sessions n)(orderKey (o_ID ord) \<mapsto> n_next n)"
  by (simp_all add: newTakerSession_def install_def sessionKey_def orderKey_def zeroSession_def)

lemma newTakerSession_live:
  "live (newTakerSession e ord (tp_FromAddress p) (tp_ToAddress p) priv pub n) (orderKey (o_ID ord)) = Some (taker_session e p priv pub ord)"
  by (simp add: newTakerSession_def install_def live_def sessionKey_def orderKey_def zeroSession_def taker_session_def)

lemma taken_store:
  assumes "map_of (s_orders (n_store n)) key = Some ord"
  shows "n_store (release_reserve key (upd_order key f n))
     = (n_store n)\<lparr>s_orders := AList.update key (f ord) (s_orders (n_store n)), s_reserved := AList.delete key (s_reserved (n_store n))\<rparr>"
  using assms by (simp add: release_reserve_def upd_order_def Update_def ReleaseReserve_def)

lemma revertTake_store:
  assumes "s_orders (n_store n) = AList.update key cur os" and "map_of os key = Some prev"
  shows "s_orders (n_store (revertTake e key prev n)) = os" "s_history (n_store (revertTake e key prev n)) = s_history (n_store n)"
    "n_packets (revertTake e key prev n) = n_packets n" "n_sessions (revertTake e key prev n) = (n_sessions n)(key := None)"
  using assms
  by (simp_all add: revertTake_def persistNow_keeps drop_session_def upd_order_def Update_def AList.update_conv' alist_update_twice alist_update_same)

text \<open>The node with the order marked and the session open, before it is saved.\<close>

definition taking :: "'k Env \<Rightarrow> string \<Rightarrow> TakeOrderParams \<Rightarrow> bytes \<Rightarrow> bytes \<Rightarrow> UtxoEntry list \<Rightarrow> Utxo list \<Rightarrow> Utxo list \<Rightarrow> Order \<Rightarrow> Node \<Rightarrow> Node" where
  "taking e key p priv pub proofs used fee ord n =
     newTakerSession e (mark_taken (e_now e) (hexEncode pub) p proofs used fee ord) (tp_FromAddress p) (tp_ToAddress p) priv pub
       (release_reserve key (upd_order key (mark_taken (e_now e) (hexEncode pub) p proofs used fee) n))"

lemma mark_taken_keeps:
  "o_ID (mark_taken now mk p proofs used fee ord) = o_ID ord" "o_HubAddress (mark_taken now mk p proofs used fee ord) = o_HubAddress ord"
  "taker_session e p priv pub (mark_taken now mk p proofs used fee ord) = taker_session e p priv pub ord"
  by (simp_all add: mark_taken_def taker_session_def)

lemma marked_order:
  assumes "Store_Get (n_store n) key = Some ord"
  shows "Store_Get (n_store (release_reserve key (upd_order key f n))) key = Some (f ord)"
  using assms by (simp add: Store_Get_eq taken_store AList.update_conv')

lemma taking_keeps:
  assumes "Store_Get (n_store n) key = Some ord" and "orderKey (o_ID ord) = key"
  shows "s_orders (n_store (taking e key p priv pub proofs used fee ord n))
      = AList.update key (mark_taken (e_now e) (hexEncode pub) p proofs used fee ord) (s_orders (n_store n))"
    "s_history (n_store (taking e key p priv pub proofs used fee ord n)) = s_history (n_store n)"
    "s_reserved (n_store (taking e key p priv pub proofs used fee ord n)) = AList.delete key (s_reserved (n_store n))"
    "n_packets (taking e key p priv pub proofs used fee ord n) = n_packets n"
    "n_sessions (taking e key p priv pub proofs used fee ord n) = (n_sessions n)(key \<mapsto> n_next n)"
    "live (taking e key p priv pub proofs used fee ord n) key = Some (taker_session e p priv pub ord)"
  using assms taken_store [of n key ord] newTakerSession_live [of e "mark_taken (e_now e) (hexEncode pub) p proofs used fee ord" p priv pub]
  by (simp_all add: taking_def newTakerSession_keeps mark_taken_keeps Store_Get_eq) (simp_all add: release_reserve_def upd_order_def)

lemma commitTake_eq:
  assumes "Store_Get (n_store n) key = Some ord"
  shows "commitTake e dtxt wtxt key p pkt priv pub proofs used fee n =
    (let (n, ok) = persistNow e (taking e key p priv pub proofs used fee ord n) in
     if \<not> ok then (revertTake e key ord n, api_err errUnknown ''dxTakeOrder'' dtxt)
     else if e_writeErr e then (revertTake e key ord n, api_err errUnknown ''dxTakeOrder'' wtxt)
     else let n = registerTakeRetry e key p (n\<lparr>n_packets := n_packets n @ [(o_HubAddress ord, p_Command pkt, p_Body pkt)]\<rparr>)
       in (n, Inr (Store_Get (n_store n) key)))"
  using assms marked_order [OF assms, of "mark_taken (e_now e) (hexEncode pub) p proofs used fee"]
  by (simp add: commitTake_def taking_def mark_taken_keeps Let_def split: prod.split)

end
