(* ===== verification/SwapSpec.thy ===== *)
theory SwapSpec
  imports "HOL-Library.Multiset" Main
begin

text \<open>
  What the swap engine promises, without its details: sessions with a role, a state and a guard,
  a table that names the live ones, and a bag of outstanding jobs. A job is posted only for a
  session whose guard is down, its result moves the session to the state the job stands for, and a
  result for a session that left the table is dropped. A guard may also be given up by a timeout,
  at any moment; a run records for which sessions this happened while a job was still outstanding.
  The roles, the states and the kinds of jobs are parameters; the laws that make the promise are
  those of the locale below.
\<close>

record ('r, 'st) cell =
  c_key :: string
  c_role :: 'r
  c_st :: 'st
  c_busy :: bool

record ('r, 'st, 'k) board =
  b_cell :: "nat \<Rightarrow> ('r, 'st) cell"
  b_next :: nat
  b_sess :: "string \<rightharpoonup> nat"
  b_out :: "(nat \<times> 'k) multiset"

definition b_alive :: "('r, 'st, 'k) board \<Rightarrow> nat \<Rightarrow> bool" where
  "b_alive b p \<longleftrightarrow> b_sess b (c_key (b_cell b p)) = Some p"

definition b_set :: "nat \<Rightarrow> (('r, 'st) cell \<Rightarrow> ('r, 'st) cell) \<Rightarrow> ('r, 'st, 'k) board \<Rightarrow> ('r, 'st, 'k) board" where
  "b_set p f b = b\<lparr>b_cell := (b_cell b)(p := f (b_cell b p))\<rparr>"

inductive board_step :: "('k \<Rightarrow> 'r \<Rightarrow> 'st \<Rightarrow> bool) \<Rightarrow> ('k \<Rightarrow> 'st) \<Rightarrow> ('r, 'st :: linorder, 'k) board \<Rightarrow> ('r, 'st, 'k) board \<Rightarrow> bool"
  for may :: "'k \<Rightarrow> 'r \<Rightarrow> 'st \<Rightarrow> bool" and goal :: "'k \<Rightarrow> 'st" where
  advance: "b_alive b p \<Longrightarrow> \<not> c_busy (b_cell b p) \<Longrightarrow> c_st (b_cell b p) \<le> st
    \<Longrightarrow> board_step may goal b (b_set p (\<lambda>c. c\<lparr>c_st := st\<rparr>) b)"
| post: "b_alive b p \<Longrightarrow> \<not> c_busy (b_cell b p) \<Longrightarrow> may k (c_role (b_cell b p)) (c_st (b_cell b p))
    \<Longrightarrow> board_step may goal b ((b_set p (\<lambda>c. c\<lparr>c_busy := True\<rparr>) b)\<lparr>b_out := add_mset (p, k) (b_out b)\<rparr>)"
| failed: "b_alive b p \<Longrightarrow> b_out b = add_mset (p, k) out
    \<Longrightarrow> board_step may goal b ((b_set p (\<lambda>c. c\<lparr>c_busy := False\<rparr>) b)\<lparr>b_out := out\<rparr>)"
| finished: "b_alive b p \<Longrightarrow> b_out b = add_mset (p, k) out
    \<Longrightarrow> board_step may goal b ((b_set p (\<lambda>c. c\<lparr>c_busy := False, c_st := goal k\<rparr>) b)\<lparr>b_out := out\<rparr>)"
| ghost: "\<not> b_alive b p \<Longrightarrow> b_out b = add_mset (p, k) out \<Longrightarrow> board_step may goal b (b\<lparr>b_out := out\<rparr>)"
| lost: "b_out b = add_mset (p, k) out \<Longrightarrow> board_step may goal b (b\<lparr>b_out := out\<rparr>)"
| prune: "m \<subseteq>\<^sub>m b_sess b \<Longrightarrow> board_step may goal b (b\<lparr>b_sess := m\<rparr>)"
| install: "\<not> c_busy c \<Longrightarrow> board_step may goal b (b\<lparr>b_cell := (b_cell b)(b_next b := c), b_next := Suc (b_next b),
      b_sess := (b_sess b)(c_key c \<mapsto> b_next b)\<rparr>)"

definition b_jobs :: "('r, 'st, 'k) board \<Rightarrow> nat \<Rightarrow> (nat \<times> 'k) multiset" where
  "b_jobs b p = {#pk \<in># b_out b. fst pk = p#}"

definition b_release :: "nat \<Rightarrow> ('r, 'st, 'k) board \<Rightarrow> ('r, 'st, 'k) board" where
  "b_release p b = b_set p (\<lambda>c. c\<lparr>c_busy := False\<rparr>) b"

text \<open>
  A run of the board. Its label counts, per session, the timeouts that came while a job of the
  session was outstanding; the timeout itself has no condition.
\<close>

inductive board_run :: "('k \<Rightarrow> 'r \<Rightarrow> 'st \<Rightarrow> bool) \<Rightarrow> ('k \<Rightarrow> 'st) \<Rightarrow> nat multiset \<Rightarrow> ('r, 'st :: linorder, 'k) board \<Rightarrow> ('r, 'st, 'k) board \<Rightarrow> bool"
  for may :: "'k \<Rightarrow> 'r \<Rightarrow> 'st \<Rightarrow> bool" and goal :: "'k \<Rightarrow> 'st" where
  stay: "board_run may goal {#} b b"
| move: "board_run may goal late a b \<Longrightarrow> board_step may goal b c \<Longrightarrow> board_run may goal late a c"
| timeout: "board_run may goal late a b \<Longrightarrow> b_alive b p
    \<Longrightarrow> board_run may goal (if b_jobs b p = {#} then late else add_mset p late) a (b_release p b)"

definition room :: "bool \<Rightarrow> nat multiset \<Rightarrow> nat \<Rightarrow> nat" where
  "room busy late p = (if busy then 1 else 0) + count late p"

text \<open>
  The invariant: the table names sessions by their own key; a live session has no more outstanding
  jobs than its guard and the premature timeouts account for; every job fits the role of its
  session, and, without a premature timeout, its state.
\<close>

definition board_inv :: "('k \<Rightarrow> 'r \<Rightarrow> 'st \<Rightarrow> bool) \<Rightarrow> nat multiset \<Rightarrow> ('r, 'st, 'k) board \<Rightarrow> bool" where
  "board_inv may late b \<longleftrightarrow> (\<forall>key p. b_sess b key = Some p \<longrightarrow> p < b_next b \<and> c_key (b_cell b p) = key)
     \<and> (\<forall>pk \<in># b_out b. fst pk < b_next b)
     \<and> (\<forall>p. b_alive b p \<longrightarrow> size (b_jobs b p) \<le> room (c_busy (b_cell b p)) late p)
     \<and> (\<forall>p k. b_alive b p \<longrightarrow> (p, k) \<in># b_out b
          \<longrightarrow> (\<exists>st. may k (c_role (b_cell b p)) st) \<and> (p \<notin># late \<longrightarrow> may k (c_role (b_cell b p)) (c_st (b_cell b p))))"

locale job_board =
  fixes may :: "'k \<Rightarrow> 'r \<Rightarrow> 'st :: linorder \<Rightarrow> bool" and goal :: "'k \<Rightarrow> 'st" and floor_of :: "'r \<Rightarrow> 'st"
  assumes may_goal: "may k r st \<Longrightarrow> st \<le> goal k"
    and may_floor: "may k r st \<Longrightarrow> floor_of r \<le> goal k"
begin

lemma room_simps [simp]: "room False late p = count late p" "room True late p = Suc (count late p)"
  "room busy (add_mset q late) p = (if q = p then Suc (room busy late p) else room busy late p)"
  by (simp_all add: room_def)

lemma room_bounds: "count late p \<le> room busy late p" "room busy late p \<le> Suc (count late p)"
  by (simp_all add: room_def)

lemma jobs_empty: "b_jobs b p = {#} \<longleftrightarrow> (\<forall>k. (p, k) \<notin># b_out b)"
  by (auto simp: b_jobs_def filter_mset_eq_conv)

lemma invI:
  assumes "\<And>key p. b_sess b key = Some p \<Longrightarrow> p < b_next b \<and> c_key (b_cell b p) = key"
    and "\<And>p k. (p, k) \<in># b_out b \<Longrightarrow> p < b_next b"
    and "\<And>p. b_alive b p \<Longrightarrow> size (b_jobs b p) \<le> room (c_busy (b_cell b p)) late p"
    and "\<And>p k. b_alive b p \<Longrightarrow> (p, k) \<in># b_out b \<Longrightarrow> (\<exists>st. may k (c_role (b_cell b p)) st)
          \<and> (p \<notin># late \<longrightarrow> may k (c_role (b_cell b p)) (c_st (b_cell b p)))"
  shows "board_inv may late b"
  using assms by (auto simp: board_inv_def)

lemma invD:
  assumes "board_inv may late b"
  shows "b_sess b key = Some p \<Longrightarrow> p < b_next b \<and> c_key (b_cell b p) = key"
    and "(p, k) \<in># b_out b \<Longrightarrow> p < b_next b"
    and "b_alive b p \<Longrightarrow> size (b_jobs b p) \<le> room (c_busy (b_cell b p)) late p"
    and "b_alive b p \<Longrightarrow> (p, k) \<in># b_out b \<Longrightarrow> \<exists>st. may k (c_role (b_cell b p)) st"
    and "b_alive b p \<Longrightarrow> (p, k) \<in># b_out b \<Longrightarrow> p \<notin># late \<Longrightarrow> may k (c_role (b_cell b p)) (c_st (b_cell b p))"
  using assms by (auto simp: board_inv_def)

lemma idle_free:
  assumes "board_inv may late b" and "b_alive b p" and "\<not> c_busy (b_cell b p)" and "p \<notin># late"
  shows "(p, k) \<notin># b_out b"
proof -
  have "b_jobs b p = {#}"
    using invD(3) [OF assms(1,2)] assms(3,4) by (simp add: not_in_iff)
  thus ?thesis
    by (simp add: jobs_empty)
qed

lemma b_set_simps [simp]:
  "b_sess (b_set p f b) = b_sess b" "b_next (b_set p f b) = b_next b" "b_out (b_set p f b) = b_out b"
  "b_cell (b_set p f b) q = (if q = p then f (b_cell b p) else b_cell b q)"
  by (simp_all add: b_set_def)

lemma alive_set [simp]:
  assumes "\<And>c. c_key (f c) = c_key c"
  shows "b_alive (b_set p f b) q \<longleftrightarrow> b_alive b q"
  using assms by (simp add: b_alive_def)

lemma jobs_update [simp]: "b_jobs (b\<lparr>b_out := out\<rparr>) q = {#pk \<in># out. fst pk = q#}"
  by (simp add: b_jobs_def)

lemma alive_out [simp]: "b_alive (b\<lparr>b_out := out\<rparr>) q \<longleftrightarrow> b_alive b q"
  by (simp add: b_alive_def)

lemma jobs_set [simp]: "b_jobs (b_set p f b) q = b_jobs b q"
  by (simp add: b_jobs_def)

lemma jobs_out:
  assumes "b_out b = add_mset (p, k) out"
  shows "b_jobs b q = (if q = p then add_mset (p, k) ({#pk \<in># out. fst pk = q#}) else {#pk \<in># out. fst pk = q#})"
  by (simp add: b_jobs_def assms)

text \<open>A job leaves the bag: what is left of the invariant, and of the session's jobs.\<close>

lemma drop_out:
  assumes inv: "board_inv may late b" and out: "b_out b = add_mset (p, k) out"
  shows "(q, j) \<in># out \<Longrightarrow> q < b_next b"
    and "b_alive b q \<Longrightarrow> (q, j) \<in># out \<Longrightarrow> (\<exists>st. may j (c_role (b_cell b q)) st)
      \<and> (q \<notin># late \<longrightarrow> may j (c_role (b_cell b q)) (c_st (b_cell b q)))"
    and "b_alive b q \<Longrightarrow> size {#pk \<in># out. fst pk = q#} \<le> room (c_busy (b_cell b q)) late q"
    and "b_alive b p \<Longrightarrow> size {#pk \<in># out. fst pk = p#} \<le> count late p"
    and "b_alive b p \<Longrightarrow> (p, j) \<in># out \<Longrightarrow> p \<in># late"
proof -
  have sub: "(q, j) \<in># out \<Longrightarrow> (q, j) \<in># b_out b" for q j
    by (simp add: out)
  show "(q, j) \<in># out \<Longrightarrow> q < b_next b"
    using invD(2) [OF inv] sub by blast
  show "b_alive b q \<Longrightarrow> (q, j) \<in># out \<Longrightarrow> (\<exists>st. may j (c_role (b_cell b q)) st)
      \<and> (q \<notin># late \<longrightarrow> may j (c_role (b_cell b q)) (c_st (b_cell b q)))"
    using invD(4,5) [OF inv] sub by blast
  show "size {#pk \<in># out. fst pk = q#} \<le> room (c_busy (b_cell b q)) late q" if "b_alive b q"
    using invD(3) [OF inv that] jobs_out [OF out, of q] by (auto split: if_splits)
  show left: "size {#pk \<in># out. fst pk = p#} \<le> count late p" if "b_alive b p"
    using invD(3) [OF inv that] jobs_out [OF out, of p] by (cases "c_busy (b_cell b p)") simp_all
  show "p \<in># late" if "b_alive b p" "(p, j) \<in># out"
  proof -
    have "0 < size {#pk \<in># out. fst pk = p#}"
      using that(2) by (auto simp: nonempty_has_size [symmetric] filter_mset_eq_conv intro!: bexI [of _ "(p, j)"])
    hence "0 < count late p"
      using left [OF that(1)] by (rule less_le_trans)
    thus ?thesis
      by simp
  qed
qed

lemma step_inv:
  assumes "board_step may goal b b'" and inv: "board_inv may late b"
  shows "board_inv may late b'"
  using assms(1)
proof cases
  case (advance p st)
  note free = idle_free [OF inv advance(2,3)]
  have "size (b_jobs b p) \<le> count late p"
    using invD(3) [OF inv advance(2)] advance(3) by simp
  thus ?thesis
    unfolding advance(1) by (intro invI) (use advance free invD [OF inv] in \<open>auto split: if_splits\<close>)
next
  case (post p k)
  note free = idle_free [OF inv post(2,3)]
  have jobs: "b_jobs b' q = (if q = p then add_mset (p, k) (b_jobs b q) else b_jobs b q)" for q
    unfolding post(1) by (simp add: b_jobs_def)
  have "size (b_jobs b p) \<le> count late p"
    using invD(3) [OF inv post(2)] post(3) by simp
  moreover have "p < b_next b"
    using post(2) invD(1) [OF inv] by (auto simp: b_alive_def)
  ultimately show ?thesis
    by (intro invI) (use post free jobs invD [OF inv] in \<open>auto split: if_splits\<close>)
next
  case (failed p k out)
  note fewer = drop_out [OF inv failed(3)]
  show ?thesis
    unfolding failed(1) by (rule invI) (use failed(2) fewer invD(1) [OF inv] in \<open>auto split: if_splits\<close>)
next
  case (finished p k out)
  note fewer = drop_out [OF inv finished(3)]
  show ?thesis
    unfolding finished(1) by (rule invI) (use finished(2) fewer invD(1) [OF inv] in \<open>fastforce split: if_splits\<close>)+
next
  case (ghost p k out)
  note fewer = drop_out [OF inv ghost(3)]
  show ?thesis
    unfolding ghost(1) by (rule invI) (use fewer invD(1) [OF inv] in \<open>auto split: if_splits\<close>)
next
  case (lost p k out)
  note fewer = drop_out [OF inv lost(2)]
  show ?thesis
    unfolding lost(1) by (rule invI) (use fewer invD(1) [OF inv] in \<open>auto split: if_splits\<close>)
next
  case (prune m)
  have sub: "m key = Some p \<Longrightarrow> b_sess b key = Some p" for key p
    using prune by (auto simp: map_le_def dom_def)
  have jobs: "b_jobs b' q = b_jobs b q" and alive: "b_alive b' q \<Longrightarrow> b_alive b q" for q
    unfolding prune(1) using sub by (auto simp: b_jobs_def b_alive_def)
  show ?thesis
    by (rule invI) (use sub jobs alive invD [OF inv] in \<open>fastforce simp: prune(1)\<close>)+
next
  case (install c)
  have alive: "b_alive b' q \<Longrightarrow> q \<noteq> b_next b \<Longrightarrow> b_alive b q" and jobs: "b_jobs b' q = b_jobs b q" for q
    unfolding install(1) by (auto simp: b_alive_def b_jobs_def split: if_splits)
  have none: "(b_next b, k) \<notin># b_out b" for k
    using invD(2) [OF inv] by blast
  hence "b_jobs b (b_next b) = {#}"
    by (simp add: jobs_empty)
  hence room: "size (b_jobs b' q) \<le> room (c_busy (b_cell b' q)) late q" if "b_alive b' q" for q
    using alive [OF that] invD(3) [OF inv, of q] unfolding jobs by (cases "q = b_next b") (auto simp: install(1))
  have "(\<exists>st. may k (c_role (b_cell b' q)) st) \<and> (q \<notin># late \<longrightarrow> may k (c_role (b_cell b' q)) (c_st (b_cell b' q)))"
    if "b_alive b' q" "(q, k) \<in># b_out b'" for q k
    using that alive [of q] none invD(4,5) [OF inv, of q k] by (cases "q = b_next b") (auto simp: install(1))
  thus ?thesis
    by (intro invI room) (use invD(1,2) [OF inv] in \<open>fastforce simp: install(1) split: if_splits\<close>)+
qed

lemma release_inv:
  assumes inv: "board_inv may late b" and "b_alive b p"
  shows "board_inv may (if b_jobs b p = {#} then late else add_mset p late) (b_release p b)"
proof -
  have none: "(p, k) \<notin># b_out b" if "b_jobs b p = {#}" for k
    using that by (simp add: jobs_empty)
  have "size (b_jobs b p) \<le> count late p + 1"
    using invD(3) [OF assms] by (cases "c_busy (b_cell b p)") simp_all
  thus ?thesis
    unfolding b_release_def by (intro invI) (use none invD [OF inv] in \<open>auto split: if_splits\<close>)
qed

lemma step_keeps: "board_step may goal b b' \<Longrightarrow> p < b_next b \<Longrightarrow> c_role (b_cell b' p) = c_role (b_cell b p) \<and> p < b_next b'"
  by (induction rule: board_step.induct) auto

text \<open>One step of a session: forward, or, after a premature timeout, back to the floor of its role.\<close>

lemma step_mono:
  assumes "board_step may goal b b'" and inv: "board_inv may late b" and "p < b_next b"
  shows "c_st (b_cell b p) \<le> c_st (b_cell b' p) \<or> (p \<in># late \<and> floor_of (c_role (b_cell b p)) \<le> c_st (b_cell b' p))"
  using assms(1)
proof cases
  case (finished q k out)
  hence "\<exists>st. may k (c_role (b_cell b q)) st" "q \<notin># late \<Longrightarrow> may k (c_role (b_cell b q)) (c_st (b_cell b q))"
    using invD(4,5) [OF inv, of q k] by simp_all
  thus ?thesis
    using finished may_goal may_floor by (cases "q \<in># late") auto
qed (use assms(3) in auto)

lemma steps_inv:
  assumes "(board_step may goal)\<^sup>*\<^sup>* b b'" and "board_inv may late b"
  shows "board_inv may late b'"
  using assms by induction (auto intro: step_inv)

lemma run_steps: "(board_step may goal)\<^sup>*\<^sup>* b c \<Longrightarrow> board_run may goal late a b \<Longrightarrow> board_run may goal late a c"
  by (induction rule: rtranclp_induct) (auto intro: board_run.move)

lemma run_append:
  assumes "board_run may goal late2 b c" and "board_run may goal late1 a b"
  shows "board_run may goal (late1 + late2) a c"
  using assms
proof (induction rule: board_run.induct)
  case (timeout late2 b c p)
  show ?case
    using board_run.timeout [OF timeout.IH [OF timeout.prems] timeout.hyps(2)] by (simp split: if_splits)
qed (auto intro: board_run.move)

lemma run_inv:
  assumes "board_run may goal late2 a b" and "board_inv may late1 a"
  shows "board_inv may (late1 + late2) b"
  using assms
proof (induction rule: board_run.induct)
  case (timeout late2 a b p)
  show ?case
    using release_inv [OF timeout.IH [OF timeout.prems] timeout.hyps(2)] by (simp split: if_splits)
qed (auto intro: step_inv)

lemma run_keeps: "board_run may goal late a b \<Longrightarrow> p < b_next a \<Longrightarrow> c_role (b_cell b p) = c_role (b_cell a p) \<and> p < b_next b"
  by (induction rule: board_run.induct) (auto simp: b_release_def dest: step_keeps)

lemma run_mono:
  assumes "board_run may goal late2 a b" and "board_inv may late1 a" and "p < b_next a"
  shows "c_st (b_cell a p) \<le> c_st (b_cell b p) \<or> (p \<in># late1 + late2 \<and> floor_of (c_role (b_cell a p)) \<le> c_st (b_cell b p))"
  using assms
proof (induction rule: board_run.induct)
  case (move late2 a b c)
  have "p < b_next b" "c_role (b_cell b p) = c_role (b_cell a p)"
    using run_keeps [OF move.hyps(1) move.prems(2)] by simp_all
  thus ?case
    using step_mono [OF move.hyps(2) run_inv [OF move.hyps(1) move.prems(1)]] move.IH [OF move.prems] by fastforce
qed (auto simp: b_release_def)

lemma start_inv:
  assumes "\<And>key p. b_sess b key = Some p \<Longrightarrow> p < b_next b \<and> c_key (b_cell b p) = key" and "b_out b = {#}"
  shows "board_inv may {#} b"
  by (rule invI) (use assms in \<open>simp_all add: b_jobs_def\<close>)

end

end
