(* ===== verification/SwapView.thy ===== *)
theory SwapView
  imports Engine OrderCommit SwapSpec
begin

text \<open>
  The abstraction of a node to the board of \<open>SwapSpec\<close>, and the frame, a locale: which operations
  leave an abstraction as it is. In the board the key, role, state and guard of a session are kept;
  the rest of the session, the orders, the files and the watch tables are forgotten; of the tasks
  only the session and the kind of progress remain, and refunds count as no job.
\<close>

datatype job = jDepositA | jDepositB | jClaim

definition may :: "job \<Rightarrow> bool \<Rightarrow> clientState \<Rightarrow> bool" where
  "may j isMaker st = (case j of jDepositA \<Rightarrow> isMaker \<and> st < csCreatedA | jDepositB \<Rightarrow> \<not> isMaker \<and> st < csCreatedB | jClaim \<Rightarrow> True)"

definition goal :: "job \<Rightarrow> clientState" where
  "goal j = (case j of jDepositA \<Rightarrow> csCreatedA | jDepositB \<Rightarrow> csCreatedB | jClaim \<Rightarrow> csFinished)"

definition cell_of :: "SwapSession \<Rightarrow> (bool, clientState) cell" where
  "cell_of s = \<lparr>c_key = sessionKey s, c_role = ss_isMaker s, c_st = ss_state s, c_busy = ss_await s\<rparr>"

definition cont_job :: "bcont \<Rightarrow> nat \<times> job" where
  "cont_job k = (case k of ContA p _ \<Rightarrow> (p, jDepositA) | ContB p _ \<Rightarrow> (p, jDepositB) | ContClaimA p _ \<Rightarrow> (p, jClaim)
     | ContClaimB p _ \<Rightarrow> (p, jClaim))"

definition task_job :: "workTask \<Rightarrow> (nat \<times> job) option" where
  "task_job t = (case t of BuildA p _ \<Rightarrow> Some (p, jDepositA) | BuildB p _ \<Rightarrow> Some (p, jDepositB)
     | ClaimA p _ \<Rightarrow> Some (p, jClaim) | ClaimB p _ _ \<Rightarrow> Some (p, jClaim)
     | Broadcast _ _ _ _ _ k \<Rightarrow> Some (cont_job k) | _ \<Rightarrow> None)"

definition jobs :: "workTask list \<Rightarrow> (nat \<times> job) multiset" where
  "jobs ts = mset (List.map_filter task_job ts)"

definition view :: "Node \<Rightarrow> (bool, clientState, job) board" where
  "view n = \<lparr>b_cell = (\<lambda>p. cell_of (n_heap n p)), b_next = n_next n, b_sess = n_sessions n, b_out = jobs (n_tasks n)\<rparr>"

lemma cs_ord_le [simp]: "cs_ord st \<le> 9"
  by (cases st) simp_all

text \<open>Where a late result of a session may put it: the state its own deposit stands for.\<close>

definition deposit_state :: "bool \<Rightarrow> clientState" where
  "deposit_state isMaker = (if isMaker then csCreatedA else csCreatedB)"

interpretation swap: job_board may goal deposit_state
  by unfold_locales (auto simp: may_def goal_def deposit_state_def cs_less split: job.splits)

named_theorems frame

lemma jobs_simps [simp]:
  "jobs [] = {#}" "jobs (ts @ us) = jobs ts + jobs us"
  "jobs (t # ts) = (case task_job t of None \<Rightarrow> jobs ts | Some pj \<Rightarrow> add_mset pj (jobs ts))"
  by (auto simp: jobs_def List.map_filter_def split: option.splits)

lemma task_job_simps [simp]:
  "task_job (BuildA p c) = Some (p, jDepositA)" "task_job (BuildB p c) = Some (p, jDepositB)"
  "task_job (ClaimA p c) = Some (p, jClaim)" "task_job (ClaimB p c i) = Some (p, jClaim)"
  "task_job (Broadcast i conn cur h kd k) = Some (cont_job k)"
  "task_job (Refund a1 a2 a3 a4 a5 a6 a7 a8 a9 a10) = None"
  "task_job (WatchDeposit b1 b2 b3 b4 b5 b6 b7 b8 b9) = None" "task_job (OwnWatch q1 q2 q3) = None"
  "task_job (PollConfs ps) = None" "task_job (Rebroadcast rs) = None"
  "task_job (VerifyOrder vc coin ord) = None"
  by (simp_all add: task_job_def)

lemma cont_job_simps [simp]:
  "cont_job (ContA p out) = (p, jDepositA)" "cont_job (ContB p cb) = (p, jDepositB)"
  "cont_job (ContClaimA p co) = (p, jClaim)" "cont_job (ContClaimB p co) = (p, jClaim)"
  by (simp_all add: cont_job_def)

lemma view_simps [simp]:
  "b_cell (view n) p = cell_of (n_heap n p)" "b_next (view n) = n_next n" "b_sess (view n) = n_sessions n"
  "b_out (view n) = jobs (n_tasks n)" "c_key (cell_of s) = sessionKey s" "c_role (cell_of s) = ss_isMaker s"
  "c_st (cell_of s) = ss_state s" "c_busy (cell_of s) = ss_await s"
  by (simp_all add: view_def cell_of_def)

lemma view_alive [simp]: "b_alive (view n) p \<longleftrightarrow> sessionAlive n p"
  by (simp add: b_alive_def sessionAlive_def)

section \<open>What most operations leave alone\<close>

text \<open>
  Most of what the engine does is bookkeeping. The locale states it once: an abstraction \<open>V\<close> of the
  node that reads only the table of sessions, the tasks of a session, the silent hubs and the core of
  a session is left alone by every operation below. It is used for the board, and for the silence of
  hubs.
\<close>

definition sess_core :: "SwapSession \<Rightarrow> bytes \<times> bool \<times> clientState \<times> bool \<times> string \<times> string \<times> bytes \<times> u64" where
  "sess_core s = (ss_id s, ss_isMaker s, ss_state s, ss_await s, ss_srcCur s, ss_ourSourceAddr s, ss_privKey s, ss_holdApplySentAt s)"

lemma sess_core_frame [simp]:
  "sess_core (s\<lparr>ss_dstCur := v1\<rparr>) = sess_core s"
  "sess_core (s\<lparr>ss_srcAmt := v2\<rparr>) = sess_core s"
  "sess_core (s\<lparr>ss_dstAmt := v3\<rparr>) = sess_core s"
  "sess_core (s\<lparr>ss_ourDestAddr := v5\<rparr>) = sess_core s"
  "sess_core (s\<lparr>ss_theirPub := v6\<rparr>) = sess_core s"
  "sess_core (s\<lparr>ss_pubKey := v8\<rparr>) = sess_core s"
  "sess_core (s\<lparr>ss_secret := v9\<rparr>) = sess_core s"
  "sess_core (s\<lparr>ss_secretHash := v10\<rparr>) = sess_core s"
  "sess_core (s\<lparr>ss_ourLockTime := v11\<rparr>) = sess_core s"
  "sess_core (s\<lparr>ss_ourDepositTxID := v12\<rparr>) = sess_core s"
  "sess_core (s\<lparr>ss_refundHex := v13\<rparr>) = sess_core s"
  "sess_core (s\<lparr>ss_refundDone := v14\<rparr>) = sess_core s"
  "sess_core (s\<lparr>ss_secretHunt := v15\<rparr>) = sess_core s"
  "sess_core (s\<lparr>ss_huntSince := v16\<rparr>) = sess_core s"
  "sess_core (s\<lparr>ss_scanCursor := v17\<rparr>) = sess_core s"
  "sess_core (s\<lparr>ss_depositHex := v18\<rparr>) = sess_core s"
  "sess_core (s\<lparr>ss_claimHex := v19\<rparr>) = sess_core s"
  "sess_core (s\<lparr>ss_claimTxID := v20\<rparr>) = sess_core s"
  "sess_core (s\<lparr>ss_claimCur := v21\<rparr>) = sess_core s"
  "sess_core (s\<lparr>ss_theirDepositTxID := v22\<rparr>) = sess_core s"
  "sess_core (s\<lparr>ss_theirLockTime := v23\<rparr>) = sess_core s"
  "sess_core (s\<lparr>ss_theirSecretHash := v24\<rparr>) = sess_core s"
  "sess_core (s\<lparr>ss_theirPayTxID := v25\<rparr>) = sess_core s"
  "sess_core (s\<lparr>ss_claimRetryAt := v26\<rparr>) = sess_core s"
  "sess_core (s\<lparr>ss_claimRetries := v27\<rparr>) = sess_core s"
  "sess_core (s\<lparr>ss_depositRetryAt := v28\<rparr>) = sess_core s"
  "sess_core (s\<lparr>ss_depositRetries := v29\<rparr>) = sess_core s"
  "sess_core (s\<lparr>ss_notReadySince := v30\<rparr>) = sess_core s"
  "sess_core (s\<lparr>ss_notReadySeen := v31\<rparr>) = sess_core s"
  "sess_core (s\<lparr>ss_theirDepositVout := v32\<rparr>) = sess_core s"
  "sess_core (s\<lparr>ss_theirP2SHNative := v33\<rparr>) = sess_core s"
  "sess_core (s\<lparr>ss_theirOverpayment := v34\<rparr>) = sess_core s"
  "sess_core (s\<lparr>ss_hub := v35\<rparr>) = sess_core s"
  "sess_core (s\<lparr>ss_hubKey := v36\<rparr>) = sess_core s"
  "sess_core (s\<lparr>ss_awaitSince := v37\<rparr>) = sess_core s"
  "sess_core (s\<lparr>ss_vanishMisses := v38\<rparr>) = sess_core s"
  "sess_core (s\<lparr>ss_lastProgress := v39\<rparr>) = sess_core s"
  by (simp_all add: sess_core_def)

lemma case_const:
  "(case x of None \<Rightarrow> c | Some _ \<Rightarrow> c) = c" "(case y of Inl _ \<Rightarrow> c | Inr _ \<Rightarrow> c) = c"
  by (cases x; simp) (cases y; simp)

locale node_frame =
  fixes V :: "Node \<Rightarrow> 'v"
  assumes kept_fields: "V (n\<lparr>n_store := a1\<rparr>) = V n"
    "V (n\<lparr>n_tracked := a2\<rparr>) = V n"
    "V (n\<lparr>n_trackedSeq := a3\<rparr>) = V n"
    "V (n\<lparr>n_pendingRefunds := a4\<rparr>) = V n"
    "V (n\<lparr>n_refundAttempts := a5\<rparr>) = V n"
    "V (n\<lparr>n_refundRetryAt := a6\<rparr>) = V n"
    "V (n\<lparr>n_stallWarned := a7\<rparr>) = V n"
    "V (n\<lparr>n_takeRetries := a9\<rparr>) = V n"
    "V (n\<lparr>n_timers := a10\<rparr>) = V n"
    "V (n\<lparr>n_persistLatest := a11\<rparr>) = V n"
    "V (n\<lparr>n_disk := a12\<rparr>) = V n"
    "V (n\<lparr>n_persistFailures := a13\<rparr>) = V n"
    "V (n\<lparr>n_packets := a14\<rparr>) = V n"
    "V (n\<lparr>n_manual := a15\<rparr>) = V n"
    "V (n\<lparr>n_pendingWatch := a16\<rparr>) = V n"
    "V (n\<lparr>n_pendingOwnWatch := a17\<rparr>) = V n"
    "V (n\<lparr>n_ownWatchSeen := a18\<rparr>) = V n"
    "V (n\<lparr>n_rescanAttempts := a19\<rparr>) = V n"
    "V (n\<lparr>n_rescanRetryAt := a20\<rparr>) = V n"
    "V (n\<lparr>n_pendingConfirm := a21\<rparr>) = V n"
    "V (n\<lparr>n_pendingRebroadcast := a22\<rparr>) = V n"
    and kept_upd: "sess_core (f (n_heap n p)) = sess_core (n_heap n p) \<Longrightarrow> V (upd p f n) = V n"
    and kept_task: "task_job t = None \<Longrightarrow> V (n\<lparr>n_tasks := n_tasks n @ [t]\<rparr>) = V n"
begin

lemmas kept [frame] = kept_fields kept_upd

text \<open>The abstraction moves into the branches, which then agree.\<close>

lemmas kept_branch = Let_def case_prod_beta if_distrib [of V] option.case_distrib [of V] sum.case_distrib [of V]
  if_distrib [of fst] option.case_distrib [of fst] sum.case_distrib [of fst] case_const

lemma kept_enqueue [frame]: "task_job t = None \<Longrightarrow> V (fst (enqueue e t n)) = V n"
  by (simp add: enqueue_def kept_task)

lemma kept_upd_order [frame]: "V (upd_order key f n) = V n"
  by (simp add: upd_order_def frame)

lemma kept_setOrderStatus [frame]: "V (setOrderStatus e p st n) = V n"
  by (simp add: setOrderStatus_def frame)

lemma kept_persist [frame]: "V (persist e n) = V n"
  by (simp add: persist_def frame)

lemma kept_persistNow [frame]: "V (fst (persistNow e n)) = V n"
  by (simp add: persistNow_def Let_def frame)

lemma kept_send [frame]: "V (fst (send e d cmd body priv n)) = V n"
  by (simp add: send_def kept_branch frame cong: option.case_cong sum.case_cong if_cong)

lemma kept_recordBroadcast [frame]: "V (recordBroadcast e i kd cur txid h n) = V n"
  by (simp add: recordBroadcast_def frame)

lemma kept_clearDepositRetry [frame]: "V (clearDepositRetry p n) = V n"
  by (simp add: clearDepositRetry_def frame)

lemma kept_clearClaimRetry [frame]: "V (clearClaimRetry p n) = V n"
  by (simp add: clearClaimRetry_def frame)

lemma kept_scheduleDepositRetry [frame]: "V (scheduleDepositRetry e p n) = V n"
  by (simp add: scheduleDepositRetry_def kept_branch frame cong: option.case_cong sum.case_cong if_cong)

lemma kept_scheduleClaimRetry [frame]: "V (scheduleClaimRetry e p n) = V n"
  by (simp add: scheduleClaimRetry_def kept_branch frame cong: option.case_cong sum.case_cong if_cong)

lemma kept_scheduleNotReady [frame]: "V (fst (scheduleNotReady e p isClaim terr n)) = V n"
  by (simp add: scheduleNotReady_def kept_branch frame cong: option.case_cong sum.case_cong if_cong)

text \<open>Refunds, cancellation and the sweeps that move no session.\<close>

lemma kept_store_deposit [frame]: "V (store_deposit i out n) = V n"
  by (simp add: store_deposit_def frame)

lemma kept_clearRefundBackoff [frame]: "V (clearRefundBackoff i n) = V n"
  by (simp add: clearRefundBackoff_def frame)

lemma kept_recordRefundFailure [frame]: "V (recordRefundFailure e i n) = V n"
  by (simp add: recordRefundFailure_def kept_branch frame cong: option.case_cong sum.case_cong if_cong)

lemma kept_dropTakeRetry [frame]: "V (dropTakeRetry i n) = V n"
  by (simp add: dropTakeRetry_def frame)

lemma kept_scheduleTakeRetry [frame]: "V (scheduleTakeRetry e i n) = V n"
  by (simp add: scheduleTakeRetry_def arm_take_retry_def kept_branch frame split: option.splits)

lemma kept_refund_enqueue [frame]: "V (fst (refund_enqueue e i cur h lt ck dn n)) = V n"
  by (simp add: refund_enqueue_def kept_branch frame cong: option.case_cong sum.case_cong if_cong)

lemma kept_tryStoredRefund [frame]: "V (tryStoredRefund e i h lt cands manual n) = V n"
  by (induction cands arbitrary: n) (simp_all add: kept_branch frame cong: option.case_cong sum.case_cong if_cong)

lemma kept_postRefundTask [frame]: "V (postRefundTask e i cur h lt ck dn n) = V n"
  by (simp add: postRefundTask_def kept_branch frame split: refund_done.splits)

lemma kept_call_done [frame]: "V (call_done e i h lt dn txid err n) = V n"
  by (cases dn; cases err) (simp_all add: call_done_def frame)

lemma kept_enterSecretHunt [frame]: "V (enterSecretHunt e i n) = V n"
  by (simp add: enterSecretHunt_def kept_branch frame cong: option.case_cong sum.case_cong if_cong)

lemma kept_refund_failed [frame]: "V (refund_failed e i dn n) = V n"
  by (simp add: refund_failed_def kept_branch frame cong: option.case_cong sum.case_cong if_cong)

lemma kept_enqueueRefund [frame]: "V (enqueueRefund e i manual n) = V n"
  by (simp add: enqueueRefund_def kept_branch frame cong: option.case_cong sum.case_cong if_cong)

lemma kept_sendCancelTransaction [frame]: "V (fst (sendCancelTransaction e i reason n)) = V n"
  by (simp add: sendCancelTransaction_def kept_branch frame cong: option.case_cong sum.case_cong if_cong)

lemma kept_handleRemoteCancel [frame]: "V (handleRemoteCancel e pkt b n) = V n"
  by (simp add: handleRemoteCancel_def kept_branch frame cong: option.case_cong sum.case_cong if_cong)

lemma kept_handleRemoteReject [frame]: "V (handleRemoteReject e pkt b n) = V n"
  by (simp add: handleRemoteReject_def kept_branch frame cong: option.case_cong sum.case_cong if_cong)

lemma kept_sendSelfCancel [frame]: "V (sendSelfCancel e p reason n) = V n"
  by (simp add: sendSelfCancel_def kept_branch frame cong: option.case_cong sum.case_cong if_cong)

lemma kept_failSelfCancel [frame]: "V (fst (failSelfCancel e p terr n)) = V n"
  by (simp add: failSelfCancel_def frame split: task_err.splits)

lemma kept_deposit_failed [frame]: "V (deposit_failed e p terr n) = V n"
  by (simp add: deposit_failed_def kept_branch frame cong: option.case_cong sum.case_cong if_cong)

lemma kept_claim_failed [frame]: "V (claim_failed e p terr n) = V n"
  by (simp add: claim_failed_def kept_branch frame cong: option.case_cong sum.case_cong if_cong)

lemma kept_fold: "(\<And>x n. V (f x n) = V n) \<Longrightarrow> V (fold f xs n) = V n"
  by (induction xs arbitrary: n) simp_all

lemma kept_scanRefunds [frame]: "V (scanRefunds e keys n) = V n"
  unfolding scanRefunds_def by (rule kept_fold) (simp add: scan_one_def kept_branch frame cong: option.case_cong sum.case_cong if_cong)

lemma kept_stored_one: "V (fst (stored_one e ord nd)) = V (fst nd)"
  by (cases nd) (simp add: stored_one_def kept_branch frame cong: option.case_cong sum.case_cong if_cong)

lemma kept_scanStoredRefunds [frame]: "V (scanStoredRefunds e n) = V n"
proof -
  have "V (fst (fold (stored_one e) os nd)) = V (fst nd)" for os nd
    by (induction os arbitrary: nd) (simp_all add: kept_stored_one)
  thus ?thesis
    by (simp add: scanStoredRefunds_def kept_branch frame cong: option.case_cong sum.case_cong if_cong)
qed

lemma kept_watchStalledSessions [frame]: "V (watchStalledSessions e keys n) = V n"
  unfolding watchStalledSessions_def
  by (rule kept_fold) (simp add: stall_one_def kept_branch frame cong: option.case_cong sum.case_cong if_cong)

lemma kept_gcStaleMineOrders [frame]: "V (gcStaleMineOrders e txids n) = V n"
  unfolding gcStaleMineOrders_def by (rule kept_fold) (simp add: gc_one_def kept_branch frame cong: option.case_cong sum.case_cong if_cong)

lemma kept_reset_misses [frame]: "V (reset_misses p n) = V n"
  by (simp add: reset_misses_def frame)

lemma kept_postDepositWatchTask [frame]: "V (postDepositWatchTask e i n) = V n"
  by (simp add: postDepositWatchTask_def kept_branch frame cong: option.case_cong sum.case_cong if_cong)

lemma kept_watchCounterpartyDeposits [frame]: "V (watchCounterpartyDeposits e keys n) = V n"
  unfolding watchCounterpartyDeposits_def
  by (rule kept_fold) (simp add: watch_one_def kept_branch frame cong: option.case_cong sum.case_cong if_cong)

lemma kept_applyDepositWatch [frame]: "V (applyDepositWatch e i threshold v n) = V n"
  by (simp add: applyDepositWatch_def kept_branch frame cong: option.case_cong sum.case_cong if_cong)

lemma kept_postOwnWatchTask [frame]: "V (postOwnWatchTask e i n) = V n"
  by (simp add: postOwnWatchTask_def kept_branch frame cong: option.case_cong sum.case_cong if_cong)

lemma kept_watchOwnDepositSpends [frame]: "V (watchOwnDepositSpends e keys n) = V n"
  unfolding watchOwnDepositSpends_def
  by (rule kept_fold) (simp add: own_watch_one_def kept_branch frame cong: option.case_cong sum.case_cong if_cong)

lemma kept_clearRescanFailure [frame]: "V (clearRescanFailure i n) = V n"
  by (simp add: clearRescanFailure_def frame)

lemma kept_recordRescanFailure [frame]: "V (recordRescanFailure e i n) = V n"
  by (simp add: recordRescanFailure_def kept_branch frame)

lemma kept_own_steps [frame]: "V (own_hunt_cleared e p res n) = V n" "V (own_cursor_saved e p i res n) = V n"
  by (simp_all add: own_hunt_cleared_def own_cursor_saved_def kept_branch frame)

lemma kept_finalize_and_save [frame]: "V (finalize_and_save e txids changed n) = V n"
  by (simp add: finalize_and_save_def finalizeWatchEntries_def kept_branch frame)

lemma kept_poll [frame]: "V (pollBroadcastConfirmations e txids n) = V n"
  by (simp add: pollBroadcastConfirmations_def kept_branch frame)

lemma kept_applyPoll [frame]: "V (applyPoll e txids v n) = V n"
  by (simp add: applyPoll_def kept_branch frame cong: option.case_cong sum.case_cong if_cong)

lemma kept_rebroadcastUnconfirmed [frame]: "V (rebroadcastUnconfirmed e txids n) = V n"
  by (simp add: rebroadcastUnconfirmed_def kept_branch frame)

lemma kept_applyRebroadcast [frame]: "V (applyRebroadcast e v n) = V n"
  by (simp add: applyRebroadcast_def kept_branch frame cong: option.case_cong sum.case_cong if_cong)

lemma kept_pruneTracked [frame]: "V (pruneTracked txids n) = V n"
  by (simp add: pruneTracked_def kept_branch frame)

lemma kept_pruneTakeRetries [frame]: "V (pruneTakeRetries n) = V n"
  by (simp add: pruneTakeRetries_def frame)

lemma kept_book [frame]: "V (book ord n) = V n"
  by (simp add: book_def frame)

lemma kept_verifyAndBook [frame]: "V (verifyAndBook e ord n) = V n"
  by (simp add: verifyAndBook_def kept_branch frame cong: option.case_cong if_cong)

lemma kept_applyVerified [frame]: "V (applyVerified ord v n) = V n"
  by (simp add: applyVerified_def frame)

lemma kept_ingestPending [frame]: "V (ingestPending e c b snode n) = V n"
  by (simp add: ingestPending_def kept_branch frame)

lemma kept_pruneExpired [frame]: "V (pruneExpired e c n) = V n"
  by (simp add: pruneExpired_def frame)

lemma kept_used_coins_loop [frame]: "V (fst (used_coins_loop e conn i us n)) = V n"
  by (induction us arbitrary: n) (simp_all add: kept_branch frame cong: sum.case_cong if_cong)

lemma kept_orderUtxosStillValid [frame]: "V (fst (orderUtxosStillValid e ord n)) = V n"
  by (simp add: orderUtxosStillValid_def kept_branch frame cong: option.case_cong if_cong)

lemma kept_write_packet [frame]: "V (fst (write_packet wok pkt dest n)) = V n"
  by (simp add: write_packet_def frame)

lemma kept_order_units [frame]: "V (drop_order key n) = V n" "V (release_reserve key n) = V n"
  "V (registerTakeRetry e key tp n) = V n"
  by (simp_all add: drop_order_def release_reserve_def registerTakeRetry_def kept_branch frame cong: option.case_cong if_cong)

lemma kept_commitCancel [frame]: "V (fst (commitCancel e etxt idHex n)) = V n"
  by (simp add: commitCancel_def kept_branch frame cong: option.case_cong if_cong split: bool.splits)

lemma kept_CancelOrder [frame]: "V (fst (CancelOrder e etxt idHex n)) = V n"
  using kept_commitCancel [of e etxt idHex n]
  by (auto simp: CancelOrder_def split: option.splits prod.splits sum.splits)

end

section \<open>The board\<close>

lemma b_set_same [simp]: "f (b_cell b p) = b_cell b p \<Longrightarrow> b_set p f b = b"
  by (rule board.equality) (auto simp: b_set_def)

lemma view_upd: "view (upd p f n) = b_set p (\<lambda>_. cell_of (f (n_heap n p))) (view n)"
  by (rule board.equality) (auto simp: view_def upd_def b_set_def)

lemma cell_of_frame [simp]:
  "cell_of (s\<lparr>ss_srcCur := v0\<rparr>) = cell_of s" "cell_of (s\<lparr>ss_dstCur := v1\<rparr>) = cell_of s"
  "cell_of (s\<lparr>ss_srcAmt := v2\<rparr>) = cell_of s" "cell_of (s\<lparr>ss_dstAmt := v3\<rparr>) = cell_of s"
  "cell_of (s\<lparr>ss_ourSourceAddr := v4\<rparr>) = cell_of s" "cell_of (s\<lparr>ss_ourDestAddr := v5\<rparr>) = cell_of s"
  "cell_of (s\<lparr>ss_theirPub := v6\<rparr>) = cell_of s" "cell_of (s\<lparr>ss_privKey := v7\<rparr>) = cell_of s"
  "cell_of (s\<lparr>ss_pubKey := v8\<rparr>) = cell_of s" "cell_of (s\<lparr>ss_secret := v9\<rparr>) = cell_of s"
  "cell_of (s\<lparr>ss_secretHash := v10\<rparr>) = cell_of s" "cell_of (s\<lparr>ss_ourLockTime := v11\<rparr>) = cell_of s"
  "cell_of (s\<lparr>ss_ourDepositTxID := v12\<rparr>) = cell_of s" "cell_of (s\<lparr>ss_refundHex := v13\<rparr>) = cell_of s"
  "cell_of (s\<lparr>ss_refundDone := v14\<rparr>) = cell_of s" "cell_of (s\<lparr>ss_secretHunt := v15\<rparr>) = cell_of s"
  "cell_of (s\<lparr>ss_huntSince := v16\<rparr>) = cell_of s" "cell_of (s\<lparr>ss_scanCursor := v17\<rparr>) = cell_of s"
  "cell_of (s\<lparr>ss_depositHex := v18\<rparr>) = cell_of s" "cell_of (s\<lparr>ss_claimHex := v19\<rparr>) = cell_of s"
  "cell_of (s\<lparr>ss_claimTxID := v20\<rparr>) = cell_of s" "cell_of (s\<lparr>ss_claimCur := v21\<rparr>) = cell_of s"
  "cell_of (s\<lparr>ss_theirDepositTxID := v22\<rparr>) = cell_of s"
  "cell_of (s\<lparr>ss_theirLockTime := v23\<rparr>) = cell_of s"
  "cell_of (s\<lparr>ss_theirSecretHash := v24\<rparr>) = cell_of s"
  "cell_of (s\<lparr>ss_theirPayTxID := v25\<rparr>) = cell_of s"
  "cell_of (s\<lparr>ss_claimRetryAt := v26\<rparr>) = cell_of s"
  "cell_of (s\<lparr>ss_claimRetries := v27\<rparr>) = cell_of s"
  "cell_of (s\<lparr>ss_depositRetryAt := v28\<rparr>) = cell_of s"
  "cell_of (s\<lparr>ss_depositRetries := v29\<rparr>) = cell_of s"
  "cell_of (s\<lparr>ss_notReadySince := v30\<rparr>) = cell_of s"
  "cell_of (s\<lparr>ss_notReadySeen := v31\<rparr>) = cell_of s"
  "cell_of (s\<lparr>ss_theirDepositVout := v32\<rparr>) = cell_of s"
  "cell_of (s\<lparr>ss_theirP2SHNative := v33\<rparr>) = cell_of s"
  "cell_of (s\<lparr>ss_theirOverpayment := v34\<rparr>) = cell_of s" "cell_of (s\<lparr>ss_hub := v35\<rparr>) = cell_of s"
  "cell_of (s\<lparr>ss_hubKey := v36\<rparr>) = cell_of s" "cell_of (s\<lparr>ss_awaitSince := v37\<rparr>) = cell_of s"
  "cell_of (s\<lparr>ss_vanishMisses := v38\<rparr>) = cell_of s"
  "cell_of (s\<lparr>ss_lastProgress := v39\<rparr>) = cell_of s"
  "cell_of (s\<lparr>ss_holdApplySentAt := v40\<rparr>) = cell_of s"
  by (simp_all add: cell_of_def sessionKey_def)

lemma cell_of_core [simp]:
  "cell_of (s\<lparr>ss_state := st\<rparr>) = (cell_of s)\<lparr>c_st := st\<rparr>" "cell_of (s\<lparr>ss_await := w\<rparr>) = (cell_of s)\<lparr>c_busy := w\<rparr>"
  by (simp_all add: cell_of_def sessionKey_def)

lemma view_upd_core:
  assumes "sess_core (f (n_heap n p)) = sess_core (n_heap n p)"
  shows "view (upd p f n) = view n"
proof -
  have "cell_of (f (n_heap n p)) = cell_of (n_heap n p)"
    using assms by (simp add: sess_core_def cell_of_def sessionKey_def)
  thus ?thesis
    by (simp add: view_upd)
qed

interpretation board: node_frame view
  by unfold_locales (erule view_upd_core | simp add: view_def)+

lemmas branch = board.kept_branch

lemma view_silentHubs [frame]: "view (n\<lparr>n_silentHubs := a\<rparr>) = view n"
  by (simp add: view_def)

lemma view_upd_frame [frame]: "cell_of (f (n_heap n p)) = cell_of (n_heap n p) \<Longrightarrow> view (upd p f n) = view n"
  by (simp add: view_upd)

lemma view_holdAwait: "view (holdAwait e p n) = b_set p (\<lambda>c. c\<lparr>c_busy := True\<rparr>) (view n)"
  by (simp add: holdAwait_def view_upd b_set_def)

lemma view_releaseAwait: "view (releaseAwait p n) = b_set p (\<lambda>c. c\<lparr>c_busy := False\<rparr>) (view n)"
  by (simp add: releaseAwait_def view_upd b_set_def)

lemma view_state: "view (upd p (\<lambda>s. s\<lparr>ss_state := st\<rparr>) n) = b_set p (\<lambda>c. c\<lparr>c_st := st\<rparr>) (view n)"
  by (simp add: view_upd b_set_def)

lemma view_enqueue:
  "view (fst (enqueue e t n)) = (if snd (enqueue e t n) then (view n)\<lparr>b_out := b_out (view n) + jobs [t]\<rparr> else view n)"
  by (simp add: enqueue_def view_def)

lemma view_resendHoldApplies [frame]: "view (resendHoldApplies e keys n) = view n"
  unfolding resendHoldApplies_def
  by (rule board.kept_fold) (simp add: resend_one_def branch frame cong: option.case_cong sum.case_cong if_cong)

lemma view_recordSilentHubs [frame]: "view (recordSilentHubs e keys n) = view n"
  unfolding recordSilentHubs_def by (rule board.kept_fold) (simp add: silent_one_def branch frame cong: option.case_cong sum.case_cong if_cong)

lemma view_rotateHub [frame]: "view (fst (rotateHub e rip snReg key p ord n)) = view n"
  by (simp add: rotateHub_def branch frame cong: option.case_cong if_cong)

lemma view_rebroadcastOpenOrders [frame]: "view (rebroadcastOpenOrders e rip snReg wok keys n) = view n"
  unfolding rebroadcastOpenOrders_def
  by (rule board.kept_fold) (simp add: rebroadcast_one_def branch frame cong: option.case_cong sum.case_cong if_cong)

lemma view_pruneSessions: "view (pruneSessions n) = (view n)\<lparr>b_sess := drop_keys (pruned n) (n_sessions n)\<rparr>"
  by (simp add: pruneSessions_def Let_def view_def)

lemma view_install:
  "view (install s n) = (view n)\<lparr>b_cell := (b_cell (view n))(n_next n := cell_of s), b_next := Suc (n_next n),
     b_sess := (n_sessions n)(sessionKey s \<mapsto> n_next n)\<rparr>"
  by (rule board.equality) (auto simp: install_def view_def)

lemma view_drop_session: "view (drop_session key n) = (view n)\<lparr>b_sess := (n_sessions n)(key := None)\<rparr>"
  by (simp add: drop_session_def view_def)

end
