(* ===== verification/SwapRun.thy ===== *)
theory SwapRun
  imports SwapView
begin

text \<open>
  The engine as a transition system. A state is a node and the tasks its workers are running; a
  step is one thing the engine does: a packet, a sweep, a worker that takes a task, or the result
  of one. The surroundings (clock, wallets, disk, peers, keys) and the results of the tasks are
  free in every step, so the steps cover every behaviour of the wallets and of the network.
\<close>

section \<open>Steps\<close>

text \<open>
  The sweep over stuck guards releases a guard that is older than three minutes, whether or not the
  task it stands for is still queued or running. A step is labelled with the sessions whose guard
  it released while such a task was outstanding; every other step has the empty label.
\<close>

definition has_task :: "workTask list \<Rightarrow> nat \<Rightarrow> bool" where
  "has_task ts p \<longleftrightarrow> (\<exists>t \<in> set ts. map_option fst (task_job t) = Some p)"

fun given_up :: "'k Env \<Rightarrow> workTask list \<Rightarrow> string list \<Rightarrow> Node \<Rightarrow> nat list" where
  "given_up e run [] n = []"
| "given_up e run (orderID # keys) n = (case n_sessions n orderID of None \<Rightarrow> []
     | Some p \<Rightarrow> if await_stuck (e_now e) (n_heap n p) \<and> has_task (n_tasks n @ run) p then [p] else [])
     @ given_up e run keys (clear_stuck_one e orderID n)"

inductive step :: "'k Env \<Rightarrow> nat list \<Rightarrow> Node \<times> workTask list \<Rightarrow> Node \<times> workTask list \<Rightarrow> bool" for e :: "'k Env" where
  s_take: "n_tasks n = t # ts \<Longrightarrow> step e [] (n, run) (n\<lparr>n_tasks := ts\<rparr>, t # run)"
| s_lost: "t \<in> set run \<Longrightarrow> step e [] (n, run) (n, remove1 t run)"
| s_buildA: "BuildA p c \<in> set run \<Longrightarrow> step e [] (n, run) (applyCreatedA e p v n, remove1 (BuildA p c) run)"
| s_buildB: "BuildB p c \<in> set run \<Longrightarrow> step e [] (n, run) (applyCreatedB e p w n, remove1 (BuildB p c) run)"
| s_claimA: "ClaimA p c \<in> set run \<Longrightarrow> step e [] (n, run) (applyConfirmedA e p u n, remove1 (ClaimA p c) run)"
| s_claimB: "ClaimB p c i \<in> set run \<Longrightarrow> step e [] (n, run) (applyConfirmedB e p u n, remove1 (ClaimB p c i) run)"
| s_broadcast: "Broadcast orderID conn cur h kd k \<in> set run
    \<Longrightarrow> step e [] (n, run) (applyBroadcast e orderID cur h kd k r n, remove1 (Broadcast orderID conn cur h kd k) run)"
| s_refund: "Refund orderID conn cur h lt ck d v b dn \<in> set run
    \<Longrightarrow> step e [] (n, run) (applyRefund e orderID cur h lt dn x n, remove1 (Refund orderID conn cur h lt ck d v b dn) run)"
| s_watch: "WatchDeposit orderID conn cur txid vout b th oconn otx \<in> set run
    \<Longrightarrow> step e [] (n, run) (applyDepositWatch e orderID th dw n, remove1 (WatchDeposit orderID conn cur txid vout b th oconn otx) run)"
| s_own: "OwnWatch p orderID q \<in> set run \<Longrightarrow> step e [] (n, run) (applyOwnWatch e p orderID ow n, remove1 (OwnWatch p orderID q) run)"
| s_poll: "PollConfs ps \<in> set run \<Longrightarrow> step e [] (n, run) (applyPoll e txids pv n, remove1 (PollConfs ps) run)"
| s_resent: "Rebroadcast rs \<in> set run \<Longrightarrow> step e [] (n, run) (applyRebroadcast e rv n, remove1 (Rebroadcast rs) run)"
| s_verified: "VerifyOrder conn coin ord \<in> set run \<Longrightarrow> step e [] (n, run) (applyVerified ord vv n, remove1 (VerifyOrder conn coin ord) run)"
| s_packet: "step e [] (n, run) (handleSwapPacket e pkt body n, run)"
| s_wire: "step e [] (n, run) (handlePacket e bc pkt n, run)"
| s_expired: "step e [] (n, run) (pruneExpired e bc n, run)"
| s_open: "step e [] (n, run) (rebroadcastOpenOrders e rip snReg wok keys n, run)"
| s_deposits: "step e [] (n, run) (retryFailedDepositBuilds e keys n, run)"
| s_claims: "step e [] (n, run) (retryFailedClaimBuilds e keys n, run)"
| s_refunds: "step e [] (n, run) (scanRefunds e keys n, run)"
| s_stored: "step e [] (n, run) (scanStoredRefunds e n, run)"
| s_stalled: "step e [] (n, run) (watchStalledSessions e keys n, run)"
| s_gc: "step e [] (n, run) (gcStaleMineOrders e txids n, run)"
| s_resend: "step e [] (n, run) (resendHoldApplies e keys n, run)"
| s_silent: "step e [] (n, run) (recordSilentHubs e keys n, run)"
| s_watches: "step e [] (n, run) (watchCounterpartyDeposits e keys n, run)"
| s_owns: "step e [] (n, run) (watchOwnDepositSpends e keys n, run)"
| s_polls: "step e [] (n, run) (pollBroadcastConfirmations e txids n, run)"
| s_resends: "step e [] (n, run) (rebroadcastUnconfirmed e txids n, run)"
| s_tracked: "step e [] (n, run) (pruneTracked txids n, run)"
| s_takes: "step e [] (n, run) (pruneTakeRetries n, run)"
| s_save: "step e [] (n, run) (persist e n, run)"
| s_prune: "step e [] (n, run) (pruneSessions n, run)"
| s_unstick: "step e (given_up e run keys n) (n, run) (clearStuckAwait e keys n, run)"
| s_manual: "step e [] (n, run) (enqueueRefund e orderID True n, run)"
| s_maker: "step e [] (n, run) (newMakerSession e rip xpk ord a1 a2 priv pub n, run)"
| s_taker: "step e [] (n, run) (newTakerSession e ord a1 a2 priv pub n, run)"
| s_commitMake: "step e [] (n, run) (fst (commitMake e rip xpk dtxt wtxt pending ord a1 a2 priv pub mpkt hubAddr n), run)"
| s_commitTake: "step e [] (n, run) (fst (commitTake e dtxt wtxt key tp tpkt priv pub proofs usedCoins feeInputs n), run)"
| s_cancel: "step e [] (n, run) (fst (CancelOrder e etxt orderID n), run)"

text \<open>A run: what the engine does under one surrounding after the other, and the labels on the way.\<close>

inductive steps :: "'k Env list \<Rightarrow> nat list \<Rightarrow> Node \<times> workTask list \<Rightarrow> Node \<times> workTask list \<Rightarrow> bool" where
  steps_nil: "steps [] [] s s"
| steps_cons: "step e l s s' \<Longrightarrow> steps es late s' s'' \<Longrightarrow> steps (e # es) (l @ late) s s''"

section \<open>The abstraction\<close>

definition board_of :: "workTask list \<Rightarrow> Node \<Rightarrow> (bool, clientState, job) board" where
  "board_of run n = (view n)\<lparr>b_out := jobs (n_tasks n) + jobs run\<rparr>"

definition sim :: "(bool, clientState, job) board \<Rightarrow> (bool, clientState, job) board \<Rightarrow> bool" where
  "sim = (board_step may goal)\<^sup>*\<^sup>*"

lemma sim_refl [simp]: "sim b b"
  by (simp add: sim_def)

lemma sim_trans: "sim a b \<Longrightarrow> sim b c \<Longrightarrow> sim a c"
  by (simp add: sim_def)

lemma sim_step: "board_step may goal a b \<Longrightarrow> sim a b"
  by (auto simp: sim_def)

lemma board_of_simps [simp]:
  "b_cell (board_of run n) p = cell_of (n_heap n p)" "b_next (board_of run n) = n_next n"
  "b_sess (board_of run n) = n_sessions n" "b_out (board_of run n) = jobs (n_tasks n) + jobs run"
  "b_alive (board_of run n) p \<longleftrightarrow> sessionAlive n p"
  by (simp_all add: board_of_def b_alive_def sessionAlive_def)

lemma board_of_view: "view m = view n \<Longrightarrow> board_of run m = board_of run n"
proof -
  assume v: "view m = view n"
  hence "jobs (n_tasks m) = jobs (n_tasks n)"
    by (metis view_simps(4))
  thus ?thesis
    using v by (simp add: board_of_def)
qed

lemma jobs_remove1:
  "t \<in> set run \<Longrightarrow> task_job t = Some pj \<Longrightarrow> jobs run = add_mset pj (jobs (remove1 t run))"
  "task_job t = None \<Longrightarrow> jobs (remove1 t run) = jobs run"
  by (induction run) (auto split: option.splits)

text \<open>What a result may do to the board: see the steps \<open>failed\<close>, \<open>finished\<close> and \<open>ghost\<close>.\<close>

definition outcomes :: "nat \<Rightarrow> job \<Rightarrow> Node \<Rightarrow> (bool, clientState, job) board set" where
  "outcomes p j n = (if sessionAlive n p
     then {b_set p (\<lambda>c. c\<lparr>c_busy := False\<rparr>) (view n), b_set p (\<lambda>c. c\<lparr>c_busy := False, c_st := goal j\<rparr>) (view n),
       (view n)\<lparr>b_out := add_mset (p, j) (jobs (n_tasks n))\<rparr>}
     else {view n})"

lemma board_of_eqI: "view m = b\<lparr>b_out := jobs (n_tasks m)\<rparr> \<Longrightarrow> board_of run m = b\<lparr>b_out := jobs (n_tasks m) + jobs run\<rparr>"
  by (simp add: board_of_def)

lemma outcomes_sim:
  assumes "view m \<in> outcomes p j n" and run: "jobs run = add_mset (p, j) (jobs run')"
  shows "sim (board_of run n) (board_of run' m)"
proof (cases "sessionAlive n p")
  case False
  have "board_step may goal (board_of run n) ((board_of run n)\<lparr>b_out := jobs (n_tasks n) + jobs run'\<rparr>)"
    by (rule board_step.ghost [of _ p j]) (use False run in simp_all)
  moreover have "view m = view n" "jobs (n_tasks m) = jobs (n_tasks n)"
    using False assms(1) view_simps(4) [of m] by (auto simp: outcomes_def)
  ultimately show ?thesis
    by (intro sim_step) (simp add: board_of_def)
next
  case True
  then consider (a) "view m = b_set p (\<lambda>c. c\<lparr>c_busy := False\<rparr>) (view n)"
    | (b) "view m = b_set p (\<lambda>c. c\<lparr>c_busy := False, c_st := goal j\<rparr>) (view n)"
    | (c) "view m = (view n)\<lparr>b_out := add_mset (p, j) (jobs (n_tasks n))\<rparr>"
    using assms(1) by (auto simp: outcomes_def)
  thus ?thesis
  proof cases
    case a
    have "board_step may goal (board_of run n) ((b_set p (\<lambda>c. c\<lparr>c_busy := False\<rparr>) (board_of run n))\<lparr>b_out := jobs (n_tasks n) + jobs run'\<rparr>)"
      by (rule board_step.failed [of _ p j]) (use True run in simp_all)
    moreover have "jobs (n_tasks m) = jobs (n_tasks n)"
      using view_simps(4) [of m] a by simp
    ultimately show ?thesis
      by (intro sim_step) (simp add: board_of_def a b_set_def)
  next
    case b
    have "board_step may goal (board_of run n) ((b_set p (\<lambda>c. c\<lparr>c_busy := False, c_st := goal j\<rparr>) (board_of run n))\<lparr>b_out := jobs (n_tasks n) + jobs run'\<rparr>)"
      by (rule board_step.finished [of _ p j]) (use True run in simp_all)
    moreover have "jobs (n_tasks m) = jobs (n_tasks n)"
      using view_simps(4) [of m] b by simp
    ultimately show ?thesis
      by (intro sim_step) (simp add: board_of_def b b_set_def)
  next
    case c
    have "jobs (n_tasks m) = add_mset (p, j) (jobs (n_tasks n))"
      using view_simps(4) [of m] c by simp
    hence "board_of run' m = board_of run n"
      by (simp add: board_of_def c run)
    thus ?thesis
      by simp
  qed
qed

section \<open>Results\<close>

lemma view_eqD:
  assumes "view m = view n"
  shows "n_sessions m = n_sessions n" and "jobs (n_tasks m) = jobs (n_tasks n)" and "sessionAlive m p = sessionAlive n p"
    and "cell_of (n_heap m p) = cell_of (n_heap n p)"
proof -
  have "b_sess (view m) = b_sess (view n)" "b_out (view m) = b_out (view n)" "b_alive (view m) p = b_alive (view n) p"
    "b_cell (view m) p = b_cell (view n) p"
    by (simp_all only: assms)
  thus "n_sessions m = n_sessions n" "jobs (n_tasks m) = jobs (n_tasks n)" "sessionAlive m p = sessionAlive n p"
    "cell_of (n_heap m p) = cell_of (n_heap n p)"
    by (simp_all only: view_simps view_alive)
qed

lemma outcomes_cong: "view m = view n \<Longrightarrow> outcomes p j m = outcomes p j n"
  using view_eqD [of m n] by (simp add: outcomes_def)

lemma view_postSwapTask:
  assumes "n_sessions n orderID = Some p" and "task_job t = Some (p, j)"
  shows "view (fst (postSwapTask e orderID t n)) = (if snd (postSwapTask e orderID t n)
    then (view n)\<lparr>b_out := add_mset (p, j) (jobs (n_tasks n))\<rparr> else b_set p (\<lambda>c. c\<lparr>c_busy := False\<rparr>) (view n))"
proof (cases "snd (enqueue e t n)")
  case True
  thus ?thesis
    using assms(2) by (simp add: postSwapTask_def case_prod_beta Let_def view_enqueue)
next
  case False
  hence "fst (enqueue e t n) = n"
    by (simp add: enqueue_def split: if_splits)
  thus ?thesis
    using False assms(1) by (simp add: postSwapTask_def case_prod_beta Let_def release_key_def view_releaseAwait)
qed

lemma post_outcome:
  assumes "view m = view n" and "sessionAlive n p" and "n_sessions n orderID = Some p" and "task_job t = Some (p, j)"
  shows "view (fst (postSwapTask e orderID t m)) \<in> outcomes p j n"
  using view_postSwapTask [of m orderID p t j e] view_eqD(1,2) [OF assms(1)] assms by (simp add: outcomes_def)

lemma release_outcome:
  assumes "view m = view n" and "sessionAlive n p"
  shows "view (releaseAwait p m) \<in> outcomes p j n"
  using assms by (simp add: outcomes_def view_releaseAwait)

lemma alive_key: "sessionAlive n p \<Longrightarrow> n_sessions n (sessionKey (n_heap n p)) = Some p"
  by (simp add: sessionAlive_def)

lemma dead_outcome: "\<not> sessionAlive n p \<Longrightarrow> view m = view n \<Longrightarrow> view m \<in> outcomes p j n"
  by (simp add: outcomes_def)

lemmas result_intros = post_outcome release_outcome alive_key

lemma applyCreatedA_outcome: "view (applyCreatedA e p v n) \<in> outcomes p jDepositA n"
proof (cases "sessionAlive n p")
  case True
  show ?thesis
  proof (cases v)
    case (Inl terr)
    thus ?thesis
      using True release_outcome [of n n p jDepositA] by (simp add: applyCreatedA_def frame)
  next
    case (Inr out)
    define m where "m = fst (persistNow e (store_deposit (sessionKey (n_heap n p)) out
      (upd p (\<lambda>s. s\<lparr>ss_ourDepositTxID := do_txid out, ss_ourLockTime := do_lockTime out,
             ss_refundHex := do_refundHex out, ss_depositHex := do_depositHex out\<rparr>) (clearDepositRetry p n))))"
    have m: "view m = view n"
      by (simp add: m_def frame)
    show ?thesis
      using True Inr
      by (auto simp: applyCreatedA_def Let_def case_prod_beta postBroadcastTask_def m_def [symmetric] intro!: result_intros m)
  qed
qed (simp add: applyCreatedA_def dead_outcome)

lemma applyCreatedB_outcome: "view (applyCreatedB e p v n) \<in> outcomes p jDepositB n"
proof (cases "sessionAlive n p")
  case True
  show ?thesis
  proof (cases v)
    case (Inl terr)
    thus ?thesis
      using True release_outcome [of n n p jDepositB] by (simp add: applyCreatedB_def Let_def case_prod_beta frame)
  next
    case (Inr cb)
    define m where "m = (let out = cb_out cb; check = cb_check cb;
           m = store_deposit (sessionKey (n_heap n p)) out (upd p (\<lambda>s. s\<lparr>ss_ourDepositTxID := do_txid out, ss_ourLockTime := do_lockTime out,
             ss_refundHex := do_refundHex out, ss_depositHex := do_depositHex out,
             ss_theirDepositVout := dc_DepositVout check, ss_theirP2SHNative := dc_P2SHNative check,
             ss_theirOverpayment := dc_Excess check\<rparr>) (clearDepositRetry p n))
       in fst (persistNow e (upd_order (sessionKey (n_heap n p)) (store_check e (n_heap m p) check) m)))"
    have m: "view m = view n"
      by (simp add: m_def Let_def frame)
    show ?thesis
      using True Inr
      by (auto simp: applyCreatedB_def Let_def case_prod_beta postBroadcastTask_def m_def [unfolded Let_def, symmetric]
          intro!: result_intros m)
  qed
qed (simp add: applyCreatedB_def dead_outcome)

lemma applyConfirmedA_outcome: "view (applyConfirmedA e p v n) \<in> outcomes p jClaim n"
proof (cases "sessionAlive n p")
  case True
  show ?thesis
  proof (cases v)
    case (Inl terr)
    thus ?thesis
      using True release_outcome [of n n p jClaim] by (simp add: applyConfirmedA_def Let_def case_prod_beta frame)
  next
    case (Inr out)
    define m where "m = (let check = co_check out in fst (persistNow e (upd p (\<lambda>s. s\<lparr>ss_theirDepositVout := dc_DepositVout check,
             ss_theirP2SHNative := dc_P2SHNative check, ss_theirOverpayment := dc_Excess check, ss_claimHex := co_payHex out,
             ss_claimTxID := co_payTxID out, ss_claimCur := co_cur out\<rparr>) (clearClaimRetry p n))))"
    have m: "view m = view n"
      by (simp add: m_def Let_def frame)
    show ?thesis
      using True Inr
      by (auto simp: applyConfirmedA_def Let_def case_prod_beta postBroadcastTask_def m_def [unfolded Let_def, symmetric]
          intro!: result_intros m)
  qed
qed (simp add: applyConfirmedA_def dead_outcome)

lemma applyConfirmedB_outcome: "view (applyConfirmedB e p v n) \<in> outcomes p jClaim n"
proof (cases "sessionAlive n p")
  case True
  show ?thesis
  proof (cases v)
    case (Inl terr)
    thus ?thesis
      using True release_outcome [of n n p jClaim] by (simp add: applyConfirmedB_def frame)
  next
    case (Inr out)
    define m where "m = fst (persistNow e (upd p (\<lambda>s. s\<lparr>ss_secret := co_secret out, ss_claimHex := co_payHex out,
             ss_claimTxID := co_payTxID out, ss_claimCur := co_cur out\<rparr>) (clearClaimRetry p n)))"
    have m: "view m = view n"
      by (simp add: m_def frame)
    show ?thesis
      using True Inr
      by (auto simp: applyConfirmedB_def Let_def case_prod_beta postBroadcastTask_def m_def [symmetric] intro!: result_intros m)
  qed
qed (simp add: applyConfirmedB_def dead_outcome)

lemma view_advanced:
  assumes "view m = b_set p (\<lambda>c. c\<lparr>c_busy := False\<rparr>) (view n)"
  shows "view (upd p (\<lambda>s. s\<lparr>ss_state := st\<rparr>) m) = b_set p (\<lambda>c. c\<lparr>c_busy := False, c_st := st\<rparr>) (view n)"
  by (simp add: view_state assms) (simp add: b_set_def)

lemmas released = view_advanced [OF trans [OF board.kept_clearDepositRetry view_releaseAwait]]
  view_advanced [OF trans [OF board.kept_clearClaimRetry view_releaseAwait]]
  view_advanced [OF trans [OF board.kept_upd_order trans [OF board.kept_clearDepositRetry view_releaseAwait]]]

text \<open>A result of a broadcast never posts a job, so the third outcome is out of the question.\<close>

definition settled :: "nat \<Rightarrow> job \<Rightarrow> Node \<Rightarrow> (bool, clientState, job) board set" where
  "settled p j n = (if sessionAlive n p
     then {b_set p (\<lambda>c. c\<lparr>c_busy := False\<rparr>) (view n), b_set p (\<lambda>c. c\<lparr>c_busy := False, c_st := goal j\<rparr>) (view n)}
     else {view n})"

lemma settled_outcomes: "settled p j n \<subseteq> outcomes p j n"
  by (auto simp: settled_def outcomes_def)

lemma settled_cong: "view m = view n \<Longrightarrow> settled p j m = settled p j n"
  using view_eqD [of m n] by (simp add: settled_def)

lemma broadcast_settled:
  "view (applyCreatedABroadcast e p out terr n) \<in> settled p jDepositA n"
  "view (applyCreatedBBroadcast e p cb terr n) \<in> settled p jDepositB n"
  "view (applyConfirmedABroadcast e p co terr n) \<in> settled p jClaim n"
  "view (applyConfirmedBBroadcast e p co terr n) \<in> settled p jClaim n"
  by (simp_all add: settled_def applyCreatedABroadcast_def applyCreatedBBroadcast_def applyConfirmedABroadcast_def
      applyConfirmedBBroadcast_def Let_def frame view_releaseAwait released goal_def)

lemma applyBroadcast_outcome:
  assumes "cont_job k = (p, j)"
  shows "view (applyBroadcast e orderID cur h kd k v n) \<in> outcomes p j n"
proof -
  define terr where "terr = (case v of Inl er \<Rightarrow> Some er | Inr _ \<Rightarrow> None)"
  define m where "m = (if terr = None then
       let n = (case txIDFromHex h of Inr localID \<Rightarrow> recordBroadcast e orderID kd cur localID h n | Inl _ \<Rightarrow> n)
       in (case n_sessions n orderID of None \<Rightarrow> n | Some q \<Rightarrow> upd q (\<lambda>s. s\<lparr>ss_lastProgress := e_now e\<rparr>) n) else n)"
  have m: "view m = view n"
    by (simp add: m_def branch frame cong: option.case_cong sum.case_cong if_cong)
  have "applyBroadcast e orderID cur h kd k v n = (case k of ContA p out \<Rightarrow> applyCreatedABroadcast e p out terr m
      | ContB p cb \<Rightarrow> applyCreatedBBroadcast e p cb terr m | ContClaimA p out \<Rightarrow> applyConfirmedABroadcast e p out terr m
      | ContClaimB p out \<Rightarrow> applyConfirmedBBroadcast e p out terr m)"
    unfolding applyBroadcast_def m_def terr_def Let_def by (rule refl)
  hence "view (applyBroadcast e orderID cur h kd k v n) \<in> settled p j m"
    using assms by (cases k) (auto simp: broadcast_settled)
  thus ?thesis
    using settled_outcomes settled_cong [OF m] by blast
qed

section \<open>Handlers\<close>

lemma sim_view: "view m = view n \<Longrightarrow> sim (board_of run n) (board_of run m)"
  using board_of_view [of m n run] by simp

lemma sim_advance:
  assumes "sessionAlive n p" and "\<not> ss_await (n_heap n p)" and "ss_state (n_heap n p) \<le> st"
    and "view m = b_set p (\<lambda>c. c\<lparr>c_st := st\<rparr>) (view n)"
  shows "sim (board_of run n) (board_of run m)"
proof -
  have "board_step may goal (board_of run n) (b_set p (\<lambda>c. c\<lparr>c_st := st\<rparr>) (board_of run n))"
    by (rule board_step.advance) (use assms in simp_all)
  moreover have "jobs (n_tasks m) = jobs (n_tasks n)"
    using arg_cong [OF assms(4), of b_out] by simp
  hence "board_of run m = b_set p (\<lambda>c. c\<lparr>c_st := st\<rparr>) (board_of run n)"
    by (simp add: board_of_def assms(4) b_set_def)
  ultimately show ?thesis
    by (simp add: sim_step)
qed

lemma b_set_busy: "\<not> c_busy (b_cell b p) \<Longrightarrow> b_set p (\<lambda>c. c\<lparr>c_busy := False\<rparr>) (b_set p (\<lambda>c. c\<lparr>c_busy := True\<rparr>) b) = b"
  by (rule board.equality) (auto simp: b_set_def)

lemma sim_post:
  assumes "sessionAlive n p" and idle: "\<not> ss_await (n_heap n p)"
    and may: "may j (ss_isMaker (n_heap n p)) (ss_state (n_heap n p))"
    and job: "task_job t = Some (p, j)" and sess: "n_sessions n orderID = Some p"
    and m: "view m = b_set p (\<lambda>c. c\<lparr>c_busy := True\<rparr>) (view n)"
  shows "sim (board_of run n) (board_of run (fst (postSwapTask e orderID t m)))"
proof -
  have m': "n_sessions m = n_sessions n" "jobs (n_tasks m) = jobs (n_tasks n)"
    using arg_cong [OF m, of b_sess] arg_cong [OF m, of b_out] by simp_all
  let ?m = "fst (postSwapTask e orderID t m)"
  show ?thesis
  proof (cases "snd (postSwapTask e orderID t m)")
    case True
    hence v: "view ?m = (b_set p (\<lambda>c. c\<lparr>c_busy := True\<rparr>) (view n))\<lparr>b_out := add_mset (p, j) (jobs (n_tasks n))\<rparr>"
      using view_postSwapTask [of m orderID p t j e] m m' job sess by simp
    have "board_step may goal (board_of run n)
       ((b_set p (\<lambda>c. c\<lparr>c_busy := True\<rparr>) (board_of run n))\<lparr>b_out := add_mset (p, j) (b_out (board_of run n))\<rparr>)"
      by (rule board_step.post) (use assms in simp_all)
    moreover have "jobs (n_tasks ?m) = add_mset (p, j) (jobs (n_tasks n))"
      using arg_cong [OF v, of b_out] by simp
    ultimately show ?thesis
      by (intro sim_step) (simp add: board_of_def v b_set_def)
  next
    case False
    hence "view ?m = view n"
      using view_postSwapTask [of m orderID p t j e] m m' job sess idle by (simp add: b_set_busy)
    thus ?thesis
      by (rule sim_view)
  qed
qed

text \<open>A handler runs on a live session whose guard is free.\<close>

definition handler_ok :: "workTask list \<Rightarrow> (nat \<Rightarrow> Node \<Rightarrow> Node \<times> reply) \<Rightarrow> bool" where
  "handler_ok run fn \<longleftrightarrow> (\<forall>p n. sessionAlive n p \<longrightarrow> \<not> ss_await (n_heap n p) \<longrightarrow> sim (board_of run n) (board_of run (fst (fn p n))))"

lemma OnHold_ok: "handler_ok run (OnHold e b)"
  unfolding handler_ok_def
  by (auto simp: OnHold_def Let_def frame view_state intro!: sim_advance [where st = csHoldApplied] split: sum.splits)

lemma OnInit_ok: "handler_ok run (OnInit e b)"
  unfolding handler_ok_def
  by (auto simp: OnInit_def Let_def frame view_state intro!: sim_advance [where st = csInitialized])

lemma OnCreateA_ok: "handler_ok run (OnCreateA e b)"
  unfolding handler_ok_def
  by (auto simp: OnCreateA_def Let_def frame view_holdAwait may_def alive_key intro!: sim_post [where j = jDepositA])

lemma OnCreateB_ok: "handler_ok run (OnCreateB e b)"
  unfolding handler_ok_def
  by (auto simp: OnCreateB_def Let_def frame view_holdAwait may_def alive_key sim_view intro!: sim_post [where j = jDepositB])

lemma OnConfirmA_ok: "handler_ok run (OnConfirmA e b)"
  unfolding handler_ok_def
  by (auto simp: OnConfirmA_def Let_def frame view_holdAwait may_def alive_key intro!: sim_post [where j = jClaim])

lemma OnConfirmB_ok: "handler_ok run (OnConfirmB e b)"
  unfolding handler_ok_def
  by (auto simp: OnConfirmB_def Let_def frame view_holdAwait may_def alive_key intro!: sim_post [where j = jClaim])

lemma sim_prune: "sim (board_of run n) (board_of run (pruneSessions n))"
proof -
  have "board_step may goal (board_of run n) ((board_of run n)\<lparr>b_sess := drop_keys (pruned n) (n_sessions n)\<rparr>)"
    by (rule board_step.prune) (auto simp: map_le_def drop_keys_def split: if_splits)
  moreover have "board_of run (pruneSessions n) = (board_of run n)\<lparr>b_sess := drop_keys (pruned n) (n_sessions n)\<rparr>"
    by (rule board.equality) (simp_all add: board_of_def view_pruneSessions, simp add: pruneSessions_def Let_def)
  ultimately show ?thesis
    by (simp add: sim_step)
qed

lemma OnFinished_ok: "handler_ok run (OnFinished e b)"
proof -
  have "st \<le> csFinished" for st
    by (simp add: cs_less)
  hence "sim (board_of run n) (board_of run (persist e (upd p (\<lambda>s. s\<lparr>ss_state := csFinished\<rparr>) (n\<lparr>n_store := st\<rparr>))))"
    if "sessionAlive n p" "\<not> ss_await (n_heap n p)" for n p st
    using that by (intro sim_advance [where st = csFinished]) (simp_all add: frame view_state)
  thus ?thesis
    unfolding handler_ok_def by (auto simp: OnFinished_def Let_def intro: sim_trans [OF _ sim_prune])
qed

section \<open>Packets\<close>

definition tabled :: "Node \<Rightarrow> bool" where
  "tabled n \<longleftrightarrow> (\<forall>key p. n_sessions n key = Some p \<longrightarrow> sessionKey (n_heap n p) = key)"

lemma tabledD: "tabled n \<Longrightarrow> n_sessions n key = Some p \<Longrightarrow> sessionAlive n p"
  by (auto simp: tabled_def sessionAlive_def)

lemma sim_processSwap:
  assumes "handler_ok run fn" and "tabled n"
  shows "sim (board_of run n) (board_of run (processSwap e pkt i hub fn n))"
proof (cases "n_sessions n (hexEncode i)")
  case (Some p)
  define m where "m = upd p (\<lambda>s. s\<lparr>ss_lastProgress := e_now e\<rparr>) (if hub \<noteq> replicate 20 0 then upd p (\<lambda>s. s\<lparr>ss_hub := hub\<rparr>) n else n)"
  have m: "view m = view n"
    by (simp add: m_def frame)
  have alive: "sessionAlive m p"
    using tabledD [OF assms(2) Some] view_eqD(3) [OF m] by simp
  show ?thesis
  proof (cases "verifyHubPacket e pkt (n_heap n p) \<and> \<not> ss_await (n_heap m p)")
    case True
    obtain n2 r where fn: "fn p m = (n2, r)"
      by (cases "fn p m")
    have "sim (board_of run m) (board_of run n2)"
      using assms(1) alive True fn by (auto simp: handler_ok_def dest!: spec [of _ p] spec [of _ m])
    moreover have "view (processSwap e pkt i hub fn n) = view n2"
      using True fn Some
      by (simp add: processSwap_def Let_def m_def [symmetric] branch frame split: sum.splits option.splits)
    ultimately show ?thesis
      using sim_view sim_trans board_of_view [OF m] by metis
  next
    case False
    hence "view (processSwap e pkt i hub fn n) = view n"
      using Some m by (auto simp: processSwap_def Let_def m_def [symmetric])
    thus ?thesis
      by (rule sim_view)
  qed
qed (simp add: processSwap_def)

lemma sim_handleSwapPacket: "tabled n \<Longrightarrow> sim (board_of run n) (board_of run (handleSwapPacket e pkt body n))"
  by (cases body) (simp_all add: handleSwapPacket_def sim_processSwap OnHold_ok OnInit_ok OnCreateA_ok OnCreateB_ok
      OnConfirmA_ok OnConfirmB_ok OnFinished_ok sim_view frame)

lemma sim_handlePacket: "tabled n \<Longrightarrow> sim (board_of run n) (board_of run (handlePacket e bc pkt n))"
  by (simp add: handlePacket_def sim_handleSwapPacket sim_view frame split: sum.splits xbody.splits)

section \<open>Retries and the other sweeps\<close>

lemma b_set_idle: "\<not> c_busy (b_cell b p) \<Longrightarrow> b_set p (\<lambda>c. c\<lparr>c_busy := False, c_st := st\<rparr>) b = b_set p (\<lambda>c. c\<lparr>c_st := st\<rparr>) b"
  by (rule board.equality) (auto simp: b_set_def)

lemma sim_settled:
  assumes "sessionAlive n p" and "\<not> ss_await (n_heap n p)" and "may j (ss_isMaker (n_heap n p)) (ss_state (n_heap n p))"
    and "view m \<in> settled p j n"
  shows "sim (board_of run n) (board_of run m)"
proof -
  have "b_set p (\<lambda>c. c\<lparr>c_busy := False\<rparr>) (view n) = view n"
    using assms(2) by simp
  then consider "view m = view n" | "view m = b_set p (\<lambda>c. c\<lparr>c_st := goal j\<rparr>) (view n)"
    using assms(1,2,4) by (auto simp: settled_def b_set_idle)
  thus ?thesis
    using assms(1-3) swap.may_goal by cases (auto intro: sim_view sim_advance)
qed

text \<open>Both rebuilds and both reposts end alike: take the guard, post, and undo if the queue is full.\<close>

lemma sim_repost:
  assumes "sessionAlive n p" and idle: "\<not> ss_await (n_heap n p)"
    and "may j (ss_isMaker (n_heap n p)) (ss_state (n_heap n p))"
    and "task_job t = Some (p, j)" and "n_sessions n orderID = Some p"
    and m: "view m = b_set p (\<lambda>c. c\<lparr>c_busy := True\<rparr>) (view n)" and f: "\<And>s. cell_of (f s) = cell_of s"
  shows "sim (board_of run n) (board_of run (if snd (postSwapTask e orderID t m) then fst (postSwapTask e orderID t m)
     else upd p f (releaseAwait p (fst (postSwapTask e orderID t m)))))"
proof (cases "snd (postSwapTask e orderID t m)")
  case True
  thus ?thesis
    using sim_post [OF assms(1-6), of run e] by simp
next
  case False
  have m': "n_sessions m = n_sessions n"
    using arg_cong [OF m, of b_sess] by simp
  have "view (fst (postSwapTask e orderID t m)) = view n"
    using False view_postSwapTask [of m orderID p t j e] m m' assms(4,5) idle by (simp add: b_set_busy)
  hence "view (upd p f (releaseAwait p (fst (postSwapTask e orderID t m)))) = view n"
    using idle f by (simp add: frame view_releaseAwait)
  thus ?thesis
    using False by (simp add: sim_view)
qed

lemma sim_adoptOrRepostDeposit:
  assumes alive: "sessionAlive n p" and idle: "\<not> ss_await (n_heap n p)"
    and role: "if ss_isMaker (n_heap n p) then ss_state (n_heap n p) < csCreatedA else ss_state (n_heap n p) < csCreatedB"
  shows "sim (board_of run n) (board_of run (adoptOrRepostDeposit e p n))"
proof -
  define j where "j = (if ss_isMaker (n_heap n p) then jDepositA else jDepositB)"
  have may: "may j (ss_isMaker (n_heap n p)) (ss_state (n_heap n p))"
    using role by (auto simp: j_def may_def)
  define n0 where "n0 = upd p (\<lambda>s. s\<lparr>ss_depositRetryAt := 0\<rparr>) n"
  have n0: "view n0 = view n"
    by (simp add: n0_def frame)
  have settle: "sim (board_of run n) (board_of run m)" if "view m \<in> settled p j n0" for m
    using sim_settled [OF alive idle may] that settled_cong [OF n0] by blast
  show ?thesis
  proof (cases "e_connectors e (ss_srcCur (n_heap n p))")
    case None
    thus ?thesis
      by (simp add: adoptOrRepostDeposit_def Let_def frame sim_view)
  next
    case (Some conn)
    consider (adopt) "on_chain conn (ss_ourDepositTxID (n_heap n p))"
      | (cap) "\<not> on_chain conn (ss_ourDepositTxID (n_heap n p))" "ss_depositRetries (n_heap n p) \<ge> broadcastRepostMax"
      | (post) "\<not> on_chain conn (ss_ourDepositTxID (n_heap n p))" "\<not> ss_depositRetries (n_heap n p) \<ge> broadcastRepostMax"
      by blast
    thus ?thesis
    proof cases
      case adopt
      thus ?thesis
        using Some by (auto simp: adoptOrRepostDeposit_def Let_def n0_def [symmetric] j_def [symmetric]
            intro!: settle broadcast_settled simp: j_def)
    next
      case cap
      thus ?thesis
        using Some by (simp add: adoptOrRepostDeposit_def Let_def frame sim_view)
    next
      case post
      thus ?thesis
        unfolding adoptOrRepostDeposit_def Let_def case_prod_beta postBroadcastTask_def n0_def [symmetric]
        by (simp add: Some split del: if_split)
          (rule sim_repost [OF alive idle may], auto simp: j_def alive_key [OF alive] frame view_holdAwait n0)
    qed
  qed
qed

lemma sim_adoptOrRepostClaim:
  assumes alive: "sessionAlive n p" and idle: "\<not> ss_await (n_heap n p)"
  shows "sim (board_of run n) (board_of run (adoptOrRepostClaim e p n))"
proof -
  have may: "may jClaim (ss_isMaker (n_heap n p)) (ss_state (n_heap n p))"
    by (simp add: may_def)
  define n0 where "n0 = upd p (\<lambda>s. s\<lparr>ss_claimRetryAt := 0\<rparr>) n"
  have n0: "view n0 = view n"
    by (simp add: n0_def frame)
  have settle: "sim (board_of run n) (board_of run m)" if "view m \<in> settled p jClaim n0" for m
    using sim_settled [OF alive idle may] that settled_cong [OF n0] by blast
  show ?thesis
  proof (cases "e_connectors e (ss_claimCur (n_heap n p))")
    case None
    thus ?thesis
      by (simp add: adoptOrRepostClaim_def Let_def frame sim_view)
  next
    case (Some conn)
    consider (adopt) "on_chain conn (ss_claimTxID (n_heap n p))"
      | (cap) "\<not> on_chain conn (ss_claimTxID (n_heap n p))" "ss_claimRetries (n_heap n p) \<ge> broadcastRepostMax"
      | (post) "\<not> on_chain conn (ss_claimTxID (n_heap n p))" "\<not> ss_claimRetries (n_heap n p) \<ge> broadcastRepostMax"
      by blast
    thus ?thesis
    proof cases
      case adopt
      thus ?thesis
        using Some by (auto simp: adoptOrRepostClaim_def Let_def n0_def [symmetric] intro!: settle broadcast_settled)
    next
      case cap
      thus ?thesis
        using Some by (simp add: adoptOrRepostClaim_def Let_def frame sim_view)
    next
      case post
      thus ?thesis
        unfolding adoptOrRepostClaim_def Let_def case_prod_beta postBroadcastTask_def n0_def [symmetric]
        by (simp add: Some split del: if_split)
          (rule sim_repost [OF alive idle may], auto simp: alive_key [OF alive] frame view_holdAwait n0)
    qed
  qed
qed

lemma sim_rebuild_deposit:
  assumes "sessionAlive n p" and "\<not> ss_await (n_heap n p)" and "may j (ss_isMaker (n_heap n p)) (ss_state (n_heap n p))"
    and "task_job t = Some (p, j)" and "n_sessions n orderID = Some p"
  shows "sim (board_of run n) (board_of run (rebuild_deposit e orderID p t n))"
  unfolding rebuild_deposit_def Let_def case_prod_beta
  by (rule sim_repost [OF assms]) (simp_all add: frame view_holdAwait)

lemma sim_rebuild_claim:
  assumes "sessionAlive n p" and "\<not> ss_await (n_heap n p)" and "task_job t = Some (p, jClaim)" and "n_sessions n orderID = Some p"
  shows "sim (board_of run n) (board_of run (rebuild_claim e orderID p t n))"
  unfolding rebuild_claim_def Let_def case_prod_beta
  by (rule sim_repost [OF assms(1,2) _ assms(3,4)]) (simp_all add: frame view_holdAwait may_def)

lemma sim_retry_deposit_one:
  assumes "tabled n"
  shows "sim (board_of run n) (board_of run (retry_deposit_one e orderID n))"
proof (cases "n_sessions n orderID")
  case (Some p)
  let ?s = "n_heap n p"
  have alive: "sessionAlive n p"
    using tabledD [OF assms Some] .
  have A: "sim (board_of run n) (board_of run (rebuild_deposit e orderID p (BuildA p (snapshot e n p)) n))"
    if "\<not> ss_await ?s" "ss_isMaker ?s" "ss_state ?s < csCreatedA"
    using that by (intro sim_rebuild_deposit [OF alive _ _ _ Some, of jDepositA]) (simp_all add: may_def)
  have B: "sim (board_of run n) (board_of run (rebuild_deposit e orderID p (BuildB p (snapshot e n p)) n))"
    if "\<not> ss_await ?s" "\<not> ss_isMaker ?s" "ss_state ?s < csCreatedB"
    using that by (intro sim_rebuild_deposit [OF alive _ _ _ Some, of jDepositB]) (simp_all add: may_def)
  show ?thesis
    using sim_adoptOrRepostDeposit [OF alive, of run e] A B by (auto simp: retry_deposit_one_def Let_def Some)
qed (simp add: retry_deposit_one_def)

lemma sim_retry_claim_one:
  assumes "tabled n"
  shows "sim (board_of run n) (board_of run (retry_claim_one e orderID n))"
proof (cases "n_sessions n orderID")
  case (Some p)
  let ?s = "n_heap n p"
  have alive: "sessionAlive n p"
    using tabledD [OF assms Some] .
  have C: "sim (board_of run n) (board_of run (rebuild_claim e orderID p t n))"
    if "\<not> ss_await ?s" "task_job t = Some (p, jClaim)" for t
    using that by (intro sim_rebuild_claim [OF alive _ _ Some]) simp_all
  have D: "sim (board_of run n) (board_of run (upd p (\<lambda>s. s\<lparr>ss_claimRetryAt := 0\<rparr>) n))"
    by (rule sim_view) (simp add: frame)
  show ?thesis
    using sim_adoptOrRepostClaim [OF alive, of run e] C D by (simp add: retry_claim_one_def Let_def Some)
qed (simp add: retry_claim_one_def)

text \<open>Folding a sweep: the invariant of the board carries the table's law along.\<close>

definition good :: "nat list \<Rightarrow> workTask list \<Rightarrow> Node \<Rightarrow> bool" where
  "good late run n \<longleftrightarrow> board_inv may (mset late) (board_of run n)"

lemma good_tabled: "good late run n \<Longrightarrow> tabled n"
  using swap.invD(1) [of "mset late" "board_of run n"] by (simp add: good_def tabled_def)

lemma sim_good: "sim (board_of run n) (board_of run' m) \<Longrightarrow> good late run n \<Longrightarrow> good late run' m"
  by (simp add: sim_def good_def swap.steps_inv)

lemma sim_fold:
  assumes "\<And>x n. good late run n \<Longrightarrow> sim (board_of run n) (board_of run (f x n))" and "good late run n"
  shows "sim (board_of run n) (board_of run (fold f xs n))"
  using assms(2)
proof (induction xs arbitrary: n)
  case (Cons x xs)
  have "sim (board_of run n) (board_of run (f x n))"
    by (rule assms(1) [OF Cons.prems])
  thus ?case
    using sim_good [OF _ Cons.prems] Cons.IH by (auto intro: sim_trans)
qed simp

lemma sim_retryFailedDepositBuilds: "good late run n \<Longrightarrow> sim (board_of run n) (board_of run (retryFailedDepositBuilds e keys n))"
  unfolding retryFailedDepositBuilds_def by (rule sim_fold) (simp_all add: sim_retry_deposit_one good_tabled)

lemma sim_retryFailedClaimBuilds: "good late run n \<Longrightarrow> sim (board_of run n) (board_of run (retryFailedClaimBuilds e keys n))"
  unfolding retryFailedClaimBuilds_def by (rule sim_fold) (simp_all add: sim_retry_claim_one good_tabled)

lemma sim_applyRefund: "sim (board_of run n) (board_of run (applyRefund e orderID cur h lt dn x n))"
proof -
  have "view m = view n \<Longrightarrow> sim (board_of run n) (board_of run (refund_sent e orderID cur h m))" for m
  proof -
    assume m: "view m = view n"
    define k where "k = persist e (let n = clearRefundBackoff orderID m;
         n = (case txIDFromHex h of Inr localID \<Rightarrow> recordBroadcast e orderID broadcastRefund cur localID h n | Inl _ \<Rightarrow> n);
         n = (case n_sessions n orderID of None \<Rightarrow> n | Some p \<Rightarrow> upd p (\<lambda>s. s\<lparr>ss_refundDone := True\<rparr>) n)
         in if rollbackGate n orderID then upd_order orderID (roll_back e) n else n)"
    have "view k = view n"
      by (simp add: k_def branch frame m cong: option.case_cong sum.case_cong if_cong)
    moreover have "refund_sent e orderID cur h m = pruneSessions k"
      by (simp add: refund_sent_def k_def Let_def)
    ultimately show ?thesis
      using sim_trans [OF sim_view sim_prune] by simp
  qed
  thus ?thesis
    by (auto simp: applyRefund_def Let_def frame intro!: sim_view)
qed

lemma sim_applyOwnWatch: "sim (board_of run n) (board_of run (applyOwnWatch e p orderID v n))"
proof (cases v)
  case (Pair res err)
  define m where "m = n\<lparr>n_pendingOwnWatch := n_pendingOwnWatch n - {orderID}\<rparr>"
  define k where "k = own_cursor_saved e p orderID res (own_hunt_cleared e p res (case n_ownWatchSeen m orderID of None \<Rightarrow> m
      | Some seen \<Rightarrow> m\<lparr>n_ownWatchSeen := (n_ownWatchSeen m)(orderID \<mapsto> seen \<union> set (ow_scanned res))\<rparr>))"
  have m: "view m = view n"
    by (simp add: m_def frame)
  have k: "view k = view n"
    by (simp add: k_def branch frame m cong: option.case_cong)
  have confirm: "sim (board_of run n) (board_of run (fst (OnConfirmB e b p k)))" if "sessionAlive m p" for b
  proof -
    have "sessionAlive k p"
      using that view_eqD(3) [OF m] view_eqD(3) [OF k] by simp
    hence "sim (board_of run k) (board_of run (fst (OnConfirmB e b p k)))"
    proof (cases "ss_await (n_heap k p)")
      case True
      thus ?thesis
        by (simp add: OnConfirmB_def Let_def)
    next
      case False
      thus ?thesis
        using OnConfirmB_ok [of run e b] \<open>sessionAlive k p\<close> unfolding handler_ok_def by blast
    qed
    thus ?thesis
      using board_of_view [OF k] by simp
  qed
  have "applyOwnWatch e p orderID v n = (if \<not> sessionAlive m p then m
      else if n_ownWatchSeen m orderID = None \<and> ow_scanned res \<noteq> [] then m
      else if err \<noteq> None \<or> ow_spender res = [] then k
      else fst (OnConfirmB e \<lparr>cfbb_HubAddress = ss_hub (n_heap k p), cfbb_ID = ss_id (n_heap k p), cfbb_APayTxID = ow_spender res\<rparr> p k))"
    unfolding applyOwnWatch_def Pair Let_def m_def k_def by simp
  thus ?thesis
    using confirm sim_view [OF m] sim_view [OF k] by (simp split: if_splits)
qed

lemma jobs_mem: "pj \<in># jobs ts \<longleftrightarrow> (\<exists>t \<in> set ts. task_job t = Some pj)"
  by (induction ts) (auto split: option.splits)

lemma has_task_jobs: "has_task (n_tasks n @ run) p \<longleftrightarrow> b_jobs (board_of run n) p \<noteq> {#}"
  by (auto simp: has_task_def swap.jobs_empty jobs_mem)

text \<open>A release of the sweep is a timeout of the board.\<close>

definition bsim :: "nat list \<Rightarrow> (bool, clientState, job) board \<Rightarrow> (bool, clientState, job) board \<Rightarrow> bool" where
  "bsim late = board_run may goal (mset late)"

lemma bsim_trans: "bsim late1 a b \<Longrightarrow> bsim late2 b c \<Longrightarrow> bsim (late1 @ late2) a c"
  unfolding bsim_def mset_append by (rule swap.run_append)

lemma bsim_sim: "sim a b \<Longrightarrow> bsim [] a b"
  unfolding bsim_def sim_def by (simp add: swap.run_steps board_run.stay)

lemma bsim_good: "bsim late2 (board_of run n) (board_of run' m) \<Longrightarrow> good late1 run n \<Longrightarrow> good (late1 @ late2) run' m"
  unfolding bsim_def good_def mset_append by (rule swap.run_inv)

lemma bsim_clear_one:
  assumes "tabled n"
  shows "bsim (given_up e run [orderID] n) (board_of run n) (board_of run (clear_stuck_one e orderID n))"
proof (cases "\<exists>p. n_sessions n orderID = Some p \<and> await_stuck (e_now e) (n_heap n p)")
  case True
  then obtain p where p: "n_sessions n orderID = Some p" "await_stuck (e_now e) (n_heap n p)"
    by blast
  have "clear_stuck_one e orderID n = releaseAwait p n"
    using p by (simp add: clear_stuck_one_def)
  moreover have "board_of run (releaseAwait p n) = b_release p (board_of run n)"
    by (simp add: board_of_def view_releaseAwait b_set_def b_release_def) (simp add: releaseAwait_def upd_def)
  moreover have "mset (given_up e run [orderID] n) = (if b_jobs (board_of run n) p = {#} then {#} else {#p#})"
    using p has_task_jobs [of n run p] by simp
  moreover have "b_alive (board_of run n) p"
    using tabledD [OF assms p(1)] by simp
  ultimately show ?thesis
    unfolding bsim_def using board_run.timeout [OF board_run.stay [of may goal "board_of run n"], of p] by simp
next
  case False
  hence "clear_stuck_one e orderID n = n" "given_up e run [orderID] n = []"
    by (auto simp: clear_stuck_one_def split: option.splits)
  thus ?thesis
    by (simp add: bsim_def board_run.stay)
qed

lemma bsim_clearStuckAwait:
  assumes "good late run n"
  shows "bsim (given_up e run keys n) (board_of run n) (board_of run (clearStuckAwait e keys n))"
  unfolding clearStuckAwait_def using assms
proof (induction keys arbitrary: n late)
  case (Cons key keys)
  note one = bsim_clear_one [OF good_tabled [OF Cons.prems], of e run key]
  have "bsim (given_up e run [key] n @ given_up e run keys (clear_stuck_one e key n)) (board_of run n)
      (board_of run (fold (clear_stuck_one e) keys (clear_stuck_one e key n)))"
    by (rule bsim_trans [OF one Cons.IH [OF bsim_good [OF one Cons.prems]]])
  thus ?case
    by simp
qed (simp add: bsim_def board_run.stay)

lemma sim_install:
  assumes "\<not> ss_await s"
  shows "sim (board_of run n) (board_of run (install s n))"
proof -
  have "board_of run (install s n) = (board_of run n)\<lparr>b_cell := (b_cell (board_of run n))(b_next (board_of run n) := cell_of s),
      b_next := Suc (b_next (board_of run n)), b_sess := (b_sess (board_of run n))(c_key (cell_of s) \<mapsto> b_next (board_of run n))\<rparr>"
    by (rule board.equality) (auto simp: board_of_def view_def install_def)
  thus ?thesis
    using board_step.install [of "cell_of s" may goal "board_of run n"] assms by (simp add: sim_step)
qed

text \<open>Making and taking: a session is installed, and dropped again when the unit is undone.\<close>

lemma sim_makerSession: "sim (board_of run n) (board_of run (newMakerSession e rip xpk ord a1 a2 priv pub n))"
  by (auto simp: newMakerSession_def zeroSession_def intro!: sim_install split: option.splits)

lemma sim_takerSession: "sim (board_of run n) (board_of run (newTakerSession e ord a1 a2 priv pub n))"
  by (auto simp: newTakerSession_def zeroSession_def intro!: sim_install)

lemma sim_drop_session: "sim (board_of run n) (board_of run (drop_session key n))"
proof -
  have "board_of run (drop_session key n) = (board_of run n)\<lparr>b_sess := (n_sessions n)(key := None)\<rparr>"
    by (simp add: board_of_def view_drop_session) (simp add: drop_session_def)
  moreover have "board_step may goal (board_of run n) ((board_of run n)\<lparr>b_sess := (n_sessions n)(key := None)\<rparr>)"
    by (rule board_step.prune) (auto simp: map_le_def)
  ultimately show ?thesis
    by (simp add: sim_step)
qed

lemma sim_after: "sim (board_of run n) (board_of run m) \<Longrightarrow> view m' = view m \<Longrightarrow> sim (board_of run n) (board_of run m')"
  using board_of_view [of m' m run] by simp

lemma sim_commitMake: "sim (board_of run n) (board_of run (fst (commitMake e rip xpk dtxt wtxt pending ord a1 a2 priv pub mpkt hubAddr n)))"
proof -
  define m where "m = newMakerSession e rip xpk ord a1 a2 priv pub (n\<lparr>n_store := Add (n_store n) ord\<rparr>)"
  have m: "sim (board_of run n) (board_of run m)"
    unfolding m_def by (rule sim_trans [OF sim_view sim_makerSession]) (simp add: frame)
  have saved: "sim (board_of run n) (board_of run (fst (persistNow e m)))"
    by (rule sim_after [OF m]) (simp add: frame)
  show ?thesis
    unfolding commitMake_def Let_def m_def [symmetric] case_prod_beta
    by (auto intro: sim_after [OF m] sim_after [OF saved] sim_after [OF sim_trans [OF saved sim_drop_session]] simp: frame)
qed

lemma sim_revertTake:
  assumes "sim (board_of run n) (board_of run m)"
  shows "sim (board_of run n) (board_of run (revertTake e key prev m))"
proof -
  have "sim (board_of run n) (board_of run (upd_order key (\<lambda>_. Order_Copy prev) m))"
    by (rule sim_after [OF assms]) (simp add: frame)
  thus ?thesis
    unfolding revertTake_def by (rule sim_after [OF sim_trans [OF _ sim_drop_session]]) (simp add: frame)
qed

lemma sim_commitTake: "sim (board_of run n) (board_of run (fst (commitTake e dtxt wtxt key tp tpkt priv pub proofs usedCoins feeInputs n)))"
proof (cases "Store_Get (n_store n) key")
  case None
  thus ?thesis
    by (simp add: commitTake_def sim_view frame)
next
  case (Some prev)
  define m where "m = taking e key tp priv pub proofs usedCoins feeInputs prev n"
  have saved: "sim (board_of run n) (board_of run (fst (persistNow e m)))"
    unfolding m_def taking_def by (rule sim_after [OF sim_trans [OF sim_view sim_takerSession]]) (simp_all add: frame)
  show ?thesis
    unfolding commitTake_eq [OF Some] m_def [symmetric]
    by (auto simp: Let_def case_prod_beta frame intro: sim_revertTake [OF saved] sim_after [OF saved])
qed

section \<open>Refinement\<close>

lemma sim_view_free: "view m = view n \<Longrightarrow> jobs run' = jobs run \<Longrightarrow> sim (board_of run n) (board_of run' m)"
  using board_of_view [of m n run'] by (simp add: board_of_def)

text \<open>Every step but the sweep over stuck guards is one of the board without its timeout.\<close>

definition unsticks :: "'k Env \<Rightarrow> nat list \<Rightarrow> Node \<times> workTask list \<Rightarrow> Node \<times> workTask list \<Rightarrow> bool" where
  "unsticks e l s s' \<longleftrightarrow> (\<exists>keys. l = given_up e (snd s) keys (fst s) \<and> s' = (clearStuckAwait e keys (fst s), snd s))"

lemma step_label: "step e l s s' \<Longrightarrow> l = [] \<or> unsticks e l s s'"
  by (cases rule: step.cases) (auto simp: unsticks_def)

lemma step_sim:
  assumes "step e l (n, run) (n', run')" and good: "good late run n" and other: "\<not> unsticks e l (n, run) (n', run')"
  shows "sim (board_of run n) (board_of run' n')"
  using assms(1)
proof cases
  case (s_take t ts)
  hence "board_of run' n' = board_of run n"
    by (simp add: board_of_def view_def split: option.splits)
  thus ?thesis
    by simp
next
  case (s_lost t)
  show ?thesis
  proof (cases "task_job t")
    case None
    thus ?thesis
      using s_lost by (simp add: jobs_remove1 sim_view_free)
  next
    case (Some pj)
    hence "board_step may goal (board_of run n) ((board_of run n)\<lparr>b_out := jobs (n_tasks n) + jobs run'\<rparr>)"
      using s_lost by (intro board_step.lost [of _ "fst pj" "snd pj"]) (simp add: jobs_remove1)
    thus ?thesis
      using s_lost by (simp add: board_of_def sim_step)
  qed
next
  case (s_buildA p c v)
  show ?thesis
    unfolding s_buildA(1-3) by (rule outcomes_sim [OF applyCreatedA_outcome jobs_remove1(1)]) (use s_buildA in simp_all)
next
  case (s_buildB p c v)
  show ?thesis
    unfolding s_buildB(1-3) by (rule outcomes_sim [OF applyCreatedB_outcome jobs_remove1(1)]) (use s_buildB in simp_all)
next
  case (s_claimA p c v)
  show ?thesis
    unfolding s_claimA(1-3) by (rule outcomes_sim [OF applyConfirmedA_outcome jobs_remove1(1)]) (use s_claimA in simp_all)
next
  case (s_claimB p c i v)
  show ?thesis
    unfolding s_claimB(1-3) by (rule outcomes_sim [OF applyConfirmedB_outcome jobs_remove1(1)]) (use s_claimB in simp_all)
next
  case (s_broadcast orderID conn cur h kd k r)
  obtain p j where k: "cont_job k = (p, j)"
    by (cases "cont_job k")
  show ?thesis
    unfolding s_broadcast(1-3)
    by (rule outcomes_sim [OF applyBroadcast_outcome [OF k] jobs_remove1(1)]) (use s_broadcast k in simp_all)
next
  case (s_refund orderID conn cur h lt ck d v b dn x)
  have "board_of run' n' = board_of run n'"
    using s_refund by (simp add: board_of_def jobs_remove1)
  thus ?thesis
    using sim_applyRefund s_refund by simp
next
  case (s_watch orderID conn cur txid vout b th oconn otx dw)
  thus ?thesis
    by (simp add: jobs_remove1 sim_view_free frame)
next
  case (s_own p orderID q ow)
  have "board_of run' n' = board_of run n'"
    using s_own by (simp add: board_of_def jobs_remove1)
  thus ?thesis
    using sim_applyOwnWatch s_own by simp
next
  case (s_poll ps txids pv)
  thus ?thesis
    by (simp add: jobs_remove1 sim_view_free frame)
next
  case (s_resent rs rv)
  thus ?thesis
    by (simp add: jobs_remove1 sim_view_free frame)
next
  case (s_verified conn coin ord vv)
  thus ?thesis
    by (simp add: jobs_remove1 sim_view_free frame)
next
  case (s_unstick keys)
  thus ?thesis
    using other by (auto simp: unsticks_def)
qed (use good in \<open>simp_all add: good_tabled sim_handleSwapPacket sim_handlePacket sim_retryFailedDepositBuilds sim_retryFailedClaimBuilds
    sim_view frame sim_prune
    sim_makerSession sim_takerSession sim_commitMake sim_commitTake\<close>)

lemma step_bsim:
  assumes "step e l (n, run) (n', run')" and "good late run n"
  shows "bsim l (board_of run n) (board_of run' n')"
proof (cases "unsticks e l (n, run) (n', run')")
  case True
  thus ?thesis
    using bsim_clearStuckAwait [OF assms(2)] by (auto simp: unsticks_def)
next
  case False
  thus ?thesis
    using bsim_sim [OF step_sim [OF assms False]] step_label [OF assms(1)] by simp
qed

lemma steps_bsim:
  assumes "steps es late2 s s'" and "good late1 (snd s) (fst s)"
  shows "bsim late2 (board_of (snd s) (fst s)) (board_of (snd s') (fst s')) \<and> good (late1 @ late2) (snd s') (fst s')"
  using assms
proof (induction arbitrary: late1 rule: steps.induct)
  case (steps_cons e l s s' es late s'')
  have one: "bsim l (board_of (snd s) (fst s)) (board_of (snd s') (fst s'))"
    using step_bsim [of e l "fst s" "snd s" "fst s'" "snd s'"] steps_cons by simp
  have "good (late1 @ l) (snd s') (fst s')"
    by (rule bsim_good [OF one steps_cons.prems])
  thus ?case
    using steps_cons.IH [of "late1 @ l"] bsim_trans [OF one] by simp
qed (simp add: bsim_def board_run.stay)

end
