(* ===== verification/SwapSafety.thy ===== *)
theory SwapSafety
  imports SwapRun
begin

text \<open>
  What holds of every run of the engine: it refines the board, progress is monotone and a session has
  one task, except for what a guard that was released too early allows, which is counted.
\<close>

section \<open>Runs\<close>

text \<open>
  Where a run starts: no task is queued or running, and every session of the table, if there are
  any, is filed under its own key. So does a node that restored its swaps from disk
  (\<^verbatim>\<open>api/persist.go\<close> files a restored session under the hex of its id).
\<close>

definition rested :: "Node \<Rightarrow> bool" where
  "rested n \<longleftrightarrow> n_tasks n = [] \<and> (\<forall>key p. n_sessions n key = Some p \<longrightarrow> p < n_next n \<and> sessionKey (n_heap n p) = key)"

lemma good_start: "rested n \<Longrightarrow> good [] [] n"
  unfolding good_def mset.simps by (rule swap.start_inv) (auto simp: rested_def)

lemma run_good: "rested n \<Longrightarrow> steps es late (n, []) (n', run') \<Longrightarrow> good late run' n'"
  using steps_bsim [of es late "(n, [])" "(n', run')" "[]"] good_start [of n] by simp

lemma steps_append: "steps es late1 s s' \<Longrightarrow> steps fs late2 s' s'' \<Longrightarrow> steps (es @ fs) (late1 @ late2) s s''"
  by (induction rule: steps.induct) (auto intro: steps.intros)

text \<open>
  Two runs to look at. In one, a node without sessions takes an order and its hub sends Init, then
  CreateB. In the other it makes an order and its hub sends CreateA; three minutes and a moment later the build of
  the deposit is still queued, its guard is released, and CreateA arrives again. The curve library
  of the examples accepts every signature.
\<close>

definition idle_node :: Node where
  "idle_node = \<lparr>n_heap = (\<lambda>_. zeroSession), n_next = 0, n_sessions = Map.empty, n_store = NewStore, n_tasks = [],
     n_tracked = Map.empty, n_trackedSeq = 0, n_pendingConfirm = False, n_pendingRebroadcast = False, n_pendingRefunds = {}, n_refundAttempts = Map.empty,
     n_refundRetryAt = Map.empty, n_pendingWatch = {}, n_pendingOwnWatch = {}, n_ownWatchSeen = Map.empty,
     n_rescanAttempts = Map.empty, n_rescanRetryAt = Map.empty, n_stallWarned = Map.empty, n_silentHubs = Map.empty,
     n_takeRetries = Map.empty, n_timers = [], n_persistLatest = None, n_disk = None, n_persistFailures = 0,
     n_packets = [], n_manual = []\<rparr>"

definition quiet_env :: "bytes Env" where
  "quiet_env = \<lparr>e_now = 1000, e_unix = 0, e_secp = echo_secp\<lparr>sl_verify := \<lambda>_ _ _. True\<rparr>, e_version = 55,
     e_connectors = Map.empty, e_confs = Map.empty,
     e_coins = Map.empty, e_dataDir = True, e_diskErr = False, e_connected = False, e_writeErr = False,
     e_known = (\<lambda>_. True), e_exchangeStarted = False, e_queueCap = 4, e_startedAt = 0, e_takeRetry = 2\<rparr>"

definition hub_key :: bytes where "hub_key = 2 # replicate 32 9"

definition hub_pkt :: Packet where
  "hub_pkt = (NewPacket 55 0 XbcTransactionInit [])\<lparr>p_Pubkey := hub_key, p_Signature := replicate 64 0\<rparr>"

definition init_body :: InitBody where
  "init_body = \<lparr>ib_ClientAddress = replicate 20 1, ib_HubAddress = replicate 20 3, ib_ID = replicate 32 0,
     ib_FromAddress = replicate 20 0, ib_FromCurrency = [], ib_FromAmount = 0, ib_ToAddress = replicate 20 0,
     ib_ToCurrency = [], ib_ToAmount = 0\<rparr>"

definition createA_body :: CreateABody where
  "createA_body = \<lparr>cab_HubAddress = replicate 20 3, cab_ID = replicate 32 0, cab_BPubKey = hub_key\<rparr>"

definition createB_body :: CreateBBody where
  "createB_body = \<lparr>cbb_HubAddress = replicate 20 3, cbb_ID = replicate 32 0, cbb_APubKey = replicate 33 2,
     cbb_ADepositTxID = ''aa'', cbb_HashedSecret = replicate 20 5, cbb_ALockTime = 100\<rparr>"

definition taken_node :: Node where
  "taken_node = newTakerSession quiet_env (zeroOrder\<lparr>o_SNodePubkey := hexEncode hub_key\<rparr>) [] [] (replicate 32 7) (replicate 33 2) idle_node"

definition inited_node :: Node where
  "inited_node = handleSwapPacket quiet_env hub_pkt (XInit init_body) taken_node"

definition building_node :: Node where
  "building_node = handleSwapPacket quiet_env hub_pkt (XCreateB createB_body) inited_node"

definition made_node :: Node where
  "made_node = newMakerSession quiet_env (\<lambda>_. []) (Some []) (zeroOrder\<lparr>o_SNodePubkey := hexEncode hub_key\<rparr>) [] [] (replicate 32 7) (replicate 33 2) idle_node"

definition posted_node :: Node where
  "posted_node = handleSwapPacket quiet_env hub_pkt (XCreateA createA_body) made_node"

definition late_env :: "bytes Env" where
  "late_env = quiet_env\<lparr>e_now := 1000 + awaitStuckMicro + 1\<rparr>"

definition released_node :: Node where
  "released_node = clearStuckAwait late_env [hexEncode (replicate 32 0)] posted_node"

definition reposted_node :: Node where
  "reposted_node = handleSwapPacket late_env hub_pkt (XCreateA createA_body) released_node"

lemma idle_simps: "n_sessions idle_node = Map.empty" "n_tasks idle_node = []" "n_next idle_node = 0"
  by (simp_all add: idle_node_def)

lemma idle_rested: "rested idle_node"
  by (simp add: rested_def idle_simps)

lemma hub_verified: "verified quiet_env hub_pkt (hexEncode hub_key)"
  by (simp add: verified_def VerifyAgainst_def hexEncode_def hub_pkt_def hub_key_def quiet_env_def echo_secp_def
      compactParse_def go_bind_def)

lemma demo_steps:
  "step quiet_env [] (idle_node, []) (taken_node, [])" "step quiet_env [] (taken_node, []) (inited_node, [])"
  "step quiet_env [] (idle_node, []) (made_node, [])" "step quiet_env [] (made_node, []) (posted_node, [])"
  "step late_env [] (released_node, []) (reposted_node, [])"
  unfolding reposted_node_def posted_node_def inited_node_def taken_node_def made_node_def
  by (rule step.s_taker step.s_packet step.s_maker)+

lemma one_step: "step e l s s' \<Longrightarrow> steps [e] l s s'"
  using steps.steps_cons [OF _ steps.steps_nil] by fastforce

lemmas demo_run = demo_steps(1-2) [THEN one_step]

lemma hub_key_pub: "decodePub33 (hexEncode hub_key) = hub_key"
  by (simp add: decodePub33_def hexEncode_def hub_key_def) (simp add: hex_EncodeToString_def)

lemma taken_session:
  "n_sessions taken_node = [hexEncode (replicate 32 0) \<mapsto> 0]" "n_tasks taken_node = []" "n_store taken_node = NewStore"
  "n_heap taken_node 0 = zeroSession\<lparr>ss_ourSourceAddr := [], ss_privKey := replicate 32 7, ss_pubKey := replicate 33 2,
     ss_state := csTaker, ss_lastProgress := 1000, ss_hubKey := hub_key\<rparr>"
  by (simp_all add: taken_node_def newTakerSession_def install_def idle_node_def sessionKey_def zeroSession_def
      zeroOrder_def quiet_env_def hub_key_pub)

lemma hub_key_nz: "hub_key \<noteq> replicate 33 0"
proof
  assume "hub_key = replicate 33 0"
  hence "hd hub_key = hd (replicate 33 0)"
    by (rule arg_cong)
  thus False
    by (simp add: hub_key_def)
qed

lemma quiet_simps:
  "e_now quiet_env = 1000" "e_connected quiet_env = False" "e_known quiet_env = (\<lambda>_. True)" "e_coins quiet_env = Map.empty"
  "e_queueCap quiet_env = 4"
  by (simp_all add: quiet_env_def)

lemmas demo_simps = handleSwapPacket_def processSwap_def verifyHubPacket_def hubRegistered_def hub_verified hub_key_nz
  upd_order_def upd_def Update_def NewStore_def send_def quiet_simps cs_less Let_def

lemma inited_session:
  "n_sessions inited_node = n_sessions taken_node" "n_tasks inited_node = []" "n_store inited_node = NewStore"
  "n_heap inited_node 0 = (n_heap taken_node 0)\<lparr>ss_state := csInitialized, ss_hub := replicate 20 3\<rparr>"
  by (simp_all add: inited_node_def demo_simps taken_session init_body_def OnInit_def verifyInit_def decodeAddrHash_def
      Coin_Get_def setOrderStatus_def zeroSession_def)

lemma building_session:
  "n_sessions building_node = n_sessions taken_node" "map task_job (n_tasks building_node) = [Some (0, jDepositB)]"
  "ss_await (n_heap building_node 0)" "sessionKey (n_heap building_node 0) = hexEncode (replicate 32 0)"
  by (simp_all add: building_node_def demo_simps inited_session taken_session createB_body_def OnCreateB_def
      holdAwait_def postSwapTask_def enqueue_def zeroSession_def sessionKey_def)

lemma made_session:
  "n_sessions made_node = [hexEncode (replicate 32 0) \<mapsto> 0]" "n_tasks made_node = []" "n_store made_node = NewStore"
  "n_heap made_node 0 = zeroSession\<lparr>ss_isMaker := True, ss_privKey := replicate 32 7, ss_pubKey := replicate 33 2,
     ss_secret := [], ss_secretHash := KeyID (\<lambda>_. []) [], ss_state := csMaker, ss_lastProgress := 1000, ss_hubKey := hub_key\<rparr>"
  by (simp_all add: made_node_def newMakerSession_def install_def idle_node_def sessionKey_def zeroSession_def
      zeroOrder_def quiet_env_def hub_key_pub)

lemmas createA_simps = createA_body_def OnCreateA_def holdAwait_def postSwapTask_def enqueue_def zeroSession_def sessionKey_def

lemma posted_session:
  "n_sessions posted_node = n_sessions made_node" "map task_job (n_tasks posted_node) = [Some (0, jDepositA)]"
  "n_store posted_node = NewStore"
  "n_heap posted_node 0 = (n_heap made_node 0)\<lparr>ss_hub := replicate 20 3, ss_theirPub := hub_key, ss_await := True, ss_awaitSince := 1000\<rparr>"
  by (simp_all add: posted_node_def demo_simps made_session createA_simps)

lemma late_simps: "e_now late_env = 1000 + awaitStuckMicro + 1" "e_connected late_env = False" "e_known late_env = (\<lambda>_. True)"
  "e_coins late_env = Map.empty" "e_queueCap late_env = 4" "verified late_env hub_pkt (hexEncode hub_key)"
  using hub_verified by (simp_all add: late_env_def quiet_simps verified_def VerifyAgainst_def)

lemma posted_stuck: "await_stuck (e_now late_env) (n_heap posted_node 0)" "has_task (n_tasks posted_node) 0"
  using posted_session(2)
  by (auto simp: await_stuck_def posted_session(4) late_simps awaitStuckMicro_def has_task_def)

lemma released_session:
  "released_node = releaseAwait 0 posted_node" "given_up late_env [] [hexEncode (replicate 32 0)] posted_node = [0]"
  by (simp_all add: released_node_def clearStuckAwait_def clear_stuck_one_def posted_session(1) made_session posted_stuck)

lemma reposted_session:
  "n_sessions reposted_node = n_sessions made_node"
  "map task_job (n_tasks reposted_node) = [Some (0, jDepositA), Some (0, jDepositA)]"
  "ss_await (n_heap reposted_node 0)" "sessionKey (n_heap reposted_node 0) = hexEncode (replicate 32 0)"
  using posted_session(2)
  by (auto simp: reposted_node_def demo_simps late_simps released_session(1) releaseAwait_def posted_session(1,3,4)
      made_session createA_simps)

lemma late_run: "steps [quiet_env, quiet_env, late_env, late_env] [0] (idle_node, []) (reposted_node, [])"
proof -
  have "step late_env [0] (posted_node, []) (released_node, [])"
    using step.s_unstick [of late_env "[]" "[hexEncode (replicate 32 0)]" posted_node]
    unfolding released_session(2) released_node_def .
  from steps_append [OF demo_steps(3) [THEN one_step] steps_append [OF demo_steps(4) [THEN one_step]
        steps_append [OF one_step [OF this] demo_steps(5) [THEN one_step]]]]
  show ?thesis
    by simp
qed

text \<open>
  C1: every run of the engine from a node at rest, whatever the wallets, the disk and the network
  do, is a run of the abstract board of sessions and jobs, timeouts of guards included, and keeps
  its invariant.
\<close>

theorem engine_refines_board:
  assumes "rested n" and "steps es late (n, []) (n', run')"
  shows "board_run may goal (mset late) (board_of [] n) (board_of run' n') \<and> board_inv may (mset late) (board_of run' n')"
  using steps_bsim [OF assms(2), of "[]"] good_start [OF assms(1)] by (simp add: bsim_def good_def)

theorem engine_refines_board_witness:
  "board_run may goal {#0#} (board_of [] idle_node) (board_of [] reposted_node)
   \<and> board_inv may {#0#} (board_of [] reposted_node)"
  using engine_refines_board [OF idle_rested late_run] by simp

text \<open>
  C2: in every run from a node at rest the role of a session stays, and its state only moves
  forward, also when it was dropped from the table and when packets are delivered again. Only a
  session whose guard was released while a task of it was still outstanding may fall behind, and
  then not below the state its own deposit stands for.
\<close>

theorem session_never_rewinds:
  assumes "rested n" and "steps es late1 (n, []) (n1, run1)"
    and "steps fs late2 (n1, run1) (n2, run2)" and "p < n_next n1"
  shows "ss_isMaker (n_heap n2 p) = ss_isMaker (n_heap n1 p)
    \<and> (ss_state (n_heap n1 p) \<le> ss_state (n_heap n2 p)
       \<or> p \<in> set (late1 @ late2) \<and> (if ss_isMaker (n_heap n1 p) then csCreatedA else csCreatedB) \<le> ss_state (n_heap n2 p))"
proof -
  note good = run_good [OF assms(1,2)]
  have "bsim late2 (board_of run1 n1) (board_of run2 n2)"
    using steps_bsim [OF assms(3)] good by fastforce
  thus ?thesis
    using swap.run_mono [of "mset late2" "board_of run1 n1" "board_of run2 n2" "mset late1" p] good
      swap.run_keeps [of "mset late2" "board_of run1 n1" "board_of run2 n2" p] assms(4)
    by (simp add: bsim_def good_def deposit_state_def)
qed

theorem session_never_rewinds_witness:
  "ss_state (n_heap taken_node 0) = csTaker \<and> ss_state (n_heap inited_node 0) = csInitialized
   \<and> ss_state (n_heap taken_node 0) \<le> ss_state (n_heap inited_node 0)
   \<and> ss_isMaker (n_heap inited_node 0) = ss_isMaker (n_heap taken_node 0)"
proof -
  have "0 < n_next taken_node"
    by (simp add: taken_node_def newTakerSession_def install_def idle_node_def)
  thus ?thesis
    using session_never_rewinds [OF idle_rested demo_run(1,2), of 0] by (simp add: inited_session taken_session)
qed

lemma jobs_size: "size {#pj \<in># jobs ts. fst pj = p#} = length (filter (\<lambda>t. map_option fst (task_job t) = Some p) ts)"
  by (induction ts) (auto split: option.splits)

text \<open>
  C3: a live session has no more tasks, in the queue and with the workers together, than one while
  its guard is up and one for each time its guard was released before its task was done. So without
  such a release a session has at most one task, and while it has one its guard is up.
\<close>

theorem one_task_per_session:
  assumes "rested n" and "steps es late (n, []) (n', run')" and "sessionAlive n' p"
  shows "length (filter (\<lambda>t. map_option fst (task_job t) = Some p) (n_tasks n' @ run'))
    \<le> (if ss_await (n_heap n' p) then 1 else 0) + count_list late p"
proof -
  have "board_inv may (mset late) (board_of run' n')"
    using run_good [OF assms(1,2)] by (simp add: good_def)
  thus ?thesis
    using swap.invD(3) [of "mset late" "board_of run' n'" p] assms(3)
    by (simp add: b_jobs_def room_def count_mset jobs_size [of p "n_tasks n' @ run'", simplified])
qed

theorem one_task_per_session_witness:
  "map task_job (n_tasks reposted_node) = [Some (0, jDepositA), Some (0, jDepositA)]
   \<and> length (filter (\<lambda>t. map_option fst (task_job t) = Some 0) (n_tasks reposted_node @ []))
     \<le> (if ss_await (n_heap reposted_node 0) then 1 else 0) + count_list [0 :: nat] 0"
proof (rule conjI [OF reposted_session(2)])
  have "sessionAlive reposted_node 0"
    by (simp add: sessionAlive_def reposted_session made_session)
  thus "length (filter (\<lambda>t. map_option fst (task_job t) = Some 0) (n_tasks reposted_node @ []))
     \<le> (if ss_await (n_heap reposted_node 0) then 1 else 0) + count_list [0 :: nat] 0"
    by (rule one_task_per_session [OF idle_rested late_run])
qed

text \<open>
  What a release before its time allows: the deposit of the task given up on still leaves when its
  result arrives, and sets a session that has gone on meanwhile back.
\<close>

lemma late_deposit_rewinds:
  assumes "sessionAlive n p"
  shows "ss_state (n_heap (applyCreatedABroadcast e p out None n) p) = csCreatedA"
    and "ss_state (n_heap (applyCreatedBBroadcast e p cb None n) p) = csCreatedB"
proof -
  have core: "ss_state (n_heap m p) = st" if "view m = b_set p (\<lambda>c. c\<lparr>c_busy := False, c_st := st\<rparr>) (view n)" for m st
    using arg_cong [OF that, of "\<lambda>b. c_st (b_cell b p)"] by simp
  show "ss_state (n_heap (applyCreatedABroadcast e p out None n) p) = csCreatedA"
    by (rule core) (use assms in \<open>simp add: applyCreatedABroadcast_def Let_def frame view_releaseAwait released\<close>)
  show "ss_state (n_heap (applyCreatedBBroadcast e p cb None n) p) = csCreatedB"
    by (rule core) (use assms in \<open>simp add: applyCreatedBBroadcast_def Let_def frame view_releaseAwait released\<close>)
qed

end
