(* ===== verification/SwapGuards.thy ===== *)
theory SwapGuards
  imports SwapSafety
begin

text \<open>
  Single operations of the engine: who may move a session, what is on disk before a deposit
  leaves, what a repeated CreateA does to an earlier deposit, and how late refunds are tried again.
\<close>

section \<open>Signatures\<close>

definition hub_signer :: "Node \<Rightarrow> bytes \<Rightarrow> string set" where
  "hub_signer n i = (case live n (hexEncode i) of None \<Rightarrow> {} | Some s \<Rightarrow> {hexEncode (ss_hubKey s)})"

definition order_signers :: "Node \<Rightarrow> bytes \<Rightarrow> (Order \<Rightarrow> string set) \<Rightarrow> string set" where
  "order_signers n i f = (case Store_Get (n_store n) (hexEncode i) of None \<Rightarrow> {} | Some ord \<Rightarrow> f ord)"

definition signers :: "'k Env \<Rightarrow> Node \<Rightarrow> xbody \<Rightarrow> string set" where
  "signers e n body = (case body of
       XHold b \<Rightarrow> hub_signer n (hb_ID b) | XInit b \<Rightarrow> hub_signer n (ib_ID b) | XCreateA b \<Rightarrow> hub_signer n (cab_ID b)
     | XCreateB b \<Rightarrow> hub_signer n (cbb_ID b) | XConfirmA b \<Rightarrow> hub_signer n (cfab_ID b) | XConfirmB b \<Rightarrow> hub_signer n (cfbb_ID b)
     | XFinished b \<Rightarrow> hub_signer n (fb_ID b)
     | XCancel b \<Rightarrow> if e_exchangeStarted e
         then (case live n (hexEncode (clb_ID b)) of None \<Rightarrow> {} | Some s \<Rightarrow> {hexEncode (ss_pubKey s), hexEncode (ss_theirPub s)})
         else order_signers n (clb_ID b) (\<lambda>ord. {o_MakerKey ord, o_SNodePubkey ord, o_OtherPubkey ord})
     | XReject b \<Rightarrow> order_signers n (rjb_ID b) (\<lambda>ord. {o_SNodePubkey ord})
     | _ \<Rightarrow> {})"

lemma processSwap_unverified:
  assumes "\<forall>k \<in> hub_signer n i. \<not> verified e pkt k"
  shows "processSwap e pkt i hub fn n = n"
  using assms by (auto simp: processSwap_def hub_signer_def live_def verifyHubPacket_def split: option.splits)

lemma handleRemoteCancel_unverified:
  assumes "\<forall>k \<in> signers e n (XCancel b). \<not> verified e pkt k"
  shows "handleRemoteCancel e pkt b n = n"
  using assms by (auto simp: handleRemoteCancel_def signers_def order_signers_def Let_def split: option.splits if_splits)

lemma handleRemoteReject_unverified:
  assumes "\<forall>k \<in> signers e n (XReject b). \<not> verified e pkt k"
  shows "handleRemoteReject e pkt b n = n"
  using assms by (auto simp: handleRemoteReject_def signers_def order_signers_def Let_def split: option.splits)

text \<open>
  C4: a packet that does not verify under the key of the session's hub (for a cancel the keys of
  the order's maker, service node and counterparty, or of the session's two parties; for a reject
  the order's service node) leaves the node exactly as it was.
\<close>

theorem unsigned_packet_ignored:
  assumes "\<forall>k \<in> signers e n body. \<not> verified e pkt k"
  shows "handleSwapPacket e pkt body n = n"
  using assms
  by (cases body)
    (simp_all add: handleSwapPacket_def signers_def [of e n "XHold _"] signers_def [of e n "XInit _"] signers_def [of e n "XCreateA _"]
      signers_def [of e n "XCreateB _"] signers_def [of e n "XConfirmA _"] signers_def [of e n "XConfirmB _"]
      signers_def [of e n "XFinished _"] processSwap_unverified handleRemoteCancel_unverified handleRemoteReject_unverified)

theorem unsigned_packet_ignored_witness:
  "signers quiet_env taken_node (XInit init_body) = {hexEncode hub_key}
   \<and> handleSwapPacket quiet_env (hub_pkt\<lparr>p_Pubkey := replicate 33 0\<rparr>) (XInit init_body) taken_node = taken_node"
proof -
  have s: "signers quiet_env taken_node (XInit init_body) = {hexEncode hub_key}"
    by (simp add: signers_def hub_signer_def live_def taken_session init_body_def)
  have "\<not> verified quiet_env (hub_pkt\<lparr>p_Pubkey := replicate 33 0\<rparr>) (hexEncode hub_key)"
    using hub_key_nz by (simp add: verified_def VerifyAgainst_def hexEncode_def)
  thus ?thesis
    using unsigned_packet_ignored [of quiet_env taken_node "XInit init_body"] s by simp
qed

section \<open>The deposit and its refund\<close>

definition on_disk :: "Node \<Rightarrow> string \<Rightarrow> depositOutcome \<Rightarrow> bool" where
  "on_disk n key out \<longleftrightarrow> (\<exists>ss os s. n_disk n = Some (ss, os) \<and> ss key = Some s \<and> ss_ourDepositTxID s = do_txid out
     \<and> ss_ourLockTime s = do_lockTime out \<and> ss_refundHex s = do_refundHex out \<and> ss_depositHex s = do_depositHex out)"

lemma postSwapTask_tasks:
  "n_tasks (fst (postSwapTask e key t n)) = (if length (n_tasks n) < e_queueCap e then n_tasks n @ [t] else n_tasks n)"
  "n_disk (fst (postSwapTask e key t n)) = n_disk n"
  by (simp_all add: postSwapTask_def enqueue_def release_key_def releaseAwait_def upd_def split: option.splits)

lemma heap_simps [simp]:
  "n_heap (upd_order key f n) = n_heap n" "n_sessions (upd_order key f n) = n_sessions n" "n_tasks (upd_order key f n) = n_tasks n"
  "n_heap (upd p g n) q = (if q = p then g (n_heap n p) else n_heap n q)" "n_sessions (upd p g n) = n_sessions n"
  "n_tasks (upd p g n) = n_tasks n" "n_store (upd p g n) = n_store n"
  "n_heap (store_deposit key out n) = n_heap n" "n_sessions (store_deposit key out n) = n_sessions n"
  "n_tasks (store_deposit key out n) = n_tasks n"
  by (simp_all add: upd_order_def upd_def store_deposit_def)

lemma persistNow_simps [simp]:
  "n_heap (fst (persistNow e n)) = n_heap n" "n_sessions (fst (persistNow e n)) = n_sessions n"
  "n_tasks (fst (persistNow e n)) = n_tasks n" "n_store (fst (persistNow e n)) = n_store n"
  by (simp_all add: persistNow_def Let_def)

lemma clearDepositRetry_simps [simp]:
  "n_sessions (clearDepositRetry p n) = n_sessions n" "n_tasks (clearDepositRetry p n) = n_tasks n"
  "sessionKey (n_heap (clearDepositRetry p n) q) = sessionKey (n_heap n q)"
  by (simp_all add: clearDepositRetry_def sessionKey_def)

lemma applyCreatedA_disk:
  assumes "sessionAlive n p" and "e_dataDir e" and "n_tasks (applyCreatedA e p (Inr out) n) \<noteq> n_tasks n"
  shows "on_disk (applyCreatedA e p (Inr out) n) (sessionKey (n_heap n p)) out"
  using assms
  by (auto simp: applyCreatedA_def Let_def case_prod_beta postBroadcastTask_def postSwapTask_tasks releaseAwait_def
      on_disk_def persistNow_disk snapshotSwaps_def live_def sessionAlive_def split: if_splits)

lemma applyCreatedB_disk:
  assumes "sessionAlive n p" and "e_dataDir e" and "n_tasks (applyCreatedB e p (Inr cb) n) \<noteq> n_tasks n"
  shows "on_disk (applyCreatedB e p (Inr cb) n) (sessionKey (n_heap n p)) (cb_out cb)"
  using assms
  by (auto simp: applyCreatedB_def Let_def case_prod_beta postBroadcastTask_def postSwapTask_tasks releaseAwait_def
      on_disk_def persistNow_disk snapshotSwaps_def live_def sessionAlive_def split: if_splits)

text \<open>A wallet that answers nothing, and an outcome of a build.\<close>

definition dead_wallet :: Connector where
  "dead_wallet = \<lparr>cn_GetNewAddress = Inl (TErr []), cn_GetBlockCount = Inl (TErr []), cn_SignRawTransaction = (\<lambda>_ _. Inl (TErr [])),
     cn_SendRawTransaction = (\<lambda>_. Inl (TErr [])), cn_GetRawTransaction = (\<lambda>_. Inl (TErr [])),
     cn_GetRawTransactionVerbose = (\<lambda>_. Inl (TErr [])), cn_GetTxOut = (\<lambda>_ _. Inl (TErr [])),
     cn_CheckDepositTransaction = (\<lambda>_ _ _ _. Inl (TErr [])), cn_GetRawMempool = Inl (TErr []),
     cn_GetBlockHash = (\<lambda>_. Inl (TErr [])), cn_GetBlockTxs = (\<lambda>_. Inl (TErr []))\<rparr>"

definition new_deposit :: depositOutcome where
  "new_deposit = \<lparr>do_txid = ''cc'', do_lockTime = 900, do_refundHex = ''dd'', do_depositHex = ''ee'', do_conn = dead_wallet\<rparr>"

text \<open>
  C5: when the result of a deposit build queues a broadcast, the swap file on disk already holds
  the session with the deposit's id, lock time, bytes and pre-signed refund, for the maker and for
  the taker; if the file cannot be written, nothing is broadcast.
\<close>

theorem deposit_intent_first:
  assumes "sessionAlive n p" and "e_dataDir e"
  shows "(n_tasks (applyCreatedA e p (Inr out) n) \<noteq> n_tasks n
      \<longrightarrow> on_disk (applyCreatedA e p (Inr out) n) (sessionKey (n_heap n p)) out)
    \<and> (n_tasks (applyCreatedB e p (Inr cb) n) \<noteq> n_tasks n
      \<longrightarrow> on_disk (applyCreatedB e p (Inr cb) n) (sessionKey (n_heap n p)) (cb_out cb))"
  using applyCreatedA_disk applyCreatedB_disk assms by blast

theorem deposit_intent_first_witness:
  "on_disk (applyCreatedB quiet_env 0 (Inr \<lparr>cb_out = new_deposit, cb_check = no_check\<rparr>) building_node)
     (hexEncode (replicate 32 0)) new_deposit"
proof -
  let ?cb = "\<lparr>cb_out = new_deposit, cb_check = no_check\<rparr>"
  have alive: "sessionAlive building_node 0"
    by (simp add: sessionAlive_def building_session taken_session)
  have "length (n_tasks building_node) = 1"
    using arg_cong [OF building_session(2), of length] by simp
  moreover have "snd (persistNow quiet_env m)" for m
    by (simp add: persistNow_def quiet_env_def Let_def)
  ultimately have "n_tasks (applyCreatedB quiet_env 0 (Inr ?cb) building_node) \<noteq> n_tasks building_node"
    using alive by (simp add: applyCreatedB_def Let_def case_prod_beta postBroadcastTask_def postSwapTask_tasks quiet_simps)
  moreover have "e_dataDir quiet_env"
    by (simp add: quiet_env_def)
  ultimately show ?thesis
    using deposit_intent_first [OF alive, of quiet_env new_deposit ?cb] by (simp add: building_session)
qed

lemma Store_Get_upd_order [simp]: "Store_Get (n_store (upd_order k f n)) k = map_option f (Store_Get (n_store n) k)"
  by (simp add: upd_order_def Update_def Store_Get_def update_conv' split: option.splits)

lemma postSwapTask_simps [simp]:
  "n_store (fst (postSwapTask e key t n)) = n_store n" "n_sessions (fst (postSwapTask e key t n)) = n_sessions n"
  "ss_refundHex (n_heap (fst (postSwapTask e key t n)) q) = ss_refundHex (n_heap n q)"
  "ss_ourDepositTxID (n_heap (fst (postSwapTask e key t n)) q) = ss_ourDepositTxID (n_heap n q)"
  "sessionKey (n_heap (fst (postSwapTask e key t n)) q) = sessionKey (n_heap n q)"
  by (simp_all add: postSwapTask_def enqueue_def release_key_def releaseAwait_def sessionKey_def upd_def split: option.splits)

lemma applyCreatedA_replaces:
  assumes "sessionAlive n p"
  shows "ss_refundHex (n_heap (applyCreatedA e p (Inr out) n) p) = do_refundHex out"
    and "ss_ourDepositTxID (n_heap (applyCreatedA e p (Inr out) n) p) = do_txid out"
    and "Store_Get (n_store (applyCreatedA e p (Inr out) n)) (sessionKey (n_heap n p)) = Some ord \<Longrightarrow> o_RefundTx ord = do_refundHex out"
  using assms
  by (auto simp: applyCreatedA_def Let_def case_prod_beta postBroadcastTask_def releaseAwait_def store_deposit_def split: if_splits)

lemma OnCreateA_posts:
  assumes "ss_isMaker (n_heap n p)" and "ss_state (n_heap n p) < csCreatedA" and "\<not> ss_await (n_heap n p)"
    and "cab_BPubKey b \<noteq> replicate 33 0" and "length (n_tasks n) < e_queueCap e"
  shows "\<exists>c. n_tasks (fst (OnCreateA e b p n)) = n_tasks n @ [BuildA p c]"
    and "sessionAlive n p \<Longrightarrow> sessionAlive (fst (OnCreateA e b p n)) p"
    and "sessionKey (n_heap (fst (OnCreateA e b p n)) p) = sessionKey (n_heap n p)"
  using assms
  by (auto simp: OnCreateA_def Let_def holdAwait_def postSwapTask_tasks not_le sessionAlive_def)
     (simp_all add: sessionKey_def)

text \<open>
  C37: a CreateA that the hub sends again while the maker's first deposit is built but its
  broadcast has failed builds a second deposit, and the result replaces the pre-signed refund and
  the deposit id in the session and in the order: nothing of the first deposit is left.
\<close>

theorem createA_replaces_refund:
  fixes e e' :: "'k Env" and out :: depositOutcome and b :: CreateABody and p :: nat and n :: Node
  assumes "sessionAlive n p" and "ss_isMaker (n_heap n p)" and "ss_state (n_heap n p) < csCreatedA" and "\<not> ss_await (n_heap n p)"
    and "cab_BPubKey b \<noteq> replicate 33 0" and "length (n_tasks n) < e_queueCap e"
  defines "n1 \<equiv> fst (OnCreateA e b p n)"
  defines "n2 \<equiv> applyCreatedA e' p (Inr out) n1"
  shows "(\<exists>c. BuildA p c \<in> set (n_tasks n1)) \<and> ss_refundHex (n_heap n2 p) = do_refundHex out
    \<and> ss_ourDepositTxID (n_heap n2 p) = do_txid out
    \<and> (\<forall>ord. Store_Get (n_store n2) (sessionKey (n_heap n p)) = Some ord \<longrightarrow> o_RefundTx ord = do_refundHex out)"
proof -
  note posts = OnCreateA_posts [OF assms(2-6), folded n1_def]
  note new = applyCreatedA_replaces [OF posts(2) [OF assms(1)], of e' out, folded n2_def]
  show ?thesis
    using posts(1) new posts(3) by auto
qed

definition retry_node :: Node where
  "retry_node = install (zeroSession\<lparr>ss_isMaker := True, ss_state := csInitialized, ss_ourDepositTxID := ''0b'',
     ss_refundHex := ''0a'', ss_depositHex := ''0c''\<rparr>) idle_node"

theorem createA_replaces_refund_witness:
  "ss_refundHex (n_heap retry_node 0) = ''0a''
   \<and> ss_refundHex (n_heap (applyCreatedA quiet_env 0 (Inr new_deposit) (fst (OnCreateA quiet_env createA_body 0 retry_node))) 0) = ''dd''"
proof -
  have s: "sessionAlive retry_node 0" "n_heap retry_node 0 = zeroSession\<lparr>ss_isMaker := True, ss_state := csInitialized,
      ss_ourDepositTxID := ''0b'', ss_refundHex := ''0a'', ss_depositHex := ''0c''\<rparr>" "n_tasks retry_node = []"
    by (simp_all add: retry_node_def install_def idle_node_def sessionAlive_def)
  have "cab_BPubKey createA_body \<noteq> replicate 33 0"
    using hub_key_nz by (simp add: createA_body_def)
  thus ?thesis
    using createA_replaces_refund [of retry_node 0 createA_body quiet_env quiet_env new_deposit] s
    by (simp add: quiet_simps zeroSession_def cs_less new_deposit_def)
qed

section \<open>Schedules\<close>

lemma backoff_loop_min:
  "unat d < 2 * 86400000000 \<Longrightarrow> min 86400000000 (unat (backoff_loop i a d)) = min 86400000000 (unat d * 2 ^ (a - i))"
proof (induction i a d rule: backoff_loop.induct)
  case (1 i a d)
  have cap: "d < refundBackoffCapMicro \<longleftrightarrow> unat d < 86400000000"
    by (simp add: refundBackoffCapMicro_def word_less_nat_alt)
  show ?case
  proof (cases "i < a \<and> d < refundBackoffCapMicro")
    case True
    have "unat d * 2 < 2 ^ 64"
      using 1(2) by simp
    hence dbl: "unat (d * 2) = unat d * 2"
      by (simp add: unat_word_ariths)
    have "a - i = Suc (a - Suc i)"
      using True by (simp add: Suc_diff_Suc)
    hence "min 86400000000 (unat (backoff_loop (Suc i) a (d * 2))) = min 86400000000 (unat d * 2 ^ (a - i))"
      using 1(1) [OF True] True cap dbl by simp
    thus ?thesis
      using True by (simp add: backoff_loop.simps [of i a d])
  next
    case False
    hence "backoff_loop i a d = d"
      by (subst backoff_loop.simps) (rule if_not_P)
    moreover have "a - i = 0 \<or> 86400000000 \<le> unat d"
      using False cap by auto
    moreover have "86400000000 \<le> unat d * 2 ^ (a - i)" if "86400000000 \<le> unat d"
      by (rule order_trans [OF that]) simp
    ultimately show ?thesis
      by (auto simp: min_def)
  qed
qed

text \<open>
  The doubling loop of the refund backoff ends, never overflows and computes ten minutes times
  two to the number of earlier failures, capped at one day.
\<close>

theorem refund_delay_closed: "unat (refund_delay a) = min (24 * 3600 * 10 ^ 6) (600 * 10 ^ 6 * 2 ^ (a - 1))"
proof -
  have "min 86400000000 (unat (backoff_loop 1 a refundBackoffBaseMicro)) = min 86400000000 (600000000 * 2 ^ (a - 1))"
    using backoff_loop_min [of refundBackoffBaseMicro 1 a] by (simp add: refundBackoffBaseMicro_def)
  moreover have "unat (refund_delay a) = min 86400000000 (unat (backoff_loop 1 a refundBackoffBaseMicro))"
    by (simp add: refund_delay_def Let_def refundBackoffCapMicro_def word_less_nat_alt min_def)
  ultimately show ?thesis
    by simp
qed

end
