(* ===== verification/EngineProps.thy ===== *)
theory EngineProps
  imports SwapSafety "HOL-Library.Sublist"
begin

text \<open>
  What the engine's reader, its choice of a hub, its sweeps for silent hubs and its booking of
  announced orders promise.
\<close>

section \<open>Lemmas\<close>

definition good_packet :: "'k secp \<Rightarrow> Packet \<Rightarrow> bool" where
  "good_packet L pkt \<longleftrightarrow> \<not> isl (DecodeBody (p_Command pkt) (p_Body pkt)) \<and> Signer_Verify L pkt = Inr True"

definition passed :: "'k secp \<Rightarrow> read_event list \<Rightarrow> Packet list" where
  "passed L evs = List.map_filter (\<lambda>ev. case ev of RdPkt pkt \<Rightarrow> if good_packet L pkt then Some pkt else None | _ \<Rightarrow> None) evs"

definition malformed :: "read_event list \<Rightarrow> nat" where
  "malformed evs = length (filter ((=) (RdErr ErrMalformedXBridge)) evs)"

lemma passed_simps [simp]:
  "passed L [] = []" "passed L (xs @ ys) = passed L xs @ passed L ys"
  "passed L [RdTimeout] = []" "passed L [RdErr er] = []" "passed L [RdPkt pkt] = (if good_packet L pkt then [pkt] else [])"
  by (simp_all add: passed_def List.map_filter_def)

lemma malformed_simps [simp]:
  "malformed [] = 0" "malformed (xs @ [ev]) = malformed xs + (if ev = RdErr ErrMalformedXBridge then 1 else 0)"
  by (auto simp: malformed_def)

lemma readerLoop_snoc: "readerLoop L direct (evs @ [ev]) = readerLoop_step L direct ev (readerLoop L direct evs)"
  by (simp add: readerLoop_def)

lemma reader_packet:
  "\<not> rl_closed r \<Longrightarrow> readerLoop_step L direct (RdPkt pkt) r = (if good_packet L pkt then r\<lparr>rl_out := rl_out r @ [pkt]\<rparr> else r)"
  by (auto simp: readerLoop_step_def good_packet_def split: sum.splits)

lemma reader_state:
  "(rl_closed (readerLoop L direct evs) \<longleftrightarrow> RdTimeout \<in> set evs \<or> direct \<and> 10 \<le> malformed evs)
   \<and> (\<not> rl_closed (readerLoop L direct evs) \<longrightarrow> rl_score (readerLoop L direct evs) = (if direct then 10 * malformed evs else 0)
        \<and> rl_out (readerLoop L direct evs) = passed L evs)
   \<and> prefix (rl_out (readerLoop L direct evs)) (passed L evs)"
proof (induction evs rule: rev_induct)
  case (snoc ev evs)
  let ?r = "readerLoop L direct evs"
  show ?case
  proof (cases "rl_closed ?r")
    case True
    hence "readerLoop L direct (evs @ [ev]) = ?r"
      by (simp add: readerLoop_snoc readerLoop_step_def)
    thus ?thesis
      using True snoc.IH by (auto simp: prefix_def)
  next
    case False
    show ?thesis
    proof (cases ev)
      case (RdPkt pkt)
      thus ?thesis
        using False snoc.IH by (auto simp: readerLoop_snoc reader_packet)
    next
      case RdTimeout
      thus ?thesis
        using False snoc.IH by (auto simp: readerLoop_snoc readerLoop_step_def)
    next
      case (RdErr er)
      thus ?thesis
        using False snoc.IH by (auto simp: readerLoop_snoc readerLoop_step_def hubBanThreshold_def Let_def)
    qed
  qed
qed (simp add: readerLoop_def new_reader_def)

text \<open>The keys that hubExclusions returns are those whose exclusion has not lapsed.\<close>

definition silent :: "'k Env \<Rightarrow> Node \<Rightarrow> bytes \<Rightarrow> bool" where
  "silent e n k \<longleftrightarrow> (\<exists>until. n_silentHubs n k = Some until \<and> e_now e < until)"

lemma hubExclusions_keys: "set keys = dom (n_silentHubs n) \<Longrightarrow> set (snd (hubExclusions e keys n)) = {k. silent e n k}"
  by (auto simp: hubExclusions_def silent_def Let_def split: option.splits)

lemma Pick_member: "Pick ver now keys draw r svcs exclude = Some k \<Longrightarrow> k \<in> set keys \<and> eligible ver now svcs exclude r k"
  using nth_mem [of "draw mod length (filter (eligible ver now svcs exclude r) keys)" "filter (eligible ver now svcs exclude r) keys"]
  by (auto simp: Pick_def Let_def split: if_splits)

lemma Pick_none: "Pick ver now keys draw r svcs exclude = None \<Longrightarrow> k \<in> set keys \<Longrightarrow> \<not> eligible ver now svcs exclude r k"
  by (auto simp: Pick_def Let_def filter_empty_conv split: if_splits)

lemma eligible_exclude: "eligible ver now svcs exclude r k \<longleftrightarrow> k \<notin> set exclude \<and> eligible ver now svcs [] r k"
  by (simp add: eligible_def)

text \<open>A parked session whose last send is recent, as the resender leaves every one it sends for.\<close>

definition parked :: "SwapSession \<Rightarrow> bool" where
  "parked s \<longleftrightarrow> ss_state s = csHoldApplied \<and> ss_holdApplySentAt s \<noteq> 0"

definition recent :: "'k Env \<Rightarrow> SwapSession \<Rightarrow> bool" where
  "recent e s \<longleftrightarrow> \<not> parked s \<or> e_now e \<le> ss_holdApplySentAt s \<or> e_now e - ss_holdApplySentAt s < holdApplyResendMicro"

text \<open>What a resend needs: no task in flight, a source address that decodes, a key that signs, a disk and a wire that work.\<close>

definition can_resend :: "'k Env \<Rightarrow> SwapSession \<Rightarrow> bool" where
  "can_resend e s \<longleftrightarrow> \<not> ss_await s \<and> \<not> isl (holdApplySource e s) \<and> length (ss_privKey s) = 32
     \<and> (\<forall>body. \<not> isl (Signer_Sign (e_secp e) (NewPacket (e_version e) (e_unix e) XbcTransactionHoldApply body) (ss_privKey s)))"

definition wire_ok :: "'k Env \<Rightarrow> bool" where
  "wire_ok e \<longleftrightarrow> e_connected e \<and> \<not> e_diskErr e \<and> \<not> e_writeErr e"

lemma send_keeps:
  "n_heap (fst (send e d cmd body priv n)) = n_heap n" "n_sessions (fst (send e d cmd body priv n)) = n_sessions n"
  "n_silentHubs (fst (send e d cmd body priv n)) = n_silentHubs n"
  by (auto simp: send_def persistNow_def Let_def split: sum.splits)

lemma send_ok:
  assumes "wire_ok e" and "can_resend e s"
  shows "snd (send e d XbcTransactionHoldApply body (ss_privKey s) n)"
proof -
  obtain pkt where "Signer_Sign (e_secp e) (NewPacket (e_version e) (e_unix e) XbcTransactionHoldApply body) (ss_privKey s) = Inr pkt"
    using assms(2) unfolding can_resend_def by (metis isl_def sum.exhaust_sel)
  thus ?thesis
    using assms by (simp add: send_def persistNow_def wire_ok_def can_resend_def Let_def)
qed

lemma resend_one_keeps:
  "n_sessions (resend_one e key n) = n_sessions n" "n_silentHubs (resend_one e key n) = n_silentHubs n"
  "n_heap (resend_one e key n) p = n_heap n p \<or> n_heap (resend_one e key n) p = (n_heap n p)\<lparr>ss_holdApplySentAt := e_now e\<rparr>"
  by (auto simp: resend_one_def Let_def case_prod_beta upd_def send_keeps split: option.splits sum.splits)

lemma resend_one_recent:
  assumes "wire_ok e" and "n_sessions n key = Some p" and "can_resend e (n_heap n p)"
  shows "recent e (n_heap (resend_one e key n) p)"
proof (cases "recent e (n_heap n p)")
  case False
  then obtain src where "holdApplySource e (n_heap n p) = Inr src"
    using assms(3) by (cases "holdApplySource e (n_heap n p)") (auto simp: can_resend_def)
  thus ?thesis
    using False assms send_ok [OF assms(1,3)]
    by (auto simp: resend_one_def recent_def parked_def can_resend_def Let_def case_prod_beta upd_def send_keeps)
qed (use resend_one_keeps(3) [of e key n p] in \<open>auto simp: recent_def parked_def\<close>)

lemma recent_kept: "recent e (n_heap n p) \<Longrightarrow> recent e (n_heap (resend_one e key n) p)"
  using resend_one_keeps(3) [of e key n p] by (auto simp: recent_def)

lemma can_resend_stamp: "can_resend e (s\<lparr>ss_holdApplySentAt := t\<rparr>) = can_resend e s"
  by (simp add: can_resend_def holdApplySource_def cong: option.case_cong)

lemma can_resend_kept: "can_resend e (n_heap n p) \<Longrightarrow> can_resend e (n_heap (resend_one e key n) p)"
  using resend_one_keeps(3) [of e key n p] can_resend_stamp by metis

lemma resend_fold:
  assumes "wire_ok e" and "n_sessions n key = Some p" and "can_resend e (n_heap n p)" and "key \<in> set keys \<or> recent e (n_heap n p)"
  shows "recent e (n_heap (fold (resend_one e) keys n) p)"
  using assms
proof (induction keys arbitrary: n)
  case (Cons k keys)
  have "key \<in> set keys \<or> recent e (n_heap (resend_one e k n) p)"
    using Cons.prems recent_kept resend_one_recent by fastforce
  with Cons.prems show ?case
    by (simp add: Cons.IH resend_one_keeps can_resend_kept)
qed simp

lemma fold_resend_keeps:
  "n_sessions (fold (resend_one e) keys n) = n_sessions n" "n_silentHubs (fold (resend_one e) keys n) = n_silentHubs n"
  by (induction keys arbitrary: n) (simp_all add: resend_one_keeps)

lemma silent_one_recent:
  assumes "\<And>p. n_sessions n key = Some p \<Longrightarrow> recent e (n_heap n p)"
  shows "silent_one e key n = n"
proof (cases "n_sessions n key")
  case (Some p)
  have "(60000000 :: u64) < 600000000"
    by simp
  hence "d < hubSilenceMicro" if "d < holdApplyResendMicro" for d :: u64
    using that unfolding hubSilenceMicro_def holdApplyResendMicro_def by (simp add: order.strict_trans)
  thus ?thesis
    using assms [OF Some] Some by (auto simp: silent_one_def live_def recent_def parked_def Let_def)
qed (simp add: silent_one_def live_def)

section \<open>The other stages of the tick\<close>

text \<open>What the silence of a hub is judged by, and what a resend needs, as two abstractions of the node.\<close>

definition hview :: "Node \<Rightarrow> (nat \<Rightarrow> bytes \<times> bool \<times> clientState \<times> bool \<times> string \<times> string \<times> bytes \<times> u64) \<times> (string \<rightharpoonup> nat) \<times> (bytes \<rightharpoonup> u64)" where
  "hview n = (\<lambda>p. sess_core (n_heap n p), n_sessions n, n_silentHubs n)"

definition tview :: "Node \<Rightarrow> (nat \<Rightarrow> clientState \<times> u64) \<times> (string \<rightharpoonup> nat) \<times> (bytes \<rightharpoonup> u64)" where
  "tview n = (\<lambda>p. (ss_state (n_heap n p), ss_holdApplySentAt (n_heap n p)), n_sessions n, n_silentHubs n)"

interpretation hold: node_frame hview
  by unfold_locales (simp_all add: hview_def upd_def fun_eq_iff)

interpretation parking: node_frame tview
  by unfold_locales (simp_all add: tview_def upd_def fun_eq_iff sess_core_def)

lemma tview_upd [frame]:
  "ss_state (f (n_heap n p)) = ss_state (n_heap n p) \<Longrightarrow> ss_holdApplySentAt (f (n_heap n p)) = ss_holdApplySentAt (n_heap n p)
    \<Longrightarrow> tview (upd p f n) = tview n"
  by (simp add: tview_def upd_def fun_eq_iff)

lemma tview_guard [frame]: "tview (holdAwait e p n) = tview n" "tview (releaseAwait p n) = tview n" "tview (release_key i n) = tview n"
  by (simp_all add: holdAwait_def releaseAwait_def release_key_def frame split: option.split)

lemma tview_enqueue [frame]: "tview (fst (enqueue e t n)) = tview n" "tview (fst (postSwapTask e i t n)) = tview n"
  by (simp_all add: postSwapTask_def enqueue_def Let_def frame) (simp_all add: tview_def)

lemma tview_state: "tview (upd p (\<lambda>s. s\<lparr>ss_state := st\<rparr>) n) = ((fst (tview n))(p := (st, snd (fst (tview n) p))), snd (tview n))"
  by (simp add: tview_def upd_def fun_eq_iff)

text \<open>A change that parks no session and moves no time stamp of a parked one.\<close>

definition calm :: "Node \<Rightarrow> Node \<Rightarrow> bool" where
  "calm n m \<longleftrightarrow> snd (tview m) = snd (tview n)
     \<and> (\<forall>p. fst (fst (tview m) p) = csHoldApplied \<longrightarrow> fst (tview m) p = fst (tview n) p)"

lemma calm_same: "tview m = tview n \<Longrightarrow> calm n m"
  by (simp add: calm_def)

lemma calm_trans: "calm n m \<Longrightarrow> calm m k \<Longrightarrow> calm n k"
  by (auto simp: calm_def)

lemma calm_state: "tview m = tview (upd p (\<lambda>s. s\<lparr>ss_state := st\<rparr>) n) \<Longrightarrow> st \<noteq> csHoldApplied \<Longrightarrow> calm n m"
  by (auto simp: calm_def tview_state)

lemma calm_fold: "(\<And>x n. calm n (f x n)) \<Longrightarrow> calm n (fold f xs n)"
  by (induction xs arbitrary: n) (auto intro: calm_same calm_trans)

lemma calm_broadcast:
  "calm n (applyCreatedABroadcast e p out None n)" "calm n (applyCreatedBBroadcast e p cb None n)"
  "calm n (applyConfirmedABroadcast e p co None n)" "calm n (applyConfirmedBBroadcast e p co None n)"
proof -
  have st: "tview (upd p (\<lambda>s. s\<lparr>ss_state := st\<rparr>) m) = tview (upd p (\<lambda>s. s\<lparr>ss_state := st\<rparr>) n)" if "tview m = tview n" for st m
    by (simp add: tview_state that)
  show "calm n (applyCreatedABroadcast e p out None n)"
    by (cases "sessionAlive n p") (auto simp: applyCreatedABroadcast_def Let_def frame calm_same intro!: calm_state [of _ p csCreatedA] st)
  show "calm n (applyCreatedBBroadcast e p cb None n)"
    by (cases "sessionAlive n p") (auto simp: applyCreatedBBroadcast_def Let_def frame calm_same intro!: calm_state [of _ p csCreatedB] st)
  show "calm n (applyConfirmedABroadcast e p co None n)"
    by (cases "sessionAlive n p") (auto simp: applyConfirmedABroadcast_def Let_def frame calm_same intro!: calm_state [of _ p csFinished] st)
  show "calm n (applyConfirmedBBroadcast e p co None n)"
    by (cases "sessionAlive n p") (auto simp: applyConfirmedBBroadcast_def Let_def frame calm_same intro!: calm_state [of _ p csFinished] st)
qed

lemma calm_adopt: "calm n (adoptOrRepostDeposit e p n)" "calm n (adoptOrRepostClaim e p n)"
proof -
  have t0: "calm n (upd p (\<lambda>s. s\<lparr>ss_depositRetryAt := t\<rparr>) n)" "calm n (upd p (\<lambda>s. s\<lparr>ss_claimRetryAt := t\<rparr>) n)" for t
    by (simp_all add: calm_same frame)
  show "calm n (adoptOrRepostDeposit e p n)"
    by (auto simp: adoptOrRepostDeposit_def Let_def case_prod_beta postBroadcastTask_def t0 calm_same frame
        intro!: calm_trans [OF t0(1) calm_broadcast(1)] calm_trans [OF t0(1) calm_broadcast(2)] split: option.split)
  show "calm n (adoptOrRepostClaim e p n)"
    by (auto simp: adoptOrRepostClaim_def Let_def case_prod_beta postBroadcastTask_def t0 calm_same frame
        intro!: calm_trans [OF t0(2) calm_broadcast(3)] calm_trans [OF t0(2) calm_broadcast(4)] split: option.split)
qed

lemma calm_rebuild: "calm n (rebuild_deposit e i p t n)" "calm n (rebuild_claim e i p t n)"
  by (simp_all add: rebuild_deposit_def rebuild_claim_def Let_def case_prod_beta calm_same frame)

lemma calm_retries: "calm n (retryFailedDepositBuilds e keys n)" "calm n (retryFailedClaimBuilds e keys n)"
proof -
  have "calm n (retry_deposit_one e i n)" "calm n (retry_claim_one e i n)" for i n
    by (simp_all add: retry_deposit_one_def retry_claim_one_def Let_def calm_same frame calm_adopt calm_rebuild split: option.split)
  thus "calm n (retryFailedDepositBuilds e keys n)" "calm n (retryFailedClaimBuilds e keys n)"
    unfolding retryFailedDepositBuilds_def retryFailedClaimBuilds_def by (blast intro: calm_fold)+
qed

text \<open>The premise of the property, stage by stage, and what the stages after the sweep keep.\<close>

definition resendable :: "'k Env \<Rightarrow> Node \<Rightarrow> bool" where
  "resendable e n \<longleftrightarrow> (\<forall>key p. n_sessions n key = Some p \<longrightarrow> parked (n_heap n p) \<longrightarrow> can_resend e (n_heap n p))"

lemma can_resend_core:
  assumes "sess_core s = sess_core t"
  shows "parked s = parked t" "can_resend e s = can_resend e t"
  using assms by (simp_all add: sess_core_def parked_def can_resend_def holdApplySource_def cong: option.case_cong)

lemma resendable_cong: "hview m = hview n \<Longrightarrow> resendable e m = resendable e n"
  using can_resend_core(1) [of "n_heap m p" "n_heap n p" for p] can_resend_core(2) [of "n_heap m p" "n_heap n p" e for p]
  by (simp add: resendable_def hview_def fun_eq_iff)

lemma clearStuck_keeps:
  "n_sessions (clearStuckAwait e keys n) = n_sessions n" "n_silentHubs (clearStuckAwait e keys n) = n_silentHubs n"
  "resendable e' n \<Longrightarrow> resendable e' (clearStuckAwait e keys n)"
proof -
  have one: "n_sessions (clear_stuck_one e k n) = n_sessions n" "n_silentHubs (clear_stuck_one e k n) = n_silentHubs n"
    "resendable e' n \<Longrightarrow> resendable e' (clear_stuck_one e k n)" for k n
    by (auto simp: clear_stuck_one_def releaseAwait_def upd_def resendable_def parked_def can_resend_def holdApplySource_def
        cong: option.case_cong split: option.splits)
  show "n_sessions (clearStuckAwait e keys n) = n_sessions n" "n_silentHubs (clearStuckAwait e keys n) = n_silentHubs n"
    "resendable e' n \<Longrightarrow> resendable e' (clearStuckAwait e keys n)"
    unfolding clearStuckAwait_def by (induction keys arbitrary: n) (simp_all add: one)
qed

lemma calm_recent:
  assumes "calm n m" and "\<forall>key p. n_sessions n key = Some p \<longrightarrow> recent e (n_heap n p)"
  shows "\<forall>key p. n_sessions m key = Some p \<longrightarrow> recent e (n_heap m p)"
  using assms unfolding calm_def tview_def recent_def parked_def by (auto simp: fun_eq_iff)

lemma silent_sweep:
  assumes "\<forall>key p. n_sessions n key = Some p \<longrightarrow> recent e (n_heap n p)"
  shows "recordSilentHubs e keys n = n"
proof -
  have "silent_one e key n = n" for key
    by (rule silent_one_recent) (use assms in blast)
  thus ?thesis
    unfolding recordSilentHubs_def by (induction keys) simp_all
qed

lemma hview_silent: "hview m = hview n \<Longrightarrow> n_silentHubs m = n_silentHubs n"
  by (simp add: hview_def)

lemma later_stages:
  "n_silentHubs (persist e (pruneTakeRetries (pruneSessions (pruneTracked txids (rebroadcastUnconfirmed e txids
     (pollBroadcastConfirmations e txids (watchOwnDepositSpends e keys (watchCounterpartyDeposits e keys
       (gcStaleMineOrders e txids (watchStalledSessions e keys n)))))))))) = n_silentHubs n"
proof -
  have "n_silentHubs (pruneSessions m) = n_silentHubs m" for m
    by (simp add: pruneSessions_def Let_def)
  moreover have "n_silentHubs (persist e (pruneTakeRetries m)) = n_silentHubs m" for m
    by (rule hview_silent) (simp add: frame)
  ultimately show ?thesis
    by simp (rule hview_silent, simp add: frame)
qed

lemma tick_stages:
  "tick e keys txids n = persist e (pruneTakeRetries (pruneSessions (pruneTracked txids (rebroadcastUnconfirmed e txids
     (pollBroadcastConfirmations e txids (watchOwnDepositSpends e keys (watchCounterpartyDeposits e keys
       (gcStaleMineOrders e txids (watchStalledSessions e keys (recordSilentHubs e keys (retryFailedDepositBuilds e keys
         (retryFailedClaimBuilds e keys (resendHoldApplies e keys (scanStoredRefunds e (scanRefunds e keys (clearStuckAwait e keys n))))))))))))))))"
  by (simp add: tick_def tickStages_def)

lemma resend_recent:
  assumes "wire_ok e" and "resendable e n" and "dom (n_sessions n) \<subseteq> set keys"
  shows "\<forall>key p. n_sessions (resendHoldApplies e keys n) key = Some p \<longrightarrow> recent e (n_heap (resendHoldApplies e keys n) p)"
proof (intro allI impI)
  fix key p
  assume "n_sessions (resendHoldApplies e keys n) key = Some p"
  hence p: "n_sessions n key = Some p"
    by (simp add: resendHoldApplies_def fold_resend_keeps)
  have in_keys: "key \<in> set keys"
    using p assms(3) by auto
  show "recent e (n_heap (resendHoldApplies e keys n) p)"
  proof (cases "parked (n_heap n p)")
    case True
    hence "can_resend e (n_heap n p)"
      using assms(2) p by (auto simp: resendable_def)
    thus ?thesis
      unfolding resendHoldApplies_def using resend_fold [OF assms(1) p] in_keys by blast
  next
    case False
    have "recent e (n_heap (fold (resend_one e) ks m) p)" if "recent e (n_heap m p)" for ks m
      using that by (induction ks arbitrary: m) (simp_all add: recent_kept)
    thus ?thesis
      using False by (simp add: resendHoldApplies_def recent_def)
  qed
qed

lemma HasOrder_Touch: "HasOrder (fst (Touch now s i)) k = HasOrder s k"
  by (auto simp: HasOrder_def Touch_def AList.update_conv' split: option.splits)

lemma HasOrder_Add: "HasOrder (Add s ord) k \<longleftrightarrow> HasOrder s k \<or> k = orderKey (o_ID ord)"
  by (auto simp: HasOrder_def Add_def AList.update_conv')

section \<open>Properties\<close>

text \<open>
  What the reader passes on to the engine are packets whose body decodes and whose signature
  verifies, in the order they arrived, and none of those is left out while the connection is open.
  The connection is closed by an idle timeout, or, on a direct connection, by the tenth malformed
  envelope, and by nothing else.
\<close>

theorem readerLoop_exact:
  "(rl_closed (readerLoop L direct evs) \<longleftrightarrow> RdTimeout \<in> set evs \<or> direct \<and> 10 \<le> malformed evs)
   \<and> (rl_closed (readerLoop L direct evs) \<or> rl_out (readerLoop L direct evs) = passed L evs)
   \<and> prefix (rl_out (readerLoop L direct evs)) (passed L evs)"
  using reader_state by blast

text \<open>
  A hub that is marked silent is chosen for a new order only when every hub that qualifies is
  marked silent too, and none is chosen only when none qualifies.
\<close>

theorem pickHub_avoids_silent:
  assumes "set keys = dom (n_silentHubs n)"
  shows "case snd (pickHub e (Some sr) keys cur n) of
      Some k \<Rightarrow> k \<in> set (sr_keys sr) \<and> eligible (e_version e) (e_unix e) cur [] (sr_reg sr) k
        \<and> (silent e n k \<longrightarrow> (\<forall>h \<in> set (sr_keys sr). eligible (e_version e) (e_unix e) cur [] (sr_reg sr) h \<longrightarrow> silent e n h))
    | None \<Rightarrow> \<not> (\<exists>k \<in> set (sr_keys sr). eligible (e_version e) (e_unix e) cur [] (sr_reg sr) k)"
proof -
  define excl where "excl = snd (hubExclusions e keys n)"
  have excl: "k \<in> set excl \<longleftrightarrow> silent e n k" for k
    using hubExclusions_keys [OF assms, of e] by (simp add: excl_def)
  let ?first = "reg_pick e sr (sr_draw sr) cur excl" and ?any = "reg_pick e sr (sr_draw2 sr) cur []"
  have pick: "snd (pickHub e (Some sr) keys cur n) = (case (if excl \<noteq> [] then ?first else None) of Some k \<Rightarrow> Some k | None \<Rightarrow> ?any)"
    by (simp add: pickHub_def excl_def case_prod_beta Let_def split: option.splits)
  show ?thesis
  proof (cases "if excl \<noteq> [] then ?first else None")
    case (Some k)
    hence "k \<in> set (sr_keys sr)" "eligible (e_version e) (e_unix e) cur excl (sr_reg sr) k"
      using Pick_member unfolding reg_pick_def by (auto split: if_splits)
    thus ?thesis
      using Some excl [of k] by (auto simp: pick eligible_exclude [of _ _ _ excl])
  next
    case None
    have all: "silent e n h" if "h \<in> set (sr_keys sr)" "eligible (e_version e) (e_unix e) cur [] (sr_reg sr) h" "silent e n k" for h k
    proof -
      have "excl \<noteq> []"
        using excl [of k] that(3) by auto
      with None have "\<not> eligible (e_version e) (e_unix e) cur excl (sr_reg sr) h"
        using Pick_none that(1) unfolding reg_pick_def by (auto split: if_splits)
      thus ?thesis
        using that(2) excl [of h] eligible_exclude [of _ _ _ excl] by blast
    qed
    show ?thesis
    proof (cases ?any)
      case (Some k)
      hence "k \<in> set (sr_keys sr)" "eligible (e_version e) (e_unix e) cur [] (sr_reg sr) k"
        using Pick_member unfolding reg_pick_def by auto
      thus ?thesis
        using None Some all by (auto simp: pick)
    next
      case none: None
      thus ?thesis
        using None Pick_none unfolding reg_pick_def by (auto simp: pick reg_pick_def)
    qed
  qed
qed

text \<open>
  C39: a tick in which every parked session can be resent for records no hub as silent, however long
  the hubs have not answered: the resend sets the time that the silence is measured from, and the
  sweep for silent hubs comes after it in the same tick. Sessions that are not parked may be in any
  state.
\<close>

theorem resend_hides_silence:
  assumes "wire_ok e" and "\<forall>key p. n_sessions n key = Some p \<longrightarrow> parked (n_heap n p) \<longrightarrow> can_resend e (n_heap n p)"
    and "dom (n_sessions n) \<subseteq> set keys"
  shows "n_silentHubs (tick e keys txids n) = n_silentHubs n"
proof -
  define n1 where "n1 = clearStuckAwait e keys n"
  define n3 where "n3 = scanStoredRefunds e (scanRefunds e keys n1)"
  define n4 where "n4 = resendHoldApplies e keys n3"
  define n6 where "n6 = retryFailedDepositBuilds e keys (retryFailedClaimBuilds e keys n4)"
  have h3: "hview n3 = hview n1"
    by (simp add: n3_def frame)
  have "resendable e n1" "n_sessions n3 = n_sessions n"
    using assms(2) h3 by (simp_all add: n1_def clearStuck_keeps resendable_def [symmetric]) (simp add: hview_def clearStuck_keeps)
  hence "\<forall>key p. n_sessions n4 key = Some p \<longrightarrow> recent e (n_heap n4 p)"
    unfolding n4_def by (intro resend_recent) (use assms(1,3) resendable_cong [OF h3, of e] in simp_all)
  moreover have calm: "calm n4 n6"
    unfolding n6_def by (rule calm_trans [OF calm_retries(2,1)])
  ultimately have "recordSilentHubs e keys n6 = n6"
    using calm_recent silent_sweep by blast
  hence "n_silentHubs (tick e keys txids n) = n_silentHubs n6"
    by (simp add: tick_stages later_stages n6_def n4_def n3_def n1_def)
  also have "\<dots> = n_silentHubs n"
    using calm hview_silent [OF h3] by (simp add: calm_def tview_def n4_def n1_def resendHoldApplies_def fold_resend_keeps clearStuck_keeps)
  finally show ?thesis .
qed

text \<open>
  C38: every order announced on the wire is in the book, or in its history, as soon as it is handled,
  and no check of its funds is queued: an announcement carries no funding outputs, and only an order
  that lists some is checked.
\<close>

theorem announced_order_unchecked:
  "HasOrder (n_store (ingestPending e c b snode n)) (orderKey (pb_ID b)) \<and> n_tasks (ingestPending e c b snode n) = n_tasks n"
proof -
  let ?ord = "(normalizeFromPendingBody b snode)\<lparr>o_BlockNumber := cachedBlockHeight e c\<rparr>"
  have "o_Utxos ?ord = []" "o_ID ?ord = pb_ID b"
    by (simp_all add: normalizeFromPendingBody_def zeroOrder_def)
  hence "verifyAndBook e ?ord m = book ?ord m" "hexEncode (o_ID ?ord) = orderKey (pb_ID b)" for m
    by (simp_all add: verifyAndBook_def orderKey_def)
  moreover have "snd (Touch now s i) \<Longrightarrow> HasOrder s i" for now s i
    by (auto simp: Touch_def HasOrder_def split: option.splits)
  ultimately show ?thesis
    unfolding ingestPending_def Let_def case_prod_beta by (simp add: HasOrder_Touch HasOrder_Add book_def \<open>o_ID ?ord = pb_ID b\<close>)
qed

text \<open>
  An order that does list funding outputs, of a coin with a wallet, does not enter the book by
  itself, and enters it after the worker's check only if that check proved funds of its amount.
\<close>

theorem listed_funds_need_proof:
  assumes "o_Utxos ord \<noteq> []" and "e_connectors e (o_FromCurrency ord) = Some conn"
    and "Coin_Get (e_coins e) (o_FromCurrency ord) = Some coin"
  shows "n_store (verifyAndBook e ord n) = n_store n
    \<and> HasOrder (n_store (applyVerified ord (run_VerifyOrder vm conn coin ord) m)) k
      = (HasOrder (n_store m) k \<or> k = orderKey (o_ID ord) \<and> verifyOrderUtxos vm conn coin (o_Utxos ord) (o_FromAmount ord))"
  using assms by (auto simp: verifyAndBook_def enqueue_def applyVerified_def run_VerifyOrder_def book_def HasOrder_Add orderKey_def)

section \<open>Examples\<close>

text \<open>A session parked for ten seconds less than an hour, with a wallet and a wire that work.\<close>

definition parked_env :: "bytes Env" where
  "parked_env = quiet_env\<lparr>e_now := 3600000000, e_coins := (\<lambda>_. Some sample), e_connected := True\<rparr>"

definition parked_node :: Node where
  "parked_node = upd 0 (\<lambda>s. s\<lparr>ss_state := csHoldApplied, ss_holdApplySentAt := 10000000,
     ss_ourSourceAddr := Address_String (proof_address sample (replicate 20 9))\<rparr>) taken_node"

lemma parked_can_resend: "can_resend parked_env (n_heap parked_node 0)"
proof -
  obtain a where "DecodeAddress sample (Address_String (proof_address sample (replicate 20 9))) = Inr a"
    using proof_address_decodes [of sample "replicate 20 9"] by (auto simp: keyed_coin_def sample_def)
  thus ?thesis
    by (simp add: can_resend_def holdApplySource_def parked_node_def parked_env_def taken_session upd_def Coin_Get_def
        t_bind_def of_go_def Signer_Sign_def zeroSession_def Let_def)
qed

theorem resend_hides_silence_witness:
  "n_silentHubs (tick parked_env [hexEncode (replicate 32 0)] [] parked_node) = n_silentHubs parked_node
   \<and> parked (n_heap parked_node 0) \<and> e_now parked_env - ss_holdApplySentAt (n_heap parked_node 0) > 5 * hubSilenceMicro"
proof -
  have sess: "n_sessions parked_node = [hexEncode (replicate 32 0) \<mapsto> 0]"
    by (simp add: parked_node_def upd_def taken_session)
  have "wire_ok parked_env"
    by (simp add: wire_ok_def parked_env_def quiet_env_def)
  moreover have "\<forall>key p. n_sessions parked_node key = Some p \<longrightarrow> parked (n_heap parked_node p) \<longrightarrow> can_resend parked_env (n_heap parked_node p)"
    using parked_can_resend by (auto simp: sess split: if_splits)
  ultimately have "n_silentHubs (tick parked_env [hexEncode (replicate 32 0)] [] parked_node) = n_silentHubs parked_node"
    by (rule resend_hides_silence) (simp add: sess)
  thus ?thesis
    by (simp add: parked_def parked_node_def parked_env_def upd_def hubSilenceMicro_def)
qed

definition demo_sr :: snreg where
  "demo_sr = \<lparr>sr_reg = fst (AddPing demo_lib 1700000100 demo_hub None NewRegistry), sr_keys = [demo_key], sr_draw = 3, sr_draw2 = 5\<rparr>"

theorem pickHub_avoids_silent_witness:
  "\<exists>k. snd (pickHub (quiet_env\<lparr>e_unix := 1700000200\<rparr>) (Some demo_sr) [demo_key] [''LTC''] (idle_node\<lparr>n_silentHubs := [demo_key \<mapsto> 5000]\<rparr>)) = Some k
     \<and> silent (quiet_env\<lparr>e_unix := 1700000200\<rparr>) (idle_node\<lparr>n_silentHubs := [demo_key \<mapsto> 5000]\<rparr>) k"
proof -
  let ?e = "quiet_env\<lparr>e_unix := 1700000200\<rparr>" and ?n = "idle_node\<lparr>n_silentHubs := [demo_key \<mapsto> 5000]\<rparr>"
  have el: "eligible (e_version ?e) (e_unix ?e) [''LTC''] [] (sr_reg demo_sr) demo_key"
    unfolding demo_sr_def demo_accepted snreg.simps
    by (simp add: eligible_def entry_of_ping_def running_def runningWindow_def clampPingTime_def containsAll_def quiet_env_def)
      (simp add: demo_hub_def demo_node_def)
  have "set [demo_key] = dom (n_silentHubs ?n)"
    by simp
  note pickHub_avoids_silent [OF this, where e = ?e and sr = demo_sr and cur = "[''LTC'']"]
  moreover have "sr_keys demo_sr = [demo_key]"
    by (simp add: demo_sr_def)
  moreover have "silent ?e ?n demo_key"
    by (simp add: silent_def quiet_env_def)
  ultimately show ?thesis
    using el by (auto split: option.splits)
qed

end
