(* ===== verification/OrderEntry.thy ===== *)
theory OrderEntry
  imports Engine OrderCommit
begin

text \<open>
  Making and taking an order up to the engine unit that commits it: \<^verbatim>\<open>MakeOrder\<close> and \<^verbatim>\<open>TakeOrder\<close> of
  \<^verbatim>\<open>api/node.go\<close> with their checks in the source's order. They run on a goroutine of the HTTP server, so
  the engine and other handlers act on the node in between: \<open>oth\<close> stands for what they do. A taken
  order is returned with the two sizes its rendering shows.
\<close>

section \<open>What the handlers read\<close>

text \<open>
  The wallets beyond the calls a swap uses, the random draws of a new key, the secret of a maker
  session, the text of a wallet error (\<open>h_txt\<close>), of a disk and of a wire error, and the registry.
\<close>

record handler_env =
  h_listUnspent :: "string \<Rightarrow> int \<Rightarrow> Utxo list task"
  h_zeroConf :: "Utxo list task"
  h_balance :: "u64 task"
  h_signMessage :: "string \<Rightarrow> string \<Rightarrow> string \<Rightarrow> bytes task"
  h_draws :: "bytes task list"
  h_secret :: "bytes option"
  h_rip :: "bytes \<Rightarrow> bytes"
  h_srt :: sorter
  h_txt :: "task_err \<Rightarrow> string"
  h_dtxt :: string
  h_wtxt :: string
  h_reg :: "snreg option"
  h_hubs :: "bytes list"

definition errFundsNotSigned :: int where "errFundsNotSigned = 1020"
definition errInvalidAmount :: int where "errInvalidAmount = 1024"
definition errInvalidSignature :: int where "errInvalidSignature = 1027"
definition errDust :: int where "errDust = 1030"
definition errInsufficientFundsDX :: int where "errInsufficientFundsDX = 1031"
definition errInvalidOnchainHist :: int where "errInvalidOnchainHist = 1033"
definition errInvalidPartialOrder :: int where "errInvalidPartialOrder = 1034"

section \<open>Keys\<close>

text \<open>The group order of the curve; up to 64 draws, the first that is a scalar of the group is the key.\<close>

definition curve_order :: int where
  "curve_order = 0xFFFFFFFFFFFFFFFFFFFFFFFFFFFFFFFEBAAEDCE6AF48A03BBFD25E8CD0364141"

definition be_int :: "bytes \<Rightarrow> int" where
  "be_int b = foldl (\<lambda>a x. a * 256 + uint x) 0 b"

fun key_loop :: "nat \<Rightarrow> bytes task list \<Rightarrow> bytes task" where
  "key_loop (Suc i) (Inl er # ds) = Inl er"
| "key_loop (Suc i) (Inr b # ds) = (if be_int b \<ge> curve_order then key_loop i ds else if b = replicate 32 0 then key_loop i ds else Inr b)"
| "key_loop _ _ = Inl (TErr ''crypto: failed to generate a valid private key'')"

definition NewPrivateKey :: "bytes task list \<Rightarrow> bytes task" where
  "NewPrivateKey ds = key_loop 64 ds"

definition CompressedPubKey :: "'k secp \<Rightarrow> bytes \<Rightarrow> bytes task" where
  "CompressedPubKey L priv = (if length priv \<noteq> 32 then Inl (TErr ''crypto: private key must be 32 bytes'')
     else Inr (copy_slice 0 33 (sl_pubkey L priv) (replicate 33 0)))"

text \<open>A fresh key pair, and a packet signed with it; errors are reported as internal errors of the method.\<close>

definition api_of :: "handler_env \<Rightarrow> string \<Rightarrow> 'a task \<Rightarrow> 'a api" where
  "api_of h method m = (case m of Inr v \<Rightarrow> Inr v | Inl (TPanic s) \<Rightarrow> Inl (ApiPanic s) | Inl er \<Rightarrow> api_err errUnknown method (h_txt h er))"

definition new_keypair :: "'k Env \<Rightarrow> handler_env \<Rightarrow> string \<Rightarrow> (bytes \<times> bytes) api" where
  "new_keypair e h method = a_bind (api_of h method (NewPrivateKey (h_draws h))) (\<lambda>priv.
     a_bind (api_of h method (CompressedPubKey (e_secp e) priv)) (\<lambda>pub. Inr (priv, pub)))"

definition sign_packet :: "'k Env \<Rightarrow> handler_env \<Rightarrow> string \<Rightarrow> XBridgeCommand \<Rightarrow> bytes \<Rightarrow> bytes \<Rightarrow> Packet api" where
  "sign_packet e h method cmd body priv = api_of h method (of_go (Signer_Sign (e_secp e) (NewPacket (e_version e) (e_unix e) cmd body) priv))"

section \<open>Shared checks\<close>

definition requireWrite :: "'k Env \<Rightarrow> string \<Rightarrow> unit api" where
  "requireWrite e name = (if \<not> e_connected e then api_err errNoServiceNode name [] else Inr ())"

definition decodeAddr :: "'k Env \<Rightarrow> string \<Rightarrow> string \<Rightarrow> string \<Rightarrow> bytes api" where
  "decodeAddr e method currency addrStr = (case Coin_Get (e_coins e) currency of
       None \<Rightarrow> api_err errInvalidParameters method (''unsupported currency: '' @ currency)
     | Some c \<Rightarrow> (case DecodeAddress c addrStr of
         Inl (GoPanic s) \<Rightarrow> Inl (ApiPanic s)
       | Inl (GoErr _) \<Rightarrow> api_err errInvalidAddress method addrStr
       | Inr a \<Rightarrow> (case Address_ID a of None \<Rightarrow> api_err errInvalidAddress method addrStr | Some i \<Rightarrow> Inr i)))"

definition takeBadAddressErr :: "string \<Rightarrow> 'a api \<Rightarrow> 'a api" where
  "takeBadAddressErr cur r = (case r of Inl (ApiErr er) \<Rightarrow> if re_Code er = errInvalidAddress
         then api_err errInvalidAddress ''dxTakeOrder'' ('': '' @ cur @ '' address is bad. Are you using the correct address?'') else r
     | _ \<Rightarrow> r)"

text \<open>\<^verbatim>\<open>errors.Is\<close> tells the two errors of the proofs by their texts.\<close>

definition make_proofs :: "'k Env \<Rightarrow> handler_env \<Rightarrow> string \<Rightarrow> string \<Rightarrow> Coin \<Rightarrow> Utxo list \<Rightarrow> UtxoEntry list api" where
  "make_proofs e h method currency coin us = (case buildUtxoProofs (h_signMessage h currency) us coin of
       Inr ps \<Rightarrow> Inr ps
     | Inl (TPanic s) \<Rightarrow> Inl (ApiPanic s)
     | Inl er \<Rightarrow> if er = TErr ''api: signature must be 65 bytes''
         then api_err errInvalidSignature method ''incorrect signature length, need 65 bytes''
         else if (case er of TErr s \<Rightarrow> take 28 s = ''api: utxo address is invalid'' | _ \<Rightarrow> False) then api_err errInvalidAddress method (h_txt h er)
         else api_err errFundsNotSigned method (h_txt h er))"

definition blockContext :: "'k Env \<Rightarrow> handler_env \<Rightarrow> string \<Rightarrow> (u32 \<times> bytes) api" where
  "blockContext e h ticker = (let bad = (\<lambda>s. api_err errNoSession ''dxTakeOrder'' s) in
     case e_connectors e ticker of None \<Rightarrow> bad (''dx: no wallet configured for '' @ ticker)
     | Some conn \<Rightarrow> (case cn_GetBlockCount conn of Inl er \<Rightarrow> bad (h_txt h er)
       | Inr hh \<Rightarrow> if hh < 1 then bad (''api: block height below 1 for '' @ ticker)
         else (case cn_GetBlockHash conn hh of Inl er \<Rightarrow> bad (h_txt h er)
           | Inr bh \<Rightarrow> Inr (if hh \<le> 2 ^ 32 - 1 then word_of_int hh else 0, str_bytes (take 8 (hexEncode (rev bh)))))))"

definition availableBalance :: "'k Env \<Rightarrow> handler_env \<Rightarrow> u64 api" where
  "availableBalance e h = (if e_connectors e ''BLOCK'' = None then Inr 0
     else case h_balance h of Inl er \<Rightarrow> api_err errNoSession ''dxTakeOrder'' (h_txt h er) | Inr b \<Rightarrow> Inr b)"

section \<open>Taking\<close>

definition take_amount :: "TakeOrderParams \<Rightarrow> u64 api" where
  "take_amount p = (if tp_Amount p = [] then Inr 0
     else a_bind (lexicalAmount (tp_Amount p)) (\<lambda>a.
       if a = 0 then api_err errInvalidParameters ''dxTakeOrder'' (''The amount cannot be less than or equal to 0: '' @ tp_Amount p) else Inr a))"

text \<open>What the taker sends and receives.\<close>

definition take_sizes :: "TakeOrderParams \<Rightarrow> u64 \<Rightarrow> Order \<Rightarrow> (u64 \<times> u64) api" where
  "take_sizes p a ord = (let bad = (\<lambda>s. api_err errInvalidParameters ''dxTakeOrder'' s) in
     if tp_Amount p = [] then Inr (o_ToAmount ord, o_FromAmount ord)
     else if \<not> o_PartialAllowed ord then api_err errInvalidPartialOrder ''dxTakeOrder'' []
     else if a < o_MinFromAmount ord then bad (''The minimum amount for this order is: '' @ formatXAmount (o_MinFromAmount ord))
     else if a > o_FromAmount ord then bad (''The maximum amount for this order is: '' @ formatXAmount (o_FromAmount ord))
     else if a < o_FromAmount ord then Inr (xBridgeSourceAmountFromPrice a (o_ToAmount ord) (o_FromAmount ord), a)
     else Inr (o_ToAmount ord, o_FromAmount ord))"

definition fundable :: "string set \<Rightarrow> Utxo list \<Rightarrow> Utxo list" where
  "fundable locked us = filter (\<lambda>u. isP2PKH25 (ut_ScriptPubKey u) \<and> utxoKey u \<notin> locked) us"

definition checkAcceptParams :: "'k Env \<Rightarrow> handler_env \<Rightarrow> string \<Rightarrow> u64 \<Rightarrow> string \<Rightarrow> Node \<Rightarrow> unit api" where
  "checkAcceptParams e h currency fromSize fromAddress n = (
     if e_connectors e currency = None then api_err errNoSession ''dxTakeOrder'' currency
     else case h_listUnspent h currency 1 of Inl _ \<Rightarrow> api_err errInsufficientFunds ''dxTakeOrder'' fromAddress
       | Inr outputs \<Rightarrow>
         let balance = foldl (\<lambda>r u. fl (r + ut_Value u)) 0 (fundable (LockedUtxoInfoFor (n_store n) currency) outputs)
         in if balance < fl (float_of_u64 fromSize / scale) then api_err errInsufficientFunds ''dxTakeOrder'' fromAddress else Inr ())"

record take_plan =
  pl_order :: Order
  pl_fromSize :: u64
  pl_toSize :: u64
  pl_body :: AcceptingBody
  pl_proofs :: "UtxoEntry list"
  pl_used :: "Utxo list"
  pl_fee :: "Utxo list"

datatype take_reply = DryTake Order u64 u64 | Planned take_plan

definition zeroCoin :: Coin where
  "zeroCoin = \<lparr>c_Ticker = [], c_Name = [], c_Decimals = 0, c_P2PKH = 0, c_P2SH = 0, c_Bech32HRP = [], c_SegWit = False,
     c_family = FamilyUTXOBTC, c_CashAddrPrefix = [], c_signature = SigLegacy, c_forkValue = 0, c_TxWithTimeField = False\<rparr>"

definition coin_or_zero :: "'k Env \<Rightarrow> string \<Rightarrow> Coin" where
  "coin_or_zero e cur = (case Coin_Get (e_coins e) cur of None \<Rightarrow> zeroCoin | Some c \<Rightarrow> c)"

text \<open>The fee transaction and its inputs.\<close>

definition take_fee :: "'k Env \<Rightarrow> handler_env \<Rightarrow> Order \<Rightarrow> u64 \<Rightarrow> u64 \<Rightarrow> bytes \<Rightarrow> Utxo list \<Rightarrow> (bytes \<times> Utxo list) api" where
  "take_fee e h ord fromSize toSize feeDest feeAvailRest = (
     case e_connectors e ''BLOCK'' of None \<Rightarrow> Inl (ApiPanic ''nil pointer dereference'')
     | Some blk \<Rightarrow> (case feeOrderInfo (o_ID ord) (o_ToCurrency ord) fromSize (o_FromCurrency ord) toSize of
         Inl _ \<Rightarrow> api_err errInvalidOnchainHist ''dxTakeOrder'' []
       | Inr info \<Rightarrow> a_bind (buildServiceNodeFeeTx (h_srt h) blk (coin_or_zero e ''BLOCK'') (e_confs e ''BLOCK'') feeDest (str_bytes info) feeAvailRest)
           (\<lambda>(rawFeeHex, feeInputs). case hex_DecodeString rawFeeHex of
               None \<Rightarrow> api_err errInsufficientFunds ''dxTakeOrder'' ''encoding/hex: invalid hex''
             | Some feeBytes \<Rightarrow> Inr (feeBytes, feeInputs))))"

text \<open>Funding, fee, proofs and the body of the packet, for an order that passed the checks.\<close>

definition take_fund :: "'k Env \<Rightarrow> handler_env \<Rightarrow> TakeOrderParams \<Rightarrow> Order \<Rightarrow> u64 \<Rightarrow> u64 \<Rightarrow> bytes \<Rightarrow> bytes \<Rightarrow> CoinConf \<Rightarrow> bytes \<Rightarrow> Node \<Rightarrow> take_plan api" where
  "take_fund e h p ord fromSize toSize fromID toID ccTo feeDest n = (
     let lockedKeys = LockedUtxoInfoFor (n_store n) (o_ToCurrency ord);
         feeLocked = fst (LockedUtxoInfo (n_store n)) in
     case h_listUnspent h (o_ToCurrency ord) 1 of Inl er \<Rightarrow> api_err errInsufficientFunds ''dxTakeOrder'' (h_txt h er)
     | Inr outputs \<Rightarrow> (case h_zeroConf h of Inl _ \<Rightarrow> api_err errInsufficientFunds ''dxTakeOrder'' []
       | Inr feeUtxoAvail \<Rightarrow>
         let feeUtxos = fundable (lockedKeys \<union> feeLocked) (filter (\<lambda>u. ut_Confirmations u \<ge> 1) feeUtxoAvail) in
         (case selectTakeFunding (h_srt h) (tp_FromAddress p) (fundable lockedKeys outputs) feeUtxos (Some ccTo) fromSize of
           None \<Rightarrow> api_err errInsufficientFunds ''dxTakeOrder'' ''insufficient funds''
         | Some (usedCoins, feeAvailRest) \<Rightarrow>
           a_bind (take_fee e h ord fromSize toSize feeDest feeAvailRest) (\<lambda>(feeBytes, feeInputs).
           a_bind (make_proofs e h ''dxTakeOrder'' (o_ToCurrency ord) (coin_or_zero e (o_ToCurrency ord)) usedCoins) (\<lambda>proofs.
           a_bind (blockContext e h (o_ToCurrency ord)) (\<lambda>(fromH, fromHash).
           a_bind (blockContext e h (o_FromCurrency ord)) (\<lambda>(toH, toHash).
             Inr \<lparr>pl_order = ord, pl_fromSize = fromSize, pl_toSize = toSize,
               pl_body = \<lparr>ab_HubAddress = o_HubAddress ord, ab_ID = o_ID ord, ab_ServiceNodeFeeTx = feeBytes, ab_From = fromID,
                 ab_FromCurrency = o_ToCurrency ord, ab_FromAmount = fromSize, ab_FromBlockHeight = fromH, ab_FromBlockHash = fromHash,
                 ab_To = toID, ab_ToCurrency = o_FromCurrency ord, ab_ToAmount = toSize, ab_ToBlockHeight = toH, ab_ToBlockHash = toHash,
                 ab_Utxos = proofs\<rparr>,
               pl_proofs = proofs, pl_used = usedCoins, pl_fee = feeInputs\<rparr>)))))))"

definition take_gates :: "'k Env \<Rightarrow> handler_env \<Rightarrow> Order \<Rightarrow> u64 \<Rightarrow> u64 \<Rightarrow> (CoinConf \<times> bytes) api" where
  "take_gates e h ord fromSize toSize = (
     case e_confs e (o_ToCurrency ord) of None \<Rightarrow> api_err errNoSession ''dxTakeOrder'' (o_ToCurrency ord)
     | Some ccTo \<Rightarrow> (case e_confs e (o_FromCurrency ord) of None \<Rightarrow> api_err errNoSession ''dxTakeOrder'' (o_FromCurrency ord)
       | Some ccFrom \<Rightarrow>
         if isDustNative (xBridgeValueFromAmount fromSize) (Some ccTo) (cc_Coin ccTo) then api_err errDust ''dxTakeOrder'' []
         else if isDustNative (xBridgeValueFromAmount toSize) (Some ccFrom) (cc_Coin ccFrom) then api_err errDust ''dxTakeOrder'' []
         else a_bind (availableBalance e h) (\<lambda>funds.
           if funds < xBridgeIntFromReal serviceNodeFeeReal then api_err errInsufficientFundsDX ''dxTakeOrder'' []
           else let hubKey = decodePub33 (o_SNodePubkey ord) in
             if \<not> hubRegistered e hubKey then api_err errNoServiceNode ''dxTakeOrder'' []
             else case Option.bind (h_reg h) (\<lambda>sr. PaymentAddress (sr_reg sr) hubKey) of
                 None \<Rightarrow> api_err errNoServiceNode ''dxTakeOrder'' []
               | Some feeDest \<Rightarrow> Inr (ccTo, feeDest))))"

definition take_prepare :: "'k Env \<Rightarrow> handler_env \<Rightarrow> TakeOrderParams \<Rightarrow> Node \<Rightarrow> take_reply api" where
  "take_prepare e h p n = (
     a_bind (requireWrite e ''dxTakeOrder'') (\<lambda>_.
     if tp_FromAddress p = tp_ToAddress p
     then api_err errInvalidParameters ''dxTakeOrder'' (''The from_address and to_address cannot be the same: '' @ tp_FromAddress p)
     else a_bind (take_amount p) (\<lambda>a.
     case Store_Get (n_store n) (orderIDKey (tp_ID p)) of None \<Rightarrow> api_err errTxNotFound ''dxTakeOrder'' []
     | Some ord \<Rightarrow>
       a_bind (take_sizes p a ord) (\<lambda>(fromSize, toSize).
       a_bind (checkAcceptParams e h (o_ToCurrency ord) fromSize (tp_FromAddress p) n) (\<lambda>_.
       if o_Mine ord then api_err errInvalidParameters ''dxTakeOrder'' ''Unable to accept your own order.''
       else if e_connectors e (o_ToCurrency ord) = None
       then api_err errNoSession ''dxTakeOrder'' (''Unable to connect to wallet: '' @ o_ToCurrency ord)
       else if e_connectors e (o_FromCurrency ord) = None
       then api_err errNoSession ''dxTakeOrder'' (''Unable to connect to wallet: '' @ o_FromCurrency ord)
       else
       a_bind (takeBadAddressErr (o_FromCurrency ord) (decodeAddr e ''dxTakeOrder'' (o_FromCurrency ord) (tp_ToAddress p))) (\<lambda>toID.
       a_bind (takeBadAddressErr (o_ToCurrency ord) (decodeAddr e ''dxTakeOrder'' (o_ToCurrency ord) (tp_FromAddress p))) (\<lambda>fromID.
       if tp_DryRun p then Inr (DryTake ord fromSize toSize)
       else a_bind (take_gates e h ord fromSize toSize) (\<lambda>(ccTo, feeDest).
         a_bind (take_fund e h p ord fromSize toSize fromID toID ccTo feeDest n) (\<lambda>pl. Inr (Planned pl))))))))))"

definition reserve_take :: "string \<Rightarrow> take_plan \<Rightarrow> Node \<Rightarrow> Node \<times> takeReserve" where
  "reserve_take key pl n = (let (st, r) = ReserveForTake (n_store n) key (remdups (map utxoKey (pl_fee pl))) (map utxoKey (pl_used pl))
       (o_ToCurrency (pl_order pl)) in (n\<lparr>n_store := st\<rparr>, r))"

text \<open>
  The reservation, the packet and the commit. The set of fee keys is ranged over in some order; the
  reservation only tests and stores its members. \<open>oth\<close> is what happens on the node between the
  reservation and the commit.
\<close>

definition take_submit :: "'k Env \<Rightarrow> handler_env \<Rightarrow> (Node \<Rightarrow> Node) \<Rightarrow> TakeOrderParams \<Rightarrow> take_plan \<Rightarrow> Node \<Rightarrow> Node \<times> (Order \<times> u64 \<times> u64) api" where
  "take_submit e h oth p pl n = (let key = orderIDKey (tp_ID p); (n, r) = reserve_take key pl n in
     if r = reserveOrderBusy then (n, api_err errBadRequest ''dxTakeOrder'' ''not accepting, order already accepted'')
     else if r \<noteq> reserveOK then (n, api_err errInsufficientFunds ''dxTakeOrder'' ''cannot reuse utxo inputs'')
     else case a_bind (new_keypair e h ''dxTakeOrder'') (\<lambda>(priv, pub).
         a_bind (sign_packet e h ''dxTakeOrder'' XbcTransactionAccepting (AcceptingBody_Marshal (pl_body pl)) priv) (\<lambda>pkt. Inr (priv, pub, pkt))) of
       Inl er \<Rightarrow> (release_reserve key n, Inl er)
     | Inr (priv, pub, pkt) \<Rightarrow>
       (case commitTake e (h_dtxt h) (h_wtxt h) key p pkt priv pub (pl_proofs pl) (pl_used pl) (pl_fee pl) (oth n) of
         (n, Inl er) \<Rightarrow> (n, Inl er)
       | (n, Inr None) \<Rightarrow> (release_reserve key n, api_err errTxNotFound ''dxTakeOrder'' (tp_ID p))
       | (n, Inr (Some ord)) \<Rightarrow> (n, Inr (ord, pl_fromSize pl, pl_toSize pl))))"

definition TakeOrder :: "'k Env \<Rightarrow> handler_env \<Rightarrow> (Node \<Rightarrow> Node) \<Rightarrow> (Node \<Rightarrow> Node) \<Rightarrow> TakeOrderParams \<Rightarrow> Node \<Rightarrow> Node \<times> (Order \<times> u64 \<times> u64) api" where
  "TakeOrder e h oth1 oth2 p n = (case take_prepare e h p n of
       Inl er \<Rightarrow> (n, Inl er)
     | Inr (DryTake ord fromSize toSize) \<Rightarrow> (n, Inr (ord, fromSize, toSize))
     | Inr (Planned pl) \<Rightarrow> take_submit e h oth2 p pl (oth1 n))"

section \<open>Making\<close>

record MakeOrderParams =
  mp_Maker :: string
  mp_MakerSize :: string
  mp_MakerAddress :: string
  mp_Taker :: string
  mp_TakerSize :: string
  mp_TakerAddress :: string
  mp_Type :: string
  mp_MinSize :: string
  mp_UseAllFunds :: bool
  mp_AutoSplit :: bool
  mp_Repost :: bool
  mp_DryRun :: bool

text \<open>The checked parameters: sizes, the maker's wallet and configuration, and the two address hashes.\<close>

record make_in =
  mi_from :: u64
  mi_to :: u64
  mi_conn :: Connector
  mi_cc :: CoinConf
  mi_fromID :: bytes
  mi_toID :: bytes

definition make_check :: "'k Env \<Rightarrow> MakeOrderParams \<Rightarrow> make_in api" where
  "make_check e p = (let bad = (\<lambda>s. api_err errInvalidParameters ''dxMakeOrder'' s);
       off = (\<lambda>t. api_err errNoSession ''dxMakeOrder'' (''Unable to connect to wallet: '' @ t)) in
     a_bind (requireWrite e ''dxMakeOrder'') (\<lambda>_.
     if \<not> xBridgeValidCoin (mp_MakerSize p) then bad ''The maker_size is too precise. The maximum precision supported is 6 digits.''
     else if \<not> xBridgeValidCoin (mp_TakerSize p) then bad ''The taker_size is too precise. The maximum precision supported is 6 digits.''
     else a_bind (lexicalAmount (mp_MakerSize p)) (\<lambda>fromAmt. a_bind (lexicalAmount (mp_TakerSize p)) (\<lambda>toAmt.
     case e_connectors e (mp_Maker p) of None \<Rightarrow> off (mp_Maker p)
     | Some conn \<Rightarrow> if e_connectors e (mp_Taker p) = None then off (mp_Taker p)
       else (case e_confs e (mp_Maker p) of None \<Rightarrow> off (mp_Maker p)
       | Some cc \<Rightarrow>
         a_bind (decodeAddr e ''dxMakeOrder'' (mp_Maker p) (mp_MakerAddress p)) (\<lambda>fromID.
         a_bind (decodeAddr e ''dxMakeOrder'' (mp_Taker p) (mp_TakerAddress p)) (\<lambda>toID.
         if mp_MakerAddress p = mp_TakerAddress p
         then bad (''The maker_address and taker_address cannot be the same: '' @ mp_MakerAddress p)
         else if fromAmt > maxXSize \<or> toAmt > maxXSize then bad ''The maximum supported size is 100000000''
         else if fromAmt = 0 \<or> toAmt = 0 then bad ''The minimum supported size is 0.000001''
         else Inr \<lparr>mi_from = fromAmt, mi_to = toAmt, mi_conn = conn, mi_cc = cc, mi_fromID = fromID, mi_toID = toID\<rparr>)))))))"

text \<open>The hub; a dry run needs none.\<close>

definition make_hub :: "'k Env \<Rightarrow> handler_env \<Rightarrow> MakeOrderParams \<Rightarrow> Node \<Rightarrow> Node \<times> (bytes \<times> bytes) api" where
  "make_hub e h p n = (if mp_DryRun p then (n, Inr (replicate 33 0, replicate 20 0))
     else case pickHub e (h_reg h) (h_hubs h) [mp_Maker p, mp_Taker p] n of
         (n, None) \<Rightarrow> (n, api_err errNoServiceNode ''dxMakeOrder'' [])
       | (n, Some hubKey) \<Rightarrow> (n, Inr (hubKey, KeyID (h_rip h) hubKey)))"

definition make_min :: "MakeOrderParams \<Rightarrow> make_in \<Rightarrow> u64 api" where
  "make_min p mi = (let bad = (\<lambda>s. api_err errInvalidParameters ''dxMakePartialOrder'' s); cc = mi_cc mi in
     if mp_Type p \<noteq> ''partial'' then Inr 0
     else if mp_MinSize p = [] then bad ''minimum_size is required for partial orders''
     else a_bind (lexicalAmount (mp_MinSize p)) (\<lambda>minFrom.
       if minFrom > mi_from mi then bad ''The minimum_size can't be more than maker_size''
       else if fl (fl (float_of_u64 minFrom / scale) * float_of_u64 (cc_Coin cc)) < float_of_u64 (effectiveDust (Some cc))
       then bad ''The partial minimum_size is dust, i.e. it's too small.''
       else Inr minFrom))"

text \<open>How a partial order is cut into outputs of the minimum size and a rest.\<close>

record partial_plan =
  pp_count :: int
  pp_remainderRequired :: bool
  pp_perUtxoFees :: u64
  pp_voutsTotal :: u64
  pp_remainder :: u64
  pp_remainderIsDust :: bool
  pp_orderVouts :: int

definition plan_partial :: "CoinConf \<Rightarrow> u64 \<Rightarrow> u64 \<Rightarrow> partial_plan api" where
  "plan_partial cc fromAmt minFrom = (
     if minFrom = 0 then Inl (ApiPanic ''integer divide by zero'')
     else let cnt = sint (fromAmt div minFrom);
              (cnt, remReq) = (if cnt \<ge> int maxPartialOrderUtxos then (int maxPartialOrderUtxos - 1, True) else (cnt, fromAmt mod minFrom \<noteq> 0));
              perFees = ceilFeeXB (Some cc) (estimateFee (Some cc) 1 3) + ceilFeeXB (Some cc) (estimateFee (Some cc) 1 1);
              fees = word_of_int cnt * perFees + (if remReq then perFees else 0);
              splitTotal = word_of_int cnt * minFrom
       in if fromAmt < splitTotal then api_err errInsufficientFunds ''dxMakePartialOrder'' ''insufficient funds for partial order''
          else let remainder = fromAmt - splitTotal;
                   isDust = isDustNative (xBridgeValueFromAmount (remainder + perFees)) (Some cc) (cc_Coin cc);
                   more = (remReq \<and> \<not> isDust)
            in Inr \<lparr>pp_count = cnt, pp_remainderRequired = remReq, pp_perUtxoFees = perFees,
                 pp_voutsTotal = fees + splitTotal + (if more then remainder else 0), pp_remainder = remainder,
                 pp_remainderIsDust = isDust, pp_orderVouts = (if more then cnt + 1 else cnt)\<rparr>)"

definition no_plan :: partial_plan where
  "no_plan = \<lparr>pp_count = 0, pp_remainderRequired = False, pp_perUtxoFees = 0, pp_voutsTotal = 0, pp_remainder = 0,
     pp_remainderIsDust = False, pp_orderVouts = 0\<rparr>"

definition make_plan :: "MakeOrderParams \<Rightarrow> make_in \<Rightarrow> u64 \<Rightarrow> partial_plan api" where
  "make_plan p mi minFrom = (if mp_Type p = ''partial'' then plan_partial (mi_cc mi) (mi_from mi) minFrom else Inr no_plan)"

definition plan_req :: "u64 \<Rightarrow> u64 \<Rightarrow> partial_plan \<Rightarrow> partial_req" where
  "plan_req fromAmt minFrom pp = \<lparr>pr_Amount = fromAmt, pr_UtxoCount = word_of_int (pp_count pp), pr_FeePerUtxo = pp_perUtxoFees pp,
     pr_PrepTxVouts = nat (pp_orderVouts pp + 1), pr_SplitSize = minFrom, pr_Remainder = pp_remainder pp\<rparr>"

definition make_funding :: "'k Env \<Rightarrow> handler_env \<Rightarrow> MakeOrderParams \<Rightarrow> make_in \<Rightarrow> u64 \<Rightarrow> partial_plan \<Rightarrow> Node \<Rightarrow> (Utxo list \<times> bool) api" where
  "make_funding e h p mi minFrom pp n = (case h_listUnspent h (mp_Maker p) (cc_Confirmations (mi_cc mi)) of
       Inl er \<Rightarrow> api_err errInsufficientFunds ''dxMakeOrder'' (h_txt h er)
     | Inr outputs \<Rightarrow>
       let locked = LockedUtxoInfoFor (n_store n) (mp_Maker p);
           filtered = filter (\<lambda>u. utxoKey u \<notin> locked \<and> (mp_UseAllFunds p \<or> ut_Address u = mp_MakerAddress p)) outputs;
           sel = (if mp_Type p = ''partial''
             then map_option (\<lambda>(us, _, _, ex). (us, ex)) (selectPartialUtxos (h_srt h) filtered (Some (mi_cc mi)) (plan_req (mi_from mi) minFrom pp))
             else map_option (\<lambda>(us, _, _). (us, False)) (selectUtxos (h_srt h) (mp_MakerAddress p) filtered (Some (mi_cc mi)) (mi_from mi)))
       in case sel of None \<Rightarrow> api_err errInsufficientFunds ''dxMakeOrder'' ''insufficient funds'' | Some r \<Rightarrow> Inr r)"

subsection \<open>Splitting funds for a partial order\<close>

text \<open>The selected outputs that already have the size, the others, how many are missing and what is left to fill.\<close>

fun split_scan :: "u64 \<Rightarrow> Utxo list \<Rightarrow> int \<Rightarrow> u64 \<Rightarrow> Utxo list \<times> Utxo list \<times> int \<times> u64" where
  "split_scan target [] missing voutsTotal = ([], [], missing, voutsTotal)"
| "split_scan target (vin # vs) missing voutsTotal = (
     if camount vin = target \<and> missing > 0
     then (case split_scan target vs (missing - 1) (voutsTotal - target) of (ex, vins, r, t) \<Rightarrow> (vin # ex, vins, r, t))
     else (case split_scan target vs missing voutsTotal of (ex, vins, r, t) \<Rightarrow> (ex, vin # vins, r, t)))"

text \<open>The outputs of the prep transaction that the order locks.\<close>

fun lock_vouts :: "string \<Rightarrow> string \<Rightarrow> u64 \<Rightarrow> u64 \<Rightarrow> nat \<Rightarrow> prepVout list \<Rightarrow> Utxo list" where
  "lock_vouts txid addr nativeCoin room i [] = []"
| "lock_vouts txid addr nativeCoin room i (vo # vos) = (if sint room \<le> 0 then []
     else let u = \<lparr>ut_TxID = txid, ut_Vout = of_nat i, ut_Address = addr, ut_Amount = pv_amount vo,
                   ut_Value = fl (float_of_u64 (pv_amount vo) / float_of_u64 nativeCoin), ut_ScriptPubKey = [], ut_Confirmations = 0\<rparr>
       in u # lock_vouts txid addr nativeCoin (room - camount u) (Suc i) vos)"

definition split_vouts :: "MakeOrderParams \<Rightarrow> Coin \<Rightarrow> u64 \<Rightarrow> partial_plan \<Rightarrow> int \<Rightarrow> prepVout list" where
  "split_vouts p coin minFrom pp missing =
     replicate (nat missing) \<lparr>pv_addr = mp_MakerAddress p, pv_amount = fromXBridgeAmt coin (minFrom + pp_perUtxoFees pp)\<rparr>
     @ (if pp_remainderRequired pp \<and> \<not> pp_remainderIsDust pp
        then [\<lparr>pv_addr = mp_MakerAddress p, pv_amount = fromXBridgeAmt coin (pp_remainder pp + pp_perUtxoFees pp)\<rparr>] else [])"

definition auto_split :: "'k Env \<Rightarrow> handler_env \<Rightarrow> MakeOrderParams \<Rightarrow> make_in \<Rightarrow> Coin \<Rightarrow> u64 \<Rightarrow> partial_plan \<Rightarrow> Utxo list \<Rightarrow> Node \<Rightarrow> Node \<times> (Utxo list \<times> string) api" where
  "auto_split e h p mi coin minFrom pp outs n = (
     let m = ''dxMakePartialOrder''; cc = mi_cc mi; native = cc_Coin cc;
         (existing, vins, missing, voutsTotal) = split_scan (minFrom + pp_perUtxoFees pp) outs (pp_count pp) (pp_voutsTotal pp);
         vinsTotal = sum_list (map ut_Amount vins);
         vouts = split_vouts p coin minFrom pp missing;
         prepFee = estimateFee (Some cc) (length vins) (length vouts + 1);
         voutsNative = sum_list (map pv_amount vouts) in
     if vinsTotal \<le> voutsNative + prepFee then (n, api_err errInvalidAmount m ''failed to create order, insufficient funds on partial order'')
     else let change = vinsTotal - voutsNative - prepFee;
              vouts = (if isDustNative (fl (float_of_u64 change / float_of_u64 native)) (Some cc) native then vouts
                else vouts @ [\<lparr>pv_addr = mp_MakerAddress p, pv_amount = change\<rparr>]) in
       case buildPrepTx (h_txt h) (e_unix e) (mi_conn mi) (Some cc) coin vins vouts of Inl er \<Rightarrow> (n, Inl er)
       | Inr (signedHex, txid) \<Rightarrow>
         (case (if mp_DryRun p then Inr [] else cn_SendRawTransaction (mi_conn mi) signedHex) of Inl er \<Rightarrow> (n, api_err errUnknown m (h_txt h er))
          | Inr _ \<Rightarrow>
            let n = (if mp_DryRun p then n else recordBroadcast e [] broadcastPrep (mp_Maker p) txid signedHex n);
                used = existing @ lock_vouts txid (mp_MakerAddress p) native voutsTotal 0 vouts
            in if length used > maxPartialOrderUtxos
               then (n, api_err errInvalidAmount m ''failed to create order, the maximum number of utxos on the order was exceeded'')
               else if used = [] then (n, api_err errInvalidPartialOrder m ''failed to create order, cannot lock partial order utxos'')
               else (n, Inr (used, txid))))"

subsection \<open>The block stamp\<close>

definition cache_fresh :: "'k Env \<Rightarrow> BlockCache \<Rightarrow> bool" where
  "cache_fresh e c \<longleftrightarrow> bk_at c > uint (e_now e) - 60 * 1000000 \<and> bk_hash c \<noteq> replicate 32 0"

definition refreshBlock :: "'k Env \<Rightarrow> BlockCache \<Rightarrow> BlockCache" where
  "refreshBlock e c = (case e_connectors e ''BLOCK'' of None \<Rightarrow> c
     | Some conn \<Rightarrow> (case cn_GetBlockCount conn of Inl _ \<Rightarrow> c
       | Inr cnt \<Rightarrow> if cnt < 1 then c
         else (case cn_GetBlockHash conn (cnt - 1) of Inl _ \<Rightarrow> c
           | Inr h \<Rightarrow> if cnt - 1 > 2 ^ 32 - 1 then c
               else \<lparr>bk_hash = h, bk_height = word_of_int (cnt - 1), bk_at = uint (e_now e)\<rparr>)))"

definition currentBlockHash :: "'k Env \<Rightarrow> BlockCache \<Rightarrow> BlockCache \<times> bytes" where
  "currentBlockHash e c = (if cache_fresh e c then (c, bk_hash c) else (let c = refreshBlock e c in (c, bk_hash c)))"

definition currentBlockHeight :: "'k Env \<Rightarrow> BlockCache \<Rightarrow> BlockCache \<times> u32" where
  "currentBlockHeight e c = (if cache_fresh e c then (c, bk_height c) else (let c = refreshBlock e c in (c, bk_height c)))"

subsection \<open>The order\<close>

definition first_sig :: "UtxoEntry list \<Rightarrow> bytes api" where
  "first_sig proofs = (case proofs of [] \<Rightarrow> Inl (ApiPanic ''index out of range'') | en # _ \<Rightarrow> Inr (ue_Signature en))"

definition make_id :: "MakeOrderParams \<Rightarrow> make_in \<Rightarrow> u64 \<Rightarrow> bytes \<Rightarrow> UtxoEntry list \<Rightarrow> bytes api" where
  "make_id p mi ts bh proofs = a_bind (first_sig proofs) (\<lambda>sig.
     Inr (sha256dOrderID (mi_fromID mi) (mp_Maker p) (mi_from mi) (mi_toID mi) (mp_Taker p) (mi_to mi) ts bh sig))"

definition make_body :: "MakeOrderParams \<Rightarrow> make_in \<Rightarrow> u64 \<Rightarrow> bytes \<Rightarrow> u64 \<Rightarrow> bytes \<Rightarrow> UtxoEntry list \<Rightarrow> OrderBody" where
  "make_body p mi ts bh minFrom i proofs = \<lparr>ob_ID = i, ob_From = mi_fromID mi, ob_FromCurrency = mp_Maker p, ob_FromAmount = mi_from mi,
     ob_To = mi_toID mi, ob_ToCurrency = mp_Taker p, ob_ToAmount = mi_to mi, ob_Created = ts, ob_BlockHash = bh,
     ob_PartialAllowed = (mp_Type p = ''partial''), ob_MinFromAmount = minFrom, ob_Utxos = proofs\<rparr>"

definition make_record :: "MakeOrderParams \<Rightarrow> OrderBody \<Rightarrow> bytes \<Rightarrow> u32 \<Rightarrow> Utxo list \<Rightarrow> string \<Rightarrow> Order" where
  "make_record p body mPub height funding prepTxID = (normalizeFromOrderBody body (hexEncode mPub))\<lparr>o_BlockNumber := height,
     o_MakerAddress := mp_MakerAddress p, o_TakerAddress := mp_TakerAddress p, o_BlockID := orderIDString (ob_BlockHash body),
     o_PartialRepost := mp_Repost p, o_Mine := True, o_UtxoCurrency := mp_Maker p, o_Role := byte_of_char CHR ''A'',
     o_MakerKey := hexEncode mPub, o_OrigFromCurrency := mp_Maker p, o_OrigToCurrency := mp_Taker p, o_UsedCoins := funding,
     o_Status := ''open'', o_PrepTx := prepTxID\<rparr>"

text \<open>
  The outputs the order locks with their proofs: those selected, or with automatic splitting those
  of the prep transaction and the selected ones that had the size. The flag says that it was split.
\<close>

definition make_lock :: "'k Env \<Rightarrow> handler_env \<Rightarrow> MakeOrderParams \<Rightarrow> make_in \<Rightarrow> Coin \<Rightarrow> u64 \<Rightarrow> partial_plan \<Rightarrow> Utxo list \<Rightarrow> bool \<Rightarrow> UtxoEntry list
    \<Rightarrow> Node \<Rightarrow> Node \<times> (Utxo list \<times> UtxoEntry list \<times> string \<times> bool) api" where
  "make_lock e h p mi coin minFrom pp outs exactMatch proofs n = (let m = ''dxMakePartialOrder'' in
     if mp_Type p = ''partial'' \<and> exactMatch then
       if length outs > maxPartialOrderUtxos
       then (n, api_err errInvalidAmount m ''failed to create order, the maximum number of utxos on the order was exceeded'')
       else (n, Inr (outs, proofs, [], False))
     else if mp_Type p = ''partial'' \<and> mp_AutoSplit p then
       (case auto_split e h p mi coin minFrom pp outs n of (n, Inl er) \<Rightarrow> (n, Inl er)
        | (n, Inr (used, txid)) \<Rightarrow> (n, a_bind (make_proofs e h m (mp_Maker p) coin used) (\<lambda>ps. Inr (used, ps, txid, True))))
     else (n, Inr (outs, proofs, [], False)))"

definition make_funds :: "'k Env \<Rightarrow> handler_env \<Rightarrow> MakeOrderParams \<Rightarrow> make_in \<Rightarrow> Coin \<Rightarrow> Node
    \<Rightarrow> (u64 \<times> partial_plan \<times> Utxo list \<times> bool \<times> UtxoEntry list) api" where
  "make_funds e h p mi coin n =
     a_bind (make_min p mi) (\<lambda>minFrom.
     a_bind (make_plan p mi minFrom) (\<lambda>pp.
     a_bind (make_funding e h p mi minFrom pp n) (\<lambda>(outs, exactMatch).
     a_bind (make_proofs e h ''dxMakeOrder'' (mp_Maker p) coin outs) (\<lambda>proofs.
       Inr (minFrom, pp, outs, exactMatch, proofs)))))"

text \<open>The end: the packet, the record, and the engine's unit unless it is a dry run.\<close>

definition make_submit :: "'k Env \<Rightarrow> handler_env \<Rightarrow> (Node \<Rightarrow> Node) \<Rightarrow> MakeOrderParams \<Rightarrow> OrderBody \<Rightarrow> Utxo list \<Rightarrow> string \<Rightarrow> bool
    \<Rightarrow> bytes \<Rightarrow> bytes \<Rightarrow> bytes \<Rightarrow> bytes \<Rightarrow> BlockCache \<times> Node \<Rightarrow> (BlockCache \<times> Node) \<times> Order option api" where
  "make_submit e h oth p body funding prepTxID pending hubKey hubAddr priv pub cn = (case cn of (c, n) \<Rightarrow>
     case sign_packet e h ''dxMakeOrder'' XbcTransaction (OrderBody_Marshal body) priv of Inl er \<Rightarrow> ((c, n), Inl er)
     | Inr pkt \<Rightarrow>
       let (c, height) = currentBlockHeight e c;
           ord = make_record p body pub height funding prepTxID in
       if mp_DryRun p then ((c, n), Inr (Some ord))
       else case commitMake e (h_rip h) (h_secret h) (h_dtxt h) (h_wtxt h) pending
         (ord\<lparr>o_SNodePubkey := hexEncode hubKey, o_HubAddress := hubAddr\<rparr>) (mp_MakerAddress p) (mp_TakerAddress p) priv pub pkt hubAddr (oth n)
         of (n, r) \<Rightarrow> ((c, n), r))"

definition MakeOrder :: "'k Env \<Rightarrow> handler_env \<Rightarrow> (Node \<Rightarrow> Node) \<Rightarrow> MakeOrderParams \<Rightarrow> BlockCache \<times> Node \<Rightarrow> (BlockCache \<times> Node) \<times> Order option api" where
  "MakeOrder e h oth p cn = (case cn of (c, n) \<Rightarrow>
     (case make_check e p of Inl er \<Rightarrow> ((c, n), Inl er)
      | Inr mi \<Rightarrow> (case make_hub e h p n of (n, Inl er) \<Rightarrow> ((c, n), Inl er)
        | (n, Inr (hubKey, hubAddr)) \<Rightarrow>
          let coin = coin_or_zero e (mp_Maker p); ts = e_now e in
          (case make_funds e h p mi coin n of Inl er \<Rightarrow> ((c, n), Inl er)
           | Inr (minFrom, pp, outs, exactMatch, proofs) \<Rightarrow>
             let (c, bh) = currentBlockHash e c in
             (case a_bind (make_id p mi ts bh proofs) (\<lambda>i. a_bind (new_keypair e h ''dxMakeOrder'') (\<lambda>k. Inr (i, k))) of
                Inl er \<Rightarrow> ((c, n), Inl er)
              | Inr (i, priv, pub) \<Rightarrow>
                (case make_lock e h p mi coin minFrom pp outs exactMatch proofs n of (n, Inl er) \<Rightarrow> ((c, n), Inl er)
                 | (n, Inr (funding, proofs, prepTxID, pending)) \<Rightarrow>
                   (case (if pending then make_id p mi ts bh proofs else Inr i) of Inl er \<Rightarrow> ((c, n), Inl er)
                    | Inr i \<Rightarrow>
                      make_submit e h oth p (make_body p mi ts bh minFrom i proofs) funding prepTxID pending hubKey hubAddr priv pub (c, n))))))))"

end
