(* ===== verification/OrderProps.thy ===== *)
theory OrderProps
  imports OrderEntry SwapSafety
begin

text \<open>
  Properties of making and taking orders: the units that commit them, the reservation, what happens
  to a session when two takes of one order overlap, and the plan of a partial order.
\<close>

section \<open>Reservations\<close>

lemma delete_none: "map_of (AList.delete k xs) k = None"
  by (induction xs) auto

lemma reserve_released: "map_of (s_reserved (n_store (release_reserve key n))) key = None"
  by (simp add: release_reserve_def ReleaseReserve_def delete_none)

lemma Update_reserved: "s_reserved (fst (Update s key f)) = s_reserved s"
  by (simp add: Update_def split: option.splits)

lemma revertTake_reserved: "s_reserved (n_store (revertTake e key prev n)) = s_reserved (n_store n)"
  by (simp add: revertTake_def persistNow_keeps drop_session_def upd_order_def Update_reserved)

lemma commitTake_released: "map_of (s_reserved (n_store (fst (commitTake e dtxt wtxt key p pkt priv pub proofs used fee n)))) key = None"
proof (cases "Store_Get (n_store n) key")
  case None
  thus ?thesis
    by (simp add: commitTake_def reserve_released)
next
  case (Some ord)
  have "map_of (s_reserved (n_store (taking e key p priv pub proofs used fee ord n))) key = None"
    by (simp add: taking_def newTakerSession_keeps reserve_released)
  thus ?thesis
    unfolding commitTake_eq [OF Some]
    by (simp add: Let_def case_prod_beta revertTake_reserved persistNow_keeps registerTakeRetry_keeps)
qed

lemma reserve_refused: "snd (reserve_take key pl n) \<noteq> reserveOK \<Longrightarrow> fst (reserve_take key pl n) = n"
  by (auto simp: reserve_take_def ReserveForTake_def Let_def split: if_splits option.splits prod.splits)

text \<open>
  C12: a take never leaves a reservation behind. Whatever the wallets, the disk and the wire do, and
  whatever the engine and other handlers do in between, after \<^verbatim>\<open>TakeOrder\<close> the order has no
  reservation, or the call changed nothing: it failed before the reservation or the reservation was
  refused.
\<close>

theorem TakeOrder_releases:
  "map_of (s_reserved (n_store (fst (TakeOrder e h oth1 oth2 p n)))) (orderIDKey (tp_ID p)) = None
   \<or> fst (TakeOrder e h oth1 oth2 p n) \<in> {n, oth1 n}"
proof -
  have sub: "map_of (s_reserved (n_store (fst (take_submit e h oth2 p pl m)))) (orderIDKey (tp_ID p)) = None \<or> fst (take_submit e h oth2 p pl m) = m" for pl m
  proof (cases "snd (reserve_take (orderIDKey (tp_ID p)) pl m) = reserveOK")
    case False
    thus ?thesis
      using reserve_refused by (auto simp: take_submit_def Let_def case_prod_beta)
  next
    case True
    let ?m = "oth2 (fst (reserve_take (orderIDKey (tp_ID p)) pl m))"
    have "map_of (s_reserved (n_store (fst (commitTake e (h_dtxt h) (h_wtxt h) (orderIDKey (tp_ID p)) p pkt priv pub (pl_proofs pl) (pl_used pl) (pl_fee pl) ?m))))
        (orderIDKey (tp_ID p)) = None" for pkt priv pub
      by (rule commitTake_released)
    thus ?thesis
      using True unfolding take_submit_def Let_def case_prod_beta
      by (auto simp: reserve_released split: sum.splits option.splits)
  qed
  show ?thesis
  proof (cases "take_prepare e h p n")
    case (Inr r)
    show ?thesis
    proof (cases r)
      case (Planned pl)
      thus ?thesis
        using Inr sub [of pl "oth1 n"] by (simp add: TakeOrder_def) blast
    qed (use Inr in \<open>simp add: TakeOrder_def\<close>)
  qed (simp add: TakeOrder_def)
qed

section \<open>The commit of a take\<close>

text \<open>
  C11: taking an order is all or nothing. When saving or sending fails, the book, its history and the
  packets sent are as before and no session is left for the order. When the take succeeds, the order
  is marked as accepting, the taker's session is open, the disk holds both, and only then the packet
  has left, to the hub of the order. The order is stored under its own id, and state is kept on disk.
\<close>

theorem commitTake_all_or_nothing:
  assumes "Store_Get (n_store n) key = Some ord" and "orderKey (o_ID ord) = key" and "e_dataDir e"
    and "commitTake e dtxt wtxt key p pkt priv pub proofs used fee n = (n', res)"
  shows "case res of
      Inl _ \<Rightarrow> s_orders (n_store n') = s_orders (n_store n) \<and> s_history (n_store n') = s_history (n_store n)
        \<and> n_packets n' = n_packets n \<and> n_sessions n' = (n_sessions n)(key := None)
    | Inr r \<Rightarrow> r = Some (mark_taken (e_now e) (hexEncode pub) p proofs used fee ord)
        \<and> Store_Get (n_store n') key = r \<and> live n' key = Some (taker_session e p priv pub ord)
        \<and> n_disk n' = Some (snapshotSwaps n') \<and> n_packets n' = n_packets n @ [(o_HubAddress ord, p_Command pkt, p_Body pkt)]"
proof -
  define m where "m = taking e key p priv pub proofs used fee ord n"
  note keeps = taking_keeps [OF assms(1,2), of e p priv pub proofs used fee, folded m_def]
  have ord: "map_of (s_orders (n_store n)) key = Some ord"
    using assms(1) by (simp add: Store_Get_eq)
  have st: "s_orders (n_store (fst (persistNow e m))) = AList.update key (mark_taken (e_now e) (hexEncode pub) p proofs used fee ord) (s_orders (n_store n))"
    by (simp add: persistNow_keeps keeps)
  note undo = revertTake_store [OF st ord]
  note res = assms(4) [unfolded commitTake_eq [OF assms(1)] m_def [symmetric] Let_def case_prod_beta]
  show ?thesis
  proof (cases "snd (persistNow e m) \<and> \<not> e_writeErr e")
    case True
    have "n_disk (fst (persistNow e m)) = Some (snapshotSwaps m)"
      using True persistNow_disk [OF assms(3)] by simp
    moreover have "snapshotSwaps (registerTakeRetry e key p (fst (persistNow e m)\<lparr>n_packets := x\<rparr>)) = snapshotSwaps m" for x
      by (simp add: snapshotSwaps_def registerTakeRetry_keeps persistNow_keeps)
    ultimately show ?thesis
      using True res keeps by (auto simp: registerTakeRetry_keeps persistNow_keeps Store_Get_eq AList.update_conv')
  next
    case False
    thus ?thesis
      using res undo keeps by (auto simp: api_err_def persistNow_keeps split: if_splits)
  qed
qed

text \<open>An order in the book, and a take of a part of it.\<close>

definition offer :: Order where
  "offer = zeroOrder\<lparr>o_Status := ''open'', o_FromAmount := 100, o_ToAmount := 50, o_PartialAllowed := True\<rparr>"

definition offer_key :: string where "offer_key = orderKey (replicate 32 0)"

definition offer_node :: Node where
  "offer_node = idle_node\<lparr>n_store := NewStore\<lparr>s_orders := [(offer_key, offer)]\<rparr>\<rparr>"

definition part_take :: TakeOrderParams where
  "part_take = \<lparr>tp_ID = offer_key, tp_FromAddress = ''a'', tp_ToAddress = ''b'', tp_Amount = ''0.00006'', tp_DryRun = False\<rparr>"

lemma offer_simps:
  "Store_Get (n_store offer_node) offer_key = Some offer" "orderKey (o_ID offer) = offer_key" "o_ToAmount offer = 50" "o_FromAmount offer = 100"
  "e_dataDir quiet_env" "\<not> e_writeErr quiet_env" "\<not> e_diskErr quiet_env" "n_packets offer_node = []"
  by (simp_all add: offer_node_def offer_def offer_key_def Store_Get_def zeroOrder_def quiet_env_def idle_node_def)

lemma commitTake_succeeds:
  assumes "Store_Get (n_store n) key = Some ord" and "orderKey (o_ID ord) = key" and "\<not> e_diskErr e" and "\<not> e_writeErr e"
  shows "\<exists>n'. commitTake e dtxt wtxt key p pkt priv pub proofs used fee n
    = (n', Inr (Some (mark_taken (e_now e) (hexEncode pub) p proofs used fee ord)))"
proof -
  have "snd (persistNow e m)" for m
    using assms(3) by (simp add: persistNow_def Let_def)
  thus ?thesis
    using assms(4) taking_keeps(1) [OF assms(1,2), of e p priv pub proofs used fee]
    by (simp add: commitTake_eq [OF assms(1)] Let_def case_prod_beta Store_Get_eq registerTakeRetry_keeps persistNow_keeps AList.update_conv')
qed

theorem commitTake_all_or_nothing_witness:
  "\<exists>n'. commitTake quiet_env [] [] offer_key part_take hub_pkt (replicate 32 7) (replicate 33 2) [] [] [] offer_node
       = (n', Inr (Some (mark_taken 1000 (hexEncode (replicate 33 2)) part_take [] [] [] offer)))
     \<and> live n' offer_key = Some (taker_session quiet_env part_take (replicate 32 7) (replicate 33 2) offer)
     \<and> n_packets n' = [(replicate 20 0, p_Command hub_pkt, p_Body hub_pkt)]"
proof -
  obtain n' where n': "commitTake quiet_env [] [] offer_key part_take hub_pkt (replicate 32 7) (replicate 33 2) [] [] [] offer_node
      = (n', Inr (Some (mark_taken (e_now quiet_env) (hexEncode (replicate 33 2)) part_take [] [] [] offer)))"
    using commitTake_succeeds [OF offer_simps(1,2,7,6)] by blast
  have "e_now quiet_env = 1000" "o_HubAddress offer = replicate 20 0"
    by (simp_all add: quiet_env_def offer_def zeroOrder_def)
  thus ?thesis
    using n' commitTake_all_or_nothing [OF offer_simps(1,2,5) n'] offer_simps(8) by auto
qed

section \<open>Takes of a part\<close>

lemma commitTake_session:
  assumes "Store_Get (n_store n) key = Some ord" and "orderKey (o_ID ord) = key"
    and "commitTake e dtxt wtxt key p pkt priv pub proofs used fee n = (n', Inr r)"
  obtains q where "n_sessions n' key = Some q" and "n_heap n' q = taker_session e p priv pub ord"
proof -
  let ?m = "taking e key p priv pub proofs used fee ord n"
  have n': "n' = registerTakeRetry e key p (fst (persistNow e ?m)\<lparr>n_packets := n_packets (fst (persistNow e ?m)) @ [(o_HubAddress ord, p_Command pkt, p_Body pkt)]\<rparr>)"
    using assms(3) by (simp add: commitTake_eq [OF assms(1)] Let_def case_prod_beta api_err_def split: if_splits)
  note keeps = taking_keeps [OF assms(1,2), of e p priv pub proofs used fee]
  have "n_sessions n' key = Some (n_next n)" "live n' key = Some (taker_session e p priv pub ord)"
    using keeps(5,6) by (simp_all add: n' registerTakeRetry_keeps persistNow_keeps)
  thus ?thesis
    using that by (simp add: live_def)
qed

text \<open>
  C17: a take of a part of an order cannot get past the hold. The packet carries the sizes of the
  part, but the session that the take opens holds the amounts of the whole order; the hub's Hold
  with the sizes of the part is then ignored by that session, whatever the surroundings.
\<close>

theorem partial_take_hold_ignored:
  assumes "Store_Get (n_store n) key = Some ord" and "orderKey (o_ID ord) = key"
    and "take_sizes p a ord = Inr (fromSize, toSize)" and "toSize \<noteq> o_FromAmount ord"
    and "commitTake e dtxt wtxt key p pkt priv pub proofs used fee n = (n', Inr r)"
    and "hb_FromAmount b = fromSize" and "hb_ToAmount b = toSize"
  shows "\<exists>q. n_sessions n' key = Some q \<and> OnHold e' b q n' = (n', Inr None)"
proof -
  obtain q where q: "n_sessions n' key = Some q" "n_heap n' q = taker_session e p priv pub ord"
    by (rule commitTake_session [OF assms(1,2,5)])
  have "verifyHold n' (taker_session e p priv pub ord) b \<noteq> None"
    using assms(4,7) by (simp add: verifyHold_def taker_session_def)
  thus ?thesis
    using q by (auto simp: OnHold_def Let_def)
qed

theorem partial_take_hold_ignored_witness:
  "\<exists>n' q. take_sizes part_take 60 offer = Inr (xBridgeSourceAmountFromPrice 60 50 100, 60) \<and> n_sessions n' offer_key = Some q
     \<and> OnHold quiet_env \<lparr>hb_HubAddress = [], hb_ID = replicate 32 0, hb_FromAmount = xBridgeSourceAmountFromPrice 60 50 100, hb_ToAmount = 60\<rparr> q n'
       = (n', Inr None)"
proof -
  have sizes: "take_sizes part_take 60 offer = Inr (xBridgeSourceAmountFromPrice 60 50 100, 60)"
    by (simp add: take_sizes_def part_take_def offer_def zeroOrder_def Let_def)
  obtain n' where n': "commitTake quiet_env [] [] offer_key part_take hub_pkt (replicate 32 7) (replicate 33 2) [] [] [] offer_node
      = (n', Inr (Some (mark_taken (e_now quiet_env) (hexEncode (replicate 33 2)) part_take [] [] [] offer)))"
    using commitTake_succeeds [OF offer_simps(1,2,7,6)] by blast
  show ?thesis
    using sizes partial_take_hold_ignored [OF offer_simps(1,2) sizes _ n',
        of "\<lparr>hb_HubAddress = [], hb_ID = replicate 32 0, hb_FromAmount = xBridgeSourceAmountFromPrice 60 50 100, hb_ToAmount = 60\<rparr>" quiet_env]
    by (auto simp: offer_simps)
qed

section \<open>Overlapping calls\<close>

lemma reserve_free:
  assumes "Store_Get (n_store n) key = Some ord" and "\<not> isOrderTerminal (o_Status ord)" and "map_of (s_reserved (n_store n)) key = None"
    and "(utxoKey ` set (pl_fee pl) \<union> utxoKey ` set (pl_used pl)) \<inter> fst (LockedUtxoInfo (n_store n)) = {}"
  shows "snd (reserve_take key pl n) = reserveOK \<and> s_orders (n_store (fst (reserve_take key pl n))) = s_orders (n_store n)"
proof -
  have free: "\<not> (\<exists>k \<in> set (remdups (map utxoKey (pl_fee pl))). k \<in> fst (lockedInfoLocked (n_store n)))"
    "\<not> (\<exists>k \<in> set (map utxoKey (pl_used pl)). k \<in> fst (lockedInfoLocked (n_store n)))"
    using assms(4) by (auto simp: LockedUtxoInfo_def disjoint_iff)
  show ?thesis
    using assms(1-3) unfolding reserve_take_def ReserveForTake_def Let_def case_prod_beta if_not_P [OF free(1)] if_not_P [OF free(2)]
    by (simp add: Store_Get_eq)
qed

text \<open>
  C18: the reservation only holds off a second take while the first is between its reservation and
  its commit. A take that read the order before the first committed, and reaches its own reservation
  after that, passes it with other inputs in whatever state short of a terminal one the swap is, and
  its commit puts a new session in the place of the one that is being swapped: without deposit and
  without the refund signed for it.
\<close>

theorem stale_take_replaces_session:
  assumes "Store_Get (n_store n) key = Some ord" and "orderKey (o_ID ord) = key" and "\<not> isOrderTerminal (o_Status ord)"
    and "map_of (s_reserved (n_store n)) key = None"
    and "(utxoKey ` set (pl_fee pl) \<union> utxoKey ` set (pl_used pl)) \<inter> fst (LockedUtxoInfo (n_store n)) = {}"
    and "\<not> e_diskErr e" and "\<not> e_writeErr e"
  shows "\<exists>m n' r s. reserve_take key pl n = (m, reserveOK)
    \<and> commitTake e dtxt wtxt key p pkt priv pub (pl_proofs pl) (pl_used pl) (pl_fee pl) m = (n', Inr (Some r))
    \<and> o_Status r = ''accepting'' \<and> live n' key = Some s \<and> ss_state s = csTaker \<and> ss_ourDepositTxID s = [] \<and> ss_refundHex s = []"
proof -
  obtain m where m: "reserve_take key pl n = (m, reserveOK)" and same: "s_orders (n_store m) = s_orders (n_store n)"
    using reserve_free [OF assms(1,3,4,5)] by (cases "reserve_take key pl n") simp
  have get: "Store_Get (n_store m) key = Some ord"
    using assms(1) same by (simp add: Store_Get_eq)
  let ?r = "mark_taken (e_now e) (hexEncode pub) p (pl_proofs pl) (pl_used pl) (pl_fee pl) ord"
  obtain n' where n': "commitTake e dtxt wtxt key p pkt priv pub (pl_proofs pl) (pl_used pl) (pl_fee pl) m = (n', Inr (Some ?r))"
    using commitTake_succeeds [OF get assms(2,6,7)] by blast
  obtain q where "n_sessions n' key = Some q" "n_heap n' q = taker_session e p priv pub ord"
    by (rule commitTake_session [OF get assms(2) n'])
  hence "live n' key = Some (taker_session e p priv pub ord)"
    by (simp add: live_def)
  moreover have "o_Status ?r = ''accepting''"
    by (simp add: mark_taken_def)
  ultimately show ?thesis
    using m n' by (auto simp: taker_session_def zeroSession_def)
qed

text \<open>A swap under way: the deposit is out, the order is created.\<close>

definition swapping_node :: Node where
  "swapping_node = offer_node\<lparr>n_store := NewStore\<lparr>s_orders := [(offer_key, offer\<lparr>o_Status := ''created'', o_Mine := True\<rparr>)]\<rparr>,
     n_sessions := [offer_key \<mapsto> 0], n_next := 1,
     n_heap := (\<lambda>_. zeroSession\<lparr>ss_state := csCreatedB, ss_ourDepositTxID := ''aa'', ss_refundHex := ''bb''\<rparr>)\<rparr>"

definition late_plan :: take_plan where
  "late_plan = \<lparr>pl_order = offer, pl_fromSize = 50, pl_toSize = 100,
     pl_body = \<lparr>ab_HubAddress = [], ab_ID = [], ab_ServiceNodeFeeTx = [], ab_From = [], ab_FromCurrency = [], ab_FromAmount = 50,
       ab_FromBlockHeight = 0, ab_FromBlockHash = [], ab_To = [], ab_ToCurrency = [], ab_ToAmount = 100, ab_ToBlockHeight = 0,
       ab_ToBlockHash = [], ab_Utxos = []\<rparr>,
     pl_proofs = [], pl_used = [\<lparr>ut_TxID = ''cc'', ut_Vout = 0, ut_Address = [], ut_Amount = 50, ut_Value = 0, ut_ScriptPubKey = [],
       ut_Confirmations = 1\<rparr>], pl_fee = []\<rparr>"

theorem stale_take_replaces_session_witness:
  "map_option ss_refundHex (live swapping_node offer_key) = Some ''bb''
   \<and> (\<exists>m n' r s. reserve_take offer_key late_plan swapping_node = (m, reserveOK)
      \<and> commitTake quiet_env [] [] offer_key part_take hub_pkt (replicate 32 7) (replicate 33 2) (pl_proofs late_plan) (pl_used late_plan) (pl_fee late_plan) m
        = (n', Inr (Some r))
      \<and> o_Status r = ''accepting'' \<and> live n' offer_key = Some s \<and> ss_state s = csTaker \<and> ss_ourDepositTxID s = [] \<and> ss_refundHex s = [])"
proof -
  let ?ord = "offer\<lparr>o_Status := ''created'', o_Mine := True\<rparr>"
  have 1: "Store_Get (n_store swapping_node) offer_key = Some ?ord" "orderKey (o_ID ?ord) = offer_key"
    "map_of (s_reserved (n_store swapping_node)) offer_key = None" "live swapping_node offer_key = Some (n_heap swapping_node 0)"
    using offer_simps(2) by (simp_all add: swapping_node_def Store_Get_def NewStore_def live_def)
  have 2: "\<not> isOrderTerminal (o_Status ?ord)"
    by (simp add: isOrderTerminal_def statusString_def)
  have "fst (LockedUtxoInfo (n_store swapping_node)) = {}"
    by (simp add: LockedUtxoInfo_def lockedInfoLocked_def lock_writes_def swapping_node_def NewStore_def order_locks_def offer_def zeroOrder_def Let_def)
  hence 3: "(utxoKey ` set (pl_fee late_plan) \<union> utxoKey ` set (pl_used late_plan)) \<inter> fst (LockedUtxoInfo (n_store swapping_node)) = {}"
    by simp
  show ?thesis
    using stale_take_replaces_session [OF 1(1,2) 2 1(3) 3 offer_simps(7,6)] 1(4) by (simp add: swapping_node_def)
qed

text \<open>
  C20: making an order takes no reservation. The outputs are looked up among the unlocked ones when
  the call begins, and the unit that files the order does not look again: an order over an output
  that another order has locked in the meantime is filed, saved and announced, and both lock it.
\<close>

theorem commitMake_ignores_locks:
  assumes "map_of (s_orders (n_store n)) k = Some other" and "k \<noteq> orderKey (o_ID ord)"
    and "\<not> orderLockReleased (o_Status other)" and "\<not> orderLockReleased (o_Status ord)"
    and "u \<in> set (o_Utxos other)" and "u \<in> set (o_Utxos ord)" and "\<not> e_diskErr e" and "\<not> e_writeErr e"
  shows "\<exists>n'. commitMake e rip xpk dtxt wtxt False ord a1 a2 priv pub pkt hubAddr n = (n', Inr (Some ord))
    \<and> n_packets n' = n_packets n @ [(hubAddr, p_Command pkt, p_Body pkt)]
    \<and> (\<exists>o1 o2. map_of (s_orders (n_store n')) k = Some o1 \<and> map_of (s_orders (n_store n')) (orderKey (o_ID ord)) = Some o2
        \<and> utxoEntryKey u \<in> fst ` set (order_locks o1) \<and> utxoEntryKey u \<in> fst ` set (order_locks o2))"
proof -
  define m where "m = newMakerSession e rip xpk ord a1 a2 priv pub (n\<lparr>n_store := Add (n_store n) ord\<rparr>)"
  have m: "n_store m = Add (n_store n) ord" "n_packets m = n_packets n"
    by (simp_all add: m_def newMakerSession_def install_def split: option.splits)
  have ok: "snd (persistNow e m)"
    using assms(7) by (simp add: persistNow_def Let_def)
  have locks: "utxoEntryKey u \<in> fst ` set (order_locks other)" "utxoEntryKey u \<in> fst ` set (order_locks ord)"
    using assms(3-6) by (auto simp: order_locks_def Let_def image_Un image_image)
  let ?n = "fst (persistNow e m)\<lparr>n_packets := n_packets m @ [(hubAddr, p_Command pkt, p_Body pkt)]\<rparr>"
  have "commitMake e rip xpk dtxt wtxt False ord a1 a2 priv pub pkt hubAddr n = (?n, Inr (Some ord))"
  proof -
    have "Store_Get (n_store ?n) (hexEncode (o_ID ord)) = Some ord"
      by (simp add: persistNow_keeps Store_Get_eq m Add_def orderKey_def AList.update_conv')
    thus ?thesis
      using ok assms(8) by (simp add: commitMake_def Let_def m_def [symmetric] case_prod_beta persistNow_keeps)
  qed
  moreover have "map_of (s_orders (n_store ?n)) k = Some other" "map_of (s_orders (n_store ?n)) (orderKey (o_ID ord)) = Some ord"
    using assms(1,2) by (simp_all add: persistNow_keeps m Add_def AList.update_conv')
  ultimately show ?thesis
    using locks m(2) by auto
qed

definition proof_of_funds :: UtxoEntry where
  "proof_of_funds = \<lparr>ue_TxID = replicate 32 1, ue_Vout = 0, ue_RawAddress = replicate 20 0, ue_Signature = replicate 65 0\<rparr>"

definition funded_node :: Node where
  "funded_node = idle_node\<lparr>n_store := NewStore\<lparr>s_orders := [(offer_key, offer\<lparr>o_Utxos := [proof_of_funds]\<rparr>)]\<rparr>\<rparr>"

definition rival :: Order where
  "rival = offer\<lparr>o_ID := replicate 32 1, o_Utxos := [proof_of_funds]\<rparr>"

theorem commitMake_ignores_locks_witness:
  "\<exists>n'. commitMake quiet_env id None [] [] False rival [] [] [] [] hub_pkt [] funded_node = (n', Inr (Some rival))
    \<and> n_packets n' = [([], p_Command hub_pkt, p_Body hub_pkt)]"
proof -
  have k: "offer_key \<noteq> orderKey (o_ID rival)"
    by (simp add: offer_key_def rival_def orderKey_def hexEncode_def) code_simp
  have st: "\<not> orderLockReleased (o_Status (offer\<lparr>o_Utxos := [proof_of_funds]\<rparr>))" "\<not> orderLockReleased (o_Status rival)"
    by (simp_all add: offer_def rival_def orderLockReleased_def isOrderTerminal_def statusString_def)
  have get: "map_of (s_orders (n_store funded_node)) offer_key = Some (offer\<lparr>o_Utxos := [proof_of_funds]\<rparr>)"
    by (simp add: funded_node_def)
  show ?thesis
    using commitMake_ignores_locks [OF get k st, of proof_of_funds quiet_env] offer_simps(6,7)
    by (fastforce simp: rival_def funded_node_def idle_node_def)
qed

section \<open>Orders with a prep transaction\<close>

lemma prep_not_announced: "Store_Get (n_store n) key = Some ord \<Longrightarrow> o_PrepTx ord \<noteq> [] \<Longrightarrow> rebroadcast_one e rip snReg wok key n = n"
  by (simp add: rebroadcast_one_def Let_def split: option.splits)

lemma map_of_filter_keep: "map_of xs k = Some v \<Longrightarrow> P (k, v) \<Longrightarrow> map_of (filter P xs) k = Some v"
  by (induction xs) (auto split: if_splits)

lemma prep_not_expired:
  assumes "distinct (map fst (s_orders s))" and "map_of (s_orders s) key = Some ord" and "o_PrepTx ord \<noteq> []"
  shows "map_of (s_orders (fst (PruneExpired s now height inSwap))) key = Some ord"
proof -
  define gone where "gone = filter (\<lambda>(k, ord). order_expired now height inSwap k ord) (s_orders s)"
  have "key \<notin> fst ` set gone"
  proof
    assume "key \<in> fst ` set gone"
    then obtain other where "(key, other) \<in> set (s_orders s)" "order_expired now height inSwap key other"
      by (auto simp: gone_def)
    moreover from this(1) have "other = ord"
      using assms(1,2) by (simp add: map_of_is_SomeI)
    ultimately show False
      using assms(3) by (simp add: order_expired_def split: if_splits)
  qed
  moreover obtain s' p where loop: "prune_loop now height inSwap (s_orders s) (s, []) = (s', p)"
    by fastforce
  ultimately show ?thesis
    using prune_loop_result(2) [OF loop] assms(2) by (simp add: PruneExpired_def gone_def map_of_filter_keep)
qed

text \<open>
  C19: an order made with automatic splitting is filed but not announced, and it never is later: the
  sweep that announces open orders again passes over it under all surroundings, and so does the
  expiry sweep, so that it stays in the book with its funds locked.
\<close>

theorem split_order_never_announced:
  assumes "o_PrepTx ord \<noteq> []" and "distinct (map fst (s_orders (n_store n)))"
    and "n' = fst (commitMake e rip xpk dtxt wtxt True ord a1 a2 priv pub pkt hubAddr n)"
  shows "n_packets n' = n_packets n \<and> rebroadcast_one e' rip' snReg wok (orderKey (o_ID ord)) n' = n'
    \<and> Store_Get (fst (PruneExpired (n_store n') now height inSwap)) (orderKey (o_ID ord)) = Some ord"
proof -
  have n': "n_packets n' = n_packets n" "s_orders (n_store n') = AList.update (orderKey (o_ID ord)) ord (s_orders (n_store n))"
    by (simp_all add: assms(3) commitMake_def persist_def newMakerSession_def install_def Let_def Add_def AList.update_conv' split: option.splits)
  hence st: "map_of (s_orders (n_store n')) (orderKey (o_ID ord)) = Some ord" "distinct (map fst (s_orders (n_store n')))"
    using assms(2) by (simp_all add: AList.update_conv' distinct_update)
  show ?thesis
    using n'(1) st(1) prep_not_expired [OF st(2,1) assms(1)] prep_not_announced [of n' "orderKey (o_ID ord)" ord] assms(1)
    by (simp add: Store_Get_eq)
qed

theorem split_order_never_announced_witness:
  "n_packets (fst (commitMake quiet_env id None [] [] True (offer\<lparr>o_PrepTx := ''aa''\<rparr>) [] [] [] [] hub_pkt [] idle_node)) = []"
proof -
  have "n_packets (fst (commitMake quiet_env id None [] [] True (offer\<lparr>o_PrepTx := ''aa''\<rparr>) [] [] [] [] hub_pkt [] idle_node)) = n_packets idle_node"
    by (rule split_order_never_announced [OF _ _ refl, THEN conjunct1]) (simp_all add: idle_node_def NewStore_def)
  thus ?thesis
    by (simp add: idle_node_def)
qed

section \<open>The plan of a partial order\<close>

lemma small_div:
  fixes a b :: u64
  assumes "unat a < 2 ^ 63"
  shows "sint (a div b) = int (unat a div unat b)"
proof -
  have "unat (a div b) \<le> unat a"
    by (simp add: unat_div)
  hence "unat (a div b) < 2 ^ 63"
    using assms by linarith
  from signed_small [OF this] show ?thesis
    by (simp only: unat_div)
qed

lemma part_word:
  fixes a b :: u64
  assumes "c * unat b \<le> unat a"
  shows "\<not> a < word_of_int (int c) * b" "unat (a - word_of_int (int c) * b) = unat a - c * unat b"
proof -
  have "unat (of_nat (c * unat b) :: u64) = c * unat b"
    unfolding unat_of_nat by (rule mod_less) (rule le_less_trans [OF assms unsigned_less])
  hence "unat (word_of_int (int c) * b) = c * unat b"
    by simp
  thus "\<not> a < word_of_int (int c) * b" "unat (a - word_of_int (int c) * b) = unat a - c * unat b"
    using assms by (simp_all add: word_less_nat_alt unat_sub word_le_nat_alt)
qed

lemma cut_count:
  fixes a m :: nat
  assumes "0 < m" and "m \<le> a" and "c = (if a div m \<ge> 10 then 9 else a div m)"
  shows "1 \<le> c" "c \<le> 9" "c * m \<le> a" "a div m < 10 \<Longrightarrow> a - c * m = a mod m" "10 \<le> a div m \<Longrightarrow> c * m < a"
proof -
  have "1 \<le> a div m"
    using div_le_mono [OF assms(2), of m] assms(1) by simp
  thus "1 \<le> c" "c \<le> 9"
    by (simp_all add: assms(3))
  have down: "k * m \<le> a" if "k \<le> a div m" for k
    using mult_le_mono1 [OF that, of m] div_times_less_eq_dividend [of a m] by linarith
  show "c * m \<le> a"
    using down [of c] by (simp add: assms(3))
  show "a div m < 10 \<Longrightarrow> a - c * m = a mod m"
    by (simp add: assms(3) minus_div_mult_eq_mod)
  assume "10 \<le> a div m"
  thus "c * m < a"
    using down [of 10] assms(1,3) by simp
qed

text \<open>
  C31: the cut of a partial order. For a minimum that is neither zero nor above the size, and a size
  within the limit, the plan has between one and nine outputs of the minimum size and a rest that
  together are exactly the order's size, at most ten outputs in all, and asks for a rest exactly when
  there is one; the rest is below the minimum unless the order was cut at nine.
\<close>

theorem plan_partial_covers:
  assumes "0 < minFrom" and "minFrom \<le> fromAmt" and "fromAmt \<le> maxXSize"
  shows "\<exists>pp. plan_partial cc fromAmt minFrom = Inr pp \<and> 1 \<le> pp_count pp \<and> pp_count pp \<le> 9
    \<and> pp_orderVouts pp \<le> int maxPartialOrderUtxos
    \<and> pp_count pp * int (unat minFrom) + int (unat (pp_remainder pp)) = int (unat fromAmt)
    \<and> (pp_remainderRequired pp \<longleftrightarrow> pp_remainder pp \<noteq> 0) \<and> (pp_count pp < 9 \<longrightarrow> pp_remainder pp < minFrom)"
proof -
  define q where "q = unat fromAmt div unat minFrom"
  define c where "c = (if q \<ge> 10 then 9 else q)"
  have pos: "0 < unat minFrom" "unat minFrom \<le> unat fromAmt" "unat fromAmt \<le> unat maxXSize"
    using assms by (simp_all add: word_less_nat_alt word_le_nat_alt)
  note cut = cut_count [OF pos(1,2) c_def [unfolded q_def], folded q_def]
  have small: "unat fromAmt < 2 ^ 63"
    using pos(3) by (simp add: maxXSize_def)
  let ?rest = "fromAmt - word_of_int (int c) * minFrom"
  note rest = part_word [OF cut(3)]
  have zero: "x = 0 \<longleftrightarrow> unat x = 0" for x :: u64
    by (metis unsigned_0 unsigned_word_eqI)
  have req: "(if q \<ge> 10 then True else fromAmt mod minFrom \<noteq> 0) \<longleftrightarrow> ?rest \<noteq> 0"
    using cut(4,5) rest(2) zero [of "fromAmt mod minFrom"] zero [of ?rest] by (cases "10 \<le> q") (simp_all add: unat_mod del: unat_eq_zero)
  have lt: "c < 9 \<Longrightarrow> ?rest < minFrom"
    using cut(4) rest(2) pos(1) by (simp add: c_def word_less_nat_alt split: if_splits)
  have cnt: "(if int (10::nat) \<le> sint (fromAmt div minFrom) then (int 10 - 1, True) else (sint (fromAmt div minFrom), fromAmt mod minFrom \<noteq> 0))
      = (int c, ?rest \<noteq> 0)"
    using req by (simp add: small_div [OF small] q_def [symmetric] c_def split: if_splits)
  have nz: "\<not> minFrom = 0"
    using assms(1) by auto
  have "\<exists>pp. plan_partial cc fromAmt minFrom = Inr pp \<and> pp_count pp = int c \<and> pp_remainder pp = ?rest
    \<and> pp_remainderRequired pp = (?rest \<noteq> 0) \<and> pp_orderVouts pp \<le> int c + 1"
    unfolding plan_partial_def maxPartialOrderUtxos_def Let_def cnt prod.case if_not_P [OF nz] if_not_P [OF rest(1)]
    by (intro exI conjI, rule refl) simp_all
  then obtain pp where pp: "plan_partial cc fromAmt minFrom = Inr pp" "pp_count pp = int c" "pp_remainder pp = ?rest"
    "pp_remainderRequired pp = (?rest \<noteq> 0)" "pp_orderVouts pp \<le> int c + 1"
    by blast
  show ?thesis
    using pp rest(2) cut(1-3) lt by (intro exI [of _ pp]) (auto simp: maxPartialOrderUtxos_def of_nat_diff)
qed

theorem plan_partial_covers_witness:
  "\<exists>pp. plan_partial bare_conf 100 30 = Inr pp \<and> pp_count pp \<le> 9 \<and> pp_count pp * 30 + int (unat (pp_remainder pp)) = 100"
  using plan_partial_covers [of 30 100 bare_conf] by (auto simp: maxXSize_def)

text \<open>A minimum of zero passes the dust test of a coin without a dust limit, and the plan divides by it.\<close>

lemma zero_minimum_panics:
  assumes "mp_Type p = ''partial''" and "mp_MinSize p \<noteq> []" and "lexicalAmount (mp_MinSize p) = Inr 0" and "effectiveDust (Some (mi_cc mi)) = 0"
  shows "make_funds e h p mi coin n = Inl (ApiPanic ''integer divide by zero'')"
  using assms by (simp add: make_funds_def make_min_def make_plan_def plan_partial_def a_bind_def Let_def float_of_u64_def val_nat)

end
