(* ===== verification/TakeRetryProps.thy ===== *)
theory TakeRetryProps
  imports OrderEntry SwapSafety
begin

text \<open>
  How often a rejected take is tried again: the rejects of the hub, the parked timers, and the
  whole take that a timer runs, with its commit and its entry in the table of retries.
\<close>

section \<open>The take that a timer runs\<close>

text \<open>The call of \<^verbatim>\<open>TakeOrder\<close> and the code of its error; a panic ends the goroutine of the timer.\<close>

definition retake :: "'k Env \<Rightarrow> handler_env \<Rightarrow> (Node \<Rightarrow> Node) \<Rightarrow> (Node \<Rightarrow> Node) \<Rightarrow> TakeOrderParams \<Rightarrow> Node \<Rightarrow> Node \<times> int option" where
  "retake e h oth1 oth2 p n = (case TakeOrder e h oth1 oth2 p n of
       (n', Inl (ApiErr er)) \<Rightarrow> (n', Some (re_Code er))
     | (n', _) \<Rightarrow> (n', None))"

definition timers_of :: "string \<Rightarrow> Node \<Rightarrow> nat" where
  "timers_of i n = length (filter (\<lambda>t. fst t = i) (n_timers n))"

text \<open>What the node does beside an order's retry: it leaves the entry and the timers of the order.\<close>

definition steady :: "string \<Rightarrow> (Node \<Rightarrow> Node) \<Rightarrow> bool" where
  "steady i oth \<longleftrightarrow> (\<forall>n. n_takeRetries (oth n) i = n_takeRetries n i \<and> timers_of i (oth n) = timers_of i n)"

lemma retry_fields [simp]:
  "n_takeRetries (upd_order key f n) = n_takeRetries n" "n_timers (upd_order key f n) = n_timers n"
  "n_takeRetries (release_reserve key n) = n_takeRetries n" "n_timers (release_reserve key n) = n_timers n"
  "n_takeRetries (fst (persistNow e n)) = n_takeRetries n" "n_timers (fst (persistNow e n)) = n_timers n"
  "n_takeRetries (persist e n) = n_takeRetries n" "n_timers (persist e n) = n_timers n"
  "n_takeRetries (drop_session key n) = n_takeRetries n" "n_timers (drop_session key n) = n_timers n"
  "n_takeRetries (newTakerSession e ord a1 a2 priv pub n) = n_takeRetries n" "n_timers (newTakerSession e ord a1 a2 priv pub n) = n_timers n"
  "n_takeRetries (fst (reserve_take key pl n)) = n_takeRetries n" "n_timers (fst (reserve_take key pl n)) = n_timers n"
  by (simp_all add: upd_order_def release_reserve_def persistNow_def persist_def Let_def drop_session_def newTakerSession_def
      install_def reserve_take_def case_prod_beta)

lemma retry_revert [simp]: "n_takeRetries (revertTake e key prev n) = n_takeRetries n" "n_timers (revertTake e key prev n) = n_timers n"
  by (simp_all add: revertTake_def)

text \<open>An entry that is there stays as it is: the take registers its order only if it has none.\<close>

lemma registerTakeRetry_entry:
  "n_takeRetries n i = Some st \<Longrightarrow> n_takeRetries (registerTakeRetry e key p n) i = Some st"
  "n_timers (registerTakeRetry e key p n) = n_timers n"
  by (auto simp: registerTakeRetry_def split: option.splits)

lemma commitTake_entry:
  "n_takeRetries n i = Some st \<Longrightarrow> n_takeRetries (fst (commitTake e dtxt wtxt key p pkt priv pub proofs used fee n)) i = Some st"
  "n_timers (fst (commitTake e dtxt wtxt key p pkt priv pub proofs used fee n)) = n_timers n"
  by (auto simp: commitTake_def Let_def case_prod_beta registerTakeRetry_entry split: option.splits)

lemma take_submit_entry:
  assumes "n_takeRetries n i = Some st" and "steady i oth"
  shows "n_takeRetries (fst (take_submit e h oth p pl n)) i = Some st \<and> timers_of i (fst (take_submit e h oth p pl n)) = timers_of i n"
proof -
  define m where "m = oth (fst (reserve_take (orderIDKey (tp_ID p)) pl n))"
  have m: "n_takeRetries m i = Some st" "length (filter (\<lambda>t. fst t = i) (n_timers m)) = timers_of i n"
    using assms by (simp_all add: m_def steady_def timers_of_def)
  show ?thesis
    using assms(1)
    by (simp add: take_submit_def Let_def case_prod_beta m_def [symmetric] commitTake_entry m split: sum.split option.split)
      (simp add: timers_of_def m commitTake_entry)
qed

lemma TakeOrder_entry:
  assumes "n_takeRetries n i = Some st" and "steady i oth1" and "steady i oth2"
  shows "n_takeRetries (fst (TakeOrder e h oth1 oth2 p n)) i = Some st \<and> timers_of i (fst (TakeOrder e h oth1 oth2 p n)) = timers_of i n"
proof -
  have "n_takeRetries (oth1 n) i = Some st" "timers_of i (oth1 n) = timers_of i n"
    using assms by (simp_all add: steady_def)
  thus ?thesis
    using assms(1) by (simp add: TakeOrder_def take_submit_entry [OF _ assms(3)] split: sum.split take_reply.split)
qed

lemma retake_entry:
  assumes "n_takeRetries n i = Some st" and "steady i oth1" and "steady i oth2"
  shows "n_takeRetries (fst (retake e h oth1 oth2 p n)) i = Some st \<and> timers_of i (fst (retake e h oth1 oth2 p n)) = timers_of i n"
proof -
  have "fst (retake e h oth1 oth2 p n) = fst (TakeOrder e h oth1 oth2 p n)"
    by (simp add: retake_def split: prod.split sum.split api_fail.split)
  thus ?thesis
    using TakeOrder_entry [OF assms] by simp
qed

section \<open>Runs of rejects and timers\<close>

text \<open>A reject that the node heeds: of an order it takes, signed by the hub, with the reason that is tried again.\<close>

definition heeded :: "'k Env \<Rightarrow> Packet \<Rightarrow> RejectBody \<Rightarrow> Node \<Rightarrow> bool" where
  "heeded e pkt b n \<longleftrightarrow> rjb_Reason b = crNotAccepted \<and> (case Store_Get (n_store n) (hexEncode (rjb_ID b)) of None \<Rightarrow> False
     | Some ord \<Rightarrow> o_Role ord = byte_of_char CHR ''B'' \<and> stateOrdinal (o_Status ord) \<le> 3 \<and> verified e pkt (o_SNodePubkey ord))"

text \<open>
  What may happen to an order whose take was registered, with the surroundings of each event and the
  number of rejects heeded and of timers fired: in any order, a reject, a timer of the order, and anything else that neither
  registers nor arms a retry of the order (it may drop the entry: a cancellation, the sweep).
\<close>

inductive retry_run :: "string \<Rightarrow> int \<Rightarrow> Node \<Rightarrow> 'k Env list \<Rightarrow> nat \<Rightarrow> nat \<Rightarrow> Node \<Rightarrow> bool" for i :: string and cap :: int and n0 :: Node where
  rr_start: "retry_run i cap n0 [] 0 0 n0"
| rr_reject: "retry_run i cap n0 es r f n \<Longrightarrow> e_takeRetry e = cap \<Longrightarrow> hexEncode (rjb_ID b) = i \<Longrightarrow> heeded e pkt b n
    \<Longrightarrow> retry_run i cap n0 (e # es) (Suc r) f (handleRemoteReject e pkt b n)"
| rr_fire: "retry_run i cap n0 es r f n \<Longrightarrow> e_takeRetry e = cap \<Longrightarrow> k < length (n_timers n) \<Longrightarrow> fst (n_timers n ! k) = i
    \<Longrightarrow> steady i oth1 \<Longrightarrow> steady i oth2 \<Longrightarrow> retry_run i cap n0 (e # es) r (Suc f) (fire_timer e (retake e h oth1 oth2) k n)"
| rr_other: "retry_run i cap n0 es r f n \<Longrightarrow> n_takeRetries m i \<in> {None, n_takeRetries n i} \<Longrightarrow> timers_of i m = timers_of i n
    \<Longrightarrow> retry_run i cap n0 es r f m"

text \<open>
  The account of an order whose entry started at \<open>a0\<close> attempts with \<open>t0\<close> timers parked: every timer
  that was fired or is parked is one of those or was counted as an attempt, and so was every reject.
\<close>

definition account :: "int \<Rightarrow> string \<Rightarrow> int \<Rightarrow> nat \<Rightarrow> nat \<Rightarrow> nat \<Rightarrow> Node \<Rightarrow> bool" where
  "account cap i a0 t0 r f n \<longleftrightarrow> f + timers_of i n \<le> t0 + nat (cap - a0)
     \<and> (case n_takeRetries n i of None \<Rightarrow> True | Some st \<Rightarrow> a0 + int r \<le> tr_attempts st \<and> tr_attempts st \<le> cap
         \<and> int (f + timers_of i n) \<le> int t0 + (tr_attempts st - a0))"

lemma retry_counts:
  "n_takeRetries (arm_take_retry i st n) i = Some (st\<lparr>tr_attempts := tr_attempts st + 1\<rparr>)"
  "timers_of i (arm_take_retry i st n) = Suc (timers_of i n)"
  "n_takeRetries (dropTakeRetry i n) i = None" "timers_of i (dropTakeRetry i n) = timers_of i n"
  by (simp_all add: arm_take_retry_def dropTakeRetry_def timers_of_def Let_def)

lemma account_cong:
  "n_takeRetries m i = n_takeRetries n i \<Longrightarrow> timers_of i m = timers_of i n \<Longrightarrow> account cap i a0 t0 r f m = account cap i a0 t0 r f n"
  by (simp add: account_def cong: option.case_cong)

lemma account_gone: "account cap i a0 t0 r f n \<Longrightarrow> n_takeRetries m i = None \<Longrightarrow> timers_of i m = timers_of i n \<Longrightarrow> account cap i a0 t0 r' f m"
  by (simp add: account_def)

lemma account_arm:
  assumes "account cap i a0 t0 r f n" and "n_takeRetries n i = Some st" and "tr_attempts st < cap"
  shows "account cap i a0 t0 (Suc r) f (arm_take_retry i st n)" and "account cap i a0 t0 r f (arm_take_retry i st n)"
  using assms by (auto simp: account_def retry_counts)

lemma account_schedule:
  assumes "account cap i a0 t0 r f n" and "e_takeRetry e = cap" and "0 < cap"
  shows "account cap i a0 t0 (Suc r) f (scheduleTakeRetry e i n)"
proof (cases "n_takeRetries n i")
  case None
  thus ?thesis
    using assms account_gone [OF assms(1), of n "Suc r"] by (simp add: scheduleTakeRetry_def)
next
  case (Some st)
  thus ?thesis
    using assms account_arm(1) [OF assms(1) Some] account_gone [OF assms(1), of "dropTakeRetry i n" "Suc r"]
    by (simp add: scheduleTakeRetry_def retry_counts)
qed

lemma heeded_reject:
  assumes "heeded e pkt b n"
  obtains m where "handleRemoteReject e pkt b n = scheduleTakeRetry e (hexEncode (rjb_ID b)) m"
    "n_takeRetries m = n_takeRetries n" "n_timers m = n_timers n"
  using assms that by (auto simp: heeded_def handleRemoteReject_def Let_def split: option.splits)

lemma account_retake:
  assumes "account cap i a0 t0 r f n" and "e_takeRetry e = cap" and "0 < cap" and "steady i oth1" and "steady i oth2"
  shows "account cap i a0 t0 r f (runTakeRetry e (retake e h oth1 oth2) i p n)"
proof (cases "n_takeRetries n i")
  case (Some st)
  define m where "m = fst (retake e h oth1 oth2 p n)"
  have m: "n_takeRetries m i = Some st" "timers_of i m = timers_of i n"
    using retake_entry [OF Some assms(4,5), of e h p] by (simp_all add: m_def)
  have same: "account cap i a0 t0 r f m" "account cap i a0 t0 r f (dropTakeRetry i m)" "account cap i a0 t0 r f (dropTakeRetry i n)"
    using assms(1) Some m account_cong [of m i n] account_gone [OF assms(1)] by (simp_all add: retry_counts)
  show ?thesis
    using Some m same account_arm(2) [OF same(1) m(1)] assms(2,3)
    by (simp add: runTakeRetry_def case_prod_beta Let_def m_def [symmetric] split: option.split)
qed (use assms in \<open>simp add: runTakeRetry_def\<close>)

lemma timer_leaves:
  assumes "k < length (n_timers n)" and "fst (n_timers n ! k) = i"
  shows "timers_of i n = Suc (timers_of i (n\<lparr>n_timers := take k (n_timers n) @ drop (Suc k) (n_timers n)\<rparr>))"
  by (subst timers_of_def, subst id_take_nth_drop [OF assms(1)]) (simp add: timers_of_def assms(2))

lemma account_fire:
  assumes "account cap i a0 t0 r f n" and "e_takeRetry e = cap" and "0 < cap" and "steady i oth1" and "steady i oth2"
    and timer: "k < length (n_timers n)" "fst (n_timers n ! k) = i"
  shows "account cap i a0 t0 r (Suc f) (fire_timer e (retake e h oth1 oth2) k n)"
proof -
  have "account cap i a0 t0 r (Suc f) (n\<lparr>n_timers := take k (n_timers n) @ drop (Suc k) (n_timers n)\<rparr>)"
    using assms(1) timer_leaves [OF timer] by (simp add: account_def split: option.splits)
  thus ?thesis
    using account_retake [OF _ assms(2-5)] timer by (auto simp: fire_timer_def split: prod.split)
qed

lemma retry_account:
  assumes "retry_run i cap n0 es r f n" and "0 < cap" and "n_takeRetries n0 i = Some st" and "tr_attempts st \<le> cap"
  shows "account cap i (tr_attempts st) (timers_of i n0) r f n"
  using assms(1)
proof induction
  case rr_start
  thus ?case
    using assms(3,4) by (simp add: account_def)
next
  case (rr_reject es r f n e b pkt)
  obtain m where m: "handleRemoteReject e pkt b n = scheduleTakeRetry e i m" "n_takeRetries m = n_takeRetries n" "n_timers m = n_timers n"
    using heeded_reject [OF rr_reject.hyps(4)] rr_reject.hyps(3) by metis
  have "account cap i (tr_attempts st) (timers_of i n0) r f m"
    using rr_reject.IH m(2,3) account_cong [of m i n] by (simp add: timers_of_def)
  thus ?case
    using account_schedule [OF _ rr_reject.hyps(2) assms(2)] m(1) by simp
next
  case (rr_fire es r f n e k oth1 oth2 h)
  thus ?case
    using account_fire assms(2) by blast
next
  case (rr_other es r f n m)
  thus ?case
    using account_gone [OF rr_other.IH] account_cong [of m i n] by auto
qed

text \<open>
  C23: a take that the hub rejects again and again is tried at most as often as configured, with the
  whole take run between two rejects: however rejects and timers follow each other, the timers of
  the order that fired and those still parked are no more than were parked at the start and the
  attempts its entry had left, and once more rejects came than that the entry is gone.
\<close>

theorem take_retries_bounded:
  assumes "retry_run i cap n0 es r f n" and "0 < cap" and "n_takeRetries n0 i = Some st" and "tr_attempts st \<le> cap"
  shows "f + timers_of i n \<le> timers_of i n0 + nat (cap - tr_attempts st)
    \<and> (cap - tr_attempts st < int r \<longrightarrow> n_takeRetries n i = None)"
  using retry_account [OF assms] by (cases "n_takeRetries n i") (auto simp: account_def)

text \<open>An example: the cap is two; a reject, then two timers whose takes find no connection.\<close>

definition retry_params :: TakeOrderParams where
  "retry_params = \<lparr>tp_ID = [], tp_FromAddress = [], tp_ToAddress = [], tp_Amount = [], tp_DryRun = False\<rparr>"

definition registered_node :: Node where
  "registered_node = idle_node\<lparr>n_store := NewStore\<lparr>s_orders := [(hexEncode (replicate 32 0),
       zeroOrder\<lparr>o_SNodePubkey := hexEncode hub_key, o_Role := byte_of_char CHR ''B'', o_Status := ''accepting''\<rparr>)]\<rparr>,
     n_takeRetries := [hexEncode (replicate 32 0) \<mapsto> \<lparr>tr_params = retry_params, tr_attempts = 0\<rparr>]\<rparr>"

definition reject_body :: RejectBody where
  "reject_body = \<lparr>rjb_ID = replicate 32 0, rjb_Reason = crNotAccepted\<rparr>"

definition rejected_node :: Node where
  "rejected_node = handleRemoteReject quiet_env hub_pkt reject_body registered_node"

definition bare_handler :: handler_env where
  "bare_handler = \<lparr>h_listUnspent = (\<lambda>_ _. Inr []), h_zeroConf = Inr [], h_balance = Inr 0, h_signMessage = (\<lambda>_ _ _. Inr []),
     h_draws = [], h_secret = None, h_rip = (\<lambda>_. []), h_srt = (\<lambda>_ xs. xs), h_txt = (\<lambda>_. []), h_dtxt = [], h_wtxt = [],
     h_reg = None, h_hubs = []\<rparr>"

abbreviation next_timer :: "Node \<Rightarrow> Node" where
  "next_timer \<equiv> fire_timer quiet_env (retake quiet_env bare_handler id id) 0"

lemma offline_retake: "retake quiet_env h id id p n = (n, Some errNoServiceNode)"
  by (simp add: retake_def TakeOrder_def take_prepare_def requireWrite_def quiet_simps api_err_def a_bind_def makeError_def)

lemma registered_order:
  "Store_Get (n_store registered_node) (hexEncode (replicate 32 0))
   = Some (zeroOrder\<lparr>o_SNodePubkey := hexEncode hub_key, o_Role := byte_of_char CHR ''B'', o_Status := ''accepting''\<rparr>)"
  by (simp add: registered_node_def Store_Get_eq)

lemma registered_fields:
  "n_timers registered_node = []" "n_takeRetries registered_node = [hexEncode (replicate 32 0) \<mapsto> \<lparr>tr_params = retry_params, tr_attempts = 0\<rparr>]"
  by (simp_all add: registered_node_def idle_node_def)

lemma accepting_early: "stateOrdinal ''accepting'' \<le> 3"
  by (simp add: stateOrdinal_def statusString_def DescrStateOrdinal_def descrStateNames_def DescrAccepting_def)

lemma example_heeded: "heeded quiet_env hub_pkt reject_body registered_node"
  by (simp add: heeded_def reject_body_def registered_order accepting_early hub_verified)

lemma example_cap: "e_takeRetry quiet_env = 2"
  by (simp add: quiet_env_def)

lemma rejected_fields:
  "n_timers rejected_node = [(hexEncode (replicate 32 0), retry_params, 1, 20)]"
  "n_takeRetries rejected_node = [hexEncode (replicate 32 0) \<mapsto> \<lparr>tr_params = retry_params, tr_attempts = 1\<rparr>]"
  "map_option o_Status (Store_Get (n_store rejected_node) (hexEncode (replicate 32 0))) = Some ''open''"
proof -
  define m where "m = persist quiet_env (let n = upd_order (hexEncode (replicate 32 0)) (\<lambda>ord. clearUsedCoins (ord\<lparr>o_Reason := crNotAccepted, o_Status := ''open''\<rparr>))
      (upd_order (hexEncode (replicate 32 0)) (\<lambda>ord. ord\<lparr>o_Reason := crNotAccepted\<rparr>) registered_node)
    in n\<lparr>n_store := RemovePendingPackets (n_store n) (hexEncode (replicate 32 0))\<rparr>)"
  have eq: "rejected_node = scheduleTakeRetry quiet_env (hexEncode (replicate 32 0)) m"
    using accepting_early by (simp add: rejected_node_def handleRemoteReject_def reject_body_def registered_order hub_verified m_def Let_def)
  have "n_timers m = []" "n_takeRetries m = n_takeRetries registered_node"
    by (simp_all add: m_def Let_def registered_fields)
  moreover have "map_option o_Status (Store_Get (n_store m) (hexEncode (replicate 32 0))) = Some ''open''"
    using registered_order by (simp add: m_def Let_def persist_def upd_order_def Update_def RemovePendingPackets_def Store_Get_eq clearUsedCoins_def AList.update_conv')
  ultimately show "n_timers rejected_node = [(hexEncode (replicate 32 0), retry_params, 1, 20)]"
    "n_takeRetries rejected_node = [hexEncode (replicate 32 0) \<mapsto> \<lparr>tr_params = retry_params, tr_attempts = 1\<rparr>]"
    "map_option o_Status (Store_Get (n_store rejected_node) (hexEncode (replicate 32 0))) = Some ''open''"
    unfolding eq by (simp_all add: scheduleTakeRetry_def example_cap registered_fields arm_take_retry_def takeRetryBackoffFor_def takeRetryBackoff_def)
qed

lemma fired_fields:
  "n_timers (next_timer rejected_node) = [(hexEncode (replicate 32 0), retry_params, 2, 40)]"
  "n_takeRetries (next_timer rejected_node) = [hexEncode (replicate 32 0) \<mapsto> \<lparr>tr_params = retry_params, tr_attempts = 2\<rparr>]"
  using rejected_fields(3)
  by (auto simp: fire_timer_def rejected_fields(1,2) runTakeRetry_def offline_retake arm_take_retry_def example_cap Let_def
      errNoServiceNode_def errBadRequest_def errTxNotFound_def errInvalidState_def takeRetryBackoffFor_def takeRetryBackoff_def)

lemma example_run: "retry_run (hexEncode (replicate 32 0)) 2 registered_node [quiet_env, quiet_env, quiet_env] 1 2 (next_timer (next_timer rejected_node))"
proof -
  note cap = example_cap
  have calm: "steady i id" for i
    by (simp add: steady_def)
  have "retry_run (hexEncode (replicate 32 0)) 2 registered_node [quiet_env] 1 0 rejected_node"
    using retry_run.rr_reject [OF retry_run.rr_start cap _ example_heeded] by (simp add: rejected_node_def reject_body_def)
  hence "retry_run (hexEncode (replicate 32 0)) 2 registered_node [quiet_env, quiet_env] 1 1 (next_timer rejected_node)"
    using retry_run.rr_fire [OF _ cap _ _ calm calm] by (simp add: rejected_fields)
  thus ?thesis
    using retry_run.rr_fire [OF _ cap _ _ calm calm] by (simp add: fired_fields numeral_2_eq_2)
qed

theorem take_retries_bounded_witness:
  "2 + timers_of (hexEncode (replicate 32 0)) (next_timer (next_timer rejected_node)) \<le> 2"
proof -
  have "n_takeRetries registered_node (hexEncode (replicate 32 0)) = Some \<lparr>tr_params = retry_params, tr_attempts = 0\<rparr>"
    "timers_of (hexEncode (replicate 32 0)) registered_node = 0"
    by (simp_all add: registered_node_def timers_of_def idle_node_def)
  thus ?thesis
    using take_retries_bounded [OF example_run] by simp
qed

end
