(* ===== verification/Spec2Isabelle.thy ===== *)
theory Spec2Isabelle
  imports ProtoPacket Tx Address StoreSpec Durability SwapSpend SwapGuards EngineProps OrderProps TakeRetryProps
begin

text \<open>
  \<^bold>\<open>A verification development for go-xbridge\<close>

  go-xbridge is a trader's node for atomic swaps between coins. It keeps a book of orders announced by
  service nodes (hubs), lets a local client make, take and cancel orders over JSON-RPC, and runs the
  swap of a taken order: both sides lock coins in hashed time-lock contracts, the maker claims first
  and thereby shows the secret, the taker claims with it, and whoever is left waiting gets a refund
  after the lock time.

  \<^bold>\<open>The parts and how they interact.\<close> A reader goroutine takes packets off the peer connection (\<^verbatim>\<open>p2p\<close>,
  \<^verbatim>\<open>proto\<close>, \<^verbatim>\<open>crypto\<close>), drops what does not decode or verify, and hands the rest to one engine goroutine
  (\<^verbatim>\<open>api/engine.go\<close>). The engine is the only writer of the swap sessions (\<^verbatim>\<open>api/swap.go\<close>): it handles a
  packet, applies the result of a task that a worker ran against a wallet, or runs a sweep. It posts new
  tasks, saves the sessions and orders to disk and sends packets. Handlers of the JSON-RPC server run
  beside it; they prepare an order with wallet calls and hand the engine one unit of work that commits
  it (\<^verbatim>\<open>api/node.go\<close>). The order store (\<^verbatim>\<open>api/store.go\<close>) is shared under a lock, and a second goroutine
  writes queued snapshots to disk (\<^verbatim>\<open>api/persist.go\<close>).

  \<^bold>\<open>Theories, by part of the program\<close>

  \<^item> Prelude, GoStrings, Float64, Sha256: bytes and words, Go results (\<open>'a go\<close>, an error or a panic on
    the left), strings and numbers of Go's library, binary64 arithmetic as rationals with the rounding
    \<open>fl\<close>, and SHA-256.
  \<^item> ProtoBody, ProtoHandshake, ProtoOrder, ProtoPacket: \<^verbatim>\<open>src/proto\<close> and \<^verbatim>\<open>src/crypto/signer.go\<close>, the body
    reader and writer, all bodies, the dispatch by command, the packet frame and its signature. They show
    round trips, that a decoded body is well-formed and that the accepted frames are exactly the encodings.
  \<^item> Config, Coin, Base58, Bech32, Address, Script, Tx: \<^verbatim>\<open>src/config\<close> and \<^verbatim>\<open>src/coins\<close>. They show round
    trips of amounts, addresses and transactions in four layouts, that loading does not depend on the
    order of a map, and who can spend the deposit contract under an interpreter of its opcodes.
  \<^item> SwapPrice, SwapDeposit: \<^verbatim>\<open>src/swap\<close>, the price check of partial orders and the deposit transaction.
  \<^item> ApiResponse, Order, Store, StoreSpec, Durability: the forms of the API, the order record, the order
    store with an abstract book that it refines, and the two writers of the swap file as interleaved steps.
  \<^item> SwapTx, SwapSpend: what the workers of a swap compute (deposits, refunds, claims, checks of the other
    side), and that refunds and claims spend what they are meant to under the contract and the coin's
    own signature hash.
  \<^item> SwapNode, SwapRefund, SwapHandlers, SwapWatch, Reconcile, TakeRetry: the node as the record \<open>Node\<close>
    with sessions in a heap (a queued task keeps a pointer to its session), and every handler, result,
    sweep and retry of \<^verbatim>\<open>api/swap.go\<close>, \<^verbatim>\<open>api/refund.go\<close> and their neighbours as a function on it. The
    record \<open>Env\<close> is what a step sees of its surroundings.
  \<^item> UtxoProof, UtxoSelect, WalletTx: proofs of funds, \<^verbatim>\<open>api/utxo_select.go\<close>, \<^verbatim>\<open>api/fee_tx.go\<close> and the
    transactions of \<^verbatim>\<open>api/handlers.go\<close>.
  \<^item> Engine: the reader, the choice of a hub, booking of announced orders, expiry, announcing again, and
    the sequences of the ticks (\<^verbatim>\<open>api/engine.go\<close>, \<^verbatim>\<open>api/node.go\<close>, \<^verbatim>\<open>api/hold_resend.go\<close>).
  \<^item> OrderCommit, OrderEntry: \<^verbatim>\<open>MakeOrder\<close>, \<^verbatim>\<open>TakeOrder\<close> and \<^verbatim>\<open>CancelOrder\<close>, with the engine units that
    commit and undo them; what other goroutines do in between is an arbitrary function argument.
  \<^item> SwapSpec, SwapView, SwapRun, SwapSafety, SwapGuards, EngineProps, OrderProps, TakeRetryProps: the
    properties of the running node, see below.
  \<^item> P2PWire, P2PConn, ServiceNode: \<^verbatim>\<open>src/p2p\<close>, the frames, the version handshake, the connection with its
    send queue, and the registry of service nodes with its pings.

  \<^bold>\<open>What the lemmas show\<close>

  \<^item> Specification and refinement. SwapSpec states what the engine promises as a board of cells and jobs
    (locale \<open>job_board\<close>). SwapRun gives the engine as a step relation whose steps are packets,
    results, sweeps and the order units, with wallets, disk, peers and clock free in every step; SwapView
    says what each operation does to the board (the locale \<open>node_frame\<close> collects what most of them leave
    alone), and SwapSafety shows that every run from a node at rest is a run of the board. The sweep that
    gives up on a guard after three minutes is a step at any time; a run is labelled with the sessions whose
    guard it released while their task was still outstanding. Without such a release a session has at most
    one task and its state only moves forward; with it, the number of tasks is bounded by the releases and
    the state does not fall below that of the session's own deposit. The store refines an abstract book in
    StoreSpec.
  \<^item> Fund safety. The contract opens in two ways only; the taker's refund comes due before the maker's;
    the refund that is signed before a deposit is sent spends that deposit; a claim pays what was locked;
    the secret reaches the taker; nothing is broadcast before its intent is on disk; packets that do not
    verify change nothing.
  \<^item> Orders. A take is all or nothing and leaves no reservation behind; a rejected take is tried again at
    most as often as configured, the whole re-take included; takes in flight never share inputs; the selections cover what they have to; a partial order is cut into at most ten outputs that
    add up.
  \<^item> Behaviour that differs from the intent is stated as a theorem about the code as it is: for instance
    \<open>partial_take_hold_ignored\<close>, \<open>stale_take_replaces_session\<close>, \<open>split_order_never_announced\<close>,
    \<open>commitMake_ignores_locks\<close>, \<open>createA_replaces_refund\<close>, \<open>persistNow_clobbered\<close>, \<open>handshake_panics\<close>,
    \<open>resend_hides_silence\<close>, \<open>late_deposit_rewinds\<close>.
  \<^item> Interfaces are locales, each interpreted on the model's own definitions: the body and field codecs, the sorting
    routine of Go's library, the store's laws and the board among them.

  \<^bold>\<open>Bounds and loops.\<close> Loops are structural recursions, functions with a measure, or folds over the list
  they range over; the order in which Go ranges over a map is an argument. Fuel occurs only where the
  source has a limit of its own, as the 64 draws of a new key. Machine integers keep their width and wrap;
  Go's \<^verbatim>\<open>int\<close> is \<open>int\<close> where the source bounds it, and the conversions that can change a value are written
  out.

  \<^bold>\<open>Assumptions of the model.\<close> The curve library, RIPEMD-160, wallets, the JSON decoder, random draws, the
  disk and the wire are parameters; a theorem that needs something of them says so in a hypothesis, and
  its witness gives an instance. One call of a handler or sweep sees one clock value and one configuration.
  A call of \<^verbatim>\<open>TakeOrder\<close> or \<^verbatim>\<open>MakeOrder\<close> reads the store once while it prepares; other goroutines act
  between its stages. A run starts at rest: no task is outstanding and the sessions, restored ones
  included, are filed under their own keys.

  \<^bold>\<open>Not modelled.\<close> Logging, the transcript and the branches for a node whose engine is not running (the
  inline mode of tests); goroutines, channels, deadlines and sockets beyond their order; the send queue's
  checks outside its lock; wallet clients, their JSON-RPC and the activation of wallets; peer discovery and
  seeds; the HTTP server, the dispatch table, parameter parsing and rendering of most results, and the help
  texts; start-up and shutdown. These are input and output, or glue whose behaviour is a parameter above.
\<close>

end
